(* ===== verification/Money.thy ===== *)
theory Money
  imports Prelude
begin

text \<open>
  The money crate (\<open>crates/money/src/lib.rs\<close>): currencies, amounts in integer minor units,
  checked addition and subtraction, half-up rounding of a rational, scaling, and allocation
  of a total over weights by the largest-remainder method. \<open>u128\<close> intermediates are \<open>nat\<close>
  (every one of them stays below \<open>2 ^ 128\<close> for 64-bit inputs); an \<open>as i64\<close> cast
  and the \<open>expect\<close> after it are modelled, so a panic of the allocation is the value \<open>None\<close>.
\<close>

section \<open>Currencies\<close>

datatype currency = Currency char char char

datatype money_error =
    CurrencyMismatch currency currency
  | Overflow
  | InvalidCurrency string
  | InvalidAllocationWeights
  | InvalidExponent

definition USD :: currency where
  "USD = Currency (CHR ''U'') (CHR ''S'') (CHR ''D'')"

definition EUR :: currency where
  "EUR = Currency (CHR ''E'') (CHR ''U'') (CHR ''R'')"

definition GBP :: currency where
  "GBP = Currency (CHR ''G'') (CHR ''B'') (CHR ''P'')"

definition JPY :: currency where
  "JPY = Currency (CHR ''J'') (CHR ''P'') (CHR ''Y'')"

definition is_ascii_uppercase :: "char \<Rightarrow> bool" where
  "is_ascii_uppercase c \<longleftrightarrow> 65 \<le> (of_char c :: nat) \<and> (of_char c :: nat) \<le> 90"

fun currency_new :: "string \<Rightarrow> money_error + currency" where
  "currency_new [a, b, c] =
     (if list_all is_ascii_uppercase [a, b, c] then Inr (Currency a b c)
      else Inl (InvalidCurrency [a, b, c]))"
| "currency_new code = Inl (InvalidCurrency code)"

text \<open>
  \<open>as_str\<close> is the three bytes read as UTF-8. Its \<open>expect\<close> cannot fire for a currency that
  came through \<open>currency_new\<close>: lemma \<open>currency_new_ascii\<close> below.
\<close>

fun currency_bytes :: "currency \<Rightarrow> string" where
  "currency_bytes (Currency a b c) = [a, b, c]"

definition default_exponent :: "currency \<Rightarrow> nat" where
  "default_exponent c =
     (let s = currency_bytes c
      in if s \<in> {''JPY'', ''KRW'', ''VND'', ''CLP''} then 0
         else if s \<in> {''BHD'', ''KWD'', ''OMR''} then 3
         else 2)"

section \<open>Amounts\<close>

record money =
  amount_minor :: int
  m_currency :: currency

definition money_new :: "int \<Rightarrow> currency \<Rightarrow> money" where
  "money_new a c = \<lparr>amount_minor = a, m_currency = c\<rparr>"

definition money_zero :: "currency \<Rightarrow> money" where
  "money_zero c = \<lparr>amount_minor = 0, m_currency = c\<rparr>"

definition money_checked_add :: "money \<Rightarrow> money \<Rightarrow> money_error + money" where
  "money_checked_add self other =
     (if m_currency self \<noteq> m_currency other
      then Inl (CurrencyMismatch (m_currency self) (m_currency other))
      else and_then (ok_or Overflow (checked_add_i64 (amount_minor self) (amount_minor other)))
             (\<lambda>a. Inr \<lparr>amount_minor = a, m_currency = m_currency self\<rparr>))"

definition money_checked_sub :: "money \<Rightarrow> money \<Rightarrow> money_error + money" where
  "money_checked_sub self other =
     (if m_currency self \<noteq> m_currency other
      then Inl (CurrencyMismatch (m_currency self) (m_currency other))
      else and_then (ok_or Overflow (checked_sub_i64 (amount_minor self) (amount_minor other)))
             (\<lambda>a. Inr \<lparr>amount_minor = a, m_currency = m_currency self\<rparr>))"

definition round_half_up :: "int \<Rightarrow> int \<Rightarrow> money_error + int" where
  "round_half_up numerator denominator =
     (if denominator = 0 then Inl Overflow
      else let neg = ((numerator < 0) \<noteq> (denominator < 0));
               n = \<bar>numerator\<bar>;
               d = \<bar>denominator\<bar>;
               q = n div d;
               r = n mod d;
               rounded = (if r * 2 \<ge> d then q + 1 else q);
               signed = (if neg then wrap_i128 (- wrap_i128 rounded) else wrap_i128 rounded)
           in if in_i64 signed then Inr signed else Inl Overflow)"

definition scale_half_up :: "money \<Rightarrow> int \<Rightarrow> int \<Rightarrow> money_error + money" where
  "scale_half_up self factor_num factor_den =
     (if factor_den = 0 then Inl Overflow
      else and_then (ok_or Overflow (checked_i128 (amount_minor self * factor_num))) (\<lambda>product.
           and_then (round_half_up product factor_den) (\<lambda>a.
             Inr \<lparr>amount_minor = a, m_currency = m_currency self\<rparr>)))"

section \<open>Largest-remainder allocation\<close>

fun floor_loop ::
  "nat \<Rightarrow> nat \<Rightarrow> nat \<Rightarrow> nat list \<Rightarrow> nat list \<times> (nat \<times> nat) list \<times> nat
   \<Rightarrow> nat list \<times> (nat \<times> nat) list \<times> nat" where
  "floor_loop total_abs sum_w i [] acc = acc"
| "floor_loop total_abs sum_w i (w # ws) (floors, remainders, allocated) =
     (let product = total_abs * w;
          fl = product div sum_w;
          rem = product mod sum_w
      in floor_loop total_abs sum_w (Suc i) ws
           (floors @ [fl], remainders @ [(i, rem)], allocated + fl))"

fun rem_le :: "nat \<times> nat \<Rightarrow> nat \<times> nat \<Rightarrow> bool" where
  "rem_le (i, r) (j, s) \<longleftrightarrow> s < r \<or> (r = s \<and> i \<le> j)"

fun hand_out :: "nat list \<Rightarrow> (nat \<times> nat) list \<Rightarrow> nat list \<Rightarrow> nat \<Rightarrow> nat list" where
  "hand_out ws [] floors leftover = floors"
| "hand_out ws ((i, r) # rs) floors leftover =
     (if leftover = 0 then floors
      else if ws ! i = 0 then hand_out ws rs floors leftover
      else hand_out ws rs (floors[i := floors ! i + 1]) (leftover - 1))"

fun sign_parts :: "int \<Rightarrow> currency \<Rightarrow> nat list \<Rightarrow> money list option" where
  "sign_parts sg c [] = Some []"
| "sign_parts sg c (f # fs) =
     (case checked_mul_i64 (wrap_i64 (int f)) sg of
        None \<Rightarrow> None
      | Some minor \<Rightarrow> map_option ((#) (money_new minor c)) (sign_parts sg c fs))"

definition allocate_largest_remainder ::
  "money \<Rightarrow> nat list \<Rightarrow> (money_error + money list) option" where
  "allocate_largest_remainder tot weights =
     (if weights = [] \<or> list_all (\<lambda>w. w = 0) weights then Some (Inl InvalidAllocationWeights)
      else let sum_w = sum_list weights;
               total_abs = nat \<bar>amount_minor tot\<bar>;
               sg = (if amount_minor tot < 0 then - 1 else 1);
               (floors, remainders, allocated) = floor_loop total_abs sum_w 0 weights ([], [], 0);
               leftover = total_abs - allocated;
               floors' = hand_out weights (sort_by rem_le remainders) floors leftover
           in map_option Inr (sign_parts sg (m_currency tot) floors'))"

section \<open>Currencies and checked arithmetic\<close>

lemma currency_new_Inr:
  "currency_new s = Inr c \<longleftrightarrow> s = currency_bytes c \<and> list_all is_ascii_uppercase s"
  by (cases c; induction s rule: currency_new.induct) auto

lemma currency_new_ascii: "currency_new s = Inr c \<Longrightarrow> b \<in> set (currency_bytes c) \<Longrightarrow> (of_char b :: nat) < 128"
  by (auto simp: currency_new_Inr list_all_iff is_ascii_uppercase_def)

lemma money_new_sel [simp]: "amount_minor (money_new a c) = a" "m_currency (money_new a c) = c"
  by (simp_all add: money_new_def)

lemma eq_money_new [simp]: "m = money_new a (m_currency m) \<longleftrightarrow> a = amount_minor m"
  by (cases m) (auto simp: money_new_def)

lemma money_checked_add_Inr [result_simps]:
  "money_checked_add a b = Inr c \<longleftrightarrow>
     m_currency a = m_currency b \<and> in_i64 (amount_minor a + amount_minor b) \<and>
     c = money_new (amount_minor a + amount_minor b) (m_currency a)"
  by (auto simp: money_checked_add_def money_new_def result_simps checked_simps)

lemma money_checked_sub_Inr [result_simps]:
  "money_checked_sub a b = Inr c \<longleftrightarrow>
     m_currency a = m_currency b \<and> in_i64 (amount_minor a - amount_minor b) \<and>
     c = money_new (amount_minor a - amount_minor b) (m_currency a)"
  by (auto simp: money_checked_sub_def money_new_def result_simps checked_simps)

section \<open>Half-up rounding\<close>

text \<open>
  The specification: \<open>r\<close> is an integer nearest to \<open>n / d\<close>, and on a tie the one further
  from zero. It determines \<open>r\<close>.
\<close>

definition nearest_away :: "int \<Rightarrow> int \<Rightarrow> int \<Rightarrow> bool" where
  "nearest_away n d r \<longleftrightarrow>
     2 * \<bar>r * d - n\<bar> \<le> \<bar>d\<bar> \<and> (2 * \<bar>r * d - n\<bar> = \<bar>d\<bar> \<longrightarrow> \<bar>n\<bar> \<le> \<bar>r * d\<bar>)"

definition rounded_abs :: "int \<Rightarrow> int \<Rightarrow> int" where
  "rounded_abs n d = (if n mod d * 2 \<ge> d then n div d + 1 else n div d)"

lemma rounded_abs_nonneg: "0 \<le> n \<Longrightarrow> 0 < d \<Longrightarrow> 0 \<le> rounded_abs n d"
  by (simp add: rounded_abs_def pos_imp_zdiv_nonneg_iff)

lemma rounded_abs_le: "0 \<le> n \<Longrightarrow> 0 < d \<Longrightarrow> rounded_abs n d \<le> n"
proof (cases "d = 1 \<or> n = 0")
  case True
  then show "0 \<le> n \<Longrightarrow> 0 < d \<Longrightarrow> ?thesis" by (auto simp: rounded_abs_def)
next
  case False
  assume "0 \<le> n" "0 < d"
  with False have "n div d < n" by (simp add: int_div_less_self)
  then show ?thesis by (simp add: rounded_abs_def)
qed

lemma nearest_away_rounded_abs: "0 \<le> n \<Longrightarrow> 0 < d \<Longrightarrow> nearest_away n d (rounded_abs n d)"
proof -
  assume n: "0 \<le> n" and d: "0 < d"
  define q r where "q = n div d" and "r = n mod d"
  have nqr: "n = q * d + r" and r: "0 \<le> r" "r < d" and q: "0 \<le> q"
    using n d by (auto simp: q_def r_def pos_imp_zdiv_nonneg_iff)
  then have "0 \<le> q * d" using d by simp
  then show ?thesis
    using r d q unfolding nearest_away_def rounded_abs_def q_def [symmetric] r_def [symmetric]
    by (auto simp: nqr algebra_simps)
qed

lemma nearest_away_sign:
  "nearest_away n d r \<Longrightarrow> nearest_away (- n) d (- r)"
  "nearest_away n d r \<Longrightarrow> nearest_away n (- d) (- r)"
  by (auto simp: nearest_away_def abs_minus_commute algebra_simps)

definition signed_round :: "int \<Rightarrow> int \<Rightarrow> int" where
  "signed_round n d =
     (if (n < 0) \<noteq> (d < 0) then - rounded_abs \<bar>n\<bar> \<bar>d\<bar> else rounded_abs \<bar>n\<bar> \<bar>d\<bar>)"

lemma nearest_away_signed_round: "d \<noteq> 0 \<Longrightarrow> nearest_away n d (signed_round n d)"
  using nearest_away_rounded_abs [of "\<bar>n\<bar>" "\<bar>d\<bar>"]
    nearest_away_sign(1) [of "- n" d] nearest_away_sign(2) [of n "- d"]
    nearest_away_sign(1) [of "- n" "- d"] nearest_away_sign(2) [of "- n" "- d"]
    nearest_away_sign(2) [of "n" "- d" "- signed_round n d"]
  by (auto simp: signed_round_def abs_if split: if_splits dest: nearest_away_sign)

lemma signed_round_abs: "d \<noteq> 0 \<Longrightarrow> \<bar>signed_round n d\<bar> \<le> \<bar>n\<bar>"
  using rounded_abs_le [of "\<bar>n\<bar>" "\<bar>d\<bar>"] rounded_abs_nonneg [of "\<bar>n\<bar>" "\<bar>d\<bar>"]
  by (auto simp: signed_round_def)

lemma nearest_away_unique:
  assumes "d \<noteq> 0" and r: "nearest_away n d r" and s: "nearest_away n d s"
  shows "r = s"
proof -
  have "\<bar>(r - s) * d\<bar> \<le> \<bar>r * d - n\<bar> + \<bar>s * d - n\<bar>"
    by (simp add: algebra_simps)
  with r s have le: "\<bar>(r - s) * d\<bar> \<le> \<bar>d\<bar>" by (simp add: nearest_away_def)
  then have "\<bar>r - s\<bar> * \<bar>d\<bar> \<le> 1 * \<bar>d\<bar>" by (simp add: abs_mult)
  with \<open>d \<noteq> 0\<close> have one: "\<bar>r - s\<bar> \<le> 1"
    by (metis mult_le_cancel_right_pos zero_less_abs_iff)
  show ?thesis
  proof (rule ccontr)
    assume "r \<noteq> s"
    with one have s_cases: "s = r + 1 \<or> s = r - 1" by linarith
    then have "\<bar>r * d - n\<bar> + \<bar>s * d - n\<bar> \<ge> \<bar>d\<bar>" by (auto simp: algebra_simps)
    with r s have ties: "2 * \<bar>r * d - n\<bar> = \<bar>d\<bar>" "2 * \<bar>s * d - n\<bar> = \<bar>d\<bar>"
      by (auto simp: nearest_away_def)
    with s_cases \<open>d \<noteq> 0\<close> have n: "2 * n = r * d + s * d"
      by (auto simp: algebra_simps abs_if split: if_splits)
    then have "\<bar>r + s\<bar> * \<bar>d\<bar> = 2 * \<bar>n\<bar>" by (simp add: abs_mult [symmetric] distrib_right)
    moreover from r s ties have "\<bar>n\<bar> \<le> \<bar>r\<bar> * \<bar>d\<bar>" "\<bar>n\<bar> \<le> \<bar>s\<bar> * \<bar>d\<bar>"
      by (simp_all add: nearest_away_def abs_mult)
    ultimately have "\<bar>r + s\<bar> * \<bar>d\<bar> \<le> (2 * \<bar>r\<bar>) * \<bar>d\<bar>" "\<bar>r + s\<bar> * \<bar>d\<bar> \<le> (2 * \<bar>s\<bar>) * \<bar>d\<bar>"
      by simp_all
    with \<open>d \<noteq> 0\<close> have "\<bar>r + s\<bar> \<le> 2 * \<bar>r\<bar>" "\<bar>r + s\<bar> \<le> 2 * \<bar>s\<bar>"
      by (metis mult_le_cancel_right_pos zero_less_abs_iff)+
    with s_cases show False by auto
  qed
qed

lemma wrap_i128_limit: "wrap_i128 (2 ^ 127) = - (2 ^ 127)"
  by (simp add: wrap_i128_def)

lemma round_half_up_eq:
  assumes "in_i128 n" and "in_i128 d" and "d \<noteq> 0"
  shows "round_half_up n d =
    (if in_i64 (signed_round n d) then Inr (signed_round n d) else Inl Overflow)"
proof -
  let ?m = "rounded_abs \<bar>n\<bar> \<bar>d\<bar>"
  have m: "0 \<le> ?m" "?m \<le> \<bar>n\<bar>" "\<bar>n\<bar> \<le> 2 ^ 127"
    using assms rounded_abs_nonneg [of "\<bar>n\<bar>" "\<bar>d\<bar>"] rounded_abs_le [of "\<bar>n\<bar>" "\<bar>d\<bar>"]
    by (auto simp: in_i128_def)
  have rhu: "round_half_up n d =
    (let s = (if (n < 0) \<noteq> (d < 0) then wrap_i128 (- wrap_i128 ?m) else wrap_i128 ?m)
     in if in_i64 s then Inr s else Inl Overflow)"
    using assms(3) by (simp add: round_half_up_def rounded_abs_def Let_def)
  show ?thesis
  proof (cases "?m = 2 ^ 127")
    case True
    then show ?thesis
      by (simp add: rhu signed_round_def Let_def wrap_i128_limit) (simp add: int_ranges wrap_i128_def)
  next
    case False
    with m have "in_i128 ?m" "in_i128 (- ?m)" by (auto simp: in_i128_def)
    then show ?thesis by (simp add: rhu signed_round_def Let_def wrap_i128_id)
  qed
qed

lemma round_half_up_Inr:
  assumes "in_i128 n" and "in_i128 d" and "d \<noteq> 0" and "round_half_up n d = Inr r"
  shows "nearest_away n d r \<and> in_i64 r"
  using assms nearest_away_signed_round [of d n] by (auto simp: round_half_up_eq split: if_splits)

lemma scale_half_up_Inr:
  assumes "in_i64 (amount_minor m)" and "in_i64 k" and "in_i64 d" and "d \<noteq> 0"
  shows "scale_half_up m k d = Inr m' \<longleftrightarrow>
    (\<exists>r. nearest_away (amount_minor m * k) d r \<and> in_i64 r \<and> m' = money_new r (m_currency m))"
proof -
  have p: "in_i128 (amount_minor m * k)" using assms(1,2) by (rule in_i128_mult_i64)
  have d: "in_i128 d" using assms(3) by (rule in_i64_in_i128)
  show ?thesis
    using assms(4) nearest_away_signed_round [OF assms(4)]
      nearest_away_unique [OF assms(4)]
    by (auto simp: scale_half_up_def checked_i128_def p round_half_up_eq [OF p d assms(4)]
        money_new_def split: if_splits)
qed

section \<open>Allocation\<close>

text \<open>The first loop, in closed form.\<close>

lemma floor_loop_eq:
  "floor_loop t s i ws (fl, re, al) =
     (fl @ map (\<lambda>w. t * w div s) ws,
      re @ zip [i..<i + length ws] (map (\<lambda>w. t * w mod s) ws),
      al + sum_list (map (\<lambda>w. t * w div s) ws))"
proof (induction ws arbitrary: i fl re al)
  case (Cons w ws)
  have "[i..<i + length (w # ws)] = i # [Suc i..<Suc i + length ws]"
    by (simp add: upt_conv_Cons del: upt_Suc)
  then show ?case by (simp add: Let_def Cons.IH del: upt_Suc)
qed simp

lemma rem_le_transp: "transp rem_le"
  by (rule transpI) auto

lemma rem_le_total: "rem_le x y \<or> rem_le y x"
  by (cases x; cases y) auto

text \<open>The second loop adds one unit to each of the first \<open>k\<close> shares with a positive weight.\<close>

definition bumped :: "nat list \<Rightarrow> (nat \<times> nat) list \<Rightarrow> nat \<Rightarrow> nat list" where
  "bumped ws rs k = map fst (take k (filter (\<lambda>p. ws ! fst p \<noteq> 0) rs))"

lemma length_hand_out [simp]: "length (hand_out ws rs fl k) = length fl"
  by (induction ws rs fl k rule: hand_out.induct) auto

lemma hand_out_nth:
  assumes "distinct (map fst rs)" and "j < length fl"
  shows "hand_out ws rs fl k ! j = fl ! j + (if j \<in> set (bumped ws rs k) then 1 else 0)"
  using assms
proof (induction ws rs fl k rule: hand_out.induct)
  case (2 ws i r rs fl k)
  have sub: "set (bumped ws rs m) \<subseteq> fst ` set rs" for m
    by (auto simp: bumped_def dest!: in_set_takeD)
  with "2.prems"(1) have "i \<notin> set (bumped ws rs m)" for m by auto
  with "2.IH" "2.prems" show ?case
    by (cases k; cases "j = i") (simp_all add: bumped_def)
qed (simp add: bumped_def)

lemma sum_list_hand_out:
  assumes "\<forall>p \<in> set rs. fst p < length fl"
  shows "sum_list (hand_out ws rs fl k) = sum_list fl + min k (length (filter (\<lambda>p. ws ! fst p \<noteq> 0) rs))"
  using assms
proof (induction ws rs fl k rule: hand_out.induct)
  case (2 ws i r rs fl k)
  then show ?case by (cases k) (auto simp: sum_list_update)
qed simp

text \<open>The units left over are at most as many as the shares with a positive remainder.\<close>

lemma sum_list_bounded:
  fixes s :: nat
  assumes "\<forall>x \<in> set xs. x < s"
  shows "sum_list xs \<le> s * length (filter (\<lambda>x. 0 < x) xs)"
  using assms by (induction xs) (auto intro: add_mono)

lemma leftover_bound:
  fixes t s :: nat
  assumes "s = sum_list ws" and "0 < s"
  defines "A \<equiv> sum_list (map (\<lambda>w. t * w div s) ws)"
  shows "A \<le> t" and "t - A \<le> length (filter (\<lambda>w. 0 < t * w mod s) ws)"
proof -
  let ?R = "sum_list (map (\<lambda>w. t * w mod s) ws)"
  have "t * sum_list ws = sum_list (map (\<lambda>w. t * w div s * s + t * w mod s) ws)"
    by (simp add: sum_list_const_mult)
  also have "\<dots> = A * s + ?R"
    by (simp only: sum_list_addf A_def sum_list_mult_const)
  finally have split: "t * s = A * s + ?R" using assms(1) by simp
  then have "A * s \<le> t * s" by simp
  with \<open>0 < s\<close> show le: "A \<le> t" by simp
  have "(t - A) * s = ?R" using split by (simp add: diff_mult_distrib)
  also have "?R \<le> s * length (filter (\<lambda>x. 0 < x) (map (\<lambda>w. t * w mod s) ws))"
    using \<open>0 < s\<close> by (intro sum_list_bounded) auto
  finally show "t - A \<le> length (filter (\<lambda>w. 0 < t * w mod s) ws)"
    using \<open>0 < s\<close> by (simp add: filter_map comp_def mult.commute)
qed

text \<open>In a list that has all elements satisfying \<open>P\<close> first, a short enough prefix satisfies it.\<close>

lemma take_filter_sorted:
  assumes "sorted_wrt (\<lambda>x y. P y \<longrightarrow> P x) xs" and "k \<le> length (filter P xs)"
  shows "\<forall>x \<in> set (take k xs). P x"
  using assms
proof (induction xs arbitrary: k)
  case (Cons x xs)
  show ?case
  proof (cases "P x")
    case True
    have "\<forall>y \<in> set (take (k - 1) xs). P y"
      using Cons.prems True by (intro Cons.IH) simp_all
    with True show ?thesis by (cases k) simp_all
  next
    case False
    with Cons.prems have "filter P (x # xs) = []"
      by (simp add: filter_empty_conv)
    with Cons.prems(2) show ?thesis by simp
  qed
qed simp

lemma sign_parts_eq:
  assumes "\<forall>f \<in> set fs. f < 2 ^ 63" and "sg = 1 \<or> sg = - 1"
  shows "sign_parts sg c fs = Some (map (\<lambda>f. money_new (sg * int f) c) fs)"
  using assms
proof (induction fs)
  case (Cons f fs)
  then have "int f < 2 ^ 63" by simp
  then have "in_i64 (int f)" "in_i64 (int f * sg)"
    using assms(2) by (auto simp: in_i64_def)
  with Cons show ?case by (simp add: wrap_i64_id checked_i64_def mult.commute)
qed simp

text \<open>
  The two loops together, before the sign is put back: the remainders and floors of a total
  \<open>t\<close>, the units left over, and the shares.
\<close>

definition alloc_rems :: "nat \<Rightarrow> nat list \<Rightarrow> (nat \<times> nat) list" where
  "alloc_rems t ws = zip [0..<length ws] (map (\<lambda>w. t * w mod sum_list ws) ws)"

definition alloc_floors :: "nat \<Rightarrow> nat list \<Rightarrow> nat list" where
  "alloc_floors t ws = map (\<lambda>w. t * w div sum_list ws) ws"

definition alloc_eligible :: "nat \<Rightarrow> nat list \<Rightarrow> (nat \<times> nat) list" where
  "alloc_eligible t ws = filter (\<lambda>p. ws ! fst p \<noteq> 0) (sort_by rem_le (alloc_rems t ws))"

definition alloc_shares :: "nat \<Rightarrow> nat list \<Rightarrow> nat list" where
  "alloc_shares t ws =
     hand_out ws (sort_by rem_le (alloc_rems t ws)) (alloc_floors t ws)
       (t - sum_list (alloc_floors t ws))"

lemma allocate_eq:
  assumes "\<exists>w \<in> set ws. 0 < w"
  shows "allocate_largest_remainder tot ws =
    map_option Inr (sign_parts (if amount_minor tot < 0 then - 1 else 1) (m_currency tot)
      (alloc_shares (nat \<bar>amount_minor tot\<bar>) ws))"
proof -
  from assms have "\<not> (ws = [] \<or> list_all (\<lambda>w. w = 0) ws)" by (auto simp: list_all_iff)
  then show ?thesis
    by (simp add: allocate_largest_remainder_def alloc_shares_def alloc_rems_def alloc_floors_def
        floor_loop_eq Let_def)
qed

lemma alloc_rems_nth:
  "p \<in> set (alloc_rems t ws) \<Longrightarrow> fst p < length ws \<and> snd p = t * ws ! fst p mod sum_list ws"
  by (auto simp: alloc_rems_def set_zip)

lemma distinct_alloc_rems: "distinct (map fst (sort_by rem_le (alloc_rems t ws)))"
proof -
  have "mset (map fst (sort_by rem_le (alloc_rems t ws))) = mset (map fst (alloc_rems t ws))"
    by (simp only: mset_map mset_sort_by)
  also have "map fst (alloc_rems t ws) = [0..<length ws]" by (simp add: alloc_rems_def)
  finally show ?thesis by (metis distinct_upt mset_eq_imp_distinct_iff)
qed

lemma length_filter_sort: "length (filter P (sort_by le xs)) = length (filter P xs)"
  by (metis mset_filter mset_sort_by size_mset)

lemma positive_rems:
  "length (filter (\<lambda>p. 0 < snd p) (alloc_rems t ws)) = length (filter (\<lambda>w. 0 < t * w mod sum_list ws) ws)"
proof -
  have "length (filter (\<lambda>p. 0 < snd p) (alloc_rems t ws)) = length (filter ((<) 0) (map snd (alloc_rems t ws)))"
    unfolding filter_map length_map comp_def ..
  also have "map snd (alloc_rems t ws) = map (\<lambda>w. t * w mod sum_list ws) ws"
    by (simp add: alloc_rems_def)
  finally show ?thesis by (simp add: filter_map comp_def)
qed

lemma filter_eligible:
  "filter (\<lambda>p. 0 < snd p) (alloc_eligible t ws) = filter (\<lambda>p. 0 < snd p) (sort_by rem_le (alloc_rems t ws))"
proof -
  have "p \<in> set (sort_by rem_le (alloc_rems t ws)) \<Longrightarrow> 0 < snd p \<Longrightarrow> ws ! fst p \<noteq> 0" for p
    using alloc_rems_nth [of p t ws] by (auto intro: gr0I)
  then show ?thesis unfolding alloc_eligible_def filter_filter by (intro filter_cong) auto
qed

lemma leftover_le_eligible:
  assumes "0 < sum_list ws"
  shows "t - sum_list (alloc_floors t ws) \<le> length (filter (\<lambda>p. 0 < snd p) (alloc_eligible t ws))"
  unfolding filter_eligible length_filter_sort positive_rems alloc_floors_def
  using leftover_bound(2) [OF refl assms] .

lemma bumped_positive:
  assumes "0 < sum_list ws" and "p \<in> set (take (t - sum_list (alloc_floors t ws)) (alloc_eligible t ws))"
  shows "0 < snd p"
proof -
  have "sorted_wrt rem_le (alloc_eligible t ws)"
    unfolding alloc_eligible_def
    by (intro sorted_wrt_filter sorted_sort_by rem_le_transp rem_le_total)
  then have "sorted_wrt (\<lambda>x y. 0 < snd y \<longrightarrow> 0 < snd x) (alloc_eligible t ws)"
    by (rule sorted_wrt_mono_rel [rotated]) auto
  from take_filter_sorted [OF this leftover_le_eligible [OF assms(1)]] assms(2) show ?thesis
    by blast
qed

lemma length_alloc_shares [simp]: "length (alloc_shares t ws) = length ws"
  by (simp add: alloc_shares_def alloc_floors_def)

lemma sum_alloc_shares:
  assumes "0 < sum_list ws"
  shows "sum_list (alloc_shares t ws) = t"
proof -
  let ?k = "t - sum_list (alloc_floors t ws)"
  have "sum_list (alloc_shares t ws) = sum_list (alloc_floors t ws) + min ?k (length (alloc_eligible t ws))"
    unfolding alloc_shares_def alloc_eligible_def
    by (rule sum_list_hand_out) (auto simp: alloc_floors_def dest!: alloc_rems_nth)
  moreover have "?k \<le> length (alloc_eligible t ws)"
    using leftover_le_eligible [OF assms, of t] length_filter_le order_trans by blast
  moreover have "sum_list (alloc_floors t ws) \<le> t"
    unfolding alloc_floors_def using leftover_bound(1) [OF refl assms] .
  ultimately show ?thesis by simp
qed

lemma alloc_share_nth:
  assumes "0 < sum_list ws" and "i < length ws"
  shows "\<exists>b \<le> 1. alloc_shares t ws ! i = t * ws ! i div sum_list ws + b \<and>
    (b = 1 \<longrightarrow> 0 < t * ws ! i mod sum_list ws)"
proof -
  let ?B = "bumped ws (sort_by rem_le (alloc_rems t ws)) (t - sum_list (alloc_floors t ws))"
  have "0 < t * ws ! i mod sum_list ws" if "i \<in> set ?B"
  proof -
    from that obtain p where p: "p \<in> set (take (t - sum_list (alloc_floors t ws)) (alloc_eligible t ws))"
      and i: "i = fst p"
      by (auto simp: bumped_def alloc_eligible_def)
    have "p \<in> set (alloc_rems t ws)"
      using in_set_takeD [OF p] by (simp add: alloc_eligible_def)
    then show ?thesis using bumped_positive [OF assms(1) p] alloc_rems_nth i by metis
  qed
  moreover have "alloc_shares t ws ! i = alloc_floors t ws ! i + (if i \<in> set ?B then 1 else 0)"
    unfolding alloc_shares_def
    by (rule hand_out_nth [OF distinct_alloc_rems]) (simp add: alloc_floors_def assms(2))
  moreover have "alloc_floors t ws ! i = t * ws ! i div sum_list ws"
    by (simp add: alloc_floors_def assms(2))
  ultimately show ?thesis by (cases "i \<in> set ?B") auto
qed

lemma alloc_share_exact:
  assumes "0 < sum_list ws" and "i < length ws"
  shows "\<bar>int (alloc_shares t ws ! i) * int (sum_list ws) - int t * int (ws ! i)\<bar> < int (sum_list ws)"
proof -
  let ?s = "sum_list ws"
  obtain b where "b \<le> 1" and share: "alloc_shares t ws ! i = t * ws ! i div ?s + b"
    and pos: "b = 1 \<longrightarrow> 0 < t * ws ! i mod ?s"
    using alloc_share_nth [OF assms] by blast
  have "t * ws ! i div ?s * ?s + t * ws ! i mod ?s = t * ws ! i" by simp
  then have "int (t * ws ! i div ?s) * int ?s + int (t * ws ! i mod ?s) = int t * int (ws ! i)"
    by (metis of_nat_add of_nat_mult)
  moreover have "int (t * ws ! i mod ?s) < int ?s" using assms(1) by simp
  ultimately show ?thesis
    using \<open>b \<le> 1\<close> pos unfolding share by (cases b) (auto simp: distrib_right)
qed

lemma alloc_shares_single: "alloc_shares t [Suc w] = [t]"
proof -
  have "length (alloc_shares t [Suc w]) = 1" by simp
  then obtain f where "alloc_shares t [Suc w] = [f]" by (metis One_nat_def length_0_conv length_Suc_conv)
  with sum_alloc_shares [of "[Suc w]" t] show ?thesis by simp
qed

lemma int_sum_list: "int (sum_list xs) = sum_list (map int xs)"
  by (induction xs) simp_all

lemma allocate_parts:
  assumes "in_i64 a" and "a \<noteq> i64_min" and "\<exists>w \<in> set ws. 0 < w"
  shows "\<exists>parts. allocate_largest_remainder (money_new a c) ws = Some (Inr parts) \<and>
    length parts = length ws \<and> sum_list (map amount_minor parts) = a \<and>
    (\<forall>i < length ws. m_currency (parts ! i) = c \<and>
       \<bar>amount_minor (parts ! i) * int (sum_list ws) - a * int (ws ! i)\<bar> < int (sum_list ws))"
proof -
  define t sg where "t = nat \<bar>a\<bar>" and "sg = (if a < 0 then - 1 else 1 :: int)"
  have s: "0 < sum_list ws" using assms(3) by (metis bot_nat_0.not_eq_extremum less_irrefl sum_list_eq_0_iff)
  have a: "a = sg * int t" by (simp add: t_def sg_def)
  let ?fs = "alloc_shares t ws" let ?parts = "map (\<lambda>f. money_new (sg * int f) c) (alloc_shares t ws)"
  have "t < 2 ^ 63" using assms(1,2) by (auto simp: t_def int_ranges nat_less_iff)
  moreover have "f \<le> t" if "f \<in> set ?fs" for f
    using member_le_sum_list [OF that] sum_alloc_shares [OF s] by simp
  ultimately have "sign_parts sg c ?fs = Some ?parts"
    by (intro sign_parts_eq) (auto simp: sg_def intro: le_less_trans)
  then have "allocate_largest_remainder (money_new a c) ws = Some (Inr ?parts)"
    using allocate_eq [OF assms(3), of "money_new a c"] by (simp add: money_new_def t_def sg_def)
  moreover have "sum_list (map amount_minor ?parts) = a"
    using sum_alloc_shares [OF s, of t]
    by (simp add: comp_def money_new_def a sum_list_const_mult flip: int_sum_list)
  moreover have "\<bar>amount_minor (?parts ! i) * int (sum_list ws) - a * int (ws ! i)\<bar> < int (sum_list ws)"
    if "i < length ws" for i
  proof -
    have "amount_minor (?parts ! i) * int (sum_list ws) - a * int (ws ! i) =
        sg * (int (?fs ! i) * int (sum_list ws) - int t * int (ws ! i))"
      using that by (simp add: money_new_def a algebra_simps)
    moreover have "\<bar>sg\<bar> = 1" by (simp add: sg_def)
    ultimately show ?thesis using alloc_share_exact [OF s that, of t] by (simp add: abs_mult)
  qed
  moreover have "m_currency (?parts ! i) = c" if "i < length ws" for i
    using that by (simp add: money_new_def)
  ultimately show ?thesis by (intro exI [of _ ?parts]) simp
qed

section \<open>Properties\<close>

text \<open>
  C2: Allocating an amount over weights of which at least one is positive returns one part per
  weight in the total's currency; the parts add up to the total exactly, and every part is
  less than one minor unit away from its exact proportional share. The amount is any 64-bit
  value but the smallest one.
\<close>

theorem allocate_exact:
  assumes "in_i64 a" and "a \<noteq> i64_min" and "\<exists>w \<in> set ws. 0 < w"
  shows "\<exists>parts. allocate_largest_remainder (money_new a c) ws = Some (Inr parts) \<and>
    length parts = length ws \<and> sum_list (map amount_minor parts) = a \<and>
    (\<forall>i < length ws. m_currency (parts ! i) = c \<and>
       \<bar>amount_minor (parts ! i) * int (sum_list ws) - a * int (ws ! i)\<bar> < int (sum_list ws))"
  using assms by (rule allocate_parts)

theorem allocate_exact_witness:
  "in_i64 (- 100) \<and> - 100 \<noteq> i64_min \<and>
   (\<exists>parts. allocate_largest_remainder (money_new (- 100) USD) [1, 0, 1, 1] = Some (Inr parts) \<and>
      sum_list (map amount_minor parts) = - 100)"
  using allocate_exact [of "- 100" "[1, 0, 1, 1]" USD] by (auto simp: int_ranges)

text \<open>
  The smallest 64-bit amount given to a single positive weight makes the allocation panic:
  the magnitude of the total does not fit the cast back to a signed value, and the message of
  the \<open>expect\<close> ("fits in i64 when total does") is not true of it.
\<close>

theorem allocate_i64_min_panics:
  "allocate_largest_remainder (money_new i64_min c) [Suc w] = None"
proof -
  have "alloc_shares (2 ^ 63) [Suc w] = [2 ^ 63]" by (rule alloc_shares_single)
  moreover have "checked_mul_i64 (wrap_i64 (2 ^ 63)) (- 1) = None"
    by (simp add: wrap_i64_def checked_i64_def int_ranges)
  moreover have "nat \<bar>i64_min\<bar> = 2 ^ 63" "i64_min < 0" by (simp_all add: i64_min_def)
  ultimately show ?thesis by (simp add: allocate_eq money_new_def)
qed

text \<open>
  Half-up rounding of a quotient of two 128-bit integers returns the nearest integer, the
  one further from zero on a tie, when that integer fits 64 bits, and an overflow error
  otherwise. The specification determines the result.
\<close>

theorem round_half_up_nearest:
  assumes "in_i128 n" and "in_i128 d" and "d \<noteq> 0"
  shows "\<exists>!r. nearest_away n d r \<and>
    round_half_up n d = (if in_i64 r then Inr r else Inl Overflow)"
proof (rule ex1I [of _ "signed_round n d"])
  show "nearest_away n d (signed_round n d) \<and>
    round_half_up n d = (if in_i64 (signed_round n d) then Inr (signed_round n d) else Inl Overflow)"
    using assms by (simp add: nearest_away_signed_round round_half_up_eq)
next
  fix r assume "nearest_away n d r \<and> round_half_up n d = (if in_i64 r then Inr r else Inl Overflow)"
  then show "r = signed_round n d"
    using nearest_away_unique nearest_away_signed_round assms(3) by blast
qed

theorem round_half_up_nearest_witness:
  "in_i128 (- 5) \<and> in_i128 2 \<and> round_half_up (- 5) 2 = Inr (- 3) \<and>
   (\<exists>!r. nearest_away (- 5) 2 r \<and> round_half_up (- 5) 2 = (if in_i64 r then Inr r else Inl Overflow))"
  using round_half_up_nearest [of "- 5" 2]
  by (simp add: int_ranges round_half_up_def wrap_i128_def)

text \<open>
  Adding an amount and subtracting it again gives back the first amount whenever the sum
  exists, and checked addition fails exactly on different currencies or a sum outside 64 bits.
\<close>

lemma money_add_sub_roundtrip:
  assumes "in_i64 (amount_minor a)"
  shows "(case money_checked_add a b of
            Inr s \<Rightarrow> m_currency a = m_currency b \<and> in_i64 (amount_minor s) \<and>
              amount_minor s = amount_minor a + amount_minor b \<and> money_checked_sub s b = Inr a
          | Inl e \<Rightarrow> if m_currency a \<noteq> m_currency b
              then e = CurrencyMismatch (m_currency a) (m_currency b)
              else e = Overflow \<and> \<not> in_i64 (amount_minor a + amount_minor b))"
  using assms
  by (auto simp: money_checked_add_def money_checked_sub_def checked_i64_def)

end
