(* ===== verification/Invoice_Math.thy ===== *)
theory Invoice_Math
  imports Money
begin

text \<open>
  Line and document arithmetic of invoices
  (\<open>services/business/finance-service/src/invoice_math.rs\<close>) and of CRM quotes
  (\<open>services/business/crm-service/src/quotes_math.rs\<close>), on top of the money crate. Amounts
  are signed 64-bit minor units, tax rates are basis points, and every overflow is an error
  value. The two services keep separate copies of the line and document code; the copies are
  modelled separately and shown to agree.
\<close>

record line_input =
  quantity :: int
  unit_price_minor :: int
  in_discount_minor :: int
  tax_rate_bps :: int

record line_totals =
  gross_minor :: int
  lt_discount_minor :: int
  lt_tax_minor :: int
  line_total_minor :: int

record document_totals =
  subtotal_minor :: int
  doc_discount_minor :: int
  doc_tax_minor :: int
  total_minor :: int

section \<open>Invoices\<close>

definition compute_line :: "line_input \<Rightarrow> currency \<Rightarrow> money_error + line_totals" where
  "compute_line line cur =
     and_then (ok_or Overflow (checked_mul_i64 (quantity line) (unit_price_minor line))) (\<lambda>g.
     let gross = money_new g cur; discount = money_new (in_discount_minor line) cur in
     and_then (money_checked_sub gross discount) (\<lambda>taxable_base.
     and_then (scale_half_up taxable_base (tax_rate_bps line) 10000) (\<lambda>tax.
     and_then (money_checked_add taxable_base tax) (\<lambda>line_total.
     Inr \<lparr>gross_minor = amount_minor gross, lt_discount_minor = amount_minor discount,
          lt_tax_minor = amount_minor tax, line_total_minor = amount_minor line_total\<rparr>))))"

fun sum_document_loop ::
  "line_totals list \<Rightarrow> int \<Rightarrow> int \<Rightarrow> int \<Rightarrow> int \<Rightarrow> money_error + document_totals" where
  "sum_document_loop [] subtotal discount tax tot =
     Inr \<lparr>subtotal_minor = subtotal, doc_discount_minor = discount,
          doc_tax_minor = tax, total_minor = tot\<rparr>"
| "sum_document_loop (l # ls) subtotal discount tax tot =
     and_then (ok_or Overflow (checked_add_i64 subtotal (gross_minor l))) (\<lambda>subtotal'.
     and_then (ok_or Overflow (checked_add_i64 discount (lt_discount_minor l))) (\<lambda>discount'.
     and_then (ok_or Overflow (checked_add_i64 tax (lt_tax_minor l))) (\<lambda>tax'.
     and_then (ok_or Overflow (checked_add_i64 tot (line_total_minor l))) (\<lambda>tot'.
     sum_document_loop ls subtotal' discount' tax' tot'))))"

definition sum_document :: "line_totals list \<Rightarrow> money_error + document_totals" where
  "sum_document ls = sum_document_loop ls 0 0 0 0"

definition compute_document_totals ::
  "line_input list \<Rightarrow> currency \<Rightarrow> money_error + (line_totals list \<times> document_totals)" where
  "compute_document_totals ls cur =
     and_then (collect_res (\<lambda>l. compute_line l cur) ls) (\<lambda>computed.
     and_then (sum_document computed) (\<lambda>doc. Inr (computed, doc)))"

definition convert_to_base :: "int \<Rightarrow> int \<Rightarrow> int \<Rightarrow> currency \<Rightarrow> money_error + int" where
  "convert_to_base amount fx_rate_num fx_rate_den base_currency =
     (if fx_rate_den \<le> 0 \<or> fx_rate_num \<le> 0 then Inl Overflow
      else and_then (scale_half_up (money_new amount base_currency) fx_rate_num fx_rate_den)
        (\<lambda>m. Inr (amount_minor m)))"

section \<open>Quotes\<close>

definition quote_compute_line :: "line_input \<Rightarrow> currency \<Rightarrow> money_error + line_totals" where
  "quote_compute_line line cur =
     and_then (ok_or Overflow (checked_mul_i64 (quantity line) (unit_price_minor line))) (\<lambda>g.
     let gross = money_new g cur; discount = money_new (in_discount_minor line) cur in
     and_then (money_checked_sub gross discount) (\<lambda>taxable_base.
     and_then (scale_half_up taxable_base (tax_rate_bps line) 10000) (\<lambda>tax.
     and_then (money_checked_add taxable_base tax) (\<lambda>line_total.
     Inr \<lparr>gross_minor = amount_minor gross, lt_discount_minor = amount_minor discount,
          lt_tax_minor = amount_minor tax, line_total_minor = amount_minor line_total\<rparr>))))"

fun quote_sum_loop ::
  "line_totals list \<Rightarrow> int \<Rightarrow> int \<Rightarrow> int \<Rightarrow> int \<Rightarrow> money_error + document_totals" where
  "quote_sum_loop [] subtotal discount tax tot =
     Inr \<lparr>subtotal_minor = subtotal, doc_discount_minor = discount,
          doc_tax_minor = tax, total_minor = tot\<rparr>"
| "quote_sum_loop (l # ls) subtotal discount tax tot =
     and_then (ok_or Overflow (checked_add_i64 subtotal (gross_minor l))) (\<lambda>subtotal'.
     and_then (ok_or Overflow (checked_add_i64 discount (lt_discount_minor l))) (\<lambda>discount'.
     and_then (ok_or Overflow (checked_add_i64 tax (lt_tax_minor l))) (\<lambda>tax'.
     and_then (ok_or Overflow (checked_add_i64 tot (line_total_minor l))) (\<lambda>tot'.
     quote_sum_loop ls subtotal' discount' tax' tot'))))"

definition quote_sum_document :: "line_totals list \<Rightarrow> money_error + document_totals" where
  "quote_sum_document ls = quote_sum_loop ls 0 0 0 0"

definition compute_quote_totals ::
  "line_input list \<Rightarrow> currency \<Rightarrow> money_error + (line_totals list \<times> document_totals)" where
  "compute_quote_totals ls cur =
     and_then (collect_res (\<lambda>l. quote_compute_line l cur) ls) (\<lambda>computed.
     and_then (quote_sum_document computed) (\<lambda>doc. Inr (computed, doc)))"

text \<open>As for the allocation it calls, \<open>None\<close> is a panic.\<close>

definition allocate_document_discount ::
  "int list \<Rightarrow> int \<Rightarrow> currency \<Rightarrow> (money_error + int list) option" where
  "allocate_document_discount line_gross_minor document_discount_minor cur =
     (if document_discount_minor = 0 \<or> line_gross_minor = [] then
        Some (Inr (replicate (length line_gross_minor) 0))
      else
        let weights = map (\<lambda>g. nat (max g 0)) line_gross_minor in
        if list_all (\<lambda>w. w = 0) weights then Some (Inr (replicate (length line_gross_minor) 0))
        else map_option (\<lambda>r. and_then r (\<lambda>parts. Inr (map amount_minor parts)))
          (allocate_largest_remainder (money_new document_discount_minor cur) weights))"

section \<open>Lines\<close>

text \<open>
  What a line's totals are: the product, the discount as given, the tax on the discounted
  amount rounded to the nearest minor unit, and their combination.
\<close>

definition line_spec :: "line_input \<Rightarrow> line_totals \<Rightarrow> bool" where
  "line_spec l t \<longleftrightarrow>
     gross_minor t = quantity l * unit_price_minor l \<and>
     lt_discount_minor t = in_discount_minor l \<and>
     nearest_away ((gross_minor t - lt_discount_minor t) * tax_rate_bps l) 10000 (lt_tax_minor t) \<and>
     line_total_minor t = gross_minor t - lt_discount_minor t + lt_tax_minor t \<and>
     in_i64 (gross_minor t) \<and> in_i64 (gross_minor t - lt_discount_minor t) \<and>
     in_i64 (lt_tax_minor t) \<and> in_i64 (line_total_minor t)"

lemma compute_line_Inr:
  assumes "in_i64 (tax_rate_bps l)"
  shows "compute_line l c = Inr t \<longleftrightarrow> line_spec l t"
proof -
  have "in_i64 10000" by (simp add: in_i64_def)
  with assms show ?thesis
    by (cases t) (auto simp: compute_line_def line_spec_def Let_def result_simps checked_simps
        scale_half_up_Inr intro!: exI [of _ "money_new (lt_tax_minor t) c"])
qed

lemma round_half_up_error: "round_half_up n d = Inl e \<Longrightarrow> e = Overflow"
  by (auto simp: round_half_up_def Let_def split: if_splits)

lemma scale_half_up_error: "scale_half_up m k d = Inl e \<Longrightarrow> e = Overflow"
  by (auto simp: scale_half_up_def result_simps dest: round_half_up_error split: if_splits)

lemma scale_half_up_currency: "scale_half_up m k d = Inr m' \<Longrightarrow> m_currency m' = m_currency m"
  by (auto simp: scale_half_up_def result_simps split: if_splits)

lemma compute_line_error: "compute_line l c = Inl e \<Longrightarrow> e = Overflow"
  by (auto simp: compute_line_def Let_def result_simps money_checked_add_def money_checked_sub_def
      money_new_def split: if_splits dest: scale_half_up_error scale_half_up_currency)

section \<open>Documents\<close>

lemma sum_document_loop_Inr:
  assumes "sum_document_loop ls s d x t = Inr doc"
    and "in_i64 s" "in_i64 d" "in_i64 x" "in_i64 t"
  shows "subtotal_minor doc = s + sum_list (map gross_minor ls) \<and>
    doc_discount_minor doc = d + sum_list (map lt_discount_minor ls) \<and>
    doc_tax_minor doc = x + sum_list (map lt_tax_minor ls) \<and>
    total_minor doc = t + sum_list (map line_total_minor ls) \<and>
    in_i64 (subtotal_minor doc) \<and> in_i64 (doc_discount_minor doc) \<and>
    in_i64 (doc_tax_minor doc) \<and> in_i64 (total_minor doc)"
  using assms
proof (induction ls arbitrary: s d x t)
  case (Cons l ls)
  from Cons.prems(1) have "sum_document_loop ls (s + gross_minor l) (d + lt_discount_minor l)
      (x + lt_tax_minor l) (t + line_total_minor l) = Inr doc"
    and "in_i64 (s + gross_minor l)" "in_i64 (d + lt_discount_minor l)"
      "in_i64 (x + lt_tax_minor l)" "in_i64 (t + line_total_minor l)"
    by (simp_all add: result_simps checked_simps)
  from Cons.IH [OF this] show ?case by (auto simp: add.assoc)
qed auto

lemma sum_document_loop_error: "sum_document_loop ls s d x t = Inl e \<Longrightarrow> e = Overflow"
  by (induction ls arbitrary: s d x t) (auto simp: result_simps)

lemma sum_line_totals:
  assumes "list_all2 line_spec ls ts"
  shows "sum_list (map line_total_minor ts) =
    sum_list (map gross_minor ts) - sum_list (map lt_discount_minor ts) + sum_list (map lt_tax_minor ts)"
  using assms by induction (simp_all add: line_spec_def)

lemma compute_document_totals_Inr:
  assumes "\<forall>l \<in> set ls. in_i64 (tax_rate_bps l)" and "compute_document_totals ls c = Inr (ts, doc)"
  shows "list_all2 line_spec ls ts" and "sum_document ts = Inr doc"
proof -
  from assms(2) have *: "list_all2 (\<lambda>l t. compute_line l c = Inr t) ls ts" and "sum_document ts = Inr doc"
    by (auto simp: compute_document_totals_def result_simps)
  from * show "list_all2 line_spec ls ts"
    using assms(1) by (auto simp: list_all2_conv_all_nth compute_line_Inr)
  show "sum_document ts = Inr doc" by fact
qed

section \<open>The two copies of the code\<close>

lemma quote_compute_line_eq: "quote_compute_line = compute_line"
  by (intro ext) (simp only: quote_compute_line_def compute_line_def)

lemma quote_sum_loop_eq: "quote_sum_loop ls s d x t = sum_document_loop ls s d x t"
  by (induction ls arbitrary: s d x t) (simp_all cong: and_then_cong)

lemma compute_quote_totals_eq: "compute_quote_totals ls c = compute_document_totals ls c"
  by (simp add: compute_quote_totals_def compute_document_totals_def quote_compute_line_eq
      quote_sum_document_def sum_document_def quote_sum_loop_eq)

section \<open>Properties\<close>

text \<open>
  C39: When the totals of an invoice are computed, each line satisfies its specification (in
  particular its tax is the nearest minor unit of the discounted amount times the rate), the
  document total is the exact sum of the line totals and equals subtotal less discount plus
  tax, and all four totals fit 64 bits. The only error is an overflow.
\<close>

theorem document_totals_identity:
  assumes "\<forall>l \<in> set ls. in_i64 (tax_rate_bps l)"
  shows "case compute_document_totals ls c of
      Inl e \<Rightarrow> e = Overflow
    | Inr (ts, doc) \<Rightarrow> list_all2 line_spec ls ts \<and>
        total_minor doc = sum_list (map line_total_minor ts) \<and>
        total_minor doc = subtotal_minor doc - doc_discount_minor doc + doc_tax_minor doc \<and>
        in_i64 (subtotal_minor doc) \<and> in_i64 (doc_discount_minor doc) \<and>
        in_i64 (doc_tax_minor doc) \<and> in_i64 (total_minor doc)"
proof (cases "compute_document_totals ls c")
  case (Inl e)
  then have "e = Overflow"
    by (auto simp: compute_document_totals_def result_simps sum_document_def
        dest: collect_res_error compute_line_error sum_document_loop_error)
  with Inl show ?thesis by simp
next
  case (Inr p)
  obtain ts doc where p: "p = (ts, doc)" by fastforce
  note spec = compute_document_totals_Inr [OF assms Inr [unfolded p]]
  show ?thesis
    using spec(1) sum_line_totals [OF spec(1)]
      sum_document_loop_Inr [OF spec(2) [unfolded sum_document_def]]
    by (simp add: Inr p int_ranges(2))
qed

theorem document_totals_identity_witness:
  "\<exists>ts doc. compute_document_totals
      [\<lparr>quantity = 2, unit_price_minor = 1999, in_discount_minor = 100, tax_rate_bps = 1000\<rparr>,
       \<lparr>quantity = 1, unit_price_minor = 500, in_discount_minor = 0, tax_rate_bps = 550\<rparr>] USD
     = Inr (ts, doc) \<and> total_minor doc = 4816 \<and>
     total_minor doc = subtotal_minor doc - doc_discount_minor doc + doc_tax_minor doc"
  using document_totals_identity [of
      "[\<lparr>quantity = 2, unit_price_minor = 1999, in_discount_minor = 100, tax_rate_bps = 1000\<rparr>,
        \<lparr>quantity = 1, unit_price_minor = 500, in_discount_minor = 0, tax_rate_bps = 550\<rparr>]" USD]
  by (simp add: compute_document_totals_def compute_line_def sum_document_def Let_def
      money_checked_sub_def money_checked_add_def money_new_def scale_half_up_def round_half_up_def
      checked_i64_def checked_i128_def int_ranges wrap_i128_def)

text \<open>
  A document discount is spread over the lines without losing or inventing a minor unit:
  when some line has a positive gross amount the parts add up to the discount exactly and no
  part goes to a line with no positive gross amount. When no line has one, the code returns
  zeros, so the discount is dropped.
\<close>

theorem allocate_document_discount_exact:
  assumes "in_i64 d" and "d \<noteq> i64_min"
  shows "\<exists>parts. allocate_document_discount gs d c = Some (Inr parts) \<and>
    length parts = length gs \<and>
    sum_list parts = (if \<exists>g \<in> set gs. 0 < g then d else 0) \<and>
    (\<forall>i < length gs. gs ! i \<le> 0 \<longrightarrow> parts ! i = 0)"
proof (cases "d = 0 \<or> (\<forall>g \<in> set gs. g \<le> 0)")
  case True
  then have "allocate_document_discount gs d c = Some (Inr (replicate (length gs) 0))"
    by (auto simp: allocate_document_discount_def Let_def list_all_iff)
  then show ?thesis using True by (auto simp: sum_list_replicate not_less)
next
  case False
  let ?ws = "map (\<lambda>g. nat (max g 0)) gs"
  from False obtain g where g: "g \<in> set gs" "0 < g" by auto
  then have pos: "\<exists>w \<in> set ?ws. 0 < w" by force
  then obtain parts where parts: "allocate_largest_remainder (money_new d c) ?ws = Some (Inr parts)"
    and len: "length parts = length ?ws" and tot: "sum_list (map amount_minor parts) = d"
    and near: "\<forall>i < length ?ws. m_currency (parts ! i) = c \<and>
      \<bar>amount_minor (parts ! i) * int (sum_list ?ws) - d * int (?ws ! i)\<bar> < int (sum_list ?ws)"
    using allocate_parts [OF assms, of ?ws c] by auto
  have "amount_minor (parts ! i) = 0" if "i < length gs" "gs ! i \<le> 0" for i
  proof -
    have "\<bar>amount_minor (parts ! i) * int (sum_list ?ws)\<bar> < int (sum_list ?ws)"
      using near that by (force simp: max_def)
    then show ?thesis by (cases "amount_minor (parts ! i) = 0") (auto simp: abs_mult mult_less_cancel_right2)
  qed
  moreover have "allocate_document_discount gs d c = Some (Inr (map amount_minor parts))"
    using False g pos parts by (auto simp: allocate_document_discount_def Let_def list_all_iff)
  ultimately show ?thesis using len tot g by auto
qed

theorem allocate_document_discount_exact_witness:
  "in_i64 100 \<and> 100 \<noteq> i64_min \<and>
   (\<exists>parts. allocate_document_discount [300, -20, 600] 100 EUR = Some (Inr parts) \<and>
      sum_list parts = 100 \<and> parts ! 1 = 0)"
proof -
  obtain parts where "allocate_document_discount [300, -20, 600] 100 EUR = Some (Inr parts)"
    "sum_list parts = (if \<exists>g \<in> set [300, -20, 600 :: int]. 0 < g then 100 else 0)"
    "\<forall>i < length [300, -20, 600 :: int]. [300, -20, 600 :: int] ! i \<le> 0 \<longrightarrow> parts ! i = 0"
    using allocate_document_discount_exact [of 100 "[300, -20, 600]" EUR] by (auto simp: int_ranges)
  then show ?thesis by (intro conjI exI [of _ parts]) (auto simp: int_ranges)
qed

end
