(* ===== verification/Public_Ids.thy ===== *)
theory Public_Ids
  imports Prelude
begin

text \<open>
  Public identifiers (\<open>crates/ids/src/lib.rs\<close>): a public id is the prefix of its kind
  followed by the hyphenated UUID. The enum \<open>IdKind\<close> has 119 variants without fields; a
  kind is represented by the name of its variant, and \<open>id_kinds\<close> lists the variants. The
  three tables of the source (\<open>prefix\<close>, \<open>from_prefix\<close> and the \<open>PREFIXES\<close> of the parser)
  are kept separately and in the source's order, since that they agree is what has to be
  shown. Printing and parsing of a UUID are code of the uuid crate: parameters
  \<open>show_uuid\<close> and \<open>parse_uuid\<close>.
\<close>

section \<open>Kinds and prefixes\<close>

datatype id_error = InvalidPrefix | InvalidUuid string | Empty

type_synonym id_kind = string

definition id_kinds :: "id_kind list" where
  "id_kinds =
   [''Org'', ''User'', ''Invoice'', ''CreditNote'', ''Payment'', ''Expense'', ''Deal'',
    ''Customer'', ''Contact'', ''Lead'', ''Quote'', ''Pipeline'', ''Stage'', ''Product'',
    ''Activity'', ''Import'', ''Project'', ''Task'', ''Approval'', ''ApprovalPolicy'',
    ''ApprovalDelegation'', ''Hello'', ''Role'', ''Team'', ''Department'', ''Invitation'',
    ''Membership'', ''Employee'', ''EmploymentContract'', ''CompensationComponent'',
    ''EmployeeDocument'', ''HrAsset'', ''HrTask'', ''WorkSchedule'', ''Holiday'',
    ''AttendanceRecord'', ''LeaveType'', ''LeaveRequest'', ''LeaveLedgerEntry'',
    ''PayrollRun'', ''Payslip'', ''PayrollEarningLine'', ''PayrollDeductionLine'',
    ''PayrollComponent'', ''LedgerAccount'', ''FiscalPeriod'', ''BankAccount'',
    ''BankStatement'', ''BankReconciliation'', ''ExpensePolicy'', ''CardTransaction'',
    ''ReimbursementBatch'', ''Warehouse'', ''InventoryItem'', ''StockMovement'', ''Supplier'',
    ''PurchaseRequest'', ''PurchaseRequestLine'', ''PurchaseOrder'', ''PurchaseOrderLine'',
    ''GoodsReceipt'', ''GoodsReceiptLine'', ''FixedAsset'', ''AssetAssignment'',
    ''MaintenanceSchedule'', ''VendorBill'', ''SsoConfig'', ''ApiKey'', ''AccessReview'',
    ''OrgSecret'', ''WorkflowDefinition'', ''WorkflowVersion'', ''WorkflowInstance'',
    ''AnalyticsMetric'', ''AnalyticsReport'', ''AnalyticsDashboard'', ''AnalyticsWidget'',
    ''AnalyticsSchedule'', ''AnalyticsRun'', ''WebhookEndpoint'', ''WebhookDelivery'',
    ''MarketplaceApp'', ''MarketplaceInstall'', ''MarketplaceOauthClient'',
    ''MarketplaceReview'', ''MarketplaceAppToken'', ''SalesOrder'', ''SalesOrderLine'',
    ''SalesContract'', ''Territory'', ''TaxRate'', ''TaxGroup'', ''TaxComponent'',
    ''DunningProfile'', ''FinanceEntity'', ''IntercompanyTxn'', ''ConsolidationRun'',
    ''CustomerManagedKey'', ''ScimToken'', ''PermissionInheritGrant'',
    ''PermissionDelegation'', ''ExportJob'', ''LegalHold'', ''TimeEntry'', ''Timesheet'',
    ''CapacityAllocation'', ''MeetingSummary'', ''AiInsight'', ''AgentPolicy'', ''AgentRun'',
    ''AiAction'', ''PromptPack'', ''CustomEntity'', ''CustomRecord'', ''CustomView'',
    ''CustomLayout'', ''CustomScript'', ''CustomPackage'', ''IndustryPackInstall'']"

definition prefix_arms :: "(id_kind \<times> string) list" where
  "prefix_arms =
   [(''Org'', ''org_''), (''User'', ''usr_''), (''Invoice'', ''inv_''),
    (''CreditNote'', ''cn_''), (''Payment'', ''pay_''), (''Expense'', ''exp_''),
    (''Deal'', ''dl_''), (''Customer'', ''cus_''), (''Contact'', ''con_''),
    (''Lead'', ''led_''), (''Quote'', ''qte_''), (''Pipeline'', ''pl_''),
    (''Stage'', ''stg_''), (''Product'', ''prd_''), (''Activity'', ''act_''),
    (''Import'', ''imp_''), (''Project'', ''prj_''), (''Task'', ''tsk_''),
    (''Approval'', ''apr_''), (''ApprovalPolicy'', ''apl_''),
    (''ApprovalDelegation'', ''apd_''), (''Hello'', ''hel_''), (''Role'', ''rol_''),
    (''Team'', ''tem_''), (''Department'', ''dep_''), (''Invitation'', ''ivt_''),
    (''Membership'', ''mem_''), (''Employee'', ''emp_''), (''EmploymentContract'', ''ect_''),
    (''CompensationComponent'', ''cmp_''), (''EmployeeDocument'', ''edc_''),
    (''HrAsset'', ''has_''), (''HrTask'', ''htk_''), (''WorkSchedule'', ''sch_''),
    (''Holiday'', ''hol_''), (''AttendanceRecord'', ''att_''), (''LeaveType'', ''lvt_''),
    (''LeaveRequest'', ''lvr_''), (''LeaveLedgerEntry'', ''lv_''),
    (''PayrollRun'', ''payrun_''), (''Payslip'', ''payslip_''),
    (''PayrollEarningLine'', ''earning_''), (''PayrollDeductionLine'', ''deduction_''),
    (''PayrollComponent'', ''pcomp_''), (''LedgerAccount'', ''acc_''),
    (''FiscalPeriod'', ''period_''), (''BankAccount'', ''bank_''),
    (''BankStatement'', ''stmt_''), (''BankReconciliation'', ''rec_''),
    (''ExpensePolicy'', ''pol_''), (''CardTransaction'', ''card_''),
    (''ReimbursementBatch'', ''reimb_''), (''Warehouse'', ''wh_''),
    (''InventoryItem'', ''item_''), (''StockMovement'', ''mv_''), (''Supplier'', ''sup_''),
    (''PurchaseRequest'', ''pr_''), (''PurchaseRequestLine'', ''prl_''),
    (''PurchaseOrder'', ''po_''), (''PurchaseOrderLine'', ''poln_''),
    (''GoodsReceipt'', ''grn_''), (''GoodsReceiptLine'', ''grl_''), (''FixedAsset'', ''ast_''),
    (''AssetAssignment'', ''asa_''), (''MaintenanceSchedule'', ''mnt_''),
    (''VendorBill'', ''vb_''), (''SsoConfig'', ''sso_''), (''ApiKey'', ''apk_''),
    (''AccessReview'', ''arv_''), (''OrgSecret'', ''sec_''),
    (''WorkflowDefinition'', ''wfd_''), (''WorkflowVersion'', ''wfv_''),
    (''WorkflowInstance'', ''wfi_''), (''AnalyticsMetric'', ''met_''),
    (''AnalyticsReport'', ''rpt_''), (''AnalyticsDashboard'', ''adb_''),
    (''AnalyticsWidget'', ''wdg_''), (''AnalyticsSchedule'', ''asch_''),
    (''AnalyticsRun'', ''arun_''), (''WebhookEndpoint'', ''whk_''),
    (''WebhookDelivery'', ''whd_''), (''MarketplaceApp'', ''app_''),
    (''MarketplaceInstall'', ''ins_''), (''MarketplaceOauthClient'', ''oac_''),
    (''MarketplaceReview'', ''mrv_''), (''MarketplaceAppToken'', ''atk_''),
    (''SalesOrder'', ''ord_''), (''SalesOrderLine'', ''orl_''), (''SalesContract'', ''sct_''),
    (''Territory'', ''ter_''), (''TaxRate'', ''txr_''), (''TaxGroup'', ''txg_''),
    (''TaxComponent'', ''txc_''), (''DunningProfile'', ''dnp_''),
    (''FinanceEntity'', ''ent_''), (''IntercompanyTxn'', ''ict_''),
    (''ConsolidationRun'', ''csr_''), (''CustomerManagedKey'', ''cmk_''),
    (''ScimToken'', ''scm_''), (''PermissionInheritGrant'', ''pig_''),
    (''PermissionDelegation'', ''pdg_''), (''ExportJob'', ''exj_''), (''LegalHold'', ''loh_''),
    (''TimeEntry'', ''tme_''), (''Timesheet'', ''tms_''), (''CapacityAllocation'', ''cap_''),
    (''MeetingSummary'', ''mts_''), (''AiInsight'', ''ain_''), (''AgentPolicy'', ''agp_''),
    (''AgentRun'', ''agrun_''), (''AiAction'', ''aact_''), (''PromptPack'', ''tpp_''),
    (''CustomEntity'', ''cent_''), (''CustomRecord'', ''cusrec_''),
    (''CustomView'', ''cview_''), (''CustomLayout'', ''clay_''),
    (''CustomScript'', ''cscript_''), (''CustomPackage'', ''cpkg_''),
    (''IndustryPackInstall'', ''ipk_'')]"

definition prefix :: "id_kind \<Rightarrow> string" where
  "prefix k = (case map_of prefix_arms k of Some p \<Rightarrow> p | None \<Rightarrow> [])"

definition from_prefix_arms :: "(string \<times> id_kind) list" where
  "from_prefix_arms =
   [(''org_'', ''Org''), (''usr_'', ''User''), (''inv_'', ''Invoice''),
    (''cn_'', ''CreditNote''), (''payrun_'', ''PayrollRun''), (''payslip_'', ''Payslip''),
    (''pay_'', ''Payment''), (''exp_'', ''Expense''), (''dl_'', ''Deal''),
    (''cus_'', ''Customer''), (''con_'', ''Contact''), (''led_'', ''Lead''),
    (''qte_'', ''Quote''), (''pl_'', ''Pipeline''), (''stg_'', ''Stage''),
    (''prd_'', ''Product''), (''act_'', ''Activity''), (''imp_'', ''Import''),
    (''prj_'', ''Project''), (''tsk_'', ''Task''), (''apr_'', ''Approval''),
    (''apl_'', ''ApprovalPolicy''), (''apd_'', ''ApprovalDelegation''), (''hel_'', ''Hello''),
    (''rol_'', ''Role''), (''tem_'', ''Team''), (''dep_'', ''Department''),
    (''ivt_'', ''Invitation''), (''mem_'', ''Membership''), (''emp_'', ''Employee''),
    (''ect_'', ''EmploymentContract''), (''cmp_'', ''CompensationComponent''),
    (''edc_'', ''EmployeeDocument''), (''has_'', ''HrAsset''), (''htk_'', ''HrTask''),
    (''sch_'', ''WorkSchedule''), (''hol_'', ''Holiday''), (''att_'', ''AttendanceRecord''),
    (''lvt_'', ''LeaveType''), (''lvr_'', ''LeaveRequest''), (''lv_'', ''LeaveLedgerEntry''),
    (''earning_'', ''PayrollEarningLine''), (''deduction_'', ''PayrollDeductionLine''),
    (''pcomp_'', ''PayrollComponent''), (''acc_'', ''LedgerAccount''),
    (''period_'', ''FiscalPeriod''), (''bank_'', ''BankAccount''),
    (''stmt_'', ''BankStatement''), (''rec_'', ''BankReconciliation''),
    (''pol_'', ''ExpensePolicy''), (''card_'', ''CardTransaction''),
    (''reimb_'', ''ReimbursementBatch''), (''wh_'', ''Warehouse''),
    (''item_'', ''InventoryItem''), (''mv_'', ''StockMovement''), (''sup_'', ''Supplier''),
    (''pr_'', ''PurchaseRequest''), (''prl_'', ''PurchaseRequestLine''),
    (''po_'', ''PurchaseOrder''), (''poln_'', ''PurchaseOrderLine''),
    (''grn_'', ''GoodsReceipt''), (''grl_'', ''GoodsReceiptLine''), (''ast_'', ''FixedAsset''),
    (''asa_'', ''AssetAssignment''), (''mnt_'', ''MaintenanceSchedule''),
    (''vb_'', ''VendorBill''), (''sso_'', ''SsoConfig''), (''apk_'', ''ApiKey''),
    (''arv_'', ''AccessReview''), (''sec_'', ''OrgSecret''),
    (''wfd_'', ''WorkflowDefinition''), (''wfv_'', ''WorkflowVersion''),
    (''wfi_'', ''WorkflowInstance''), (''met_'', ''AnalyticsMetric''),
    (''rpt_'', ''AnalyticsReport''), (''adb_'', ''AnalyticsDashboard''),
    (''wdg_'', ''AnalyticsWidget''), (''asch_'', ''AnalyticsSchedule''),
    (''arun_'', ''AnalyticsRun''), (''whk_'', ''WebhookEndpoint''),
    (''whd_'', ''WebhookDelivery''), (''app_'', ''MarketplaceApp''),
    (''ins_'', ''MarketplaceInstall''), (''oac_'', ''MarketplaceOauthClient''),
    (''mrv_'', ''MarketplaceReview''), (''atk_'', ''MarketplaceAppToken''),
    (''ord_'', ''SalesOrder''), (''orl_'', ''SalesOrderLine''), (''sct_'', ''SalesContract''),
    (''ter_'', ''Territory''), (''txr_'', ''TaxRate''), (''txg_'', ''TaxGroup''),
    (''txc_'', ''TaxComponent''), (''dnp_'', ''DunningProfile''),
    (''ent_'', ''FinanceEntity''), (''ict_'', ''IntercompanyTxn''),
    (''csr_'', ''ConsolidationRun''), (''cmk_'', ''CustomerManagedKey''),
    (''scm_'', ''ScimToken''), (''pig_'', ''PermissionInheritGrant''),
    (''pdg_'', ''PermissionDelegation''), (''exj_'', ''ExportJob''), (''loh_'', ''LegalHold''),
    (''tme_'', ''TimeEntry''), (''tms_'', ''Timesheet''), (''cap_'', ''CapacityAllocation''),
    (''mts_'', ''MeetingSummary''), (''ain_'', ''AiInsight''), (''agp_'', ''AgentPolicy''),
    (''agrun_'', ''AgentRun''), (''aact_'', ''AiAction''), (''tpp_'', ''PromptPack''),
    (''cent_'', ''CustomEntity''), (''cusrec_'', ''CustomRecord''),
    (''cview_'', ''CustomView''), (''clay_'', ''CustomLayout''),
    (''cscript_'', ''CustomScript''), (''cpkg_'', ''CustomPackage''),
    (''ipk_'', ''IndustryPackInstall'')]"

definition from_prefix :: "string \<Rightarrow> id_kind option" where
  "from_prefix s = map_of from_prefix_arms s"

definition PREFIXES :: "(string \<times> id_kind) list" where
  "PREFIXES =
   [(''org_'', ''Org''), (''usr_'', ''User''), (''inv_'', ''Invoice''),
    (''payrun_'', ''PayrollRun''), (''payslip_'', ''Payslip''), (''pay_'', ''Payment''),
    (''exp_'', ''Expense''), (''cus_'', ''Customer''), (''con_'', ''Contact''),
    (''led_'', ''Lead''), (''qte_'', ''Quote''), (''prd_'', ''Product''),
    (''act_'', ''Activity''), (''imp_'', ''Import''), (''prj_'', ''Project''),
    (''tsk_'', ''Task''), (''tme_'', ''TimeEntry''), (''tms_'', ''Timesheet''),
    (''cap_'', ''CapacityAllocation''), (''apr_'', ''Approval''),
    (''apl_'', ''ApprovalPolicy''), (''apd_'', ''ApprovalDelegation''), (''stg_'', ''Stage''),
    (''hel_'', ''Hello''), (''rol_'', ''Role''), (''tem_'', ''Team''),
    (''dep_'', ''Department''), (''ivt_'', ''Invitation''), (''mem_'', ''Membership''),
    (''emp_'', ''Employee''), (''ect_'', ''EmploymentContract''),
    (''cmp_'', ''CompensationComponent''), (''edc_'', ''EmployeeDocument''),
    (''has_'', ''HrAsset''), (''htk_'', ''HrTask''), (''sch_'', ''WorkSchedule''),
    (''hol_'', ''Holiday''), (''att_'', ''AttendanceRecord''), (''lvt_'', ''LeaveType''),
    (''lvr_'', ''LeaveRequest''), (''lv_'', ''LeaveLedgerEntry''),
    (''earning_'', ''PayrollEarningLine''), (''deduction_'', ''PayrollDeductionLine''),
    (''pcomp_'', ''PayrollComponent''), (''period_'', ''FiscalPeriod''),
    (''acc_'', ''LedgerAccount''), (''bank_'', ''BankAccount''),
    (''stmt_'', ''BankStatement''), (''rec_'', ''BankReconciliation''),
    (''pol_'', ''ExpensePolicy''), (''card_'', ''CardTransaction''),
    (''reimb_'', ''ReimbursementBatch''), (''prl_'', ''PurchaseRequestLine''),
    (''poln_'', ''PurchaseOrderLine''), (''grl_'', ''GoodsReceiptLine''),
    (''grn_'', ''GoodsReceipt''), (''asa_'', ''AssetAssignment''),
    (''mnt_'', ''MaintenanceSchedule''), (''item_'', ''InventoryItem''),
    (''wh_'', ''Warehouse''), (''mv_'', ''StockMovement''), (''sup_'', ''Supplier''),
    (''pr_'', ''PurchaseRequest''), (''po_'', ''PurchaseOrder''), (''ast_'', ''FixedAsset''),
    (''vb_'', ''VendorBill''), (''pl_'', ''Pipeline''), (''dl_'', ''Deal''),
    (''cn_'', ''CreditNote''), (''sso_'', ''SsoConfig''), (''apk_'', ''ApiKey''),
    (''arv_'', ''AccessReview''), (''sec_'', ''OrgSecret''),
    (''asch_'', ''AnalyticsSchedule''), (''arun_'', ''AnalyticsRun''),
    (''wfd_'', ''WorkflowDefinition''), (''wfv_'', ''WorkflowVersion''),
    (''wfi_'', ''WorkflowInstance''), (''met_'', ''AnalyticsMetric''),
    (''rpt_'', ''AnalyticsReport''), (''adb_'', ''AnalyticsDashboard''),
    (''wdg_'', ''AnalyticsWidget''), (''whk_'', ''WebhookEndpoint''),
    (''whd_'', ''WebhookDelivery''), (''app_'', ''MarketplaceApp''),
    (''ins_'', ''MarketplaceInstall''), (''oac_'', ''MarketplaceOauthClient''),
    (''mrv_'', ''MarketplaceReview''), (''atk_'', ''MarketplaceAppToken''),
    (''ord_'', ''SalesOrder''), (''orl_'', ''SalesOrderLine''), (''sct_'', ''SalesContract''),
    (''ter_'', ''Territory''), (''txr_'', ''TaxRate''), (''txg_'', ''TaxGroup''),
    (''txc_'', ''TaxComponent''), (''dnp_'', ''DunningProfile''),
    (''ent_'', ''FinanceEntity''), (''ict_'', ''IntercompanyTxn''),
    (''csr_'', ''ConsolidationRun''), (''cmk_'', ''CustomerManagedKey''),
    (''scm_'', ''ScimToken''), (''pig_'', ''PermissionInheritGrant''),
    (''pdg_'', ''PermissionDelegation''), (''exj_'', ''ExportJob''), (''loh_'', ''LegalHold''),
    (''agrun_'', ''AgentRun''), (''agp_'', ''AgentPolicy''), (''aact_'', ''AiAction''),
    (''tpp_'', ''PromptPack''), (''mts_'', ''MeetingSummary''), (''ain_'', ''AiInsight''),
    (''cusrec_'', ''CustomRecord''), (''cscript_'', ''CustomScript''),
    (''cent_'', ''CustomEntity''), (''cview_'', ''CustomView''), (''clay_'', ''CustomLayout''),
    (''cpkg_'', ''CustomPackage''), (''ipk_'', ''IndustryPackInstall'')]"

section \<open>Public ids\<close>

record public_id =
  pid_kind :: id_kind
  pid_uuid :: uuid

definition public_id_new :: "id_kind \<Rightarrow> uuid \<Rightarrow> public_id" where
  "public_id_new k u = \<lparr>pid_kind = k, pid_uuid = u\<rparr>"

definition public_id_as_str :: "(uuid \<Rightarrow> string) \<Rightarrow> public_id \<Rightarrow> string" where
  "public_id_as_str show_uuid p = prefix (pid_kind p) @ show_uuid (pid_uuid p)"

fun from_str_loop ::
  "(string \<Rightarrow> string + uuid) \<Rightarrow> (string \<times> id_kind) list \<Rightarrow> string \<Rightarrow> id_error + public_id" where
  "from_str_loop parse_uuid [] s = Inl InvalidPrefix"
| "from_str_loop parse_uuid ((pre, kind) # ps) s =
     (case strip_prefix pre s of
        Some rest \<Rightarrow> and_then (map_err InvalidUuid (parse_uuid rest)) (\<lambda>u.
          Inr \<lparr>pid_kind = kind, pid_uuid = u\<rparr>)
      | None \<Rightarrow> from_str_loop parse_uuid ps s)"

definition public_id_from_str :: "(string \<Rightarrow> string + uuid) \<Rightarrow> string \<Rightarrow> id_error + public_id" where
  "public_id_from_str parse_uuid s =
     (if s = [] then Inl Empty else from_str_loop parse_uuid PREFIXES s)"

section \<open>The tables agree\<close>

lemma id_kinds_prefix_arms: "map fst prefix_arms = id_kinds"
  by (simp add: prefix_arms_def id_kinds_def)

lemma distinct_id_kinds: "distinct id_kinds"
proof -
  have "distinct (map str_code id_kinds)" by (simp add: id_kinds_def)
  then show ?thesis by (rule distinct_coded)
qed

lemma distinct_from_prefix: "distinct (map fst from_prefix_arms)"
  by (rule distinct_coded) (simp add: from_prefix_arms_def)

lemma distinct_PREFIXES: "distinct (map fst PREFIXES)"
  by (rule distinct_coded) (simp add: PREFIXES_def)

lemma from_prefix_arms_slices:
  "slices [(0, 4), (39, 2), (4, 35), (41, 78)] (map prod.swap prefix_arms) = from_prefix_arms"
  by (simp add: from_prefix_arms_def prefix_arms_def slices_def)

lemma PREFIXES_slices:
  "slices
    [(0, 3), (39, 2), (4, 2), (7, 4), (13, 5), (103, 3), (18, 3), (12, 1), (21, 18), (41, 3),
     (45, 1), (44, 1), (46, 6), (57, 1), (59, 1), (61, 1), (60, 1), (63, 2), (53, 1), (52, 1),
     (54, 3), (58, 1), (62, 1), (65, 1), (11, 1), (6, 1), (3, 1), (66, 4), (77, 2), (70, 7),
     (79, 24), (109, 1), (108, 1), (110, 2), (106, 2), (113, 1), (116, 1), (112, 1), (114, 2),
     (117, 2)]
    (map prod.swap prefix_arms) = PREFIXES"
  by (simp add: PREFIXES_def prefix_arms_def slices_def)

lemma set_from_prefix_arms: "set from_prefix_arms = set (map prod.swap prefix_arms)"
proof (rule distinct_subset_eq)
  show "set from_prefix_arms \<subseteq> set (map prod.swap prefix_arms)"
    unfolding from_prefix_arms_slices [symmetric] by (rule set_slices)
  show "distinct from_prefix_arms" using distinct_from_prefix by (simp add: distinct_map)
qed (simp add: from_prefix_arms_def prefix_arms_def)

lemma set_PREFIXES: "set PREFIXES = set (map prod.swap prefix_arms)"
proof (rule distinct_subset_eq)
  show "set PREFIXES \<subseteq> set (map prod.swap prefix_arms)"
    unfolding PREFIXES_slices [symmetric] by (rule set_slices)
  show "distinct PREFIXES" using distinct_PREFIXES by (simp add: distinct_map)
qed (simp add: PREFIXES_def prefix_arms_def)

text \<open>Every prefix ends in an underscore and has no other, so no prefix begins another.\<close>

definition prefix_shape :: "string \<Rightarrow> bool" where
  "prefix_shape p \<longleftrightarrow> takeWhile (\<lambda>c. c \<noteq> CHR ''_'') p @ ''_'' = p"

lemma PREFIXES_shape: "list_all (\<lambda>x. prefix_shape (fst x)) PREFIXES"
  by (simp add: PREFIXES_def prefix_shape_def)

lemma prefix_shape_iff: "prefix_shape p \<longleftrightarrow> (\<exists>w. CHR ''_'' \<notin> set w \<and> p = w @ ''_'')"
proof
  assume "prefix_shape p"
  then show "\<exists>w. CHR ''_'' \<notin> set w \<and> p = w @ ''_''"
    by (intro exI [of _ "takeWhile (\<lambda>c. c \<noteq> CHR ''_'') p"]) (auto simp: prefix_shape_def dest: set_takeWhileD)
next
  assume "\<exists>w. CHR ''_'' \<notin> set w \<and> p = w @ ''_''"
  then obtain w where "CHR ''_'' \<notin> set w" and "p = w @ ''_''" by blast
  then show "prefix_shape p" by (simp add: prefix_shape_def takeWhile_append)
qed

lemma prefix_shape_eq:
  assumes "prefix_shape p" and "prefix_shape q" and "p @ r = q @ u"
  shows "p = q"
proof -
  obtain v w where "CHR ''_'' \<notin> set v" "p = v @ ''_''" "CHR ''_'' \<notin> set w" "q = w @ ''_''"
    using assms(1,2) by (auto simp: prefix_shape_iff)
  moreover from this have "hd (split_on CHR ''_'' (p @ r)) = v" "hd (split_on CHR ''_'' (q @ u)) = w"
    by (simp_all add: split_on_append)
  ultimately show ?thesis using assms(3) by simp
qed

lemma in_prefix_arms: "(k, p) \<in> set prefix_arms \<longleftrightarrow> k \<in> set id_kinds \<and> p = prefix k"
proof -
  have d: "distinct (map fst prefix_arms)" by (simp add: id_kinds_prefix_arms distinct_id_kinds)
  then have "(k, p) \<in> set prefix_arms \<longleftrightarrow> map_of prefix_arms k = Some p" by simp
  moreover have "k \<in> set id_kinds \<longleftrightarrow> map_of prefix_arms k \<noteq> None"
    by (simp add: map_of_eq_None_iff id_kinds_prefix_arms [symmetric])
  ultimately show ?thesis by (auto simp: prefix_def)
qed

lemma swapped_prefix_arms: "(p, k) \<in> set (map prod.swap prefix_arms) \<longleftrightarrow> k \<in> set id_kinds \<and> p = prefix k"
  by (force simp: in_prefix_arms [symmetric])

lemma from_prefix_iff: "from_prefix s = Some k \<longleftrightarrow> k \<in> set id_kinds \<and> s = prefix k"
  unfolding from_prefix_def map_of_eq_Some_iff [OF distinct_from_prefix]
  by (simp only: set_from_prefix_arms swapped_prefix_arms)

lemma PREFIXES_iff: "(p, k) \<in> set PREFIXES \<longleftrightarrow> k \<in> set id_kinds \<and> p = prefix k"
  by (simp only: set_PREFIXES swapped_prefix_arms)

lemma PREFIXES_prefix: "k \<in> set id_kinds \<Longrightarrow> map_of PREFIXES (prefix k) = Some k"
  by (simp add: map_of_eq_Some_iff [OF distinct_PREFIXES] PREFIXES_iff)

lemma prefix_shape_prefix: "k \<in> set id_kinds \<Longrightarrow> prefix_shape (prefix k)"
  using PREFIXES_shape PREFIXES_iff by (fastforce simp: list_all_iff)

lemma prefix_not_empty: "k \<in> set id_kinds \<Longrightarrow> prefix k \<noteq> []"
  by (auto simp: prefix_shape_iff dest: prefix_shape_prefix)

lemma from_str_loop_match:
  assumes "list_all (\<lambda>x. prefix_shape (fst x)) ps" and "prefix_shape p" and "map_of ps p = Some k"
  shows "from_str_loop parse_uuid ps (p @ rest) =
    and_then (map_err InvalidUuid (parse_uuid rest)) (\<lambda>u. Inr \<lparr>pid_kind = k, pid_uuid = u\<rparr>)"
  using assms
proof (induction ps)
  case (Cons x ps)
  obtain q k' where x: "x = (q, k')" by fastforce
  show ?case
  proof (cases "strip_prefix q (p @ rest)")
    case None
    then have "q \<noteq> p" by auto
    with None Cons x show ?thesis by simp
  next
    case (Some r)
    then have "p = q" using Cons.prems x by (auto intro: prefix_shape_eq)
    with Some Cons.prems x show ?thesis by simp
  qed
qed simp

lemma from_str_loop_Inr:
  "from_str_loop parse_uuid ps s = Inr pid \<Longrightarrow>
   \<exists>p rest. (p, pid_kind pid) \<in> set ps \<and> s = p @ rest \<and> parse_uuid rest = Inr (pid_uuid pid)"
  by (induction ps) (fastforce simp: result_simps split: option.splits)+

section \<open>Properties\<close>

lemma parse_printed_id:
  assumes "parse_uuid (show_uuid u) = Inr u" and "k \<in> set id_kinds"
  shows "public_id_from_str parse_uuid (public_id_as_str show_uuid (public_id_new k u)) =
    Inr (public_id_new k u)"
  using from_str_loop_match [OF PREFIXES_shape prefix_shape_prefix PREFIXES_prefix] prefix_not_empty assms
  by (simp add: public_id_from_str_def public_id_as_str_def public_id_new_def)

text \<open>
  Parsing the printed form of a public id of any of the kinds gives back the id, provided
  that the uuid crate parses what it prints.
\<close>

theorem public_id_roundtrip:
  assumes "\<And>u. parse_uuid (show_uuid u) = Inr u" and "k \<in> set id_kinds"
  shows "public_id_from_str parse_uuid (public_id_as_str show_uuid (public_id_new k u)) =
    Inr (public_id_new k u)"
  by (rule parse_printed_id) (rule assms)+

text \<open>A concrete printer and parser that satisfy the law: the bits of the UUID as characters.\<close>

definition bits_of_uuid :: "uuid \<Rightarrow> string" where
  "bits_of_uuid u = map (\<lambda>i. if bit u i then CHR ''1'' else CHR ''0'') [0..<128]"

definition uuid_of_bits :: "string \<Rightarrow> string + uuid" where
  "uuid_of_bits s =
     (if length s = 128 then Inr (horner_sum of_bool 2 (map (\<lambda>c. c = CHR ''1'') s)) else Inl ''length'')"

lemma uuid_bits_roundtrip: "uuid_of_bits (bits_of_uuid u) = Inr u"
proof -
  have "map (\<lambda>c. c = CHR ''1'') (bits_of_uuid u) = map (bit u) [0..<128]"
    by (simp add: bits_of_uuid_def comp_def if_distrib [of "\<lambda>c. c = CHR ''1''"] cong: if_cong)
  moreover have "length (bits_of_uuid u) = 128" by (simp add: bits_of_uuid_def)
  moreover have "horner_sum of_bool 2 (map (bit u) [0..<128]) = u"
    using take_bit_length_eq [of u] by (simp add: horner_sum_bit_eq_take_bit)
  ultimately show ?thesis by (simp only: uuid_of_bits_def if_True simp_thms)
qed

theorem public_id_roundtrip_witness:
  "public_id_from_str uuid_of_bits (public_id_as_str bits_of_uuid (public_id_new ''Invoice'' 7)) =
   Inr (public_id_new ''Invoice'' 7)"
  by (rule public_id_roundtrip) (simp_all add: uuid_bits_roundtrip id_kinds_def)

text \<open>
  The parser accepts exactly the strings that consist of the prefix of one of the kinds and
  a rest that the uuid crate parses, and returns that kind and UUID. The kind is determined
  by the string, whatever the order of the prefix table.
\<close>

theorem public_id_from_str_exact:
  "public_id_from_str parse_uuid s = Inr pid \<longleftrightarrow>
   pid_kind pid \<in> set id_kinds \<and>
   (\<exists>rest. s = prefix (pid_kind pid) @ rest \<and> parse_uuid rest = Inr (pid_uuid pid))"
    (is "?L \<longleftrightarrow> ?R")
proof
  assume ?L
  then obtain p rest where "(p, pid_kind pid) \<in> set PREFIXES" and "s = p @ rest"
    and "parse_uuid rest = Inr (pid_uuid pid)"
    by (fastforce simp: public_id_from_str_def split: if_splits dest: from_str_loop_Inr)
  then show ?R by (auto simp: PREFIXES_iff)
next
  assume ?R
  then obtain rest where k: "pid_kind pid \<in> set id_kinds" and s: "s = prefix (pid_kind pid) @ rest"
    and u: "parse_uuid rest = Inr (pid_uuid pid)" by blast
  show ?L
    using from_str_loop_match [OF PREFIXES_shape prefix_shape_prefix [OF k] PREFIXES_prefix [OF k]]
      prefix_not_empty [OF k] u
    by (simp add: public_id_from_str_def s)
qed

text \<open>
  The table of \<open>from_prefix\<close> is the inverse of the table of \<open>prefix\<close>: it maps a string to
  a kind exactly when the kind is one of the variants and the string its prefix.
\<close>

lemma from_prefix_inverse:
  "from_prefix s = Some k \<longleftrightarrow> k \<in> set id_kinds \<and> s = prefix k"
  by (rule from_prefix_iff)

end
