(* ===== verification/Errors.thy ===== *)
theory Errors
  imports Prelude
begin

text \<open>
  Application errors (\<open>crates/errors/src/lib.rs\<close>): the stable error codes, their HTTP status,
  and the problem document they are rendered as. The reason phrase of a status is a table of
  the http crate, the parameter \<open>canonical_reason\<close>. The models of the services return
  \<open>app_error\<close> values for every early return of the code.
\<close>

datatype error_code =
    Unauthorized | Forbidden | NotFound | ValidationFailed | Conflict | TenancyViolation
  | Internal | ServiceUnavailable | TooManyRequests | AccountLocked | MfaRequired
  | FeatureDisabled | ResidencyViolation

primrec error_code_as_str :: "error_code \<Rightarrow> string" where
  "error_code_as_str Unauthorized = ''unauthorized''"
| "error_code_as_str Forbidden = ''forbidden''"
| "error_code_as_str NotFound = ''not_found''"
| "error_code_as_str ValidationFailed = ''validation_failed''"
| "error_code_as_str Conflict = ''conflict''"
| "error_code_as_str TenancyViolation = ''tenancy_violation''"
| "error_code_as_str Internal = ''internal''"
| "error_code_as_str ServiceUnavailable = ''service_unavailable''"
| "error_code_as_str TooManyRequests = ''too_many_requests''"
| "error_code_as_str AccountLocked = ''account_locked''"
| "error_code_as_str MfaRequired = ''mfa_required''"
| "error_code_as_str FeatureDisabled = ''feature_disabled''"
| "error_code_as_str ResidencyViolation = ''residency_violation''"

primrec error_status :: "error_code \<Rightarrow> nat" where
  "error_status Unauthorized = 401"
| "error_status Forbidden = 403"
| "error_status NotFound = 404"
| "error_status ValidationFailed = 400"
| "error_status Conflict = 409"
| "error_status TenancyViolation = 403"
| "error_status Internal = 500"
| "error_status ServiceUnavailable = 503"
| "error_status TooManyRequests = 429"
| "error_status AccountLocked = 403"
| "error_status MfaRequired = 401"
| "error_status FeatureDisabled = 403"
| "error_status ResidencyViolation = 451"

record problem =
  pb_type_uri :: string
  pb_title :: string
  pb_status :: nat
  pb_detail :: "string option"
  pb_code :: string
  pb_request_id :: string
  pb_instance :: "string option"

definition problem_new :: "(nat \<Rightarrow> string option) \<Rightarrow> error_code \<Rightarrow> string \<Rightarrow> string \<Rightarrow> problem" where
  "problem_new canonical_reason c request_id d =
     (let status = error_status c in
      \<lparr>pb_type_uri = ''https://companyos.dev/problems/'' @ error_code_as_str c,
       pb_title = (case canonical_reason status of Some r \<Rightarrow> r | None \<Rightarrow> ''Error''),
       pb_status = status, pb_detail = Some d, pb_code = error_code_as_str c,
       pb_request_id = request_id, pb_instance = None\<rparr>)"

record app_error =
  ae_code :: error_code
  ae_detail :: string
  ae_request_id :: string

definition app_error_new :: "error_code \<Rightarrow> string \<Rightarrow> string \<Rightarrow> app_error" where
  "app_error_new c request_id d = \<lparr>ae_code = c, ae_detail = d, ae_request_id = request_id\<rparr>"

definition into_problem :: "(nat \<Rightarrow> string option) \<Rightarrow> app_error \<Rightarrow> problem" where
  "into_problem canonical_reason e =
     problem_new canonical_reason (ae_code e) (ae_request_id e) (ae_detail e)"

lemma app_error_new_sel [simp]:
  "ae_code (app_error_new c r d) = c" "ae_detail (app_error_new c r d) = d"
  "ae_request_id (app_error_new c r d) = r"
  by (simp_all add: app_error_new_def)

lemma error_code_as_str_inj: "error_code_as_str c = error_code_as_str d \<longleftrightarrow> c = d"
  by (cases c; cases d) simp_all

text \<open>A rendered problem determines the code, the request and the detail it was made from.\<close>

lemma into_problem_inj: "into_problem r e = into_problem r e' \<Longrightarrow> e = e'"
  by (cases e; cases e') (simp add: into_problem_def problem_new_def Let_def error_code_as_str_inj)

end
