(* ===== verification/Ledger.thy ===== *)
theory Ledger
  imports Money Public_Ids Errors
begin

text \<open>
  The general ledger of the finance service: entry builders, the chart of accounts and journal
  posting (\<open>journal.rs\<close>), fiscal periods (\<open>periods.rs\<close>) and document numbers (\<open>numbering.rs\<close>).

  The tables the code reads and writes are the fields of \<open>finance_db\<close>; a function that runs
  inside the caller's transaction takes and returns the tables, and \<open>Inl\<close> means that the
  error propagates and the transaction is rolled back. Constraint violations are the database
  errors of the tables' definitions (\<open>migrations/\<close>); failures of the connection are left
  out. Generated UUIDs, the calendar, the text of database errors and the row that a query
  with \<open>LIMIT 1\<close> and no order picks are the parameters in \<open>fin_env\<close>.
\<close>

section \<open>Journal drafts\<close>

definition CASH :: string where "CASH = ''1000''"

definition AR :: string where "AR = ''1100''"

definition CUSTOMER_CREDITS :: string where "CUSTOMER_CREDITS = ''2200''"

definition TAX_PAYABLE :: string where "TAX_PAYABLE = ''2100''"

definition REVENUE :: string where "REVENUE = ''4000''"

definition EXPENSE :: string where "EXPENSE = ''5000''"

definition WAGES_EXPENSE :: string where "WAGES_EXPENSE = ''5100''"

definition PAYROLL_DEDUCTIONS :: string where "PAYROLL_DEDUCTIONS = ''2300''"

definition NET_PAY_CLEARING :: string where "NET_PAY_CLEARING = ''2400''"

definition INVENTORY :: string where "INVENTORY = ''1200''"

definition AP_VENDORS :: string where "AP_VENDORS = ''2000''"

definition COGS :: string where "COGS = ''5200''"

definition DEPRECIATION_EXPENSE :: string where "DEPRECIATION_EXPENSE = ''5300''"

definition ACCUMULATED_DEPRECIATION :: string where "ACCUMULATED_DEPRECIATION = ''1300''"

definition IC_RECEIVABLE :: string where "IC_RECEIVABLE = ''1500''"

definition IC_PAYABLE :: string where "IC_PAYABLE = ''2500''"

definition IC_REVENUE :: string where "IC_REVENUE = ''4900''"

definition IC_EXPENSE :: string where "IC_EXPENSE = ''5900''"

type_synonym date = int

record ledger_line =
  account_code :: string
  debit_minor :: int
  credit_minor :: int
  ll_memo :: "string option"

definition line_debit :: "string \<Rightarrow> int \<Rightarrow> string option \<Rightarrow> ledger_line" where
  "line_debit code amount memo =
     \<lparr>account_code = code, debit_minor = amount, credit_minor = 0, ll_memo = memo\<rparr>"

definition line_credit :: "string \<Rightarrow> int \<Rightarrow> string option \<Rightarrow> ledger_line" where
  "line_credit code amount memo =
     \<lparr>account_code = code, debit_minor = 0, credit_minor = amount, ll_memo = memo\<rparr>"

record journal_draft =
  jd_memo :: string
  jd_source_type :: string
  jd_source_id :: uuid
  jd_currency :: currency
  jd_lines :: "ledger_line list"
  jd_entry_date :: "date option"
  jd_reverses_entry_id :: "uuid option"
  jd_posted_by :: "uuid option"
  jd_entity_id :: "uuid option"

fun balance_loop :: "ledger_line list \<Rightarrow> int \<Rightarrow> int \<Rightarrow> money_error + int \<times> int" where
  "balance_loop [] debit credit = Inr (debit, credit)"
| "balance_loop (l # ls) debit credit =
     and_then (ok_or Overflow (checked_add_i64 debit (debit_minor l))) (\<lambda>debit'.
     and_then (ok_or Overflow (checked_add_i64 credit (credit_minor l))) (\<lambda>credit'.
     if (debit_minor l > 0 \<and> credit_minor l > 0) \<or> (debit_minor l = 0 \<and> credit_minor l = 0)
     then Inl Overflow
     else balance_loop ls debit' credit'))"

definition assert_balanced :: "journal_draft \<Rightarrow> money_error + unit" where
  "assert_balanced d =
     and_then (balance_loop (jd_lines d) 0 0) (\<lambda>(debit, credit).
     if debit \<noteq> credit then Inl Overflow else Inr ())"

definition checked_draft :: "journal_draft \<Rightarrow> money_error + journal_draft" where
  "checked_draft d = and_then (assert_balanced d) (\<lambda>_. Inr d)"

definition invoice_issue_entry ::
  "(uuid \<Rightarrow> string) \<Rightarrow> uuid \<Rightarrow> currency \<Rightarrow> int \<Rightarrow> int \<Rightarrow> int \<Rightarrow> money_error + journal_draft" where
  "invoice_issue_entry show_uuid invoice_id cur net tax tot =
     checked_draft
       \<lparr>jd_memo = ''Invoice issue '' @ show_uuid invoice_id,
        jd_source_type = ''invoice_issue'', jd_source_id = invoice_id, jd_currency = cur,
        jd_lines = filter (\<lambda>l. debit_minor l > 0 \<or> credit_minor l > 0)
          [line_debit AR tot (Some ''Accounts receivable''),
           line_credit REVENUE net (Some ''Revenue''),
           line_credit TAX_PAYABLE tax (Some ''Tax payable'')],
        jd_entry_date = None, jd_reverses_entry_id = None, jd_posted_by = None,
        jd_entity_id = None\<rparr>"

definition payment_entry ::
  "(uuid \<Rightarrow> string) \<Rightarrow> uuid \<Rightarrow> currency \<Rightarrow> int \<Rightarrow> int \<Rightarrow> money_error + journal_draft" where
  "payment_entry show_uuid payment_id cur allocated unapplied =
     and_then (ok_or Overflow (checked_add_i64 allocated unapplied)) (\<lambda>cash.
     checked_draft
       \<lparr>jd_memo = ''Payment '' @ show_uuid payment_id,
        jd_source_type = ''payment'', jd_source_id = payment_id, jd_currency = cur,
        jd_lines = [line_debit CASH cash (Some ''Cash received'')]
          @ (if allocated > 0
             then [line_credit AR allocated (Some ''AR settlement'')] else [])
          @ (if unapplied > 0
             then [line_credit CUSTOMER_CREDITS unapplied (Some ''Customer credit / overpayment'')]
             else []),
        jd_entry_date = None, jd_reverses_entry_id = None, jd_posted_by = None,
        jd_entity_id = None\<rparr>)"

definition credit_note_entry ::
  "(uuid \<Rightarrow> string) \<Rightarrow> uuid \<Rightarrow> currency \<Rightarrow> int \<Rightarrow> int \<Rightarrow> int \<Rightarrow> money_error + journal_draft" where
  "credit_note_entry show_uuid credit_id cur net tax tot =
     checked_draft
       \<lparr>jd_memo = ''Credit note '' @ show_uuid credit_id,
        jd_source_type = ''credit_note'', jd_source_id = credit_id, jd_currency = cur,
        jd_lines =
          (if net > 0 then [line_debit REVENUE net (Some ''Revenue reversal'')] else [])
          @ (if tax > 0 then [line_debit TAX_PAYABLE tax (Some ''Tax reversal'')] else [])
          @ [line_credit AR tot (Some ''AR credit'')],
        jd_entry_date = None, jd_reverses_entry_id = None, jd_posted_by = None,
        jd_entity_id = None\<rparr>"

definition expense_entry ::
  "(uuid \<Rightarrow> string) \<Rightarrow> uuid \<Rightarrow> currency \<Rightarrow> int \<Rightarrow> money_error + journal_draft" where
  "expense_entry show_uuid expense_id cur amount =
     checked_draft
       \<lparr>jd_memo = ''Expense '' @ show_uuid expense_id,
        jd_source_type = ''expense'', jd_source_id = expense_id, jd_currency = cur,
        jd_lines = [line_debit EXPENSE amount (Some ''Expense''),
          line_credit CASH amount (Some ''Cash'')],
        jd_entry_date = None, jd_reverses_entry_id = None, jd_posted_by = None,
        jd_entity_id = None\<rparr>"

definition payroll_entry ::
  "(uuid \<Rightarrow> string) \<Rightarrow> uuid \<Rightarrow> currency \<Rightarrow> int \<Rightarrow> int \<Rightarrow> int \<Rightarrow> money_error + journal_draft" where
  "payroll_entry show_uuid run_id cur gross deductions net =
     and_then (ok_or Overflow (checked_sub_i64 gross deductions)) (\<lambda>diff.
     if diff \<noteq> net then Inl Overflow
     else checked_draft
       \<lparr>jd_memo = ''Payroll run '' @ show_uuid run_id,
        jd_source_type = ''payroll'', jd_source_id = run_id, jd_currency = cur,
        jd_lines = [line_debit WAGES_EXPENSE gross (Some ''Wages expense'')]
          @ (if deductions > 0
             then [line_credit PAYROLL_DEDUCTIONS deductions (Some ''Payroll deductions payable'')]
             else [])
          @ (if net > 0
             then [line_credit NET_PAY_CLEARING net (Some ''Net pay clearing'')] else []),
        jd_entry_date = None, jd_reverses_entry_id = None, jd_posted_by = None,
        jd_entity_id = None\<rparr>)"

section \<open>Tables\<close>

datatype db_error = RowNotFound | UniqueViolation string | CheckViolation string
  | ForeignKeyViolation string | NumericOutOfRange

record ledger_account =
  la_id :: uuid
  la_org :: uuid
  la_public_id :: "string option"
  la_code :: string
  la_name :: string
  la_type :: string
  la_normal_balance :: string
  la_sort_order :: int
  la_is_active :: bool

record expense_category =
  xc_id :: uuid
  xc_org :: uuid
  xc_code :: string
  xc_name :: string

record fiscal_period =
  fp_id :: uuid
  fp_org :: uuid
  fp_public_id :: string
  fp_code :: string
  fp_name :: string
  fp_start :: date
  fp_end :: date
  fp_status :: string

record journal_entry =
  je_id :: uuid
  je_org :: uuid
  je_public_id :: string
  je_date :: date
  je_memo :: string
  je_source_type :: string
  je_source_id :: uuid
  je_currency :: string
  je_period :: uuid
  je_reverses :: "uuid option"
  je_posted_by :: "uuid option"
  je_entity :: "uuid option"

record journal_line =
  jl_id :: uuid
  jl_org :: uuid
  jl_entry :: uuid
  jl_account :: uuid
  jl_debit :: int
  jl_credit :: int
  jl_memo :: "string option"

record finance_db =
  accounts :: "ledger_account list"
  categories :: "expense_category list"
  periods :: "fiscal_period list"
  entries :: "journal_entry list"
  entry_lines :: "journal_line list"
  entities :: "uuid list"
  invoice_seq :: "(uuid \<times> int) \<rightharpoonup> int"
  uuids :: nat

record fin_env =
  show_uuid :: "uuid \<Rightarrow> string"
  gen_uuid :: "nat \<Rightarrow> uuid"
  show_db_error :: "db_error \<Rightarrow> string"
  date_year :: "date \<Rightarrow> int"
  date_month :: "date \<Rightarrow> int"
  from_ymd :: "int \<Rightarrow> int \<Rightarrow> int \<Rightarrow> date"
  pred_date :: "date \<Rightarrow> date"
  pick_period :: "fiscal_period list \<Rightarrow> fiscal_period"

definition new_uuid_v7 :: "fin_env \<Rightarrow> finance_db \<Rightarrow> finance_db \<times> uuid" where
  "new_uuid_v7 env db = (db\<lparr>uuids := Suc (uuids db)\<rparr>, gen_uuid env (uuids db))"

text \<open>Zero-padded decimal, \<open>{:0w}\<close>; a sign counts towards the width.\<close>

definition show_pad :: "nat \<Rightarrow> int \<Rightarrow> string" where
  "show_pad w i =
     (if i < 0 then let s = show_nat (nat (- i)) in CHR ''-'' # replicate (w - 1 - length s) CHR ''0'' @ s
      else let s = show_nat (nat i) in replicate (w - length s) CHR ''0'' @ s)"

section \<open>Chart of accounts\<close>

definition standard_accounts :: "(string \<times> string \<times> string \<times> string \<times> int) list" where
  "standard_accounts =
     [(CASH, ''Cash'', ''asset'', ''debit'', 100),
      (AR, ''Accounts Receivable'', ''asset'', ''debit'', 110),
      (TAX_PAYABLE, ''Tax Payable'', ''liability'', ''credit'', 210),
      (CUSTOMER_CREDITS, ''Customer Credits'', ''liability'', ''credit'', 220),
      (PAYROLL_DEDUCTIONS, ''Payroll Deductions Payable'', ''liability'', ''credit'', 230),
      (NET_PAY_CLEARING, ''Net Pay Clearing'', ''liability'', ''credit'', 240),
      (''3000'', ''Retained Earnings'', ''equity'', ''credit'', 300),
      (REVENUE, ''Revenue'', ''revenue'', ''credit'', 400),
      (EXPENSE, ''Operating Expenses'', ''expense'', ''debit'', 500),
      (WAGES_EXPENSE, ''Wages Expense'', ''expense'', ''debit'', 510),
      (INVENTORY, ''Inventory'', ''asset'', ''debit'', 120),
      (AP_VENDORS, ''Accounts Payable '' @ em_dash @ '' Vendors'', ''liability'', ''credit'', 200),
      (COGS, ''Cost of Goods Sold'', ''expense'', ''debit'', 520),
      (DEPRECIATION_EXPENSE, ''Depreciation Expense'', ''expense'', ''debit'', 530),
      (ACCUMULATED_DEPRECIATION, ''Accumulated Depreciation'', ''asset'', ''credit'', 130),
      (IC_RECEIVABLE, ''Intercompany Receivable'', ''asset'', ''debit'', 150),
      (IC_PAYABLE, ''Intercompany Payable'', ''liability'', ''credit'', 250),
      (IC_REVENUE, ''Intercompany Revenue'', ''revenue'', ''credit'', 490),
      (IC_EXPENSE, ''Intercompany Expense'', ''expense'', ''debit'', 590)]"

definition standard_categories :: "(string \<times> string) list" where
  "standard_categories =
     [(''general'', ''General''), (''travel'', ''Travel''), (''meals'', ''Meals''),
      (''mileage'', ''Mileage''), (''per_diem'', ''Per Diem'')]"

definition upsert_account ::
  "fin_env \<Rightarrow> uuid \<Rightarrow> string \<times> string \<times> string \<times> string \<times> int \<Rightarrow> finance_db \<Rightarrow> db_error + finance_db" where
  "upsert_account env org a db =
     (case a of (code, name, ty, normal, sort_no) \<Rightarrow>
      let (db, i) = new_uuid_v7 env db;
          public_id = public_id_as_str (show_uuid env) (public_id_new ''LedgerAccount'' i)
      in if list_ex (\<lambda>r. la_org r = org \<and> la_code r = code) (accounts db) then
           Inr (db\<lparr>accounts := map (\<lambda>r.
             if la_org r = org \<and> la_code r = code then
               r\<lparr>la_public_id := (case la_public_id r of None \<Rightarrow> Some public_id | Some q \<Rightarrow> Some q),
                 la_name := name, la_sort_order := sort_no\<rparr>
             else r) (accounts db)\<rparr>)
         else if list_ex (\<lambda>r. la_id r = i) (accounts db) then
           Inl (UniqueViolation ''finance_ledger_account_pkey'')
         else if list_ex (\<lambda>r. la_org r = org \<and> la_public_id r = Some public_id) (accounts db) then
           Inl (UniqueViolation ''finance_ledger_account_org_public_uidx'')
         else
           Inr (db\<lparr>accounts := accounts db @
             [\<lparr>la_id = i, la_org = org, la_public_id = Some public_id, la_code = code, la_name = name,
               la_type = ty, la_normal_balance = normal, la_sort_order = sort_no, la_is_active = True\<rparr>]\<rparr>))"

definition insert_category ::
  "fin_env \<Rightarrow> uuid \<Rightarrow> string \<times> string \<Rightarrow> finance_db \<Rightarrow> db_error + finance_db" where
  "insert_category env org c db =
     (case c of (code, name) \<Rightarrow>
      let (db, i) = new_uuid_v7 env db
      in if list_ex (\<lambda>r. xc_org r = org \<and> xc_code r = code) (categories db) then Inr db
         else if list_ex (\<lambda>r. xc_id r = i) (categories db) then
           Inl (UniqueViolation ''finance_expense_category_pkey'')
         else Inr (db\<lparr>categories := categories db @
             [\<lparr>xc_id = i, xc_org = org, xc_code = code, xc_name = name\<rparr>]\<rparr>))"

fun for_each :: "('x \<Rightarrow> 's \<Rightarrow> 'e + 's) \<Rightarrow> 'x list \<Rightarrow> 's \<Rightarrow> 'e + 's" where
  "for_each f [] s = Inr s"
| "for_each f (x # xs) s = and_then (f x s) (for_each f xs)"

definition ensure_ledger_accounts :: "fin_env \<Rightarrow> uuid \<Rightarrow> finance_db \<Rightarrow> db_error + finance_db" where
  "ensure_ledger_accounts env org db =
     and_then (for_each (upsert_account env org) standard_accounts db)
       (for_each (insert_category env org) standard_categories)"

definition account_id_by_code :: "finance_db \<Rightarrow> uuid \<Rightarrow> string \<Rightarrow> db_error + uuid" where
  "account_id_by_code db org code =
     ok_or RowNotFound (map_option la_id
       (find (\<lambda>r. la_org r = org \<and> la_code r = code) (accounts db)))"

section \<open>Fiscal periods\<close>

definition find_period_for_date :: "fin_env \<Rightarrow> finance_db \<Rightarrow> uuid \<Rightarrow> date \<Rightarrow> fiscal_period option" where
  "find_period_for_date env db org entry_date =
     (case filter (\<lambda>p. fp_org p = org \<and> fp_start p \<le> entry_date \<and> entry_date \<le> fp_end p) (periods db) of
        [] \<Rightarrow> None
      | ps \<Rightarrow> Some (pick_period env ps))"

definition ensure_period_for_date ::
  "fin_env \<Rightarrow> uuid \<Rightarrow> date \<Rightarrow> finance_db \<Rightarrow> db_error + finance_db \<times> fiscal_period" where
  "ensure_period_for_date env org entry_date db =
     (case find_period_for_date env db org entry_date of
        Some row \<Rightarrow> Inr (db, row)
      | None \<Rightarrow>
          let year = date_year env entry_date;
              month = date_month env entry_date;
              start = from_ymd env year month 1;
              end_d = (if month = 12 then pred_date env (from_ymd env (year + 1) 1 1)
                       else pred_date env (from_ymd env year (month + 1) 1));
              code = show_pad 4 year @ ''-'' @ show_pad 2 month;
              name = code @ '' fiscal period'';
              (db, i) = new_uuid_v7 env db;
              public_id = public_id_as_str (show_uuid env) (public_id_new ''FiscalPeriod'' i)
          in and_then
               (if list_ex (\<lambda>p. fp_org p = org \<and> fp_code p = code) (periods db) then Inr db
                else if list_ex (\<lambda>p. fp_id p = i) (periods db) then
                  Inl (UniqueViolation ''finance_fiscal_period_pkey'')
                else if list_ex (\<lambda>p. fp_org p = org \<and> fp_public_id p = public_id) (periods db) then
                  Inl (UniqueViolation ''finance_fiscal_period_org_id_public_id_key'')
                else if end_d < start then Inl (CheckViolation ''finance_fiscal_period_check'')
                else Inr (db\<lparr>periods := periods db @
                  [\<lparr>fp_id = i, fp_org = org, fp_public_id = public_id, fp_code = code, fp_name = name,
                    fp_start = start, fp_end = end_d, fp_status = ''open''\<rparr>]\<rparr>))
               (\<lambda>db. case find_period_for_date env db org entry_date of
                  Some row \<Rightarrow> Inr (db, row)
                | None \<Rightarrow> Inl RowNotFound))"

definition assert_period_accepts_posting :: "fiscal_period \<Rightarrow> string \<Rightarrow> app_error + unit" where
  "assert_period_accepts_posting p request_id =
     (if fp_status p = ''open'' then Inr ()
      else if fp_status p = ''closed'' then
        Inl (app_error_new Conflict request_id
          (''fiscal period '' @ fp_code p @ '' ('' @ fp_public_id p @
           '') is closed; reopen required before posting''))
      else if fp_status p = ''locked'' then
        Inl (app_error_new Conflict request_id
          (''fiscal period '' @ fp_code p @ '' ('' @ fp_public_id p @
           '') is locked; reopen required before posting''))
      else Inl (app_error_new Internal request_id (''unknown period status: '' @ fp_status p)))"

definition default_checklist :: "(string \<times> bool) list" where
  "default_checklist =
     [(''bank_reconciled'', False), (''expenses_posted'', False), (''accruals_reviewed'', False),
      (''trial_balance_reviewed'', False), (''payroll_posted'', False)]"

section \<open>Posting\<close>

definition allowed_source_types :: "string list" where
  "allowed_source_types =
     [''invoice_issue'', ''payment'', ''credit_note'', ''expense'', ''manual'', ''payroll'',
      ''inventory_receipt'', ''inventory_cogs'', ''inventory_depreciation'',
      ''vendor_bill'', ''vendor_payment'', ''intercompany'']"

definition insert_entry :: "journal_entry \<Rightarrow> finance_db \<Rightarrow> db_error + finance_db" where
  "insert_entry e db =
     (if list_ex (\<lambda>r. je_id r = je_id e) (entries db) then
        Inl (UniqueViolation ''finance_journal_entry_pkey'')
      else if list_ex (\<lambda>r. je_org r = je_org e \<and> je_public_id r = je_public_id e) (entries db) then
        Inl (UniqueViolation ''finance_journal_entry_org_id_public_id_key'')
      else if \<not> List.member allowed_source_types (je_source_type e) then
        Inl (CheckViolation ''finance_journal_entry_source_type_check'')
      else if je_source_type e = ''payroll'' \<and>
          list_ex (\<lambda>r. je_org r = je_org e \<and> je_source_type r = ''payroll'' \<and>
            je_source_id r = je_source_id e) (entries db) then
        Inl (UniqueViolation ''finance_journal_entry_org_source_payroll_uidx'')
      else if (case je_reverses e of None \<Rightarrow> False
          | Some x \<Rightarrow> x \<noteq> je_id e \<and> \<not> list_ex (\<lambda>r. je_id r = x) (entries db)) then
        Inl (ForeignKeyViolation ''finance_journal_entry_reverses_entry_id_fkey'')
      else if (case je_entity e of None \<Rightarrow> False | Some x \<Rightarrow> \<not> List.member (entities db) x) then
        Inl (ForeignKeyViolation ''finance_journal_entry_entity_id_fkey'')
      else Inr (db\<lparr>entries := entries db @ [e]\<rparr>))"

definition insert_line :: "journal_line \<Rightarrow> finance_db \<Rightarrow> db_error + finance_db" where
  "insert_line l db =
     (if list_ex (\<lambda>r. jl_id r = jl_id l) (entry_lines db) then
        Inl (UniqueViolation ''finance_journal_line_pkey'')
      else if \<not> (jl_debit l \<ge> 0 \<and> jl_credit l \<ge> 0 \<and>
          (jl_debit l > 0 \<and> jl_credit l = 0 \<or> jl_credit l > 0 \<and> jl_debit l = 0)) then
        Inl (CheckViolation ''finance_journal_line_check'')
      else Inr (db\<lparr>entry_lines := entry_lines db @ [l]\<rparr>))"

definition db_failed :: "fin_env \<Rightarrow> string \<Rightarrow> db_error \<Rightarrow> app_error" where
  "db_failed env request_id e = app_error_new Internal request_id (''db error: '' @ show_db_error env e)"

definition post_line ::
  "fin_env \<Rightarrow> uuid \<Rightarrow> string \<Rightarrow> uuid \<Rightarrow> ledger_line \<Rightarrow> finance_db \<Rightarrow> app_error + finance_db" where
  "post_line env org request_id entry_id line db =
     (case account_id_by_code db org (account_code line) of
        Inl _ \<Rightarrow> Inl (app_error_new ValidationFailed request_id
          (''unknown account_code: '' @ account_code line))
      | Inr acct \<Rightarrow>
          and_then (map_err (db_failed env request_id)
            (ok_or RowNotFound (map_option la_is_active
              (find (\<lambda>r. la_org r = org \<and> la_id r = acct) (accounts db))))) (\<lambda>active.
          if \<not> active then
            Inl (app_error_new ValidationFailed request_id
              (''account '' @ account_code line @ '' is inactive''))
          else
            let (db, i) = new_uuid_v7 env db
            in map_err (db_failed env request_id) (insert_line
                 \<lparr>jl_id = i, jl_org = org, jl_entry = entry_id, jl_account = acct,
                  jl_debit = debit_minor line, jl_credit = credit_minor line,
                  jl_memo = ll_memo line\<rparr> db)))"

definition post_journal ::
  "fin_env \<Rightarrow> date \<Rightarrow> uuid \<Rightarrow> journal_draft \<Rightarrow> string \<Rightarrow> finance_db \<Rightarrow> app_error + finance_db \<times> uuid" where
  "post_journal env today org draft request_id db =
     and_then (map_err (\<lambda>_. app_error_new ValidationFailed request_id ''journal lines must balance'')
       (assert_balanced draft)) (\<lambda>_.
     let entry_date = (case jd_entry_date draft of Some d \<Rightarrow> d | None \<Rightarrow> today) in
     and_then (map_err (db_failed env request_id) (ensure_period_for_date env org entry_date db))
       (\<lambda>(db, period).
     and_then (assert_period_accepts_posting period request_id) (\<lambda>_.
     let (db, entry_id) = new_uuid_v7 env db;
         public_id = ''jrn_'' @ show_uuid env entry_id
     in
     and_then (map_err (db_failed env request_id) (insert_entry
       \<lparr>je_id = entry_id, je_org = org, je_public_id = public_id, je_date = entry_date,
        je_memo = jd_memo draft, je_source_type = jd_source_type draft,
        je_source_id = jd_source_id draft, je_currency = currency_bytes (jd_currency draft),
        je_period = fp_id period, je_reverses = jd_reverses_entry_id draft,
        je_posted_by = jd_posted_by draft, je_entity = jd_entity_id draft\<rparr> db)) (\<lambda>db.
     and_then (for_each (post_line env org request_id entry_id) (jd_lines draft) db) (\<lambda>db.
     Inr (db, entry_id))))))"

section \<open>Document numbers\<close>

text \<open>
  The insert that does nothing on conflict, then the update that returns the number before the
  increment; \<open>BIGINT\<close> arithmetic out of range is a database error. The row lock of the update
  serialises concurrent transactions on the same sequence, and a rollback undoes the increment.
\<close>

definition next_in_sequence :: "uuid \<Rightarrow> int \<Rightarrow> finance_db \<Rightarrow> db_error + finance_db \<times> int" where
  "next_in_sequence org key db =
     (let db = (case invoice_seq db (org, key) of
                  None \<Rightarrow> db\<lparr>invoice_seq := (invoice_seq db)((org, key) \<mapsto> 1)\<rparr>
                | Some _ \<Rightarrow> db)
      in case invoice_seq db (org, key) of
           None \<Rightarrow> Inl RowNotFound
         | Some n \<Rightarrow>
             if \<not> in_i64 (n + 1) then Inl NumericOutOfRange
             else Inr (db\<lparr>invoice_seq := (invoice_seq db)((org, key) \<mapsto> n + 1)\<rparr>, (n + 1) - 1))"

definition next_invoice_number :: "int \<Rightarrow> uuid \<Rightarrow> finance_db \<Rightarrow> db_error + finance_db \<times> string" where
  "next_invoice_number year org db =
     and_then (next_in_sequence org year db) (\<lambda>(db, n).
     Inr (db, ''INV-'' @ show_int year @ ''-'' @ show_pad 6 n))"

definition next_credit_number :: "int \<Rightarrow> uuid \<Rightarrow> finance_db \<Rightarrow> db_error + finance_db \<times> string" where
  "next_credit_number year org db =
     and_then (next_in_sequence org (year + 100000) db) (\<lambda>(db, n).
     Inr (db, ''CN-'' @ show_int year @ ''-'' @ show_pad 6 n))"

section \<open>Balanced drafts\<close>

abbreviation debits :: "ledger_line list \<Rightarrow> int" where
  "debits ls \<equiv> sum_list (map debit_minor ls)"

abbreviation credits :: "ledger_line list \<Rightarrow> int" where
  "credits ls \<equiv> sum_list (map credit_minor ls)"

text \<open>What the table accepts as a line: one side positive, the other zero.\<close>

definition proper_line :: "int \<Rightarrow> int \<Rightarrow> bool" where
  "proper_line d c \<longleftrightarrow> 0 < d \<and> c = 0 \<or> 0 < c \<and> d = 0"

definition postable :: "journal_draft \<Rightarrow> bool" where
  "postable d \<longleftrightarrow> assert_balanced d = Inr () \<and>
     list_all (\<lambda>l. proper_line (debit_minor l) (credit_minor l)) (jd_lines d)"

lemma balance_loop_Inr:
  "balance_loop ls d c = Inr (d', c') \<Longrightarrow> d' = d + debits ls \<and> c' = c + credits ls"
proof (induction ls arbitrary: d c)
  case (Cons l ls)
  then have "balance_loop ls (d + debit_minor l) (c + credit_minor l) = Inr (d', c')"
    by (auto simp: result_simps checked_simps split: if_splits)
  from Cons.IH [OF this] show ?case by simp
qed simp

lemma assert_balanced_Inr: "assert_balanced d = Inr () \<Longrightarrow> debits (jd_lines d) = credits (jd_lines d)"
  by (auto simp: assert_balanced_def result_simps split: if_splits dest!: balance_loop_Inr)

lemma checked_draft_Inr [result_simps]: "checked_draft d = Inr d' \<longleftrightarrow> d' = d \<and> assert_balanced d = Inr ()"
  by (auto simp: checked_draft_def result_simps)

lemma postable_checked: "postable d \<Longrightarrow> checked_draft d = Inr d"
  by (simp add: postable_def checked_draft_Inr)

lemma balance_loop_proper:
  assumes "list_all (\<lambda>l. proper_line (debit_minor l) (credit_minor l)) ls"
    and "0 \<le> d" "0 \<le> c" "in_i64 (d + debits ls)" "in_i64 (c + credits ls)"
  shows "balance_loop ls d c = Inr (d + debits ls, c + credits ls)"
  using assms
proof (induction ls arbitrary: d c)
  case (Cons l ls)
  have "0 \<le> debits ls" "0 \<le> credits ls"
    using Cons.prems(1) by (force simp: proper_line_def list_all_iff intro!: sum_list_nonneg)+
  moreover have "0 \<le> debit_minor l" "0 \<le> credit_minor l"
    using Cons.prems(1) by (auto simp: proper_line_def)
  ultimately have "in_i64 (d + debit_minor l)" "in_i64 (c + credit_minor l)"
    using Cons.prems(2-5) by (auto simp: in_i64_def)
  moreover have "balance_loop ls (d + debit_minor l) (c + credit_minor l) =
      Inr (d + debit_minor l + debits ls, c + credit_minor l + credits ls)"
    using Cons.prems \<open>0 \<le> debit_minor l\<close> \<open>0 \<le> credit_minor l\<close>
    by (intro Cons.IH) (simp_all add: add.assoc)
  ultimately show ?case using Cons.prems(1) by (auto simp: checked_i64_def proper_line_def)
qed simp

lemma postable_intro:
  assumes "list_all (\<lambda>l. proper_line (debit_minor l) (credit_minor l)) (jd_lines d)"
    and "debits (jd_lines d) = credits (jd_lines d)" and "in_i64 (debits (jd_lines d))"
  shows "postable d"
  using assms balance_loop_proper [of "jd_lines d" 0 0] by (simp add: postable_def assert_balanced_def)

lemmas builder_defs = invoice_issue_entry_def payment_entry_def credit_note_entry_def
  expense_entry_def payroll_entry_def line_debit_def line_credit_def

section \<open>Periods\<close>

text \<open>What is assumed of a query with \<open>LIMIT 1\<close>: it returns one of the matching rows.\<close>

definition picks_member :: "fin_env \<Rightarrow> bool" where
  "picks_member env \<longleftrightarrow> (\<forall>ps. ps \<noteq> [] \<longrightarrow> pick_period env ps \<in> set ps)"

abbreviation covers_date :: "uuid \<Rightarrow> date \<Rightarrow> fiscal_period \<Rightarrow> bool" where
  "covers_date org d p \<equiv> fp_org p = org \<and> fp_start p \<le> d \<and> d \<le> fp_end p"

lemma find_period_Some:
  assumes "picks_member env" and "find_period_for_date env db org d = Some p"
  shows "p \<in> set (periods db) \<and> covers_date org d p"
proof -
  let ?ps = "filter (covers_date org d) (periods db)"
  from assms(2) have "?ps \<noteq> []" and "p = pick_period env ?ps"
    by (auto simp: find_period_for_date_def split: list.splits)
  with assms(1) have "p \<in> set ?ps" unfolding picks_member_def by blast
  then show ?thesis by simp
qed

lemma find_period_None:
  "find_period_for_date env db org d = None \<longleftrightarrow> (\<forall>p \<in> set (periods db). \<not> covers_date org d p)"
proof -
  have "find_period_for_date env db org d = None \<longleftrightarrow> filter (covers_date org d) (periods db) = []"
    by (simp add: find_period_for_date_def split: list.split)
  then show ?thesis by (simp only: filter_empty_conv)
qed

text \<open>
  The periods a posting adds: none when a period covers the date, otherwise the open period of
  the month of the date, which then is the one that is found.
\<close>

definition periods_added :: "fin_env \<Rightarrow> uuid \<Rightarrow> date \<Rightarrow> finance_db \<Rightarrow> fiscal_period \<Rightarrow> fiscal_period list \<Rightarrow> bool" where
  "periods_added env org d db p ps \<longleftrightarrow>
     (if list_ex (covers_date org d) (periods db) then ps = []
      else ps = [p] \<and> fp_status p = ''open'' \<and>
        fp_code p = show_pad 4 (date_year env d) @ ''-'' @ show_pad 2 (date_month env d) \<and>
        fp_start p = from_ymd env (date_year env d) (date_month env d) 1 \<and>
        fp_end p = (if date_month env d = 12 then pred_date env (from_ymd env (date_year env d + 1) 1 1)
          else pred_date env (from_ymd env (date_year env d) (date_month env d + 1) 1)))"

lemma ensure_period_Inr:
  assumes "picks_member env" and "ensure_period_for_date env org d db = Inr (db', p)"
  shows "p \<in> set (periods db') \<and> covers_date org d p \<and>
    (\<exists>ps n. db' = db\<lparr>periods := periods db @ ps, uuids := n\<rparr> \<and> periods_added env org d db p ps)"
proof (cases "find_period_for_date env db org d")
  case (Some q)
  then have "db' = db" "p = q" using assms(2) by (simp_all add: ensure_period_for_date_def)
  moreover have "db = db\<lparr>periods := periods db @ [], uuids := uuids db\<rparr>" by simp
  moreover have "periods_added env org d db p []"
    using Some find_period_None [of env db org d] by (auto simp: periods_added_def list_ex_iff)
  ultimately show ?thesis using find_period_Some [OF assms(1) Some] by metis
next
  case None
  then have free: "\<forall>q \<in> set (periods db). \<not> covers_date org d q" by (simp only: find_period_None)
  define ps where "ps = List.drop (length (periods db)) (periods db')"
  from None assms(2) have found: "find_period_for_date env db' org d = Some p"
    and shape: "db' = db\<lparr>periods := periods db @ ps, uuids := Suc (uuids db)\<rparr>"
    and ps: "ps = [] \<or> (\<exists>q. ps = [q] \<and> fp_status q = ''open'' \<and>
        fp_code q = show_pad 4 (date_year env d) @ ''-'' @ show_pad 2 (date_month env d) \<and>
        fp_start q = from_ymd env (date_year env d) (date_month env d) 1 \<and>
        fp_end q = (if date_month env d = 12 then pred_date env (from_ymd env (date_year env d + 1) 1 1)
          else pred_date env (from_ymd env (date_year env d) (date_month env d + 1) 1)))"
    by (auto simp: ensure_period_for_date_def new_uuid_v7_def Let_def result_simps ps_def
        split: option.splits if_splits prod.splits)
  from find_period_Some [OF assms(1) found] have p: "p \<in> set (periods db')" "covers_date org d p" by simp_all
  with free shape ps have "periods_added env org d db p ps"
    by (auto simp: periods_added_def list_ex_iff)
  with p shape show ?thesis by blast
qed

lemma accepts_posting_Inr: "assert_period_accepts_posting p r = Inr () \<longleftrightarrow> fp_status p = ''open''"
  by (simp add: assert_period_accepts_posting_def)

section \<open>Posting\<close>

text \<open>One draft line and the row it becomes.\<close>

definition line_posted :: "finance_db \<Rightarrow> uuid \<Rightarrow> uuid \<Rightarrow> ledger_line \<Rightarrow> journal_line \<Rightarrow> bool" where
  "line_posted db org entry_id l r \<longleftrightarrow>
     jl_org r = org \<and> jl_entry r = entry_id \<and> jl_debit r = debit_minor l \<and>
     jl_credit r = credit_minor l \<and> jl_memo r = ll_memo l \<and>
     proper_line (jl_debit r) (jl_credit r) \<and>
     (\<exists>a \<in> set (accounts db). la_org a = org \<and> la_id a = jl_account r \<and> la_is_active a) \<and>
     account_id_by_code db org (account_code l) = Inr (jl_account r)"

lemma insert_line_Inr:
  "insert_line l db = Inr db' \<longleftrightarrow> proper_line (jl_debit l) (jl_credit l) \<and>
     (\<forall>r \<in> set (entry_lines db). jl_id r \<noteq> jl_id l) \<and> db' = db\<lparr>entry_lines := entry_lines db @ [l]\<rparr>"
  by (auto simp: insert_line_def proper_line_def list_ex_iff)

lemma find_Some_set: "find P xs = Some x \<Longrightarrow> x \<in> set xs \<and> P x"
  by (induction xs) (auto split: if_splits)

lemma post_line_Inr:
  assumes "post_line env org rid entry_id l db = Inr db'"
  shows "\<exists>r n. line_posted db org entry_id l r \<and>
    db' = db\<lparr>entry_lines := entry_lines db @ [r], uuids := n\<rparr>"
proof -
  from assms obtain acct where acct: "account_id_by_code db org (account_code l) = Inr acct"
    by (auto simp: post_line_def split: sum.splits)
  let ?r = "\<lparr>jl_id = gen_uuid env (uuids db), jl_org = org, jl_entry = entry_id, jl_account = acct,
    jl_debit = debit_minor l, jl_credit = credit_minor l, jl_memo = ll_memo l\<rparr>"
  from assms acct obtain a where "find (\<lambda>r. la_org r = org \<and> la_id r = acct) (accounts db) = Some a"
    and "la_is_active a" and ins: "insert_line ?r (db\<lparr>uuids := Suc (uuids db)\<rparr>) = Inr db'"
    by (auto simp: post_line_def new_uuid_v7_def result_simps split: if_splits)
  then have "line_posted db org entry_id l ?r"
    using acct by (auto simp: line_posted_def insert_line_Inr dest!: find_Some_set)
  with ins show ?thesis
    by (intro exI [of _ ?r] exI [of _ "Suc (uuids db)"]) (simp add: insert_line_Inr)
qed

lemma line_posted_same_accounts:
  "accounts db' = accounts db \<Longrightarrow> line_posted db' = line_posted db"
  by (intro ext) (simp add: line_posted_def account_id_by_code_def)

lemma post_lines_Inr:
  assumes "for_each (post_line env org rid entry_id) ls db = Inr db'"
  shows "\<exists>rs n. list_all2 (line_posted db org entry_id) ls rs \<and>
    db' = db\<lparr>entry_lines := entry_lines db @ rs, uuids := n\<rparr>"
  using assms
proof (induction ls arbitrary: db)
  case Nil
  then have "db' = db\<lparr>entry_lines := entry_lines db @ [], uuids := uuids db\<rparr>" by simp
  then show ?case by blast
next
  case (Cons l ls)
  then obtain db1 where "post_line env org rid entry_id l db = Inr db1"
    and rest: "for_each (post_line env org rid entry_id) ls db1 = Inr db'"
    by (auto simp: result_simps)
  then obtain r n where r: "line_posted db org entry_id l r"
    and db1: "db1 = db\<lparr>entry_lines := entry_lines db @ [r], uuids := n\<rparr>"
    using post_line_Inr by blast
  from Cons.IH [OF rest] obtain rs m where "list_all2 (line_posted db1 org entry_id) ls rs"
    and "db' = db1\<lparr>entry_lines := entry_lines db1 @ rs, uuids := m\<rparr>" by blast
  moreover have "line_posted db1 = line_posted db"
    by (rule line_posted_same_accounts) (simp add: db1)
  ultimately show ?case using r
    by (intro exI [of _ "r # rs"] exI [of _ m]) (simp add: db1)
qed

lemma insert_entry_Inr:
  assumes "insert_entry e db = Inr db'"
  shows "db' = db\<lparr>entries := entries db @ [e]\<rparr> \<and> (\<forall>r \<in> set (entries db). je_id r \<noteq> je_id e)"
  using assms by (auto simp: insert_entry_def list_ex_iff split: if_splits)

text \<open>The date of a draft, and the entry it becomes under a period.\<close>

definition draft_date :: "date \<Rightarrow> journal_draft \<Rightarrow> date" where
  "draft_date today draft = (case jd_entry_date draft of Some d \<Rightarrow> d | None \<Rightarrow> today)"

definition draft_entry :: "fin_env \<Rightarrow> date \<Rightarrow> uuid \<Rightarrow> journal_draft \<Rightarrow> uuid \<Rightarrow> uuid \<Rightarrow> journal_entry" where
  "draft_entry env today org draft i period =
     \<lparr>je_id = i, je_org = org, je_public_id = ''jrn_'' @ show_uuid env i, je_date = draft_date today draft,
      je_memo = jd_memo draft, je_source_type = jd_source_type draft,
      je_source_id = jd_source_id draft, je_currency = currency_bytes (jd_currency draft),
      je_period = period, je_reverses = jd_reverses_entry_id draft,
      je_posted_by = jd_posted_by draft, je_entity = jd_entity_id draft\<rparr>"

text \<open>The effect of a successful posting, on which the properties rest.\<close>

lemma post_journal_Inr_full:
  assumes "picks_member env" and "post_journal env today org draft rid db = Inr (db', i)"
  obtains p ps rs n where
    "assert_balanced draft = Inr ()"
    "db' = db\<lparr>periods := periods db @ ps, entries := entries db @ [draft_entry env today org draft i (fp_id p)],
      entry_lines := entry_lines db @ rs, uuids := n\<rparr>"
    "p \<in> set (periods db')" "fp_status p = ''open''" "covers_date org (draft_date today draft) p"
    "periods_added env org (draft_date today draft) db p ps"
    "\<forall>r \<in> set (entries db). je_id r \<noteq> i"
    "list_all2 (line_posted db org i) (jd_lines draft) rs"
proof -
  let ?d = "draft_date today draft"
  from assms(2) obtain db1 p db2 where bal: "assert_balanced draft = Inr ()"
    and per: "ensure_period_for_date env org ?d db = Inr (db1, p)"
    and op: "fp_status p = ''open''"
    and ins: "insert_entry (draft_entry env today org draft i (fp_id p)) (db1\<lparr>uuids := Suc (uuids db1)\<rparr>) = Inr db2"
    and ls: "for_each (post_line env org rid i) (jd_lines draft) db2 = Inr db'"
    by (auto simp: post_journal_def Let_def new_uuid_v7_def result_simps accepts_posting_Inr
        draft_entry_def draft_date_def split: prod.splits)
  from ensure_period_Inr [OF assms(1) per] obtain ps n where p: "p \<in> set (periods db1)" "covers_date org ?d p"
    and db1: "db1 = db\<lparr>periods := periods db @ ps, uuids := n\<rparr>"
    and ps: "periods_added env org ?d db p ps" by blast
  let ?e = "draft_entry env today org draft i (fp_id p)"
  from insert_entry_Inr [OF ins] have db2: "db2 = db1\<lparr>uuids := Suc (uuids db1), entries := entries db @ [?e]\<rparr>"
    and fresh: "\<forall>r \<in> set (entries db). je_id r \<noteq> i"
    by (simp_all add: db1 draft_entry_def)
  from post_lines_Inr [OF ls] obtain rs m where "list_all2 (line_posted db2 org i) (jd_lines draft) rs"
    and db': "db' = db2\<lparr>entry_lines := entry_lines db2 @ rs, uuids := m\<rparr>" by blast
  moreover have "line_posted db2 = line_posted db"
    by (rule line_posted_same_accounts) (simp add: db2 db1)
  ultimately have rs: "list_all2 (line_posted db org i) (jd_lines draft) rs" by simp
  have "db' = db\<lparr>periods := periods db @ ps, entries := entries db @ [?e],
      entry_lines := entry_lines db @ rs, uuids := m\<rparr>"
    by (simp add: db' db2 db1)
  from that [OF bal this _ op p(2) ps fresh rs] p(1) show thesis by (simp add: db' db2)
qed

lemma post_journal_Inr:
  assumes "picks_member env" and "post_journal env today org draft rid db = Inr (db', i)"
  obtains p ps e rs n where
    "assert_balanced draft = Inr ()"
    "db' = db\<lparr>periods := periods db @ ps, entries := entries db @ [e],
      entry_lines := entry_lines db @ rs, uuids := n\<rparr>"
    "p \<in> set (periods db')" "fp_status p = ''open''"
    "covers_date org (case jd_entry_date draft of Some d \<Rightarrow> d | None \<Rightarrow> today) p"
    "je_id e = i" "je_org e = org" "je_period e = fp_id p"
    "je_date e = (case jd_entry_date draft of Some d \<Rightarrow> d | None \<Rightarrow> today)"
    "\<forall>r \<in> set (entries db). je_id r \<noteq> i"
    "list_all2 (line_posted db org i) (jd_lines draft) rs"
proof -
  from post_journal_Inr_full [OF assms] obtain p ps rs n where
    "assert_balanced draft = Inr ()"
    "db' = db\<lparr>periods := periods db @ ps, entries := entries db @ [draft_entry env today org draft i (fp_id p)],
      entry_lines := entry_lines db @ rs, uuids := n\<rparr>"
    "p \<in> set (periods db')" "fp_status p = ''open''" "covers_date org (draft_date today draft) p"
    "\<forall>r \<in> set (entries db). je_id r \<noteq> i" "list_all2 (line_posted db org i) (jd_lines draft) rs" .
  then show thesis
    by (intro that [where e = "draft_entry env today org draft i (fp_id p)" and p = p and ps = ps and rs = rs
        and n = n]) (simp_all add: draft_entry_def draft_date_def)
qed

lemma posted_sums:
  assumes "list_all2 (line_posted db org i) ls rs"
  shows "sum_list (map jl_debit rs) = debits ls" and "sum_list (map jl_credit rs) = credits ls"
  using assms by (induction, auto simp: line_posted_def)

section \<open>Reachable ledgers\<close>

text \<open>
  A ledger starts without entries. It changes by a posting, or by anything that leaves entries
  and lines alone: seeding accounts, opening, closing and reopening periods, numbering. The
  triggers on the two journal tables reject every update and delete.
\<close>

definition ledger_init :: "finance_db \<Rightarrow> bool" where
  "ledger_init db \<longleftrightarrow> entries db = [] \<and> entry_lines db = []"

inductive ledger_step :: "finance_db \<Rightarrow> finance_db \<Rightarrow> bool" where
  posting: "picks_member env \<Longrightarrow> post_journal env today org draft rid db = Inr (db', i) \<Longrightarrow>
    ledger_step db db'"
| other_tables: "entries db' = entries db \<Longrightarrow> entry_lines db' = entry_lines db \<Longrightarrow> ledger_step db db'"

definition side_sum :: "(journal_line \<Rightarrow> int) \<Rightarrow> (journal_line \<Rightarrow> bool) \<Rightarrow> finance_db \<Rightarrow> int" where
  "side_sum side P db = sum_list (map side (filter P (entry_lines db)))"

definition ledger_inv :: "finance_db \<Rightarrow> bool" where
  "ledger_inv db \<longleftrightarrow>
     distinct (map je_id (entries db)) \<and>
     (\<forall>l \<in> set (entry_lines db). proper_line (jl_debit l) (jl_credit l) \<and>
        (\<exists>e \<in> set (entries db). je_id e = jl_entry l \<and> je_org e = jl_org l)) \<and>
     (\<forall>i. side_sum jl_debit (\<lambda>l. jl_entry l = i) db = side_sum jl_credit (\<lambda>l. jl_entry l = i) db) \<and>
     (\<forall>org. side_sum jl_debit (\<lambda>l. jl_org l = org) db = side_sum jl_credit (\<lambda>l. jl_org l = org) db)"

lemma side_sum_append:
  "entry_lines db' = entry_lines db @ rs \<Longrightarrow>
   side_sum side P db' = side_sum side P db + sum_list (map side (filter P rs))"
  by (simp add: side_sum_def)

lemma posted_filter:
  assumes "list_all2 (line_posted db org i) ls rs"
  shows "filter (\<lambda>l. jl_entry l = j) rs = (if j = i then rs else [])"
    and "filter (\<lambda>l. jl_org l = o') rs = (if o' = org then rs else [])"
    and "\<forall>l \<in> set rs. jl_entry l = i \<and> jl_org l = org \<and> proper_line (jl_debit l) (jl_credit l)"
  using assms by (induction, auto simp: line_posted_def)

lemma ledger_inv_init: "ledger_init db \<Longrightarrow> ledger_inv db"
  by (simp add: ledger_init_def ledger_inv_def side_sum_def)

lemma ledger_inv_posting:
  assumes "ledger_inv db" and "picks_member env" and "post_journal env today org draft rid db = Inr (db', i)"
  shows "ledger_inv db'"
proof -
  from post_journal_Inr [OF assms(2,3)] obtain ps e rs n where bal: "assert_balanced draft = Inr ()"
    and db': "db' = db\<lparr>periods := periods db @ ps, entries := entries db @ [e],
      entry_lines := entry_lines db @ rs, uuids := n\<rparr>"
    and e: "je_id e = i" "je_org e = org" and fresh: "\<forall>r \<in> set (entries db). je_id r \<noteq> i"
    and rs: "list_all2 (line_posted db org i) (jd_lines draft) rs"
    by metis
  have new: "sum_list (map jl_debit rs) = sum_list (map jl_credit rs)"
    using posted_sums [OF rs] assert_balanced_Inr [OF bal] by simp
  have lines: "entry_lines db' = entry_lines db @ rs" by (simp add: db')
  note sums = side_sum_append [OF lines]
  have "side_sum jl_debit (\<lambda>l. jl_entry l = j) db' = side_sum jl_credit (\<lambda>l. jl_entry l = j) db'" for j
    using assms(1) new by (simp add: sums posted_filter [OF rs] ledger_inv_def)
  moreover have "side_sum jl_debit (\<lambda>l. jl_org l = o') db' = side_sum jl_credit (\<lambda>l. jl_org l = o') db'" for o'
    using assms(1) new by (simp add: sums posted_filter [OF rs] ledger_inv_def)
  moreover have "distinct (map je_id (entries db'))"
    using assms(1) fresh e by (auto simp: db' ledger_inv_def)
  moreover have "\<forall>l \<in> set (entry_lines db'). proper_line (jl_debit l) (jl_credit l) \<and>
      (\<exists>e \<in> set (entries db'). je_id e = jl_entry l \<and> je_org e = jl_org l)"
    using assms(1) posted_filter(3) [OF rs] e by (auto simp: db' ledger_inv_def)
  ultimately show ?thesis unfolding ledger_inv_def by blast
qed

interpretation ledger: transition_system ledger_init ledger_step ledger_inv
proof
  show "ledger_inv db'" if "ledger_inv db" "ledger_step db db'" for db db'
    using that(2)
  proof cases
    case posting
    with that(1) show ?thesis by (metis ledger_inv_posting)
  next
    case other_tables
    with that(1) show ?thesis by (simp add: ledger_inv_def side_sum_def)
  qed
qed (rule ledger_inv_init)

section \<open>Numbering\<close>

text \<open>A series of numbering calls: credit note or invoice, year, organisation.\<close>

type_synonym number_call = "bool \<times> int \<times> uuid"

fun call_number :: "number_call \<Rightarrow> finance_db \<Rightarrow> db_error + finance_db \<times> string" where
  "call_number (credit, year, org) db =
     (if credit then next_credit_number year org db else next_invoice_number year org db)"

fun run_numbers :: "number_call list \<Rightarrow> finance_db \<Rightarrow> db_error + finance_db \<times> string list" where
  "run_numbers [] db = Inr (db, [])"
| "run_numbers (c # cs) db =
     and_then (call_number c db) (\<lambda>(db, s).
     and_then (run_numbers cs db) (\<lambda>(db, ss). Inr (db, s # ss)))"

definition seq_key :: "number_call \<Rightarrow> uuid \<times> int" where
  "seq_key c = (case c of (credit, year, org) \<Rightarrow> (org, if credit then year + 100000 else year))"

definition next_no :: "finance_db \<Rightarrow> number_call \<Rightarrow> int" where
  "next_no db c = (case invoice_seq db (seq_key c) of None \<Rightarrow> 1 | Some n \<Rightarrow> n)"

definition number_text :: "number_call \<Rightarrow> int \<Rightarrow> string" where
  "number_text c n = (case c of (credit, year, org) \<Rightarrow>
     (if credit then ''CN-'' else ''INV-'') @ show_int year @ ''-'' @ show_pad 6 n)"

definition call_ok :: "number_call \<Rightarrow> bool" where
  "call_ok c = (case c of (credit, year, org) \<Rightarrow> 0 \<le> year \<and> year < 100000)"

lemma seq_key_eq: "call_ok c \<Longrightarrow> call_ok d \<Longrightarrow> seq_key c = seq_key d \<longleftrightarrow> c = d"
  by (auto simp: call_ok_def seq_key_def split: prod.splits if_splits)

lemma call_number_Inr:
  assumes "call_number c db = Inr (db', s)"
  shows "s = number_text c (next_no db c) \<and>
    invoice_seq db' = (invoice_seq db)(seq_key c \<mapsto> next_no db c + 1)"
  using assms
  by (cases c) (auto simp: next_credit_number_def next_invoice_number_def next_in_sequence_def
      number_text_def seq_key_def next_no_def Let_def result_simps split: if_splits option.splits)

lemma run_numbers_nth:
  assumes "run_numbers cs db = Inr (db', ss)" and "\<forall>c \<in> set cs. call_ok c"
  shows "length ss = length cs \<and>
    (\<forall>i < length cs. ss ! i = number_text (cs ! i) (next_no db (cs ! i) + int (count_list (take i cs) (cs ! i))))"
  using assms
proof (induction cs arbitrary: db ss)
  case (Cons c cs)
  then obtain db1 s ts where c: "call_number c db = Inr (db1, s)"
    and r: "run_numbers cs db1 = Inr (db', ts)" and ss: "ss = s # ts"
    by (auto simp: result_simps)
  note IH = Cons.IH [OF r] and one = call_number_Inr [OF c]
  have bump: "next_no db1 d = next_no db d + (if d = c then 1 else 0)" if "call_ok d" for d
    using one seq_key_eq [OF that, of c] Cons.prems(2) by (auto simp: next_no_def)
  show ?case
  proof (intro conjI allI impI)
    show "length ss = length (c # cs)" using IH Cons.prems(2) by (simp add: ss)
    fix i assume i: "i < length (c # cs)"
    show "ss ! i = number_text ((c # cs) ! i)
        (next_no db ((c # cs) ! i) + int (count_list (take i (c # cs)) ((c # cs) ! i)))"
    proof (cases i)
      case 0
      then show ?thesis using one by (simp add: ss)
    next
      case (Suc j)
      then have "cs ! j \<in> set cs" using i by simp
      then have "call_ok (cs ! j)" using Cons.prems(2) by simp
      with IH Cons.prems(2) Suc i bump [of "cs ! j"] show ?thesis by (auto simp: ss add.assoc)
    qed
  qed
qed simp

lemma show_pad_nonneg: "0 \<le> i \<Longrightarrow> \<exists>k. show_pad w i = replicate k CHR ''0'' @ show_nat (nat i)"
  by (auto simp: show_pad_def Let_def)

lemma number_text_inj:
  assumes "call_ok c" "call_ok d" "snd (snd c) = snd (snd d)" "0 \<le> m" "0 \<le> n"
    and "number_text c m = number_text d n"
  shows "c = d \<and> m = n"
proof -
  obtain k1 y1 o1 k2 y2 o2 where cd: "c = (k1, y1, o1)" "d = (k2, y2, o2)" by (cases c, cases d)
  let ?tag = "\<lambda>k. if k then ''CN'' else ''INV''"
  have val: "dec_val (show_pad 6 i) = nat i" if "0 \<le> i" for i
    using show_pad_nonneg [OF that, of 6] by (auto simp: dec_val_pad dec_val_show_nat)
  have parts: "split_on CHR ''-'' (number_text (k, y, org) i) = [?tag k, show_nat (nat y), show_pad 6 i]"
    if y0: "0 \<le> y" and i0: "0 \<le> i" for k y org i
  proof -
    obtain z where z: "show_pad 6 i = replicate z CHR ''0'' @ show_nat (nat i)"
      using show_pad_nonneg [OF i0] by blast
    have "number_text (k, y, org) i = join_with ''-'' [?tag k, show_nat (nat y), show_pad 6 i]"
      using y0 by (simp add: number_text_def show_int_nonneg)
    moreover have "\<forall>s \<in> set [?tag k, show_nat (nat y), show_pad 6 i]. CHR ''-'' \<notin> set s"
      using show_nat_no_dash by (auto simp: z)
    ultimately show "split_on CHR ''-'' (number_text (k, y, org) i) = [?tag k, show_nat (nat y), show_pad 6 i]"
      by (simp only: split_on_join list.distinct not_False_eq_True)
  qed
  have y: "0 \<le> y1" "0 \<le> y2" using assms(1,2) by (simp_all add: cd call_ok_def)
  have "split_on CHR ''-'' (number_text c m) = split_on CHR ''-'' (number_text d n)"
    by (simp only: assms(6))
  then have "[?tag k1, show_nat (nat y1), show_pad 6 m] = [?tag k2, show_nat (nat y2), show_pad 6 n]"
    unfolding cd parts [OF y(1) assms(4)] parts [OF y(2) assms(5)] .
  then have tag: "?tag k1 = ?tag k2" and eqs: "show_nat (nat y1) = show_nat (nat y2)" "show_pad 6 m = show_pad 6 n"
    by (simp_all only: list.inject)
  have "k1 = k2" using tag by (cases k1; cases k2) simp_all
  moreover have "nat y1 = nat y2"
    using dec_val_show_nat [of "nat y1"] dec_val_show_nat [of "nat y2"] eqs(1) by metis
  moreover have "nat m = nat n" using val [OF assms(4)] val [OF assms(5)] eqs(2) by metis
  ultimately show ?thesis using y assms(3-5) by (simp add: cd eq_nat_nat_iff)
qed

lemma count_list_take_less:
  assumes "i < j" "j < length xs" "xs ! i = xs ! j"
  shows "count_list (take i xs) (xs ! i) < count_list (take j xs) (xs ! j)"
proof -
  have "take j xs = take i xs @ xs ! i # take (j - Suc i) (drop (Suc i) xs)"
    using assms by (metis Cons_nth_drop_Suc Suc_diff_Suc le_add_diff_inverse less_imp_le_nat
        order_less_trans take_Suc_Cons take_add)
  with assms(3) show ?thesis by simp
qed

section \<open>Properties\<close>

text \<open>
  C1: In every ledger reachable by postings and by changes to the other tables, each journal
  entry is balanced, the debits of each organisation equal its credits, every line has one
  positive side and belongs to an entry of its organisation, and entry ids are unique.
\<close>

theorem trial_balance:
  assumes "ledger_init db0" and "ledger_step\<^sup>*\<^sup>* db0 db"
  shows "side_sum jl_debit (\<lambda>l. jl_entry l = i) db = side_sum jl_credit (\<lambda>l. jl_entry l = i) db \<and>
    side_sum jl_debit (\<lambda>l. jl_org l = org) db = side_sum jl_credit (\<lambda>l. jl_org l = org) db \<and>
    distinct (map je_id (entries db)) \<and>
    (\<forall>l \<in> set (entry_lines db). proper_line (jl_debit l) (jl_credit l) \<and>
       (\<exists>e \<in> set (entries db). je_id e = jl_entry l \<and> je_org e = jl_org l))"
  using ledger.reachable_inv [OF assms] by (simp add: ledger_inv_def)

text \<open>
  C7: A successful posting finds an open period of the organisation that covers the entry date.
  It adds exactly one entry, under an id no entry had, whose every column is the draft's (memo,
  source, currency, reversal link, poster, entity, date) or the period's, and one row per draft
  line in order, each on an active account of the organisation found by its code and with one
  positive side; debits and credits of the added rows are equal. A period is added only when
  none of the organisation covered the date, and then it is the open period of that month.
  Nothing else changes: the resulting tables are the old ones with these rows appended, and
  only the counter that stands for fresh UUIDs differs besides.
\<close>

theorem post_journal_effect:
  assumes "picks_member env" and "post_journal env today org draft rid db = Inr (db', i)"
  shows "\<exists>p ps rs n. p \<in> set (periods db') \<and> fp_status p = ''open'' \<and>
    covers_date org (draft_date today draft) p \<and>
    periods_added env org (draft_date today draft) db p ps \<and>
    list_all2 (line_posted db org i) (jd_lines draft) rs \<and>
    sum_list (map jl_debit rs) = sum_list (map jl_credit rs) \<and> i \<notin> je_id ` set (entries db) \<and>
    db' = db\<lparr>periods := periods db @ ps,
      entries := entries db @ [\<lparr>je_id = i, je_org = org, je_public_id = ''jrn_'' @ show_uuid env i,
        je_date = draft_date today draft, je_memo = jd_memo draft, je_source_type = jd_source_type draft,
        je_source_id = jd_source_id draft, je_currency = currency_bytes (jd_currency draft),
        je_period = fp_id p, je_reverses = jd_reverses_entry_id draft,
        je_posted_by = jd_posted_by draft, je_entity = jd_entity_id draft\<rparr>],
      entry_lines := entry_lines db @ rs, uuids := n\<rparr>"
proof -
  from post_journal_Inr_full [OF assms] obtain p ps rs n where bal: "assert_balanced draft = Inr ()"
    and db': "db' = db\<lparr>periods := periods db @ ps, entries := entries db @ [draft_entry env today org draft i (fp_id p)],
      entry_lines := entry_lines db @ rs, uuids := n\<rparr>"
    and p: "p \<in> set (periods db')" "fp_status p = ''open''" "covers_date org (draft_date today draft) p"
    "periods_added env org (draft_date today draft) db p ps"
    and fresh: "\<forall>r \<in> set (entries db). je_id r \<noteq> i"
    and rs: "list_all2 (line_posted db org i) (jd_lines draft) rs" .
  have "sum_list (map jl_debit rs) = sum_list (map jl_credit rs)"
    using posted_sums [OF rs] assert_balanced_Inr bal by metis
  moreover have "i \<notin> je_id ` set (entries db)" using fresh by auto
  ultimately show ?thesis
    using p rs db' unfolding draft_entry_def by blast
qed

text \<open>
  When every period of the organisation that covers the entry date is closed or locked, and
  there is one, posting a balanced draft is refused with a conflict.
\<close>

theorem closed_period_rejects:
  assumes "picks_member env" and "assert_balanced draft = Inr ()"
    and "d = (case jd_entry_date draft of Some d \<Rightarrow> d | None \<Rightarrow> today)"
    and "\<exists>p \<in> set (periods db). covers_date org d p"
    and "\<forall>p \<in> set (periods db). covers_date org d p \<longrightarrow> fp_status p = ''closed'' \<or> fp_status p = ''locked''"
  shows "\<exists>e. post_journal env today org draft rid db = Inl e \<and> ae_code e = Conflict \<and> ae_request_id e = rid"
proof -
  obtain p where p: "find_period_for_date env db org d = Some p"
    using assms(4) find_period_None [of env db org d] by (cases "find_period_for_date env db org d") auto
  with find_period_Some [OF assms(1) p] assms(5) have "fp_status p = ''closed'' \<or> fp_status p = ''locked''"
    by blast
  then obtain e where "assert_period_accepts_posting p rid = Inl e" "ae_code e = Conflict" "ae_request_id e = rid"
    by (auto simp: assert_period_accepts_posting_def)
  then show ?thesis
    using assms(2,3) p by (simp add: post_journal_def ensure_period_for_date_def)
qed

text \<open>A concrete environment and ledger for the examples below.\<close>

definition demo_env :: fin_env where
  "demo_env = \<lparr>show_uuid = (\<lambda>u. ''u''), gen_uuid = (\<lambda>n. of_nat (100 + n)), show_db_error = (\<lambda>e. ''error''),
     date_year = (\<lambda>d. d div 372), date_month = (\<lambda>d. d mod 372 div 31 + 1),
     from_ymd = (\<lambda>y m d. y * 372 + (m - 1) * 31 + d - 1), pred_date = (\<lambda>d. d - 1), pick_period = last\<rparr>"

definition demo_account :: "uuid \<Rightarrow> string \<Rightarrow> ledger_account" where
  "demo_account i code = \<lparr>la_id = i, la_org = 1, la_public_id = None, la_code = code, la_name = code,
     la_type = ''asset'', la_normal_balance = ''debit'', la_sort_order = 0, la_is_active = True\<rparr>"

definition demo_period :: "uuid \<Rightarrow> string \<Rightarrow> fiscal_period" where
  "demo_period i status = \<lparr>fp_id = i, fp_org = 1, fp_public_id = ''period'', fp_code = ''p'', fp_name = ''p'',
     fp_start = 0, fp_end = 30, fp_status = status\<rparr>"

definition demo_db :: "fiscal_period list \<Rightarrow> finance_db" where
  "demo_db ps = \<lparr>accounts = [demo_account 10 CASH, demo_account 11 EXPENSE], categories = [], periods = ps,
     entries = [], entry_lines = [], entities = [], invoice_seq = (\<lambda>k. None), uuids = 0\<rparr>"

definition demo_draft :: journal_draft where
  "demo_draft = \<lparr>jd_memo = ''m'', jd_source_type = ''expense'', jd_source_id = 5, jd_currency = USD,
     jd_lines = [line_debit EXPENSE 70 None, line_credit CASH 70 None],
     jd_entry_date = Some 12, jd_reverses_entry_id = None, jd_posted_by = None, jd_entity_id = None\<rparr>"

lemma demo_picks: "picks_member demo_env"
  by (simp add: picks_member_def demo_env_def)

lemmas demo_defs = demo_env_def demo_account_def demo_period_def demo_db_def demo_draft_def

lemma demo_balanced: "assert_balanced demo_draft = Inr ()"
  by (simp add: assert_balanced_def demo_draft_def line_debit_def line_credit_def checked_i64_def int_ranges)

lemma demo_post:
  assumes "last ps = demo_period i ''open''" and "ps \<noteq> []" and "set ps \<subseteq> range (\<lambda>(i, s). demo_period i s)"
  shows "\<exists>db' e. post_journal demo_env 0 1 demo_draft ''r'' (demo_db ps) = Inr (db', e)"
proof -
  have all: "covers_date 1 12 p" if "p \<in> set ps" for p
    using assms(3) that by (auto simp: demo_period_def)
  then have "filter (\<lambda>p. fp_org p = 1 \<and> fp_start p \<le> 12 \<and> 12 \<le> fp_end p) ps = ps"
    by (simp add: filter_id_conv)
  then have "find_period_for_date demo_env (demo_db ps) 1 12 = Some (demo_period i ''open'')"
    using assms(1,2) by (cases ps) (simp_all add: find_period_for_date_def demo_db_def demo_env_def)
  then show ?thesis
    using demo_balanced
    by (simp add: post_journal_def ensure_period_for_date_def assert_period_accepts_posting_def
        new_uuid_v7_def insert_entry_def allowed_source_types_def post_line_def account_id_by_code_def
        insert_line_def demo_defs line_debit_def line_credit_def CASH_def EXPENSE_def Let_def)
qed

theorem post_journal_effect_witness:
  "\<exists>db' i e. picks_member demo_env \<and>
    post_journal demo_env 0 1 demo_draft ''r'' (demo_db [demo_period 20 ''open'']) = Inr (db', i) \<and>
    periods db' = [demo_period 20 ''open''] \<and> entries db' = [e] \<and> je_date e = 12 \<and>
    je_source_type e = ''expense'' \<and> je_period e = 20"
proof -
  let ?db = "demo_db [demo_period 20 ''open'']"
  obtain db' i where post: "post_journal demo_env 0 1 demo_draft ''r'' ?db = Inr (db', i)"
    using demo_post [of "[demo_period 20 ''open'']" 20] by auto
  from post_journal_effect [OF demo_picks post] obtain p ps es where p: "p \<in> set (periods db')"
    and ps: "periods_added demo_env 1 (draft_date 0 demo_draft) ?db p ps"
    and db': "periods db' = periods ?db @ ps" "entries db' = entries ?db @ [es]"
    "je_date es = draft_date 0 demo_draft" "je_source_type es = jd_source_type demo_draft" "je_period es = fp_id p"
    by auto
  have "ps = []" using ps by (simp add: periods_added_def demo_defs draft_date_def)
  then have "p = demo_period 20 ''open''" "periods db' = [demo_period 20 ''open'']"
    using p db'(1) by (simp_all add: demo_db_def)
  moreover have "entries db' = [es]" using db'(2) by (simp add: demo_db_def)
  moreover have "je_date es = 12" "je_source_type es = ''expense''" "je_period es = fp_id p"
    using db'(3-5) by (simp_all add: draft_date_def demo_draft_def)
  moreover have "fp_id (demo_period 20 ''open'') = 20" by (simp add: demo_period_def)
  ultimately show ?thesis using post demo_picks by metis
qed

theorem trial_balance_witness:
  "\<exists>db' i. ledger_step\<^sup>*\<^sup>* (demo_db [demo_period 20 ''open'']) db' \<and> length (entry_lines db') = 2 \<and>
    side_sum jl_debit (\<lambda>l. jl_org l = 1) db' = side_sum jl_credit (\<lambda>l. jl_org l = 1) db' \<and>
    side_sum jl_debit (\<lambda>l. jl_entry l = i) db' = side_sum jl_credit (\<lambda>l. jl_entry l = i) db'"
proof -
  let ?db = "demo_db [demo_period 20 ''open'']"
  obtain db' i where post: "post_journal demo_env 0 1 demo_draft ''r'' ?db = Inr (db', i)"
    using demo_post [of "[demo_period 20 ''open'']" 20] by auto
  have step: "ledger_step\<^sup>*\<^sup>* ?db db'" using ledger_step.posting [OF demo_picks post] by blast
  have "ledger_init ?db" by (simp add: ledger_init_def demo_db_def)
  note bal = trial_balance [OF this step, of i 1]
  from post_journal_Inr [OF demo_picks post] obtain ps e rs n where
    "db' = ?db\<lparr>periods := periods ?db @ ps, entries := entries ?db @ [e],
      entry_lines := entry_lines ?db @ rs, uuids := n\<rparr>"
    and "list_all2 (line_posted ?db 1 i) (jd_lines demo_draft) rs" by metis
  then have "length (entry_lines db') = 2"
    by (simp add: demo_db_def demo_draft_def list_all2_lengthD [symmetric])
  with step bal show ?thesis by blast
qed

theorem closed_period_rejects_witness:
  "\<exists>e. post_journal demo_env 0 1 demo_draft ''r'' (demo_db [demo_period 20 ''closed'']) = Inl e \<and> ae_code e = Conflict"
  using closed_period_rejects [OF demo_picks demo_balanced, of 12 0 "demo_db [demo_period 20 ''closed'']" 1 "''r''"]
  by (auto simp: demo_db_def demo_period_def demo_draft_def)

text \<open>
  A closed period does not always protect its dates. Periods may overlap, since neither the
  table nor the creation of a period excludes it, and the lookup takes any one row: there is
  a ledger with a closed period that covers the date of an entry which is posted nevertheless,
  because the lookup returns an open period that covers the date too.
\<close>

theorem overlapping_period_bypass:
  "\<exists>env db draft db' i p d. picks_member env \<and> jd_entry_date draft = Some d \<and>
     p \<in> set (periods db) \<and> covers_date 1 d p \<and> fp_status p = ''closed'' \<and>
     post_journal env 0 1 draft ''r'' db = Inr (db', i)"
proof -
  let ?ps = "[demo_period 20 ''closed'', demo_period 21 ''open'']"
  obtain db' i where "post_journal demo_env 0 1 demo_draft ''r'' (demo_db ?ps) = Inr (db', i)"
    using demo_post [of ?ps 21] by auto
  moreover have "demo_period 20 ''closed'' \<in> set (periods (demo_db ?ps))" by (simp add: demo_db_def)
  moreover have "jd_entry_date demo_draft = Some 12" by (simp add: demo_draft_def)
  moreover have "covers_date 1 12 (demo_period 20 ''closed'')" "fp_status (demo_period 20 ''closed'') = ''closed''"
    by (simp_all add: demo_period_def)
  ultimately show ?thesis using demo_picks by blast
qed

text \<open>
  The entry builders produce what the ledger accepts: for non-negative amounts that add up to
  a positive 64-bit total, each of the five builders succeeds with a balanced draft of that
  total whose lines all satisfy the check of the line table.
\<close>

theorem entry_builders_postable:
  assumes "0 \<le> n" and "0 \<le> x" and "0 < n + x" and "in_i64 (n + x)"
  shows "\<forall>r \<in> {invoice_issue_entry su i c n x (n + x), payment_entry su i c n x,
      credit_note_entry su i c n x (n + x), expense_entry su i c (n + x),
      payroll_entry su i c (n + x) x n}.
    \<exists>d. r = Inr d \<and> postable d \<and> debits (jd_lines d) = n + x \<and> credits (jd_lines d) = n + x"
proof -
  have sum_ok: "checked_add_i64 n x = Some (n + x)" and diff_ok: "checked_sub_i64 (n + x) x = Some n"
    using assms by (auto simp: checked_i64_def in_i64_def)
  have *: "\<exists>d'. checked_draft d = Inr d' \<and> postable d' \<and> debits (jd_lines d') = n + x \<and>
      credits (jd_lines d') = n + x"
    if "list_all (\<lambda>l. proper_line (debit_minor l) (credit_minor l)) (jd_lines d)"
      "debits (jd_lines d) = n + x" "credits (jd_lines d) = n + x" for d
    using that assms(4) postable_intro [of d] postable_checked [of d] by auto
  have "\<exists>d. invoice_issue_entry su i c n x (n + x) = Inr d \<and> postable d \<and>
      debits (jd_lines d) = n + x \<and> credits (jd_lines d) = n + x"
    unfolding builder_defs by (rule *) (use assms in \<open>auto simp: proper_line_def\<close>)
  moreover have "\<exists>d. payment_entry su i c n x = Inr d \<and> postable d \<and>
      debits (jd_lines d) = n + x \<and> credits (jd_lines d) = n + x"
    unfolding builder_defs sum_ok ok_or_simps and_then_simps
    by (rule *) (use assms in \<open>auto simp: proper_line_def\<close>)
  moreover have "\<exists>d. credit_note_entry su i c n x (n + x) = Inr d \<and> postable d \<and>
      debits (jd_lines d) = n + x \<and> credits (jd_lines d) = n + x"
    unfolding builder_defs by (rule *) (use assms in \<open>auto simp: proper_line_def\<close>)
  moreover have "\<exists>d. expense_entry su i c (n + x) = Inr d \<and> postable d \<and>
      debits (jd_lines d) = n + x \<and> credits (jd_lines d) = n + x"
    unfolding builder_defs by (rule *) (use assms in \<open>auto simp: proper_line_def\<close>)
  moreover have "\<exists>d. payroll_entry su i c (n + x) x n = Inr d \<and> postable d \<and>
      debits (jd_lines d) = n + x \<and> credits (jd_lines d) = n + x"
    unfolding builder_defs diff_ok ok_or_simps and_then_simps simp_thms if_False
    by (rule *) (use assms in \<open>auto simp: proper_line_def\<close>)
  ultimately show ?thesis by blast
qed

theorem entry_builders_postable_witness:
  "\<exists>d. payment_entry (\<lambda>u. []) 7 USD 60 40 = Inr d \<and> postable d \<and> debits (jd_lines d) = 100"
  using entry_builders_postable [of 60 40 "\<lambda>u. []" 7 USD] by (auto simp: int_ranges)

text \<open>
  Whatever the amounts, an entry that a builder returns is balanced: its debits equal its
  credits.
\<close>

lemma entry_builders_balanced:
  assumes "r \<in> {invoice_issue_entry su i c n x t, payment_entry su i c n x,
      credit_note_entry su i c n x t, expense_entry su i c t, payroll_entry su i c t x n}"
    and "r = Inr d"
  shows "debits (jd_lines d) = credits (jd_lines d)"
proof -
  have checked: "checked_draft d' = Inr d \<Longrightarrow> assert_balanced d = Inr ()" for d'
    by (simp add: checked_draft_Inr)
  have "invoice_issue_entry su i c n x t = Inr d \<Longrightarrow> assert_balanced d = Inr ()"
    unfolding invoice_issue_entry_def by (rule checked)
  moreover have "payment_entry su i c n x = Inr d \<Longrightarrow> assert_balanced d = Inr ()"
    unfolding payment_entry_def and_then_Inr by (elim exE conjE checked)
  moreover have "credit_note_entry su i c n x t = Inr d \<Longrightarrow> assert_balanced d = Inr ()"
    unfolding credit_note_entry_def by (rule checked)
  moreover have "expense_entry su i c t = Inr d \<Longrightarrow> assert_balanced d = Inr ()"
    unfolding expense_entry_def by (rule checked)
  moreover have "payroll_entry su i c t x n = Inr d \<Longrightarrow> assert_balanced d = Inr ()"
    unfolding payroll_entry_def and_then_Inr by (elim exE conjE) (metis checked sum.distinct(1))
  ultimately have "assert_balanced d = Inr ()" using assms by blast
  then show ?thesis by (rule assert_balanced_Inr)
qed

text \<open>
  C40: Numbering is gapless and collision-free. In any interleaving of invoice and credit-note
  numbering calls of any organisations and years (years below 100000), the k-th call for the
  same document kind, year and organisation gets the number k after the stored one, and no
  two calls of one organisation get the same text.
\<close>

theorem numbering_gapless:
  assumes "run_numbers cs db = Inr (db', ss)" and "\<forall>c \<in> set cs. call_ok c \<and> 1 \<le> next_no db c"
  shows "length ss = length cs \<and>
    (\<forall>i < length cs. ss ! i = number_text (cs ! i)
       (next_no db (cs ! i) + int (count_list (take i cs) (cs ! i)))) \<and>
    (\<forall>i j. i < j \<and> j < length cs \<and> snd (snd (cs ! i)) = snd (snd (cs ! j)) \<longrightarrow> ss ! i \<noteq> ss ! j)"
proof -
  have ok: "call_ok (cs ! i)" "1 \<le> next_no db (cs ! i)" if "i < length cs" for i
    using that assms(2) nth_mem by blast+
  note texts = run_numbers_nth [OF assms(1)]
  have "ss ! i \<noteq> ss ! j" if ij: "i < j" "j < length cs" "snd (snd (cs ! i)) = snd (snd (cs ! j))" for i j
  proof
    assume "ss ! i = ss ! j"
    then have "number_text (cs ! i) (next_no db (cs ! i) + int (count_list (take i cs) (cs ! i))) =
        number_text (cs ! j) (next_no db (cs ! j) + int (count_list (take j cs) (cs ! j)))"
      using texts ij assms(2) by auto
    from number_text_inj [OF _ _ ij(3) _ _ this] ok [of i] ok [of j] ij
    have "cs ! i = cs ! j" and "count_list (take i cs) (cs ! i) = count_list (take j cs) (cs ! j)" by auto
    with count_list_take_less [OF ij(1,2)] show False by simp
  qed
  with texts assms(2) show ?thesis by blast
qed

theorem numbering_gapless_witness:
  "\<exists>db' ss. run_numbers [(False, 2025, 1), (True, 2025, 1), (False, 2025, 1)] (demo_db []) = Inr (db', ss) \<and>
     ss ! 0 \<noteq> ss ! 2 \<and> ss ! 2 = number_text (False, 2025, 1) 2"
proof -
  let ?cs = "[(False, 2025, 1), (True, 2025, 1), (False, 2025, 1)] :: number_call list"
  obtain db' ss where run: "run_numbers ?cs (demo_db []) = Inr (db', ss)"
    by (simp add: next_invoice_number_def next_credit_number_def next_in_sequence_def demo_db_def int_ranges)
  have "\<forall>c \<in> set ?cs. call_ok c \<and> 1 \<le> next_no (demo_db []) c"
    by (simp add: call_ok_def next_no_def demo_db_def)
  note gapless = numbering_gapless [OF run this]
  have "ss ! 2 = number_text (?cs ! 2) (next_no (demo_db []) (?cs ! 2) + int (count_list (take 2 ?cs) (?cs ! 2)))"
    using gapless by simp
  then have "ss ! 2 = number_text (False, 2025, 1) 2"
    by (simp add: next_no_def demo_db_def)
  moreover have "ss ! 0 \<noteq> ss ! 2"
    using gapless [THEN conjunct2, THEN conjunct2, rule_format, of 0 2] by simp
  ultimately show ?thesis using run by blast
qed

end
