(* ===== verification/Json.thy ===== *)
theory Json
  imports Prelude
begin

text \<open>
  JSON values as \<open>serde_json::Value\<close> has them. An object is a \<open>BTreeMap\<close>: an association
  list in the order of its keys, kept so by \<open>map_put\<close>. A number is an integer or, for a
  float, its decimal text; arithmetic on floats is a parameter where the code needs it.
\<close>

datatype json =
    JNull
  | JBool bool
  | JInt int
  | JFloat string
  | JStr string
  | JArr "json list"
  | JObj "(string \<times> json) list"

text \<open>Strings are ordered by their bytes.\<close>

fun str_less :: "string \<Rightarrow> string \<Rightarrow> bool" where
  "str_less [] [] = False"
| "str_less [] (d # ds) = True"
| "str_less (c # cs) [] = False"
| "str_less (c # cs) (d # ds) =
     (if c = d then str_less cs ds else (of_char c :: nat) < of_char d)"

fun map_put :: "string \<Rightarrow> 'v \<Rightarrow> (string \<times> 'v) list \<Rightarrow> (string \<times> 'v) list" where
  "map_put k v [] = [(k, v)]"
| "map_put k v ((l, w) # m) =
     (if k = l then (k, v) # m
      else if str_less k l then (k, v) # (l, w) # m
      else (l, w) # map_put k v m)"

definition map_from :: "(string \<times> 'v) list \<Rightarrow> (string \<times> 'v) list" where
  "map_from kvs = foldl (\<lambda>m (k, v). map_put k v m) [] kvs"

definition json_object :: "(string \<times> json) list \<Rightarrow> json" where
  "json_object kvs = JObj (map_from kvs)"

fun json_get :: "json \<Rightarrow> string \<Rightarrow> json option" where
  "json_get (JObj m) k = map_of m k"
| "json_get _ k = None"

fun json_as_str :: "json \<Rightarrow> string option" where
  "json_as_str (JStr s) = Some s"
| "json_as_str _ = None"

definition opt_json :: "string option \<Rightarrow> json" where
  "opt_json x = (case x of None \<Rightarrow> JNull | Some s \<Rightarrow> JStr s)"

text \<open>\<open>Value::as_i64\<close>.\<close>

fun json_as_i64 :: "json \<Rightarrow> int option" where
  "json_as_i64 (JInt n) = (if in_i64 n then Some n else None)"
| "json_as_i64 _ = None"

lemma str_less_irrefl [simp]: "\<not> str_less s s"
  by (induction s) auto

lemma str_less_antisym: "str_less s t \<Longrightarrow> \<not> str_less t s"
  by (induction s t rule: str_less.induct) (auto split: if_splits)

lemma str_less_linear: "s \<noteq> t \<Longrightarrow> str_less s t \<or> str_less t s"
proof (induction s t rule: str_less.induct)
  case (4 c cs d ds)
  have "(of_char c :: nat) < of_char d \<or> (of_char d :: nat) < of_char c" if "c \<noteq> d"
    using that by (metis linorder_neq_iff of_char_eq_iff)
  with 4 show ?case by (cases "c = d") auto
qed auto

lemma map_of_map_put [simp]: "map_of (map_put k v m) j = (if j = k then Some v else map_of m j)"
  by (induction m) auto

lemma map_from_snoc: "map_from (kvs @ [(k, v)]) = map_put k v (map_from kvs)"
  by (simp add: map_from_def)

text \<open>As in a \<open>BTreeMap\<close>, the last value inserted under a key is the one found.\<close>

lemma map_of_map_from: "map_of (map_from kvs) j = map_of (rev kvs) j"
  by (induction kvs rule: rev_induct) (auto simp: map_from_snoc, simp add: map_from_def)

lemma json_get_object: "json_get (json_object kvs) k = map_of (rev kvs) k"
  by (simp add: json_object_def map_of_map_from)

text \<open>Inserting keeps the keys sorted and adds one.\<close>

abbreviation keys_sorted :: "(string \<times> 'v) list \<Rightarrow> bool" where
  "keys_sorted m \<equiv> sorted_wrt str_less (map fst m)"

lemma str_less_trans: "str_less s t \<Longrightarrow> str_less t u \<Longrightarrow> str_less s u"
proof (induction s t arbitrary: u rule: str_less.induct)
  case (2 d ds)
  then show ?case by (cases u) auto
next
  case (4 c cs d ds)
  then show ?case by (cases u) (auto split: if_splits)
qed auto

lemma keys_map_put: "fst ` set (map_put k v m) = insert k (fst ` set m)"
proof (induction m)
  case (Cons x m)
  then show ?case by (cases x; cases "k = fst x"; cases "str_less k (fst x)") auto
qed simp

lemma keys_sorted_map_put: "keys_sorted m \<Longrightarrow> keys_sorted (map_put k v m)"
proof (induction m)
  case (Cons x m)
  obtain l w where x: "x = (l, w)" by fastforce
  have "str_less l j" if "j \<in> insert k (fst ` set m)" "k \<noteq> l" "\<not> str_less k l" for j
    using that Cons.prems str_less_linear [of k l] by (auto simp: x)
  with Cons show ?case
    by (cases "k = l"; cases "str_less k l") (auto simp: x keys_map_put intro: str_less_trans)
qed simp

end
