(* ===== verification/Events.thy ===== *)
theory Events
  imports Public_Ids Json
begin

text \<open>
  Domain events (\<open>crates/events/src/lib.rs\<close>) with the tenancy types they carry
  (\<open>crates/tenancy/src/lib.rs\<close>): bounded contexts, the NATS subject of an event, the
  envelope that is written to the outbox, and the parser of subjects. Instants are integers;
  their text and the text of a UUID are parameters \<open>show_time\<close> and \<open>show_uuid\<close>.
\<close>

section \<open>Organisations and actors\<close>

type_synonym org_id = uuid

definition org_to_public :: "org_id \<Rightarrow> public_id" where
  "org_to_public org = public_id_new ''Org'' org"

datatype tenancy_error = MissingOrgId | NotAnOrgId | SessionBind string | Residency string

definition org_from_public :: "public_id \<Rightarrow> tenancy_error + org_id" where
  "org_from_public i = (if pid_kind i \<noteq> ''Org'' then Inl NotAnOrgId else Inr (pid_uuid i))"

record actor =
  user_id :: uuid
  on_behalf_of :: uuid
  is_ai :: bool

definition actor_human :: "uuid \<Rightarrow> actor" where
  "actor_human u = \<lparr>user_id = u, on_behalf_of = u, is_ai = False\<rparr>"

definition actor_ai_on_behalf_of :: "uuid \<Rightarrow> uuid \<Rightarrow> actor" where
  "actor_ai_on_behalf_of ai human = \<lparr>user_id = ai, on_behalf_of = human, is_ai = True\<rparr>"

text \<open>Rows of the audit trail that every service writes with its own changes.\<close>

record audit_entry =
  ae_id :: uuid
  ae_org :: uuid
  ae_actor :: actor
  ae_action :: string
  ae_resource_type :: string
  ae_resource_id :: string
  ae_metadata :: json

text \<open>A request that one service sends to another.\<close>

record outgoing_request =
  og_url :: string
  og_json :: json
  og_headers :: "(string \<times> string) list"

section \<open>Subjects and envelopes\<close>

datatype event_context =
    Workspace | Sales | Finance | Operations | People | Ai | Admin | Core | Auth | Inventory
  | Workflow | Analytics | Custom

primrec context_as_str :: "event_context \<Rightarrow> string" where
  "context_as_str Workspace = ''workspace''"
| "context_as_str Sales = ''sales''"
| "context_as_str Finance = ''finance''"
| "context_as_str Operations = ''operations''"
| "context_as_str People = ''people''"
| "context_as_str Ai = ''ai''"
| "context_as_str Admin = ''admin''"
| "context_as_str Core = ''core''"
| "context_as_str Auth = ''auth''"
| "context_as_str Inventory = ''inventory''"
| "context_as_str Workflow = ''workflow''"
| "context_as_str Analytics = ''analytics''"
| "context_as_str Custom = ''custom''"

datatype event_error = InvalidSubject string

definition event_subject ::
  "(uuid \<Rightarrow> string) \<Rightarrow> org_id \<Rightarrow> event_context \<Rightarrow> string \<Rightarrow> string \<Rightarrow> nat \<Rightarrow> string" where
  "event_subject show_uuid org ctx aggregate event version =
     ''companyos.'' @ public_id_as_str show_uuid (org_to_public org) @ ''.'' @ context_as_str ctx @
     ''.'' @ aggregate @ ''.'' @ event @ ''.v'' @ show_nat version"

record event_envelope =
  ev_event_id :: uuid
  ev_subject :: string
  ev_org_id :: org_id
  ev_context :: event_context
  ev_aggregate :: string
  ev_event_type :: string
  ev_version :: nat
  ev_occurred_at :: int
  ev_actor :: actor
  ev_payload :: json
  ev_idempotency_key :: string

text \<open>The generated UUID and the reading of the clock are the first two arguments.\<close>

definition envelope_new ::
  "uuid \<Rightarrow> int \<Rightarrow> (uuid \<Rightarrow> string) \<Rightarrow> org_id \<Rightarrow> event_context \<Rightarrow> string \<Rightarrow> string \<Rightarrow> nat \<Rightarrow> actor \<Rightarrow> json
     \<Rightarrow> event_envelope" where
  "envelope_new event_id now show_uuid org ctx aggregate event_type version actor payload =
     \<lparr>ev_event_id = event_id,
      ev_subject = event_subject show_uuid org ctx aggregate event_type version,
      ev_org_id = org, ev_context = ctx, ev_aggregate = aggregate, ev_event_type = event_type,
      ev_version = version, ev_occurred_at = now, ev_actor = actor, ev_payload = payload,
      ev_idempotency_key = show_uuid event_id\<rparr>"

definition actor_to_value :: "(uuid \<Rightarrow> string) \<Rightarrow> actor \<Rightarrow> json" where
  "actor_to_value show_uuid a = json_object
     [(''user_id'', JStr (show_uuid (user_id a))),
      (''on_behalf_of'', JStr (show_uuid (on_behalf_of a))),
      (''is_ai'', JBool (is_ai a))]"

definition envelope_to_value ::
  "(uuid \<Rightarrow> string) \<Rightarrow> (int \<Rightarrow> string) \<Rightarrow> event_envelope \<Rightarrow> json" where
  "envelope_to_value show_uuid show_time e = json_object
     [(''event_id'', JStr (show_uuid (ev_event_id e))),
      (''subject'', JStr (ev_subject e)),
      (''org_id'', JStr (show_uuid (ev_org_id e))),
      (''context'', JStr (context_as_str (ev_context e))),
      (''aggregate'', JStr (ev_aggregate e)),
      (''event_type'', JStr (ev_event_type e)),
      (''version'', JInt (int (ev_version e))),
      (''occurred_at'', JStr (show_time (ev_occurred_at e))),
      (''actor'', actor_to_value show_uuid (ev_actor e)),
      (''payload'', ev_payload e),
      (''idempotency_key'', JStr (ev_idempotency_key e))]"

definition parse_subject ::
  "string \<Rightarrow> event_error + string \<times> string \<times> string \<times> string \<times> nat" where
  "parse_subject subject =
     (let parts = split_on CHR ''.'' subject in
      if length parts \<noteq> 6 \<or> parts ! 0 \<noteq> ''companyos'' then Inl (InvalidSubject subject)
      else if \<not> starts_with ''org_'' (parts ! 1) then Inl (InvalidSubject subject)
      else and_then (ok_or (InvalidSubject subject)
             (case strip_prefix ''v'' (parts ! 5) of
                None \<Rightarrow> None | Some v \<Rightarrow> parse_unsigned 32 v))
           (\<lambda>version. Inr (parts ! 1, parts ! 2, parts ! 3, parts ! 4, version)))"

section \<open>Properties\<close>

lemma length_split_on: "length (split_on c s) = Suc (count_list s c)"
  by (induction s) (auto split: list.splits)

lemma context_as_str_inj: "context_as_str c = context_as_str d \<longleftrightarrow> c = d"
  by (cases c; cases d; simp)

lemma context_no_dot: "CHR ''.'' \<notin> set (context_as_str c)"
  by (cases c) simp_all

lemma org_public_str: "public_id_as_str su (org_to_public org) = ''org_'' @ su org"
  by (simp add: public_id_as_str_def org_to_public_def public_id_new_def prefix_def prefix_arms_def)

lemma event_subject_join:
  "event_subject su org ctx aggregate event version =
     join_with ''.'' [''companyos'', ''org_'' @ su org, context_as_str ctx, aggregate, event,
       CHR ''v'' # show_nat version]"
  by (simp add: event_subject_def org_public_str)

lemma parse_subject_join:
  assumes "\<forall>x \<in> set [o', c, a, e, v]. CHR ''.'' \<notin> set x" and "starts_with ''org_'' o'"
  shows "parse_subject (join_with ''.'' [''companyos'', o', c, a, e, CHR ''v'' # v]) =
    (case parse_unsigned 32 v of
       None \<Rightarrow> Inl (InvalidSubject (join_with ''.'' [''companyos'', o', c, a, e, CHR ''v'' # v]))
     | Some n \<Rightarrow> Inr (o', c, a, e, n))"
proof -
  have "split_on CHR ''.'' (join_with ''.'' [''companyos'', o', c, a, e, CHR ''v'' # v]) =
      [''companyos'', o', c, a, e, CHR ''v'' # v]"
    using assms(1) by (intro split_on_join) auto
  with assms(2) show ?thesis
    by (simp add: parse_subject_def Let_def split: option.splits)
qed

lemma parse_subject_dots:
  assumes "count_list s CHR ''.'' \<noteq> 5"
  shows "parse_subject s = Inl (InvalidSubject s)"
  using assms by (simp add: parse_subject_def Let_def length_split_on)

text \<open>
  The subject of an event parses back to the organisation's public id, the context, the
  aggregate, the event and the version it was built from exactly when neither the aggregate nor the event name contains a dot;
  with a dot in one of them the parser rejects the subject.
\<close>

theorem subject_roundtrip:
  assumes "CHR ''.'' \<notin> set (su org)" and "version < 2 ^ 32"
  shows "parse_subject (event_subject su org ctx aggregate event version) =
    (if CHR ''.'' \<in> set aggregate \<union> set event
     then Inl (InvalidSubject (event_subject su org ctx aggregate event version))
     else Inr (public_id_as_str su (org_to_public org), context_as_str ctx, aggregate, event,
            version))"
proof (cases "CHR ''.'' \<in> set aggregate \<union> set event")
  case True
  then have "0 < count_list aggregate CHR ''.'' + count_list event CHR ''.''"
    by (auto simp: count_list_0_iff simp flip: neq0_conv)
  then have "count_list (event_subject su org ctx aggregate event version) CHR ''.'' \<noteq> 5"
    by (auto simp: event_subject_def org_public_str)
  with True show ?thesis by (simp add: parse_subject_dots)
next
  case False
  have "CHR ''.'' \<notin> set (show_nat version)" by (rule show_nat_not_digit) (simp add: is_digit_def)
  with False assms(1) have "parse_subject (event_subject su org ctx aggregate event version) =
      (case parse_unsigned 32 (show_nat version) of
        None \<Rightarrow> Inl (InvalidSubject (event_subject su org ctx aggregate event version))
      | Some n \<Rightarrow> Inr (''org_'' @ su org, context_as_str ctx, aggregate, event, n))"
    unfolding event_subject_join by (intro parse_subject_join) (auto simp: context_no_dot starts_with_def)
  with False show ?thesis by (simp add: parse_unsigned_show [OF assms(2)] org_public_str)
qed

theorem subject_roundtrip_witness:
  "parse_subject (event_subject (\<lambda>u. ''0190'') 7 Core ''hello'' ''created'' 1) =
     Inr (''org_0190'', ''core'', ''hello'', ''created'', 1) \<and>
   parse_subject (event_subject (\<lambda>u. ''0190'') 7 Core ''hello.x'' ''created'' 1) =
     Inl (InvalidSubject (event_subject (\<lambda>u. ''0190'') 7 Core ''hello.x'' ''created'' 1))"
  using subject_roundtrip [of "\<lambda>u. ''0190''" 7 1 Core "''hello''" "''created''"]
    subject_roundtrip [of "\<lambda>u. ''0190''" 7 1 Core "''hello.x''" "''created''"]
  by (simp add: org_public_str)

end
