(* ===== verification/Outbox.thy ===== *)
theory Outbox
  imports Events
begin

text \<open>
  The transactional outbox (\<open>crates/outbox/src/lib.rs\<close>) and its relay
  (\<open>crates/outbox/src/relay.rs\<close>, \<open>services/platform/outbox-relay/src/main.rs\<close>).

  The two tables are lists of rows in order of insertion; primary keys and the row-level
  security policies of the migrations are written out, with the session variables in
  \<open>db_session\<close>. \<open>now()\<close> is the start of the transaction, an argument. A relay transaction
  changes the tables only when it commits, but what it handed to the publisher, the metrics
  and the generated UUIDs stay when it is rolled back: they are separate fields of
  \<open>relay_world\<close>. The trait \<open>EventPublisher\<close> is the locale \<open>event_publisher\<close>; the NATS
  client is one such publisher and not described further. Parameters in \<open>relay_env\<close>: UUID
  generation and text, \<open>serde_json::to_vec\<close>, and the order in which a query meets rows with
  equal sort keys.
\<close>

section \<open>Tables and sessions\<close>

record outbox_event =
  oe_id :: uuid
  oe_org :: uuid
  oe_subject :: string
  oe_payload :: json
  oe_key :: string
  oe_created :: int
  oe_published :: "int option"

record dlq_row =
  dq_id :: uuid
  dq_outbox :: uuid
  dq_org :: uuid
  dq_subject :: string
  dq_payload :: json
  dq_key :: string
  dq_error :: string
  dq_attempts :: int
  dq_created :: int
  dq_replayed :: "int option"

record outbox_db =
  ob_events :: "outbox_event list"
  ob_dlq :: "dlq_row list"

datatype outbox_db_error = PrimaryKeyViolation string | PolicyViolation string | NegativeLimit

datatype outbox_error = Db outbox_db_error | Relay string

record db_session =
  app_org :: "uuid option"
  app_outbox_relay :: bool

definition rls_visible :: "db_session \<Rightarrow> uuid \<Rightarrow> bool" where
  "rls_visible s org \<longleftrightarrow> app_org s = Some org \<or> app_outbox_relay s"

definition set_relay_session :: "db_session \<Rightarrow> db_session" where
  "set_relay_session s = s\<lparr>app_outbox_relay := True\<rparr>"

definition new_session :: db_session where
  "new_session = \<lparr>app_org = None, app_outbox_relay = False\<rparr>"

record relay_env =
  re_show_uuid :: "uuid \<Rightarrow> string"
  re_show_time :: "int \<Rightarrow> string"
  re_gen_uuid :: "nat \<Rightarrow> uuid"
  re_to_vec :: "json \<Rightarrow> string + string"
  re_scan :: "outbox_event list \<Rightarrow> outbox_event list"
  re_scan_dlq :: "dlq_row list \<Rightarrow> dlq_row list"

section \<open>Writing and reading events\<close>

definition insert_outbox_row ::
  "db_session \<Rightarrow> outbox_event \<Rightarrow> outbox_db \<Rightarrow> outbox_error + outbox_db" where
  "insert_outbox_row s e db =
     (if \<not> rls_visible s (oe_org e) then Inl (Db (PolicyViolation ''outbox_event''))
      else if list_ex (\<lambda>r. oe_id r = oe_id e) (ob_events db)
      then Inl (Db (PrimaryKeyViolation ''outbox_event_pkey''))
      else Inr (db\<lparr>ob_events := ob_events db @ [e]\<rparr>))"

definition insert_event ::
  "relay_env \<Rightarrow> db_session \<Rightarrow> event_envelope \<Rightarrow> outbox_db \<Rightarrow> outbox_error + outbox_db \<times> uuid" where
  "insert_event env s envelope db =
     (let i = ev_event_id envelope;
          wire = envelope_to_value (re_show_uuid env) (re_show_time env) envelope
      in and_then (insert_outbox_row s
           \<lparr>oe_id = i, oe_org = ev_org_id envelope, oe_subject = ev_subject envelope,
            oe_payload = wire, oe_key = ev_idempotency_key envelope,
            oe_created = ev_occurred_at envelope, oe_published = None\<rparr> db)
         (\<lambda>db. Inr (db, i)))"

definition is_unpublished :: "outbox_event \<Rightarrow> bool" where
  "is_unpublished e \<longleftrightarrow> oe_published e = None"

definition oldest_first ::
  "relay_env \<Rightarrow> (outbox_event \<Rightarrow> bool) \<Rightarrow> int \<Rightarrow> outbox_db \<Rightarrow> outbox_error + outbox_event list" where
  "oldest_first env sel limit db =
     (if limit < 0 then Inl (Db NegativeLimit)
      else Inr (take (nat limit) (sort_by (\<lambda>a b. oe_created a \<le> oe_created b)
             (re_scan env (filter sel (ob_events db))))))"

definition fetch_unpublished ::
  "relay_env \<Rightarrow> db_session \<Rightarrow> int \<Rightarrow> outbox_db \<Rightarrow> outbox_error + outbox_event list" where
  "fetch_unpublished env s limit db =
     oldest_first env (\<lambda>e. is_unpublished e \<and> rls_visible s (oe_org e)) limit db"

definition mark_published :: "db_session \<Rightarrow> int \<Rightarrow> uuid \<Rightarrow> outbox_db \<Rightarrow> outbox_db" where
  "mark_published s now i db =
     db\<lparr>ob_events := map (\<lambda>e. if oe_id e = i \<and> rls_visible s (oe_org e)
                               then e\<lparr>oe_published := Some now\<rparr> else e) (ob_events db)\<rparr>"

section \<open>Publishers\<close>

text \<open>
  A publisher is a state and the function \<open>publish\<close> that takes a subject and the bytes of a
  message. What a consumer may rely on is that a call that returned \<open>Ok\<close> has delivered its
  message, and that nothing delivered is taken back.
\<close>

type_synonym 'p publish = "'p \<Rightarrow> string \<Rightarrow> string \<Rightarrow> 'p \<times> (string + unit)"

record memory_publisher =
  mp_deliveries :: "(string \<times> string) list"
  mp_fail_times :: "32 word"

definition memory_new :: memory_publisher where
  "memory_new = \<lparr>mp_deliveries = [], mp_fail_times = 0\<rparr>"

definition delivered_count :: "memory_publisher \<Rightarrow> nat" where
  "delivered_count p = length (mp_deliveries p)"

definition set_fail_times :: "32 word \<Rightarrow> memory_publisher \<Rightarrow> memory_publisher" where
  "set_fail_times n p = p\<lparr>mp_fail_times := n\<rparr>"

definition memory_publish :: "memory_publisher publish" where
  "memory_publish p subject payload =
     (if mp_fail_times p > 0
      then (p\<lparr>mp_fail_times := mp_fail_times p - 1\<rparr>, Inl ''forced publish failure'')
      else (p\<lparr>mp_deliveries := mp_deliveries p @ [(subject, payload)]\<rparr>, Inr ()))"

record relay_metrics =
  rm_published :: "64 word"
  rm_dlq :: "64 word"
  rm_lag :: "64 word"
  rm_batches :: "64 word"

record 'p relay_world =
  rw_db :: outbox_db
  rw_uuids :: nat
  rw_pub :: 'p
  rw_metrics :: relay_metrics

section \<open>The relay\<close>

text \<open>\<open>locked\<close> are the rows that other transactions hold and \<open>SKIP LOCKED\<close> leaves out.\<close>

definition claim_unpublished ::
  "relay_env \<Rightarrow> (uuid \<Rightarrow> bool) \<Rightarrow> int \<Rightarrow> outbox_db \<Rightarrow> outbox_error + outbox_event list" where
  "claim_unpublished env locked limit db =
     (let s = set_relay_session new_session in
      oldest_first env (\<lambda>e. is_unpublished e \<and> rls_visible s (oe_org e) \<and> \<not> locked (oe_id e)) limit db)"

definition unpublished_lag :: "outbox_db \<Rightarrow> nat" where
  "unpublished_lag db =
     (let s = set_relay_session new_session in
      length (filter (\<lambda>e. is_unpublished e \<and> rls_visible s (oe_org e)) (ob_events db)))"

definition oldest_unpublished_at :: "relay_env \<Rightarrow> outbox_db \<Rightarrow> int option" where
  "oldest_unpublished_at env db =
     (case fetch_unpublished env (set_relay_session new_session) 1 db of
        Inr (e # es) \<Rightarrow> Some (oe_created e) | _ \<Rightarrow> None)"

definition mark_published_tx :: "int \<Rightarrow> uuid \<Rightarrow> outbox_db \<Rightarrow> outbox_db" where
  "mark_published_tx now i db = mark_published (set_relay_session new_session) now i db"

definition move_to_dlq :: "uuid \<Rightarrow> int \<Rightarrow> outbox_event \<Rightarrow> string \<Rightarrow> outbox_db \<Rightarrow> outbox_db" where
  "move_to_dlq i now event err db =
     (let row = \<lparr>dq_id = i, dq_outbox = oe_id event, dq_org = oe_org event,
                 dq_subject = oe_subject event, dq_payload = oe_payload event,
                 dq_key = oe_key event, dq_error = err, dq_attempts = 1, dq_created = now,
                 dq_replayed = None\<rparr>;
          db = (if list_ex (\<lambda>r. dq_id r = i) (ob_dlq db) then db
                else db\<lparr>ob_dlq := ob_dlq db @ [row]\<rparr>)
      in mark_published_tx now (oe_id event) db)"

definition list_unreplayed_dlq :: "relay_env \<Rightarrow> int \<Rightarrow> outbox_db \<Rightarrow> outbox_error + dlq_row list" where
  "list_unreplayed_dlq env limit db =
     (if limit < 0 then Inl (Db NegativeLimit)
      else Inr (take (nat limit) (sort_by (\<lambda>a b. dq_created a \<le> dq_created b)
             (re_scan_dlq env (filter (\<lambda>r. dq_replayed r = None) (ob_dlq db))))))"

definition replay_dlq_row ::
  "relay_env \<Rightarrow> uuid \<Rightarrow> int \<Rightarrow> uuid \<Rightarrow> outbox_db \<Rightarrow> outbox_error + outbox_db \<times> uuid" where
  "replay_dlq_row env new_id now dlq_id db =
     (case find (\<lambda>r. dq_id r = dlq_id) (ob_dlq db) of
        None \<Rightarrow> Inl (Relay (''dlq row '' @ re_show_uuid env dlq_id @ '' not found''))
      | Some row \<Rightarrow>
          if dq_replayed row \<noteq> None
          then Inl (Relay (''dlq row '' @ re_show_uuid env dlq_id @ '' already replayed''))
          else and_then (insert_outbox_row (set_relay_session new_session)
                 \<lparr>oe_id = new_id, oe_org = dq_org row, oe_subject = dq_subject row,
                  oe_payload = dq_payload row, oe_key = dq_key row, oe_created = now,
                  oe_published = None\<rparr> db) (\<lambda>db.
               Inr (db\<lparr>ob_dlq := map (\<lambda>r. if dq_id r = dlq_id then r\<lparr>dq_replayed := Some now\<rparr> else r)
                        (ob_dlq db)\<rparr>, new_id)))"

text \<open>
  The attempts for one event: the publisher, the last error, and whether an attempt succeeded.
\<close>

fun publish_attempts ::
  "'p publish \<Rightarrow> string \<Rightarrow> string \<Rightarrow> nat \<Rightarrow> string option \<Rightarrow> 'p \<Rightarrow> 'p \<times> string option \<times> bool" where
  "publish_attempts publish subject bytes 0 last_err p = (p, last_err, False)"
| "publish_attempts publish subject bytes (Suc n) last_err p =
     (case publish p subject bytes of
        (p, Inr _) \<Rightarrow> (p, None, True)
      | (p, Inl e) \<Rightarrow> publish_attempts publish subject bytes n (Some e) p)"

definition publish_event ::
  "relay_env \<Rightarrow> 'p publish \<Rightarrow> int \<Rightarrow> nat \<Rightarrow> outbox_event \<Rightarrow> string \<Rightarrow> 'p relay_world
     \<Rightarrow> 'p relay_world \<times> nat" where
  "publish_event env publish now max_attempts event bytes w =
     (let (p, last_err, ok) = publish_attempts publish (oe_subject event) bytes max_attempts None (rw_pub w);
          w = w\<lparr>rw_pub := p\<rparr>;
          w = (if ok then w\<lparr>rw_db := mark_published_tx now (oe_id event) (rw_db w),
                            rw_metrics := (rw_metrics w)\<lparr>rm_published := rm_published (rw_metrics w) + 1\<rparr>\<rparr>
               else w)
      in case last_err of
           None \<Rightarrow> (w, if ok then 1 else 0)
         | Some e \<Rightarrow>
             (w\<lparr>rw_db := move_to_dlq (re_gen_uuid env (rw_uuids w)) now event e (rw_db w),
                rw_uuids := Suc (rw_uuids w),
                rw_metrics := (rw_metrics w)\<lparr>rm_dlq := rm_dlq (rw_metrics w) + 1\<rparr>\<rparr>,
              if ok then 1 else 0))"

fun publish_loop ::
  "relay_env \<Rightarrow> 'p publish \<Rightarrow> int \<Rightarrow> nat \<Rightarrow> outbox_event list \<Rightarrow> nat \<Rightarrow> 'p relay_world
     \<Rightarrow> 'p relay_world \<times> (outbox_error + nat)" where
  "publish_loop env publish now max_attempts [] published w = (w, Inr published)"
| "publish_loop env publish now max_attempts (event # batch) published w =
     (case re_to_vec env (oe_payload event) of
        Inl e \<Rightarrow> (w, Inl (Relay e))
      | Inr bytes \<Rightarrow>
          (case publish_event env publish now max_attempts event bytes w of
             (w, k) \<Rightarrow> publish_loop env publish now max_attempts batch (published + k) w))"

definition publish_batch ::
  "relay_env \<Rightarrow> 'p publish \<Rightarrow> int \<Rightarrow> (uuid \<Rightarrow> bool) \<Rightarrow> int \<Rightarrow> nat \<Rightarrow> 'p relay_world
     \<Rightarrow> 'p relay_world \<times> (outbox_error + nat)" where
  "publish_batch env publish now locked limit max_attempts w =
     (case claim_unpublished env locked limit (rw_db w) of
        Inl e \<Rightarrow> (w, Inl e)
      | Inr [] \<Rightarrow> (w, Inr 0)
      | Inr batch \<Rightarrow>
          (case publish_loop env publish now max_attempts batch 0 w of
             (w', Inl e) \<Rightarrow> (w'\<lparr>rw_db := rw_db w\<rparr>, Inl e)
           | (w', Inr n) \<Rightarrow>
               (w'\<lparr>rw_metrics := (rw_metrics w')\<lparr>rm_batches := rm_batches (rw_metrics w') + 1\<rparr>\<rparr>,
                Inr n)))"

definition relay_once ::
  "relay_env \<Rightarrow> 'p publish \<Rightarrow> int \<Rightarrow> (uuid \<Rightarrow> bool) \<Rightarrow> int \<Rightarrow> 'p relay_world
     \<Rightarrow> 'p relay_world \<times> (outbox_error + nat)" where
  "relay_once env publish now locked batch_size w =
     (case publish_batch env publish now locked batch_size 3 w of
        (w, Inl e) \<Rightarrow> (w, Inl e)
      | (w, Inr n) \<Rightarrow>
          (w\<lparr>rw_metrics := (rw_metrics w)\<lparr>rm_lag := of_nat (unpublished_lag (rw_db w))\<rparr>\<rparr>, Inr n))"

text \<open>
  The first \<open>n\<close> iterations of the loop, which has no exit; \<open>now i\<close> and \<open>locked i\<close> belong to
  the \<open>i\<close>-th of them. An error of a tick is logged and the loop goes on.
\<close>

fun run_relay_loop ::
  "relay_env \<Rightarrow> 'p publish \<Rightarrow> (nat \<Rightarrow> int) \<Rightarrow> (nat \<Rightarrow> uuid \<Rightarrow> bool) \<Rightarrow> int \<Rightarrow> nat \<Rightarrow> 'p relay_world
     \<Rightarrow> 'p relay_world" where
  "run_relay_loop env publish now locked batch_size 0 w = w"
| "run_relay_loop env publish now locked batch_size (Suc n) w =
     (case relay_once env publish (now n) (locked n) batch_size
        (run_relay_loop env publish now locked batch_size n w) of (w, r) \<Rightarrow> w)"

text \<open>The command line's \<open>replay\<close>; rows of a failed replay are logged and skipped.\<close>

fun replay_rows :: "relay_env \<Rightarrow> int \<Rightarrow> dlq_row list \<Rightarrow> 'p relay_world \<Rightarrow> 'p relay_world" where
  "replay_rows env now [] w = w"
| "replay_rows env now (row # rows) w =
     (let w' = w\<lparr>rw_uuids := Suc (rw_uuids w)\<rparr> in
      case replay_dlq_row env (re_gen_uuid env (rw_uuids w)) now (dq_id row) (rw_db w) of
        Inr (db, new_id) \<Rightarrow> replay_rows env now rows (w'\<lparr>rw_db := db\<rparr>)
      | Inl e \<Rightarrow> replay_rows env now rows w')"

definition run_replay ::
  "relay_env \<Rightarrow> int \<Rightarrow> bool \<Rightarrow> uuid option \<Rightarrow> 'p relay_world \<Rightarrow> 'p relay_world \<times> (outbox_error + unit)" where
  "run_replay env now all_rows dlq_id w =
     (case dlq_id of
        Some i \<Rightarrow>
          (let w' = w\<lparr>rw_uuids := Suc (rw_uuids w)\<rparr> in
           case replay_dlq_row env (re_gen_uuid env (rw_uuids w)) now i (rw_db w) of
             Inr (db, new_id) \<Rightarrow> (w'\<lparr>rw_db := db\<rparr>, Inr ())
           | Inl e \<Rightarrow> (w', Inl e))
      | None \<Rightarrow>
          if all_rows then
            (case list_unreplayed_dlq env 10000 (rw_db w) of
               Inl e \<Rightarrow> (w, Inl e)
             | Inr rows \<Rightarrow> (replay_rows env now rows w, Inr ()))
          else (w, Inl (Relay ''replay requires --all or --id UUID'')))"

section \<open>What the relay does to the tables\<close>

text \<open>
  What is assumed of the parameters: the first \<open>N\<close> generated UUIDs differ (there are only
  \<open>2 ^ 128\<close>, so the generator cannot be injective), a query returns the rows it selects in some
  order.
\<close>

definition relay_env_ok :: "nat \<Rightarrow> relay_env \<Rightarrow> bool" where
  "relay_env_ok N env \<longleftrightarrow> inj_on (re_gen_uuid env) {..<N} \<and> (\<forall>es. mset (re_scan env es) = mset es) \<and>
     (\<forall>rs. mset (re_scan_dlq env rs) = mset rs)"

definition event_content :: "outbox_event \<Rightarrow> uuid \<times> string \<times> json \<times> string" where
  "event_content e = (oe_org e, oe_subject e, oe_payload e, oe_key e)"

definition dlq_content :: "dlq_row \<Rightarrow> uuid \<times> string \<times> json \<times> string" where
  "dlq_content r = (dq_org r, dq_subject r, dq_payload r, dq_key r)"

definition db_ok :: "relay_env \<Rightarrow> nat \<Rightarrow> outbox_db \<Rightarrow> bool" where
  "db_ok env k db \<longleftrightarrow> distinct (map oe_id (ob_events db)) \<and> distinct (map dq_id (ob_dlq db)) \<and>
     dq_id ` set (ob_dlq db) \<subseteq> re_gen_uuid env ` {..<k}"

text \<open>Marks the rows of a batch as published.\<close>

definition mark_batch :: "int \<Rightarrow> uuid list \<Rightarrow> outbox_event list \<Rightarrow> outbox_event list" where
  "mark_batch now ids es = map (\<lambda>e. if oe_id e \<in> set ids then e\<lparr>oe_published := Some now\<rparr> else e) es"

lemma relay_visible [simp]: "rls_visible (set_relay_session s) org"
  by (simp add: rls_visible_def set_relay_session_def)

lemma mark_published_tx_events:
  "ob_events (mark_published_tx now i db) = mark_batch now [i] (ob_events db)"
  "ob_dlq (mark_published_tx now i db) = ob_dlq db"
  by (simp_all add: mark_published_tx_def mark_published_def mark_batch_def)

lemma move_to_dlq_events: "ob_events (move_to_dlq i now e err db) = mark_batch now [oe_id e] (ob_events db)"
  by (simp add: move_to_dlq_def Let_def mark_published_tx_events)

lemma mark_batch_Nil [simp]: "mark_batch now [] es = es"
  by (simp add: mark_batch_def)

lemma mark_batch_mark_batch: "mark_batch now js (mark_batch now is es) = mark_batch now (is @ js) es"
  by (auto simp: mark_batch_def)

lemma mark_batch_ids [simp]: "map oe_id (mark_batch now is es) = map oe_id es"
  by (simp add: mark_batch_def comp_def if_distrib cong: if_cong)

lemma mark_batch_contents [simp]: "map event_content (mark_batch now is es) = map event_content es"
  by (simp add: mark_batch_def event_content_def)

lemma mark_batch_unpublished:
  "filter is_unpublished (mark_batch now is es) = filter (\<lambda>e. is_unpublished e \<and> oe_id e \<notin> set is) es"
  by (induction es) (auto simp: mark_batch_def is_unpublished_def)

lemma dlq_fresh:
  assumes "inj_on (re_gen_uuid env) {..<N}" and "k < N" and "db_ok env k db"
  shows "\<not> list_ex (\<lambda>r. dq_id r = re_gen_uuid env k) (ob_dlq db)"
proof -
  have "re_gen_uuid env k \<notin> re_gen_uuid env ` {..<k}" using assms(1,2) by (auto dest: inj_onD)
  with assms(3) show ?thesis
    unfolding db_ok_def list_ex_iff image_subset_iff by metis
qed

lemma move_to_dlq_dlq:
  assumes "inj_on (re_gen_uuid env) {..<N}" and "k < N" and "db_ok env k db"
  shows "ob_dlq (move_to_dlq (re_gen_uuid env k) now e err db) = ob_dlq db @
    [\<lparr>dq_id = re_gen_uuid env k, dq_outbox = oe_id e, dq_org = oe_org e, dq_subject = oe_subject e,
      dq_payload = oe_payload e, dq_key = oe_key e, dq_error = err, dq_attempts = 1,
      dq_created = now, dq_replayed = None\<rparr>]"
  using dlq_fresh [OF assms] by (simp add: move_to_dlq_def Let_def mark_published_tx_events)

text \<open>The outcome of the attempts: an attempt succeeded or there is an error, not both.\<close>

lemma publish_attempts_cases:
  assumes "publish_attempts publish s b n er p = (p', er1, ok)"
  shows "if ok then er1 = None else (if n = 0 then er1 = er else er1 \<noteq> None)"
  using assms
  by (induction publish s b n er p rule: publish_attempts.induct)
    (auto split: prod.splits sum.splits if_splits)

lemma publish_event_cases:
  assumes "publish_event env publish now n e b w = (w', k)"
  obtains p ok er where "publish_attempts publish (oe_subject e) b n None (rw_pub w) = (p, er, ok)"
      and "rw_pub w' = p" and "ok" and "k = 1" and "rw_uuids w' = rw_uuids w"
      and "rw_db w' = mark_published_tx now (oe_id e) (rw_db w)"
    | p err where "publish_attempts publish (oe_subject e) b n None (rw_pub w) = (p, Some err, False)"
      and "rw_pub w' = p" and "k = 0" and "rw_uuids w' = Suc (rw_uuids w)" and "n \<noteq> 0"
      and "rw_db w' = move_to_dlq (re_gen_uuid env (rw_uuids w)) now e err (rw_db w)"
    | "n = 0" and "rw_pub w' = rw_pub w" and "rw_db w' = rw_db w" and "rw_uuids w' = rw_uuids w" and "k = 0"
proof -
  obtain p er ok where a: "publish_attempts publish (oe_subject e) b n None (rw_pub w) = (p, er, ok)"
    by (metis prod_cases3)
  from publish_attempts_cases [OF a] consider "ok" "er = None"
    | err where "\<not> ok" "er = Some err" "n \<noteq> 0" | "\<not> ok" "n = 0" "er = None"
    by (auto split: if_splits)
  then show thesis
  proof cases
    case 1
    with a assms show ?thesis by (intro that(1)) (auto simp: publish_event_def)
  next
    case 2
    with a assms show ?thesis by (intro that(2)) (auto simp: publish_event_def)
  next
    case 3
    with a assms show ?thesis by (intro that(3)) (auto simp: publish_event_def)
  qed
qed

text \<open>
  With at least one attempt the event is marked as published whatever the publisher answers,
  and only the dead-letter table depends on the answer.
\<close>

lemma publish_event_events:
  assumes "publish_event env publish now (Suc n) e b w = (w', k)"
  shows "ob_events (rw_db w') = mark_batch now [oe_id e] (ob_events (rw_db w))"
  using assms by (rule publish_event_cases) (simp_all add: mark_published_tx_events move_to_dlq_events)

lemma publish_loop_events:
  assumes "\<And>j. is_ok (re_to_vec env j)"
  shows "\<exists>w' m. publish_loop env publish now (Suc n) es k w = (w', Inr m) \<and>
    ob_events (rw_db w') = mark_batch now (map oe_id es) (ob_events (rw_db w))"
proof (induction es arbitrary: k w)
  case (Cons e es)
  obtain b where b: "re_to_vec env (oe_payload e) = Inr b"
    using assms [of "oe_payload e"] by (cases "re_to_vec env (oe_payload e)") auto
  obtain w1 i where w1: "publish_event env publish now (Suc n) e b w = (w1, i)" by fastforce
  from Cons [of "k + i" w1] publish_event_events [OF w1] show ?case
    by (auto simp: b w1 mark_batch_mark_batch)
qed simp

section \<open>Progress\<close>

abbreviation unlocked :: "uuid \<Rightarrow> bool" where
  "unlocked \<equiv> (\<lambda>i. False)"

lemma oldest_first_take:
  assumes "oldest_first env sel limit db = Inr es" and "\<And>xs. mset (re_scan env xs) = mset xs"
  obtains xs where "es = take (nat limit) xs" and "mset xs = mset (filter sel (ob_events db))"
    and "sorted_wrt (\<lambda>a b. oe_created a \<le> oe_created b) xs"
proof
  show "es = take (nat limit) (sort_by (\<lambda>a b. oe_created a \<le> oe_created b)
      (re_scan env (filter sel (ob_events db))))"
    using assms(1) by (auto simp: oldest_first_def split: if_splits)
qed (auto simp: assms(2) transp_def intro!: sorted_sort_by)

lemma distinct_map_take:
  assumes "mset xs = mset (filter P ys)" and "distinct (map f ys)"
  shows "distinct (map f (take n xs))"
proof -
  have "distinct (map f (filter P ys))" using assms(2) by (rule distinct_map_filter)
  then have "distinct (map f xs)"
    by (subst mset_eq_imp_distinct_iff [of _ "map f (filter P ys)"]) (simp_all add: assms(1))
  then show ?thesis unfolding take_map [symmetric] by (rule distinct_take)
qed

lemma oldest_first_Inr:
  assumes "oldest_first env sel limit db = Inr es" and "\<And>xs. mset (re_scan env xs) = mset xs"
  shows "set es \<subseteq> {e \<in> set (ob_events db). sel e}"
    and "length es = min (nat limit) (length (filter sel (ob_events db)))"
    and "sorted_wrt (\<lambda>a b. oe_created a \<le> oe_created b) es"
    and "distinct (map oe_id (ob_events db)) \<Longrightarrow> distinct (map oe_id es)"
proof -
  obtain xs where es: "es = take (nat limit) xs" and m: "mset xs = mset (filter sel (ob_events db))"
    and srt: "sorted_wrt (\<lambda>a b. oe_created a \<le> oe_created b) xs"
    by (rule oldest_first_take [OF assms])
  show "set es \<subseteq> {e \<in> set (ob_events db). sel e}"
    unfolding es using mset_eq_setD [OF m] set_take_subset [of "nat limit" xs] by simp
  show "length es = min (nat limit) (length (filter sel (ob_events db)))"
    unfolding es length_take mset_eq_length [OF m] by (rule min.commute)
  show "sorted_wrt (\<lambda>a b. oe_created a \<le> oe_created b) es"
    unfolding es by (rule sorted_wrt_take [OF srt])
  show "distinct (map oe_id (ob_events db)) \<Longrightarrow> distinct (map oe_id es)"
    unfolding es by (rule distinct_map_take [OF m])
qed

lemma claim_unpublished_eq:
  "claim_unpublished env locked limit db =
     oldest_first env (\<lambda>e. is_unpublished e \<and> \<not> locked (oe_id e)) limit db"
  by (simp add: claim_unpublished_def)

lemma unpublished_lag_eq: "unpublished_lag db = length (filter is_unpublished (ob_events db))"
  by (simp add: unpublished_lag_def)

text \<open>Marking a batch of unpublished rows takes exactly that many off the lag.\<close>

lemma mark_batch_lag:
  assumes "distinct (map oe_id es)" and "set bs \<subseteq> {e \<in> set es. is_unpublished e}"
    and "distinct (map oe_id bs)"
  shows "length (filter is_unpublished (mark_batch now (map oe_id bs) es)) + length bs =
    length (filter is_unpublished es)"
proof -
  have inj: "inj_on oe_id (set es)" using assms(1) by (simp add: distinct_map)
  have "distinct bs" "distinct es" using assms(1,3) by (auto simp: distinct_map)
  then have bs: "length bs = card (set bs)" by (simp add: distinct_card)
  have in_bs: "oe_id e \<in> set (map oe_id bs) \<longleftrightarrow> e \<in> set bs" if "e \<in> set es" for e
    using that assms(2) inj by (auto dest: inj_onD)
  have len: "length (filter P es) = card {e \<in> set es. P e}" for P
    using distinct_card [OF distinct_filter [OF \<open>distinct es\<close>], of P] by simp
  have "{e \<in> set es. is_unpublished e \<and> oe_id e \<notin> set (map oe_id bs)} =
      {e \<in> set es. is_unpublished e} - set bs"
    using in_bs by blast
  moreover have "card ({e \<in> set es. is_unpublished e} - set bs) =
      card {e \<in> set es. is_unpublished e} - card (set bs)"
    using assms(2) by (intro card_Diff_subset) auto
  moreover have "card (set bs) \<le> card {e \<in> set es. is_unpublished e}"
    using assms(2) by (intro card_mono) auto
  ultimately show ?thesis unfolding mark_batch_unpublished len bs by simp
qed

lemma relay_once_progress:
  assumes ok: "relay_env_ok N env" and vec: "\<And>j. is_ok (re_to_vec env j)" and "0 \<le> limit"
    and dist: "distinct (map oe_id (ob_events (rw_db w)))"
  shows "\<exists>w' n batch. relay_once env publish now unlocked limit w = (w', Inr n) \<and>
    claim_unpublished env unlocked limit (rw_db w) = Inr batch \<and>
    ob_events (rw_db w') = mark_batch now (map oe_id batch) (ob_events (rw_db w)) \<and>
    rm_lag (rw_metrics w') = of_nat (unpublished_lag (rw_db w'))"
proof -
  obtain batch where b: "claim_unpublished env unlocked limit (rw_db w) = Inr batch"
    using \<open>0 \<le> limit\<close> by (auto simp: claim_unpublished_eq oldest_first_def)
  show ?thesis
  proof (cases batch)
    case Nil
    with b show ?thesis by (simp add: relay_once_def publish_batch_def)
  next
    case (Cons e es)
    obtain w' n where "publish_loop env publish now (Suc 2) batch 0 w = (w', Inr n)"
        "ob_events (rw_db w') = mark_batch now (map oe_id batch) (ob_events (rw_db w))"
      using publish_loop_events [OF vec] by blast
    with b Cons show ?thesis
      by (simp add: relay_once_def publish_batch_def numeral_3_eq_3 numeral_2_eq_2 del: publish_loop.simps)
  qed
qed

lemma relay_once_lag:
  assumes "relay_env_ok N env" and "\<And>j. is_ok (re_to_vec env j)" and "0 \<le> limit"
    and dist: "distinct (map oe_id (ob_events (rw_db w)))"
    and once: "relay_once env publish now unlocked limit w = (w', r)"
  shows "is_ok r" and "unpublished_lag (rw_db w') = unpublished_lag (rw_db w) - nat limit"
    and "distinct (map oe_id (ob_events (rw_db w')))"
    and "rm_lag (rw_metrics w') = of_nat (unpublished_lag (rw_db w'))"
proof -
  from relay_once_progress [OF assms(1-4), of publish now] once obtain n batch where
    r: "r = Inr n" and b: "claim_unpublished env unlocked limit (rw_db w) = Inr batch"
    and e: "ob_events (rw_db w') = mark_batch now (map oe_id batch) (ob_events (rw_db w))"
    and l: "rm_lag (rw_metrics w') = of_nat (unpublished_lag (rw_db w'))" by auto
  from r l show "is_ok r" and "rm_lag (rw_metrics w') = of_nat (unpublished_lag (rw_db w'))" by auto
  from e dist show "distinct (map oe_id (ob_events (rw_db w')))" by simp
  have scan: "mset (re_scan env xs) = mset xs" for xs
    using assms(1) by (simp add: relay_env_ok_def)
  have "oldest_first env is_unpublished limit (rw_db w) = Inr batch"
    using b by (simp add: claim_unpublished_eq)
  note c = oldest_first_Inr [OF this scan]
  from mark_batch_lag [OF dist c(1) c(4) [OF dist], of now] c(2)
  show "unpublished_lag (rw_db w') = unpublished_lag (rw_db w) - nat limit"
    by (simp add: unpublished_lag_eq e)
qed

text \<open>
  C5: The relay drains the outbox. As long as no new event arrives and no other relay holds
  rows, every iteration of the loop commits and takes a full batch off the lag, whatever the
  publisher answers: after \<open>n\<close> iterations the number of unpublished events is the initial one
  minus \<open>n\<close> times the batch size, and zero once that many have passed.
\<close>

theorem relay_drains:
  assumes "relay_env_ok N env" and "\<And>j. is_ok (re_to_vec env j)" and "0 \<le> batch_size"
    and "distinct (map oe_id (ob_events (rw_db w)))"
  shows "unpublished_lag (rw_db (run_relay_loop env publish now (\<lambda>_. unlocked) batch_size n w)) =
    unpublished_lag (rw_db w) - n * nat batch_size"
proof -
  have "unpublished_lag (rw_db (run_relay_loop env publish now (\<lambda>_. unlocked) batch_size n w)) =
      unpublished_lag (rw_db w) - n * nat batch_size \<and>
      distinct (map oe_id (ob_events (rw_db (run_relay_loop env publish now (\<lambda>_. unlocked) batch_size n w))))"
  proof (induction n)
    case 0
    with assms(4) show ?case by simp
  next
    case (Suc n)
    obtain w' r where "relay_once env publish (now n) unlocked batch_size
        (run_relay_loop env publish now (\<lambda>_. unlocked) batch_size n w) = (w', r)" by fastforce
    with relay_once_lag [OF assms(1-3) conjunct2 [OF Suc] this] Suc show ?case by (simp add: algebra_simps)
  qed
  then show ?thesis ..
qed

section \<open>No event is lost\<close>

text \<open>The contract of the trait \<open>EventPublisher\<close>.\<close>

locale event_publisher =
  fixes publish :: "'p publish"
    and delivered :: "'p \<Rightarrow> (string \<times> string) set"
  assumes delivered_mono: "publish p s b = (p', r) \<Longrightarrow> delivered p \<subseteq> delivered p'"
    and delivered_ok: "publish p s b = (p', Inr u) \<Longrightarrow> (s, b) \<in> delivered p'"
begin

lemma attempts_delivered:
  "publish_attempts publish s b n er p = (p', er1, ok) \<Longrightarrow>
     delivered p \<subseteq> delivered p' \<and> (ok \<longrightarrow> (s, b) \<in> delivered p')"
proof (induction n arbitrary: er p)
  case (Suc n)
  obtain q r where q: "publish p s b = (q, r)" by fastforce
  show ?case
  proof (cases r)
    case (Inl e)
    have "delivered q \<subseteq> delivered p' \<and> (ok \<longrightarrow> (s, b) \<in> delivered p')"
      using Suc.IH [of "Some e" q] Suc.prems q Inl by simp
    with delivered_mono [OF q] show ?thesis by blast
  next
    case (Inr u)
    with Suc.prems q have "p' = q" by simp
    with delivered_mono [OF q] delivered_ok [of p s b q u] q Inr show ?thesis by simp
  qed
qed simp

lemma calls_delivered: "delivered p \<subseteq> delivered (foldl (\<lambda>p (s, b). fst (publish p s b)) p calls)"
proof (induction calls rule: rev_induct)
  case (snoc c cs)
  obtain s b where c: "c = (s, b)" by fastforce
  let ?q = "foldl (\<lambda>p (s, b). fst (publish p s b)) p cs"
  have "delivered ?q \<subseteq> delivered (fst (publish ?q s b))"
    by (rule delivered_mono [of ?q s b _ "snd (publish ?q s b)"]) simp
  with snoc show ?case by (auto simp: c)
qed simp

end

interpretation memory: event_publisher memory_publish "\<lambda>p. set (mp_deliveries p)"
  by unfold_locales (auto simp: memory_publish_def split: if_splits)

text \<open>
  An event is settled when its message has been delivered, or a row with its content waits in
  the outbox, or waits in the dead-letter table for a replay.
\<close>

definition settled ::
  "relay_env \<Rightarrow> ('p \<Rightarrow> (string \<times> string) set) \<Rightarrow> 'p \<Rightarrow> outbox_db \<Rightarrow> uuid \<times> string \<times> json \<times> string \<Rightarrow> bool" where
  "settled env delivered p db c \<longleftrightarrow>
     (\<exists>b. re_to_vec env (fst (snd (snd c))) = Inr b \<and> (fst (snd c), b) \<in> delivered p) \<or>
     (\<exists>e \<in> set (ob_events db). event_content e = c \<and> is_unpublished e) \<or>
     (\<exists>r \<in> set (ob_dlq db). dlq_content r = c \<and> dq_replayed r = None)"

definition relay_inv :: "relay_env \<Rightarrow> ('p \<Rightarrow> (string \<times> string) set) \<Rightarrow> 'p relay_world \<Rightarrow> bool" where
  "relay_inv env delivered w \<longleftrightarrow> db_ok env (rw_uuids w) (rw_db w) \<and>
     (\<forall>e \<in> set (ob_events (rw_db w)). settled env delivered (rw_pub w) (rw_db w) (event_content e))"

text \<open>
  The steps of the system: a service commits a transaction with an event, the relay runs a
  tick, a relay transaction is cut off at any point (the publisher has seen some calls, the
  tables are unchanged), a dead-letter row is replayed.
\<close>

inductive relay_step :: "relay_env \<Rightarrow> 'p publish \<Rightarrow> 'p relay_world \<Rightarrow> 'p relay_world \<Rightarrow> bool"
  for env publish where
  step_insert: "insert_event env s envelope (rw_db w) = Inr (db, i) \<Longrightarrow>
     relay_step env publish w (w\<lparr>rw_db := db\<rparr>)"
| step_tick: "relay_once env publish now locked batch_size w = (w', r) \<Longrightarrow>
     relay_step env publish w w'"
| step_crash: "rw_uuids w \<le> k \<Longrightarrow>
     relay_step env publish w (w\<lparr>rw_pub := foldl (\<lambda>p (s, b). fst (publish p s b)) (rw_pub w) calls,
       rw_uuids := k, rw_metrics := m\<rparr>)"
| step_replay: "replay_dlq_row env (re_gen_uuid env (rw_uuids w)) now dlq_id (rw_db w) = Inr (db, i) \<Longrightarrow>
     relay_step env publish w (w\<lparr>rw_db := db, rw_uuids := Suc (rw_uuids w)\<rparr>)"

definition relay_init :: "'p relay_world \<Rightarrow> bool" where
  "relay_init w \<longleftrightarrow> ob_events (rw_db w) = [] \<and> ob_dlq (rw_db w) = []"

lemma db_ok_mono: "db_ok env k db \<Longrightarrow> k \<le> k' \<Longrightarrow> db_ok env k' db"
  by (force simp: db_ok_def)

lemma settled_mono_delivered:
  "settled env delivered p db c \<Longrightarrow> delivered p \<subseteq> delivered p' \<Longrightarrow> settled env delivered p' db c"
  by (auto simp: settled_def)

text \<open>Marking a row as published keeps everything settled once the row's own content is.\<close>

lemma settled_mark:
  assumes "settled env delivered p db c" and "distinct (map oe_id (ob_events db))"
    and "e \<in> set (ob_events db)" and "event_content e = c0"
    and "ob_events db' = mark_batch now [oe_id e] (ob_events db)"
    and "set (ob_dlq db) \<subseteq> set (ob_dlq db')" and "settled env delivered p db' c0"
  shows "settled env delivered p db' c"
proof (cases "\<exists>x \<in> set (ob_events db). event_content x = c \<and> is_unpublished x")
  case True
  then obtain x where x: "x \<in> set (ob_events db)" "event_content x = c" "is_unpublished x" by blast
  show ?thesis
  proof (cases "oe_id x = oe_id e")
    case True
    with x(1) assms(2,3) have "x = e" by (auto simp: distinct_map dest: inj_onD)
    with x assms(4,7) show ?thesis by simp
  next
    case False
    with x(1) have "x \<in> set (ob_events db')" by (force simp: assms(5) mark_batch_def)
    with x show ?thesis by (auto simp: settled_def)
  qed
next
  case False
  with assms(1,6) show ?thesis by (auto simp: settled_def)
qed

lemma content_row:
  assumes "x \<in> set (mark_batch now is es)"
  shows "\<exists>y \<in> set es. event_content y = event_content x \<and> oe_id y = oe_id x"
  using assms by (auto simp: mark_batch_def event_content_def)

lemma relay_inv_mark:
  assumes inv: "relay_inv env delivered w" and e: "e \<in> set (ob_events (rw_db w))"
    and del: "delivered (rw_pub w) \<subseteq> delivered (rw_pub w')"
    and ev: "ob_events (rw_db w') = mark_batch now [oe_id e] (ob_events (rw_db w))"
    and dlq: "set (ob_dlq (rw_db w)) \<subseteq> set (ob_dlq (rw_db w'))"
    and ok: "db_ok env (rw_uuids w') (rw_db w')"
    and own: "settled env delivered (rw_pub w') (rw_db w') (event_content e)"
  shows "relay_inv env delivered w'"
  unfolding relay_inv_def
proof (intro conjI ballI)
  show "db_ok env (rw_uuids w') (rw_db w')" by (rule ok)
  fix x assume "x \<in> set (ob_events (rw_db w'))"
  then obtain y where y: "y \<in> set (ob_events (rw_db w))" "event_content y = event_content x"
    using content_row [of x now "[oe_id e]"] by (auto simp: ev)
  with inv have "settled env delivered (rw_pub w) (rw_db w) (event_content x)"
    by (auto simp: relay_inv_def)
  from settled_mono_delivered [of env delivered, OF this del]
  show "settled env delivered (rw_pub w') (rw_db w') (event_content x)"
    by (rule settled_mark [OF _ _ e refl ev dlq own]) (use inv in \<open>simp add: relay_inv_def db_ok_def\<close>)
qed

lemma event_content_eq:
  "event_content e = event_content e' \<longleftrightarrow>
     oe_org e = oe_org e' \<and> oe_subject e = oe_subject e' \<and> oe_payload e = oe_payload e' \<and> oe_key e = oe_key e'"
  by (auto simp: event_content_def)

lemma db_ok_mark:
  assumes "db_ok env k db" and "ob_events db' = mark_batch now is (ob_events db)"
    and "ob_dlq db' = ob_dlq db"
  shows "db_ok env k db'"
  using assms by (simp add: db_ok_def)

lemma db_ok_move_to_dlq:
  assumes "inj_on (re_gen_uuid env) {..<N}" and "k < N" and "db_ok env k db"
  shows "db_ok env (Suc k) (move_to_dlq (re_gen_uuid env k) now e err db)"
proof -
  have "re_gen_uuid env k \<notin> dq_id ` set (ob_dlq db)"
    using dlq_fresh [OF assms] by (auto simp: list_ex_iff)
  moreover have "dq_id ` set (ob_dlq db) \<subseteq> re_gen_uuid env ` {..<Suc k}"
    using assms(3) by (force simp: db_ok_def)
  ultimately show ?thesis
    using assms(3) by (simp add: db_ok_def move_to_dlq_dlq [OF assms] move_to_dlq_events lessThan_Suc)
qed

context event_publisher
begin

lemma publish_event_inv:
  assumes env: "relay_env_ok N env" and inv: "relay_inv env delivered w"
    and e: "e' \<in> set (ob_events (rw_db w))" "event_content e' = event_content e" "oe_id e' = oe_id e"
    and b: "re_to_vec env (oe_payload e) = Inr b"
    and pe: "publish_event env publish now n e b w = (w', k)" and N: "rw_uuids w' \<le> N"
  shows "relay_inv env delivered w'"
  using pe
proof (rule publish_event_cases)
  have inj: "inj_on (re_gen_uuid env) {..<N}" using env by (simp add: relay_env_ok_def)
  have ok: "db_ok env (rw_uuids w) (rw_db w)" using inv by (simp add: relay_inv_def)
  have sub: "oe_subject e' = oe_subject e" "oe_payload e' = oe_payload e"
    using e(2) by (simp_all add: event_content_eq)
  {
    fix p ok er assume a: "publish_attempts publish (oe_subject e) b n None (rw_pub w) = (p, er, ok)"
      and w': "rw_pub w' = p" "ok" "rw_uuids w' = rw_uuids w"
        "rw_db w' = mark_published_tx now (oe_id e) (rw_db w)"
    from attempts_delivered [OF a] w' have d: "delivered (rw_pub w) \<subseteq> delivered (rw_pub w')"
      "(oe_subject e, b) \<in> delivered (rw_pub w')" by auto
    show ?thesis
    proof (rule relay_inv_mark [OF inv e(1) d(1)])
      show "ob_events (rw_db w') = mark_batch now [oe_id e'] (ob_events (rw_db w))"
        by (simp add: w' e(3) mark_published_tx_events)
      show "set (ob_dlq (rw_db w)) \<subseteq> set (ob_dlq (rw_db w'))" by (simp add: w' mark_published_tx_events)
      show "db_ok env (rw_uuids w') (rw_db w')"
        using ok by (simp add: w' db_ok_mark mark_published_tx_events)
      show "settled env delivered (rw_pub w') (rw_db w') (event_content e')"
        using d(2) b by (simp add: settled_def event_content_def sub)
    qed
  next
    fix p err assume a: "publish_attempts publish (oe_subject e) b n None (rw_pub w) = (p, Some err, False)"
      and w': "rw_pub w' = p" "rw_uuids w' = Suc (rw_uuids w)"
        "rw_db w' = move_to_dlq (re_gen_uuid env (rw_uuids w)) now e err (rw_db w)"
    from attempts_delivered [OF a] w' have d: "delivered (rw_pub w) \<subseteq> delivered (rw_pub w')" by auto
    from N w'(2) have less: "rw_uuids w < N" by simp
    show ?thesis
    proof (rule relay_inv_mark [OF inv e(1) d])
      show "ob_events (rw_db w') = mark_batch now [oe_id e'] (ob_events (rw_db w))"
        by (simp add: w' e(3) move_to_dlq_events)
      show "set (ob_dlq (rw_db w)) \<subseteq> set (ob_dlq (rw_db w'))"
        by (auto simp: w' move_to_dlq_dlq [OF inj less ok])
      show "db_ok env (rw_uuids w') (rw_db w')" by (simp add: w' db_ok_move_to_dlq [OF inj less ok])
      show "settled env delivered (rw_pub w') (rw_db w') (event_content e')"
        using e(2) by (simp add: settled_def w' move_to_dlq_dlq [OF inj less ok] dlq_content_def event_content_def)
    qed
  next
    assume "rw_pub w' = rw_pub w" "rw_db w' = rw_db w" "rw_uuids w' = rw_uuids w"
    with inv show ?thesis by (simp add: relay_inv_def)
  }
qed

end

lemma publish_event_rows:
  assumes "publish_event env publish now n e b w = (w', k)"
  shows "map event_content (ob_events (rw_db w')) = map event_content (ob_events (rw_db w))"
    and "map oe_id (ob_events (rw_db w')) = map oe_id (ob_events (rw_db w))"
  using assms by (rule publish_event_cases; simp add: mark_published_tx_events move_to_dlq_events)+

text \<open>A row of an earlier state is still there, under its id and with its content.\<close>

lemma row_kept:
  assumes "x \<in> set xs" and "map f ys = map f xs" and "map g ys = map g xs"
  shows "\<exists>y \<in> set ys. f y = f x \<and> g y = g x"
proof -
  from assms(1) obtain i where i: "i < length xs" "x = xs ! i" by (metis in_set_conv_nth)
  moreover from assms(2) have "length ys = length xs" by (metis length_map)
  ultimately have "ys ! i \<in> set ys" "f (ys ! i) = f x" "g (ys ! i) = g x"
    using assms(2,3) by (metis nth_mem, metis nth_map, metis nth_map)
  then show ?thesis by blast
qed

context event_publisher
begin

lemma publish_loop_pub:
  assumes "publish_loop env publish now n es k w = (w', r)"
  shows "delivered (rw_pub w) \<subseteq> delivered (rw_pub w') \<and> rw_uuids w \<le> rw_uuids w'"
  using assms
proof (induction es arbitrary: k w)
  case (Cons e es)
  show ?case
  proof (cases "re_to_vec env (oe_payload e)")
    case (Inr b)
    obtain w1 i where w1: "publish_event env publish now n e b w = (w1, i)" by fastforce
    then have "delivered (rw_pub w) \<subseteq> delivered (rw_pub w1) \<and> rw_uuids w \<le> rw_uuids w1"
      by (rule publish_event_cases) (auto dest: attempts_delivered)
    moreover from w1 Inr Cons have "delivered (rw_pub w1) \<subseteq> delivered (rw_pub w') \<and> rw_uuids w1 \<le> rw_uuids w'"
      by simp
    ultimately show ?thesis by auto
  qed (use Cons in simp)
qed simp

lemma publish_loop_inv:
  assumes "relay_env_ok N env" and "relay_inv env delivered w"
    and "\<And>e. e \<in> set es \<Longrightarrow>
      \<exists>e' \<in> set (ob_events (rw_db w)). event_content e' = event_content e \<and> oe_id e' = oe_id e"
    and "publish_loop env publish now n es k w = (w', r)" and "rw_uuids w' \<le> N"
  shows "relay_inv env delivered w' \<and>
    map event_content (ob_events (rw_db w')) = map event_content (ob_events (rw_db w))"
  using assms(2-)
proof (induction es arbitrary: k w)
  case Nil
  then show ?case by simp
next
  case (Cons e es)
  show ?case
  proof (cases "re_to_vec env (oe_payload e)")
    case (Inl x)
    with Cons.prems show ?thesis by auto
  next
    case (Inr b)
    obtain w1 i where w1: "publish_event env publish now n e b w = (w1, i)" by fastforce
    with Inr Cons.prems(3) have l: "publish_loop env publish now n es (k + i) w1 = (w', r)" by simp
    from Cons.prems(2) [of e] obtain e' where e': "e' \<in> set (ob_events (rw_db w))"
      "event_content e' = event_content e" "oe_id e' = oe_id e" by auto
    note rows = publish_event_rows [OF w1]
    have "\<exists>y \<in> set (ob_events (rw_db w1)). event_content y = event_content x \<and> oe_id y = oe_id x"
      if x: "x \<in> set es" for x
    proof -
      from Cons.prems(2) [of x] x obtain x' where x': "x' \<in> set (ob_events (rw_db w))"
        "event_content x' = event_content x" "oe_id x' = oe_id x" by auto
      from row_kept [OF x'(1) rows] x' show ?thesis by auto
    qed
    moreover have "rw_uuids w1 \<le> N" using publish_loop_pub [OF l] Cons.prems(4) by simp
    ultimately have "relay_inv env delivered w' \<and>
        map event_content (ob_events (rw_db w')) = map event_content (ob_events (rw_db w1))"
      using Cons.IH [OF publish_event_inv [OF assms(1) Cons.prems(1) e' Inr w1] _ l Cons.prems(4)] by blast
    with rows(1)
    show ?thesis by simp
  qed
qed

lemma relay_inv_rollback:
  assumes "relay_inv env delivered w" and "delivered (rw_pub w) \<subseteq> delivered (rw_pub w')"
    and "rw_uuids w \<le> rw_uuids w'" and "rw_db w' = rw_db w"
  shows "relay_inv env delivered w'"
  using assms db_ok_mono [OF _ assms(3)] settled_mono_delivered [of env delivered, OF _ assms(2)]
  by (auto simp: relay_inv_def)

lemma publish_batch_inv:
  assumes env: "relay_env_ok N env" and inv: "relay_inv env delivered w"
    and pb: "publish_batch env publish now locked limit n w = (w', r)" and N: "rw_uuids w' \<le> N"
  shows "relay_inv env delivered w' \<and>
    map event_content (ob_events (rw_db w')) = map event_content (ob_events (rw_db w))"
proof (cases "claim_unpublished env locked limit (rw_db w)")
  case (Inl e)
  with pb inv show ?thesis by (simp add: publish_batch_def)
next
  case (Inr es)
  have scan: "mset (re_scan env xs) = mset xs" for xs
    using env by (simp add: relay_env_ok_def)
  have rows: "\<exists>e' \<in> set (ob_events (rw_db w)). event_content e' = event_content e \<and> oe_id e' = oe_id e"
    if "e \<in> set es" for e
    using oldest_first_Inr(1) [OF Inr [unfolded claim_unpublished_eq] scan] that by blast
  obtain w1 r1 where l: "publish_loop env publish now n es 0 w = (w1, r1)" by fastforce
  note w1 = publish_loop_inv [OF env inv rows l] publish_loop_pub [OF l]
  show ?thesis
  proof (cases "es = []")
    case True
    with Inr pb inv show ?thesis by (simp add: publish_batch_def)
  next
    case False
    then obtain y ys where es: "es = y # ys" by (cases es) auto
    show ?thesis
    proof (cases r1)
      case (Inl x)
      with Inr l pb have "w' = w1\<lparr>rw_db := rw_db w\<rparr>"
        by (simp add: publish_batch_def es del: publish_loop.simps)
      with w1(2) show ?thesis using relay_inv_rollback [OF inv, of w'] by simp
    next
      case (Inr m)
      with \<open>claim_unpublished env locked limit (rw_db w) = Inr es\<close> l pb
      have "rw_db w' = rw_db w1" "rw_pub w' = rw_pub w1" "rw_uuids w' = rw_uuids w1"
        by (auto simp: publish_batch_def es simp del: publish_loop.simps)
      with w1(1) N show ?thesis by (simp add: relay_inv_def)
    qed
  qed
qed

lemma relay_once_uuids:
  assumes "relay_once env publish now locked limit w = (w', r)"
  shows "rw_uuids w \<le> rw_uuids w'"
proof (cases "claim_unpublished env locked limit (rw_db w)")
  case (Inr es)
  obtain w1 r1 where l: "publish_loop env publish now 3 es 0 w = (w1, r1)" by fastforce
  with publish_loop_pub [OF l] Inr assms show ?thesis
    by (auto simp: relay_once_def publish_batch_def simp del: publish_loop.simps
        split: list.splits sum.splits)
qed (use assms in \<open>simp add: relay_once_def publish_batch_def\<close>)

lemma relay_once_inv:
  assumes "relay_env_ok N env" and "relay_inv env delivered w"
    and "relay_once env publish now locked limit w = (w', r)" and "rw_uuids w' \<le> N"
  shows "relay_inv env delivered w' \<and>
    map event_content (ob_events (rw_db w')) = map event_content (ob_events (rw_db w))"
proof -
  obtain w1 r1 where pb: "publish_batch env publish now locked limit 3 w = (w1, r1)" by fastforce
  with assms(3) have "rw_db w' = rw_db w1" "rw_pub w' = rw_pub w1" "rw_uuids w' = rw_uuids w1"
    by (auto simp: relay_once_def split: sum.splits)
  with publish_batch_inv [OF assms(1,2) pb] assms(4) show ?thesis by (simp add: relay_inv_def)
qed

end

lemma insert_row_Inr:
  assumes "insert_outbox_row s e db = Inr db'"
  shows "db' = db\<lparr>ob_events := ob_events db @ [e]\<rparr>" and "oe_id e \<notin> oe_id ` set (ob_events db)"
    and "rls_visible s (oe_org e)"
  using assms by (auto simp: insert_outbox_row_def list_ex_iff split: if_splits)

lemma insert_row_inv:
  assumes "relay_inv env delivered w" and "insert_outbox_row s e (rw_db w) = Inr db" and "is_unpublished e"
  shows "relay_inv env delivered (w\<lparr>rw_db := db\<rparr>)"
  using assms(1,3) insert_row_Inr [OF assms(2)]
  by (auto simp: relay_inv_def db_ok_def settled_def)

lemma replay_Inr:
  assumes "replay_dlq_row env new_id now dlq_id db = Inr (db', i)"
  obtains row where "row \<in> set (ob_dlq db)" and "dq_id row = dlq_id" and "dq_replayed row = None"
    and "i = new_id" and "new_id \<notin> oe_id ` set (ob_events db)"
    and "db' = \<lparr>ob_events = ob_events db @ [\<lparr>oe_id = new_id, oe_org = dq_org row,
            oe_subject = dq_subject row, oe_payload = dq_payload row, oe_key = dq_key row,
            oe_created = now, oe_published = None\<rparr>],
          ob_dlq = map (\<lambda>r. if dq_id r = dlq_id then r\<lparr>dq_replayed := Some now\<rparr> else r) (ob_dlq db)\<rparr>"
proof -
  from assms obtain row where f: "find (\<lambda>r. dq_id r = dlq_id) (ob_dlq db) = Some row"
    and n: "dq_replayed row = None"
    by (auto simp: replay_dlq_row_def split: option.splits if_splits)
  from f have row: "row \<in> set (ob_dlq db)" "dq_id row = dlq_id"
    by (auto simp: find_Some_iff)
  from assms f n show thesis
    by (intro that [OF row n]) (auto simp: replay_dlq_row_def result_simps insert_outbox_row_def list_ex_iff
        split: if_splits)
qed

lemma replay_inv:
  assumes inv: "relay_inv env delivered w" and r: "replay_dlq_row env new_id now dlq_id (rw_db w) = Inr (db, i)"
  shows "relay_inv env delivered (w\<lparr>rw_db := db, rw_uuids := Suc (rw_uuids w)\<rparr>)"
proof -
  obtain row where row: "row \<in> set (ob_dlq (rw_db w))" "dq_id row = dlq_id" "dq_replayed row = None"
    and fresh: "new_id \<notin> oe_id ` set (ob_events (rw_db w))"
    and db: "ob_events db = ob_events (rw_db w) @ [\<lparr>oe_id = new_id, oe_org = dq_org row,
            oe_subject = dq_subject row, oe_payload = dq_payload row, oe_key = dq_key row,
            oe_created = now, oe_published = None\<rparr>]"
      "ob_dlq db = map (\<lambda>r. if dq_id r = dlq_id then r\<lparr>dq_replayed := Some now\<rparr> else r) (ob_dlq (rw_db w))"
    by (rule replay_Inr [OF r]) auto
  have ok: "db_ok env (rw_uuids w) (rw_db w)" using inv by (simp add: relay_inv_def)
  have ids: "map dq_id (ob_dlq db) = map dq_id (ob_dlq (rw_db w))"
    unfolding db by (simp add: comp_def if_distrib cong: if_cong)
  then have ids_set: "dq_id ` set (ob_dlq db) = dq_id ` set (ob_dlq (rw_db w))"
    by (metis list.set_map)
  have "db_ok env (rw_uuids w) db"
    using ok fresh ids_set by (simp add: db_ok_def ids db(1))
  then have "db_ok env (Suc (rw_uuids w)) db" by (rule db_ok_mono) simp
  moreover have keep: "settled env delivered (rw_pub w) db c" if "settled env delivered (rw_pub w) (rw_db w) c" for c
    using that unfolding settled_def
  proof (elim disjE)
    assume "\<exists>r \<in> set (ob_dlq (rw_db w)). dlq_content r = c \<and> dq_replayed r = None"
    then obtain r where r: "r \<in> set (ob_dlq (rw_db w))" "dlq_content r = c" "dq_replayed r = None" by blast
    show "(\<exists>b. re_to_vec env (fst (snd (snd c))) = Inr b \<and> (fst (snd c), b) \<in> delivered (rw_pub w)) \<or>
        (\<exists>e \<in> set (ob_events db). event_content e = c \<and> is_unpublished e) \<or>
        (\<exists>r \<in> set (ob_dlq db). dlq_content r = c \<and> dq_replayed r = None)"
    proof (cases "dq_id r = dlq_id")
      case True
      with r(1) row(1,2) ok have "r = row" by (auto simp: db_ok_def distinct_map dest: inj_onD)
      with r(2) show ?thesis by (auto simp: db(1) event_content_def dlq_content_def is_unpublished_def)
    next
      case False
      with r have "r \<in> set (ob_dlq db)" by (force simp: db(2))
      with r show ?thesis by blast
    qed
  qed (auto simp: db(1))
  moreover have "settled env delivered (rw_pub w) db
      (dq_org row, dq_subject row, dq_payload row, dq_key row)"
    by (simp add: settled_def db(1) event_content_def is_unpublished_def)
  ultimately show ?thesis using inv by (auto simp: relay_inv_def db(1) event_content_def)
qed

lemma relay_inv_init: "relay_init w \<Longrightarrow> relay_inv env delivered w"
  by (simp add: relay_init_def relay_inv_def db_ok_def)

context event_publisher
begin

lemma relay_step_inv:
  assumes env: "relay_env_ok N env" and inv: "relay_inv env delivered w"
    and st: "relay_step env publish w w'" and N: "rw_uuids w' \<le> N"
  shows "relay_inv env delivered w' \<and>
    event_content ` set (ob_events (rw_db w)) \<subseteq> event_content ` set (ob_events (rw_db w'))"
  using st
proof cases
  case (step_insert s envelope db i)
  then obtain e where e: "insert_outbox_row s e (rw_db w) = Inr db" "is_unpublished e"
    by (auto simp: insert_event_def Let_def result_simps is_unpublished_def)
  from insert_row_inv [OF inv e] insert_row_Inr(1) [OF e(1)] step_insert(1) show ?thesis by auto
next
  case (step_tick now locked batch_size r)
  from relay_once_inv [OF env inv step_tick N] show ?thesis by (metis list.set_map order_refl)
next
  case (step_crash k m calls)
  then show ?thesis
    using relay_inv_rollback [OF inv, of w'] calls_delivered [of "rw_pub w" calls] by simp
next
  case (step_replay now dlq_id db i)
  have "\<exists>x. ob_events db = ob_events (rw_db w) @ [x]" by (rule replay_Inr [OF step_replay(2)]) simp
  with replay_inv [OF inv step_replay(2)] step_replay(1) show ?thesis by auto
qed

lemma relay_step_uuids: "relay_step env publish w w' \<Longrightarrow> rw_uuids w \<le> rw_uuids w'"
  by (induction rule: relay_step.induct) (auto dest: relay_once_uuids)

text \<open>
  As long as the UUIDs drawn are pairwise different the invariant holds in every reachable
  state: the relay is a transition system.
\<close>

lemma relay_transition_system:
  assumes "relay_env_ok N env"
  shows "transition_system relay_init (relay_step env publish)
    (\<lambda>w. rw_uuids w \<le> N \<longrightarrow> relay_inv env delivered w)"
proof
  fix w w' assume "rw_uuids w \<le> N \<longrightarrow> relay_inv env delivered w" "relay_step env publish w w'"
  with relay_step_inv [OF assms, of w w'] relay_step_uuids [of env w w']
  show "rw_uuids w' \<le> N \<longrightarrow> relay_inv env delivered w'" by auto
qed (simp add: relay_inv_init)

lemma contents_kept:
  assumes "relay_env_ok N env" and "(relay_step env publish)\<^sup>*\<^sup>* w w'"
    and "rw_uuids w \<le> N \<longrightarrow> relay_inv env delivered w" and "rw_uuids w' \<le> N"
  shows "event_content ` set (ob_events (rw_db w)) \<subseteq> event_content ` set (ob_events (rw_db w')) \<and>
    relay_inv env delivered w'"
  using assms(2-)
proof (induction rule: rtranclp_induct)
  case (step v u)
  from relay_step_uuids [OF step(2)] step(5) have "rw_uuids v \<le> N" by simp
  with step relay_step_inv [OF assms(1) _ step(2)] show ?case by blast
qed simp

end

text \<open>
  C4: At-least-once delivery. Take any publisher that keeps the contract of the trait, and
  any sequence of inserts by the services, relay ticks with any batch size and any rows locked
  by other relays, relay transactions cut off at any point before their commit, and replays of
  dead letters. An event that was in the outbox at any time is, at every later time, delivered
  to the publisher, or present in the outbox as unpublished, or present in the dead-letter
  table waiting for a replay, with its organisation, subject, payload and idempotency key. The
  UUIDs drawn meanwhile are assumed to be different.
\<close>

theorem no_event_lost:
  assumes "event_publisher publish delivered" and "relay_env_ok N env" and "relay_init w0"
    and "(relay_step env publish)\<^sup>*\<^sup>* w0 w" and "e \<in> set (ob_events (rw_db w))"
    and "(relay_step env publish)\<^sup>*\<^sup>* w w'" and "rw_uuids w' \<le> N"
  shows "settled env delivered (rw_pub w') (rw_db w') (event_content e)"
proof -
  have "rw_uuids w \<le> N \<longrightarrow> relay_inv env delivered w"
    using transition_system.reachable_inv
      [OF event_publisher.relay_transition_system [OF assms(1,2)] assms(3,4)] .
  from event_publisher.contents_kept [OF assms(1,2,6) this assms(7)] assms(5) show ?thesis
    by (auto simp: relay_inv_def)
qed

section \<open>Forced failures and replays\<close>

lemma memory_attempts:
  "publish_attempts memory_publish s b n er p =
     (if n \<le> unat (mp_fail_times p)
      then (p\<lparr>mp_fail_times := mp_fail_times p - of_nat n\<rparr>,
            if n = 0 then er else Some ''forced publish failure'', False)
      else (p\<lparr>mp_fail_times := 0, mp_deliveries := mp_deliveries p @ [(s, b)]\<rparr>, None, True))"
proof (induction n arbitrary: er p)
  case (Suc n)
  show ?case
  proof (cases "mp_fail_times p = 0")
    case False
    then have "unat (mp_fail_times p - 1) = unat (mp_fail_times p) - 1" "0 < unat (mp_fail_times p)"
      by (simp_all add: unat_minus_one unat_gt_0)
    moreover have "memory_publish p s b =
        (p\<lparr>mp_fail_times := mp_fail_times p - 1\<rparr>, Inl ''forced publish failure'')"
      using False by (simp add: memory_publish_def word_neq_0_conv)
    ultimately show ?thesis by (auto simp: Suc algebra_simps)
  next
    case True
    then have "memory_publish p s b = (p\<lparr>mp_deliveries := mp_deliveries p @ [(s, b)]\<rparr>, Inr ())"
      by (simp add: memory_publish_def)
    with True show ?thesis by simp
  qed
qed simp

definition delivery :: "(json \<Rightarrow> string) \<Rightarrow> outbox_event \<Rightarrow> string \<times> string" where
  "delivery vec e = (oe_subject e, vec (oe_payload e))"

lemma memory_publish_event:
  assumes "inj_on (re_gen_uuid env) {..<N}" and "rw_uuids w < N" and "db_ok env (rw_uuids w) (rw_db w)"
    and "publish_event env memory_publish now 3 e b w = (w', k)"
  shows "if 3 \<le> unat (mp_fail_times (rw_pub w))
    then k = 0 \<and> unat (mp_fail_times (rw_pub w')) = unat (mp_fail_times (rw_pub w)) - 3 \<and>
      mp_deliveries (rw_pub w') = mp_deliveries (rw_pub w) \<and>
      (\<exists>r. ob_dlq (rw_db w') = ob_dlq (rw_db w) @ [r] \<and> dq_outbox r = oe_id e \<and> dlq_content r = event_content e)
    else k = 1 \<and> mp_fail_times (rw_pub w') = 0 \<and>
      mp_deliveries (rw_pub w') = mp_deliveries (rw_pub w) @ [(oe_subject e, b)] \<and>
      ob_dlq (rw_db w') = ob_dlq (rw_db w)"
proof -
  have "unat (mp_fail_times (rw_pub w) - 3) = unat (mp_fail_times (rw_pub w)) - 3"
    if "3 \<le> unat (mp_fail_times (rw_pub w))"
    using that unat_sub [of 3 "mp_fail_times (rw_pub w)"] by (simp add: word_le_nat_alt)
  with assms(4) show ?thesis
    by (auto simp: publish_event_def memory_attempts move_to_dlq_dlq [OF assms(1-3)]
        mark_published_tx_events dlq_content_def event_content_def)
qed

lemma publish_event_db_ok:
  assumes "inj_on (re_gen_uuid env) {..<N}" and "rw_uuids w < N" and "db_ok env (rw_uuids w) (rw_db w)"
    and "publish_event env publish now n e b w = (w', k)"
  shows "db_ok env (rw_uuids w') (rw_db w')" and "rw_uuids w' \<le> Suc (rw_uuids w)"
  using assms(4)
  by (rule publish_event_cases;
    use assms(1-3) in \<open>simp_all add: db_ok_mark mark_published_tx_events db_ok_move_to_dlq\<close>)+

lemma memory_publish_loop:
  assumes inj: "inj_on (re_gen_uuid env) {..<N}" and vec: "\<And>j. re_to_vec env j = Inr (vec j)"
    and "db_ok env (rw_uuids w) (rw_db w)" and "rw_uuids w + length es \<le> N"
    and "f = unat (mp_fail_times (rw_pub w)) div 3"
  shows "\<exists>w' rs. publish_loop env memory_publish now 3 es k w = (w', Inr (k + (length es - f))) \<and>
    mp_deliveries (rw_pub w') = mp_deliveries (rw_pub w) @ map (delivery vec) (drop f es) \<and>
    ob_dlq (rw_db w') = ob_dlq (rw_db w) @ rs \<and>
    map (\<lambda>r. (dq_outbox r, dlq_content r)) rs = map (\<lambda>e. (oe_id e, event_content e)) (take f es)"
  using assms(3-)
proof (induction es arbitrary: k w f)
  case (Cons e es)
  obtain w1 i where w1: "publish_event env memory_publish now 3 e (vec (oe_payload e)) w = (w1, i)"
    by fastforce
  have less: "rw_uuids w < N" using Cons.prems(2) by simp
  note one = memory_publish_event [OF inj less Cons.prems(1) w1]
  note ok = publish_event_db_ok [OF inj less Cons.prems(1) w1]
  have fit: "rw_uuids w1 + length es \<le> N" using ok(2) Cons.prems(2) by simp
  show ?case
  proof (cases "3 \<le> unat (mp_fail_times (rw_pub w))")
    case True
    then have f: "f = Suc (unat (mp_fail_times (rw_pub w1)) div 3)"
      using one Cons.prems(3) by (simp add: le_div_geq)
    from Cons.IH [OF ok(1) fit refl, of "k + i"] one True show ?thesis
      unfolding f by (auto simp: vec w1)
  next
    case False
    then have f: "f = 0" using Cons.prems(3) by simp
    from Cons.IH [OF ok(1) fit refl, of "k + i"] one False show ?thesis
      unfolding f by (auto simp: vec w1 delivery_def)
  qed
qed simp

text \<open>
  What one tick does with the in-memory publisher when \<open>set_fail_times f\<close> makes the next
  \<open>f\<close> calls fail: each event is tried three times, so the \<open>f div 3\<close> oldest events of the
  batch go to the dead-letter table with their content, the events after them are delivered in
  order of creation exactly once, and the returned count is the number of deliveries. A failing
  event never holds back those behind it.
\<close>

theorem relay_forced_failures:
  assumes "relay_env_ok N env" and "\<And>j. re_to_vec env j = Inr (vec j)"
    and "db_ok env (rw_uuids w) (rw_db w)" and "rw_uuids w + length batch \<le> N"
    and claim: "claim_unpublished env locked limit (rw_db w) = Inr batch"
    and once: "relay_once env memory_publish now locked limit
      (w\<lparr>rw_pub := set_fail_times f (rw_pub w)\<rparr>) = (w', r)"
  shows "r = Inr (length batch - unat f div 3) \<and>
    mp_deliveries (rw_pub w') = mp_deliveries (rw_pub w) @ map (delivery vec) (drop (unat f div 3) batch) \<and>
    sorted_wrt (\<lambda>a b. oe_created a \<le> oe_created b) batch \<and>
    (\<exists>rs. ob_dlq (rw_db w') = ob_dlq (rw_db w) @ rs \<and>
      map (\<lambda>d. (dq_outbox d, dlq_content d)) rs = map (\<lambda>e. (oe_id e, event_content e)) (take (unat f div 3) batch))"
proof -
  let ?w = "w\<lparr>rw_pub := set_fail_times f (rw_pub w)\<rparr>"
  have inj: "inj_on (re_gen_uuid env) {..<N}" and scan: "\<And>xs. mset (re_scan env xs) = mset xs"
    using assms(1) by (auto simp: relay_env_ok_def)
  have srt: "sorted_wrt (\<lambda>a b. oe_created a \<le> oe_created b) batch"
    by (rule oldest_first_Inr(3) [OF claim [unfolded claim_unpublished_eq] scan])
  obtain w1 rs where l: "publish_loop env memory_publish now 3 batch 0 ?w =
      (w1, Inr (length batch - unat f div 3))"
    and d: "mp_deliveries (rw_pub w1) = mp_deliveries (rw_pub w) @ map (delivery vec) (drop (unat f div 3) batch)"
    and q: "ob_dlq (rw_db w1) = ob_dlq (rw_db w) @ rs"
      "map (\<lambda>r. (dq_outbox r, dlq_content r)) rs = map (\<lambda>e. (oe_id e, event_content e)) (take (unat f div 3) batch)"
    using memory_publish_loop [OF inj assms(2), of ?w batch "unat f div 3" now 0] assms(3,4)
    by (auto simp: set_fail_times_def)
  have "r = Inr (length batch - unat f div 3) \<and> mp_deliveries (rw_pub w') = mp_deliveries (rw_pub w1) \<and>
      ob_dlq (rw_db w') = ob_dlq (rw_db w1)"
  proof (cases batch)
    case Nil
    with once claim l show ?thesis
      by (auto simp: relay_once_def publish_batch_def set_fail_times_def)
  next
    case (Cons e es)
    with once claim l show ?thesis
      by (auto simp: relay_once_def publish_batch_def simp del: publish_loop.simps)
  qed
  with d q srt show ?thesis by auto
qed

lemma find_unique:
  assumes "distinct (map f xs)" and "x \<in> set xs"
  shows "find (\<lambda>y. f y = f x) xs = Some x"
  using assms by (induction xs) (auto simp: image_iff)

text \<open>The rows that a replay of dead letters adds, and the dead letters after it.\<close>

definition replayed_event :: "uuid \<Rightarrow> int \<Rightarrow> dlq_row \<Rightarrow> outbox_event" where
  "replayed_event i now r = \<lparr>oe_id = i, oe_org = dq_org r, oe_subject = dq_subject r,
     oe_payload = dq_payload r, oe_key = dq_key r, oe_created = now, oe_published = None\<rparr>"

definition mark_replayed :: "int \<Rightarrow> uuid list \<Rightarrow> dlq_row list \<Rightarrow> dlq_row list" where
  "mark_replayed now ids rs = map (\<lambda>r. if dq_id r \<in> set ids then r\<lparr>dq_replayed := Some now\<rparr> else r) rs"

lemma replay_dlq_row_ok:
  assumes "distinct (map dq_id (ob_dlq db))" and "r \<in> set (ob_dlq db)" and "dq_replayed r = None"
    and "new_id \<notin> oe_id ` set (ob_events db)"
  shows "replay_dlq_row env new_id now (dq_id r) db =
    Inr (\<lparr>ob_events = ob_events db @ [replayed_event new_id now r],
          ob_dlq = mark_replayed now [dq_id r] (ob_dlq db)\<rparr>, new_id)"
proof -
  have "\<not> list_ex (\<lambda>x. oe_id x = new_id) (ob_events db)" using assms(4) by (auto simp: list_ex_iff)
  then show ?thesis
    using find_unique [OF assms(1,2)] assms(3)
    by (simp add: replay_dlq_row_def insert_outbox_row_def replayed_event_def mark_replayed_def)
qed

lemma mark_replayed_ids [simp]: "map dq_id (mark_replayed now is rs) = map dq_id rs"
  by (simp add: mark_replayed_def comp_def if_distrib cong: if_cong)

lemma mark_replayed_twice: "mark_replayed now js (mark_replayed now is rs) = mark_replayed now (is @ js) rs"
  by (auto simp: mark_replayed_def)

lemma replay_rows_ok:
  assumes "inj_on (re_gen_uuid env) {..<N}" and "distinct (map dq_id (ob_dlq (rw_db w)))"
    and "distinct (map dq_id rows)" and "\<And>r. r \<in> set rows \<Longrightarrow> r \<in> set (ob_dlq (rw_db w)) \<and> dq_replayed r = None"
    and "\<And>i. rw_uuids w \<le> i \<Longrightarrow> i < N \<Longrightarrow> re_gen_uuid env i \<notin> oe_id ` set (ob_events (rw_db w))"
    and "rw_uuids w + length rows \<le> N"
  shows "rw_db (replay_rows env now rows w) =
    \<lparr>ob_events = ob_events (rw_db w) @
       map (\<lambda>(i, r). replayed_event (re_gen_uuid env i) now r) (enumerate (rw_uuids w) rows),
     ob_dlq = mark_replayed now (map dq_id rows) (ob_dlq (rw_db w))\<rparr>"
  using assms(2-)
proof (induction rows arbitrary: w)
  case Nil
  then show ?case by (simp add: mark_replayed_def)
next
  case (Cons r rs)
  let ?i = "re_gen_uuid env (rw_uuids w)"
  let ?w = "w\<lparr>rw_uuids := Suc (rw_uuids w), rw_db :=
    \<lparr>ob_events = ob_events (rw_db w) @ [replayed_event ?i now r],
     ob_dlq = mark_replayed now [dq_id r] (ob_dlq (rw_db w))\<rparr>\<rparr>"
  have r: "r \<in> set (ob_dlq (rw_db w))" "dq_replayed r = None" using Cons.prems(3) by simp_all
  have "replay_rows env now (r # rs) w = replay_rows env now rs ?w"
    using replay_dlq_row_ok [OF Cons.prems(1) r Cons.prems(4) [of "rw_uuids w"], of env now] Cons.prems(5)
    by (simp add: Let_def)
  moreover have "rw_db (replay_rows env now rs ?w) =
    \<lparr>ob_events = ob_events (rw_db ?w) @
       map (\<lambda>(i, r). replayed_event (re_gen_uuid env i) now r) (enumerate (rw_uuids ?w) rs),
     ob_dlq = mark_replayed now (map dq_id rs) (ob_dlq (rw_db ?w))\<rparr>"
  proof (rule Cons.IH)
    show "distinct (map dq_id (ob_dlq (rw_db ?w)))" "distinct (map dq_id rs)"
      using Cons.prems(1,2) by simp_all
    fix x assume x: "x \<in> set rs"
    with Cons.prems(2) have "dq_id x \<noteq> dq_id r" by (metis distinct.simps(2) image_eqI list.set_map list.simps(9))
    with x Cons.prems(3) [of x] show "x \<in> set (ob_dlq (rw_db ?w)) \<and> dq_replayed x = None"
      by (force simp: mark_replayed_def)
  next
    fix i assume i: "rw_uuids ?w \<le> i" "i < N"
    with assms(1) have "re_gen_uuid env i \<noteq> ?i" by (auto dest: inj_onD)
    with i Cons.prems(4) [of i] show "re_gen_uuid env i \<notin> oe_id ` set (ob_events (rw_db ?w))"
      by (auto simp: replayed_event_def)
  next
    show "rw_uuids ?w + length rs \<le> N" using Cons.prems(5) by simp
  qed
  ultimately show ?case by (simp add: mark_replayed_twice)
qed

lemma distinct_map_mset:
  assumes "mset xs = mset (filter P ys)" and "distinct (map f ys)"
  shows "distinct (map f xs)"
  using distinct_map_take [OF assms, of "length xs"] by simp

text \<open>
  \<open>replay --all\<close> with at most ten thousand waiting dead letters replays each of them
  exactly once: the outbox gains one unpublished row per waiting dead letter, with its
  organisation, subject, payload and key, oldest first, and no dead letter is left waiting. Replaying one
  of them again is an error that changes nothing.
\<close>

theorem replay_all_exact:
  assumes env: "relay_env_ok N env" and ok: "db_ok env (rw_uuids w) (rw_db w)"
    and fresh: "\<And>i. rw_uuids w \<le> i \<Longrightarrow> i < N \<Longrightarrow> re_gen_uuid env i \<notin> oe_id ` set (ob_events (rw_db w))"
    and few: "length (filter (\<lambda>r. dq_replayed r = None) (ob_dlq (rw_db w))) \<le> 10000"
    and room: "rw_uuids w + length (filter (\<lambda>r. dq_replayed r = None) (ob_dlq (rw_db w))) \<le> N"
  shows "\<exists>w' rows. run_replay env now True None w = (w', Inr ()) \<and>
    mset rows = mset (filter (\<lambda>r. dq_replayed r = None) (ob_dlq (rw_db w))) \<and>
    sorted_wrt (\<lambda>a b. dq_created a \<le> dq_created b) rows \<and>
    ob_events (rw_db w') = ob_events (rw_db w) @
      map (\<lambda>(i, r). replayed_event (re_gen_uuid env i) now r) (enumerate (rw_uuids w) rows) \<and>
    (\<forall>r. r \<in> set (ob_dlq (rw_db w')) \<longrightarrow> dq_replayed r \<noteq> None \<and>
       replay_dlq_row env n now (dq_id r) (rw_db w') =
         Inl (Relay (''dlq row '' @ re_show_uuid env (dq_id r) @ '' already replayed'')))"
proof -
  let ?wait = "filter (\<lambda>r. dq_replayed r = None) (ob_dlq (rw_db w))"
  define rows where "rows = sort_by (\<lambda>a b. dq_created a \<le> dq_created b) (re_scan_dlq env ?wait)"
  have m: "mset rows = mset ?wait" using env by (simp add: rows_def relay_env_ok_def)
  have srt: "sorted_wrt (\<lambda>a b. dq_created a \<le> dq_created b) rows"
    unfolding rows_def by (rule sorted_sort_by) (auto simp: transp_def)
  have inj: "inj_on (re_gen_uuid env) {..<N}" using env by (simp add: relay_env_ok_def)
  have dist: "distinct (map dq_id (ob_dlq (rw_db w)))" using ok by (simp add: db_ok_def)
  have "length rows \<le> 10000" using few mset_eq_length [OF m] by simp
  then have l: "list_unreplayed_dlq env 10000 (rw_db w) = Inr rows"
    by (simp add: list_unreplayed_dlq_def rows_def)
  have in_rows: "r \<in> set rows \<longleftrightarrow> r \<in> set (ob_dlq (rw_db w)) \<and> dq_replayed r = None" for r
    using mset_eq_setD [OF m] by auto
  let ?w = "replay_rows env now rows w"
  have db: "rw_db ?w = \<lparr>ob_events = ob_events (rw_db w) @
       map (\<lambda>(i, r). replayed_event (re_gen_uuid env i) now r) (enumerate (rw_uuids w) rows),
     ob_dlq = mark_replayed now (map dq_id rows) (ob_dlq (rw_db w))\<rparr>"
    by (rule replay_rows_ok [OF inj dist distinct_map_mset [OF m dist] _ fresh])
      (use room mset_eq_length [OF m] in \<open>simp_all add: in_rows\<close>)
  have dn: "dq_replayed r \<noteq> None" if "r \<in> set (ob_dlq (rw_db ?w))" for r
    using that by (auto simp: db mark_replayed_def in_rows split: if_splits)
  have "replay_dlq_row env n now (dq_id r) (rw_db ?w) =
      Inl (Relay (''dlq row '' @ re_show_uuid env (dq_id r) @ '' already replayed''))"
    if r: "r \<in> set (ob_dlq (rw_db ?w))" for r
  proof -
    have "distinct (map dq_id (ob_dlq (rw_db ?w)))" using dist by (simp add: db)
    from find_unique [OF this r] dn [OF r] show ?thesis by (simp add: replay_dlq_row_def)
  qed
  with dn have "\<forall>r. r \<in> set (ob_dlq (rw_db ?w)) \<longrightarrow> dq_replayed r \<noteq> None \<and>
       replay_dlq_row env n now (dq_id r) (rw_db ?w) =
         Inl (Relay (''dlq row '' @ re_show_uuid env (dq_id r) @ '' already replayed''))" by blast
  moreover have "run_replay env now True None w = (?w, Inr ())" by (simp add: run_replay_def l)
  ultimately show ?thesis using m srt db by (intro exI [of _ ?w] exI [of _ rows]) simp
qed

section \<open>Concrete instances\<close>

definition demo_relay_env :: relay_env where
  "demo_relay_env = \<lparr>re_show_uuid = (\<lambda>u. ''0190''), re_show_time = (\<lambda>t. ''t''), re_gen_uuid = of_nat,
     re_to_vec = (\<lambda>j. Inr (case j of JStr s \<Rightarrow> s | _ \<Rightarrow> ''json'')), re_scan = (\<lambda>es. es),
     re_scan_dlq = (\<lambda>rs. rs)\<rparr>"

definition demo_event :: "uuid \<Rightarrow> int \<Rightarrow> outbox_event" where
  "demo_event i t = \<lparr>oe_id = i, oe_org = 1, oe_subject = ''s'', oe_payload = JStr ''x'', oe_key = ''k'',
     oe_created = t, oe_published = None\<rparr>"

definition demo_dead :: "uuid \<Rightarrow> int option \<Rightarrow> dlq_row" where
  "demo_dead i rep = \<lparr>dq_id = i, dq_outbox = 50, dq_org = 1, dq_subject = ''s'', dq_payload = JStr ''x'',
     dq_key = ''k'', dq_error = ''e'', dq_attempts = 1, dq_created = 3, dq_replayed = rep\<rparr>"

definition demo_world :: "outbox_event list \<Rightarrow> dlq_row list \<Rightarrow> memory_publisher relay_world" where
  "demo_world es rs = \<lparr>rw_db = \<lparr>ob_events = es, ob_dlq = rs\<rparr>, rw_uuids = 2, rw_pub = memory_new,
     rw_metrics = \<lparr>rm_published = 0, rm_dlq = 0, rm_lag = 0, rm_batches = 0\<rparr>\<rparr>"

lemmas demo_relay_defs = demo_relay_env_def demo_event_def demo_dead_def demo_world_def

lemma demo_uuid: "z < 1000 \<Longrightarrow> unat (of_nat z :: uuid) = z"
  by (rule of_nat_inverse [OF refl]) simp

lemma demo_relay_env_ok: "relay_env_ok 1000 demo_relay_env"
proof -
  have "inj_on (of_nat :: nat \<Rightarrow> uuid) {..<1000}"
    by (intro inj_onI) (metis demo_uuid lessThan_iff)
  then show ?thesis by (simp add: relay_env_ok_def demo_relay_env_def)
qed

lemma demo_claim:
  "claim_unpublished demo_relay_env unlocked 10 (rw_db (demo_world [demo_event 100 7, demo_event 101 5] [])) =
     Inr [demo_event 101 5, demo_event 100 7]"
  by (simp add: claim_unpublished_eq oldest_first_def demo_relay_defs is_unpublished_def sort_by_def)

theorem relay_drains_witness:
  "unpublished_lag (rw_db (run_relay_loop demo_relay_env memory_publish (\<lambda>_. 9) (\<lambda>_. unlocked) 1 1
     (demo_world [demo_event 100 7, demo_event 101 5] []))) = 1"
proof -
  have "is_ok (re_to_vec demo_relay_env j)" for j by (simp add: demo_relay_env_def)
  then show ?thesis
    using relay_drains [OF demo_relay_env_ok, of 1 "demo_world [demo_event 100 7, demo_event 101 5] []"
        memory_publish "\<lambda>_. 9" 1]
    by (simp add: demo_world_def demo_event_def unpublished_lag_eq is_unpublished_def)
qed

definition demo_envelope :: event_envelope where
  "demo_envelope = envelope_new 100 7 (\<lambda>u. ''0190'') 1 Core ''hello'' ''created'' 1 (actor_human 3) JNull"

definition demo_row :: outbox_event where
  "demo_row = \<lparr>oe_id = 100, oe_org = 1, oe_subject = ev_subject demo_envelope,
     oe_payload = envelope_to_value (\<lambda>u. ''0190'') (\<lambda>t. ''t'') demo_envelope, oe_key = ''0190'',
     oe_created = 7, oe_published = None\<rparr>"

lemma demo_insert:
  "relay_step demo_relay_env memory_publish (demo_world [] []) (demo_world [demo_row] [])"
proof -
  have "insert_event demo_relay_env \<lparr>app_org = Some 1, app_outbox_relay = False\<rparr> demo_envelope
      (rw_db (demo_world [] [])) = Inr (\<lparr>ob_events = [demo_row], ob_dlq = []\<rparr>, 100)"
    by (simp add: insert_event_def insert_outbox_row_def rls_visible_def demo_row_def demo_world_def
        demo_relay_env_def demo_envelope_def envelope_new_def)
  from step_insert [OF this, of memory_publish] show ?thesis by (simp add: demo_world_def)
qed

lemma demo_tick:
  "relay_once demo_relay_env memory_publish 9 unlocked 10 (demo_world [demo_row] []) =
     (\<lparr>rw_db = \<lparr>ob_events = [demo_row\<lparr>oe_published := Some 9\<rparr>], ob_dlq = []\<rparr>, rw_uuids = 2,
       rw_pub = \<lparr>mp_deliveries = [(oe_subject demo_row, ''json'')], mp_fail_times = 0\<rparr>,
       rw_metrics = \<lparr>rm_published = 1, rm_dlq = 0, rm_lag = 0, rm_batches = 1\<rparr>\<rparr>, Inr 1)"
  by (simp add: relay_once_def publish_batch_def claim_unpublished_eq oldest_first_def demo_world_def
      demo_relay_env_def demo_row_def is_unpublished_def sort_by_def publish_event_def memory_attempts
      memory_new_def mark_published_tx_def mark_published_def unpublished_lag_eq envelope_to_value_def
      json_object_def)

theorem no_event_lost_witness:
  "settled demo_relay_env (\<lambda>p. set (mp_deliveries p))
     (rw_pub (fst (relay_once demo_relay_env memory_publish 9 unlocked 10 (demo_world [demo_row] []))))
     (rw_db (fst (relay_once demo_relay_env memory_publish 9 unlocked 10 (demo_world [demo_row] []))))
     (event_content demo_row)"
proof (rule no_event_lost [OF memory.event_publisher_axioms demo_relay_env_ok])
  show "relay_init (demo_world [] [])" by (simp add: relay_init_def demo_world_def)
  show "(relay_step demo_relay_env memory_publish)\<^sup>*\<^sup>* (demo_world [] []) (demo_world [demo_row] [])"
    using demo_insert by blast
  show "demo_row \<in> set (ob_events (rw_db (demo_world [demo_row] [])))" by (simp add: demo_world_def)
  have "relay_step demo_relay_env memory_publish (demo_world [demo_row] [])
      (fst (relay_once demo_relay_env memory_publish 9 unlocked 10 (demo_world [demo_row] [])))"
    by (rule step_tick) (rule prod.collapse [symmetric])
  then show "(relay_step demo_relay_env memory_publish)\<^sup>*\<^sup>* (demo_world [demo_row] [])
      (fst (relay_once demo_relay_env memory_publish 9 unlocked 10 (demo_world [demo_row] [])))" by blast
  show "rw_uuids (fst (relay_once demo_relay_env memory_publish 9 unlocked 10 (demo_world [demo_row] []))) \<le> 1000"
    by (simp add: demo_tick)
qed

theorem relay_forced_failures_witness:
  "mp_deliveries (rw_pub (fst (relay_once demo_relay_env memory_publish 9 unlocked 10
     ((demo_world [demo_event 100 7, demo_event 101 5] [])\<lparr>rw_pub := set_fail_times 4 memory_new\<rparr>)))) =
   [(''s'', ''x'')]"
proof -
  let ?w = "demo_world [demo_event 100 7, demo_event 101 5] []"
  let ?vec = "\<lambda>j. case j of JStr s \<Rightarrow> s | _ \<Rightarrow> ''json''"
  have vec: "re_to_vec demo_relay_env j = Inr (?vec j)" for j by (simp add: demo_relay_env_def)
  have ok: "db_ok demo_relay_env (rw_uuids ?w) (rw_db ?w)"
    by (simp add: db_ok_def demo_world_def demo_event_def)
  have len: "rw_uuids ?w + length [demo_event 101 5, demo_event 100 7] \<le> 1000" by (simp add: demo_world_def)
  let ?r = "relay_once demo_relay_env memory_publish 9 unlocked 10
    (?w\<lparr>rw_pub := set_fail_times 4 (rw_pub ?w)\<rparr>)"
  have "?r = (fst ?r, snd ?r)" by simp
  from relay_forced_failures [OF demo_relay_env_ok vec ok len demo_claim this]
  show ?thesis by (simp add: demo_world_def memory_new_def delivery_def demo_event_def)
qed

theorem replay_all_exact_witness:
  "length (ob_events (rw_db (fst (run_replay demo_relay_env 9 True None
     (demo_world [demo_event 5000 7] [demo_dead 0 None, demo_dead 1 (Some 4)]))))) = 2"
proof -
  let ?w = "demo_world [demo_event 5000 7] [demo_dead 0 None, demo_dead 1 (Some 4)]"
  have w: "rw_uuids ?w = 2" "ob_events (rw_db ?w) = [demo_event 5000 7]"
    "filter (\<lambda>r. dq_replayed r = None) (ob_dlq (rw_db ?w)) = [demo_dead 0 None]"
    by (simp_all add: demo_world_def demo_dead_def)
  have ok: "db_ok demo_relay_env (rw_uuids ?w) (rw_db ?w)"
    by (simp add: db_ok_def demo_relay_defs numeral_2_eq_2 lessThan_Suc)
  have fresh: "re_gen_uuid demo_relay_env i \<notin> oe_id ` set (ob_events (rw_db ?w))"
    if "i < 1000" for i
  proof
    assume "re_gen_uuid demo_relay_env i \<in> oe_id ` set (ob_events (rw_db ?w))"
    then have "of_nat i = (5000 :: uuid)" by (simp add: demo_relay_defs)
    with demo_uuid [OF that] have "unat (5000 :: uuid) < 1000" using that by simp
    then show False by simp
  qed
  from replay_all_exact [OF demo_relay_env_ok ok fresh, of 9 0]
  obtain w' rows where r: "run_replay demo_relay_env 9 True None ?w = (w', Inr ())"
    and m: "mset rows = mset [demo_dead 0 None]"
    and e: "ob_events (rw_db w') = [demo_event 5000 7] @
      map (\<lambda>(i, r). replayed_event (re_gen_uuid demo_relay_env i) 9 r) (enumerate 2 rows)"
    unfolding w by auto
  from mset_eq_length [OF m] show ?thesis by (simp add: r e)
qed

end
