(* ===== verification/Stock.thy ===== *)
theory Stock
  imports Money Errors Outbox "HOL-Library.AList"
begin

text \<open>
  The stock ledger of the inventory service: weighted-average valuation
  (\<open>valuation.rs\<close>), posting of movements, the stock-level cache and its reconciliation
  (\<open>stock.rs\<close>), and the transaction of the movement handler (\<open>handlers/movements.rs\<close>).

  Quantities and amounts are 64-bit integers. The tables are the fields of \<open>inventory_db\<close>,
  the outbox among them; a function of the caller's transaction takes and returns the tables,
  and \<open>Inl\<close> rolls the transaction back. The session is bound to the organisation, so the
  policies let through exactly the rows of that organisation. \<open>post_movement\<close> reads with
  plain queries and then writes: the two halves are \<open>plan_movement\<close> and \<open>commit_movement\<close>,
  because under \<open>READ COMMITTED\<close> another transaction may commit between them. Timestamps of
  the cache rows, which no code here reads, are left out.
\<close>

section \<open>Valuation\<close>

datatype valuation_error = InvalidQuantity | ValuationOverflow

definition weighted_average_receipt :: "int \<Rightarrow> int \<Rightarrow> int \<Rightarrow> int \<Rightarrow> valuation_error + int \<times> int" where
  "weighted_average_receipt on_hand_qty on_hand_avg_minor receipt_qty receipt_unit_cost_minor =
     (if receipt_qty \<le> 0 then Inl InvalidQuantity
      else and_then (ok_or ValuationOverflow (checked_add_i64 on_hand_qty receipt_qty)) (\<lambda>new_qty.
        if new_qty = 0 then Inr (0, on_hand_avg_minor)
        else let existing_value = on_hand_qty * on_hand_avg_minor;
                 receipt_value = receipt_qty * receipt_unit_cost_minor
             in and_then (ok_or ValuationOverflow (checked_i128 (existing_value + receipt_value))) (\<lambda>total_value.
                and_then (map_err (\<lambda>_. ValuationOverflow) (round_half_up total_value new_qty)) (\<lambda>new_avg.
                Inr (new_qty, new_avg)))))"

definition issue_cost_minor :: "int \<Rightarrow> int \<Rightarrow> valuation_error + int" where
  "issue_cost_minor qty avg_unit_cost_minor =
     (if qty \<le> 0 then Inl InvalidQuantity
      else ok_or ValuationOverflow (checked_mul_i64 qty avg_unit_cost_minor))"

definition straight_line_depreciation_minor ::
  "int \<Rightarrow> int \<Rightarrow> int \<Rightarrow> int \<Rightarrow> int \<Rightarrow> valuation_error + int" where
  "straight_line_depreciation_minor acquisition_cost_minor salvage_minor useful_life_months
     accumulated_depreciation_minor months_elapsed =
     (if useful_life_months \<le> 0 \<or> months_elapsed \<le> 0 then Inr 0
      else and_then (ok_or ValuationOverflow (checked_sub_i64 acquisition_cost_minor salvage_minor)) (\<lambda>base.
        let depreciable_base = max base 0 in
        and_then (map_err (\<lambda>_. ValuationOverflow) (round_half_up depreciable_base useful_life_months)) (\<lambda>monthly.
        and_then (ok_or ValuationOverflow (checked_mul_i64 monthly months_elapsed)) (\<lambda>raw.
        let remaining = max (case checked_sub_i64 depreciable_base accumulated_depreciation_minor of
                               Some r \<Rightarrow> r | None \<Rightarrow> 0) 0
        in Inr (min raw remaining)))))"

primrec valuation_error_text :: "valuation_error \<Rightarrow> string" where
  "valuation_error_text InvalidQuantity = ''quantity must be positive''"
| "valuation_error_text ValuationOverflow = ''arithmetic overflow in valuation calculation''"

section \<open>Tables\<close>

record warehouse_row =
  wh_id :: uuid
  wh_org :: uuid
  wh_deleted :: bool

record item_row =
  it_id :: uuid
  it_org :: uuid
  it_deleted :: bool
  it_currency :: string
  it_reorder_point_qty :: int
  it_allow_negative_stock :: bool
  it_is_active :: bool

record movement_row =
  mv_id :: uuid
  mv_org :: uuid
  mv_public_id :: string
  mv_warehouse :: uuid
  mv_item :: uuid
  mv_qty_delta :: int
  mv_unit_cost :: int
  mv_currency :: string
  mv_type :: string
  mv_source_type :: "string option"
  mv_source_id :: "uuid option"
  mv_key :: "string option"
  mv_memo :: "string option"
  mv_created_by :: uuid

record drift_alert =
  da_id :: uuid
  da_org :: uuid
  da_warehouse :: uuid
  da_item :: uuid
  da_cached_qty :: int
  da_movement_sum_qty :: int
  da_detected_at :: int

type_synonym stock_key = "uuid \<times> uuid \<times> uuid"

record inventory_db =
  iv_warehouses :: "warehouse_row list"
  iv_items :: "item_row list"
  iv_movements :: "movement_row list"
  iv_levels :: "(stock_key \<times> int \<times> int) list"
  iv_drift :: "drift_alert list"
  iv_outbox :: outbox_db
  iv_uuids :: nat

datatype stock_db_error = MovementUnique string | SumOutOfRange

text \<open>
  Parameters: generated UUIDs and readings of the clock, both numbered by use, the texts of
  UUIDs, times and errors, and the order in which a query without \<open>ORDER BY\<close> returns its rows.
\<close>

record stock_env =
  se_relay :: relay_env
  se_clock :: "nat \<Rightarrow> int"
  se_show_db_error :: "stock_db_error \<Rightarrow> string"
  se_show_outbox_error :: "outbox_error \<Rightarrow> string"
  se_pairs :: "(uuid \<times> uuid) list \<Rightarrow> (uuid \<times> uuid) list"

abbreviation stock_uuid :: "stock_env \<Rightarrow> inventory_db \<Rightarrow> uuid" where
  "stock_uuid env db \<equiv> re_gen_uuid (se_relay env) (iv_uuids db)"

definition stock_public_id :: "stock_env \<Rightarrow> id_kind \<Rightarrow> uuid \<Rightarrow> string" where
  "stock_public_id env kind u = public_id_as_str (re_show_uuid (se_relay env)) (public_id_new kind u)"

definition MOVEMENT_TYPES :: "string list" where
  "MOVEMENT_TYPES = [''receipt'', ''issue'', ''adjustment'', ''transfer_in'', ''transfer_out'', ''return'']"

definition INCREASING_TYPES :: "string list" where
  "INCREASING_TYPES = [''receipt'', ''return'', ''transfer_in'']"

definition DECREASING_TYPES :: "string list" where
  "DECREASING_TYPES = [''issue'', ''transfer_out'']"

record post_movement_input =
  pm_warehouse_id :: uuid
  pm_item_id :: uuid
  pm_qty_delta :: int
  pm_unit_cost_minor :: int
  pm_movement_type :: string
  pm_source_type :: "string option"
  pm_source_id :: "uuid option"
  pm_idempotency_key :: "string option"
  pm_memo :: "string option"
  pm_created_by :: uuid

record post_movement_outcome =
  po_movement_id :: uuid
  po_movement_public_id :: string
  po_currency :: string
  po_qty_on_hand :: int
  po_avg_unit_cost_minor :: int
  po_cogs_minor :: "int option"
  po_low_stock :: bool
  po_replayed :: bool

section \<open>Posting a movement\<close>

definition fetch_item_policy :: "inventory_db \<Rightarrow> uuid \<Rightarrow> uuid \<Rightarrow> string \<Rightarrow> app_error + item_row" where
  "fetch_item_policy db org item request_id =
     ok_or (app_error_new NotFound request_id ''item not found'')
       (find (\<lambda>r. it_org r = org \<and> it_id r = item \<and> \<not> it_deleted r) (iv_items db))"

definition fetch_warehouse_exists :: "inventory_db \<Rightarrow> uuid \<Rightarrow> uuid \<Rightarrow> string \<Rightarrow> app_error + unit" where
  "fetch_warehouse_exists db org warehouse request_id =
     (case find (\<lambda>r. wh_org r = org \<and> wh_id r = warehouse \<and> \<not> wh_deleted r) (iv_warehouses db) of
        None \<Rightarrow> Inl (app_error_new NotFound request_id ''warehouse not found'')
      | Some r \<Rightarrow> Inr ())"

definition fetch_stock_level :: "inventory_db \<Rightarrow> uuid \<Rightarrow> uuid \<Rightarrow> uuid \<Rightarrow> int \<times> int" where
  "fetch_stock_level db org warehouse item =
     (case map_of (iv_levels db) (org, warehouse, item) of Some l \<Rightarrow> l | None \<Rightarrow> (0, 0))"

definition fetch_existing_by_idem_key :: "inventory_db \<Rightarrow> uuid \<Rightarrow> string \<Rightarrow> movement_row option" where
  "fetch_existing_by_idem_key db org key = find (\<lambda>m. mv_org m = org \<and> mv_key m = Some key) (iv_movements db)"

text \<open>The checks on the input alone.\<close>

definition check_movement :: "post_movement_input \<Rightarrow> string \<Rightarrow> app_error + unit" where
  "check_movement input request_id =
     (let invalid = (\<lambda>d. Inl (app_error_new ValidationFailed request_id d)); t = pm_movement_type input in
      if t \<notin> set MOVEMENT_TYPES then
        invalid (''movement_type must be one of [\"receipt\", \"issue\", \"adjustment\", \"transfer_in\", \"transfer_out\", \"return\"]'')
      else if pm_qty_delta input = 0 then invalid ''qty_delta must be non-zero''
      else if t \<in> set INCREASING_TYPES \<and> pm_qty_delta input \<le> 0 then
        invalid (t @ '' requires a positive qty_delta'')
      else if t \<in> set DECREASING_TYPES \<and> pm_qty_delta input \<ge> 0 then
        invalid (t @ '' requires a negative qty_delta'')
      else Inr ())"

text \<open>The new quantity, average and cost of goods sold for a position.\<close>

definition value_movement ::
  "int \<times> int \<Rightarrow> int \<Rightarrow> int \<Rightarrow> string \<Rightarrow> app_error + int \<times> int \<times> int option" where
  "value_movement level qty_delta unit_cost_minor request_id =
     (let invalid = (\<lambda>e. app_error_new ValidationFailed request_id (valuation_error_text e));
          (qty_on_hand, avg_unit_cost_minor) = level
      in if qty_delta > 0 then
           and_then (map_err invalid
             (weighted_average_receipt qty_on_hand avg_unit_cost_minor qty_delta unit_cost_minor))
             (\<lambda>(q, a). Inr (q, a, None))
         else
           and_then (map_err invalid (issue_cost_minor (wrap_i64 \<bar>qty_delta\<bar>) avg_unit_cost_minor)) (\<lambda>cogs.
           and_then (ok_or (app_error_new Internal request_id ''qty overflow'')
             (checked_add_i64 qty_on_hand qty_delta)) (\<lambda>new_qty.
           Inr (new_qty, avg_unit_cost_minor, Some cogs))))"

datatype movement_plan = Replay post_movement_outcome | Post item_row int int "int option"

definition plan_movement ::
  "inventory_db \<Rightarrow> uuid \<Rightarrow> post_movement_input \<Rightarrow> string \<Rightarrow> app_error + movement_plan" where
  "plan_movement db org input request_id =
     and_then (check_movement input request_id) (\<lambda>_.
     case Option.bind (pm_idempotency_key input) (fetch_existing_by_idem_key db org) of
       Some existing \<Rightarrow>
         (let level = fetch_stock_level db org (mv_warehouse existing) (mv_item existing) in
          Inr (Replay \<lparr>po_movement_id = mv_id existing, po_movement_public_id = mv_public_id existing,
                po_currency = mv_currency existing, po_qty_on_hand = fst level,
                po_avg_unit_cost_minor = snd level, po_cogs_minor = None, po_low_stock = False,
                po_replayed = True\<rparr>))
     | None \<Rightarrow>
         and_then (fetch_warehouse_exists db org (pm_warehouse_id input) request_id) (\<lambda>_.
         and_then (fetch_item_policy db org (pm_item_id input) request_id) (\<lambda>item.
         if \<not> it_is_active item then Inl (app_error_new Conflict request_id ''item is not active'')
         else
           let level = fetch_stock_level db org (pm_warehouse_id input) (pm_item_id input) in
           and_then (value_movement level (pm_qty_delta input) (pm_unit_cost_minor input) request_id)
             (\<lambda>(new_qty, new_avg, cogs).
           if new_qty < 0 \<and> \<not> it_allow_negative_stock item then
             Inl (app_error_new Conflict request_id (''movement would drive stock negative ('' @
               show_int new_qty @ '') and item does not allow negative stock''))
           else Inr (Post item new_qty new_avg cogs)))))"

definition insert_movement :: "movement_row \<Rightarrow> inventory_db \<Rightarrow> stock_db_error + inventory_db" where
  "insert_movement m db =
     (if list_ex (\<lambda>r. mv_id r = mv_id m) (iv_movements db)
      then Inl (MovementUnique ''inventory_stock_movement_pkey'')
      else if list_ex (\<lambda>r. mv_org r = mv_org m \<and> mv_public_id r = mv_public_id m) (iv_movements db)
      then Inl (MovementUnique ''inventory_stock_movement_org_id_public_id_key'')
      else if mv_key m \<noteq> None \<and> list_ex (\<lambda>r. mv_org r = mv_org m \<and> mv_key r = mv_key m) (iv_movements db)
      then Inl (MovementUnique ''inventory_stock_movement_org_idem_idx'')
      else Inr (db\<lparr>iv_movements := iv_movements db @ [m]\<rparr>))"

definition upsert_level :: "stock_key \<Rightarrow> int \<Rightarrow> int \<Rightarrow> inventory_db \<Rightarrow> inventory_db" where
  "upsert_level key new_qty new_avg db = db\<lparr>iv_levels := AList.update key (new_qty, new_avg) (iv_levels db)\<rparr>"

text \<open>\<open>EventEnvelope::new\<close> followed by \<open>companyos_outbox::insert_event\<close>.\<close>

definition emit_stock_event ::
  "stock_env \<Rightarrow> uuid \<Rightarrow> actor \<Rightarrow> string \<Rightarrow> string \<Rightarrow> json \<Rightarrow> inventory_db \<Rightarrow> app_error + inventory_db" where
  "emit_stock_event env org act request_id event payload db =
     (let envelope = envelope_new (stock_uuid env db) (se_clock env (iv_uuids db))
            (re_show_uuid (se_relay env)) org Inventory ''stock'' event 1 act payload;
          s = \<lparr>app_org = Some org, app_outbox_relay = False\<rparr>
      in and_then (map_err (\<lambda>e. app_error_new Internal request_id (se_show_outbox_error env e))
           (insert_event (se_relay env) s envelope (iv_outbox db)))
         (\<lambda>(outbox, i). Inr (db\<lparr>iv_outbox := outbox, iv_uuids := Suc (iv_uuids db)\<rparr>)))"

definition commit_movement ::
  "stock_env \<Rightarrow> uuid \<Rightarrow> actor \<Rightarrow> post_movement_input \<Rightarrow> string \<Rightarrow> item_row \<Rightarrow> int \<Rightarrow> int \<Rightarrow> int option
     \<Rightarrow> inventory_db \<Rightarrow> app_error + inventory_db \<times> post_movement_outcome" where
  "commit_movement env org act input request_id item new_qty new_avg cogs db =
     (let movement_id = stock_uuid env db;
          movement_public_id = stock_public_id env ''StockMovement'' movement_id;
          wh = JStr (stock_public_id env ''Warehouse'' (pm_warehouse_id input));
          it = JStr (stock_public_id env ''InventoryItem'' (pm_item_id input));
          low_stock = (new_qty \<le> it_reorder_point_qty item);
          db = db\<lparr>iv_uuids := Suc (iv_uuids db)\<rparr>
      in and_then (map_err (\<lambda>e. app_error_new Internal request_id (''db error: '' @ se_show_db_error env e))
           (insert_movement \<lparr>mv_id = movement_id, mv_org = org, mv_public_id = movement_public_id,
              mv_warehouse = pm_warehouse_id input, mv_item = pm_item_id input,
              mv_qty_delta = pm_qty_delta input, mv_unit_cost = pm_unit_cost_minor input,
              mv_currency = it_currency item, mv_type = pm_movement_type input,
              mv_source_type = pm_source_type input, mv_source_id = pm_source_id input,
              mv_key = pm_idempotency_key input, mv_memo = pm_memo input,
              mv_created_by = pm_created_by input\<rparr> db)) (\<lambda>db.
         let db = upsert_level (org, pm_warehouse_id input, pm_item_id input) new_qty new_avg db in
         and_then (emit_stock_event env org act request_id ''movement_recorded''
           (json_object [(''id'', JStr movement_public_id), (''warehouse_id'', wh), (''item_id'', it),
              (''qty_delta'', JInt (pm_qty_delta input)), (''movement_type'', JStr (pm_movement_type input)),
              (''qty_on_hand'', JInt new_qty), (''avg_unit_cost_minor'', JInt new_avg)]) db) (\<lambda>db.
         and_then (if low_stock then emit_stock_event env org act request_id ''low''
             (json_object [(''id'', JStr movement_public_id), (''warehouse_id'', wh), (''item_id'', it),
                (''qty_on_hand'', JInt new_qty),
                (''reorder_point_qty'', JInt (it_reorder_point_qty item))]) db
           else Inr db) (\<lambda>db.
         Inr (db, \<lparr>po_movement_id = movement_id, po_movement_public_id = movement_public_id,
                   po_currency = it_currency item, po_qty_on_hand = new_qty,
                   po_avg_unit_cost_minor = new_avg, po_cogs_minor = cogs, po_low_stock = low_stock,
                   po_replayed = False\<rparr>)))))"

definition execute_plan ::
  "stock_env \<Rightarrow> uuid \<Rightarrow> actor \<Rightarrow> post_movement_input \<Rightarrow> string \<Rightarrow> movement_plan \<Rightarrow> inventory_db
     \<Rightarrow> app_error + inventory_db \<times> post_movement_outcome" where
  "execute_plan env org act input request_id plan db =
     (case plan of
        Replay outcome \<Rightarrow> Inr (db, outcome)
      | Post item new_qty new_avg cogs \<Rightarrow>
          commit_movement env org act input request_id item new_qty new_avg cogs db)"

definition post_movement ::
  "stock_env \<Rightarrow> uuid \<Rightarrow> actor \<Rightarrow> post_movement_input \<Rightarrow> string \<Rightarrow> inventory_db
     \<Rightarrow> app_error + inventory_db \<times> post_movement_outcome" where
  "post_movement env org act input request_id db =
     and_then (plan_movement db org input request_id) (\<lambda>plan.
       execute_plan env org act input request_id plan db)"

section \<open>Reconciliation\<close>

definition movement_sum :: "inventory_db \<Rightarrow> stock_key \<Rightarrow> int" where
  "movement_sum db key =
     sum_list (map mv_qty_delta (filter (\<lambda>m. (mv_org m, mv_warehouse m, mv_item m) = key) (iv_movements db)))"

definition qty_on_hand_from_movements ::
  "stock_env \<Rightarrow> inventory_db \<Rightarrow> uuid \<Rightarrow> uuid \<Rightarrow> uuid \<Rightarrow> string \<Rightarrow> app_error + int" where
  "qty_on_hand_from_movements env db org warehouse item request_id =
     ok_or (app_error_new Internal request_id (''db error: '' @ se_show_db_error env SumOutOfRange))
       (checked_i64 (movement_sum db (org, warehouse, item)))"

definition reconcile_stock ::
  "stock_env \<Rightarrow> int \<Rightarrow> uuid \<Rightarrow> actor \<Rightarrow> uuid \<Rightarrow> uuid \<Rightarrow> string \<Rightarrow> inventory_db
     \<Rightarrow> app_error + inventory_db \<times> drift_alert option" where
  "reconcile_stock env now org act warehouse item request_id db =
     (let level = fetch_stock_level db org warehouse item in
      and_then (qty_on_hand_from_movements env db org warehouse item request_id) (\<lambda>msum.
      if fst level = msum then Inr (db, None)
      else
        let alert_id = stock_uuid env db;
            alert = \<lparr>da_id = alert_id, da_org = org, da_warehouse = warehouse, da_item = item,
                     da_cached_qty = fst level, da_movement_sum_qty = msum, da_detected_at = now\<rparr>;
            db = db\<lparr>iv_drift := iv_drift db @ [alert], iv_uuids := Suc (iv_uuids db)\<rparr>
        in and_then (emit_stock_event env org act request_id ''drift_detected''
             (json_object [(''id'', JStr (re_show_uuid (se_relay env) alert_id)),
                (''warehouse_id'', JStr (stock_public_id env ''Warehouse'' warehouse)),
                (''item_id'', JStr (stock_public_id env ''InventoryItem'' item)),
                (''cached_qty'', JInt (fst level)), (''movement_sum_qty'', JInt msum)]) db) (\<lambda>db.
           Inr (db, Some alert))))"

fun reconcile_pairs ::
  "stock_env \<Rightarrow> int \<Rightarrow> uuid \<Rightarrow> actor \<Rightarrow> string \<Rightarrow> (uuid \<times> uuid) list \<Rightarrow> drift_alert list \<Rightarrow> inventory_db
     \<Rightarrow> app_error + inventory_db \<times> drift_alert list" where
  "reconcile_pairs env now org act request_id [] outcomes db = Inr (db, outcomes)"
| "reconcile_pairs env now org act request_id ((w, i) # pairs) outcomes db =
     and_then (reconcile_stock env now org act w i request_id db) (\<lambda>(db, outcome).
     reconcile_pairs env now org act request_id pairs
       (case outcome of Some d \<Rightarrow> outcomes @ [d] | None \<Rightarrow> outcomes) db)"

definition stock_pairs :: "inventory_db \<Rightarrow> uuid \<Rightarrow> (uuid \<times> uuid) list" where
  "stock_pairs db org = remdups
     (map (\<lambda>l. snd (fst l)) (filter (\<lambda>l. fst (fst l) = org) (iv_levels db)) @
      map (\<lambda>m. (mv_warehouse m, mv_item m)) (filter (\<lambda>m. mv_org m = org) (iv_movements db)))"

definition reconcile_all ::
  "stock_env \<Rightarrow> int \<Rightarrow> uuid \<Rightarrow> actor \<Rightarrow> string \<Rightarrow> inventory_db
     \<Rightarrow> app_error + inventory_db \<times> drift_alert list" where
  "reconcile_all env now org act request_id db =
     reconcile_pairs env now org act request_id (se_pairs env (stock_pairs db org)) [] db"

section \<open>The movement handler\<close>

text \<open>
  From the start of the transaction on: the finance service is called before the commit.
  \<open>finance\<close> is its answer (an id, or an error that is only logged), \<open>commit_error\<close> the
  error with which the database refuses the commit, if it does. The result has the tables after the request, the cost journals
  that finance has posted, and the answer.
\<close>

definition create_movement_tx ::
  "stock_env \<Rightarrow> (uuid \<Rightarrow> int \<Rightarrow> string option) \<Rightarrow> string option \<Rightarrow> uuid \<Rightarrow> actor \<Rightarrow> post_movement_input \<Rightarrow> string
     \<Rightarrow> inventory_db \<Rightarrow> inventory_db \<times> (uuid \<times> int) list \<times> (app_error + post_movement_outcome \<times> string option)" where
  "create_movement_tx env finance commit_error org act input request_id db =
     (case post_movement env org act input request_id db of
        Inl e \<Rightarrow> (db, [], Inl e)
      | Inr (db', outcome) \<Rightarrow>
          (let wanted = (case po_cogs_minor outcome of
                 Some c \<Rightarrow> if c > 0 \<and> \<not> po_replayed outcome then Some c else None | None \<Rightarrow> None);
               journal = (case wanted of Some c \<Rightarrow> finance (po_movement_id outcome) c | None \<Rightarrow> None);
               posted = (case (wanted, journal) of (Some c, Some j) \<Rightarrow> [(po_movement_id outcome, c)] | _ \<Rightarrow> [])
           in case commit_error of
                None \<Rightarrow> (db', posted, Inr (outcome, journal))
              | Some e \<Rightarrow> (db, posted, Inl (app_error_new Internal request_id (''db error: '' @ e)))))"

section \<open>Valuation bounds\<close>

lemma weighted_average_nearest:
  assumes "in_i64 on_hand" and "in_i64 avg" and "in_i64 qty" and "in_i64 cost"
    and "weighted_average_receipt on_hand avg qty cost = Inr (new_qty, new_avg)" and "new_qty \<noteq> 0"
  shows "0 < qty" and "new_qty = on_hand + qty"
    and "nearest_away (on_hand * avg + qty * cost) new_qty new_avg"
proof -
  from assms(5,6) have q: "0 < qty" "new_qty = on_hand + qty" "in_i64 new_qty"
    and v: "in_i128 (on_hand * avg + qty * cost)"
    and r: "round_half_up (on_hand * avg + qty * cost) new_qty = Inr new_avg"
    by (auto simp: weighted_average_receipt_def result_simps checked_simps Let_def split: if_splits)
  show "0 < qty" "new_qty = on_hand + qty" by (fact q)+
  show "nearest_away (on_hand * avg + qty * cost) new_qty new_avg"
    using round_half_up_Inr [OF v in_i64_in_i128 [OF q(3)] assms(6) r] by simp
qed

text \<open>Rounding to the nearest multiple of a positive step stays between two multiples.\<close>

lemma nearest_between:
  assumes "nearest_away n d r" and "0 < d" and "a * d \<le> n" and "n \<le> b * d"
  shows "a \<le> r" and "r \<le> b"
proof -
  from assms(1,2) have near: "2 * \<bar>r * d - n\<bar> \<le> d" by (simp add: nearest_away_def)
  show "a \<le> r"
  proof (rule ccontr)
    assume "\<not> a \<le> r"
    then have "(r + 1) * d \<le> a * d" using assms(2) by (intro mult_right_mono) auto
    with near assms(2,3) show False by (auto simp: algebra_simps)
  qed
  show "r \<le> b"
  proof (rule ccontr)
    assume "\<not> r \<le> b"
    then have "(b + 1) * d \<le> r * d" using assms(2) by (intro mult_right_mono) auto
    with near assms(2,4) show False by (auto simp: algebra_simps)
  qed
qed

text \<open>
  A receipt into a position that is not negative leaves an average between the old average
  and the cost of the receipt, and the value of the position, quantity times average, is off
  the exact value by at most half a minor unit for each piece on hand.
\<close>

theorem weighted_average_bounds:
  assumes "in_i64 on_hand" and "in_i64 avg" and "in_i64 qty" and "in_i64 cost" and "0 \<le> on_hand"
    and "weighted_average_receipt on_hand avg qty cost = Inr (new_qty, new_avg)"
  shows "new_qty = on_hand + qty \<and> 0 < new_qty \<and>
    (if on_hand = 0 then new_avg = cost else min avg cost \<le> new_avg \<and> new_avg \<le> max avg cost) \<and>
    2 * \<bar>new_qty * new_avg - (on_hand * avg + qty * cost)\<bar> \<le> new_qty"
proof -
  from assms(5,6) have nz: "new_qty \<noteq> 0"
    by (auto simp: weighted_average_receipt_def result_simps checked_simps Let_def split: if_splits)
  note w = weighted_average_nearest [OF assms(1-4,6) nz]
  have pos: "0 < new_qty" using w assms(5) by simp
  have lo: "min avg cost * new_qty \<le> on_hand * avg + qty * cost"
  proof -
    have "on_hand * min avg cost \<le> on_hand * avg" "qty * min avg cost \<le> qty * cost"
      using assms(5) w(1) by (auto intro: mult_left_mono)
    then show ?thesis by (simp add: w(2) algebra_simps)
  qed
  have hi: "on_hand * avg + qty * cost \<le> max avg cost * new_qty"
  proof -
    have "on_hand * avg \<le> on_hand * max avg cost" "qty * cost \<le> qty * max avg cost"
      using assms(5) w(1) by (auto intro: mult_left_mono)
    then show ?thesis by (simp add: w(2) algebra_simps)
  qed
  have "new_avg = cost" if "on_hand = 0"
    using nearest_between [OF w(3) pos, of cost cost] w(2) that by (simp add: mult.commute)
  with nearest_between [OF w(3) pos lo hi] w(2,3) pos show ?thesis
    by (auto simp: nearest_away_def mult.commute)
qed

theorem weighted_average_bounds_witness:
  "weighted_average_receipt 3 100 1 102 = Inr (4, 101) \<and> min 100 102 \<le> (101::int) \<and> (101::int) \<le> max 100 102"
proof -
  have e: "weighted_average_receipt 3 100 1 102 = Inr (4, 101)"
    by (simp add: weighted_average_receipt_def checked_i64_def checked_i128_def int_ranges
        round_half_up_def wrap_i128_def)
  show ?thesis
    using weighted_average_bounds [of 3 100 1 102 4 101] e by (simp add: int_ranges)
qed

section \<open>What a movement changes\<close>

definition level_of :: "inventory_db \<Rightarrow> stock_key \<Rightarrow> int \<times> int" where
  "level_of db key = (case map_of (iv_levels db) key of Some l \<Rightarrow> l | None \<Rightarrow> (0, 0))"

lemma fetch_stock_level_eq: "fetch_stock_level db org w i = level_of db (org, w, i)"
  by (simp add: fetch_stock_level_def level_of_def)

lemma level_of_upsert [simp]:
  "level_of (upsert_level key q a db) k = (if k = key then (q, a) else level_of db k)"
  by (simp add: level_of_def upsert_level_def update_conv)

lemma insert_event_Inr:
  assumes "insert_event env s v db = Inr (db', i)"
  shows "\<exists>e. ob_events db' = ob_events db @ [e] \<and> ob_dlq db' = ob_dlq db \<and> is_unpublished e \<and>
    oe_subject e = ev_subject v \<and> oe_org e = ev_org_id v"
  using assms insert_row_Inr(1)
  by (fastforce simp: insert_event_def Let_def result_simps is_unpublished_def)

lemma emit_stock_event_Inr:
  assumes "emit_stock_event env org act rid ev payload db = Inr db'"
  shows "\<exists>ob e. db' = db\<lparr>iv_outbox := ob, iv_uuids := Suc (iv_uuids db)\<rparr> \<and>
    ob_events ob = ob_events (iv_outbox db) @ [e]"
proof -
  from assms obtain ob i where "insert_event (se_relay env) \<lparr>app_org = Some org, app_outbox_relay = False\<rparr>
      (envelope_new (stock_uuid env db) (se_clock env (iv_uuids db)) (re_show_uuid (se_relay env)) org
        Inventory ''stock'' ev 1 act payload) (iv_outbox db) = Inr (ob, i)"
    and "db' = db\<lparr>iv_outbox := ob, iv_uuids := Suc (iv_uuids db)\<rparr>"
    by (auto simp: emit_stock_event_def Let_def result_simps)
  with insert_event_Inr show ?thesis by blast
qed

lemma insert_movement_Inr:
  assumes "insert_movement m db = Inr db'"
  shows "db' = db\<lparr>iv_movements := iv_movements db @ [m]\<rparr>"
    and "mv_key m = None \<or> \<not> list_ex (\<lambda>r. mv_org r = mv_org m \<and> mv_key r = mv_key m) (iv_movements db)"
  using assms by (auto simp: insert_movement_def split: if_splits)

lemma commit_movement_Inr:
  assumes "commit_movement env org act input rid item new_qty new_avg cogs db = Inr (db', out)"
  obtains m es where "iv_movements db' = iv_movements db @ [m]" and "mv_id m = po_movement_id out"
    and "mv_org m = org" and "mv_warehouse m = pm_warehouse_id input" and "mv_item m = pm_item_id input"
    and "mv_qty_delta m = pm_qty_delta input" and "mv_key m = pm_idempotency_key input"
    and "iv_levels db' = AList.update (org, pm_warehouse_id input, pm_item_id input) (new_qty, new_avg) (iv_levels db)"
    and "iv_items db' = iv_items db" and "iv_warehouses db' = iv_warehouses db" and "iv_drift db' = iv_drift db"
    and "ob_events (iv_outbox db') = ob_events (iv_outbox db) @ es"
    and "length es = (if po_low_stock out then 2 else 1)"
    and "po_low_stock out \<longleftrightarrow> new_qty \<le> it_reorder_point_qty item"
    and "po_qty_on_hand out = new_qty" and "po_avg_unit_cost_minor out = new_avg" and "\<not> po_replayed out"
proof -
  let ?m = "\<lparr>mv_id = stock_uuid env db, mv_org = org,
      mv_public_id = stock_public_id env ''StockMovement'' (stock_uuid env db),
      mv_warehouse = pm_warehouse_id input, mv_item = pm_item_id input,
      mv_qty_delta = pm_qty_delta input, mv_unit_cost = pm_unit_cost_minor input,
      mv_currency = it_currency item, mv_type = pm_movement_type input,
      mv_source_type = pm_source_type input, mv_source_id = pm_source_id input,
      mv_key = pm_idempotency_key input, mv_memo = pm_memo input,
      mv_created_by = pm_created_by input\<rparr>"
  let ?low = "new_qty \<le> it_reorder_point_qty item"
  let ?key = "(org, pm_warehouse_id input, pm_item_id input)"
  from assms obtain db1 p1 db2 p2 where
    ins: "insert_movement ?m (db\<lparr>iv_uuids := Suc (iv_uuids db)\<rparr>) = Inr db1"
    and rec: "emit_stock_event env org act rid ''movement_recorded'' p1 (upsert_level ?key new_qty new_avg db1) = Inr db2"
    and low: "(if ?low then emit_stock_event env org act rid ''low'' p2 db2 else Inr db2) = Inr db'"
    and out: "po_movement_id out = mv_id ?m" "po_low_stock out \<longleftrightarrow> ?low" "po_qty_on_hand out = new_qty"
      "po_avg_unit_cost_minor out = new_avg" "\<not> po_replayed out"
    unfolding commit_movement_def Let_def by (auto simp only: result_simps prod.inject sum.inject, auto)
  from emit_stock_event_Inr [OF rec] obtain ob1 e1 where db2: "db2 = (upsert_level ?key new_qty new_avg db1)
      \<lparr>iv_outbox := ob1, iv_uuids := Suc (iv_uuids (upsert_level ?key new_qty new_avg db1))\<rparr>"
      "ob_events ob1 = ob_events (iv_outbox (upsert_level ?key new_qty new_avg db1)) @ [e1]" by blast
  have "\<exists>ob2 u2 es. db' = db2\<lparr>iv_outbox := ob2, iv_uuids := u2\<rparr> \<and> ob_events ob2 = ob_events (iv_outbox db2) @ es \<and>
      length es = (if ?low then 1 else 0)"
  proof (cases ?low)
    case True
    with low emit_stock_event_Inr [of env org act rid "''low''" p2 db2 db'] show ?thesis by auto
  next
    case False
    with low show ?thesis by (intro exI [of _ "iv_outbox db'"] exI [of _ "iv_uuids db'"] exI [of _ "[]"]) simp
  qed
  then obtain ob2 u2 es where db': "db' = db2\<lparr>iv_outbox := ob2, iv_uuids := u2\<rparr>"
    "ob_events ob2 = ob_events (iv_outbox db2) @ es" "length es = (if ?low then 1 else 0)" by blast
  show thesis
    by (rule that [of ?m "e1 # es"])
      (use out insert_movement_Inr(1) [OF ins] db2 db' in \<open>simp_all add: upsert_level_def\<close>)
qed

lemma value_movement_Inr:
  assumes "value_movement (q, a) delta cost rid = Inr (new_qty, new_avg, cogs)"
  shows "new_qty = q + delta" and "in_i64 new_qty"
  using assms
  by (auto simp: value_movement_def weighted_average_receipt_def issue_cost_minor_def result_simps
      checked_simps Let_def split: if_splits)

lemma plan_movement_Post:
  assumes "plan_movement db org input rid = Inr (Post item new_qty new_avg cogs)"
  shows "check_movement input rid = Inr ()"
    and "Option.bind (pm_idempotency_key input) (fetch_existing_by_idem_key db org) = None"
    and "item \<in> set (iv_items db)" and "it_id item = pm_item_id input" and "it_is_active item"
    and "new_qty = fst (level_of db (org, pm_warehouse_id input, pm_item_id input)) + pm_qty_delta input"
    and "in_i64 new_qty" and "0 \<le> new_qty \<or> it_allow_negative_stock item"
proof -
  let ?l = "level_of db (org, pm_warehouse_id input, pm_item_id input)"
  from assms have c: "check_movement input rid = Inr ()"
      "Option.bind (pm_idempotency_key input) (fetch_existing_by_idem_key db org) = None"
    and i: "fetch_item_policy db org (pm_item_id input) rid = Inr item" "it_is_active item"
    and v: "value_movement ?l (pm_qty_delta input) (pm_unit_cost_minor input) rid = Inr (new_qty, new_avg, cogs)"
    and n: "0 \<le> new_qty \<or> it_allow_negative_stock item"
    by (auto simp: plan_movement_def result_simps Let_def fetch_stock_level_eq split: option.splits if_splits)
  show "check_movement input rid = Inr ()"
    "Option.bind (pm_idempotency_key input) (fetch_existing_by_idem_key db org) = None"
    "it_is_active item" "0 \<le> new_qty \<or> it_allow_negative_stock item" by (fact c i n)+
  from i(1) show "item \<in> set (iv_items db)" "it_id item = pm_item_id input"
    by (auto simp: fetch_item_policy_def result_simps find_Some_iff)
  from value_movement_Inr [of "fst ?l" "snd ?l"] v
  show "new_qty = fst ?l + pm_qty_delta input" "in_i64 new_qty" by auto
qed

lemma plan_movement_Replay:
  assumes "plan_movement db org input rid = Inr (Replay out)"
  shows "\<exists>key m. pm_idempotency_key input = Some key \<and> fetch_existing_by_idem_key db org key = Some m \<and>
    po_movement_id out = mv_id m \<and> po_replayed out"
proof -
  from assms obtain m where "Option.bind (pm_idempotency_key input) (fetch_existing_by_idem_key db org) = Some m"
      "po_movement_id out = mv_id m" "po_replayed out"
    by (auto simp: plan_movement_def result_simps Let_def split: option.splits if_splits)
  then show ?thesis by (auto simp: bind_eq_Some_conv)
qed

text \<open>The two ways a posting succeeds.\<close>

lemma post_movement_cases:
  assumes "post_movement env org act input rid db = Inr (db', out)"
  obtains (replay) "plan_movement db org input rid = Inr (Replay out)" and "db' = db"
  | (posted) item new_qty new_avg cogs
    where "plan_movement db org input rid = Inr (Post item new_qty new_avg cogs)"
      and "commit_movement env org act input rid item new_qty new_avg cogs db = Inr (db', out)"
proof -
  from assms obtain plan where p: "plan_movement db org input rid = Inr plan"
    and e: "execute_plan env org act input rid plan db = Inr (db', out)"
    by (auto simp: post_movement_def result_simps)
  show thesis
  proof (cases plan)
    case (Replay o')
    with e have "db' = db" "o' = out" by (simp_all add: execute_plan_def)
    with p Replay show ?thesis by (intro replay) simp_all
  next
    case (Post item new_qty new_avg cogs)
    with e p show ?thesis by (intro posted) (simp_all add: execute_plan_def)
  qed
qed

lemma find_append: "find P (xs @ ys) = (case find P xs of None \<Rightarrow> find P ys | Some x \<Rightarrow> Some x)"
  by (induction xs) auto

text \<open>
  C8: What a successful posting does. Either the key was used before in the organisation, and
  then nothing changes and the earlier movement is returned; or exactly one movement row with
  the request's data is appended, the cached quantity of its warehouse and item is the old one
  plus the delta and no other level changes, one event is written (two when the reorder point
  is reached), and the new quantity is not negative unless the item allows it.
\<close>

theorem post_movement_effect:
  assumes "post_movement env org act input rid db = Inr (db', out)"
  shows "if po_replayed out then db' = db \<and>
      (\<exists>m \<in> set (iv_movements db). mv_org m = org \<and> mv_key m = pm_idempotency_key input \<and>
         mv_key m \<noteq> None \<and> mv_id m = po_movement_id out)
    else
      (\<exists>m item es. iv_movements db' = iv_movements db @ [m] \<and> mv_id m = po_movement_id out \<and>
         mv_org m = org \<and> mv_warehouse m = pm_warehouse_id input \<and> mv_item m = pm_item_id input \<and>
         mv_qty_delta m = pm_qty_delta input \<and> mv_key m = pm_idempotency_key input \<and>
         item \<in> set (iv_items db) \<and> it_id item = mv_item m \<and> it_is_active item \<and>
         level_of db' (org, mv_warehouse m, mv_item m) = (po_qty_on_hand out, po_avg_unit_cost_minor out) \<and>
         po_qty_on_hand out = fst (level_of db (org, mv_warehouse m, mv_item m)) + mv_qty_delta m \<and>
         (\<forall>k. k = (org, mv_warehouse m, mv_item m) \<or> level_of db' k = level_of db k) \<and>
         (0 \<le> po_qty_on_hand out \<or> it_allow_negative_stock item) \<and>
         ob_events (iv_outbox db') = ob_events (iv_outbox db) @ es \<and>
         length es = (if po_qty_on_hand out \<le> it_reorder_point_qty item then 2 else 1) \<and>
         iv_items db' = iv_items db \<and> iv_warehouses db' = iv_warehouses db \<and> iv_drift db' = iv_drift db)"
  using assms
proof (cases rule: post_movement_cases)
  case replay
  from plan_movement_Replay [OF replay(1)] replay(2) show ?thesis
    by (auto simp: fetch_existing_by_idem_key_def find_Some_iff)
next
  case (posted item new_qty new_avg cogs)
  note plan = plan_movement_Post [OF posted(1)]
  from posted(2) show ?thesis
  proof (rule commit_movement_Inr)
    fix m es assume a: "iv_movements db' = iv_movements db @ [m]" "mv_id m = po_movement_id out"
      "mv_org m = org" "mv_warehouse m = pm_warehouse_id input" "mv_item m = pm_item_id input"
      "mv_qty_delta m = pm_qty_delta input" "mv_key m = pm_idempotency_key input"
      and l: "iv_levels db' = AList.update (org, pm_warehouse_id input, pm_item_id input) (new_qty, new_avg) (iv_levels db)"
      and r: "iv_items db' = iv_items db" "iv_warehouses db' = iv_warehouses db" "iv_drift db' = iv_drift db"
      and e: "ob_events (iv_outbox db') = ob_events (iv_outbox db) @ es"
        "length es = (if po_low_stock out then 2 else 1)" "po_low_stock out \<longleftrightarrow> new_qty \<le> it_reorder_point_qty item"
      and o: "po_qty_on_hand out = new_qty" "po_avg_unit_cost_minor out = new_avg" "\<not> po_replayed out"
    have "level_of db' k = (if k = (org, mv_warehouse m, mv_item m) then (new_qty, new_avg) else level_of db k)" for k
      using l a(4,5) by (simp add: level_of_def update_conv)
    with a r e o plan show ?thesis by (intro if_not_P [THEN iffD2] exI [of _ m] exI [of _ item] exI [of _ es]) auto
  qed
qed

text \<open>
  Retries are safe. Once a request with an idempotency key has succeeded, any later
  valid request with that key in the organisation succeeds without changing anything and returns
  the same movement.
\<close>

theorem post_movement_idempotent:
  assumes "post_movement env org act input rid db = Inr (db', out)"
    and "pm_idempotency_key input = Some key" and "pm_idempotency_key input' = Some key"
    and "check_movement input' rid' = Inr ()"
  shows "\<exists>out'. post_movement env' org act' input' rid' db' = Inr (db', out') \<and>
    po_replayed out' \<and> po_movement_id out' = po_movement_id out"
proof -
  have "\<exists>m. fetch_existing_by_idem_key db' org key = Some m \<and> mv_id m = po_movement_id out"
    using assms(1)
  proof (cases rule: post_movement_cases)
    case replay
    from plan_movement_Replay [OF replay(1)] replay(2) assms(2) show ?thesis by auto
  next
    case (posted item new_qty new_avg cogs)
    from plan_movement_Post(2) [OF posted(1)] assms(2)
    have none: "find (\<lambda>m. mv_org m = org \<and> mv_key m = Some key) (iv_movements db) = None"
      by (simp add: fetch_existing_by_idem_key_def)
    from posted(2) show ?thesis
      by (rule commit_movement_Inr)
        (use none assms(2) in \<open>simp add: fetch_existing_by_idem_key_def find_append\<close>)
  qed
  with assms(3,4) show ?thesis
    by (auto simp: post_movement_def plan_movement_def execute_plan_def Let_def)
qed

section \<open>The cache and the ledger\<close>

definition stock_inv :: "inventory_db \<Rightarrow> bool" where
  "stock_inv db \<longleftrightarrow> (\<forall>key. fst (level_of db key) = movement_sum db key \<and> in_i64 (movement_sum db key))"

definition stock_init :: "inventory_db \<Rightarrow> bool" where
  "stock_init db \<longleftrightarrow> iv_movements db = [] \<and> iv_levels db = []"

text \<open>
  Transactions that run one after the other: a posting, a reconciliation, and any change to the
  warehouses and items by their own handlers.
\<close>

inductive stock_step :: "stock_env \<Rightarrow> inventory_db \<Rightarrow> inventory_db \<Rightarrow> bool" for env where
  step_post: "post_movement env org act input rid db = Inr (db', out) \<Longrightarrow> stock_step env db db'"
| step_reconcile: "reconcile_stock env now org act w i rid db = Inr (db', alert) \<Longrightarrow> stock_step env db db'"
| step_catalogue: "stock_step env db (db\<lparr>iv_warehouses := ws, iv_items := its\<rparr>)"

lemma movement_sum_append:
  assumes "iv_movements db' = iv_movements db @ [m]"
  shows "movement_sum db' key =
    movement_sum db key + (if (mv_org m, mv_warehouse m, mv_item m) = key then mv_qty_delta m else 0)"
  using assms by (simp add: movement_sum_def)

lemma stock_inv_same:
  assumes "stock_inv db" and "iv_movements db' = iv_movements db" and "iv_levels db' = iv_levels db"
  shows "stock_inv db'"
  using assms by (simp add: stock_inv_def level_of_def movement_sum_def)

lemma commit_movement_inv:
  assumes "stock_inv db" and "in_i64 new_qty"
    and "new_qty = fst (level_of db (org, pm_warehouse_id input, pm_item_id input)) + pm_qty_delta input"
    and "commit_movement env org act input rid item new_qty new_avg cogs db = Inr (db', out)"
  shows "stock_inv db'"
  using assms(4)
proof (rule commit_movement_Inr)
  fix m es assume m: "iv_movements db' = iv_movements db @ [m]" "mv_org m = org"
      "mv_warehouse m = pm_warehouse_id input" "mv_item m = pm_item_id input"
      "mv_qty_delta m = pm_qty_delta input"
    and l: "iv_levels db' = AList.update (org, pm_warehouse_id input, pm_item_id input) (new_qty, new_avg) (iv_levels db)"
  have "level_of db' k = (if k = (org, mv_warehouse m, mv_item m) then (new_qty, new_avg) else level_of db k)" for k
    using l m by (simp add: level_of_def update_conv)
  moreover have "fst (level_of db k) = movement_sum db k \<and> in_i64 (movement_sum db k)" for k
    using assms(1) unfolding stock_inv_def by blast
  ultimately show ?thesis
    using assms(2,3) m(2-5) by (auto simp: stock_inv_def movement_sum_append [OF m(1)])
qed

lemma emit_stock_event_same:
  assumes "emit_stock_event env org act rid ev payload db = Inr db'"
  shows "iv_movements db' = iv_movements db \<and> iv_levels db' = iv_levels db"
  using emit_stock_event_Inr [OF assms] by auto

lemma reconcile_stock_same:
  assumes "reconcile_stock env now org act w i rid db = Inr (db', alert)"
  shows "iv_movements db' = iv_movements db" and "iv_levels db' = iv_levels db"
proof -
  from assms consider "db' = db" | p dr u where
      "emit_stock_event env org act rid ''drift_detected'' p (db\<lparr>iv_drift := dr, iv_uuids := u\<rparr>) = Inr db'"
    unfolding reconcile_stock_def Let_def and_then_Inr by (auto simp: and_then_Inr split: if_splits)
  then have "iv_movements db' = iv_movements db \<and> iv_levels db' = iv_levels db"
    by cases (auto dest: emit_stock_event_same)
  then show "iv_movements db' = iv_movements db" "iv_levels db' = iv_levels db" by simp_all
qed

lemma stock_step_inv: "stock_step env db db' \<Longrightarrow> stock_inv db \<Longrightarrow> stock_inv db'"
proof (induction rule: stock_step.induct)
  case (step_post org act input rid db db' out)
  from step_post(1) show ?case
  proof (cases rule: post_movement_cases)
    case (posted item new_qty new_avg cogs)
    note plan = plan_movement_Post [OF posted(1)]
    show ?thesis by (rule commit_movement_inv [OF step_post(2) plan(7,6) posted(2)])
  qed (simp add: step_post(2))
next
  case (step_reconcile now org act w i rid db db' alert)
  show ?case
    by (rule stock_inv_same [OF step_reconcile(2) reconcile_stock_same [OF step_reconcile(1)]])
next
  case (step_catalogue db ws its)
  then show ?case by (rule stock_inv_same) simp_all
qed

lemma stock_inv_init: "stock_init db \<Longrightarrow> stock_inv db"
  by (simp add: stock_init_def stock_inv_def level_of_def movement_sum_def in_i64_def)

interpretation stock: transition_system stock_init "stock_step env" stock_inv for env
  by unfold_locales (auto intro: stock_inv_init stock_step_inv)

lemma reconcile_pairs_clean:
  assumes "stock_inv db"
  shows "reconcile_pairs env now org act rid pairs outs db = Inr (db, outs)"
proof (induction pairs)
  case (Cons p ps)
  obtain w i where p: "p = (w, i)" by fastforce
  have "fst (level_of db (org, w, i)) = movement_sum db (org, w, i)" "in_i64 (movement_sum db (org, w, i))"
    using assms by (simp_all add: stock_inv_def)
  then have "reconcile_stock env now org act w i rid db = Inr (db, None)"
    by (simp add: reconcile_stock_def qty_on_hand_from_movements_def checked_i64_def fetch_stock_level_eq)
  with Cons show ?case by (simp add: p)
qed simp

text \<open>
  C6: When transactions run one after the other, the cache is exact: in every reachable state
  the cached quantity of every organisation, warehouse and item is the sum of its movements, and
  it fits 64 bits; a reconciliation of the whole organisation succeeds, reports no drift and
  changes nothing.
\<close>

theorem stock_cache_exact:
  assumes "stock_init db0" and "(stock_step env)\<^sup>*\<^sup>* db0 db"
  shows "fst (fetch_stock_level db org w i) = movement_sum db (org, w, i) \<and>
    in_i64 (movement_sum db (org, w, i)) \<and>
    reconcile_all env now org act rid db = Inr (db, [])"
  using stock.reachable_inv [OF assms]
  by (simp add: reconcile_all_def reconcile_pairs_clean fetch_stock_level_eq stock_inv_def)

section \<open>Concrete instances\<close>

definition demo_stock_env :: stock_env where
  "demo_stock_env = \<lparr>se_relay = demo_relay_env\<lparr>re_show_uuid := \<lambda>u. show_nat (unat u)\<rparr>, se_clock = (\<lambda>n. int n), se_show_db_error = (\<lambda>e. ''e''),
     se_show_outbox_error = (\<lambda>e. ''e''), se_pairs = (\<lambda>ps. ps)\<rparr>"

definition demo_item :: item_row where
  "demo_item = \<lparr>it_id = 21, it_org = 1, it_deleted = False, it_currency = ''EUR'', it_reorder_point_qty = 1,
     it_allow_negative_stock = False, it_is_active = True\<rparr>"

definition demo_inventory :: inventory_db where
  "demo_inventory = \<lparr>iv_warehouses = [\<lparr>wh_id = 11, wh_org = 1, wh_deleted = False\<rparr>], iv_items = [demo_item],
     iv_movements = [], iv_levels = [], iv_drift = [], iv_outbox = \<lparr>ob_events = [], ob_dlq = []\<rparr>,
     iv_uuids = 100\<rparr>"

definition demo_move :: "string \<Rightarrow> int \<Rightarrow> string option \<Rightarrow> post_movement_input" where
  "demo_move t delta key = \<lparr>pm_warehouse_id = 11, pm_item_id = 21, pm_qty_delta = delta,
     pm_unit_cost_minor = 100, pm_movement_type = t, pm_source_type = None, pm_source_id = None,
     pm_idempotency_key = key, pm_memo = None, pm_created_by = 3\<rparr>"

definition demo_row_of :: "uuid \<Rightarrow> string \<Rightarrow> int \<Rightarrow> string option \<Rightarrow> movement_row" where
  "demo_row_of i t delta key = \<lparr>mv_id = i, mv_org = 1, mv_public_id = stock_public_id demo_stock_env ''StockMovement'' i,
     mv_warehouse = 11, mv_item = 21, mv_qty_delta = delta, mv_unit_cost = 100, mv_currency = ''EUR'',
     mv_type = t, mv_source_type = None, mv_source_id = None, mv_key = key, mv_memo = None, mv_created_by = 3\<rparr>"

lemmas demo_stock_defs = demo_stock_env_def demo_item_def demo_inventory_def demo_move_def demo_relay_env_def
  demo_row_of_def

definition demo_stocked :: "outbox_event \<Rightarrow> inventory_db" where
  "demo_stocked e = demo_inventory\<lparr>iv_movements := [demo_row_of 100 ''receipt'' 5 (Some ''k'')],
     iv_levels := [((1, 11, 21), (5, 100))], iv_outbox := \<lparr>ob_events = [e], ob_dlq = []\<rparr>, iv_uuids := 102\<rparr>"

lemmas stock_eval = post_movement_def plan_movement_def check_movement_def MOVEMENT_TYPES_def INCREASING_TYPES_def
  DECREASING_TYPES_def fetch_existing_by_idem_key_def fetch_warehouse_exists_def
  fetch_item_policy_def fetch_stock_level_def value_movement_def weighted_average_receipt_def
  checked_i64_def checked_i128_def int_ranges round_half_up_def wrap_i128_def wrap_i64_def issue_cost_minor_def
  execute_plan_def commit_movement_def insert_movement_def upsert_level_def emit_stock_event_def insert_event_def
  insert_outbox_row_def rls_visible_def envelope_new_def actor_human_def stock_public_id_def Let_def

lemma demo_receive:
  "\<exists>e out. oe_id e = 101 \<and> \<not> po_replayed out \<and>
     post_movement demo_stock_env 1 (actor_human 3) (demo_move ''receipt'' 5 (Some ''k'')) ''r'' demo_inventory =
     Inr (demo_stocked e, out)"
  by (simp add: stock_eval demo_stock_defs demo_stocked_def)

lemma demo_stock_init: "stock_init demo_inventory"
  by (simp add: stock_init_def demo_inventory_def)

lemma demo_stock_steps:
  assumes "post_movement demo_stock_env org act input rid demo_inventory = Inr (db, out)"
  shows "(stock_step demo_stock_env)\<^sup>*\<^sup>* demo_inventory db"
  by (rule r_into_rtranclp, rule step_post, rule assms)

theorem post_movement_effect_witness:
  "\<exists>e out m. post_movement demo_stock_env 1 (actor_human 3) (demo_move ''receipt'' 5 (Some ''k'')) ''r''
       demo_inventory = Inr (demo_stocked e, out) \<and>
     iv_movements (demo_stocked e) = iv_movements demo_inventory @ [m] \<and>
     po_qty_on_hand out = fst (level_of demo_inventory (1, 11, 21)) + 5"
proof -
  from demo_receive obtain e out where "\<not> po_replayed out"
    and p: "post_movement demo_stock_env 1 (actor_human 3) (demo_move ''receipt'' 5 (Some ''k'')) ''r''
      demo_inventory = Inr (demo_stocked e, out)" by blast
  with post_movement_effect [OF p] show ?thesis by (auto simp: demo_move_def)
qed

theorem post_movement_idempotent_witness:
  "\<exists>e out out'. post_movement demo_stock_env 1 (actor_human 3) (demo_move ''receipt'' 5 (Some ''k'')) ''r''
       demo_inventory = Inr (demo_stocked e, out) \<and>
     post_movement demo_stock_env 1 (actor_human 4) (demo_move ''issue'' (- 2) (Some ''k'')) ''s'' (demo_stocked e) =
       Inr (demo_stocked e, out') \<and> po_movement_id out' = po_movement_id out"
proof -
  from demo_receive obtain e out where p: "post_movement demo_stock_env 1 (actor_human 3)
      (demo_move ''receipt'' 5 (Some ''k'')) ''r'' demo_inventory = Inr (demo_stocked e, out)" by blast
  have c: "check_movement (demo_move ''issue'' (- 2) (Some ''k'')) ''s'' = Inr ()"
    by (simp add: check_movement_def MOVEMENT_TYPES_def INCREASING_TYPES_def DECREASING_TYPES_def demo_move_def)
  from post_movement_idempotent [OF p _ _ c, of "''k''" demo_stock_env "actor_human 4"] p show ?thesis
    by (auto simp: demo_move_def)
qed

theorem stock_cache_exact_witness:
  "\<exists>e. reconcile_all demo_stock_env 9 1 (actor_human 3) ''r'' (demo_stocked e) = Inr (demo_stocked e, []) \<and>
     fst (fetch_stock_level (demo_stocked e) 1 11 21) = 5"
proof -
  from demo_receive obtain e out where p: "post_movement demo_stock_env 1 (actor_human 3)
      (demo_move ''receipt'' 5 (Some ''k'')) ''r'' demo_inventory = Inr (demo_stocked e, out)" by blast
  from stock_cache_exact [OF demo_stock_init demo_stock_steps [OF p], of 1 11 21 9 "actor_human 3" "''r''"]
  have "reconcile_all demo_stock_env 9 1 (actor_human 3) ''r'' (demo_stocked e) = Inr (demo_stocked e, [])" by simp
  then show ?thesis by (auto simp: demo_stocked_def fetch_stock_level_def)
qed

lemma demo_issue_plan:
  "plan_movement (demo_stocked e) 1 (demo_move ''issue'' (- 5) None) r = Inr (Post demo_item 0 100 (Some 500))"
  by (simp add: stock_eval demo_stocked_def demo_stock_defs)

lemma show_nat_eq: "show_nat a = show_nat b \<longleftrightarrow> a = b"
  by (metis dec_val_show_nat)

lemmas demo_public_ids = public_id_as_str_def public_id_new_def show_nat_eq

definition demo_issued :: "outbox_event list \<Rightarrow> inventory_db" where
  "demo_issued es = demo_inventory\<lparr>iv_movements :=
       [demo_row_of 100 ''receipt'' 5 (Some ''k''), demo_row_of 102 ''issue'' (- 5) None],
     iv_levels := [((1, 11, 21), (0, 100))], iv_outbox := \<lparr>ob_events = es, ob_dlq = []\<rparr>, iv_uuids := 105\<rparr>"

definition demo_issued_twice :: "outbox_event list \<Rightarrow> inventory_db" where
  "demo_issued_twice es = (demo_issued es)\<lparr>iv_movements :=
       iv_movements (demo_issued es) @ [demo_row_of 105 ''issue'' (- 5) None], iv_uuids := 108\<rparr>"

lemma demo_first_issue:
  assumes "oe_id e = 101"
  shows "\<exists>f g out. oe_id f = 103 \<and> oe_id g = 104 \<and>
    execute_plan demo_stock_env 1 (actor_human 3) (demo_move ''issue'' (- 5) None) ''r1''
      (Post demo_item 0 100 (Some 500)) (demo_stocked e) = Inr (demo_issued [e, f, g], out)"
  using assms
  by (simp add: execute_plan_def commit_movement_def insert_movement_def upsert_level_def emit_stock_event_def
      insert_event_def insert_outbox_row_def rls_visible_def envelope_new_def stock_public_id_def Let_def
      demo_stocked_def demo_issued_def demo_stock_defs demo_public_ids)

lemma demo_second_issue:
  assumes "oe_id e = 101" and "oe_id f = 103" and "oe_id g = 104"
  shows "\<exists>es out. execute_plan demo_stock_env 1 (actor_human 4) (demo_move ''issue'' (- 5) None) ''r2''
      (Post demo_item 0 100 (Some 500)) (demo_issued [e, f, g]) = Inr (demo_issued_twice es, out)"
  using assms
  by (simp add: execute_plan_def commit_movement_def insert_movement_def upsert_level_def emit_stock_event_def
      insert_event_def insert_outbox_row_def rls_visible_def envelope_new_def stock_public_id_def Let_def
      demo_issued_def demo_issued_twice_def demo_stock_defs demo_public_ids)

text \<open>
  Two issues of five pieces each, from five pieces on hand of an item that may not go
  negative: both transactions read before either writes, both succeed, ten pieces have left and
  the cache says zero.
\<close>

theorem concurrent_issues_lose_update:
  "\<exists>db p1 p2 db1 o1 db2 o2.
     stock_init demo_inventory \<and> (stock_step demo_stock_env)\<^sup>*\<^sup>* demo_inventory db \<and>
     plan_movement db 1 (demo_move ''issue'' (- 5) None) ''r1'' = Inr p1 \<and>
     plan_movement db 1 (demo_move ''issue'' (- 5) None) ''r2'' = Inr p2 \<and>
     execute_plan demo_stock_env 1 (actor_human 3) (demo_move ''issue'' (- 5) None) ''r1'' p1 db = Inr (db1, o1) \<and>
     execute_plan demo_stock_env 1 (actor_human 4) (demo_move ''issue'' (- 5) None) ''r2'' p2 db1 = Inr (db2, o2) \<and>
     \<not> it_allow_negative_stock demo_item \<and> movement_sum db2 (1, 11, 21) = - 5 \<and>
     fst (fetch_stock_level db2 1 11 21) = 0"
proof -
  from demo_receive obtain e out where e: "oe_id e = 101" and p: "post_movement demo_stock_env 1 (actor_human 3)
      (demo_move ''receipt'' 5 (Some ''k'')) ''r'' demo_inventory = Inr (demo_stocked e, out)" by blast
  from demo_first_issue [OF e] obtain f g o1 where fg: "oe_id f = 103" "oe_id g = 104"
    and one: "execute_plan demo_stock_env 1 (actor_human 3) (demo_move ''issue'' (- 5) None) ''r1''
      (Post demo_item 0 100 (Some 500)) (demo_stocked e) = Inr (demo_issued [e, f, g], o1)" by blast
  from demo_second_issue [OF e fg] obtain es o2 where
    two: "execute_plan demo_stock_env 1 (actor_human 4) (demo_move ''issue'' (- 5) None) ''r2''
      (Post demo_item 0 100 (Some 500)) (demo_issued [e, f, g]) = Inr (demo_issued_twice es, o2)" by blast
  have "movement_sum (demo_issued_twice es) (1, 11, 21) = - 5" "fst (fetch_stock_level (demo_issued_twice es) 1 11 21) = 0"
    by (simp_all add: movement_sum_def fetch_stock_level_def demo_issued_twice_def demo_issued_def demo_row_of_def)
  moreover have "\<not> it_allow_negative_stock demo_item" by (simp add: demo_item_def)
  ultimately show ?thesis
    using demo_stock_init demo_stock_steps [OF p] demo_issue_plan [of e] one two by blast
qed

text \<open>
  The finance service is told about the cost of goods before the stock transaction commits: when
  the commit fails, the journal stays posted although no movement exists.
\<close>

lemma cogs_journal_without_movement:
  assumes "post_movement env org act input rid db = Inr (db', out)" and "po_cogs_minor out = Some c" and "0 < c"
    and "\<not> po_replayed out" and "finance (po_movement_id out) c = Some j"
  shows "\<exists>err. create_movement_tx env finance (Some e) org act input rid db =
    (db, [(po_movement_id out, c)], Inl err)"
  using assms by (simp add: create_movement_tx_def)

end
