(* ===== verification/Perm_Catalogue.thy ===== *)
theory Perm_Catalogue
  imports Prelude
begin

text \<open>
  The permission catalogue (\<open>crates/authz/src/catalogue.rs\<close>): the table of all static
  permissions, the list of sensitive actions, the constructors of permission ids in the
  module \<open>perms\<close>, and the recognition of permissions of custom entities. A \<open>PermissionId\<close>
  wraps a string and is that string here. The table is split into parts that follow the
  source; \<open>PERMISSION_CATALOGUE\<close> is their concatenation. The facts at the end compare the
  tables by evaluation.
\<close>

named_theorems perm_ids \<open>the constants of the module perms\<close>

type_synonym permission_id = string

record permission_def =
  pd_id :: string
  pd_context :: string
  pd_resource :: string
  pd_action :: string
  pd_description :: string
  pd_sensitive :: bool

section \<open>The catalogue\<close>

definition catalogue_part_1 :: "permission_def list" where
  "catalogue_part_1 =
   [\<lparr>pd_id = ''workspace.dashboard.read'', pd_context = ''workspace'', pd_resource = ''dashboard'', pd_action = ''read'',
      pd_description = ''View workspace home / dashboard'',
      pd_sensitive = False\<rparr>,
    \<lparr>pd_id = ''workspace.org.create'', pd_context = ''workspace'', pd_resource = ''org'', pd_action = ''create'',
      pd_description = ''Create a new organization'',
      pd_sensitive = True\<rparr>,
    \<lparr>pd_id = ''workspace.org.read'', pd_context = ''workspace'', pd_resource = ''org'', pd_action = ''read'',
      pd_description = ''Read organization profile and settings'',
      pd_sensitive = False\<rparr>,
    \<lparr>pd_id = ''workspace.org.update_settings'', pd_context = ''workspace'', pd_resource = ''org'', pd_action = ''update_settings'',
      pd_description = ''Update organization settings, branding, locale'',
      pd_sensitive = True\<rparr>,
    \<lparr>pd_id = ''workspace.member.read'', pd_context = ''workspace'', pd_resource = ''member'', pd_action = ''read'',
      pd_description = ''List organization members'',
      pd_sensitive = False\<rparr>,
    \<lparr>pd_id = ''workspace.member.invite'', pd_context = ''workspace'', pd_resource = ''member'', pd_action = ''invite'',
      pd_description = ''Invite members to the organization'',
      pd_sensitive = True\<rparr>,
    \<lparr>pd_id = ''workspace.member.suspend'', pd_context = ''workspace'', pd_resource = ''member'', pd_action = ''suspend'',
      pd_description = ''Suspend a membership'',
      pd_sensitive = True\<rparr>,
    \<lparr>pd_id = ''workspace.member.revoke'', pd_context = ''workspace'', pd_resource = ''member'', pd_action = ''revoke'',
      pd_description = ''Revoke a membership'',
      pd_sensitive = True\<rparr>,
    \<lparr>pd_id = ''workspace.role.read'', pd_context = ''workspace'', pd_resource = ''role'', pd_action = ''read'',
      pd_description = ''View roles and permission matrix'',
      pd_sensitive = False\<rparr>,
    \<lparr>pd_id = ''workspace.role.manage'', pd_context = ''workspace'', pd_resource = ''role'', pd_action = ''manage'',
      pd_description = ''Create/edit custom roles and permission matrix'',
      pd_sensitive = True\<rparr>,
    \<lparr>pd_id = ''workspace.role.assign'', pd_context = ''workspace'', pd_resource = ''role'', pd_action = ''assign'',
      pd_description = ''Assign or change member roles'',
      pd_sensitive = True\<rparr>,
    \<lparr>pd_id = ''workspace.team.read'', pd_context = ''workspace'', pd_resource = ''team'', pd_action = ''read'',
      pd_description = ''View teams'',
      pd_sensitive = False\<rparr>,
    \<lparr>pd_id = ''workspace.team.manage'', pd_context = ''workspace'', pd_resource = ''team'', pd_action = ''manage'',
      pd_description = ''Create and manage teams'',
      pd_sensitive = True\<rparr>,
    \<lparr>pd_id = ''workspace.department.read'', pd_context = ''workspace'', pd_resource = ''department'', pd_action = ''read'',
      pd_description = ''View departments'',
      pd_sensitive = False\<rparr>,
    \<lparr>pd_id = ''workspace.department.manage'', pd_context = ''workspace'', pd_resource = ''department'', pd_action = ''manage'',
      pd_description = ''Create and manage departments'',
      pd_sensitive = True\<rparr>,
    \<lparr>pd_id = ''sales.customer.read'', pd_context = ''sales'', pd_resource = ''customer'', pd_action = ''read'',
      pd_description = ''View customers and account details'',
      pd_sensitive = False\<rparr>,
    \<lparr>pd_id = ''sales.customer.create'', pd_context = ''sales'', pd_resource = ''customer'', pd_action = ''create'',
      pd_description = ''Create new customer accounts'',
      pd_sensitive = False\<rparr>,
    \<lparr>pd_id = ''sales.customer.update'', pd_context = ''sales'', pd_resource = ''customer'', pd_action = ''update'',
      pd_description = ''Update customer account details'',
      pd_sensitive = False\<rparr>]"

definition catalogue_part_2 :: "permission_def list" where
  "catalogue_part_2 =
   [\<lparr>pd_id = ''sales.customer.delete'', pd_context = ''sales'', pd_resource = ''customer'', pd_action = ''delete'',
      pd_description = ''Delete (soft-delete) customer accounts'',
      pd_sensitive = True\<rparr>,
    \<lparr>pd_id = ''sales.contact.read'', pd_context = ''sales'', pd_resource = ''contact'', pd_action = ''read'',
      pd_description = ''View contacts linked to customers'',
      pd_sensitive = False\<rparr>,
    \<lparr>pd_id = ''sales.contact.create'', pd_context = ''sales'', pd_resource = ''contact'', pd_action = ''create'',
      pd_description = ''Create contacts on customer accounts'',
      pd_sensitive = False\<rparr>,
    \<lparr>pd_id = ''sales.contact.update'', pd_context = ''sales'', pd_resource = ''contact'', pd_action = ''update'',
      pd_description = ''Update contact details'',
      pd_sensitive = False\<rparr>,
    \<lparr>pd_id = ''sales.lead.read'', pd_context = ''sales'', pd_resource = ''lead'', pd_action = ''read'',
      pd_description = ''View leads and lead pipeline'',
      pd_sensitive = False\<rparr>,
    \<lparr>pd_id = ''sales.lead.create'', pd_context = ''sales'', pd_resource = ''lead'', pd_action = ''create'',
      pd_description = ''Create new leads'',
      pd_sensitive = False\<rparr>,
    \<lparr>pd_id = ''sales.lead.update'', pd_context = ''sales'', pd_resource = ''lead'', pd_action = ''update'',
      pd_description = ''Update lead details and status'',
      pd_sensitive = False\<rparr>,
    \<lparr>pd_id = ''sales.lead.convert'', pd_context = ''sales'', pd_resource = ''lead'', pd_action = ''convert'',
      pd_description = ''Convert a qualified lead to customer and deal'',
      pd_sensitive = True\<rparr>,
    \<lparr>pd_id = ''sales.pipeline.read'', pd_context = ''sales'', pd_resource = ''pipeline'', pd_action = ''read'',
      pd_description = ''View sales pipelines and stages'',
      pd_sensitive = False\<rparr>,
    \<lparr>pd_id = ''sales.pipeline.manage'', pd_context = ''sales'', pd_resource = ''pipeline'', pd_action = ''manage'',
      pd_description = ''Create and configure pipelines and stages'',
      pd_sensitive = True\<rparr>,
    \<lparr>pd_id = ''sales.deal.read'', pd_context = ''sales'', pd_resource = ''deal'', pd_action = ''read'',
      pd_description = ''View deals and opportunity details'',
      pd_sensitive = False\<rparr>,
    \<lparr>pd_id = ''sales.deal.create'', pd_context = ''sales'', pd_resource = ''deal'', pd_action = ''create'',
      pd_description = ''Create new deals'',
      pd_sensitive = False\<rparr>,
    \<lparr>pd_id = ''sales.deal.update'', pd_context = ''sales'', pd_resource = ''deal'', pd_action = ''update'',
      pd_description = ''Update deal fields, stage, and amounts'',
      pd_sensitive = False\<rparr>,
    \<lparr>pd_id = ''sales.deal.win'', pd_context = ''sales'', pd_resource = ''deal'', pd_action = ''win'',
      pd_description = ''Mark a deal as won'',
      pd_sensitive = True\<rparr>,
    \<lparr>pd_id = ''sales.deal.lose'', pd_context = ''sales'', pd_resource = ''deal'', pd_action = ''lose'',
      pd_description = ''Mark a deal as lost'',
      pd_sensitive = True\<rparr>,
    \<lparr>pd_id = ''sales.quote.read'', pd_context = ''sales'', pd_resource = ''quote'', pd_action = ''read'',
      pd_description = ''View quotes and line items'',
      pd_sensitive = False\<rparr>,
    \<lparr>pd_id = ''sales.quote.create'', pd_context = ''sales'', pd_resource = ''quote'', pd_action = ''create'',
      pd_description = ''Create and draft quotes'',
      pd_sensitive = False\<rparr>,
    \<lparr>pd_id = ''sales.quote.update'', pd_context = ''sales'', pd_resource = ''quote'', pd_action = ''update'',
      pd_description = ''Update quote details and line items'',
      pd_sensitive = False\<rparr>]"

definition catalogue_part_3 :: "permission_def list" where
  "catalogue_part_3 =
   [\<lparr>pd_id = ''sales.quote.accept'', pd_context = ''sales'', pd_resource = ''quote'', pd_action = ''accept'',
      pd_description = ''Accept a quote on behalf of the customer'',
      pd_sensitive = True\<rparr>,
    \<lparr>pd_id = ''sales.product.read'', pd_context = ''sales'', pd_resource = ''product'', pd_action = ''read'',
      pd_description = ''View product catalogue'',
      pd_sensitive = False\<rparr>,
    \<lparr>pd_id = ''sales.product.manage'', pd_context = ''sales'', pd_resource = ''product'', pd_action = ''manage'',
      pd_description = ''Create and manage products in the catalogue'',
      pd_sensitive = True\<rparr>,
    \<lparr>pd_id = ''sales.activity.read'', pd_context = ''sales'', pd_resource = ''activity'', pd_action = ''read'',
      pd_description = ''View sales activities and notes'',
      pd_sensitive = False\<rparr>,
    \<lparr>pd_id = ''sales.activity.create'', pd_context = ''sales'', pd_resource = ''activity'', pd_action = ''create'',
      pd_description = ''Log calls, meetings, emails, and notes'',
      pd_sensitive = False\<rparr>,
    \<lparr>pd_id = ''sales.import.create'', pd_context = ''sales'', pd_resource = ''import'', pd_action = ''create'',
      pd_description = ''Import customers, leads, and deals from files'',
      pd_sensitive = True\<rparr>,
    \<lparr>pd_id = ''sales.report.read'', pd_context = ''sales'', pd_resource = ''report'', pd_action = ''read'',
      pd_description = ''View sales reports and dashboards'',
      pd_sensitive = False\<rparr>,
    \<lparr>pd_id = ''admin.membership.manage'', pd_context = ''admin'', pd_resource = ''membership'', pd_action = ''manage'',
      pd_description = ''Admin membership management (legacy 1.1 alias)'',
      pd_sensitive = True\<rparr>,
    \<lparr>pd_id = ''admin.sso.manage'', pd_context = ''admin'', pd_resource = ''sso'', pd_action = ''manage'',
      pd_description = ''Manage SSO configurations'',
      pd_sensitive = True\<rparr>,
    \<lparr>pd_id = ''finance.invoice.read'', pd_context = ''finance'', pd_resource = ''invoice'', pd_action = ''read'',
      pd_description = ''Read invoices and invoice lines'',
      pd_sensitive = False\<rparr>,
    \<lparr>pd_id = ''finance.invoice.create'', pd_context = ''finance'', pd_resource = ''invoice'', pd_action = ''create'',
      pd_description = ''Create draft invoices'',
      pd_sensitive = False\<rparr>,
    \<lparr>pd_id = ''finance.invoice.update'', pd_context = ''finance'', pd_resource = ''invoice'', pd_action = ''update'',
      pd_description = ''Update draft invoices (If-Match)'',
      pd_sensitive = False\<rparr>,
    \<lparr>pd_id = ''finance.invoice.issue'', pd_context = ''finance'', pd_resource = ''invoice'', pd_action = ''issue'',
      pd_description = ''Issue (finalize) invoices '' @ em_dash @ '' immutable thereafter'',
      pd_sensitive = True\<rparr>,
    \<lparr>pd_id = ''finance.invoice.send'', pd_context = ''finance'', pd_resource = ''invoice'', pd_action = ''send'',
      pd_description = ''Mark invoices as sent / log payment link'',
      pd_sensitive = False\<rparr>,
    \<lparr>pd_id = ''finance.invoice.void'', pd_context = ''finance'', pd_resource = ''invoice'', pd_action = ''void'',
      pd_description = ''Void an unpaid issued invoice'',
      pd_sensitive = True\<rparr>,
    \<lparr>pd_id = ''finance.invoice.approve'', pd_context = ''finance'', pd_resource = ''invoice'', pd_action = ''approve'',
      pd_description = ''Approve invoices requiring approval'',
      pd_sensitive = True\<rparr>,
    \<lparr>pd_id = ''finance.payment.read'', pd_context = ''finance'', pd_resource = ''payment'', pd_action = ''read'',
      pd_description = ''Read payments and allocations'',
      pd_sensitive = False\<rparr>,
    \<lparr>pd_id = ''finance.payment.create'', pd_context = ''finance'', pd_resource = ''payment'', pd_action = ''create'',
      pd_description = ''Record payments (manual or provider webhook)'',
      pd_sensitive = True\<rparr>]"

definition catalogue_part_4 :: "permission_def list" where
  "catalogue_part_4 =
   [\<lparr>pd_id = ''finance.payment.allocate'', pd_context = ''finance'', pd_resource = ''payment'', pd_action = ''allocate'',
      pd_description = ''Allocate payments to invoices'',
      pd_sensitive = True\<rparr>,
    \<lparr>pd_id = ''finance.credit_note.read'', pd_context = ''finance'', pd_resource = ''credit_note'', pd_action = ''read'',
      pd_description = ''Read credit notes'',
      pd_sensitive = False\<rparr>,
    \<lparr>pd_id = ''finance.credit_note.create'', pd_context = ''finance'', pd_resource = ''credit_note'', pd_action = ''create'',
      pd_description = ''Create and issue credit notes'',
      pd_sensitive = True\<rparr>,
    \<lparr>pd_id = ''finance.expense.read'', pd_context = ''finance'', pd_resource = ''expense'', pd_action = ''read'',
      pd_description = ''Read expenses'',
      pd_sensitive = False\<rparr>,
    \<lparr>pd_id = ''finance.expense.create'', pd_context = ''finance'', pd_resource = ''expense'', pd_action = ''create'',
      pd_description = ''Submit expenses'',
      pd_sensitive = False\<rparr>,
    \<lparr>pd_id = ''finance.expense.approve'', pd_context = ''finance'', pd_resource = ''expense'', pd_action = ''approve'',
      pd_description = ''Approve or reject expenses above approval_limit'',
      pd_sensitive = True\<rparr>,
    \<lparr>pd_id = ''finance.report.read'', pd_context = ''finance'', pd_resource = ''report'', pd_action = ''read'',
      pd_description = ''Read finance reports and dashboard aggregates'',
      pd_sensitive = False\<rparr>,
    \<lparr>pd_id = ''finance.customer.read'', pd_context = ''finance'', pd_resource = ''customer'', pd_action = ''read'',
      pd_description = ''Read finance customer projections and outstanding balances'',
      pd_sensitive = False\<rparr>,
    \<lparr>pd_id = ''finance.ledger.read'', pd_context = ''finance'', pd_resource = ''ledger'', pd_action = ''read'',
      pd_description = ''Read journal entries and ledger accounts'',
      pd_sensitive = False\<rparr>,
    \<lparr>pd_id = ''finance.account.manage'', pd_context = ''finance'', pd_resource = ''account'', pd_action = ''manage'',
      pd_description = ''Create and update chart of accounts'',
      pd_sensitive = True\<rparr>,
    \<lparr>pd_id = ''finance.period.read'', pd_context = ''finance'', pd_resource = ''period'', pd_action = ''read'',
      pd_description = ''Read fiscal periods and close checklists'',
      pd_sensitive = False\<rparr>,
    \<lparr>pd_id = ''finance.period.close'', pd_context = ''finance'', pd_resource = ''period'', pd_action = ''close'',
      pd_description = ''Close fiscal periods (month-end)'',
      pd_sensitive = True\<rparr>,
    \<lparr>pd_id = ''finance.period.reopen'', pd_context = ''finance'', pd_resource = ''period'', pd_action = ''reopen'',
      pd_description = ''Reopen a closed or locked fiscal period (audited)'',
      pd_sensitive = True\<rparr>,
    \<lparr>pd_id = ''finance.bank.read'', pd_context = ''finance'', pd_resource = ''bank'', pd_action = ''read'',
      pd_description = ''Read bank accounts, statements, and reconciliations'',
      pd_sensitive = False\<rparr>,
    \<lparr>pd_id = ''finance.bank.reconcile'', pd_context = ''finance'', pd_resource = ''bank'', pd_action = ''reconcile'',
      pd_description = ''Import statements and match bank transactions'',
      pd_sensitive = True\<rparr>,
    \<lparr>pd_id = ''finance.expense_policy.manage'', pd_context = ''finance'', pd_resource = ''expense_policy'', pd_action = ''manage'',
      pd_description = ''Manage expense policies, mileage, per-diem, and category limits'',
      pd_sensitive = True\<rparr>,
    \<lparr>pd_id = ''finance.reimbursement.manage'', pd_context = ''finance'', pd_resource = ''reimbursement'', pd_action = ''manage'',
      pd_description = ''Create and decide reimbursement batches'',
      pd_sensitive = True\<rparr>,
    \<lparr>pd_id = ''operations.project.read'', pd_context = ''operations'', pd_resource = ''project'', pd_action = ''read'',
      pd_description = ''Read projects'',
      pd_sensitive = False\<rparr>]"

definition catalogue_part_5 :: "permission_def list" where
  "catalogue_part_5 =
   [\<lparr>pd_id = ''operations.project.create'', pd_context = ''operations'', pd_resource = ''project'', pd_action = ''create'',
      pd_description = ''Create projects (including from won deals)'',
      pd_sensitive = False\<rparr>,
    \<lparr>pd_id = ''operations.project.update'', pd_context = ''operations'', pd_resource = ''project'', pd_action = ''update'',
      pd_description = ''Update projects (If-Match)'',
      pd_sensitive = False\<rparr>,
    \<lparr>pd_id = ''operations.project.delete'', pd_context = ''operations'', pd_resource = ''project'', pd_action = ''delete'',
      pd_description = ''Soft-delete projects'',
      pd_sensitive = True\<rparr>,
    \<lparr>pd_id = ''operations.task.read'', pd_context = ''operations'', pd_resource = ''task'', pd_action = ''read'',
      pd_description = ''Read tasks, board, calendar, and My Work'',
      pd_sensitive = False\<rparr>,
    \<lparr>pd_id = ''operations.task.create'', pd_context = ''operations'', pd_resource = ''task'', pd_action = ''create'',
      pd_description = ''Create tasks'',
      pd_sensitive = False\<rparr>,
    \<lparr>pd_id = ''operations.task.update'', pd_context = ''operations'', pd_resource = ''task'', pd_action = ''update'',
      pd_description = ''Update tasks including board moves (If-Match)'',
      pd_sensitive = False\<rparr>,
    \<lparr>pd_id = ''operations.task.delete'', pd_context = ''operations'', pd_resource = ''task'', pd_action = ''delete'',
      pd_description = ''Soft-delete tasks'',
      pd_sensitive = True\<rparr>,
    \<lparr>pd_id = ''operations.task.assign'', pd_context = ''operations'', pd_resource = ''task'', pd_action = ''assign'',
      pd_description = ''Assign or reassign tasks'',
      pd_sensitive = False\<rparr>,
    \<lparr>pd_id = ''operations.task.comment'', pd_context = ''operations'', pd_resource = ''task'', pd_action = ''comment'',
      pd_description = ''Comment on tasks (including @mentions)'',
      pd_sensitive = False\<rparr>,
    \<lparr>pd_id = ''operations.approval.read'', pd_context = ''operations'', pd_resource = ''approval'', pd_action = ''read'',
      pd_description = ''Read approval requests and inbox'',
      pd_sensitive = False\<rparr>,
    \<lparr>pd_id = ''operations.approval.decide'', pd_context = ''operations'', pd_resource = ''approval'', pd_action = ''decide'',
      pd_description = ''Approve or reject pending approvals'',
      pd_sensitive = True\<rparr>,
    \<lparr>pd_id = ''operations.approval.manage'', pd_context = ''operations'', pd_resource = ''approval'', pd_action = ''manage'',
      pd_description = ''Create and publish versioned approval policies (policy.manage)'',
      pd_sensitive = True\<rparr>,
    \<lparr>pd_id = ''operations.workflow.read'', pd_context = ''operations'', pd_resource = ''workflow'', pd_action = ''read'',
      pd_description = ''View workflow definitions, versions, instances, and monitor'',
      pd_sensitive = False\<rparr>,
    \<lparr>pd_id = ''operations.workflow.write'', pd_context = ''operations'', pd_resource = ''workflow'', pd_action = ''write'',
      pd_description = ''Create and update draft workflow definitions'',
      pd_sensitive = False\<rparr>,
    \<lparr>pd_id = ''operations.workflow.publish'', pd_context = ''operations'', pd_resource = ''workflow'', pd_action = ''publish'',
      pd_description = ''Publish a workflow definition version (human commit; never AI auto-publish)'',
      pd_sensitive = True\<rparr>,
    \<lparr>pd_id = ''operations.workflow.run'', pd_context = ''operations'', pd_resource = ''workflow'', pd_action = ''run'',
      pd_description = ''Start, cancel, or retry workflow instances'',
      pd_sensitive = False\<rparr>,
    \<lparr>pd_id = ''operations.workflow.manage'', pd_context = ''operations'', pd_resource = ''workflow'', pd_action = ''manage'',
      pd_description = ''Manage org workflow bounds (concurrency caps) and force-control runs'',
      pd_sensitive = True\<rparr>,
    \<lparr>pd_id = ''platform.notification.read'', pd_context = ''platform'', pd_resource = ''notification'', pd_action = ''read'',
      pd_description = ''Read own in-app notification feed and preferences'',
      pd_sensitive = False\<rparr>]"

definition catalogue_part_6 :: "permission_def list" where
  "catalogue_part_6 =
   [\<lparr>pd_id = ''platform.notification.manage'', pd_context = ''platform'', pd_resource = ''notification'', pd_action = ''manage'',
      pd_description = ''Manage notification templates and org-wide delivery settings'',
      pd_sensitive = True\<rparr>,
    \<lparr>pd_id = ''platform.search.read'', pd_context = ''platform'', pd_resource = ''search'', pd_action = ''read'',
      pd_description = ''Query the tenant search index'',
      pd_sensitive = False\<rparr>,
    \<lparr>pd_id = ''platform.search.reindex'', pd_context = ''platform'', pd_resource = ''search'', pd_action = ''reindex'',
      pd_description = ''Request a reindex job for the organization'',
      pd_sensitive = True\<rparr>,
    \<lparr>pd_id = ''platform.file.read'', pd_context = ''platform'', pd_resource = ''file'', pd_action = ''read'',
      pd_description = ''Read file metadata and download URLs'',
      pd_sensitive = False\<rparr>,
    \<lparr>pd_id = ''platform.file.create'', pd_context = ''platform'', pd_resource = ''file'', pd_action = ''create'',
      pd_description = ''Presign uploads and complete file objects'',
      pd_sensitive = False\<rparr>,
    \<lparr>pd_id = ''platform.analytics.read'', pd_context = ''platform'', pd_resource = ''analytics'', pd_action = ''read'',
      pd_description = ''Read analytics facts derived from the event stream'',
      pd_sensitive = False\<rparr>,
    \<lparr>pd_id = ''analytics.report.read'', pd_context = ''analytics'', pd_resource = ''report'', pd_action = ''read'',
      pd_description = ''View saved reports and governed metric definitions'',
      pd_sensitive = False\<rparr>,
    \<lparr>pd_id = ''analytics.report.write'', pd_context = ''analytics'', pd_resource = ''report'', pd_action = ''write'',
      pd_description = ''Create and update saved reports (human commit only)'',
      pd_sensitive = False\<rparr>,
    \<lparr>pd_id = ''analytics.report.run'', pd_context = ''analytics'', pd_resource = ''report'', pd_action = ''run'',
      pd_description = ''Execute a report; results are permission-filtered per viewer'',
      pd_sensitive = False\<rparr>,
    \<lparr>pd_id = ''analytics.report.share'', pd_context = ''analytics'', pd_resource = ''report'', pd_action = ''share'',
      pd_description = ''Share saved reports within the organization'',
      pd_sensitive = False\<rparr>,
    \<lparr>pd_id = ''analytics.report.export'', pd_context = ''analytics'', pd_resource = ''report'', pd_action = ''export'',
      pd_description = ''Export report results to CSV/XLSX/PDF'',
      pd_sensitive = False\<rparr>,
    \<lparr>pd_id = ''analytics.dashboard.read'', pd_context = ''analytics'', pd_resource = ''dashboard'', pd_action = ''read'',
      pd_description = ''View analytics dashboards and widgets'',
      pd_sensitive = False\<rparr>,
    \<lparr>pd_id = ''analytics.dashboard.write'', pd_context = ''analytics'', pd_resource = ''dashboard'', pd_action = ''write'',
      pd_description = ''Create and update analytics dashboards (human commit only)'',
      pd_sensitive = False\<rparr>,
    \<lparr>pd_id = ''analytics.schedule.write'', pd_context = ''analytics'', pd_resource = ''schedule'', pd_action = ''write'',
      pd_description = ''Create and manage scheduled report delivery'',
      pd_sensitive = True\<rparr>,
    \<lparr>pd_id = ''ai.copilot.use'', pd_context = ''ai'', pd_resource = ''copilot'', pd_action = ''use'',
      pd_description = ''Use the AI copilot chat, ask-mode, and retrieval'',
      pd_sensitive = False\<rparr>,
    \<lparr>pd_id = ''ai.proposal.create'', pd_context = ''ai'', pd_resource = ''proposal'', pd_action = ''create'',
      pd_description = ''Create propose-then-commit write proposals from AI tools'',
      pd_sensitive = False\<rparr>,
    \<lparr>pd_id = ''ai.proposal.commit'', pd_context = ''ai'', pd_resource = ''proposal'', pd_action = ''commit'',
      pd_description = ''Confirm or cancel AI write proposals'',
      pd_sensitive = True\<rparr>,
    \<lparr>pd_id = ''ai.settings.read'', pd_context = ''ai'', pd_resource = ''settings'', pd_action = ''read'',
      pd_description = ''Read organization AI settings and token budget'',
      pd_sensitive = False\<rparr>]"

definition catalogue_part_7 :: "permission_def list" where
  "catalogue_part_7 =
   [\<lparr>pd_id = ''ai.settings.manage'', pd_context = ''ai'', pd_resource = ''settings'', pd_action = ''manage'',
      pd_description = ''Manage AI module toggles, auto-execute allow-list, and budget'',
      pd_sensitive = True\<rparr>,
    \<lparr>pd_id = ''ai.insights.read'', pd_context = ''ai'', pd_resource = ''insights'', pd_action = ''read'',
      pd_description = ''Read dashboard AI Insights observations'',
      pd_sensitive = False\<rparr>,
    \<lparr>pd_id = ''ai.document.extract'', pd_context = ''ai'', pd_resource = ''document'', pd_action = ''extract'',
      pd_description = ''Run Document AI extraction into expense/invoice draft proposals'',
      pd_sensitive = False\<rparr>,
    \<lparr>pd_id = ''hr.employee.read'', pd_context = ''hr'', pd_resource = ''employee'', pd_action = ''read'',
      pd_description = ''View employee directory and non-restricted profile fields'',
      pd_sensitive = False\<rparr>,
    \<lparr>pd_id = ''hr.employee.read_sensitive'', pd_context = ''hr'', pd_resource = ''employee'', pd_action = ''read_sensitive'',
      pd_description = ''View compensation, government IDs, bank/tax identifiers'',
      pd_sensitive = True\<rparr>,
    \<lparr>pd_id = ''hr.field.compensation_read'', pd_context = ''hr'', pd_resource = ''field'', pd_action = ''compensation_read'',
      pd_description = ''View compensation component amounts (field-level)'',
      pd_sensitive = True\<rparr>,
    \<lparr>pd_id = ''hr.field.government_id_read'', pd_context = ''hr'', pd_resource = ''field'', pd_action = ''government_id_read'',
      pd_description = ''View government ID / tax identifiers (field-level)'',
      pd_sensitive = True\<rparr>,
    \<lparr>pd_id = ''hr.field.bank_read'', pd_context = ''hr'', pd_resource = ''field'', pd_action = ''bank_read'',
      pd_description = ''View employee bank details (field-level)'',
      pd_sensitive = True\<rparr>,
    \<lparr>pd_id = ''finance.field.bank_account_read'', pd_context = ''finance'', pd_resource = ''field'', pd_action = ''bank_account_read'',
      pd_description = ''View full bank account identifiers beyond mask (field-level)'',
      pd_sensitive = True\<rparr>,
    \<lparr>pd_id = ''finance.field.salary_journal_read'', pd_context = ''finance'', pd_resource = ''field'', pd_action = ''salary_journal_read'',
      pd_description = ''View salary-adjacent journal line amounts (field-level)'',
      pd_sensitive = True\<rparr>,
    \<lparr>pd_id = ''admin.access_review.read'', pd_context = ''admin'', pd_resource = ''access_review'', pd_action = ''read'',
      pd_description = ''Run access-review who-could / who-did queries and exports'',
      pd_sensitive = True\<rparr>,
    \<lparr>pd_id = ''admin.access_review.manage'', pd_context = ''admin'', pd_resource = ''access_review'', pd_action = ''manage'',
      pd_description = ''Kick off access-review runs'',
      pd_sensitive = True\<rparr>,
    \<lparr>pd_id = ''admin.audit.verify'', pd_context = ''admin'', pd_resource = ''audit'', pd_action = ''verify'',
      pd_description = ''Run audit hash-chain verification'',
      pd_sensitive = True\<rparr>,
    \<lparr>pd_id = ''admin.retention.manage'', pd_context = ''admin'', pd_resource = ''retention'', pd_action = ''manage'',
      pd_description = ''Configure per-org data retention'',
      pd_sensitive = True\<rparr>,
    \<lparr>pd_id = ''admin.api_key.manage'', pd_context = ''admin'', pd_resource = ''api_key'', pd_action = ''manage'',
      pd_description = ''Create, rotate, and revoke organization API keys'',
      pd_sensitive = True\<rparr>,
    \<lparr>pd_id = ''admin.webhook.read'', pd_context = ''admin'', pd_resource = ''webhook'', pd_action = ''read'',
      pd_description = ''List webhook endpoints and delivery logs'',
      pd_sensitive = False\<rparr>,
    \<lparr>pd_id = ''admin.webhook.write'', pd_context = ''admin'', pd_resource = ''webhook'', pd_action = ''write'',
      pd_description = ''Create, update, rotate, and disable outbound webhook endpoints'',
      pd_sensitive = True\<rparr>,
    \<lparr>pd_id = ''admin.webhook.replay'', pd_context = ''admin'', pd_resource = ''webhook'', pd_action = ''replay'',
      pd_description = ''Re-enqueue a logged webhook delivery'',
      pd_sensitive = True\<rparr>]"

definition catalogue_part_8 :: "permission_def list" where
  "catalogue_part_8 =
   [\<lparr>pd_id = ''admin.marketplace.read'', pd_context = ''admin'', pd_resource = ''marketplace'', pd_action = ''read'',
      pd_description = ''Browse marketplace catalogue, listing detail, and org installs'',
      pd_sensitive = False\<rparr>,
    \<lparr>pd_id = ''admin.marketplace.write'', pd_context = ''admin'', pd_resource = ''marketplace'', pd_action = ''write'',
      pd_description = ''Create and submit marketplace app listings (publisher)'',
      pd_sensitive = True\<rparr>,
    \<lparr>pd_id = ''admin.marketplace.review'', pd_context = ''admin'', pd_resource = ''marketplace'', pd_action = ''review'',
      pd_description = ''Complete review checklist and approve/reject/publish listings'',
      pd_sensitive = True\<rparr>,
    \<lparr>pd_id = ''admin.marketplace.install'', pd_context = ''admin'', pd_resource = ''marketplace'', pd_action = ''install'',
      pd_description = ''Install marketplace apps into the organization with scoped consent'',
      pd_sensitive = True\<rparr>,
    \<lparr>pd_id = ''admin.marketplace.uninstall'', pd_context = ''admin'', pd_resource = ''marketplace'', pd_action = ''uninstall'',
      pd_description = ''Uninstall apps and revoke all tokens and access paths'',
      pd_sensitive = True\<rparr>,
    \<lparr>pd_id = ''hr.employee.write'', pd_context = ''hr'', pd_resource = ''employee'', pd_action = ''write'',
      pd_description = ''Create and update employee records (non-restricted fields)'',
      pd_sensitive = True\<rparr>,
    \<lparr>pd_id = ''hr.employee.onboard'', pd_context = ''hr'', pd_resource = ''employee'', pd_action = ''onboard'',
      pd_description = ''Start EmployeeOnboarding Temporal workflow'',
      pd_sensitive = True\<rparr>,
    \<lparr>pd_id = ''hr.employee.offboard'', pd_context = ''hr'', pd_resource = ''employee'', pd_action = ''offboard'',
      pd_description = ''Start EmployeeOffboarding Temporal workflow and revoke access'',
      pd_sensitive = True\<rparr>,
    \<lparr>pd_id = ''hr.document.read'', pd_context = ''hr'', pd_resource = ''document'', pd_action = ''read'',
      pd_description = ''View employee HR documents metadata'',
      pd_sensitive = False\<rparr>,
    \<lparr>pd_id = ''hr.document.write'', pd_context = ''hr'', pd_resource = ''document'', pd_action = ''write'',
      pd_description = ''Attach and manage employee HR documents'',
      pd_sensitive = True\<rparr>,
    \<lparr>pd_id = ''hr.attendance.read'', pd_context = ''hr'', pd_resource = ''attendance'', pd_action = ''read'',
      pd_description = ''View attendance records (scoped)'',
      pd_sensitive = False\<rparr>,
    \<lparr>pd_id = ''hr.attendance.write'', pd_context = ''hr'', pd_resource = ''attendance'', pd_action = ''write'',
      pd_description = ''Record attendance, manage schedules and holidays'',
      pd_sensitive = True\<rparr>,
    \<lparr>pd_id = ''hr.leave.read'', pd_context = ''hr'', pd_resource = ''leave'', pd_action = ''read'',
      pd_description = ''View leave types, balances, requests, and team calendar'',
      pd_sensitive = False\<rparr>,
    \<lparr>pd_id = ''hr.leave.write'', pd_context = ''hr'', pd_resource = ''leave'', pd_action = ''write'',
      pd_description = ''Request leave, manage leave types, run carry-forward'',
      pd_sensitive = True\<rparr>,
    \<lparr>pd_id = ''hr.leave.approve'', pd_context = ''hr'', pd_resource = ''leave'', pd_action = ''approve'',
      pd_description = ''Approve or reject leave requests (via approval engine callback)'',
      pd_sensitive = True\<rparr>,
    \<lparr>pd_id = ''hr.payroll.read'', pd_context = ''hr'', pd_resource = ''payroll'', pd_action = ''read'',
      pd_description = ''View payroll runs and payslips (every figure read is audited)'',
      pd_sensitive = True\<rparr>,
    \<lparr>pd_id = ''hr.payroll.write'', pd_context = ''hr'', pd_resource = ''payroll'', pd_action = ''write'',
      pd_description = ''Create draft payroll runs and configure earning/deduction components'',
      pd_sensitive = True\<rparr>,
    \<lparr>pd_id = ''hr.payroll.approve'', pd_context = ''hr'', pd_resource = ''payroll'', pd_action = ''approve'',
      pd_description = ''Approve payroll runs (via approval engine callback or direct approve)'',
      pd_sensitive = True\<rparr>]"

definition catalogue_part_9 :: "permission_def list" where
  "catalogue_part_9 =
   [\<lparr>pd_id = ''hr.payroll.run'', pd_context = ''hr'', pd_resource = ''payroll'', pd_action = ''run'',
      pd_description = ''Calculate and pay payroll runs (journal post via Finance API)'',
      pd_sensitive = True\<rparr>,
    \<lparr>pd_id = ''finance.journal.post'', pd_context = ''finance'', pd_resource = ''journal'', pd_action = ''post'',
      pd_description = ''Post balanced journal entries (payroll and other source types)'',
      pd_sensitive = True\<rparr>,
    \<lparr>pd_id = ''inventory.item.read'', pd_context = ''inventory'', pd_resource = ''item'', pd_action = ''read'',
      pd_description = ''View inventory items and stock levels'',
      pd_sensitive = False\<rparr>,
    \<lparr>pd_id = ''inventory.item.write'', pd_context = ''inventory'', pd_resource = ''item'', pd_action = ''write'',
      pd_description = ''Create and update inventory items'',
      pd_sensitive = True\<rparr>,
    \<lparr>pd_id = ''inventory.warehouse.read'', pd_context = ''inventory'', pd_resource = ''warehouse'', pd_action = ''read'',
      pd_description = ''View warehouses'',
      pd_sensitive = False\<rparr>,
    \<lparr>pd_id = ''inventory.warehouse.write'', pd_context = ''inventory'', pd_resource = ''warehouse'', pd_action = ''write'',
      pd_description = ''Create and update warehouses'',
      pd_sensitive = True\<rparr>,
    \<lparr>pd_id = ''inventory.stock.read'', pd_context = ''inventory'', pd_resource = ''stock'', pd_action = ''read'',
      pd_description = ''View stock levels and movement history'',
      pd_sensitive = False\<rparr>,
    \<lparr>pd_id = ''inventory.stock.move'', pd_context = ''inventory'', pd_resource = ''stock'', pd_action = ''move'',
      pd_description = ''Record stock movements (receipt, issue, adjustment, transfer) and reconcile'',
      pd_sensitive = True\<rparr>,
    \<lparr>pd_id = ''inventory.supplier.read'', pd_context = ''inventory'', pd_resource = ''supplier'', pd_action = ''read'',
      pd_description = ''View suppliers'',
      pd_sensitive = False\<rparr>,
    \<lparr>pd_id = ''inventory.supplier.write'', pd_context = ''inventory'', pd_resource = ''supplier'', pd_action = ''write'',
      pd_description = ''Create and update suppliers'',
      pd_sensitive = True\<rparr>,
    \<lparr>pd_id = ''inventory.purchase_request.read'', pd_context = ''inventory'', pd_resource = ''purchase_request'', pd_action = ''read'',
      pd_description = ''View purchase requests'',
      pd_sensitive = False\<rparr>,
    \<lparr>pd_id = ''inventory.purchase_request.write'', pd_context = ''inventory'', pd_resource = ''purchase_request'', pd_action = ''write'',
      pd_description = ''Create, submit, and decide purchase requests'',
      pd_sensitive = True\<rparr>,
    \<lparr>pd_id = ''inventory.purchase_order.read'', pd_context = ''inventory'', pd_resource = ''purchase_order'', pd_action = ''read'',
      pd_description = ''View purchase orders'',
      pd_sensitive = False\<rparr>,
    \<lparr>pd_id = ''inventory.purchase_order.write'', pd_context = ''inventory'', pd_resource = ''purchase_order'', pd_action = ''write'',
      pd_description = ''Create and issue purchase orders'',
      pd_sensitive = True\<rparr>,
    \<lparr>pd_id = ''inventory.goods_receipt.read'', pd_context = ''inventory'', pd_resource = ''goods_receipt'', pd_action = ''read'',
      pd_description = ''View goods receipts'',
      pd_sensitive = False\<rparr>,
    \<lparr>pd_id = ''inventory.goods_receipt.write'', pd_context = ''inventory'', pd_resource = ''goods_receipt'', pd_action = ''write'',
      pd_description = ''Create and post goods receipts (updates stock + posts finance journal)'',
      pd_sensitive = True\<rparr>,
    \<lparr>pd_id = ''inventory.asset.read'', pd_context = ''inventory'', pd_resource = ''asset'', pd_action = ''read'',
      pd_description = ''View fixed assets, assignments, and maintenance schedules'',
      pd_sensitive = False\<rparr>,
    \<lparr>pd_id = ''inventory.asset.write'', pd_context = ''inventory'', pd_resource = ''asset'', pd_action = ''write'',
      pd_description = ''Create/update fixed assets, assign/return, depreciate, schedule maintenance'',
      pd_sensitive = True\<rparr>]"

definition catalogue_part_10 :: "permission_def list" where
  "catalogue_part_10 =
   [\<lparr>pd_id = ''sales.order.read'', pd_context = ''sales'', pd_resource = ''order'', pd_action = ''read'',
      pd_description = ''View sales orders'',
      pd_sensitive = False\<rparr>,
    \<lparr>pd_id = ''sales.order.create'', pd_context = ''sales'', pd_resource = ''order'', pd_action = ''create'',
      pd_description = ''Create sales orders from won deals or accepted quotes'',
      pd_sensitive = False\<rparr>,
    \<lparr>pd_id = ''sales.order.update'', pd_context = ''sales'', pd_resource = ''order'', pd_action = ''update'',
      pd_description = ''Update draft sales order status and lines'',
      pd_sensitive = False\<rparr>,
    \<lparr>pd_id = ''sales.contract.read'', pd_context = ''sales'', pd_resource = ''contract'', pd_action = ''read'',
      pd_description = ''View customer contracts and renewal pipeline'',
      pd_sensitive = False\<rparr>,
    \<lparr>pd_id = ''sales.contract.create'', pd_context = ''sales'', pd_resource = ''contract'', pd_action = ''create'',
      pd_description = ''Create customer contracts'',
      pd_sensitive = False\<rparr>,
    \<lparr>pd_id = ''sales.contract.update'', pd_context = ''sales'', pd_resource = ''contract'', pd_action = ''update'',
      pd_description = ''Update draft customer contracts'',
      pd_sensitive = False\<rparr>,
    \<lparr>pd_id = ''sales.contract.publish'', pd_context = ''sales'', pd_resource = ''contract'', pd_action = ''publish'',
      pd_description = ''Publish a customer contract as final (immutable term)'',
      pd_sensitive = True\<rparr>,
    \<lparr>pd_id = ''sales.territory.read'', pd_context = ''sales'', pd_resource = ''territory'', pd_action = ''read'',
      pd_description = ''View sales territories and assignments'',
      pd_sensitive = False\<rparr>,
    \<lparr>pd_id = ''sales.territory.manage'', pd_context = ''sales'', pd_resource = ''territory'', pd_action = ''manage'',
      pd_description = ''Create/update territories and assign customers/deals'',
      pd_sensitive = True\<rparr>,
    \<lparr>pd_id = ''finance.tax.read'', pd_context = ''finance'', pd_resource = ''tax'', pd_action = ''read'',
      pd_description = ''View tax groups and versioned tax rates'',
      pd_sensitive = False\<rparr>,
    \<lparr>pd_id = ''finance.tax.manage'', pd_context = ''finance'', pd_resource = ''tax'', pd_action = ''manage'',
      pd_description = ''Create tax groups and append new tax rate versions (never edit in place)'',
      pd_sensitive = True\<rparr>,
    \<lparr>pd_id = ''finance.dunning.read'', pd_context = ''finance'', pd_resource = ''dunning'', pd_action = ''read'',
      pd_description = ''View dunning profiles and schedules'',
      pd_sensitive = False\<rparr>,
    \<lparr>pd_id = ''finance.dunning.manage'', pd_context = ''finance'', pd_resource = ''dunning'', pd_action = ''manage'',
      pd_description = ''Configure org and customer dunning profiles driving InvoiceDunning'',
      pd_sensitive = True\<rparr>,
    \<lparr>pd_id = ''finance.entity.read'', pd_context = ''finance'', pd_resource = ''entity'', pd_action = ''read'',
      pd_description = ''View legal entities within the organization'',
      pd_sensitive = False\<rparr>,
    \<lparr>pd_id = ''finance.entity.manage'', pd_context = ''finance'', pd_resource = ''entity'', pd_action = ''manage'',
      pd_description = ''Create and update legal entities (multi-entity foundations)'',
      pd_sensitive = True\<rparr>,
    \<lparr>pd_id = ''finance.consolidation.run'', pd_context = ''finance'', pd_resource = ''consolidation'', pd_action = ''run'',
      pd_description = ''Run multi-entity consolidation with intercompany eliminations'',
      pd_sensitive = True\<rparr>,
    \<lparr>pd_id = ''finance.consolidation.read'', pd_context = ''finance'', pd_resource = ''consolidation'', pd_action = ''read'',
      pd_description = ''View consolidation runs and consolidated statements'',
      pd_sensitive = False\<rparr>,
    \<lparr>pd_id = ''finance.intercompany.manage'', pd_context = ''finance'', pd_resource = ''intercompany'', pd_action = ''manage'',
      pd_description = ''Create and post intercompany transaction pairs'',
      pd_sensitive = True\<rparr>]"

definition catalogue_part_11 :: "permission_def list" where
  "catalogue_part_11 =
   [\<lparr>pd_id = ''admin.scim.manage'', pd_context = ''admin'', pd_resource = ''scim'', pd_action = ''manage'',
      pd_description = ''Manage SCIM tokens and view provisioning activity'',
      pd_sensitive = True\<rparr>,
    \<lparr>pd_id = ''admin.cmk.read'', pd_context = ''admin'', pd_resource = ''cmk'', pd_action = ''read'',
      pd_description = ''View customer-managed encryption key status'',
      pd_sensitive = True\<rparr>,
    \<lparr>pd_id = ''admin.cmk.rotate'', pd_context = ''admin'', pd_resource = ''cmk'', pd_action = ''rotate'',
      pd_description = ''Rotate the org customer-managed wrap key and re-wrap DEKs'',
      pd_sensitive = True\<rparr>,
    \<lparr>pd_id = ''admin.cmk.revoke'', pd_context = ''admin'', pd_resource = ''cmk'', pd_action = ''revoke'',
      pd_description = ''Revoke a customer-managed wrap key (fails subsequent decrypt)'',
      pd_sensitive = True\<rparr>,
    \<lparr>pd_id = ''admin.network.manage'', pd_context = ''admin'', pd_resource = ''network'', pd_action = ''manage'',
      pd_description = ''Manage org network allowlist and infrastructure tier'',
      pd_sensitive = True\<rparr>,
    \<lparr>pd_id = ''admin.sla.read'', pd_context = ''admin'', pd_resource = ''sla'', pd_action = ''read'',
      pd_description = ''View per-tenant SLA targets and reports'',
      pd_sensitive = False\<rparr>,
    \<lparr>pd_id = ''admin.sla.manage'', pd_context = ''admin'', pd_resource = ''sla'', pd_action = ''manage'',
      pd_description = ''Configure per-tenant SLA targets'',
      pd_sensitive = True\<rparr>,
    \<lparr>pd_id = ''admin.ediscovery.export'', pd_context = ''admin'', pd_resource = ''ediscovery'', pd_action = ''export'',
      pd_description = ''Place legal hold and export audit/eDiscovery packs'',
      pd_sensitive = True\<rparr>,
    \<lparr>pd_id = ''workspace.grant.delegate'', pd_context = ''workspace'', pd_resource = ''grant'', pd_action = ''delegate'',
      pd_description = ''Delegate a permission/scope to another membership with expiry'',
      pd_sensitive = True\<rparr>,
    \<lparr>pd_id = ''workspace.grant.inherit'', pd_context = ''workspace'', pd_resource = ''grant'', pd_action = ''inherit'',
      pd_description = ''Grant inherited role permissions down the team hierarchy'',
      pd_sensitive = True\<rparr>,
    \<lparr>pd_id = ''operations.timesheet.read'', pd_context = ''operations'', pd_resource = ''timesheet'', pd_action = ''read'',
      pd_description = ''View timesheets and time entries'',
      pd_sensitive = False\<rparr>,
    \<lparr>pd_id = ''operations.timesheet.write'', pd_context = ''operations'', pd_resource = ''timesheet'', pd_action = ''write'',
      pd_description = ''Create and edit own draft timesheets and time entries'',
      pd_sensitive = False\<rparr>,
    \<lparr>pd_id = ''operations.timesheet.submit'', pd_context = ''operations'', pd_resource = ''timesheet'', pd_action = ''submit'',
      pd_description = ''Submit own timesheet for approval'',
      pd_sensitive = False\<rparr>,
    \<lparr>pd_id = ''operations.timesheet.approve'', pd_context = ''operations'', pd_resource = ''timesheet'', pd_action = ''approve'',
      pd_description = ''Approve or reject others' submitted timesheets'',
      pd_sensitive = True\<rparr>,
    \<lparr>pd_id = ''operations.capacity.read'', pd_context = ''operations'', pd_resource = ''capacity'', pd_action = ''read'',
      pd_description = ''View resource capacity and overload'',
      pd_sensitive = False\<rparr>,
    \<lparr>pd_id = ''operations.capacity.manage'', pd_context = ''operations'', pd_resource = ''capacity'', pd_action = ''manage'',
      pd_description = ''Set member/project capacity allocations'',
      pd_sensitive = True\<rparr>,
    \<lparr>pd_id = ''ai.meeting_summary.read'', pd_context = ''ai'', pd_resource = ''meeting_summary'', pd_action = ''read'',
      pd_description = ''View meeting summary suggestions'',
      pd_sensitive = False\<rparr>,
    \<lparr>pd_id = ''ai.meeting_summary.accept'', pd_context = ''ai'', pd_resource = ''meeting_summary'', pd_action = ''accept'',
      pd_description = ''Accept a meeting summary suggestion (human commit)'',
      pd_sensitive = False\<rparr>]"

definition catalogue_part_12 :: "permission_def list" where
  "catalogue_part_12 =
   [\<lparr>pd_id = ''ai.agent.read'', pd_context = ''ai'', pd_resource = ''agent'', pd_action = ''read'',
      pd_description = ''View agent policies, runs, monitor, and review reports'',
      pd_sensitive = False\<rparr>,
    \<lparr>pd_id = ''ai.agent.run'', pd_context = ''ai'', pd_resource = ''agent'', pd_action = ''run'',
      pd_description = ''Start governed autonomous agent runs within policy'',
      pd_sensitive = True\<rparr>,
    \<lparr>pd_id = ''ai.agent.manage'', pd_context = ''ai'', pd_resource = ''agent'', pd_action = ''manage'',
      pd_description = ''Create and version agent policies and tenant prompt packs'',
      pd_sensitive = True\<rparr>,
    \<lparr>pd_id = ''ai.agent.kill'', pd_context = ''ai'', pd_resource = ''agent'', pd_action = ''kill'',
      pd_description = ''Engage org-wide or per-agent kill switches'',
      pd_sensitive = True\<rparr>,
    \<lparr>pd_id = ''custom.builder.read'', pd_context = ''custom'', pd_resource = ''builder'', pd_action = ''read'',
      pd_description = ''View custom entity definitions, views, and layouts'',
      pd_sensitive = False\<rparr>,
    \<lparr>pd_id = ''custom.builder.manage'', pd_context = ''custom'', pd_resource = ''builder'', pd_action = ''manage'',
      pd_description = ''Define, publish, and delete custom entities (not granted to Member by default)'',
      pd_sensitive = True\<rparr>,
    \<lparr>pd_id = ''custom.package.export'', pd_context = ''custom'', pd_resource = ''package'', pd_action = ''export'',
      pd_description = ''Export customisation packages between environments'',
      pd_sensitive = True\<rparr>,
    \<lparr>pd_id = ''custom.package.import'', pd_context = ''custom'', pd_resource = ''package'', pd_action = ''import'',
      pd_description = ''Import customisation packages into this organization'',
      pd_sensitive = True\<rparr>,
    \<lparr>pd_id = ''custom.demo_asset.read'', pd_context = ''custom'', pd_resource = ''demo_asset'', pd_action = ''read'',
      pd_description = ''Fixture slug permission for deny-matrix / catalogue registration path tests'',
      pd_sensitive = False\<rparr>,
    \<lparr>pd_id = ''custom.demo_asset.write'', pd_context = ''custom'', pd_resource = ''demo_asset'', pd_action = ''write'',
      pd_description = ''Fixture slug write permission '' @ em_dash @ '' Member denied by default'',
      pd_sensitive = True\<rparr>]"

definition PERMISSION_CATALOGUE :: "permission_def list" where
  "PERMISSION_CATALOGUE =
     catalogue_part_1 @ catalogue_part_2 @ catalogue_part_3 @ catalogue_part_4 @
     catalogue_part_5 @ catalogue_part_6 @ catalogue_part_7 @ catalogue_part_8 @
     catalogue_part_9 @ catalogue_part_10 @ catalogue_part_11 @ catalogue_part_12"

definition SENSITIVE_ACTIONS :: "string list" where
  "SENSITIVE_ACTIONS =
   [''workspace.member.invite'', ''workspace.role.assign'', ''workspace.member.revoke'',
    ''workspace.org.update_settings'', ''finance.invoice.approve'', ''finance.invoice.issue'',
    ''finance.invoice.void'', ''finance.payment.create'', ''finance.payment.allocate'',
    ''finance.credit_note.create'', ''finance.expense.approve'', ''operations.approval.decide'',
    ''operations.approval.manage'', ''operations.workflow.publish'',
    ''operations.workflow.manage'', ''ai.settings.manage'', ''hr.employee.read_sensitive'',
    ''hr.field.compensation_read'', ''hr.field.government_id_read'', ''hr.field.bank_read'',
    ''finance.field.bank_account_read'', ''finance.field.salary_journal_read'',
    ''admin.access_review.read'', ''admin.access_review.manage'', ''admin.audit.verify'',
    ''admin.retention.manage'', ''admin.api_key.manage'', ''admin.webhook.write'',
    ''admin.webhook.replay'', ''admin.marketplace.write'', ''admin.marketplace.review'',
    ''admin.marketplace.install'', ''admin.marketplace.uninstall'', ''hr.employee.write'',
    ''hr.employee.onboard'', ''hr.employee.offboard'', ''hr.document.write'',
    ''hr.attendance.write'', ''hr.leave.write'', ''hr.leave.approve'', ''hr.payroll.read'',
    ''hr.payroll.write'', ''hr.payroll.approve'', ''hr.payroll.run'', ''finance.journal.post'',
    ''finance.account.manage'', ''finance.period.close'', ''finance.period.reopen'',
    ''finance.bank.reconcile'', ''finance.expense_policy.manage'',
    ''finance.reimbursement.manage'', ''inventory.item.write'', ''inventory.warehouse.write'',
    ''inventory.stock.move'', ''inventory.supplier.write'', ''inventory.purchase_request.write'',
    ''inventory.purchase_order.write'', ''inventory.goods_receipt.write'',
    ''inventory.asset.write'', ''analytics.schedule.write'', ''sales.contract.publish'',
    ''sales.territory.manage'', ''finance.tax.manage'', ''finance.dunning.manage'',
    ''finance.entity.manage'', ''finance.consolidation.run'', ''finance.intercompany.manage'',
    ''admin.scim.manage'', ''admin.cmk.read'', ''admin.cmk.rotate'', ''admin.cmk.revoke'',
    ''admin.network.manage'', ''admin.sla.manage'', ''admin.ediscovery.export'',
    ''workspace.grant.delegate'', ''workspace.grant.inherit'', ''operations.timesheet.approve'',
    ''operations.capacity.manage'', ''ai.agent.run'', ''ai.agent.manage'', ''ai.agent.kill'',
    ''custom.builder.manage'', ''custom.package.export'', ''custom.package.import'',
    ''custom.demo_asset.write'']"

text \<open>\<open>str\<close> values are ordered by their bytes; \<open>sort_unstable\<close> on distinct strings has one result.\<close>

fun str_le :: "string \<Rightarrow> string \<Rightarrow> bool" where
  "str_le [] t = True"
| "str_le (x # xs) [] = False"
| "str_le (x # xs) (y # ys) =
     ((of_char x :: nat) < of_char y \<or> x = y \<and> str_le xs ys)"

definition catalogue_ids :: "string list" where
  "catalogue_ids = sort_by str_le (map pd_id PERMISSION_CATALOGUE)"

definition CUSTOM_RESERVED_RESOURCES :: "string list" where
  "CUSTOM_RESERVED_RESOURCES = [''builder'', ''package'', ''demo_asset'']"

definition is_ascii_lowercase :: "char \<Rightarrow> bool" where
  "is_ascii_lowercase c \<longleftrightarrow> 97 \<le> (of_char c :: nat) \<and> (of_char c :: nat) \<le> 122"

definition is_ascii_digit :: "char \<Rightarrow> bool" where
  "is_ascii_digit c \<longleftrightarrow> 48 \<le> (of_char c :: nat) \<and> (of_char c :: nat) \<le> 57"

text \<open>\<open>str::rsplit_once\<close>: the parts before and after the last occurrence of a character.\<close>

fun rsplit_once :: "char \<Rightarrow> string \<Rightarrow> (string \<times> string) option" where
  "rsplit_once c [] = None"
| "rsplit_once c (x # xs) =
     (case rsplit_once c xs of
        Some (a, b) \<Rightarrow> Some (x # a, b)
      | None \<Rightarrow> if x = c then Some ([], xs) else None)"

text \<open>
  \<open>resource.chars()\<close> yields code points; on the accepted slugs, which are ASCII, these are the
  bytes, and a byte of a longer code point is rejected like the code point itself.
\<close>

definition is_dynamic_custom_entity_permission :: "string \<Rightarrow> bool" where
  "is_dynamic_custom_entity_permission i =
     (case strip_prefix ''custom.'' i of
        None \<Rightarrow> False
      | Some rest \<Rightarrow>
          (case rsplit_once CHR ''.'' rest of
             None \<Rightarrow> False
           | Some (resource, action) \<Rightarrow>
               if action \<noteq> ''read'' \<and> action \<noteq> ''write'' then False
               else if List.member CUSTOM_RESERVED_RESOURCES resource then False
               else (case resource of
                  [] \<Rightarrow> False
                | first # chars \<Rightarrow>
                    if \<not> is_ascii_lowercase first then False
                    else if length resource > 64 then False
                    else list_all (\<lambda>c. is_ascii_lowercase c \<or> is_ascii_digit c \<or> c = CHR ''_'') chars)))"

section \<open>Constructors of permission ids\<close>

definition workspace_dashboard_read :: permission_id where [perm_ids]:
  "workspace_dashboard_read = ''workspace.dashboard.read''"

definition workspace_org_create :: permission_id where [perm_ids]:
  "workspace_org_create = ''workspace.org.create''"

definition workspace_org_read :: permission_id where [perm_ids]:
  "workspace_org_read = ''workspace.org.read''"

definition workspace_org_update_settings :: permission_id where [perm_ids]:
  "workspace_org_update_settings = ''workspace.org.update_settings''"

definition workspace_member_read :: permission_id where [perm_ids]:
  "workspace_member_read = ''workspace.member.read''"

definition workspace_member_invite :: permission_id where [perm_ids]:
  "workspace_member_invite = ''workspace.member.invite''"

definition workspace_member_suspend :: permission_id where [perm_ids]:
  "workspace_member_suspend = ''workspace.member.suspend''"

definition workspace_member_revoke :: permission_id where [perm_ids]:
  "workspace_member_revoke = ''workspace.member.revoke''"

definition workspace_role_read :: permission_id where [perm_ids]:
  "workspace_role_read = ''workspace.role.read''"

definition workspace_role_manage :: permission_id where [perm_ids]:
  "workspace_role_manage = ''workspace.role.manage''"

definition workspace_role_assign :: permission_id where [perm_ids]:
  "workspace_role_assign = ''workspace.role.assign''"

definition workspace_team_read :: permission_id where [perm_ids]:
  "workspace_team_read = ''workspace.team.read''"

definition workspace_team_manage :: permission_id where [perm_ids]:
  "workspace_team_manage = ''workspace.team.manage''"

definition workspace_department_read :: permission_id where [perm_ids]:
  "workspace_department_read = ''workspace.department.read''"

definition workspace_department_manage :: permission_id where [perm_ids]:
  "workspace_department_manage = ''workspace.department.manage''"

definition sales_customer_read :: permission_id where [perm_ids]:
  "sales_customer_read = ''sales.customer.read''"

definition sales_customer_create :: permission_id where [perm_ids]:
  "sales_customer_create = ''sales.customer.create''"

definition sales_customer_update :: permission_id where [perm_ids]:
  "sales_customer_update = ''sales.customer.update''"

definition sales_customer_delete :: permission_id where [perm_ids]:
  "sales_customer_delete = ''sales.customer.delete''"

definition sales_contact_read :: permission_id where [perm_ids]:
  "sales_contact_read = ''sales.contact.read''"

definition sales_contact_create :: permission_id where [perm_ids]:
  "sales_contact_create = ''sales.contact.create''"

definition sales_contact_update :: permission_id where [perm_ids]:
  "sales_contact_update = ''sales.contact.update''"

definition sales_lead_read :: permission_id where [perm_ids]:
  "sales_lead_read = ''sales.lead.read''"

definition sales_lead_create :: permission_id where [perm_ids]:
  "sales_lead_create = ''sales.lead.create''"

definition sales_lead_update :: permission_id where [perm_ids]:
  "sales_lead_update = ''sales.lead.update''"

definition sales_lead_convert :: permission_id where [perm_ids]:
  "sales_lead_convert = ''sales.lead.convert''"

definition sales_pipeline_read :: permission_id where [perm_ids]:
  "sales_pipeline_read = ''sales.pipeline.read''"

definition sales_pipeline_manage :: permission_id where [perm_ids]:
  "sales_pipeline_manage = ''sales.pipeline.manage''"

definition sales_deal_read :: permission_id where [perm_ids]:
  "sales_deal_read = ''sales.deal.read''"

definition sales_deal_create :: permission_id where [perm_ids]:
  "sales_deal_create = ''sales.deal.create''"

definition sales_deal_update :: permission_id where [perm_ids]:
  "sales_deal_update = ''sales.deal.update''"

definition sales_deal_win :: permission_id where [perm_ids]:
  "sales_deal_win = ''sales.deal.win''"

definition sales_deal_lose :: permission_id where [perm_ids]:
  "sales_deal_lose = ''sales.deal.lose''"

definition sales_quote_read :: permission_id where [perm_ids]:
  "sales_quote_read = ''sales.quote.read''"

definition sales_quote_create :: permission_id where [perm_ids]:
  "sales_quote_create = ''sales.quote.create''"

definition sales_quote_update :: permission_id where [perm_ids]:
  "sales_quote_update = ''sales.quote.update''"

definition sales_quote_accept :: permission_id where [perm_ids]:
  "sales_quote_accept = ''sales.quote.accept''"

definition sales_product_read :: permission_id where [perm_ids]:
  "sales_product_read = ''sales.product.read''"

definition sales_product_manage :: permission_id where [perm_ids]:
  "sales_product_manage = ''sales.product.manage''"

definition sales_activity_read :: permission_id where [perm_ids]:
  "sales_activity_read = ''sales.activity.read''"

definition sales_activity_create :: permission_id where [perm_ids]:
  "sales_activity_create = ''sales.activity.create''"

definition sales_import_create :: permission_id where [perm_ids]:
  "sales_import_create = ''sales.import.create''"

definition sales_report_read :: permission_id where [perm_ids]:
  "sales_report_read = ''sales.report.read''"

definition admin_membership_manage :: permission_id where [perm_ids]:
  "admin_membership_manage = ''admin.membership.manage''"

definition admin_sso_manage :: permission_id where [perm_ids]:
  "admin_sso_manage = ''admin.sso.manage''"

definition admin_access_review_read :: permission_id where [perm_ids]:
  "admin_access_review_read = ''admin.access_review.read''"

definition admin_access_review_manage :: permission_id where [perm_ids]:
  "admin_access_review_manage = ''admin.access_review.manage''"

definition admin_audit_verify :: permission_id where [perm_ids]:
  "admin_audit_verify = ''admin.audit.verify''"

definition admin_retention_manage :: permission_id where [perm_ids]:
  "admin_retention_manage = ''admin.retention.manage''"

definition admin_api_key_manage :: permission_id where [perm_ids]:
  "admin_api_key_manage = ''admin.api_key.manage''"

definition admin_webhook_read :: permission_id where [perm_ids]:
  "admin_webhook_read = ''admin.webhook.read''"

definition admin_webhook_write :: permission_id where [perm_ids]:
  "admin_webhook_write = ''admin.webhook.write''"

definition admin_webhook_replay :: permission_id where [perm_ids]:
  "admin_webhook_replay = ''admin.webhook.replay''"

definition admin_marketplace_read :: permission_id where [perm_ids]:
  "admin_marketplace_read = ''admin.marketplace.read''"

definition admin_marketplace_write :: permission_id where [perm_ids]:
  "admin_marketplace_write = ''admin.marketplace.write''"

definition admin_marketplace_review :: permission_id where [perm_ids]:
  "admin_marketplace_review = ''admin.marketplace.review''"

definition admin_marketplace_install :: permission_id where [perm_ids]:
  "admin_marketplace_install = ''admin.marketplace.install''"

definition admin_marketplace_uninstall :: permission_id where [perm_ids]:
  "admin_marketplace_uninstall = ''admin.marketplace.uninstall''"

definition hr_field_compensation_read :: permission_id where [perm_ids]:
  "hr_field_compensation_read = ''hr.field.compensation_read''"

definition hr_field_government_id_read :: permission_id where [perm_ids]:
  "hr_field_government_id_read = ''hr.field.government_id_read''"

definition hr_field_bank_read :: permission_id where [perm_ids]:
  "hr_field_bank_read = ''hr.field.bank_read''"

definition finance_field_bank_account_read :: permission_id where [perm_ids]:
  "finance_field_bank_account_read = ''finance.field.bank_account_read''"

definition finance_field_salary_journal_read :: permission_id where [perm_ids]:
  "finance_field_salary_journal_read = ''finance.field.salary_journal_read''"

definition finance_invoice_approve :: permission_id where [perm_ids]:
  "finance_invoice_approve = ''finance.invoice.approve''"

definition finance_invoice_read :: permission_id where [perm_ids]:
  "finance_invoice_read = ''finance.invoice.read''"

definition finance_invoice_create :: permission_id where [perm_ids]:
  "finance_invoice_create = ''finance.invoice.create''"

definition finance_invoice_update :: permission_id where [perm_ids]:
  "finance_invoice_update = ''finance.invoice.update''"

definition finance_invoice_issue :: permission_id where [perm_ids]:
  "finance_invoice_issue = ''finance.invoice.issue''"

definition finance_invoice_send :: permission_id where [perm_ids]:
  "finance_invoice_send = ''finance.invoice.send''"

definition finance_invoice_void :: permission_id where [perm_ids]:
  "finance_invoice_void = ''finance.invoice.void''"

definition finance_payment_read :: permission_id where [perm_ids]:
  "finance_payment_read = ''finance.payment.read''"

definition finance_payment_create :: permission_id where [perm_ids]:
  "finance_payment_create = ''finance.payment.create''"

definition finance_payment_allocate :: permission_id where [perm_ids]:
  "finance_payment_allocate = ''finance.payment.allocate''"

definition finance_credit_note_read :: permission_id where [perm_ids]:
  "finance_credit_note_read = ''finance.credit_note.read''"

definition finance_credit_note_create :: permission_id where [perm_ids]:
  "finance_credit_note_create = ''finance.credit_note.create''"

definition finance_expense_read :: permission_id where [perm_ids]:
  "finance_expense_read = ''finance.expense.read''"

definition finance_expense_create :: permission_id where [perm_ids]:
  "finance_expense_create = ''finance.expense.create''"

definition finance_expense_approve :: permission_id where [perm_ids]:
  "finance_expense_approve = ''finance.expense.approve''"

definition finance_report_read :: permission_id where [perm_ids]:
  "finance_report_read = ''finance.report.read''"

definition finance_customer_read :: permission_id where [perm_ids]:
  "finance_customer_read = ''finance.customer.read''"

definition finance_ledger_read :: permission_id where [perm_ids]:
  "finance_ledger_read = ''finance.ledger.read''"

definition operations_project_read :: permission_id where [perm_ids]:
  "operations_project_read = ''operations.project.read''"

definition operations_project_create :: permission_id where [perm_ids]:
  "operations_project_create = ''operations.project.create''"

definition operations_project_update :: permission_id where [perm_ids]:
  "operations_project_update = ''operations.project.update''"

definition operations_project_delete :: permission_id where [perm_ids]:
  "operations_project_delete = ''operations.project.delete''"

definition operations_task_read :: permission_id where [perm_ids]:
  "operations_task_read = ''operations.task.read''"

definition operations_task_create :: permission_id where [perm_ids]:
  "operations_task_create = ''operations.task.create''"

definition operations_task_update :: permission_id where [perm_ids]:
  "operations_task_update = ''operations.task.update''"

definition operations_task_delete :: permission_id where [perm_ids]:
  "operations_task_delete = ''operations.task.delete''"

definition operations_task_assign :: permission_id where [perm_ids]:
  "operations_task_assign = ''operations.task.assign''"

definition operations_task_comment :: permission_id where [perm_ids]:
  "operations_task_comment = ''operations.task.comment''"

definition operations_approval_read :: permission_id where [perm_ids]:
  "operations_approval_read = ''operations.approval.read''"

definition operations_approval_decide :: permission_id where [perm_ids]:
  "operations_approval_decide = ''operations.approval.decide''"

definition operations_approval_policy_manage :: permission_id where [perm_ids]:
  "operations_approval_policy_manage = ''operations.approval.manage''"

definition operations_workflow_read :: permission_id where [perm_ids]:
  "operations_workflow_read = ''operations.workflow.read''"

definition operations_workflow_write :: permission_id where [perm_ids]:
  "operations_workflow_write = ''operations.workflow.write''"

definition operations_workflow_publish :: permission_id where [perm_ids]:
  "operations_workflow_publish = ''operations.workflow.publish''"

definition operations_workflow_run :: permission_id where [perm_ids]:
  "operations_workflow_run = ''operations.workflow.run''"

definition operations_workflow_manage :: permission_id where [perm_ids]:
  "operations_workflow_manage = ''operations.workflow.manage''"

definition platform_notification_read :: permission_id where [perm_ids]:
  "platform_notification_read = ''platform.notification.read''"

definition platform_notification_manage :: permission_id where [perm_ids]:
  "platform_notification_manage = ''platform.notification.manage''"

definition platform_search_read :: permission_id where [perm_ids]:
  "platform_search_read = ''platform.search.read''"

definition platform_search_reindex :: permission_id where [perm_ids]:
  "platform_search_reindex = ''platform.search.reindex''"

definition platform_file_read :: permission_id where [perm_ids]:
  "platform_file_read = ''platform.file.read''"

definition platform_file_create :: permission_id where [perm_ids]:
  "platform_file_create = ''platform.file.create''"

definition platform_analytics_read :: permission_id where [perm_ids]:
  "platform_analytics_read = ''platform.analytics.read''"

definition analytics_report_read :: permission_id where [perm_ids]:
  "analytics_report_read = ''analytics.report.read''"

definition analytics_report_write :: permission_id where [perm_ids]:
  "analytics_report_write = ''analytics.report.write''"

definition analytics_report_run :: permission_id where [perm_ids]:
  "analytics_report_run = ''analytics.report.run''"

definition analytics_report_share :: permission_id where [perm_ids]:
  "analytics_report_share = ''analytics.report.share''"

definition analytics_report_export :: permission_id where [perm_ids]:
  "analytics_report_export = ''analytics.report.export''"

definition analytics_dashboard_read :: permission_id where [perm_ids]:
  "analytics_dashboard_read = ''analytics.dashboard.read''"

definition analytics_dashboard_write :: permission_id where [perm_ids]:
  "analytics_dashboard_write = ''analytics.dashboard.write''"

definition analytics_schedule_write :: permission_id where [perm_ids]:
  "analytics_schedule_write = ''analytics.schedule.write''"

definition ai_copilot_use :: permission_id where [perm_ids]:
  "ai_copilot_use = ''ai.copilot.use''"

definition ai_proposal_create :: permission_id where [perm_ids]:
  "ai_proposal_create = ''ai.proposal.create''"

definition ai_proposal_commit :: permission_id where [perm_ids]:
  "ai_proposal_commit = ''ai.proposal.commit''"

definition ai_settings_read :: permission_id where [perm_ids]:
  "ai_settings_read = ''ai.settings.read''"

definition ai_settings_manage :: permission_id where [perm_ids]:
  "ai_settings_manage = ''ai.settings.manage''"

definition ai_insights_read :: permission_id where [perm_ids]:
  "ai_insights_read = ''ai.insights.read''"

definition ai_document_extract :: permission_id where [perm_ids]:
  "ai_document_extract = ''ai.document.extract''"

definition hr_employee_read :: permission_id where [perm_ids]:
  "hr_employee_read = ''hr.employee.read''"

definition hr_employee_read_sensitive :: permission_id where [perm_ids]:
  "hr_employee_read_sensitive = ''hr.employee.read_sensitive''"

definition hr_employee_write :: permission_id where [perm_ids]:
  "hr_employee_write = ''hr.employee.write''"

definition hr_employee_onboard :: permission_id where [perm_ids]:
  "hr_employee_onboard = ''hr.employee.onboard''"

definition hr_employee_offboard :: permission_id where [perm_ids]:
  "hr_employee_offboard = ''hr.employee.offboard''"

definition hr_document_read :: permission_id where [perm_ids]:
  "hr_document_read = ''hr.document.read''"

definition hr_document_write :: permission_id where [perm_ids]:
  "hr_document_write = ''hr.document.write''"

definition hr_attendance_read :: permission_id where [perm_ids]:
  "hr_attendance_read = ''hr.attendance.read''"

definition hr_attendance_write :: permission_id where [perm_ids]:
  "hr_attendance_write = ''hr.attendance.write''"

definition hr_leave_read :: permission_id where [perm_ids]:
  "hr_leave_read = ''hr.leave.read''"

definition hr_leave_write :: permission_id where [perm_ids]:
  "hr_leave_write = ''hr.leave.write''"

definition hr_leave_approve :: permission_id where [perm_ids]:
  "hr_leave_approve = ''hr.leave.approve''"

definition hr_payroll_read :: permission_id where [perm_ids]:
  "hr_payroll_read = ''hr.payroll.read''"

definition hr_payroll_write :: permission_id where [perm_ids]:
  "hr_payroll_write = ''hr.payroll.write''"

definition hr_payroll_approve :: permission_id where [perm_ids]:
  "hr_payroll_approve = ''hr.payroll.approve''"

definition hr_payroll_run :: permission_id where [perm_ids]:
  "hr_payroll_run = ''hr.payroll.run''"

definition finance_journal_post :: permission_id where [perm_ids]:
  "finance_journal_post = ''finance.journal.post''"

definition finance_account_manage :: permission_id where [perm_ids]:
  "finance_account_manage = ''finance.account.manage''"

definition finance_period_read :: permission_id where [perm_ids]:
  "finance_period_read = ''finance.period.read''"

definition finance_period_close :: permission_id where [perm_ids]:
  "finance_period_close = ''finance.period.close''"

definition finance_period_reopen :: permission_id where [perm_ids]:
  "finance_period_reopen = ''finance.period.reopen''"

definition finance_bank_read :: permission_id where [perm_ids]:
  "finance_bank_read = ''finance.bank.read''"

definition finance_bank_reconcile :: permission_id where [perm_ids]:
  "finance_bank_reconcile = ''finance.bank.reconcile''"

definition finance_expense_policy_manage :: permission_id where [perm_ids]:
  "finance_expense_policy_manage = ''finance.expense_policy.manage''"

definition finance_reimbursement_manage :: permission_id where [perm_ids]:
  "finance_reimbursement_manage = ''finance.reimbursement.manage''"

definition inventory_item_read :: permission_id where [perm_ids]:
  "inventory_item_read = ''inventory.item.read''"

definition inventory_item_write :: permission_id where [perm_ids]:
  "inventory_item_write = ''inventory.item.write''"

definition inventory_warehouse_read :: permission_id where [perm_ids]:
  "inventory_warehouse_read = ''inventory.warehouse.read''"

definition inventory_warehouse_write :: permission_id where [perm_ids]:
  "inventory_warehouse_write = ''inventory.warehouse.write''"

definition inventory_stock_read :: permission_id where [perm_ids]:
  "inventory_stock_read = ''inventory.stock.read''"

definition inventory_stock_move :: permission_id where [perm_ids]:
  "inventory_stock_move = ''inventory.stock.move''"

definition inventory_supplier_read :: permission_id where [perm_ids]:
  "inventory_supplier_read = ''inventory.supplier.read''"

definition inventory_supplier_write :: permission_id where [perm_ids]:
  "inventory_supplier_write = ''inventory.supplier.write''"

definition inventory_purchase_request_read :: permission_id where [perm_ids]:
  "inventory_purchase_request_read = ''inventory.purchase_request.read''"

definition inventory_purchase_request_write :: permission_id where [perm_ids]:
  "inventory_purchase_request_write = ''inventory.purchase_request.write''"

definition inventory_purchase_order_read :: permission_id where [perm_ids]:
  "inventory_purchase_order_read = ''inventory.purchase_order.read''"

definition inventory_purchase_order_write :: permission_id where [perm_ids]:
  "inventory_purchase_order_write = ''inventory.purchase_order.write''"

definition inventory_goods_receipt_read :: permission_id where [perm_ids]:
  "inventory_goods_receipt_read = ''inventory.goods_receipt.read''"

definition inventory_goods_receipt_write :: permission_id where [perm_ids]:
  "inventory_goods_receipt_write = ''inventory.goods_receipt.write''"

definition inventory_asset_read :: permission_id where [perm_ids]:
  "inventory_asset_read = ''inventory.asset.read''"

definition inventory_asset_write :: permission_id where [perm_ids]:
  "inventory_asset_write = ''inventory.asset.write''"

definition sales_order_read :: permission_id where [perm_ids]:
  "sales_order_read = ''sales.order.read''"

definition sales_order_create :: permission_id where [perm_ids]:
  "sales_order_create = ''sales.order.create''"

definition sales_order_update :: permission_id where [perm_ids]:
  "sales_order_update = ''sales.order.update''"

definition sales_contract_read :: permission_id where [perm_ids]:
  "sales_contract_read = ''sales.contract.read''"

definition sales_contract_create :: permission_id where [perm_ids]:
  "sales_contract_create = ''sales.contract.create''"

definition sales_contract_update :: permission_id where [perm_ids]:
  "sales_contract_update = ''sales.contract.update''"

definition sales_contract_publish :: permission_id where [perm_ids]:
  "sales_contract_publish = ''sales.contract.publish''"

definition sales_territory_read :: permission_id where [perm_ids]:
  "sales_territory_read = ''sales.territory.read''"

definition sales_territory_manage :: permission_id where [perm_ids]:
  "sales_territory_manage = ''sales.territory.manage''"

definition finance_tax_read :: permission_id where [perm_ids]:
  "finance_tax_read = ''finance.tax.read''"

definition finance_tax_manage :: permission_id where [perm_ids]:
  "finance_tax_manage = ''finance.tax.manage''"

definition finance_dunning_read :: permission_id where [perm_ids]:
  "finance_dunning_read = ''finance.dunning.read''"

definition finance_dunning_manage :: permission_id where [perm_ids]:
  "finance_dunning_manage = ''finance.dunning.manage''"

definition finance_entity_read :: permission_id where [perm_ids]:
  "finance_entity_read = ''finance.entity.read''"

definition finance_entity_manage :: permission_id where [perm_ids]:
  "finance_entity_manage = ''finance.entity.manage''"

definition finance_consolidation_run :: permission_id where [perm_ids]:
  "finance_consolidation_run = ''finance.consolidation.run''"

definition finance_consolidation_read :: permission_id where [perm_ids]:
  "finance_consolidation_read = ''finance.consolidation.read''"

definition finance_intercompany_manage :: permission_id where [perm_ids]:
  "finance_intercompany_manage = ''finance.intercompany.manage''"

definition admin_scim_manage :: permission_id where [perm_ids]:
  "admin_scim_manage = ''admin.scim.manage''"

definition admin_cmk_read :: permission_id where [perm_ids]:
  "admin_cmk_read = ''admin.cmk.read''"

definition admin_cmk_rotate :: permission_id where [perm_ids]:
  "admin_cmk_rotate = ''admin.cmk.rotate''"

definition admin_cmk_revoke :: permission_id where [perm_ids]:
  "admin_cmk_revoke = ''admin.cmk.revoke''"

definition admin_network_manage :: permission_id where [perm_ids]:
  "admin_network_manage = ''admin.network.manage''"

definition admin_sla_read :: permission_id where [perm_ids]:
  "admin_sla_read = ''admin.sla.read''"

definition admin_sla_manage :: permission_id where [perm_ids]:
  "admin_sla_manage = ''admin.sla.manage''"

definition admin_ediscovery_export :: permission_id where [perm_ids]:
  "admin_ediscovery_export = ''admin.ediscovery.export''"

definition workspace_grant_delegate :: permission_id where [perm_ids]:
  "workspace_grant_delegate = ''workspace.grant.delegate''"

definition workspace_grant_inherit :: permission_id where [perm_ids]:
  "workspace_grant_inherit = ''workspace.grant.inherit''"

definition operations_timesheet_read :: permission_id where [perm_ids]:
  "operations_timesheet_read = ''operations.timesheet.read''"

definition operations_timesheet_write :: permission_id where [perm_ids]:
  "operations_timesheet_write = ''operations.timesheet.write''"

definition operations_timesheet_submit :: permission_id where [perm_ids]:
  "operations_timesheet_submit = ''operations.timesheet.submit''"

definition operations_timesheet_approve :: permission_id where [perm_ids]:
  "operations_timesheet_approve = ''operations.timesheet.approve''"

definition operations_capacity_read :: permission_id where [perm_ids]:
  "operations_capacity_read = ''operations.capacity.read''"

definition operations_capacity_manage :: permission_id where [perm_ids]:
  "operations_capacity_manage = ''operations.capacity.manage''"

definition ai_meeting_summary_read :: permission_id where [perm_ids]:
  "ai_meeting_summary_read = ''ai.meeting_summary.read''"

definition ai_meeting_summary_accept :: permission_id where [perm_ids]:
  "ai_meeting_summary_accept = ''ai.meeting_summary.accept''"

definition ai_agent_read :: permission_id where [perm_ids]:
  "ai_agent_read = ''ai.agent.read''"

definition ai_agent_run :: permission_id where [perm_ids]:
  "ai_agent_run = ''ai.agent.run''"

definition ai_agent_manage :: permission_id where [perm_ids]:
  "ai_agent_manage = ''ai.agent.manage''"

definition ai_agent_kill :: permission_id where [perm_ids]:
  "ai_agent_kill = ''ai.agent.kill''"

definition custom_builder_read :: permission_id where [perm_ids]:
  "custom_builder_read = ''custom.builder.read''"

definition custom_builder_manage :: permission_id where [perm_ids]:
  "custom_builder_manage = ''custom.builder.manage''"

definition custom_package_export :: permission_id where [perm_ids]:
  "custom_package_export = ''custom.package.export''"

definition custom_package_import :: permission_id where [perm_ids]:
  "custom_package_import = ''custom.package.import''"

definition custom_demo_asset_read :: permission_id where [perm_ids]:
  "custom_demo_asset_read = ''custom.demo_asset.read''"

definition custom_demo_asset_write :: permission_id where [perm_ids]:
  "custom_demo_asset_write = ''custom.demo_asset.write''"

definition custom_entity_read :: "string \<Rightarrow> permission_id" where
  "custom_entity_read slug = ''custom.'' @ slug @ ''.read''"

definition custom_entity_write :: "string \<Rightarrow> permission_id" where
  "custom_entity_write slug = ''custom.'' @ slug @ ''.write''"

section \<open>Scopes\<close>

datatype scope = Own | Team | Department | Organization

definition default_scope_arms :: "string list" where
  "default_scope_arms =
   [''workspace.dashboard.read'', ''workspace.org.read'', ''workspace.member.read'',
    ''workspace.role.read'', ''workspace.team.read'', ''workspace.department.read'',
    ''sales.customer.read'', ''sales.contact.read'', ''sales.lead.read'', ''sales.pipeline.read'',
    ''sales.deal.read'', ''sales.quote.read'', ''sales.product.read'', ''sales.activity.read'',
    ''sales.report.read'', ''finance.invoice.read'', ''finance.payment.read'',
    ''finance.credit_note.read'', ''finance.expense.read'', ''finance.report.read'',
    ''finance.customer.read'', ''finance.ledger.read'', ''finance.period.read'',
    ''finance.bank.read'', ''hr.payroll.read'', ''operations.project.read'',
    ''operations.task.read'', ''operations.approval.read'', ''platform.notification.read'',
    ''platform.search.read'', ''platform.file.read'', ''platform.file.create'',
    ''platform.analytics.read'', ''ai.copilot.use'', ''ai.proposal.create'', ''ai.settings.read'',
    ''ai.insights.read'', ''ai.document.extract'']"

definition default_scope_for :: "string \<Rightarrow> scope" where
  "default_scope_for i = (if List.member default_scope_arms i then Organization else Organization)"

section \<open>Slugs\<close>

definition valid_slug :: "string \<Rightarrow> bool" where
  "valid_slug s \<longleftrightarrow>
     s \<noteq> [] \<and> is_ascii_lowercase (hd s) \<and> length s \<le> 64 \<and>
     list_all (\<lambda>c. is_ascii_lowercase c \<or> is_ascii_digit c \<or> c = CHR ''_'') (tl s) \<and>
     s \<notin> set CUSTOM_RESERVED_RESOURCES"

lemma rsplit_once_None: "c \<notin> set s \<Longrightarrow> rsplit_once c s = None"
  by (induction s) auto

lemma rsplit_once_append: "c \<notin> set b \<Longrightarrow> rsplit_once c (a @ c # b) = Some (a, b)"
  by (induction a) (auto simp: rsplit_once_None)

lemma rsplit_once_Some: "rsplit_once c s = Some (a, b) \<Longrightarrow> s = a @ c # b \<and> c \<notin> set b"
proof (induction s arbitrary: a b)
  case (Cons x xs)
  have "c \<notin> set xs" if "rsplit_once c xs = None"
    using that by (induction xs) (auto split: option.splits if_splits)
  with Cons show ?case by (auto split: option.splits if_splits)
qed simp

lemma dynamic_resource:
  "is_dynamic_custom_entity_permission (''custom.'' @ s @ ''.'' @ a) \<longleftrightarrow>
     (a = ''read'' \<or> a = ''write'') \<and> valid_slug s" if "CHR ''.'' \<notin> set a"
proof -
  have "rsplit_once CHR ''.'' (s @ ''.'' @ a) = Some (s, a)"
    using rsplit_once_append [OF that, of s] by simp
  moreover have "strip_prefix ''custom.'' (''custom.'' @ s @ ''.'' @ a) = Some (s @ ''.'' @ a)"
    by (rule strip_prefix_append)
  ultimately show ?thesis
    unfolding is_dynamic_custom_entity_permission_def valid_slug_def
    by (cases s) auto
qed

lemma dynamic_shape:
  assumes "is_dynamic_custom_entity_permission i"
  obtains s a where "i = ''custom.'' @ s @ ''.'' @ a" and "CHR ''.'' \<notin> set a"
  using assms unfolding is_dynamic_custom_entity_permission_def
  by (auto split: option.splits dest!: rsplit_once_Some)

section \<open>The tables\<close>

lemmas catalogue_defs = PERMISSION_CATALOGUE_def
  catalogue_part_1_def catalogue_part_2_def catalogue_part_3_def catalogue_part_4_def
  catalogue_part_5_def catalogue_part_6_def catalogue_part_7_def catalogue_part_8_def
  catalogue_part_9_def catalogue_part_10_def catalogue_part_11_def catalogue_part_12_def

lemma distinct_catalogue: "distinct (map pd_id PERMISSION_CATALOGUE)"
  by (rule distinct_coded) (simp add: catalogue_defs)

definition entry_shape :: "permission_def \<Rightarrow> bool" where
  "entry_shape p \<longleftrightarrow>
     pd_id p = pd_context p @ ''.'' @ pd_resource p @ ''.'' @ pd_action p \<and>
     list_all (\<lambda>s. s \<noteq> [] \<and> list_all (\<lambda>c. c \<noteq> CHR ''.'') s) [pd_context p, pd_resource p, pd_action p]"

lemma catalogue_shape: "list_all entry_shape PERMISSION_CATALOGUE"
  by (simp add: catalogue_defs entry_shape_def)

lemma catalogue_not_dynamic:
  "list_all (\<lambda>p. \<not> is_dynamic_custom_entity_permission (pd_id p)) PERMISSION_CATALOGUE"
  by (simp add: catalogue_defs is_dynamic_custom_entity_permission_def CUSTOM_RESERVED_RESOURCES_def)

lemma SENSITIVE_ACTIONS_slices:
  "slices
    [(5, 1), (10, 1), (7, 1), (3, 1), (51, 1), (48, 1), (50, 1), (53, 2), (56, 1), (59, 1),
     (82, 2), (86, 1), (88, 1), (108, 1), (112, 11), (124, 2), (127, 7), (135, 1), (137, 1),
     (139, 7), (63, 1), (65, 2), (68, 3), (147, 1), (149, 1), (151, 1), (153, 1), (155, 1),
     (157, 1), (159, 1), (161, 1), (103, 1), (168, 1), (170, 1), (172, 1), (174, 1), (176, 2),
     (179, 6), (186, 4), (193, 1), (195, 1), (199, 3), (203, 3), (207, 1)]
    (map (\<lambda>p. (pd_id p, pd_sensitive p)) PERMISSION_CATALOGUE) = map (\<lambda>s. (s, True)) SENSITIVE_ACTIONS"
  by (simp add: catalogue_defs slices_def SENSITIVE_ACTIONS_def)

end
