(* ===== verification/Authz.thy ===== *)
theory Authz
  imports Perm_Catalogue
begin

text \<open>
  The policy decision point (\<open>crates/authz/src/lib.rs\<close> and \<open>conditions.rs\<close>): scopes, the
  system roles and their default permissions, policy statements with attribute conditions,
  the decision function, principals restricted to scopes (API keys), and the cache of
  effective permission sets. A \<open>HashSet\<close> is a list without duplicates whose order is not
  relied on. Parsing a time of day is code of the chrono crate: the parameter
  \<open>parse_from_str fmt s\<close> gives nanoseconds since midnight. A date and time is the weekday
  and the clock reading that the code asks for.
\<close>

section \<open>Scopes\<close>

primrec scope_as_str :: "scope \<Rightarrow> string" where
  "scope_as_str Own = ''own''"
| "scope_as_str Team = ''team''"
| "scope_as_str Department = ''department''"
| "scope_as_str Organization = ''organization''"

definition scope_parse :: "string \<Rightarrow> scope option" where
  "scope_parse s =
     (if s = ''own'' then Some Own
      else if s = ''team'' then Some Team
      else if s = ''department'' then Some Department
      else if s = ''organization'' then Some Organization
      else None)"

fun covers :: "scope \<Rightarrow> scope \<Rightarrow> bool" where
  "covers Organization required = True"
| "covers Department required = (required \<in> {Department, Team, Own})"
| "covers Team required = (required \<in> {Team, Own})"
| "covers Own required = (required = Own)"

section \<open>System roles\<close>

datatype role = Owner | Admin | Finance | Sales | Manager | Member | ReadOnly

definition all_system :: "role list" where
  "all_system = [Owner, Admin, Finance, Sales, Manager, Member, ReadOnly]"

primrec display_name :: "role \<Rightarrow> string" where
  "display_name Owner = ''Owner''"
| "display_name Admin = ''Admin''"
| "display_name Finance = ''Finance''"
| "display_name Sales = ''Sales''"
| "display_name Manager = ''Manager''"
| "display_name Member = ''Member''"
| "display_name ReadOnly = ''Read-only''"

definition finance_allows :: "permission_id list" where
  "finance_allows =
   [workspace_dashboard_read, workspace_org_read, workspace_member_read, workspace_role_read,
    workspace_team_read, workspace_department_read, finance_invoice_read, finance_invoice_create,
    finance_invoice_update, finance_invoice_issue, finance_invoice_send, finance_invoice_void,
    finance_invoice_approve, finance_payment_read, finance_payment_create,
    finance_payment_allocate, finance_credit_note_read, finance_credit_note_create,
    finance_expense_read, finance_expense_create, finance_expense_approve, finance_report_read,
    finance_customer_read, finance_ledger_read, operations_approval_read,
    operations_approval_decide, operations_workflow_read, platform_notification_read,
    platform_search_read, platform_file_read, platform_file_create, platform_analytics_read,
    analytics_report_read, analytics_report_write, analytics_report_run, analytics_report_share,
    analytics_report_export, analytics_dashboard_read, analytics_dashboard_write, ai_copilot_use,
    ai_proposal_create, ai_proposal_commit, ai_settings_read, ai_insights_read,
    ai_document_extract, ai_meeting_summary_read, ai_meeting_summary_accept, ai_agent_read,
    ai_agent_run, custom_builder_read, hr_employee_read, hr_employee_read_sensitive,
    hr_field_compensation_read, hr_field_government_id_read, hr_field_bank_read, hr_document_read,
    hr_attendance_read, hr_leave_read, hr_payroll_read, hr_payroll_approve, finance_journal_post,
    finance_account_manage, finance_period_read, finance_period_close, finance_period_reopen,
    finance_bank_read, finance_bank_reconcile, finance_field_bank_account_read,
    finance_field_salary_journal_read, finance_expense_policy_manage,
    finance_reimbursement_manage, inventory_item_read, inventory_warehouse_read,
    inventory_stock_read, inventory_supplier_read, inventory_purchase_request_read,
    inventory_purchase_order_read, inventory_goods_receipt_read, inventory_asset_read,
    finance_tax_read, finance_tax_manage, finance_dunning_read, finance_dunning_manage,
    finance_entity_read, finance_entity_manage, finance_consolidation_read,
    finance_consolidation_run, finance_intercompany_manage]"

definition sales_allows :: "permission_id list" where
  "sales_allows =
   [workspace_dashboard_read, workspace_org_read, workspace_member_read, workspace_role_read,
    workspace_team_read, workspace_department_read, sales_customer_read, sales_customer_create,
    sales_customer_update, sales_contact_read, sales_contact_create, sales_contact_update,
    sales_lead_read, sales_lead_create, sales_lead_update, sales_lead_convert,
    sales_pipeline_read, sales_pipeline_manage, sales_deal_read, sales_deal_create,
    sales_deal_update, sales_deal_win, sales_deal_lose, sales_quote_read, sales_quote_create,
    sales_quote_update, sales_quote_accept, sales_product_read, sales_product_manage,
    sales_activity_read, sales_activity_create, sales_import_create, sales_report_read,
    sales_order_read, sales_order_create, sales_order_update, sales_contract_read,
    sales_contract_create, sales_contract_update, sales_contract_publish, sales_territory_read,
    sales_territory_manage, finance_customer_read, finance_invoice_read, finance_invoice_create,
    operations_project_read, operations_project_create, operations_task_read,
    operations_task_create, operations_task_update, operations_task_comment,
    operations_approval_read, operations_workflow_read, operations_workflow_write,
    operations_workflow_run, platform_notification_read, platform_search_read, platform_file_read,
    platform_file_create, platform_analytics_read, analytics_report_read, analytics_report_run,
    analytics_dashboard_read, ai_copilot_use, ai_proposal_create, ai_proposal_commit,
    ai_settings_read, ai_insights_read, ai_document_extract, ai_meeting_summary_read,
    ai_meeting_summary_accept, ai_agent_read, ai_agent_run, operations_timesheet_read,
    operations_timesheet_write, operations_timesheet_submit, operations_capacity_read,
    hr_employee_read, hr_attendance_read, hr_leave_read]"

definition manager_allows :: "permission_id list" where
  "manager_allows =
   [workspace_dashboard_read, workspace_org_read, workspace_member_read, workspace_member_invite,
    workspace_role_read, workspace_team_read, workspace_team_manage, workspace_department_read,
    admin_membership_manage, sales_customer_read, sales_contact_read, sales_lead_read,
    sales_pipeline_read, sales_deal_read, sales_deal_update, sales_quote_read, sales_product_read,
    sales_activity_read, sales_report_read, finance_invoice_read, finance_expense_read,
    finance_expense_create, finance_report_read, finance_customer_read, operations_project_read,
    operations_project_create, operations_project_update, operations_project_delete,
    operations_task_read, operations_task_create, operations_task_update, operations_task_delete,
    operations_task_assign, operations_task_comment, operations_approval_read,
    operations_approval_decide, operations_workflow_read, operations_workflow_write,
    operations_workflow_run, operations_timesheet_read, operations_timesheet_write,
    operations_timesheet_submit, operations_timesheet_approve, operations_capacity_read,
    operations_capacity_manage, sales_order_read, sales_contract_read, sales_contract_publish,
    sales_territory_read, ai_meeting_summary_read, ai_meeting_summary_accept, ai_agent_read,
    ai_agent_run, platform_notification_read, platform_search_read, platform_search_reindex,
    platform_file_read, platform_file_create, platform_analytics_read, analytics_report_read,
    analytics_report_write, analytics_report_run, analytics_report_share, analytics_report_export,
    analytics_dashboard_read, analytics_dashboard_write, ai_copilot_use, ai_proposal_create,
    ai_proposal_commit, ai_settings_read, ai_insights_read, ai_document_extract, hr_employee_read,
    hr_employee_read_sensitive, hr_field_compensation_read, hr_field_government_id_read,
    hr_field_bank_read, hr_employee_write, hr_employee_onboard, hr_employee_offboard,
    hr_document_read, hr_document_write, hr_attendance_read, hr_attendance_write, hr_leave_read,
    hr_leave_write, hr_leave_approve, hr_payroll_read, hr_payroll_write, hr_payroll_approve,
    hr_payroll_run, finance_journal_post, finance_period_read, finance_bank_read,
    inventory_item_read, inventory_item_write, inventory_warehouse_read,
    inventory_warehouse_write, inventory_stock_read, inventory_stock_move,
    inventory_supplier_read, inventory_supplier_write, inventory_purchase_request_read,
    inventory_purchase_request_write, inventory_purchase_order_read,
    inventory_purchase_order_write, inventory_goods_receipt_read, inventory_goods_receipt_write,
    inventory_asset_read, inventory_asset_write]"

definition member_allows :: "permission_id list" where
  "member_allows =
   [workspace_dashboard_read, workspace_org_read, workspace_member_read, workspace_role_read,
    workspace_team_read, workspace_department_read, sales_customer_read, sales_contact_read,
    sales_lead_read, sales_pipeline_read, sales_deal_read, sales_quote_read, sales_product_read,
    sales_activity_read, sales_report_read, sales_order_read, sales_contract_read,
    sales_territory_read, finance_expense_read, finance_expense_create, finance_tax_read,
    finance_dunning_read, finance_entity_read, operations_project_read, operations_task_read,
    operations_task_create, operations_task_comment, operations_approval_read,
    operations_workflow_read, operations_workflow_write, operations_workflow_run,
    operations_timesheet_read, operations_timesheet_write, operations_timesheet_submit,
    operations_capacity_read, ai_meeting_summary_read, ai_meeting_summary_accept, ai_agent_read,
    ai_agent_run, custom_builder_read, platform_notification_read, platform_search_read,
    platform_file_read, platform_file_create, analytics_report_read, analytics_report_run,
    analytics_dashboard_read, ai_copilot_use, ai_proposal_create, ai_proposal_commit,
    ai_settings_read, ai_insights_read, ai_document_extract, hr_employee_read, hr_document_read,
    hr_attendance_read, hr_attendance_write, hr_leave_read, hr_leave_write, inventory_item_read,
    inventory_warehouse_read, inventory_stock_read, inventory_purchase_request_read,
    inventory_purchase_request_write, admin_marketplace_read]"

definition read_only_allows :: "permission_id list" where
  "read_only_allows =
   [workspace_dashboard_read, workspace_org_read, workspace_member_read, workspace_role_read,
    workspace_team_read, workspace_department_read, sales_customer_read, sales_contact_read,
    sales_lead_read, sales_pipeline_read, sales_deal_read, sales_quote_read, sales_product_read,
    sales_activity_read, sales_report_read, finance_invoice_read, finance_report_read,
    finance_customer_read, operations_project_read, operations_task_read,
    operations_approval_read, operations_workflow_read, platform_notification_read,
    platform_search_read, platform_file_read, platform_analytics_read, analytics_report_read,
    analytics_report_run, analytics_dashboard_read, ai_copilot_use, ai_settings_read,
    ai_insights_read, ai_agent_read, custom_builder_read, hr_employee_read, hr_document_read,
    hr_attendance_read, hr_leave_read, inventory_item_read, inventory_warehouse_read,
    inventory_stock_read, inventory_supplier_read, inventory_purchase_request_read,
    inventory_purchase_order_read, inventory_goods_receipt_read, inventory_asset_read,
    admin_marketplace_read]"

fun default_allows :: "role \<Rightarrow> permission_id list" where
  "default_allows Owner = map pd_id PERMISSION_CATALOGUE"
| "default_allows Admin = filter (\<lambda>p. p \<noteq> ''workspace.org.create'') (map pd_id PERMISSION_CATALOGUE)"
| "default_allows Finance = finance_allows"
| "default_allows Sales = sales_allows"
| "default_allows Manager = manager_allows"
| "default_allows Member = member_allows"
| "default_allows ReadOnly = read_only_allows"

definition requires_mfa :: "role \<Rightarrow> bool" where
  "requires_mfa r \<longleftrightarrow> r = Owner \<or> r = Admin"

definition role_parse :: "string \<Rightarrow> role option" where
  "role_parse s =
     (if s = ''owner'' then Some Owner
      else if s = ''admin'' then Some Admin
      else if s = ''finance'' then Some Finance
      else if s = ''sales'' then Some Sales
      else if s = ''manager'' then Some Manager
      else if s = ''member'' then Some Member
      else if s = ''read_only'' \<or> s = ''readonly'' \<or> s = ''read-only'' then Some ReadOnly
      else None)"

primrec role_as_str :: "role \<Rightarrow> string" where
  "role_as_str Owner = ''owner''"
| "role_as_str Admin = ''admin''"
| "role_as_str Finance = ''finance''"
| "role_as_str Sales = ''sales''"
| "role_as_str Manager = ''manager''"
| "role_as_str Member = ''member''"
| "role_as_str ReadOnly = ''read_only''"

definition is_owner :: "role \<Rightarrow> bool" where
  "is_owner r \<longleftrightarrow> r = Owner"

section \<open>Attribute conditions\<close>

datatype weekday = Mon | Tue | Wed | Thu | Fri | Sat | Sun

record datetime =
  dt_weekday :: weekday
  dt_hour :: nat
  dt_minute :: nat
  dt_second :: nat

record evaluation_context =
  ec_now :: "datetime option"
  ec_location :: "string option"
  ec_delegation_id :: "string option"
  ec_record_state :: "string option"

definition ec_default :: evaluation_context where
  "ec_default = \<lparr>ec_now = None, ec_location = None, ec_delegation_id = None, ec_record_state = None\<rparr>"

definition ec_at :: "datetime \<Rightarrow> evaluation_context" where
  "ec_at now = ec_default\<lparr>ec_now := Some now\<rparr>"

definition with_record_state :: "evaluation_context \<Rightarrow> string \<Rightarrow> evaluation_context" where
  "with_record_state ctx s = ctx\<lparr>ec_record_state := Some s\<rparr>"

definition with_location :: "evaluation_context \<Rightarrow> string \<Rightarrow> evaluation_context" where
  "with_location ctx l = ctx\<lparr>ec_location := Some l\<rparr>"

definition with_delegation :: "evaluation_context \<Rightarrow> string \<Rightarrow> evaluation_context" where
  "with_delegation ctx d = ctx\<lparr>ec_delegation_id := Some d\<rparr>"

datatype abac_condition =
    TimeWindow string string "nat list"
  | Location "string list"
  | Delegation bool "string list"
  | RecordState "string list" "string list"

type_synonym time_parser = "string \<Rightarrow> string \<Rightarrow> nat option"

definition parse_hms :: "time_parser \<Rightarrow> string \<Rightarrow> nat option" where
  "parse_hms parse_from_str s =
     (case parse_from_str ''%H:%M:%S'' s of Some t \<Rightarrow> Some t | None \<Rightarrow> parse_from_str ''%H:%M'' s)"

primrec weekday_num :: "weekday \<Rightarrow> nat" where
  "weekday_num Mon = 1"
| "weekday_num Tue = 2"
| "weekday_num Wed = 3"
| "weekday_num Thu = 4"
| "weekday_num Fri = 5"
| "weekday_num Sat = 6"
| "weekday_num Sun = 7"

definition time_of_day :: "datetime \<Rightarrow> nat" where
  "time_of_day d = ((dt_hour d * 60 + dt_minute d) * 60 + dt_second d) * 10 ^ 9"

definition match_time_window ::
  "time_parser \<Rightarrow> datetime option \<Rightarrow> string \<Rightarrow> string \<Rightarrow> nat list \<Rightarrow> bool" where
  "match_time_window parse_from_str now start end_s weekdays =
     (case now of
        None \<Rightarrow> False
      | Some now \<Rightarrow>
          (case parse_hms parse_from_str start of
             None \<Rightarrow> False
           | Some start_t \<Rightarrow>
               (case parse_hms parse_from_str end_s of
                  None \<Rightarrow> False
                | Some end_t \<Rightarrow>
                    if weekdays \<noteq> [] \<and> weekday_num (dt_weekday now) \<notin> set weekdays then False
                    else let t = time_of_day now in
                      if start_t \<le> end_t then t \<ge> start_t \<and> t < end_t
                      else t \<ge> start_t \<or> t < end_t)))"

definition match_location :: "string option \<Rightarrow> string list \<Rightarrow> bool" where
  "match_location location allow =
     (if allow = [] then True
      else (case location of
              None \<Rightarrow> False
            | Some loc \<Rightarrow> list_ex (\<lambda>a. loc = a \<or> starts_with a loc) allow))"

definition match_delegation :: "string option \<Rightarrow> bool \<Rightarrow> string list \<Rightarrow> bool" where
  "match_delegation delegation_id required allowed_ids =
     (case delegation_id of
        None \<Rightarrow> \<not> required \<and> allowed_ids = []
      | Some i \<Rightarrow> if allowed_ids = [] then True else list_ex (\<lambda>a. a = i) allowed_ids)"

definition match_record_state :: "string option \<Rightarrow> string list \<Rightarrow> string list \<Rightarrow> bool" where
  "match_record_state state allow deny =
     (case state of
        None \<Rightarrow> False
      | Some st \<Rightarrow>
          if list_ex (\<lambda>d. d = st) deny then False
          else if allow = [] then True
          else list_ex (\<lambda>a. a = st) allow)"

fun condition_matches :: "time_parser \<Rightarrow> abac_condition \<Rightarrow> evaluation_context \<Rightarrow> bool" where
  "condition_matches pt (TimeWindow start end_s weekdays) ctx =
     match_time_window pt (ec_now ctx) start end_s weekdays"
| "condition_matches pt (Location allow) ctx = match_location (ec_location ctx) allow"
| "condition_matches pt (Delegation required allowed_ids) ctx =
     match_delegation (ec_delegation_id ctx) required allowed_ids"
| "condition_matches pt (RecordState allow deny) ctx =
     match_record_state (ec_record_state ctx) allow deny"

definition conditions_match :: "time_parser \<Rightarrow> abac_condition list \<Rightarrow> evaluation_context \<Rightarrow> bool" where
  "conditions_match pt conditions ctx = list_all (\<lambda>c. condition_matches pt c ctx) conditions"

section \<open>Principals and decisions\<close>

datatype effect = EffectAllow | EffectDeny

record statement =
  st_effect :: effect
  st_permission :: permission_id
  st_scope :: scope
  st_conditions :: "abac_condition list"

definition default_statement_scope :: scope where
  "default_statement_scope = Organization"

definition statement_allow :: "permission_id \<Rightarrow> statement" where
  "statement_allow p =
     \<lparr>st_effect = EffectAllow, st_permission = p, st_scope = Organization, st_conditions = []\<rparr>"

definition statement_deny :: "permission_id \<Rightarrow> statement" where
  "statement_deny p =
     \<lparr>st_effect = EffectDeny, st_permission = p, st_scope = Organization, st_conditions = []\<rparr>"

definition with_conditions :: "statement \<Rightarrow> abac_condition list \<Rightarrow> statement" where
  "with_conditions s cs = s\<lparr>st_conditions := cs\<rparr>"

record principal =
  roles :: "role list"
  statements :: "statement list"

definition principal_requires_mfa :: "principal \<Rightarrow> bool" where
  "principal_requires_mfa p = list_ex requires_mfa (roles p)"

definition with_roles :: "role list \<Rightarrow> principal" where
  "with_roles rs = \<lparr>roles = rs, statements = []\<rparr>"

definition from_permission_ids :: "string list \<Rightarrow> principal" where
  "from_permission_ids ids =
     \<lparr>roles = [],
      statements = map (\<lambda>s. \<lparr>st_effect = EffectAllow, st_permission = s, st_scope = Organization,
        st_conditions = []\<rparr>) ids\<rparr>"

datatype decision = Allow | Deny

record decision_detail =
  dd_decision :: decision
  dd_permission :: permission_id
  dd_reason :: string

datatype authz_error = InvalidPermission string

definition validate_permission_id :: "string \<Rightarrow> authz_error + unit" where
  "validate_permission_id i =
     (let parts = split_on CHR ''.'' i in
      if length parts \<noteq> 3 \<or> list_ex (\<lambda>p. p = []) parts then Inl (InvalidPermission i)
      else Inr ())"

definition decide_with_context ::
  "time_parser \<Rightarrow> principal \<Rightarrow> permission_id \<Rightarrow> scope \<Rightarrow> evaluation_context \<Rightarrow> decision_detail" where
  "decide_with_context pt p permission required_scope ctx =
     (if list_ex (\<lambda>s. st_effect s = EffectDeny \<and> st_permission s = permission) (statements p) then
        \<lparr>dd_decision = Deny, dd_permission = permission, dd_reason = ''explicit_deny''\<rparr>
      else if list_ex (\<lambda>s. st_effect s = EffectAllow \<and> st_permission s = permission \<and>
          covers (st_scope s) required_scope \<and> conditions_match pt (st_conditions s) ctx)
          (statements p) then
        \<lparr>dd_decision = Allow, dd_permission = permission, dd_reason = ''explicit_allow''\<rparr>
      else if list_ex (\<lambda>s. st_effect s = EffectAllow \<and> st_permission s = permission \<and>
          covers (st_scope s) required_scope \<and> st_conditions s \<noteq> [] \<and>
          \<not> conditions_match pt (st_conditions s) ctx) (statements p) then
        \<lparr>dd_decision = Deny, dd_permission = permission, dd_reason = ''abac_deny''\<rparr>
      else if (required_scope = Organization \<or> covers Organization required_scope) \<and>
          list_ex (\<lambda>r. permission \<in> set (default_allows r)) (roles p) then
        \<lparr>dd_decision = Allow, dd_permission = permission, dd_reason = ''role_allow''\<rparr>
      else \<lparr>dd_decision = Deny, dd_permission = permission, dd_reason = ''default_deny''\<rparr>)"

definition decide_with_scope ::
  "time_parser \<Rightarrow> principal \<Rightarrow> permission_id \<Rightarrow> scope \<Rightarrow> decision_detail" where
  "decide_with_scope pt p permission required_scope =
     decide_with_context pt p permission required_scope ec_default"

definition decide :: "time_parser \<Rightarrow> principal \<Rightarrow> permission_id \<Rightarrow> decision_detail" where
  "decide pt p permission = decide_with_context pt p permission Organization ec_default"

definition is_allowed :: "time_parser \<Rightarrow> principal \<Rightarrow> permission_id \<Rightarrow> bool" where
  "is_allowed pt p permission \<longleftrightarrow> dd_decision (decide pt p permission) = Allow"

definition is_allowed_scoped :: "time_parser \<Rightarrow> principal \<Rightarrow> permission_id \<Rightarrow> scope \<Rightarrow> bool" where
  "is_allowed_scoped pt p permission required_scope \<longleftrightarrow>
     dd_decision (decide_with_scope pt p permission required_scope) = Allow"

definition is_allowed_with_context ::
  "time_parser \<Rightarrow> principal \<Rightarrow> permission_id \<Rightarrow> scope \<Rightarrow> evaluation_context \<Rightarrow> bool" where
  "is_allowed_with_context pt p permission required_scope ctx \<longleftrightarrow>
     dd_decision (decide_with_context pt p permission required_scope ctx) = Allow"

definition intersect_scopes :: "time_parser \<Rightarrow> principal \<Rightarrow> string list \<Rightarrow> principal" where
  "intersect_scopes pt p scopes = from_permission_ids (remdups (filter (is_allowed pt p) scopes))"

definition effective_allows :: "time_parser \<Rightarrow> principal \<Rightarrow> permission_id list" where
  "effective_allows pt p = remdups (filter (is_allowed pt p) (map pd_id PERMISSION_CATALOGUE))"

section \<open>The cache of effective permissions\<close>

text \<open>
  Instants and durations are nanoseconds. \<open>now\<close> is the reading of the monotonic clock at the
  call. The mutex serialises the operations; a poisoned mutex, on which the operations do
  nothing, needs a panic inside a critical section and is left out.
\<close>

record cache_entry =
  ce_allows :: "string list"
  ce_inserted_at :: nat

record perm_cache =
  pc_inner :: "(string \<times> int) \<rightharpoonup> cache_entry"
  pc_ttl :: nat

definition cache_with_ttl :: "nat \<Rightarrow> perm_cache" where
  "cache_with_ttl ttl = \<lparr>pc_inner = (\<lambda>k. None), pc_ttl = ttl\<rparr>"

definition cache_default_5s :: perm_cache where
  "cache_default_5s = cache_with_ttl (5 * 10 ^ 9)"

definition cache_get :: "nat \<Rightarrow> perm_cache \<Rightarrow> string \<Rightarrow> int \<Rightarrow> perm_cache \<times> string list option" where
  "cache_get now c membership_id policy_version =
     (let key = (membership_id, policy_version) in
      case pc_inner c key of
        None \<Rightarrow> (c, None)
      | Some entry \<Rightarrow>
          if now - ce_inserted_at entry > pc_ttl c
          then (c\<lparr>pc_inner := (pc_inner c)(key := None)\<rparr>, None)
          else (c, Some (ce_allows entry)))"

definition cache_put :: "nat \<Rightarrow> perm_cache \<Rightarrow> string \<Rightarrow> int \<Rightarrow> string list \<Rightarrow> perm_cache" where
  "cache_put now c membership_id policy_version allows =
     c\<lparr>pc_inner := (pc_inner c)((membership_id, policy_version) \<mapsto>
         \<lparr>ce_allows = allows, ce_inserted_at = now\<rparr>)\<rparr>"

definition invalidate_membership :: "perm_cache \<Rightarrow> string \<Rightarrow> perm_cache" where
  "invalidate_membership c membership_id =
     c\<lparr>pc_inner := (\<lambda>k. if fst k \<noteq> membership_id then pc_inner c k else None)\<rparr>"

definition cache_clear :: "perm_cache \<Rightarrow> perm_cache" where
  "cache_clear c = c\<lparr>pc_inner := (\<lambda>k. None)\<rparr>"

section \<open>Scopes are ordered\<close>

text \<open>\<open>covers\<close> is the linear order own, team, department, organization.\<close>

instantiation scope :: linorder
begin

definition less_eq_scope :: "scope \<Rightarrow> scope \<Rightarrow> bool" where
  "less_eq_scope a b = covers b a"

definition less_scope :: "scope \<Rightarrow> scope \<Rightarrow> bool" where
  "less_scope a b = (covers b a \<and> a \<noteq> b)"

instance
proof
  fix a b c :: scope
  show "a < b \<longleftrightarrow> a \<le> b \<and> \<not> b \<le> a"
    by (cases a; cases b) (simp_all add: less_eq_scope_def less_scope_def)
  show "a \<le> a" by (cases a) (simp_all add: less_eq_scope_def)
  show "a \<le> b \<Longrightarrow> b \<le> c \<Longrightarrow> a \<le> c"
    by (cases a; cases b; cases c) (simp_all add: less_eq_scope_def)
  show "a \<le> b \<Longrightarrow> b \<le> a \<Longrightarrow> a = b" by (cases a; cases b) (simp_all add: less_eq_scope_def)
  show "a \<le> b \<or> b \<le> a" by (cases a; cases b) (simp_all add: less_eq_scope_def)
qed

end

lemma covers_le: "covers b a \<longleftrightarrow> a \<le> b"
  by (simp add: less_eq_scope_def)

lemma le_Organization [simp]: "s \<le> Organization"
  by (simp add: less_eq_scope_def)

lemma scope_roundtrip: "scope_parse (scope_as_str s) = Some s"
  by (cases s) (simp_all add: scope_parse_def)

lemma role_roundtrip: "role_parse (role_as_str r) = Some r"
  by (cases r) (simp_all add: role_parse_def)

section \<open>The decision\<close>

text \<open>The four questions the decision asks, in the order it asks them.\<close>

definition denied :: "principal \<Rightarrow> permission_id \<Rightarrow> bool" where
  "denied p x \<longleftrightarrow> (\<exists>s \<in> set (statements p). st_effect s = EffectDeny \<and> st_permission s = x)"

definition grants :: "permission_id \<Rightarrow> scope \<Rightarrow> statement \<Rightarrow> bool" where
  "grants x sc s \<longleftrightarrow> st_effect s = EffectAllow \<and> st_permission s = x \<and> sc \<le> st_scope s"

definition granted ::
  "time_parser \<Rightarrow> principal \<Rightarrow> permission_id \<Rightarrow> scope \<Rightarrow> evaluation_context \<Rightarrow> bool" where
  "granted pt p x sc ctx \<longleftrightarrow>
     (\<exists>s \<in> set (statements p). grants x sc s \<and> conditions_match pt (st_conditions s) ctx)"

definition condition_failed ::
  "time_parser \<Rightarrow> principal \<Rightarrow> permission_id \<Rightarrow> scope \<Rightarrow> evaluation_context \<Rightarrow> bool" where
  "condition_failed pt p x sc ctx \<longleftrightarrow>
     (\<exists>s \<in> set (statements p). grants x sc s \<and> \<not> conditions_match pt (st_conditions s) ctx)"

definition role_granted :: "principal \<Rightarrow> permission_id \<Rightarrow> bool" where
  "role_granted p x \<longleftrightarrow> (\<exists>r \<in> set (roles p). x \<in> set (default_allows r))"

lemmas decision_defs = denied_def grants_def granted_def condition_failed_def role_granted_def

lemma conditions_match_Nil [simp]: "conditions_match pt [] ctx"
  by (simp add: conditions_match_def)

lemma decide_eq:
  "decide_with_context pt p x sc ctx =
     (if denied p x then \<lparr>dd_decision = Deny, dd_permission = x, dd_reason = ''explicit_deny''\<rparr>
      else if granted pt p x sc ctx then
        \<lparr>dd_decision = Allow, dd_permission = x, dd_reason = ''explicit_allow''\<rparr>
      else if condition_failed pt p x sc ctx then
        \<lparr>dd_decision = Deny, dd_permission = x, dd_reason = ''abac_deny''\<rparr>
      else if role_granted p x then
        \<lparr>dd_decision = Allow, dd_permission = x, dd_reason = ''role_allow''\<rparr>
      else \<lparr>dd_decision = Deny, dd_permission = x, dd_reason = ''default_deny''\<rparr>)"
proof -
  have "denied p x \<longleftrightarrow>
      list_ex (\<lambda>s. st_effect s = EffectDeny \<and> st_permission s = x) (statements p)"
    by (simp add: denied_def list_ex_iff)
  moreover have "granted pt p x sc ctx \<longleftrightarrow> list_ex (\<lambda>s. st_effect s = EffectAllow \<and> st_permission s = x \<and>
      covers (st_scope s) sc \<and> conditions_match pt (st_conditions s) ctx) (statements p)"
    by (simp add: granted_def grants_def list_ex_iff covers_le)
  moreover have "condition_failed pt p x sc ctx \<longleftrightarrow> list_ex (\<lambda>s. st_effect s = EffectAllow \<and>
      st_permission s = x \<and> covers (st_scope s) sc \<and> st_conditions s \<noteq> [] \<and>
      \<not> conditions_match pt (st_conditions s) ctx) (statements p)"
    by (auto simp: condition_failed_def grants_def list_ex_iff covers_le)
  moreover have "role_granted p x \<longleftrightarrow> list_ex (\<lambda>r. x \<in> set (default_allows r)) (roles p)"
    by (simp add: role_granted_def list_ex_iff)
  ultimately show ?thesis unfolding decide_with_context_def by simp
qed

lemma decide_Allow:
  "dd_decision (decide_with_context pt p x sc ctx) = Allow \<longleftrightarrow>
     \<not> denied p x \<and> (granted pt p x sc ctx \<or> \<not> condition_failed pt p x sc ctx \<and> role_granted p x)"
  by (simp add: decide_eq)

lemma is_allowed_iff:
  "is_allowed pt p x \<longleftrightarrow>
     \<not> denied p x \<and> (granted pt p x Organization ec_default \<or>
       \<not> condition_failed pt p x Organization ec_default \<and> role_granted p x)"
  by (simp add: is_allowed_def decide_def decide_Allow)

lemma is_allowed_from_ids: "is_allowed pt (from_permission_ids ids) x \<longleftrightarrow> x \<in> set ids"
  by (auto simp: is_allowed_iff from_permission_ids_def decision_defs)

text \<open>With no clock reading a time window never matches, so \<open>decide\<close> does not parse times.\<close>

lemma default_context_no_parse: "conditions_match pt cs ec_default = conditions_match pt' cs ec_default"
proof -
  have "condition_matches pt c ec_default = condition_matches pt' c ec_default" for c
    by (cases c) (simp_all add: ec_default_def match_time_window_def)
  then show ?thesis by (simp add: conditions_match_def)
qed

lemma is_allowed_no_parse: "is_allowed pt p x = is_allowed pt' p x"
  unfolding is_allowed_iff granted_def condition_failed_def
  using default_context_no_parse [of pt _ pt'] by presburger

section \<open>Default permissions of the roles\<close>

lemma finance_allows_slices:
  "slices
    [(0, 1), (2, 1), (4, 1), (8, 1), (11, 1), (13, 1), (45, 18), (81, 2), (84, 1), (89, 1),
     (91, 1), (93, 10), (104, 4), (109, 2), (196, 4), (202, 1), (111, 5), (134, 1), (136, 1),
     (138, 1), (141, 1), (143, 1), (145, 1), (63, 6), (116, 2), (69, 2), (146, 1), (148, 1),
     (150, 1), (152, 1), (154, 1), (156, 1), (158, 1), (160, 1), (171, 6), (178, 1), (177, 1),
     (179, 1)]
    (map pd_id PERMISSION_CATALOGUE) = finance_allows"
  by (simp add: catalogue_defs perm_ids slices_def finance_allows_def)

lemma sales_allows_slices:
  "slices
    [(0, 1), (2, 1), (4, 1), (8, 1), (11, 1), (13, 1), (15, 3), (19, 24), (162, 9), (61, 1),
     (45, 2), (71, 2), (75, 3), (80, 2), (84, 2), (87, 1), (89, 1), (91, 1), (93, 4), (98, 1),
     (101, 1), (104, 4), (109, 2), (196, 4), (190, 3), (194, 1), (111, 1), (136, 1), (138, 1)]
    (map pd_id PERMISSION_CATALOGUE) = sales_allows"
  by (simp add: catalogue_defs perm_ids slices_def sales_allows_def)

lemma manager_allows_slices:
  "slices
    [(0, 1), (2, 1), (4, 2), (8, 1), (11, 3), (43, 1), (15, 1), (19, 1), (22, 1), (26, 1),
     (28, 1), (30, 1), (33, 1), (37, 1), (39, 1), (42, 1), (45, 1), (57, 2), (60, 2), (71, 12),
     (84, 2), (87, 1), (190, 6), (162, 1), (165, 1), (168, 2), (196, 4), (89, 1), (91, 12),
     (104, 4), (109, 7), (131, 15), (64, 1), (67, 1), (146, 16)]
    (map pd_id PERMISSION_CATALOGUE) = manager_allows"
  by (simp add: catalogue_defs perm_ids slices_def manager_allows_def)

lemma member_allows_slices:
  "slices
    [(0, 1), (2, 1), (4, 1), (8, 1), (11, 1), (13, 1), (15, 1), (19, 1), (22, 1), (26, 1),
     (28, 1), (33, 1), (37, 1), (39, 1), (42, 1), (162, 1), (165, 1), (169, 1), (57, 2), (171, 1),
     (173, 1), (175, 1), (71, 1), (75, 2), (80, 2), (84, 2), (87, 1), (190, 3), (194, 1),
     (196, 4), (202, 1), (89, 1), (91, 1), (93, 2), (96, 1), (98, 1), (101, 1), (104, 4),
     (109, 3), (134, 1), (136, 4), (146, 1), (148, 1), (150, 1), (154, 2), (126, 1)]
    (map pd_id PERMISSION_CATALOGUE) = member_allows"
  by (simp add: catalogue_defs perm_ids slices_def member_allows_def)

lemma read_only_allows_slices:
  "slices
    [(0, 1), (2, 1), (4, 1), (8, 1), (11, 1), (13, 1), (15, 1), (19, 1), (22, 1), (26, 1),
     (28, 1), (33, 1), (37, 1), (39, 1), (42, 1), (45, 1), (60, 2), (71, 1), (75, 1), (81, 1),
     (84, 1), (89, 1), (91, 1), (93, 1), (95, 2), (98, 1), (101, 1), (104, 1), (107, 1), (109, 1),
     (198, 1), (202, 1), (111, 1), (134, 1), (136, 1), (138, 1), (146, 1), (148, 1), (150, 1),
     (152, 1), (154, 1), (156, 1), (158, 1), (160, 1), (126, 1)]
    (map pd_id PERMISSION_CATALOGUE) = read_only_allows"
  by (simp add: catalogue_defs perm_ids slices_def read_only_allows_def)

lemma default_allows_catalogued: "set (default_allows r) \<subseteq> set (map pd_id PERMISSION_CATALOGUE)"
proof (cases r)
  case Finance
  then show ?thesis by (simp only: set_slices default_allows.simps finance_allows_slices [symmetric])
next
  case Sales
  then show ?thesis by (simp only: set_slices default_allows.simps sales_allows_slices [symmetric])
next
  case Manager
  then show ?thesis by (simp only: set_slices default_allows.simps manager_allows_slices [symmetric])
next
  case Member
  then show ?thesis by (simp only: set_slices default_allows.simps member_allows_slices [symmetric])
next
  case ReadOnly
  then show ?thesis by (simp only: set_slices default_allows.simps read_only_allows_slices [symmetric])
qed auto

lemma read_only_sensitive_distinct: "distinct (read_only_allows @ SENSITIVE_ACTIONS)"
  by (rule distinct_coded) (simp add: read_only_allows_def SENSITIVE_ACTIONS_def perm_ids)

lemma sensitive_catalogued:
  assumes "x \<in> set SENSITIVE_ACTIONS"
  shows "\<exists>p \<in> set PERMISSION_CATALOGUE. pd_id p = x \<and> pd_sensitive p"
proof -
  have "set (map (\<lambda>s. (s, True)) SENSITIVE_ACTIONS) \<subseteq>
      set (map (\<lambda>p. (pd_id p, pd_sensitive p)) PERMISSION_CATALOGUE)"
    unfolding SENSITIVE_ACTIONS_slices [symmetric] by (rule set_slices)
  moreover have "(x, True) \<in> set (map (\<lambda>s. (s, True)) SENSITIVE_ACTIONS)" using assms by simp
  ultimately have "(x, True) \<in> set (map (\<lambda>p. (pd_id p, pd_sensitive p)) PERMISSION_CATALOGUE)"
    by (rule subsetD)
  then show ?thesis by auto
qed

section \<open>Restricted principals\<close>

text \<open>
  What a client that narrows a principal (an API key, an application token) relies on: the
  restriction to a list of scopes allows what is both listed and allowed before.
\<close>

locale restrictable =
  fixes allowed :: "'p \<Rightarrow> 'x \<Rightarrow> bool"
    and restrict :: "'p \<Rightarrow> 'x list \<Rightarrow> 'p"
  assumes restrict_law: "allowed (restrict p xs) x \<longleftrightarrow> x \<in> set xs \<and> allowed p x"
begin

lemma restrict_no_escalation: "allowed (restrict p xs) x \<Longrightarrow> allowed p x"
  by (simp add: restrict_law)

lemma restrict_Nil: "\<not> allowed (restrict p []) x"
  by (simp add: restrict_law)

lemma restrict_chain:
  "allowed (foldl restrict p xss) x \<longleftrightarrow> allowed p x \<and> (\<forall>xs \<in> set xss. x \<in> set xs)"
  by (induction xss arbitrary: p) (auto simp: restrict_law)

end

interpretation api_key: restrictable "is_allowed pt" "intersect_scopes pt" for pt
  by unfold_locales (auto simp: intersect_scopes_def is_allowed_from_ids)

section \<open>Properties\<close>

text \<open>
  C3: An explicit deny of a permission wins: whatever roles, further statements, scope and
  context there are, the decision is Deny with the reason for it, and no restriction of the
  principal to scopes gives the permission back.
\<close>

theorem explicit_deny_wins:
  assumes "s \<in> set (statements p)" and "st_effect s = EffectDeny" and "st_permission s = x"
  shows "decide_with_context pt (p\<lparr>roles := rs, statements := ss @ statements p @ ss'\<rparr>) x sc ctx =
      \<lparr>dd_decision = Deny, dd_permission = x, dd_reason = ''explicit_deny''\<rparr>
    \<and> \<not> is_allowed pt (foldl (intersect_scopes pt) p xss) x"
proof
  show "decide_with_context pt (p\<lparr>roles := rs, statements := ss @ statements p @ ss'\<rparr>) x sc ctx =
      \<lparr>dd_decision = Deny, dd_permission = x, dd_reason = ''explicit_deny''\<rparr>"
    using assms by (auto simp: decide_eq denied_def)
  have "\<not> is_allowed pt p x" using assms by (auto simp: is_allowed_iff denied_def)
  then show "\<not> is_allowed pt (foldl (intersect_scopes pt) p xss) x"
    by (simp add: api_key.restrict_chain)
qed

theorem explicit_deny_wins_witness:
  "dd_decision (decide_with_context (\<lambda>f s. None)
     \<lparr>roles = [Owner], statements = [statement_allow finance_invoice_approve, statement_deny finance_invoice_approve]\<rparr>
     finance_invoice_approve Own ec_default) = Deny"
  using explicit_deny_wins [of "statement_deny finance_invoice_approve"
      "\<lparr>roles = [], statements = [statement_deny finance_invoice_approve]\<rparr>" finance_invoice_approve
      "\<lambda>f s. None" "[statement_allow finance_invoice_approve]" "[]" "[Owner]" Own ec_default "[]"]
  by (simp add: statement_deny_def statement_allow_def)

text \<open>
  A principal narrowed by any sequence of scope lists allows exactly the permissions that
  the original principal allows and every one of the lists contains, so a restriction never
  adds a permission and one empty list takes all of them away.
\<close>

theorem intersect_scopes_chain:
  "is_allowed pt (foldl (intersect_scopes pt) p xss) x \<longleftrightarrow>
   is_allowed pt p x \<and> (\<forall>xs \<in> set xss. x \<in> set xs)"
  by (rule api_key.restrict_chain)

theorem intersect_scopes_chain_witness:
  "is_allowed (\<lambda>f s. None) (foldl (intersect_scopes (\<lambda>f s. None))
     (from_permission_ids [''a.b.c'', ''d.e.f'']) [[''d.e.f'', ''x.y.z''], [''d.e.f'']]) ''d.e.f''"
  using intersect_scopes_chain [of "\<lambda>f s. None" "from_permission_ids [''a.b.c'', ''d.e.f'']"
      "[[''d.e.f'', ''x.y.z''], [''d.e.f'']]" "''d.e.f''"]
  by (simp add: is_allowed_from_ids)

text \<open>
  Deny by default: no system role grants a permission outside the catalogue, so a principal
  without a statement about such a permission is denied it at every scope and in every
  context, with the reason for the default.
\<close>

theorem uncatalogued_default_deny:
  assumes "x \<notin> pd_id ` set PERMISSION_CATALOGUE"
    and "\<forall>s \<in> set (statements p). st_permission s \<noteq> x"
  shows "decide_with_context pt p x sc ctx =
    \<lparr>dd_decision = Deny, dd_permission = x, dd_reason = ''default_deny''\<rparr>"
proof -
  have "\<not> role_granted p x"
    using assms(1) default_allows_catalogued by (fastforce simp: role_granted_def)
  moreover have "\<not> denied p x" "\<not> granted pt p x sc ctx" "\<not> condition_failed pt p x sc ctx"
    using assms(2) by (auto simp: decision_defs)
  ultimately show ?thesis by (simp add: decide_eq)
qed

theorem uncatalogued_default_deny_witness:
  "decide_with_context (\<lambda>f s. None) (with_roles [Owner, Admin]) ''x.y.z'' Own ec_default =
   \<lparr>dd_decision = Deny, dd_permission = ''x.y.z'', dd_reason = ''default_deny''\<rparr>"
proof (rule uncatalogued_default_deny)
  have "str_code ''x.y.z'' \<notin> set (map str_code (map pd_id PERMISSION_CATALOGUE))"
    by (simp add: catalogue_defs)
  then have "''x.y.z'' \<notin> set (map pd_id PERMISSION_CATALOGUE)" by (metis image_eqI list.set_map)
  then show "''x.y.z'' \<notin> pd_id ` set PERMISSION_CATALOGUE" by simp
qed (simp add: with_roles_def)

text \<open>
  The read-only role grants no sensitive action: a principal whose only roles are read-only
  and that has no statements is denied every action of the sensitive list, and every such
  action is in the catalogue and marked sensitive there.
\<close>

theorem read_only_no_sensitive:
  assumes "x \<in> set SENSITIVE_ACTIONS" and "set rs \<subseteq> {ReadOnly}"
  shows "\<not> is_allowed_with_context pt (with_roles rs) x sc ctx \<and>
    (\<exists>p \<in> set PERMISSION_CATALOGUE. pd_id p = x \<and> pd_sensitive p)"
proof
  have "x \<notin> set read_only_allows" using assms(1) read_only_sensitive_distinct by auto
  then have "\<not> role_granted (with_roles rs) x"
    using assms(2) by (auto simp: role_granted_def with_roles_def)
  then show "\<not> is_allowed_with_context pt (with_roles rs) x sc ctx"
    by (simp add: is_allowed_with_context_def decide_Allow granted_def with_roles_def)
  show "\<exists>p \<in> set PERMISSION_CATALOGUE. pd_id p = x \<and> pd_sensitive p"
    using assms(1) by (rule sensitive_catalogued)
qed

theorem read_only_no_sensitive_witness:
  "\<not> is_allowed_with_context (\<lambda>f s. None) (with_roles [ReadOnly]) ''finance.period.close'' Own ec_default"
  using read_only_no_sensitive [of "''finance.period.close''" "[ReadOnly]" "\<lambda>f s. None" Own ec_default]
  by (simp add: SENSITIVE_ACTIONS_def)

text \<open>
  A grant whose attribute conditions fail takes away what a role grants: with a role that
  has the permission and no statement about it the decision is Allow, and after adding an
  allow statement with unmet conditions it is Deny. The decision order in the documentation
  of \<open>decide\<close> has no such step between explicit allows and role defaults.
\<close>

theorem unmet_allow_revokes_role:
  assumes "role_granted p x" and "\<forall>s \<in> set (statements p). st_permission s \<noteq> x"
    and "\<not> conditions_match pt cs ctx"
  shows "decide_with_context pt p x sc ctx =
      \<lparr>dd_decision = Allow, dd_permission = x, dd_reason = ''role_allow''\<rparr> \<and>
    decide_with_context pt (p\<lparr>statements := statements p @ [with_conditions (statement_allow x) cs]\<rparr>) x sc ctx =
      \<lparr>dd_decision = Deny, dd_permission = x, dd_reason = ''abac_deny''\<rparr>"
  using assms by (auto simp: decide_eq decision_defs with_conditions_def statement_allow_def)

theorem unmet_allow_revokes_role_witness:
  "role_granted (with_roles [Sales]) workspace_dashboard_read \<and>
   dd_decision (decide (\<lambda>f s. None) (with_roles [Sales]) workspace_dashboard_read) = Allow \<and>
   dd_decision (decide (\<lambda>f s. None)
     \<lparr>roles = [Sales], statements =
        [with_conditions (statement_allow workspace_dashboard_read) [RecordState [''draft''] []]]\<rparr>
     workspace_dashboard_read) = Deny"
proof -
  have "role_granted (with_roles [Sales]) workspace_dashboard_read"
    by (simp add: role_granted_def with_roles_def sales_allows_def)
  then show ?thesis
    using unmet_allow_revokes_role [of "with_roles [Sales]" workspace_dashboard_read "\<lambda>f s. None"
        "[RecordState [''draft''] []]" ec_default Organization]
    by (simp add: with_roles_def decide_def conditions_match_def match_record_state_def ec_default_def)
qed

text \<open>
  What is allowed at a scope is allowed at every narrower scope, except where the narrower
  scope brings in a conditional allow that fails. The exception occurs: a role gives the
  permission for the whole organization while an own-scope statement with an unmet condition
  denies it on the principal's own records.
\<close>

theorem scope_monotone_except_abac:
  "(is_allowed_with_context pt p x sc ctx \<and> sc' \<le> sc \<longrightarrow>
      is_allowed_with_context pt p x sc' ctx \<or>
      dd_reason (decide_with_context pt p x sc' ctx) = ''abac_deny'') \<and>
   (\<exists>q. is_allowed_scoped pt q workspace_dashboard_read Organization \<and>
      \<not> is_allowed_scoped pt q workspace_dashboard_read Own)"
proof
  have "granted pt p x sc ctx \<Longrightarrow> sc' \<le> sc \<Longrightarrow> granted pt p x sc' ctx"
    by (auto simp: granted_def grants_def intro: order_trans)
  then show "is_allowed_with_context pt p x sc ctx \<and> sc' \<le> sc \<longrightarrow>
      is_allowed_with_context pt p x sc' ctx \<or>
      dd_reason (decide_with_context pt p x sc' ctx) = ''abac_deny''"
    by (auto simp: is_allowed_with_context_def decide_eq)
next
  let ?q = "\<lparr>roles = [Sales], statements =
    [\<lparr>st_effect = EffectAllow, st_permission = workspace_dashboard_read, st_scope = Own,
      st_conditions = [RecordState [] []]\<rparr>]\<rparr>"
  have "\<not> Organization \<le> Own" by (simp add: less_eq_scope_def)
  then have "is_allowed_scoped pt ?q workspace_dashboard_read Organization"
    by (simp add: is_allowed_scoped_def decide_with_scope_def decide_eq decision_defs sales_allows_def)
  moreover have "\<not> is_allowed_scoped pt ?q workspace_dashboard_read Own"
    by (simp add: is_allowed_scoped_def decide_with_scope_def decide_eq decision_defs
        conditions_match_def match_record_state_def ec_default_def)
  ultimately show "\<exists>q. is_allowed_scoped pt q workspace_dashboard_read Organization \<and>
      \<not> is_allowed_scoped pt q workspace_dashboard_read Own" by blast
qed

theorem scope_monotone_except_abac_witness:
  "is_allowed_with_context (\<lambda>f s. None) (from_permission_ids [''a.b.c'']) ''a.b.c'' Team ec_default"
proof -
  have "is_allowed_with_context (\<lambda>f s. None) (from_permission_ids [''a.b.c'']) ''a.b.c'' Department ec_default"
    by (simp add: is_allowed_with_context_def decide_eq decision_defs from_permission_ids_def)
  moreover have "Team \<le> Department" by (simp add: less_eq_scope_def)
  moreover have "dd_reason (decide_with_context (\<lambda>f s. None) (from_permission_ids [''a.b.c'']) ''a.b.c''
      Team ec_default) \<noteq> ''abac_deny''"
    by (simp add: decide_eq decision_defs from_permission_ids_def)
  ultimately show ?thesis
    using scope_monotone_except_abac [of "\<lambda>f s. None" "from_permission_ids [''a.b.c'']" "''a.b.c''"
        Department ec_default Team] by blast
qed

text \<open>
  The catalogue is well-formed: ids are distinct, each is its context, resource and action
  joined by dots and passes the validation, and none of them is taken for a permission of a
  custom entity.
\<close>

theorem catalogue_well_formed:
  "distinct (map pd_id PERMISSION_CATALOGUE) \<and>
   (\<forall>p \<in> set PERMISSION_CATALOGUE.
      split_on CHR ''.'' (pd_id p) = [pd_context p, pd_resource p, pd_action p] \<and>
      validate_permission_id (pd_id p) = Inr () \<and>
      \<not> is_dynamic_custom_entity_permission (pd_id p))"
proof (intro conjI ballI)
  fix p assume p: "p \<in> set PERMISSION_CATALOGUE"
  then have "entry_shape p" using catalogue_shape by (simp add: list_all_iff)
  then have *: "pd_id p = join_with ''.'' [pd_context p, pd_resource p, pd_action p]"
    "\<forall>s \<in> set [pd_context p, pd_resource p, pd_action p]. CHR ''.'' \<notin> set s"
    "\<forall>s \<in> set [pd_context p, pd_resource p, pd_action p]. s \<noteq> []"
    by (auto simp: entry_shape_def list_all_iff)
  show split: "split_on CHR ''.'' (pd_id p) = [pd_context p, pd_resource p, pd_action p]"
    unfolding *(1) by (rule split_on_join) (use * in simp_all)
  show "validate_permission_id (pd_id p) = Inr ()"
    unfolding validate_permission_id_def split using *(3) by simp
  show "\<not> is_dynamic_custom_entity_permission (pd_id p)"
    using p catalogue_not_dynamic by (simp add: list_all_iff)
qed (rule distinct_catalogue)

theorem catalogue_well_formed_witness:
  "hd PERMISSION_CATALOGUE \<in> set PERMISSION_CATALOGUE \<and>
   validate_permission_id (pd_id (hd PERMISSION_CATALOGUE)) = Inr ()"
proof -
  have "PERMISSION_CATALOGUE \<noteq> []" by (simp add: PERMISSION_CATALOGUE_def catalogue_part_1_def)
  then have "hd PERMISSION_CATALOGUE \<in> set PERMISSION_CATALOGUE" by simp
  with catalogue_well_formed show ?thesis by blast
qed

text \<open>
  The permissions recognised as belonging to custom entities are exactly the read and write
  permissions built from a valid slug that is not reserved.
\<close>

theorem dynamic_permission_exact:
  "is_dynamic_custom_entity_permission i \<longleftrightarrow>
   (\<exists>slug. valid_slug slug \<and> (i = custom_entity_read slug \<or> i = custom_entity_write slug))"
    (is "?L \<longleftrightarrow> ?R")
proof
  assume ?L
  then obtain s a where i: "i = ''custom.'' @ s @ ''.'' @ a" and "CHR ''.'' \<notin> set a"
    by (rule dynamic_shape)
  then show ?R
    using \<open>?L\<close> dynamic_resource [of a s] by (auto simp: custom_entity_read_def custom_entity_write_def)
next
  assume ?R
  then show ?L
    using dynamic_resource [of "''read''"] dynamic_resource [of "''write''"]
    by (auto simp: custom_entity_read_def custom_entity_write_def)
qed

text \<open>
  The permission cache never answers with an entry older than its time to live, and until
  then it answers with what was put: after a put, gets for other keys, puts for other keys
  and the passing of at most the time to live, the get returns the set; once more time has
  passed, or after the membership is invalidated, it returns nothing.
\<close>

theorem cache_fresh:
  "snd (cache_get t (cache_put t0 c m v xs) m v) = (if t - t0 \<le> pc_ttl c then Some xs else None) \<and>
   snd (cache_get t (invalidate_membership c m) m v) = None \<and>
   ((m', v') \<noteq> (m, v) \<longrightarrow>
      snd (cache_get t (cache_put t0 c m' v' xs) m v) = snd (cache_get t c m v) \<and>
      snd (cache_get t (fst (cache_get t0 c m' v')) m v) = snd (cache_get t c m v)) \<and>
   (t0 \<le> t \<longrightarrow> snd (cache_get t (fst (cache_get t0 c m v)) m v) = snd (cache_get t c m v)) \<and>
   (m' \<noteq> m \<longrightarrow> snd (cache_get t (invalidate_membership c m') m v) = snd (cache_get t c m v))"
  by (auto simp: cache_get_def cache_put_def invalidate_membership_def Let_def split: option.splits)

theorem cache_fresh_witness:
  "snd (cache_get 3 (cache_put 1 cache_default_5s ''mem_1'' 7 [''a.b.c'']) ''mem_1'' 7) = Some [''a.b.c''] \<and>
   snd (cache_get 3 (fst (cache_get 2 (cache_put 1 cache_default_5s ''mem_1'' 7 [''a.b.c'']) ''mem_1'' 7)) ''mem_1'' 7)
     = Some [''a.b.c'']"
  using cache_fresh [of 3 1 cache_default_5s "''mem_1''" 7 "[''a.b.c'']" "''mem_2''" 7]
    cache_fresh [of 3 2 "cache_put 1 cache_default_5s ''mem_1'' 7 [''a.b.c'']" "''mem_1''" 7 "[]" "''mem_2''" 7]
  by (simp add: cache_default_5s_def cache_with_ttl_def)

end
