(* ===== verification/Workflow_Graph.thy ===== *)
theory Workflow_Graph
  imports Authz Json Errors
begin

text \<open>
  The configuration side of the workflow service: graphs (\<open>definition.rs\<close>), the trigger and
  action catalogues (\<open>catalogue.rs\<close>), the permission gate (\<open>permissions.rs\<close>) and the dry
  run (\<open>simulate.rs\<close>). The printed form of a JSON value is the parameter \<open>json_text\<close>; the
  time parser of the authorisation conditions is the parameter \<open>pt\<close>.

  The loop of the dry run is a recursion on the number of steps left before the cap, which is
  \<open>max_steps - step_index\<close> in the code.
\<close>

section \<open>Graphs\<close>

datatype workflow_trigger = DomainEvent string | Manual

datatype human_step_kind = Approval | Inbox

record branch_arm =
  arm_path :: string
  arm_equals :: json
  arm_next :: string

datatype workflow_node =
    Action string string json "string option"
  | Condition string string json string string
  | Branch string "branch_arm list" string
  | Timer string nat string
  | Human string human_step_kind json string string
  | End string

record workflow_graph =
  wg_entry :: string
  wg_trigger :: workflow_trigger
  wg_nodes :: "workflow_node list"
  wg_sla_seconds :: "nat option"

primrec node_id :: "workflow_node \<Rightarrow> string" where
  "node_id (Action i action params nxt) = i"
| "node_id (Condition i path equals then_next else_next) = i"
| "node_id (Branch i arms default_next) = i"
| "node_id (Timer i duration_secs nxt) = i"
| "node_id (Human i kind params on_approve on_reject) = i"
| "node_id (End i) = i"

primrec as_action_key :: "workflow_node \<Rightarrow> string option" where
  "as_action_key (Action i action params nxt) = Some action"
| "as_action_key (Condition i path equals then_next else_next) = None"
| "as_action_key (Branch i arms default_next) = None"
| "as_action_key (Timer i duration_secs nxt) = None"
| "as_action_key (Human i kind params on_approve on_reject) =
     (case kind of Approval \<Rightarrow> Some ''start_approval'' | Inbox \<Rightarrow> None)"
| "as_action_key (End i) = None"

definition graph_node :: "workflow_graph \<Rightarrow> string \<Rightarrow> workflow_node option" where
  "graph_node g i = find (\<lambda>n. node_id n = i) (wg_nodes g)"

text \<open>\<open>Vec::sort\<close> on strings followed by \<open>dedup\<close>.\<close>

definition sort_dedup :: "string list \<Rightarrow> string list" where
  "sort_dedup ss = remdups_adj (sort_by (\<lambda>a b. \<not> str_less b a) ss)"

definition action_keys :: "workflow_graph \<Rightarrow> string list" where
  "action_keys g = sort_dedup (List.map_filter as_action_key (wg_nodes g))"

section \<open>Catalogues\<close>

record trigger_entry =
  te_event_key :: string
  te_context :: string
  te_aggregate :: string
  te_event_type :: string
  te_description :: string
  te_subject_suffix :: string

record action_entry =
  ac_key :: string
  ac_description :: string
  ac_required_permission :: string
  ac_http_method :: string
  ac_http_path :: string
  ac_high_risk :: bool

definition utf8_arrow :: string where
  "utf8_arrow = [char_of (226::nat), char_of (134::nat), char_of (146::nat)]"

definition TRIGGER_CATALOGUE :: "trigger_entry list" where
  "TRIGGER_CATALOGUE =
   [\<lparr>te_event_key = ''sales.deal.won'', te_context = ''sales'', te_aggregate = ''deal'',
     te_event_type = ''won'', te_description = ''Deal marked won in CRM'',
     te_subject_suffix = ''sales.deal.won.v1''\<rparr>,
    \<lparr>te_event_key = ''people.leave.requested'', te_context = ''people'', te_aggregate = ''leave'',
     te_event_type = ''requested'', te_description = ''Leave request submitted'',
     te_subject_suffix = ''people.leave.requested.v1''\<rparr>,
    \<lparr>te_event_key = ''people.leave.approved'', te_context = ''people'', te_aggregate = ''leave'',
     te_event_type = ''approved'', te_description = ''Leave request approved'',
     te_subject_suffix = ''people.leave.approved.v1''\<rparr>,
    \<lparr>te_event_key = ''inventory.stock.low'', te_context = ''inventory'', te_aggregate = ''stock'',
     te_event_type = ''low'', te_description = ''Stock at or below reorder point'',
     te_subject_suffix = ''inventory.stock.low.v1''\<rparr>,
    \<lparr>te_event_key = ''inventory.purchase_request.approved'', te_context = ''inventory'',
     te_aggregate = ''purchase_request'', te_event_type = ''approved'',
     te_description = ''Purchase request approved'',
     te_subject_suffix = ''inventory.purchase_request.approved.v1''\<rparr>,
    \<lparr>te_event_key = ''finance.invoice.issued'', te_context = ''finance'', te_aggregate = ''invoice'',
     te_event_type = ''issued'',
     te_description = ''Invoice issued (overdue is query-status; use issued as trigger)'',
     te_subject_suffix = ''finance.invoice.issued.v1''\<rparr>]"

definition ACTION_CATALOGUE :: "action_entry list" where
  "ACTION_CATALOGUE =
   [\<lparr>ac_key = ''create_task'', ac_description = ''Create an operations task'',
     ac_required_permission = ''operations.task.create'', ac_http_method = ''POST'',
     ac_http_path = ''/api/v1/operations/tasks'', ac_high_risk = False\<rparr>,
    \<lparr>ac_key = ''send_notification'',
     ac_description = ''Send an in-app notification via notification ingest'',
     ac_required_permission = ''platform.notification.read'', ac_http_method = ''POST'',
     ac_http_path = ''/api/v1/notifications/internal/ingest'', ac_high_risk = False\<rparr>,
    \<lparr>ac_key = ''start_approval'',
     ac_description = ''Start an approval process (operations approvals API)'',
     ac_required_permission = ''operations.approval.read'', ac_http_method = ''POST'',
     ac_http_path = ''/api/v1/operations/approvals'', ac_high_risk = False\<rparr>,
    \<lparr>ac_key = ''update_deal_status'', ac_description = ''Update a CRM deal (status / fields)'',
     ac_required_permission = ''sales.deal.update'', ac_http_method = ''PATCH'',
     ac_http_path = ''/api/v1/sales/deals/{id}'', ac_high_risk = False\<rparr>,
    \<lparr>ac_key = ''create_purchase_request'',
     ac_description = ''Draft a purchase request (low-stock '' @ utf8_arrow @ '' PR)'',
     ac_required_permission = ''inventory.purchase_request.write'', ac_http_method = ''POST'',
     ac_http_path = ''/api/v1/inventory/purchase-requests'', ac_high_risk = False\<rparr>,
    \<lparr>ac_key = ''post_journal'',
     ac_description = ''Post a journal entry (high-risk; integer minor units; closed periods reject)'',
     ac_required_permission = ''finance.journal.post'', ac_http_method = ''POST'',
     ac_http_path = ''/api/v1/finance/journals'', ac_high_risk = True\<rparr>,
    \<lparr>ac_key = ''read_payroll'',
     ac_description = ''Read payroll run (sensitive; Member must not gain this via workflow)'',
     ac_required_permission = ''hr.payroll.read'', ac_http_method = ''GET'',
     ac_http_path = ''/api/v1/people/payroll/runs'', ac_high_risk = True\<rparr>]"

definition is_known_trigger :: "string \<Rightarrow> bool" where
  "is_known_trigger event_key = list_ex (\<lambda>t. te_event_key t = event_key) TRIGGER_CATALOGUE"

definition is_known_action :: "string \<Rightarrow> bool" where
  "is_known_action key = list_ex (\<lambda>a. ac_key a = key) ACTION_CATALOGUE"

definition find_action_entry :: "string \<Rightarrow> action_entry option" where
  "find_action_entry key = find (\<lambda>a. ac_key a = key) ACTION_CATALOGUE"

definition find_trigger_entry :: "string \<Rightarrow> trigger_entry option" where
  "find_trigger_entry event_key = find (\<lambda>t. te_event_key t = event_key) TRIGGER_CATALOGUE"

definition required_permission_for_action :: "string \<Rightarrow> permission_id option" where
  "required_permission_for_action key = map_option ac_required_permission (find_action_entry key)"

definition required_permissions_for_graph :: "workflow_graph \<Rightarrow> string + string list" where
  "required_permissions_for_graph g =
     and_then (collect_res (\<lambda>key.
         case find_action_entry key of
           None \<Rightarrow> Inl (''unknown action '' @ quote_str key)
         | Some entry \<Rightarrow> Inr (ac_required_permission entry)) (action_keys g))
       (\<lambda>out. Inr (sort_dedup out))"

fun duplicate_id :: "workflow_node list \<Rightarrow> string list \<Rightarrow> string option" where
  "duplicate_id [] seen = None"
| "duplicate_id (n # ns) seen =
     (if node_id n \<in> set seen then Some (node_id n) else duplicate_id ns (node_id n # seen))"

fun unknown_action :: "workflow_node list \<Rightarrow> string option" where
  "unknown_action [] = None"
| "unknown_action (Action i action params nxt # ns) =
     (if \<not> is_known_action action then Some action else unknown_action ns)"
| "unknown_action (n # ns) = unknown_action ns"

definition graph_validate :: "workflow_graph \<Rightarrow> string + unit" where
  "graph_validate g =
     (if is_blank (wg_entry g) then Inl ''entry node id is required''
      else if graph_node g (wg_entry g) = None
      then Inl (''entry node '' @ quote_str (wg_entry g) @ '' not found in nodes'')
      else case duplicate_id (wg_nodes g) [] of
        Some i \<Rightarrow> Inl (''duplicate node id '' @ quote_str i)
      | None \<Rightarrow>
          (case (case wg_trigger g of
                   DomainEvent event_key \<Rightarrow> if \<not> is_known_trigger event_key then Some event_key else None
                 | Manual \<Rightarrow> None) of
             Some event_key \<Rightarrow> Inl (''unknown trigger event_key '' @ quote_str event_key)
           | None \<Rightarrow>
               (case unknown_action (wg_nodes g) of
                  Some action \<Rightarrow> Inl (''unknown action '' @ quote_str action)
                | None \<Rightarrow> Inr ())))"

definition fixture_graphs :: "(string \<times> string \<times> workflow_graph) list" where
  "fixture_graphs =
   [(''Deal won '' @ utf8_arrow @ '' follow-up task'', ''Creates an ops task when a deal is won.'',
     \<lparr>wg_entry = ''create_followup'', wg_trigger = DomainEvent ''sales.deal.won'',
      wg_nodes =
        [Action ''create_followup'' ''create_task''
           (json_object [(''title'', JStr ''Follow up on won deal''),
              (''description'', JStr (''Deal {{payload.deal_id}} was won '' @ em_dash @ '' schedule kickoff.''))])
           (Some ''done''),
         End ''done''],
      wg_sla_seconds = Some 86400\<rparr>),
    (''Leave approved '' @ utf8_arrow @ '' notify'', ''Sends an in-app notification when leave is approved.'',
     \<lparr>wg_entry = ''notify'', wg_trigger = DomainEvent ''people.leave.approved'',
      wg_nodes =
        [Action ''notify'' ''send_notification''
           (json_object [(''title'', JStr ''Leave approved''),
              (''body'', JStr ''Leave request {{payload.id}} was approved.'')])
           (Some ''done''),
         End ''done''],
      wg_sla_seconds = None\<rparr>),
    (''Low stock '' @ utf8_arrow @ '' purchase request draft'', ''Drafts a purchase request when stock is low.'',
     \<lparr>wg_entry = ''draft_pr'', wg_trigger = DomainEvent ''inventory.stock.low'',
      wg_nodes =
        [Action ''draft_pr'' ''create_purchase_request''
           (json_object [(''notes'', JStr ''Auto-draft from low stock on {{payload.item_id}}'')])
           (Some ''done''),
         End ''done''],
      wg_sla_seconds = Some 172800\<rparr>)]"

section \<open>Permission gate\<close>

fun check_permissions ::
  "time_parser \<Rightarrow> principal \<Rightarrow> string \<Rightarrow> string list \<Rightarrow> app_error + unit" where
  "check_permissions pt p request_id [] = Inr ()"
| "check_permissions pt p request_id (perm # perms) =
     (if dd_decision (decide pt p perm) \<noteq> Allow then
        Inl (app_error_new Forbidden request_id
          (''workflow creator lacks permission '' @ quote_str perm @
           '' required by an action in this definition (deny by default)''))
      else check_permissions pt p request_id perms)"

definition enforce_creator_can_own_graph ::
  "time_parser \<Rightarrow> principal \<Rightarrow> workflow_graph \<Rightarrow> string \<Rightarrow> app_error + string list" where
  "enforce_creator_can_own_graph pt p g request_id =
     and_then (map_err (app_error_new ValidationFailed request_id) (required_permissions_for_graph g))
       (\<lambda>required. and_then (check_permissions pt p request_id required) (\<lambda>_. Inr required))"

definition enforce_action_permission ::
  "time_parser \<Rightarrow> principal \<Rightarrow> string \<Rightarrow> string \<Rightarrow> app_error + permission_id" where
  "enforce_action_permission pt p action_key request_id =
     (case required_permission_for_action action_key of
        None \<Rightarrow> Inl (app_error_new Forbidden request_id
          (''unknown action '' @ quote_str action_key @ '' '' @ em_dash @ '' deny by default''))
      | Some pid \<Rightarrow>
          if dd_decision (decide pt p pid) \<noteq> Allow then
            Inl (app_error_new Forbidden request_id
              (''permission '' @ quote_str pid @ '' denied for action '' @ quote_str action_key @ '' at run time''))
          else Inr pid)"

section \<open>Dry run\<close>

record simulate_step_result =
  ss_step_index :: int
  ss_node_id :: string
  ss_node_type :: string
  ss_action :: "string option"
  ss_status :: string
  ss_detail :: "string option"
  ss_permission :: "string option"
  ss_permission_allowed :: "bool option"

record simulate_result =
  sr_ok :: bool
  sr_steps :: "simulate_step_result list"
  sr_error :: "string option"
  sr_side_effects :: bool

fun json_path_parts :: "json \<Rightarrow> string list \<Rightarrow> json option" where
  "json_path_parts cur [] = Some cur"
| "json_path_parts cur (part # parts) =
     (case json_get cur part of None \<Rightarrow> None | Some v \<Rightarrow> json_path_parts v parts)"

definition json_path :: "json \<Rightarrow> string \<Rightarrow> json option" where
  "json_path root path = json_path_parts root (filter (\<lambda>p. p \<noteq> []) (split_on CHR ''.'' path))"

definition strip_payload :: "string \<Rightarrow> string" where
  "strip_payload path = (case strip_prefix ''payload.'' path of Some r \<Rightarrow> r | None \<Rightarrow> path)"

fun render_string :: "(json \<Rightarrow> string) \<Rightarrow> (string \<times> json) list \<Rightarrow> string \<Rightarrow> string" where
  "render_string json_text [] out = out"
| "render_string json_text ((k, v) # obj) out =
     render_string json_text obj
       (str_replace (''{{payload.'' @ k @ ''}}'') (case v of JStr x \<Rightarrow> x | other \<Rightarrow> json_text other) out)"

fun render_templates :: "(json \<Rightarrow> string) \<Rightarrow> json \<Rightarrow> json \<Rightarrow> json"
  and render_fields :: "(json \<Rightarrow> string) \<Rightarrow> (string \<times> json) list \<Rightarrow> json \<Rightarrow> (string \<times> json) list"
  and render_items :: "(json \<Rightarrow> string) \<Rightarrow> json list \<Rightarrow> json \<Rightarrow> json list" where
  "render_templates json_text (JStr s) payload =
     JStr (case payload of JObj obj \<Rightarrow> render_string json_text obj s | _ \<Rightarrow> s)"
| "render_templates json_text (JObj m) payload = JObj (map_from (render_fields json_text m payload))"
| "render_templates json_text (JArr arr) payload = JArr (render_items json_text arr payload)"
| "render_templates json_text JNull payload = JNull"
| "render_templates json_text (JBool b) payload = JBool b"
| "render_templates json_text (JInt i) payload = JInt i"
| "render_templates json_text (JFloat f) payload = JFloat f"
| "render_fields json_text [] payload = []"
| "render_fields json_text ((k, v) # m) payload =
     (k, render_templates json_text v payload) # render_fields json_text m payload"
| "render_items json_text [] payload = []"
| "render_items json_text (v # arr) payload =
     render_templates json_text v payload # render_items json_text arr payload"

definition required_perm_str :: "string \<Rightarrow> string option" where
  "required_perm_str action = map_option ac_required_permission (find_action_entry action)"

fun choose_arm :: "json \<Rightarrow> branch_arm list \<Rightarrow> string \<Rightarrow> string" where
  "choose_arm payload [] default_next = default_next"
| "choose_arm payload (arm # arms) default_next =
     (if json_path payload (strip_payload (arm_path arm)) = Some (arm_equals arm) then arm_next arm
      else choose_arm payload arms default_next)"

text \<open>What one node does to the run: a recorded step, and the next node or the end of the run.\<close>

datatype sim_next = Goto "string option" | Stop bool "string option"

definition show_bool :: "bool \<Rightarrow> string" where
  "show_bool b = (if b then ''true'' else ''false'')"

fun simulate_node ::
  "time_parser \<Rightarrow> (json \<Rightarrow> string) \<Rightarrow> principal \<Rightarrow> json \<Rightarrow> int \<Rightarrow> workflow_node \<Rightarrow> simulate_step_result \<times> sim_next" where
  "simulate_node pt json_text p payload step_index (End i) =
     (\<lparr>ss_step_index = step_index, ss_node_id = i, ss_node_type = ''end'', ss_action = None,
       ss_status = ''ok'', ss_detail = Some ''completed'', ss_permission = None,
       ss_permission_allowed = None\<rparr>, Stop True None)"
| "simulate_node pt json_text p payload step_index (Action i action params nxt) =
     (case enforce_action_permission pt p action ''simulate'' of
        Inr pid \<Rightarrow>
          (\<lparr>ss_step_index = step_index, ss_node_id = i, ss_node_type = ''action'', ss_action = Some action,
            ss_status = ''ok'',
            ss_detail = Some (''would call action '' @ quote_str action @ '' with '' @
              json_text (render_templates json_text params payload)),
            ss_permission = Some pid, ss_permission_allowed = Some True\<rparr>, Goto nxt)
      | Inl e \<Rightarrow>
          (\<lparr>ss_step_index = step_index, ss_node_id = i, ss_node_type = ''action'', ss_action = Some action,
            ss_status = ''denied'', ss_detail = Some (ae_detail e), ss_permission = required_perm_str action,
            ss_permission_allowed = Some False\<rparr>,
           Stop False (Some (''action '' @ quote_str action @ '' denied''))))"
| "simulate_node pt json_text p payload step_index (Condition i path equals then_next else_next) =
     (let matched = (json_path payload (strip_payload path) = Some equals) in
      (\<lparr>ss_step_index = step_index, ss_node_id = i, ss_node_type = ''condition'', ss_action = None,
        ss_status = ''ok'', ss_detail = Some (''matched='' @ show_bool matched), ss_permission = None,
        ss_permission_allowed = None\<rparr>, Goto (Some (if matched then then_next else else_next))))"
| "simulate_node pt json_text p payload step_index (Branch i arms default_next) =
     (let chosen = choose_arm payload arms default_next in
      (\<lparr>ss_step_index = step_index, ss_node_id = i, ss_node_type = ''branch'', ss_action = None,
        ss_status = ''ok'', ss_detail = Some (''next='' @ chosen), ss_permission = None,
        ss_permission_allowed = None\<rparr>, Goto (Some chosen)))"
| "simulate_node pt json_text p payload step_index (Timer i duration_secs nxt) =
     (\<lparr>ss_step_index = step_index, ss_node_id = i, ss_node_type = ''timer'', ss_action = None,
       ss_status = ''waiting'',
       ss_detail = Some (''would wait '' @ show_nat duration_secs @ ''s (no timer started)''),
       ss_permission = None, ss_permission_allowed = None\<rparr>, Goto (Some nxt))"
| "simulate_node pt json_text p payload step_index (Human i kind params on_approve on_reject) =
     (let action_key = (case kind of Approval \<Rightarrow> Some ''start_approval'' | Inbox \<Rightarrow> None) in
      case (case action_key of None \<Rightarrow> Inr [] | Some ak \<Rightarrow> enforce_action_permission pt p ak ''simulate'') of
        Inl e \<Rightarrow>
          (\<lparr>ss_step_index = step_index, ss_node_id = i, ss_node_type = ''human'', ss_action = action_key,
            ss_status = ''denied'', ss_detail = Some (ae_detail e),
            ss_permission = Option.bind action_key required_perm_str,
            ss_permission_allowed = Some False\<rparr>, Stop False (Some ''human/approval step denied''))
      | Inr _ \<Rightarrow>
          (\<lparr>ss_step_index = step_index, ss_node_id = i, ss_node_type = ''human'', ss_action = action_key,
            ss_status = ''waiting'',
            ss_detail = Some ''would wait for human decision (simulation assumes approve)'',
            ss_permission = Option.bind action_key required_perm_str,
            ss_permission_allowed = Some True\<rparr>, Goto (Some on_approve)))"

fun simulate_loop ::
  "time_parser \<Rightarrow> (json \<Rightarrow> string) \<Rightarrow> workflow_graph \<Rightarrow> principal \<Rightarrow> json \<Rightarrow> int \<Rightarrow> nat \<Rightarrow> int \<Rightarrow> string option
     \<Rightarrow> simulate_step_result list \<Rightarrow> simulate_result" where
  "simulate_loop pt json_text g p payload max_steps left step_index None steps =
     \<lparr>sr_ok = False, sr_steps = steps, sr_error = Some ''graph ended without an End node'',
      sr_side_effects = False\<rparr>"
| "simulate_loop pt json_text g p payload max_steps 0 step_index (Some i) steps =
     \<lparr>sr_ok = False, sr_steps = steps,
      sr_error = Some (''iteration/step cap exceeded ('' @ show_int max_steps @ ''); run failed closed''),
      sr_side_effects = False\<rparr>"
| "simulate_loop pt json_text g p payload max_steps (Suc left) step_index (Some i) steps =
     (case graph_node g i of
        None \<Rightarrow> \<lparr>sr_ok = False, sr_steps = steps, sr_error = Some (''unknown node '' @ quote_str i),
                  sr_side_effects = False\<rparr>
      | Some node \<Rightarrow>
          (case simulate_node pt json_text p payload step_index node of
             (s, Stop ok err) \<Rightarrow>
               \<lparr>sr_ok = ok, sr_steps = steps @ [s], sr_error = err, sr_side_effects = False\<rparr>
           | (s, Goto nxt) \<Rightarrow>
               simulate_loop pt json_text g p payload max_steps left (step_index + 1) nxt (steps @ [s])))"

definition simulate ::
  "time_parser \<Rightarrow> (json \<Rightarrow> string) \<Rightarrow> workflow_graph \<Rightarrow> principal \<Rightarrow> json \<Rightarrow> int \<Rightarrow> simulate_result" where
  "simulate pt json_text g p payload max_steps =
     simulate_loop pt json_text g p payload max_steps (nat max_steps) 0 (Some (wg_entry g)) []"

section \<open>The gate\<close>

lemma set_sort_dedup [simp]: "set (sort_dedup ss) = set ss"
  by (simp add: sort_dedup_def)

lemma set_action_keys: "set (action_keys g) = {k. \<exists>n \<in> set (wg_nodes g). as_action_key n = Some k}"
  by (force simp: action_keys_def List.map_filter_def)

lemma list_all2_image:
  assumes "list_all2 P xs ys" and "\<And>x y z. P x y \<Longrightarrow> P x z \<Longrightarrow> y = z"
  shows "set ys = {y. \<exists>x \<in> set xs. P x y}" and "\<forall>x \<in> set xs. \<exists>y. P x y"
  using assms(1) by (induction rule: list_all2_induct) (auto dest: assms(2))

lemma check_permissions_ok:
  "is_ok (check_permissions pt p rid perms) \<longleftrightarrow> (\<forall>perm \<in> set perms. is_allowed pt p perm)"
  by (induction perms) (auto simp: is_allowed_def)

lemma enforce_action_permission_ok:
  "is_ok (enforce_action_permission pt p k rid) \<longleftrightarrow>
     (\<exists>entry. find_action_entry k = Some entry \<and> is_allowed pt p (ac_required_permission entry))"
  by (auto simp: enforce_action_permission_def required_permission_for_action_def is_allowed_def
      split: option.splits)

lemma required_permissions_cases:
  "(case required_permissions_for_graph g of
      Inr required \<Rightarrow> set required = {ac_required_permission e | e k. k \<in> set (action_keys g) \<and> find_action_entry k = Some e} \<and>
        (\<forall>k \<in> set (action_keys g). find_action_entry k \<noteq> None)
    | Inl msg \<Rightarrow> \<exists>k \<in> set (action_keys g). find_action_entry k = None)"
proof -
  let ?f = "\<lambda>key. case find_action_entry key of
      None \<Rightarrow> Inl (''unknown action '' @ quote_str key) | Some entry \<Rightarrow> Inr (ac_required_permission entry)"
  have f: "?f k = Inr y \<longleftrightarrow> (\<exists>e. find_action_entry k = Some e \<and> y = ac_required_permission e)" for k y
    by (auto split: option.splits)
  show ?thesis
  proof (cases "collect_res ?f (action_keys g)")
    case (Inl e)
    from collect_res_error [OF Inl] obtain k where "k \<in> set (action_keys g)" "?f k = Inl e" by blast
    then have "find_action_entry k = None" by (cases "find_action_entry k") simp_all
    with \<open>k \<in> set (action_keys g)\<close> Inl show ?thesis by (auto simp: required_permissions_for_graph_def)
  next
    case (Inr out)
    then have all: "list_all2 (\<lambda>k y. \<exists>e. find_action_entry k = Some e \<and> y = ac_required_permission e) (action_keys g) out"
      by (simp add: collect_res_Inr f)
    have uniq: "y = z" if "\<exists>e. find_action_entry k = Some e \<and> y = ac_required_permission e"
      "\<exists>e. find_action_entry k = Some e \<and> z = ac_required_permission e" for k y z
      using that by auto
    have "set out = {y. \<exists>k \<in> set (action_keys g). \<exists>e. find_action_entry k = Some e \<and> y = ac_required_permission e}"
      by (rule list_all2_image(1) [OF all uniq])
    moreover have "\<forall>k \<in> set (action_keys g). \<exists>y e. find_action_entry k = Some e \<and> y = ac_required_permission e"
      by (rule list_all2_image(2) [OF all uniq])
    ultimately have "set out = {ac_required_permission e | e k. k \<in> set (action_keys g) \<and> find_action_entry k = Some e}"
      "\<forall>k \<in> set (action_keys g). find_action_entry k \<noteq> None" by auto
    then show ?thesis using Inr by (auto simp: required_permissions_for_graph_def)
  qed
qed

lemma gate_iff:
  "is_ok (enforce_creator_can_own_graph pt p g rid) \<longleftrightarrow>
     (\<forall>n \<in> set (wg_nodes g). \<forall>k. as_action_key n = Some k \<longrightarrow> is_ok (enforce_action_permission pt p k rid'))"
proof -
  have keys: "(\<forall>n \<in> set (wg_nodes g). \<forall>k. as_action_key n = Some k \<longrightarrow> is_ok (enforce_action_permission pt p k rid')) \<longleftrightarrow>
      (\<forall>k \<in> set (action_keys g). \<exists>e. find_action_entry k = Some e \<and> is_allowed pt p (ac_required_permission e))"
    by (auto simp: set_action_keys enforce_action_permission_ok)
  show ?thesis
  proof (cases "required_permissions_for_graph g")
    case (Inl msg)
    with required_permissions_cases [of g] show ?thesis
      unfolding keys by (force simp: enforce_creator_can_own_graph_def)
  next
    case (Inr required)
    then have "is_ok (enforce_creator_can_own_graph pt p g rid) \<longleftrightarrow> is_ok (check_permissions pt p rid required)"
      by (cases "check_permissions pt p rid required") (auto simp: enforce_creator_can_own_graph_def)
    then show ?thesis
      using required_permissions_cases [of g] Inr unfolding keys check_permissions_ok by fastforce
  qed
qed

lemma simulate_node_allowed:
  assumes "\<And>k. as_action_key n = Some k \<Longrightarrow> is_ok (enforce_action_permission pt p k ''simulate'')"
    and "simulate_node pt jt p payload i n = (s, nxt)"
  shows "ss_status s \<noteq> ''denied'' \<and> ss_permission_allowed s \<noteq> Some False \<and> (\<forall>err. nxt \<noteq> Stop False err)"
proof (cases n)
  case (Action a b c d)
  with assms show ?thesis by (cases "enforce_action_permission pt p b ''simulate''") auto
next
  case (Human a kind c d e)
  with assms show ?thesis
    by (cases kind; cases "enforce_action_permission pt p ''start_approval'' ''simulate''") auto
qed (use assms(2) in \<open>auto simp: Let_def\<close>)

lemma graph_node_in: "graph_node g i = Some n \<Longrightarrow> n \<in> set (wg_nodes g) \<and> node_id n = i"
  by (auto simp: graph_node_def find_Some_iff)

lemma simulate_loop_allowed:
  assumes "\<And>n k. n \<in> set (wg_nodes g) \<Longrightarrow> as_action_key n = Some k \<Longrightarrow>
      is_ok (enforce_action_permission pt p k ''simulate'')"
    and "\<forall>s \<in> set steps. ss_status s \<noteq> ''denied''"
  shows "\<forall>s \<in> set (sr_steps (simulate_loop pt jt g p payload ms left i cur steps)). ss_status s \<noteq> ''denied''"
  using assms(2)
proof (induction left arbitrary: i cur steps)
  case 0
  then show ?case by (cases cur) simp_all
next
  case (Suc left)
  show ?case
  proof (cases "Option.bind cur (graph_node g)")
    case None
    with Suc.prems show ?thesis by (cases cur) simp_all
  next
    case (Some n)
    then obtain j where j: "cur = Some j" "graph_node g j = Some n" by (auto simp: bind_eq_Some_conv)
    obtain s nxt where s: "simulate_node pt jt p payload i n = (s, nxt)" by fastforce
    have n: "n \<in> set (wg_nodes g)" using graph_node_in [OF j(2)] by simp
    have "ss_status s \<noteq> ''denied''" using simulate_node_allowed [OF assms(1) [OF n] s] by simp
    with Suc.prems have ok: "\<forall>x \<in> set (steps @ [s]). ss_status x \<noteq> ''denied''" by auto
    from Suc.IH [OF ok] ok show ?thesis by (cases nxt) (simp_all add: j s del: set_append)
  qed
qed

text \<open>
  C36: The gate at save time and the gate at run time are the same: a principal may own a graph
  exactly when it passes the check of every action and approval node at run time, unknown actions
  being denied by both; and no dry run of a graph by a principal that may own it has a denied
  step, whatever the payload and the cap.
\<close>

theorem creator_gate_sound:
  "(is_ok (enforce_creator_can_own_graph pt p g rid) \<longleftrightarrow>
     (\<forall>n \<in> set (wg_nodes g). \<forall>k. as_action_key n = Some k \<longrightarrow> is_ok (enforce_action_permission pt p k rid'))) \<and>
   (is_ok (enforce_creator_can_own_graph pt p g rid) \<longrightarrow>
     (\<forall>s \<in> set (sr_steps (simulate pt jt g p payload max_steps)). ss_status s \<noteq> ''denied''))"
proof (intro conjI impI)
  show "is_ok (enforce_creator_can_own_graph pt p g rid) \<longleftrightarrow>
     (\<forall>n \<in> set (wg_nodes g). \<forall>k. as_action_key n = Some k \<longrightarrow> is_ok (enforce_action_permission pt p k rid'))"
    by (rule gate_iff)
  assume "is_ok (enforce_creator_can_own_graph pt p g rid)"
  then have "\<forall>n \<in> set (wg_nodes g). \<forall>k. as_action_key n = Some k \<longrightarrow>
      is_ok (enforce_action_permission pt p k ''simulate'')"
    by (simp only: gate_iff [where rid' = "''simulate''"])
  then show "\<forall>s \<in> set (sr_steps (simulate pt jt g p payload max_steps)). ss_status s \<noteq> ''denied''"
    unfolding simulate_def by (intro simulate_loop_allowed) auto
qed

section \<open>The dry run ends\<close>

text \<open>The nodes a node may hand over to.\<close>

primrec node_targets :: "workflow_node \<Rightarrow> string list" where
  "node_targets (Action i action params nxt) = (case nxt of None \<Rightarrow> [] | Some t \<Rightarrow> [t])"
| "node_targets (Condition i path equals then_next else_next) = [then_next, else_next]"
| "node_targets (Branch i arms default_next) = default_next # map arm_next arms"
| "node_targets (Timer i duration_secs nxt) = [nxt]"
| "node_targets (Human i kind params on_approve on_reject) = [on_approve, on_reject]"
| "node_targets (End i) = []"

lemma choose_arm_target: "choose_arm payload arms d \<in> insert d (arm_next ` set arms)"
  by (induction arms) auto

lemma simulate_node_next:
  assumes "simulate_node pt jt p payload i n = (s, nxt)"
  shows "(case nxt of
      Goto (Some t) \<Rightarrow> t \<in> set (node_targets n)
    | Goto None \<Rightarrow> node_targets n = []
    | Stop ok err \<Rightarrow> ok \<longrightarrow> err = None \<and> ss_node_type s = ''end'')
    \<and> ss_step_index s = i \<and> ss_node_id s = node_id n"
proof (cases n)
  case (Action a b c d)
  with assms show ?thesis by (cases d; cases "enforce_action_permission pt p b ''simulate''") auto
next
  case (Branch a arms d)
  with assms choose_arm_target [of payload arms d] show ?thesis by (auto simp: Let_def)
next
  case (Human a kind c d e)
  with assms show ?thesis
    by (cases kind; cases "enforce_action_permission pt p ''start_approval'' ''simulate''") auto
qed (use assms in \<open>auto simp: Let_def\<close>)

lemma simulate_loop_bounded:
  assumes "map ss_step_index steps = map int [0..<length steps]" and "i = int (length steps)"
  shows "length (sr_steps (simulate_loop pt jt g p payload ms left i cur steps)) \<le> length steps + left \<and>
    map ss_step_index (sr_steps (simulate_loop pt jt g p payload ms left i cur steps)) =
      map int [0..<length (sr_steps (simulate_loop pt jt g p payload ms left i cur steps))] \<and>
    (sr_ok (simulate_loop pt jt g p payload ms left i cur steps) \<longrightarrow>
      sr_error (simulate_loop pt jt g p payload ms left i cur steps) = None \<and>
      (\<exists>ss s. sr_steps (simulate_loop pt jt g p payload ms left i cur steps) = ss @ [s] \<and> ss_node_type s = ''end''))"
  using assms
proof (induction left arbitrary: i cur steps)
  case 0
  then show ?case by (cases cur) simp_all
next
  case (Suc left)
  show ?case
  proof (cases "Option.bind cur (graph_node g)")
    case None
    with Suc.prems show ?thesis by (cases cur) simp_all
  next
    case (Some n)
    then obtain j where j: "cur = Some j" "graph_node g j = Some n" by (auto simp: bind_eq_Some_conv)
    obtain s nxt where s: "simulate_node pt jt p payload i n = (s, nxt)" by fastforce
    note n = simulate_node_next [OF s]
    show ?thesis
    proof (cases nxt)
      case (Goto t)
      have "map ss_step_index (steps @ [s]) = map int [0..<length (steps @ [s])]"
        "i + 1 = int (length (steps @ [s]))" using n Suc.prems by simp_all
      from Suc.IH [OF this, of t] show ?thesis by (simp add: j s Goto)
    next
      case (Stop ok err)
      then have eq: "simulate_loop pt jt g p payload ms (Suc left) i cur steps =
          \<lparr>sr_ok = ok, sr_steps = steps @ [s], sr_error = err, sr_side_effects = False\<rparr>"
        by (simp add: j s)
      from n Suc.prems Stop show ?thesis unfolding eq by auto
    qed
  qed
qed

text \<open>
  A graph without dangling references, without cycles, and in which every action has a
  successor.
\<close>

definition well_structured :: "(string \<Rightarrow> nat) \<Rightarrow> workflow_graph \<Rightarrow> bool" where
  "well_structured rank g \<longleftrightarrow> graph_node g (wg_entry g) \<noteq> None \<and>
     (\<forall>n \<in> set (wg_nodes g).
        (\<forall>t \<in> set (node_targets n). graph_node g t \<noteq> None \<and> rank t < rank (node_id n)) \<and>
        ((\<exists>i. n = End i) \<or> node_targets n \<noteq> []))"

lemma simulate_node_stop:
  assumes "simulate_node pt jt p payload i n = (s, Stop ok err)"
    and "\<And>k. as_action_key n = Some k \<Longrightarrow> is_ok (enforce_action_permission pt p k ''simulate'')"
  shows "ok"
  using simulate_node_allowed [OF assms(2,1)] by (cases ok) simp_all

lemma simulate_loop_ends:
  assumes "\<And>n k. n \<in> set (wg_nodes g) \<Longrightarrow> as_action_key n = Some k \<Longrightarrow>
      is_ok (enforce_action_permission pt p k ''simulate'')"
    and ws: "well_structured rank g" and "graph_node g j \<noteq> None"
    and "card {m \<in> set (wg_nodes g). rank (node_id m) \<le> rank j} \<le> left"
  shows "sr_ok (simulate_loop pt jt g p payload ms left i (Some j) steps)"
  using assms(3,4)
proof (induction left arbitrary: i j steps)
  case (0 i j steps)
  from 0(1) obtain n where "n \<in> set (wg_nodes g)" "node_id n = j" by (auto dest: graph_node_in)
  then have "n \<in> {m \<in> set (wg_nodes g). rank (node_id m) \<le> rank j}" by simp
  with 0(2) show ?case by (auto simp: card_eq_0_iff)
next
  case (Suc left i j steps)
  from Suc.prems(1) obtain n where j: "graph_node g j = Some n" by auto
  then have n: "n \<in> set (wg_nodes g)" "node_id n = j" by (simp_all add: graph_node_in)
  obtain s nxt where s: "simulate_node pt jt p payload i n = (s, nxt)" by fastforce
  note st = simulate_node_next [OF s]
  show ?case
  proof (cases nxt)
    case (Stop ok err)
    with simulate_node_stop [of pt jt p payload i n s ok err] s assms(1) n(1) show ?thesis by (simp add: j)
  next
    case (Goto t)
    show ?thesis
    proof (cases t)
      case None
      with Goto st have "node_targets n = []" by simp
      with ws n(1) obtain k where "n = End k" by (auto simp: well_structured_def)
      with s Goto show ?thesis by simp
    next
      case (Some u)
      with Goto st have "u \<in> set (node_targets n)" by simp
      with ws n have u: "graph_node g u \<noteq> None" "rank u < rank j" by (auto simp: well_structured_def)
      have "{m \<in> set (wg_nodes g). rank (node_id m) \<le> rank u} \<subset> {m \<in> set (wg_nodes g). rank (node_id m) \<le> rank j}"
        using u(2) n by force
      then have "card {m \<in> set (wg_nodes g). rank (node_id m) \<le> rank u} <
          card {m \<in> set (wg_nodes g). rank (node_id m) \<le> rank j}" by (intro psubset_card_mono) auto
      with Suc.prems(2) have "card {m \<in> set (wg_nodes g). rank (node_id m) \<le> rank u} \<le> left" by simp
      from Suc.IH [OF u(1) this, of "i + 1" "steps @ [s]"] show ?thesis by (simp add: j s Goto Some)
    qed
  qed
qed

text \<open>
  C38: A dry run never records more steps than the cap, numbers them consecutively from zero, and
  reports success only after an End node, without an error. On a graph without dangling
  references and cycles, in which every action has a successor, a principal that may own the
  graph reaches an End node for every payload as soon as the cap is at least the number of nodes.
\<close>

theorem simulate_terminates:
  "length (sr_steps (simulate pt jt g p payload max_steps)) \<le> nat max_steps \<and>
   map ss_step_index (sr_steps (simulate pt jt g p payload max_steps)) =
     map int [0..<length (sr_steps (simulate pt jt g p payload max_steps))] \<and>
   (sr_ok (simulate pt jt g p payload max_steps) \<longrightarrow>
     sr_error (simulate pt jt g p payload max_steps) = None \<and>
     (\<exists>ss s. sr_steps (simulate pt jt g p payload max_steps) = ss @ [s] \<and> ss_node_type s = ''end'')) \<and>
   (well_structured rank g \<and> is_ok (enforce_creator_can_own_graph pt p g rid) \<and>
      int (length (wg_nodes g)) \<le> max_steps \<longrightarrow>
      sr_ok (simulate pt jt g p payload max_steps))"
proof -
  have "sr_ok (simulate pt jt g p payload max_steps)"
    if ws: "well_structured rank g" and gate: "is_ok (enforce_creator_can_own_graph pt p g rid)"
      and cap: "int (length (wg_nodes g)) \<le> max_steps"
  proof -
    have "\<forall>n \<in> set (wg_nodes g). \<forall>k. as_action_key n = Some k \<longrightarrow>
        is_ok (enforce_action_permission pt p k ''simulate'')"
      using gate by (simp only: gate_iff [where rid' = "''simulate''"])
    moreover have "graph_node g (wg_entry g) \<noteq> None" using ws by (simp add: well_structured_def)
    moreover have "card {m \<in> set (wg_nodes g). rank (node_id m) \<le> rank (wg_entry g)} \<le> nat max_steps"
    proof -
      have "card {m \<in> set (wg_nodes g). rank (node_id m) \<le> rank (wg_entry g)} \<le> card (set (wg_nodes g))"
        by (intro card_mono) auto
      also have "\<dots> \<le> length (wg_nodes g)" by (rule card_length)
      finally show ?thesis using cap by linarith
    qed
    ultimately show ?thesis unfolding simulate_def by (intro simulate_loop_ends [OF _ ws]) auto
  qed
  moreover note simulate_loop_bounded [of "[]" 0 pt jt g p payload max_steps "nat max_steps" "Some (wg_entry g)"]
  ultimately show ?thesis by (simp add: simulate_def)
qed

section \<open>Concrete instances\<close>

definition demo_graph :: workflow_graph where
  "demo_graph = \<lparr>wg_entry = ''a'', wg_trigger = Manual,
     wg_nodes = [Action ''a'' ''create_task'' (JObj []) (Some ''e''), End ''e''], wg_sla_seconds = None\<rparr>"

definition demo_creator :: principal where
  "demo_creator = from_permission_ids [''operations.task.create'']"

lemma demo_gate: "is_ok (enforce_creator_can_own_graph pt demo_creator demo_graph rid)"
proof -
  have "find_action_entry ''create_task'' \<noteq> None \<and>
      map_option ac_required_permission (find_action_entry ''create_task'') = Some ''operations.task.create''"
    by (simp add: find_action_entry_def ACTION_CATALOGUE_def)
  moreover have "is_allowed pt demo_creator ''operations.task.create''"
    by (simp add: is_allowed_def decide_def decide_with_context_def demo_creator_def from_permission_ids_def
        conditions_match_def)
  ultimately show ?thesis
    unfolding gate_iff [where rid' = "''simulate''"] enforce_action_permission_ok by (auto simp: demo_graph_def)
qed

theorem creator_gate_sound_witness:
  "is_ok (enforce_creator_can_own_graph (\<lambda>f s. None) demo_creator demo_graph ''r'') \<and>
   list_all (\<lambda>s. ss_status s \<noteq> ''denied'')
     (sr_steps (simulate (\<lambda>f s. None) (\<lambda>j. []) demo_graph demo_creator JNull 10))"
  unfolding list_all_iff
  using creator_gate_sound [of "\<lambda>f s. None" demo_creator demo_graph "''r''"] demo_gate by blast

theorem simulate_terminates_witness:
  "sr_ok (simulate (\<lambda>f s. None) (\<lambda>j. []) demo_graph demo_creator JNull 2)"
proof -
  have "well_structured (\<lambda>i. if i = ''e'' then 0 else 1) demo_graph"
    by (simp add: well_structured_def demo_graph_def graph_node_def)
  moreover have "int (length (wg_nodes demo_graph)) \<le> 2" by (simp add: demo_graph_def)
  ultimately show ?thesis using simulate_terminates demo_gate by blast
qed

end
