(* ===== verification/Workflow_Engine.thy ===== *)
theory Workflow_Engine
  imports Workflow_Graph Outbox
begin

text \<open>
  The run-time side of the workflow service: activities (\<open>activities.rs\<close>) and the engine that
  advances instances (\<open>engine.rs\<close>).

  The tables are \<open>wf_db\<close>. \<open>wf_world\<close> adds what a rollback does not undo: the generated UUIDs
  and the HTTP requests sent to other services. A function inside a transaction returns the
  world and \<open>Inl\<close> or \<open>Inr\<close>; \<open>advance_body\<close> also tells whether the control flow reaches
  \<open>tx.commit\<close>, and \<open>advance_instance\<close> keeps the tables only then, because a transaction that
  is dropped is rolled back. Parameters in \<open>wf_env\<close>: environment variables, the answers of
  the other services, JSON pointers and JSON text (serde_json), time arithmetic (chrono, which
  panics out of range), UUIDs and the clock.
\<close>

section \<open>State\<close>

record wf_instance =
  wi_id :: uuid
  wi_org :: uuid
  wi_public_id :: string
  wi_definition_id :: uuid
  wi_version_id :: uuid
  wi_version_number :: int
  wi_status :: string
  wi_payload :: json
  wi_current_node :: "string option"
  wi_step_count :: int
  wi_error :: "string option"
  wi_waiting_until :: "int option"
  wi_completed_at :: "int option"
  wi_actor_user :: uuid
  wi_created_by :: uuid
  wi_trigger_event :: "json option"
  wi_temporal_id :: string
  wi_sla_deadline :: "int option"
  wi_started_at :: int

record wf_definition =
  wd_id :: uuid
  wd_org :: uuid
  wd_public_id :: string
  wd_name :: string
  wd_description :: string
  wd_status :: string
  wd_created_by :: uuid
  wd_updated_by :: uuid
  wd_published_version :: "int option"

record wf_version =
  wv_id :: uuid
  wv_org :: uuid
  wv_public_id :: string
  wv_definition :: uuid
  wv_version :: int
  wv_graph :: json
  wv_required :: "string list"
  wv_published_at :: "int option"
  wv_published_by :: "uuid option"

record wf_idem_row =
  wk_id :: uuid
  wk_org :: uuid
  wk_scope :: string
  wk_key :: string
  wk_status :: int
  wk_body :: json

record wf_step =
  ws_id :: uuid
  ws_org :: uuid
  ws_instance :: uuid
  ws_index :: int
  ws_node_id :: string
  ws_node_type :: string
  ws_action_key :: "string option"
  ws_status :: string
  ws_detail :: json
  ws_permission :: "string option"
  ws_allowed :: "bool option"

record wf_db =
  wf_definitions :: "wf_definition list"
  wf_versions :: "wf_version list"
  wf_idem :: "wf_idem_row list"
  wf_instances :: "wf_instance list"
  wf_steps :: "wf_step list"
  wf_bounds :: "(uuid \<times> int \<times> int) list"
  wf_outbox :: outbox_db

record http_request =
  hr_method :: string
  hr_url :: string
  hr_org :: string
  hr_user :: string
  hr_body :: "json option"

record wf_world =
  ww_db :: wf_db
  ww_uuids :: nat
  ww_http :: "http_request list"

datatype wf_failure = WfError app_error | WfPanic

record wf_env =
  we_relay :: relay_env
  we_clock :: "nat \<Rightarrow> int"
  we_show_unique :: string
  we_show_outbox_error :: "outbox_error \<Rightarrow> string"
  we_var :: "string \<Rightarrow> string option"
  we_http :: "nat \<Rightarrow> http_request \<Rightarrow> (nat \<times> string) option"
  we_pointer :: "json \<Rightarrow> string \<Rightarrow> json option"
  we_json_text :: "json \<Rightarrow> string"
  we_add_secs :: "int \<Rightarrow> int \<Rightarrow> int option"
  we_time :: time_parser

definition tx_then ::
  "'w \<times> ('e + 'a) \<Rightarrow> ('a \<Rightarrow> 'w \<Rightarrow> 'w \<times> ('e + 'b)) \<Rightarrow> 'w \<times> ('e + 'b)" where
  "tx_then m f = (case m of (w, Inl e) \<Rightarrow> (w, Inl e) | (w, Inr x) \<Rightarrow> f x w)"

definition wf_public_id :: "wf_env \<Rightarrow> id_kind \<Rightarrow> uuid \<Rightarrow> string" where
  "wf_public_id env kind u = public_id_as_str (re_show_uuid (we_relay env)) (public_id_new kind u)"

section \<open>Activities\<close>

definition org_public :: "wf_env \<Rightarrow> uuid \<Rightarrow> string" where
  "org_public env org = wf_public_id env ''Org'' org"

definition actor_public :: "wf_env \<Rightarrow> actor \<Rightarrow> string" where
  "actor_public env act = wf_public_id env ''User'' (on_behalf_of act)"

definition service_url :: "wf_env \<Rightarrow> string \<Rightarrow> string \<Rightarrow> string" where
  "service_url env var default_url = (case we_var env var of Some u \<Rightarrow> u | None \<Rightarrow> default_url)"

text \<open>The activities have their own copy of the template renderer of the dry run, word for word.\<close>

definition render_params :: "(json \<Rightarrow> string) \<Rightarrow> json \<Rightarrow> json \<Rightarrow> json" where
  "render_params json_text params payload = render_templates json_text params payload"

definition trim_slashes :: "string \<Rightarrow> string" where
  "trim_slashes s = rev (dropWhile (\<lambda>c. c = CHR ''/'') (rev s))"

definition http_json ::
  "wf_env \<Rightarrow> string \<Rightarrow> string \<Rightarrow> string \<Rightarrow> uuid \<Rightarrow> actor \<Rightarrow> json option \<Rightarrow> wf_world
     \<Rightarrow> wf_world \<times> (string + nat)" where
  "http_json env http_method base path org act body w =
     (let req = \<lparr>hr_method = http_method, hr_url = trim_slashes base @ path,
                 hr_org = org_public env org, hr_user = actor_public env act, hr_body = body\<rparr>;
          answer = we_http env (length (ww_http w)) req;
          w = w\<lparr>ww_http := ww_http w @ [req]\<rparr>
      in case answer of
           None \<Rightarrow> (w, Inl ''activity http'')
         | Some (status, body_text) \<Rightarrow>
             if status \<ge> 400 then (w, Inl (''activity HTTP '' @ show_nat status @ '': '' @ body_text))
             else (w, Inr status))"

definition str_field :: "json \<Rightarrow> string \<Rightarrow> string \<Rightarrow> string" where
  "str_field j k d = (case Option.bind (json_get j k) json_as_str of Some s \<Rightarrow> s | None \<Rightarrow> d)"

definition execute_action ::
  "wf_env \<Rightarrow> string \<Rightarrow> json \<Rightarrow> json \<Rightarrow> uuid \<Rightarrow> actor \<Rightarrow> wf_world \<Rightarrow> wf_world \<times> (string + unit)" where
  "execute_action env action params payload org act w =
     (if we_var env ''WORKFLOW_ACTIVITIES_NOOP'' \<in> {Some ''1'', Some ''true'', Some ''TRUE''} then (w, Inr ())
      else
        let rendered = render_params (we_json_text env) params payload;
            send = (\<lambda>m base path body w. tx_then (http_json env m base path org act body w) (\<lambda>_ w. (w, Inr ())))
        in if action = ''create_task'' then
             send ''POST'' (service_url env ''PROJECT_SERVICE_URL'' ''http://127.0.0.1:8084'')
               ''/api/v1/operations/tasks''
               (Some (json_object [(''title'', JStr (str_field rendered ''title'' ''Workflow task'')),
                  (''description'', JStr (str_field rendered ''description'' [])), (''status'', JStr ''todo'')])) w
           else if action = ''send_notification'' then
             (case http_json env ''POST'' (service_url env ''NOTIFICATION_SERVICE_URL'' ''http://127.0.0.1:8085'')
                ''/api/v1/notifications/internal/ingest'' org act
                (Some (json_object [(''title'', JStr (str_field rendered ''title'' ''Workflow notification'')),
                   (''body'', JStr (str_field rendered ''body'' [])),
                   (''org_id'', JStr (org_public env org)),
                   (''user_id'', JStr (actor_public env act)), (''kind'', JStr ''workflow'')])) w of
                (w, r) \<Rightarrow> (w, Inr ()))
           else if action = ''start_approval'' then
             send ''POST'' (service_url env ''PROJECT_SERVICE_URL'' ''http://127.0.0.1:8084'')
               ''/api/v1/operations/approvals''
               (Some (json_object
                  [(''subject_type'', JStr (str_field rendered ''subject_type'' ''workflow'')),
                   (''subject_id'', case json_get rendered ''subject_id'' of Some v \<Rightarrow> v
                      | None \<Rightarrow> (case json_get payload ''id'' of Some v \<Rightarrow> v | None \<Rightarrow> JNull)),
                   (''title'', JStr (str_field rendered ''title'' ''Workflow approval''))])) w
           else if action = ''update_deal_status'' then
             (case Option.bind (case json_get rendered ''deal_id'' of Some v \<Rightarrow> Some v | None \<Rightarrow> json_get payload ''deal_id'')
                json_as_str of
                None \<Rightarrow> (w, Inl ''deal_id required'')
              | Some deal_id \<Rightarrow>
                  send ''PATCH'' (service_url env ''CRM_SERVICE_URL'' ''http://127.0.0.1:8082'')
                    (''/api/v1/sales/deals/'' @ deal_id)
                    (Some (json_object [(''status'', JStr (str_field rendered ''status'' ''won''))])) w)
           else if action = ''create_purchase_request'' then
             send ''POST'' (service_url env ''INVENTORY_SERVICE_URL'' ''http://127.0.0.1:8093'')
               ''/api/v1/inventory/purchase-requests''
               (Some (json_object [(''notes'', JStr (str_field rendered ''notes'' ''Workflow draft PR'')),
                  (''lines'', case json_get rendered ''lines'' of Some v \<Rightarrow> v | None \<Rightarrow> JArr [])])) w
           else if action = ''post_journal'' then
             send ''POST'' (service_url env ''FINANCE_SERVICE_URL'' ''http://127.0.0.1:8083'')
               ''/api/v1/finance/journals'' (Some rendered) w
           else if action = ''read_payroll'' then
             send ''GET'' (service_url env ''HR_SERVICE_URL'' ''http://127.0.0.1:8088'')
               ''/api/v1/people/payroll/runs'' None w
           else (w, Inl (''unknown action '' @ quote_str action)))"

section \<open>The engine\<close>

definition DEFAULT_MAX_CONCURRENT :: int where "DEFAULT_MAX_CONCURRENT = 50"

definition DEFAULT_MAX_STEPS :: int where "DEFAULT_MAX_STEPS = 100"

definition user_workflow_id :: "string \<Rightarrow> string \<Rightarrow> string \<Rightarrow> string" where
  "user_workflow_id org_pub definition_public instance_public =
     org_pub @ '':UserWorkflow:'' @ definition_public @ '':'' @ instance_public"

definition load_or_default_bounds :: "wf_db \<Rightarrow> uuid \<Rightarrow> int \<times> int" where
  "load_or_default_bounds db org =
     (case map_of (wf_bounds db) org of Some b \<Rightarrow> b | None \<Rightarrow> (DEFAULT_MAX_CONCURRENT, DEFAULT_MAX_STEPS))"

definition count_active_instances :: "wf_db \<Rightarrow> uuid \<Rightarrow> int" where
  "count_active_instances db org =
     int (length (filter (\<lambda>i. wi_org i = org \<and> wi_status i \<in> {''running'', ''waiting''}) (wf_instances db)))"

definition enforce_concurrency_cap :: "wf_db \<Rightarrow> uuid \<Rightarrow> string \<Rightarrow> app_error + int \<times> int" where
  "enforce_concurrency_cap db org request_id =
     (let bounds = load_or_default_bounds db org; active = count_active_instances db org in
      if active \<ge> fst bounds then
        Inl (app_error_new Conflict request_id (''org concurrency cap exceeded: '' @ show_int active @
          '' active instances (max '' @ show_int (fst bounds) @ '')''))
      else Inr bounds)"

definition record_step ::
  "wf_env \<Rightarrow> uuid \<Rightarrow> uuid \<Rightarrow> int \<Rightarrow> string \<Rightarrow> string \<Rightarrow> string option \<Rightarrow> string \<Rightarrow> json \<Rightarrow> string option
     \<Rightarrow> bool option \<Rightarrow> wf_world \<Rightarrow> wf_world \<times> (wf_failure + unit)" where
  "record_step env org i step_index nid node_type action_key status detail permission allowed w =
     (let sid = re_gen_uuid (we_relay env) (ww_uuids w);
          w = w\<lparr>ww_uuids := Suc (ww_uuids w)\<rparr>;
          row = \<lparr>ws_id = sid, ws_org = org, ws_instance = i, ws_index = step_index, ws_node_id = nid,
                 ws_node_type = node_type, ws_action_key = action_key, ws_status = status,
                 ws_detail = detail, ws_permission = permission, ws_allowed = allowed\<rparr>
      in if list_ex (\<lambda>s. ws_id s = sid \<or> ws_org s = org \<and> ws_instance s = i \<and> ws_index s = step_index)
           (wf_steps (ww_db w))
         then (w, Inl (WfError (app_error_new Internal ''step'' (we_show_unique env))))
         else (w\<lparr>ww_db := (ww_db w)\<lparr>wf_steps := wf_steps (ww_db w) @ [row]\<rparr>\<rparr>, Inr ()))"

definition update_instance ::
  "uuid \<Rightarrow> uuid \<Rightarrow> (wf_instance \<Rightarrow> wf_instance) \<Rightarrow> wf_world \<Rightarrow> wf_world" where
  "update_instance org i f w =
     w\<lparr>ww_db := (ww_db w)\<lparr>wf_instances :=
       map (\<lambda>r. if wi_id r = i \<and> wi_org r = org then f r else r) (wf_instances (ww_db w))\<rparr>\<rparr>"

definition emit_instance_event ::
  "wf_env \<Rightarrow> uuid \<Rightarrow> actor \<Rightarrow> string \<Rightarrow> wf_instance \<Rightarrow> wf_world \<Rightarrow> wf_world \<times> (wf_failure + unit)" where
  "emit_instance_event env org act event_type inst w =
     (let k = ww_uuids w;
          envelope = envelope_new (re_gen_uuid (we_relay env) k) (we_clock env k) (re_show_uuid (we_relay env))
            org Events.Workflow ''instance'' event_type 1 act
            (json_object [(''id'', JStr (wi_public_id inst)),
               (''definition_id'', JStr (wf_public_id env ''WorkflowDefinition'' (wi_definition_id inst))),
               (''version_id'', JStr (wf_public_id env ''WorkflowVersion'' (wi_version_id inst))),
               (''version'', JInt (wi_version_number inst))]);
          w = w\<lparr>ww_uuids := Suc k\<rparr>
      in case insert_event (we_relay env) \<lparr>app_org = Some org, app_outbox_relay = False\<rparr> envelope
             (wf_outbox (ww_db w)) of
           Inl e \<Rightarrow> (w, Inl (WfError (app_error_new Internal ''outbox'' (we_show_outbox_error env e))))
         | Inr (ob, _) \<Rightarrow> (w\<lparr>ww_db := (ww_db w)\<lparr>wf_outbox := ob\<rparr>\<rparr>, Inr ()))"

definition fail_instance ::
  "wf_env \<Rightarrow> int \<Rightarrow> uuid \<Rightarrow> actor \<Rightarrow> wf_instance \<Rightarrow> string \<Rightarrow> wf_world \<Rightarrow> wf_world \<times> (wf_failure + unit)" where
  "fail_instance env now org act inst message w =
     emit_instance_event env org act ''failed'' inst
       (update_instance org (wi_id inst) (\<lambda>r. r\<lparr>wi_status := ''failed'', wi_error := Some message,
          wi_completed_at := Some now\<rparr>) w)"

definition complete_instance ::
  "wf_env \<Rightarrow> int \<Rightarrow> uuid \<Rightarrow> actor \<Rightarrow> wf_instance \<Rightarrow> wf_world \<Rightarrow> wf_world \<times> (wf_failure + unit)" where
  "complete_instance env now org act inst w =
     emit_instance_event env org act ''completed'' inst
       (update_instance org (wi_id inst) (\<lambda>r. r\<lparr>wi_status := ''completed'', wi_current_node := None,
          wi_completed_at := Some now\<rparr>) w)"

definition engine_lookup :: "wf_env \<Rightarrow> json \<Rightarrow> string \<Rightarrow> json option" where
  "engine_lookup env payload path_key =
     (case we_pointer env payload (CHR ''/'' # path_key) of
        Some v \<Rightarrow> Some v
      | None \<Rightarrow> json_path_parts payload (split_on CHR ''.'' path_key))"

fun engine_choose_arm :: "json \<Rightarrow> branch_arm list \<Rightarrow> string \<Rightarrow> string" where
  "engine_choose_arm payload [] default_next = default_next"
| "engine_choose_arm payload (arm # arms) default_next =
     (if json_path_parts payload (split_on CHR ''.'' (strip_payload (arm_path arm))) = Some (arm_equals arm)
      then arm_next arm else engine_choose_arm payload arms default_next)"

text \<open>
  One arm of the \<open>match\<close> on the node. \<open>Inr True\<close> goes on to the commit, \<open>Inr False\<close> returns
  from the function without it.
\<close>

fun advance_node ::
  "wf_env \<Rightarrow> int \<Rightarrow> uuid \<Rightarrow> principal \<Rightarrow> actor \<Rightarrow> string \<Rightarrow> bool \<Rightarrow> wf_instance \<Rightarrow> workflow_node \<Rightarrow> wf_world
     \<Rightarrow> wf_world \<times> (wf_failure + bool)" where
  "advance_node env now org p act request_id dry_run_http inst (End nid) w =
     (let next_step = wi_step_count inst + 1 in
      tx_then (record_step env org (wi_id inst) next_step nid ''end'' None ''ok''
        (json_object [(''completed'', JBool True)]) None None w) (\<lambda>_ w.
      tx_then (complete_instance env now org act inst w) (\<lambda>_ w. (w, Inr True))))"
| "advance_node env now org p act request_id dry_run_http inst (Action nid action params nxt) w =
     (let next_step = wi_step_count inst + 1 in
      case enforce_action_permission (we_time env) p action request_id of
        Inl e \<Rightarrow>
          tx_then (record_step env org (wi_id inst) next_step nid ''action'' (Some action) ''denied''
            (json_object [(''error'', JStr (ae_detail e))]) (Some action) (Some False) w) (\<lambda>_ w.
          tx_then (fail_instance env now org act inst (ae_detail e) w) (\<lambda>_ w. (w, Inr False)))
      | Inr perm \<Rightarrow>
          (case (if dry_run_http then (w, Inr ()) else execute_action env action params (wi_payload inst) org act w) of
             (w, Inl err) \<Rightarrow>
               tx_then (record_step env org (wi_id inst) next_step nid ''action'' (Some action) ''failed''
                 (json_object [(''error'', JStr err)]) (Some perm) (Some True) w) (\<lambda>_ w.
               tx_then (fail_instance env now org act inst err w) (\<lambda>_ w. (w, Inr False)))
           | (w, Inr _) \<Rightarrow>
               tx_then (record_step env org (wi_id inst) next_step nid ''action'' (Some action) ''ok''
                 (json_object [(''dry_run_http'', JBool dry_run_http)]) (Some perm) (Some True) w) (\<lambda>_ w.
               (update_instance org (wi_id inst)
                  (\<lambda>r. r\<lparr>wi_current_node := nxt, wi_step_count := next_step\<rparr>) w, Inr True))))"
| "advance_node env now org p act request_id dry_run_http inst (Condition nid path equals then_next else_next) w =
     (let next_step = wi_step_count inst + 1;
          matched = (engine_lookup env (wi_payload inst) (strip_payload path) = Some equals);
          chosen = (if matched then then_next else else_next) in
      tx_then (record_step env org (wi_id inst) next_step nid ''condition'' None ''ok''
        (json_object [(''matched'', JBool matched), (''next'', JStr chosen)]) None None w) (\<lambda>_ w.
      (update_instance org (wi_id inst)
         (\<lambda>r. r\<lparr>wi_current_node := Some chosen, wi_step_count := next_step\<rparr>) w, Inr True)))"
| "advance_node env now org p act request_id dry_run_http inst (Branch nid arms default_next) w =
     (let next_step = wi_step_count inst + 1;
          chosen = engine_choose_arm (wi_payload inst) arms default_next in
      tx_then (record_step env org (wi_id inst) next_step nid ''branch'' None ''ok''
        (json_object [(''next'', JStr chosen)]) None None w) (\<lambda>_ w.
      (update_instance org (wi_id inst)
         (\<lambda>r. r\<lparr>wi_current_node := Some chosen, wi_step_count := next_step\<rparr>) w, Inr True)))"
| "advance_node env now org p act request_id dry_run_http inst (Timer nid duration_secs nxt) w =
     (let next_step = wi_step_count inst + 1 in
      case we_add_secs env (we_clock env (ww_uuids w)) (wrap_i64 (int duration_secs)) of
        None \<Rightarrow> (w, Inl WfPanic)
      | Some until \<Rightarrow>
          tx_then (record_step env org (wi_id inst) next_step nid ''timer'' None ''waiting''
            (json_object [(''until'', JStr (re_show_time (we_relay env) until)), (''resume_node'', JStr nxt)])
            None None w) (\<lambda>_ w.
          tx_then (emit_instance_event env org act ''waiting'' inst
            (update_instance org (wi_id inst) (\<lambda>r. r\<lparr>wi_status := ''waiting'', wi_current_node := Some nxt,
               wi_step_count := next_step, wi_waiting_until := Some until\<rparr>) w)) (\<lambda>_ w. (w, Inr True))))"
| "advance_node env now org p act request_id dry_run_http inst (Human nid kind params on_approve on_reject) w =
     (let next_step = wi_step_count inst + 1 in
      case (if kind = Approval then enforce_action_permission (we_time env) p ''start_approval'' request_id
            else Inr []) of
        Inl e \<Rightarrow>
          tx_then (record_step env org (wi_id inst) next_step nid ''human'' (Some ''start_approval'') ''denied''
            (json_object [(''error'', JStr (ae_detail e))]) (Some ''operations.approval.read'') (Some False) w)
            (\<lambda>_ w.
          tx_then (fail_instance env now org act inst (ae_detail e) w) (\<lambda>_ w. (w, Inr False)))
      | Inr _ \<Rightarrow>
          (let w = (if kind = Approval \<and> \<not> dry_run_http
                    then fst (execute_action env ''start_approval'' params (wi_payload inst) org act w) else w) in
           tx_then (record_step env org (wi_id inst) next_step nid ''human''
             (Some (case kind of Approval \<Rightarrow> ''start_approval'' | Inbox \<Rightarrow> ''inbox'')) ''waiting''
             (json_object [(''resume_on_approve'', JStr on_approve)]) None None w) (\<lambda>_ w.
           tx_then (emit_instance_event env org act ''waiting'' inst
             (update_instance org (wi_id inst) (\<lambda>r. r\<lparr>wi_status := ''waiting'',
                wi_current_node := Some on_approve, wi_step_count := next_step\<rparr>) w)) (\<lambda>_ w. (w, Inr True)))))"

definition find_instance :: "wf_db \<Rightarrow> uuid \<Rightarrow> uuid \<Rightarrow> wf_instance option" where
  "find_instance db org i = find (\<lambda>r. wi_id r = i \<and> wi_org r = org) (wf_instances db)"

definition advance_body ::
  "wf_env \<Rightarrow> int \<Rightarrow> uuid \<Rightarrow> uuid \<Rightarrow> workflow_graph \<Rightarrow> principal \<Rightarrow> actor \<Rightarrow> string \<Rightarrow> bool \<Rightarrow> wf_world
     \<Rightarrow> wf_world \<times> (wf_failure + bool)" where
  "advance_body env now org i g p act request_id dry_run_http w =
     (let bounds = load_or_default_bounds (ww_db w) org in
      case find_instance (ww_db w) org i of
        None \<Rightarrow> (w, Inl (WfError (app_error_new NotFound request_id ''workflow instance not found'')))
      | Some inst \<Rightarrow>
          (let failed = (\<lambda>message. tx_then (fail_instance env now org act inst message w) (\<lambda>_ w. (w, Inr False))) in
           if wi_status inst \<noteq> ''running'' then (w, Inr False)
           else case wi_current_node inst of
             None \<Rightarrow> failed ''missing current_node_id''
           | Some nid \<Rightarrow>
               if wi_step_count inst \<ge> snd bounds then
                 failed (''iteration/step cap exceeded ('' @ show_int (snd bounds) @ '' steps); run failed closed'')
               else (case graph_node g nid of
                   None \<Rightarrow> failed (''unknown node '' @ quote_str nid)
                 | Some node \<Rightarrow> advance_node env now org p act request_id dry_run_http inst node w)))"

definition advance_instance ::
  "wf_env \<Rightarrow> int \<Rightarrow> uuid \<Rightarrow> uuid \<Rightarrow> workflow_graph \<Rightarrow> principal \<Rightarrow> actor \<Rightarrow> string \<Rightarrow> bool \<Rightarrow> wf_world
     \<Rightarrow> wf_world \<times> (wf_failure + unit)" where
  "advance_instance env now org i g p act request_id dry_run_http w =
     (case advance_body env now org i g p act request_id dry_run_http w of
        (w', Inl e) \<Rightarrow> (w'\<lparr>ww_db := ww_db w\<rparr>, Inl e)
      | (w', Inr committed) \<Rightarrow> (if committed then w' else w'\<lparr>ww_db := ww_db w\<rparr>, Inr ()))"

fun run_iterations ::
  "wf_env \<Rightarrow> int \<Rightarrow> uuid \<Rightarrow> uuid \<Rightarrow> workflow_graph \<Rightarrow> principal \<Rightarrow> actor \<Rightarrow> string \<Rightarrow> bool \<Rightarrow> nat \<Rightarrow> wf_world
     \<Rightarrow> wf_world \<times> (wf_failure + unit)" where
  "run_iterations env now org i g p act request_id dry_run_http 0 w = (w, Inr ())"
| "run_iterations env now org i g p act request_id dry_run_http (Suc n) w =
     (if map_option wi_status (find_instance (ww_db w) org i) = Some ''running'' then
        tx_then (advance_instance env now org i g p act request_id dry_run_http w) (\<lambda>_ w.
          run_iterations env now org i g p act request_id dry_run_http n w)
      else (w, Inr ()))"

definition run_until_idle ::
  "wf_env \<Rightarrow> int \<Rightarrow> uuid \<Rightarrow> uuid \<Rightarrow> workflow_graph \<Rightarrow> principal \<Rightarrow> actor \<Rightarrow> string \<Rightarrow> bool \<Rightarrow> wf_world
     \<Rightarrow> wf_world \<times> (wf_failure + unit)" where
  "run_until_idle env now org i g p act request_id dry_run_http w =
     run_iterations env now org i g p act request_id dry_run_http (nat (DEFAULT_MAX_STEPS + 5)) w"

section \<open>What one advance does\<close>

lemma tx_then_Inr: "tx_then m f = (w', Inr y) \<longleftrightarrow> (\<exists>w1 x. m = (w1, Inr x) \<and> f x w1 = (w', Inr y))"
  by (auto simp: tx_then_def split: prod.splits sum.splits)

lemma fst_tx_then: "fst (tx_then m f) = (case m of (w, Inl e) \<Rightarrow> w | (w, Inr x) \<Rightarrow> fst (f x w))"
  by (auto simp: tx_then_def split: prod.splits sum.splits)

lemma record_step_ok:
  assumes "record_step env org i ix nid nt key st d perm al w = (w1, Inr u)"
  shows "wf_instances (ww_db w1) = wf_instances (ww_db w) \<and> wf_bounds (ww_db w1) = wf_bounds (ww_db w) \<and>
    (\<exists>s. wf_steps (ww_db w1) = wf_steps (ww_db w) @ [s] \<and> ws_instance s = i \<and> ws_org s = org \<and> ws_index s = ix \<and>
      ws_node_id s = nid \<and> ws_status s = st \<and> ws_allowed s = al)"
  using assms by (auto simp: record_step_def Let_def split: if_splits)

lemma emit_instance_event_ok:
  assumes "emit_instance_event env org act ev inst w = (w1, Inr u)"
  shows "wf_instances (ww_db w1) = wf_instances (ww_db w) \<and> wf_bounds (ww_db w1) = wf_bounds (ww_db w) \<and>
    wf_steps (ww_db w1) = wf_steps (ww_db w)"
  using assms by (auto simp: emit_instance_event_def Let_def split: sum.splits prod.splits)

lemma update_instance_simps [simp]:
  "wf_instances (ww_db (update_instance org i f w)) =
     map (\<lambda>r. if wi_id r = i \<and> wi_org r = org then f r else r) (wf_instances (ww_db w))"
  "wf_steps (ww_db (update_instance org i f w)) = wf_steps (ww_db w)"
  "wf_bounds (ww_db (update_instance org i f w)) = wf_bounds (ww_db w)"
  "ww_http (update_instance org i f w) = ww_http w"
  by (simp_all add: update_instance_def)

lemma engine_frames [simp]:
  "ww_http (fst (record_step env org i ix nid nt key st d perm al w)) = ww_http w"
  "ww_http (fst (emit_instance_event env org act ev inst w)) = ww_http w"
  "ww_http (fst (fail_instance env now org act inst msg w)) = ww_http w"
  "ww_http (fst (complete_instance env now org act inst w)) = ww_http w"
  by (auto simp: record_step_def emit_instance_event_def fail_instance_def complete_instance_def Let_def
      split: sum.splits prod.splits)

lemma http_json_db [simp]: "ww_db (fst (http_json env m base path org act body w)) = ww_db w"
  by (simp add: http_json_def Let_def split: option.splits prod.splits)

lemma http_json_log:
  "\<exists>req. ww_http (fst (http_json env m base path org act body w)) = ww_http w @ [req] \<and>
     hr_org req = org_public env org \<and> hr_user req = actor_public env act"
  by (simp add: http_json_def Let_def split: option.splits prod.splits)

lemma fst_send [simp]: "fst (tx_then m (\<lambda>_ w. (w, Inr ()))) = fst m"
  by (auto simp: tx_then_def split: prod.splits sum.splits)

lemma execute_action_db [simp]: "ww_db (fst (execute_action env a params payload org act w)) = ww_db w"
  by (auto simp: execute_action_def Let_def case_prod_beta split: option.splits)

text \<open>The requests of one activity: none or one, in the name of the organisation and the user.\<close>

definition sent_as :: "wf_env \<Rightarrow> uuid \<Rightarrow> actor \<Rightarrow> http_request list \<Rightarrow> bool" where
  "sent_as env org act reqs \<longleftrightarrow> length reqs \<le> 1 \<and>
     (\<forall>req \<in> set reqs. hr_org req = org_public env org \<and> hr_user req = actor_public env act)"

lemma sent_as_Nil [simp]: "sent_as env org act []"
  by (simp add: sent_as_def)

lemma http_json_sent:
  "\<exists>reqs. ww_http (fst (http_json env m base path org act body w)) = ww_http w @ reqs \<and> sent_as env org act reqs"
  using http_json_log [of env m base path org act body w] by (fastforce simp: sent_as_def)

lemma execute_action_sent:
  "\<exists>reqs. ww_http (fst (execute_action env a params payload org act w)) = ww_http w @ reqs \<and> sent_as env org act reqs"
  by (simp add: execute_action_def Let_def case_prod_beta http_json_sent split: option.split)

text \<open>
  The tables after a committed advance: the row of the instance is rewritten by \<open>f\<close>, one step
  is appended, and everything else stays.
\<close>

definition advanced ::
  "uuid \<Rightarrow> wf_instance \<Rightarrow> workflow_node \<Rightarrow> (wf_instance \<Rightarrow> wf_instance) \<Rightarrow> wf_step \<Rightarrow> wf_db \<Rightarrow> wf_db \<Rightarrow> bool" where
  "advanced org inst n f s db db' \<longleftrightarrow>
     wf_instances db' = map (\<lambda>r. if wi_id r = wi_id inst \<and> wi_org r = org then f r else r) (wf_instances db) \<and>
     wf_steps db' = wf_steps db @ [s] \<and> wf_bounds db' = wf_bounds db \<and>
     ws_instance s = wi_id inst \<and> ws_org s = org \<and> ws_index s = wi_step_count inst + 1 \<and> ws_node_id s = node_id n \<and>
     ws_status s \<in> {''ok'', ''waiting''} \<and> ws_allowed s \<noteq> Some False"

text \<open>What the update does to the row, by the kind of node.\<close>

primrec engine_next :: "wf_env \<Rightarrow> json \<Rightarrow> workflow_node \<Rightarrow> string option" where
  "engine_next env payload (End nid) = None"
| "engine_next env payload (Action nid action params nxt) = nxt"
| "engine_next env payload (Condition nid path eq t e) =
     Some (if engine_lookup env payload (strip_payload path) = Some eq then t else e)"
| "engine_next env payload (Branch nid arms d) = Some (engine_choose_arm payload arms d)"
| "engine_next env payload (Timer nid dur nxt) = Some nxt"
| "engine_next env payload (Human nid kind params a b) = Some a"

definition row_moves :: "wf_env \<Rightarrow> wf_instance \<Rightarrow> workflow_node \<Rightarrow> wf_instance \<Rightarrow> wf_instance \<Rightarrow> bool" where
  "row_moves env inst n r r' \<longleftrightarrow> wi_id r' = wi_id r \<and> wi_org r' = wi_org r \<and> wi_payload r' = wi_payload r \<and>
     wi_current_node r' = engine_next env (wi_payload inst) n \<and>
     wi_status r' = (case n of End _ \<Rightarrow> ''completed'' | Timer _ _ _ \<Rightarrow> ''waiting'' | Human _ _ _ _ _ \<Rightarrow> ''waiting''
       | _ \<Rightarrow> wi_status r) \<and>
     wi_step_count r' = (case n of End _ \<Rightarrow> wi_step_count r | _ \<Rightarrow> wi_step_count inst + 1)"

lemma advancedI:
  assumes "record_step env org (wi_id inst) (wi_step_count inst + 1) (node_id n) nt key st d perm al w = (w1, Inr u)"
    and "wf_instances (ww_db w2) = map (\<lambda>r. if wi_id r = wi_id inst \<and> wi_org r = org then f r else r) (wf_instances (ww_db w1))"
    and "wf_steps (ww_db w2) = wf_steps (ww_db w1)" "wf_bounds (ww_db w2) = wf_bounds (ww_db w1)"
    and "st \<in> {''ok'', ''waiting''}" "al \<noteq> Some False"
    and "\<And>r. row_moves env inst n r (f r)"
  shows "\<exists>f s. advanced org inst n f s (ww_db w) (ww_db w2) \<and> (\<forall>r. row_moves env inst n r (f r))"
proof -
  from record_step_ok [OF assms(1)] obtain s where "wf_instances (ww_db w1) = wf_instances (ww_db w)"
    "wf_bounds (ww_db w1) = wf_bounds (ww_db w)" "wf_steps (ww_db w1) = wf_steps (ww_db w) @ [s]"
    "ws_instance s = wi_id inst" "ws_org s = org" "ws_index s = wi_step_count inst + 1"
    "ws_node_id s = node_id n" "ws_status s = st" "ws_allowed s = al" by blast
  with assms(2-6) have "advanced org inst n f s (ww_db w) (ww_db w2)" by (simp add: advanced_def)
  with assms(7) show ?thesis by blast
qed

lemma advancedI_update:
  assumes "record_step env org (wi_id inst) (wi_step_count inst + 1) (node_id n) nt key st d perm al w = (w1, Inr u)"
    and "w2 = update_instance org (wi_id inst) f w1"
    and "st \<in> {''ok'', ''waiting''}" "al \<noteq> Some False"
    and "\<And>r. row_moves env inst n r (f r)"
  shows "\<exists>f s. advanced org inst n f s (ww_db w) (ww_db w2) \<and> (\<forall>r. row_moves env inst n r (f r))"
  by (rule advancedI [OF assms(1), where f = f]) (simp_all add: assms(2) assms(3-) [simplified])

lemma waiting_or_done_ok:
  assumes "emit_instance_event env org act ev inst (update_instance org (wi_id inst) f w1) = (w2, Inr u)"
  shows "wf_instances (ww_db w2) = map (\<lambda>r. if wi_id r = wi_id inst \<and> wi_org r = org then f r else r) (wf_instances (ww_db w1))"
    "wf_steps (ww_db w2) = wf_steps (ww_db w1)" "wf_bounds (ww_db w2) = wf_bounds (ww_db w1)"
  using emit_instance_event_ok [OF assms] by simp_all

lemma advance_node_committed:
  assumes "advance_node env now org p act rid dry inst n w = (w', Inr True)"
  shows "\<exists>f s. advanced org inst n f s (ww_db w) (ww_db w') \<and> (\<forall>r. row_moves env inst n r (f r))"
proof (cases n)
  case (End nid)
  with assms obtain w1 u v where
    r: "record_step env org (wi_id inst) (wi_step_count inst + 1) (node_id n) ''end'' None ''ok''
       (json_object [(''completed'', JBool True)]) None None w = (w1, Inr u)"
    and c: "complete_instance env now org act inst w1 = (w', Inr v)" by (auto simp: tx_then_Inr Let_def)
  show ?thesis
    by (rule advancedI [OF r waiting_or_done_ok [OF c [unfolded complete_instance_def]]])
      (simp_all add: row_moves_def End)
next
  case (Action nid action params nxt)
  with assms obtain perm where perm: "enforce_action_permission (we_time env) p action rid = Inr perm"
    by (cases "enforce_action_permission (we_time env) p action rid") (auto simp: tx_then_Inr Let_def)
  define x where "x = (if dry then (w, Inr ()) else execute_action env action params (wi_payload inst) org act w)"
  obtain wx rx where x: "x = (wx, rx)" by fastforce
  have "ww_db (fst x) = ww_db w" by (simp add: x_def)
  then have db: "ww_db wx = ww_db w" by (simp add: x)
  from assms x perm Action obtain u where rx: "rx = Inr u"
    by (cases rx) (auto simp: tx_then_Inr Let_def x_def [symmetric])
  with assms x perm Action obtain w1 v where
    r: "record_step env org (wi_id inst) (wi_step_count inst + 1) (node_id n) ''action'' (Some action) ''ok''
       (json_object [(''dry_run_http'', JBool dry)]) (Some perm) (Some True) wx = (w1, Inr v)"
    and w': "w' = update_instance org (wi_id inst)
       (\<lambda>r. r\<lparr>wi_current_node := nxt, wi_step_count := wi_step_count inst + 1\<rparr>) w1"
    by (auto simp: tx_then_Inr Let_def x_def [symmetric])
  show ?thesis unfolding db [symmetric] by (rule advancedI_update [OF r w']) (simp_all add: row_moves_def Action)
next
  case (Condition nid path eq t e)
  with assms obtain w1 v d where
    r: "record_step env org (wi_id inst) (wi_step_count inst + 1) (node_id n) ''condition'' None ''ok'' d None None w
      = (w1, Inr v)"
    and w': "w' = update_instance org (wi_id inst) (\<lambda>r. r\<lparr>wi_current_node :=
        Some (if engine_lookup env (wi_payload inst) (strip_payload path) = Some eq then t else e),
        wi_step_count := wi_step_count inst + 1\<rparr>) w1"
    by (auto simp: tx_then_Inr Let_def)
  show ?thesis by (rule advancedI_update [OF r w']) (simp_all add: row_moves_def Condition)
next
  case (Branch nid arms d)
  with assms obtain w1 v dt where
    r: "record_step env org (wi_id inst) (wi_step_count inst + 1) (node_id n) ''branch'' None ''ok'' dt None None w
      = (w1, Inr v)"
    and w': "w' = update_instance org (wi_id inst) (\<lambda>r. r\<lparr>wi_current_node :=
        Some (engine_choose_arm (wi_payload inst) arms d), wi_step_count := wi_step_count inst + 1\<rparr>) w1"
    by (auto simp: tx_then_Inr Let_def)
  show ?thesis
    by (rule advancedI_update [OF r w']) (simp_all add: row_moves_def Branch)
next
  case (Timer nid dur nxt)
  with assms obtain until w1 v dt u where
    r: "record_step env org (wi_id inst) (wi_step_count inst + 1) (node_id n) ''timer'' None ''waiting'' dt None None w
      = (w1, Inr v)"
    and e: "emit_instance_event env org act ''waiting'' inst
            (update_instance org (wi_id inst) (\<lambda>r. r\<lparr>wi_status := ''waiting'', wi_current_node := Some nxt,
               wi_step_count := wi_step_count inst + 1, wi_waiting_until := Some until\<rparr>) w1) = (w', Inr u)"
    by (auto simp: tx_then_Inr Let_def split: option.splits)
  show ?thesis by (rule advancedI [OF r waiting_or_done_ok [OF e]]) (simp_all add: row_moves_def Timer)
next
  case (Human nid kind params a rj)
  define gate where "gate = (if kind = Approval then enforce_action_permission (we_time env) p ''start_approval'' rid
            else Inr [])"
  define wx where "wx = (if kind = Approval \<and> \<not> dry
                    then fst (execute_action env ''start_approval'' params (wi_payload inst) org act w) else w)"
  have db: "ww_db wx = ww_db w" by (simp add: wx_def)
  from assms Human obtain perm where "gate = Inr perm"
    by (cases gate) (auto simp: tx_then_Inr Let_def gate_def [symmetric])
  with assms Human obtain w1 v dt u key where
    r: "record_step env org (wi_id inst) (wi_step_count inst + 1) (node_id n) ''human'' key ''waiting'' dt None None wx
      = (w1, Inr v)"
    and e: "emit_instance_event env org act ''waiting'' inst
            (update_instance org (wi_id inst) (\<lambda>r. r\<lparr>wi_status := ''waiting'', wi_current_node := Some a,
               wi_step_count := wi_step_count inst + 1\<rparr>) w1) = (w', Inr u)"
    by (auto simp: tx_then_Inr Let_def gate_def [symmetric] wx_def [symmetric])
  show ?thesis unfolding db [symmetric]
    by (rule advancedI [OF r waiting_or_done_ok [OF e]]) (simp_all add: row_moves_def Human)
qed

lemma find_instance_Some:
  "find_instance db org i = Some inst \<Longrightarrow> inst \<in> set (wf_instances db) \<and> wi_id inst = i \<and> wi_org inst = org"
  by (auto simp: find_instance_def find_Some_iff)

lemma find_map_same:
  assumes "\<And>r. P r \<Longrightarrow> P (f r)"
  shows "find P (map (\<lambda>r. if P r then f r else r) rs) = map_option f (find P rs)"
  by (induction rs) (auto simp: assms)

lemma filter_map_other:
  assumes "\<And>r. P r \<Longrightarrow> P (f r)"
  shows "filter (\<lambda>r. \<not> P r) (map (\<lambda>r. if P r then f r else r) rs) = filter (\<lambda>r. \<not> P r) rs"
  by (induction rs) (auto simp: assms)

lemma row_moves_status: "row_moves env inst n r r' \<Longrightarrow> wi_status r' \<in> {wi_status r, ''waiting'', ''completed''}"
  by (auto simp: row_moves_def split: workflow_node.splits)

lemma row_moves_ids: "row_moves env inst n r r' \<Longrightarrow> wi_id r' = wi_id r \<and> wi_org r' = wi_org r"
  by (simp add: row_moves_def)

lemma row_moves_count:
  "row_moves env inst n inst r' \<Longrightarrow> wi_step_count inst < m \<Longrightarrow> wi_step_count r' \<le> m"
  by (auto simp: row_moves_def split: workflow_node.splits)

lemma advance_body_committed:
  assumes "advance_body env now org i g p act rid dry w = (w', Inr True)"
  obtains inst nid n where "find_instance (ww_db w) org i = Some inst" "wi_status inst = ''running''"
    "wi_current_node inst = Some nid" "graph_node g nid = Some n"
    "wi_step_count inst < snd (load_or_default_bounds (ww_db w) org)"
    "advance_node env now org p act rid dry inst n w = (w', Inr True)"
proof -
  have nf: "tx_then m (\<lambda>_ w. (w, Inr False)) \<noteq> (w', Inr True)" for m :: "wf_world \<times> (wf_failure + unit)"
    by (simp add: tx_then_Inr)
  from assms show ?thesis
    by (auto simp: advance_body_def Let_def nf intro: that split: option.splits if_splits)
qed

lemma advance_instance_cases:
  assumes "advance_instance env now org i g p act rid dry w = (w', r)"
  obtains (unchanged) "ww_db w' = ww_db w"
  | (committed) inst nid n f s where "r = Inr ()" "find_instance (ww_db w) org i = Some inst"
    "wi_status inst = ''running''" "wi_current_node inst = Some nid" "graph_node g nid = Some n"
    "wi_step_count inst < snd (load_or_default_bounds (ww_db w) org)"
    "advanced org inst n f s (ww_db w) (ww_db w')" "\<forall>r. row_moves env inst n r (f r)"
    "advance_node env now org p act rid dry inst n w = (w', Inr True)"
proof (cases "advance_body env now org i g p act rid dry w")
  case (Pair w1 res)
  show ?thesis
  proof (cases "res = Inr True")
    case True
    with Pair have body: "advance_body env now org i g p act rid dry w = (w1, Inr True)" by simp
    with assms have r: "w' = w1" "r = Inr ()" by (simp_all add: advance_instance_def)
    from body obtain inst nid n where i: "find_instance (ww_db w) org i = Some inst" "wi_status inst = ''running''"
        "wi_current_node inst = Some nid" "graph_node g nid = Some n"
        "wi_step_count inst < snd (load_or_default_bounds (ww_db w) org)"
      and n: "advance_node env now org p act rid dry inst n w = (w1, Inr True)" by (rule advance_body_committed)
    from advance_node_committed [OF n] obtain f s where "advanced org inst n f s (ww_db w) (ww_db w1)"
      "\<forall>r. row_moves env inst n r (f r)" by blast
    with i n r show ?thesis by (intro committed) simp_all
  next
    case False
    with assms Pair have "ww_db w' = ww_db w"
      by (auto simp: advance_instance_def split: sum.splits if_splits)
    then show ?thesis by (rule unchanged)
  qed
qed

lemma committed_find_instance:
  assumes "find_instance db org i = Some inst" "advanced org inst n f s db db'" "\<forall>r. row_moves env inst n r (f r)"
  shows "find_instance db' org i = Some (f inst)"
proof -
  note ids = find_instance_Some [OF assms(1)]
  have tables: "wf_instances db' = map (\<lambda>r. if wi_id r = i \<and> wi_org r = org then f r else r) (wf_instances db)"
    using assms(2) ids by (simp add: advanced_def)
  have same: "wi_id (f r) = i \<and> wi_org (f r) = org" if "wi_id r = i \<and> wi_org r = org" for r
    using row_moves_ids [OF assms(3) [rule_format], of r] that by simp
  show ?thesis
    unfolding find_instance_def tables using assms(1) [unfolded find_instance_def]
    by (subst find_map_same [where P = "\<lambda>r. wi_id r = i \<and> wi_org r = org"]) (simp_all add: same)
qed

text \<open>
  An advance either leaves the tables as they were, or commits exactly one step: the instance
  was running below its step cap, one step of the current node is appended with the next index,
  the row of the instance moves as the kind of the node says, to a status other than failed and a
  step count within the cap, and no other row of the table changes.
\<close>

theorem advance_instance_effect:
  assumes "advance_instance env now org i g p act rid dry w = (w', r)" and "ww_db w' \<noteq> ww_db w"
  shows "r = Inr () \<and> (\<exists>inst n s inst'.
     find_instance (ww_db w) org i = Some inst \<and> wi_status inst = ''running'' \<and>
     Option.bind (wi_current_node inst) (graph_node g) = Some n \<and>
     wf_steps (ww_db w') = wf_steps (ww_db w) @ [s] \<and> ws_instance s = i \<and> ws_org s = org \<and>
     ws_index s = wi_step_count inst + 1 \<and> ws_node_id s = node_id n \<and> ws_status s \<in> {''ok'', ''waiting''} \<and>
     find_instance (ww_db w') org i = Some inst' \<and> row_moves env inst n inst inst' \<and>
     wi_status inst' \<noteq> ''failed'' \<and> wi_step_count inst' \<le> snd (load_or_default_bounds (ww_db w) org) \<and>
     filter (\<lambda>r. \<not> (wi_id r = i \<and> wi_org r = org)) (wf_instances (ww_db w')) =
       filter (\<lambda>r. \<not> (wi_id r = i \<and> wi_org r = org)) (wf_instances (ww_db w)))"
  using assms(1)
proof (cases rule: advance_instance_cases)
  case unchanged
  with assms(2) show ?thesis by simp
next
  case (committed inst nid n f s)
  note ids = find_instance_Some [OF committed(2)]
  note moves = committed(8) [rule_format]
  have tables: "wf_instances (ww_db w') =
      map (\<lambda>r. if wi_id r = i \<and> wi_org r = org then f r else r) (wf_instances (ww_db w))"
    using committed(7) ids by (simp add: advanced_def)
  have same: "wi_id (f r) = i \<and> wi_org (f r) = org" if "wi_id r = i \<and> wi_org r = org" for r
    using row_moves_ids [OF moves, of r] that by simp
  have "find_instance (ww_db w') org i = Some (f inst)"
    by (rule committed_find_instance [OF committed(2,7,8)])
  moreover have "filter (\<lambda>r. \<not> (wi_id r = i \<and> wi_org r = org)) (wf_instances (ww_db w')) =
       filter (\<lambda>r. \<not> (wi_id r = i \<and> wi_org r = org)) (wf_instances (ww_db w))"
    unfolding tables by (rule filter_map_other) (rule same)
  moreover have "wi_status (f inst) \<noteq> ''failed''" using row_moves_status [OF moves, of inst] committed(3) by auto
  moreover have "wi_step_count (f inst) \<le> snd (load_or_default_bounds (ww_db w) org)"
    by (rule row_moves_count [OF moves committed(6)])
  moreover have "wf_steps (ww_db w') = wf_steps (ww_db w) @ [s] \<and> ws_instance s = i \<and> ws_org s = org \<and>
     ws_index s = wi_step_count inst + 1 \<and> ws_node_id s = node_id n \<and> ws_status s \<in> {''ok'', ''waiting''}"
    using committed(7) ids by (simp add: advanced_def)
  ultimately show ?thesis using committed(1-5) moves [of inst] by auto
qed

section \<open>Failures are rolled back\<close>

definition failed_ids :: "wf_db \<Rightarrow> (uuid \<times> uuid) set" where
  "failed_ids db = (\<lambda>r. (wi_org r, wi_id r)) ` {r \<in> set (wf_instances db). wi_status r = ''failed''}"

definition failed_steps :: "wf_db \<Rightarrow> wf_step list" where
  "failed_steps db = filter (\<lambda>s. ws_status s \<in> {''failed'', ''denied''}) (wf_steps db)"

lemma advance_instance_failures:
  assumes "advance_instance env now org i g p act rid dry w = (w', r)"
  shows "failed_ids (ww_db w') \<subseteq> failed_ids (ww_db w) \<and> failed_steps (ww_db w') = failed_steps (ww_db w)"
  using assms
proof (cases rule: advance_instance_cases)
  case unchanged
  then show ?thesis by (simp add: failed_ids_def failed_steps_def)
next
  case (committed inst nid n f s)
  have "failed_ids (ww_db w') \<subseteq> failed_ids (ww_db w)"
  proof
    fix x assume "x \<in> failed_ids (ww_db w')"
    then obtain q where q: "q \<in> set (wf_instances (ww_db w))" "x = (wi_org (f q), wi_id (f q)) \<and> wi_status (f q) = ''failed'' \<or>
        x = (wi_org q, wi_id q) \<and> wi_status q = ''failed''"
      using committed(7) by (auto simp: failed_ids_def advanced_def split: if_splits)
    with row_moves_status [OF committed(8) [rule_format], of q] row_moves_ids [OF committed(8) [rule_format], of q]
    show "x \<in> failed_ids (ww_db w)" by (auto simp: failed_ids_def)
  qed
  moreover have "failed_steps (ww_db w') = failed_steps (ww_db w)"
    using committed(7) by (auto simp: failed_steps_def advanced_def)
  ultimately show ?thesis ..
qed

lemma run_iterations_failures:
  "failed_ids (ww_db (fst (run_iterations env now org i g p act rid dry k w))) \<subseteq> failed_ids (ww_db w) \<and>
   failed_steps (ww_db (fst (run_iterations env now org i g p act rid dry k w))) = failed_steps (ww_db w)"
proof (induction k arbitrary: w)
  case (Suc k)
  obtain w' r where a: "advance_instance env now org i g p act rid dry w = (w', r)" by fastforce
  from advance_instance_failures [OF a] Suc.IH [of w'] show ?case by (cases r) (auto simp: a tx_then_def)
qed simp

text \<open>
  The engine never stores a failure. Whatever happens during a run (a missing or unknown
  node, the step cap, a denied permission, a failed activity), no instance is failed afterwards
  that was not failed before, and no failed or denied step is in the audit table: the updates of
  \<open>fail_instance\<close> are made in a transaction that is dropped without a commit.
\<close>

theorem engine_failure_not_persisted:
  "failed_ids (ww_db (fst (run_until_idle env now org i g p act rid dry w))) \<subseteq> failed_ids (ww_db w) \<and>
   failed_steps (ww_db (fst (run_until_idle env now org i g p act rid dry w))) = failed_steps (ww_db w)"
  unfolding run_until_idle_def by (rule run_iterations_failures)

section \<open>Requests to other services\<close>

lemma fst_tx_then_http:
  assumes "\<And>x w. ww_http (fst (f x w)) = ww_http w"
  shows "ww_http (fst (tx_then m f)) = ww_http (fst m)"
  by (cases m) (auto simp: tx_then_def assms split: sum.splits)

lemma advance_node_http:
  "\<exists>reqs. ww_http (fst (advance_node env now org p act rid dry inst n w)) = ww_http w @ reqs \<and>
     sent_as env org act reqs \<and>
     (reqs \<noteq> [] \<longrightarrow> \<not> dry \<and> (\<exists>k. as_action_key n = Some k \<and> is_ok (enforce_action_permission (we_time env) p k rid)))"
proof (cases n)
  case (Action nid action params nxt)
  obtain wx rx where x: "execute_action env action params (wi_payload inst) org act w = (wx, rx)" by fastforce
  from execute_action_sent [of env action params "wi_payload inst" org act w] x
  have "\<exists>reqs. ww_http wx = ww_http w @ reqs \<and> sent_as env org act reqs" by simp
  with x Action show ?thesis
    by (cases "enforce_action_permission (we_time env) p action rid"; cases rx; cases dry)
      (simp_all add: Let_def fst_tx_then_http)
next
  case (Human nid kind params a b)
  from execute_action_sent [of env "''start_approval''" params "wi_payload inst" org act w] Human show ?thesis
    by (cases kind; cases "enforce_action_permission (we_time env) p ''start_approval'' rid"; cases dry)
      (simp_all add: Let_def fst_tx_then_http)
qed (simp_all add: Let_def fst_tx_then_http split: option.split)

lemma advance_instance_http:
  "ww_http (fst (advance_instance env now org i g p act rid dry w)) =
   ww_http (fst (advance_body env now org i g p act rid dry w))"
  by (auto simp: advance_instance_def split: prod.split sum.split)

lemma advance_instance_requests:
  "\<exists>reqs. ww_http (fst (advance_instance env now org i g p act rid dry w)) = ww_http w @ reqs \<and>
     sent_as env org act reqs \<and>
     (reqs \<noteq> [] \<longrightarrow> \<not> dry \<and> (\<exists>inst n k. find_instance (ww_db w) org i = Some inst \<and> wi_status inst = ''running'' \<and>
        Option.bind (wi_current_node inst) (graph_node g) = Some n \<and> as_action_key n = Some k \<and>
        is_ok (enforce_action_permission (we_time env) p k rid)))"
proof (cases "find_instance (ww_db w) org i")
  case None
  then show ?thesis by (simp add: advance_instance_http advance_body_def Let_def)
next
  case (Some inst)
  show ?thesis
  proof (cases "Option.bind (wi_current_node inst) (graph_node g)")
    case None
    with Some show ?thesis
      by (cases "wi_current_node inst") (simp_all add: advance_instance_http advance_body_def Let_def fst_tx_then_http)
  next
    case n: (Some n)
    then obtain nid where nid: "wi_current_node inst = Some nid" "graph_node g nid = Some n"
      by (auto simp: bind_eq_Some_conv)
    from advance_node_http [of env now org p act rid dry inst n w] Some n nid show ?thesis
      by (cases "wi_status inst = ''running''"; cases "snd (load_or_default_bounds (ww_db w) org) \<le> wi_step_count inst")
        (simp_all add: advance_instance_http advance_body_def Let_def fst_tx_then_http)
  qed
qed

text \<open>
  C9: One advance sends at most one request to another service, in the name of the organisation
  and of the user on whose behalf the actor works, and only when the run is not a dry run, the
  instance is running, and the permission that the catalogue requires for the action of the
  current node was granted to the principal at run time.
\<close>

theorem engine_requests_permitted:
  "\<exists>reqs. ww_http (fst (advance_instance env now org i g p act rid dry w)) = ww_http w @ reqs \<and>
     sent_as env org act reqs \<and>
     (reqs \<noteq> [] \<longrightarrow> \<not> dry \<and> (\<exists>inst n k. find_instance (ww_db w) org i = Some inst \<and> wi_status inst = ''running'' \<and>
        Option.bind (wi_current_node inst) (graph_node g) = Some n \<and> as_action_key n = Some k \<and>
        is_ok (enforce_action_permission (we_time env) p k rid)))"
  by (rule advance_instance_requests)

text \<open>An activity of one of these kinds sends its request first and fails with it.\<close>

lemma execute_action_unreachable:
  assumes "we_var env ''WORKFLOW_ACTIVITIES_NOOP'' = None" and "\<And>k req. we_http env k req = None"
    and "action \<in> {''create_task'', ''start_approval'', ''create_purchase_request'', ''post_journal'', ''read_payroll''}"
  shows "\<exists>req. execute_action env action params payload org act w =
     (w\<lparr>ww_http := ww_http w @ [req]\<rparr>, Inl ''activity http'')"
proof -
  have send: "tx_then (http_json env m base path org act body w) (\<lambda>_ w. (w, Inr ())) =
      (w\<lparr>ww_http := ww_http w @ [\<lparr>hr_method = m, hr_url = trim_slashes base @ path,
        hr_org = org_public env org, hr_user = actor_public env act, hr_body = body\<rparr>]\<rparr>,
       Inl ''activity http'')" for m base path body
    by (simp add: http_json_def assms(2) tx_then_def)
  from assms(3) show ?thesis
    by (elim insertE emptyE) (simp_all add: execute_action_def assms(1) send, unfold Let_def, (rule exI, rule refl)+)
qed

text \<open>The identifiers generated from now on are in neither table, and the next step index is free.\<close>

definition fresh_for :: "wf_env \<Rightarrow> wf_instance \<Rightarrow> wf_world \<Rightarrow> bool" where
  "fresh_for env inst w \<longleftrightarrow>
     (\<forall>k \<ge> ww_uuids w. re_gen_uuid (we_relay env) k \<notin> ws_id ` set (wf_steps (ww_db w)) \<and>
        re_gen_uuid (we_relay env) k \<notin> oe_id ` set (ob_events (wf_outbox (ww_db w)))) \<and>
     (\<forall>s \<in> set (wf_steps (ww_db w)). \<not> (ws_org s = wi_org inst \<and> ws_instance s = wi_id inst \<and>
        ws_index s = wi_step_count inst + 1))"

lemma record_step_fresh:
  assumes "fresh_for env inst w" "wi_org inst = org"
  shows "\<exists>w1. record_step env org (wi_id inst) (wi_step_count inst + 1) nid nt key st d perm al w = (w1, Inr ()) \<and>
    ww_http w1 = ww_http w \<and> ww_uuids w1 = Suc (ww_uuids w) \<and> wf_outbox (ww_db w1) = wf_outbox (ww_db w)"
  using assms by (force simp: record_step_def Let_def fresh_for_def list_ex_iff)

lemma fail_instance_fresh:
  assumes "\<forall>k \<ge> ww_uuids w. re_gen_uuid (we_relay env) k \<notin> oe_id ` set (ob_events (wf_outbox (ww_db w)))"
  shows "\<exists>w1. fail_instance env now org act inst msg w = (w1, Inr ()) \<and> ww_http w1 = ww_http w \<and>
    ww_uuids w1 = Suc (ww_uuids w)"
proof -
  have "\<not> list_ex (\<lambda>r. oe_id r = re_gen_uuid (we_relay env) (ww_uuids w)) (ob_events (wf_outbox (ww_db w)))"
    using assms [rule_format, OF order_refl] by (auto simp: list_ex_iff image_iff)
  then show ?thesis
    by (simp add: fail_instance_def emit_instance_event_def update_instance_def insert_event_def
        insert_outbox_row_def Let_def rls_visible_def envelope_new_def)
qed

lemma failing_advance:
  assumes inst: "find_instance (ww_db w) org i = Some inst" "wi_status inst = ''running''"
      "wi_current_node inst = Some nid" "graph_node g nid = Some (Action nid action params nxt)"
      "wi_step_count inst < snd (load_or_default_bounds (ww_db w) org)"
    and perm: "enforce_action_permission (we_time env) p action rid = Inr perm"
    and net: "we_var env ''WORKFLOW_ACTIVITIES_NOOP'' = None" "\<And>k req. we_http env k req = None"
      "action \<in> {''create_task'', ''start_approval'', ''create_purchase_request'', ''post_journal'', ''read_payroll''}"
    and fresh: "fresh_for env inst w"
  shows "\<exists>w'. advance_instance env now org i g p act rid False w = (w', Inr ()) \<and> ww_db w' = ww_db w \<and>
    length (ww_http w') = Suc (length (ww_http w)) \<and> ww_uuids w' \<ge> ww_uuids w"
proof -
  obtain req where x: "execute_action env action params (wi_payload inst) org act w =
      (w\<lparr>ww_http := ww_http w @ [req]\<rparr>, Inl ''activity http'')"
    using execute_action_unreachable [OF net] by blast
  have org: "wi_org inst = org" using find_instance_Some [OF inst(1)] by simp
  have "fresh_for env inst (w\<lparr>ww_http := ww_http w @ [req]\<rparr>)" using fresh by (simp add: fresh_for_def)
  from record_step_fresh [OF this org] obtain w1 where
    w1: "record_step env org (wi_id inst) (wi_step_count inst + 1) nid ''action'' (Some action) ''failed''
       (json_object [(''error'', JStr ''activity http'')]) (Some perm) (Some True) (w\<lparr>ww_http := ww_http w @ [req]\<rparr>)
       = (w1, Inr ())" "ww_http w1 = ww_http w @ [req]" "ww_uuids w1 = Suc (ww_uuids w)"
      "wf_outbox (ww_db w1) = wf_outbox (ww_db w)" by fastforce
  have "\<forall>k \<ge> ww_uuids w1. re_gen_uuid (we_relay env) k \<notin> oe_id ` set (ob_events (wf_outbox (ww_db w1)))"
    using fresh unfolding w1(3,4) fresh_for_def by (meson Suc_leD)
  from fail_instance_fresh [OF this] obtain w2 where
    w2: "fail_instance env now org act inst ''activity http'' w1 = (w2, Inr ())" "ww_http w2 = ww_http w1"
      "ww_uuids w2 = Suc (ww_uuids w1)" by blast
  have "advance_body env now org i g p act rid False w = (w2, Inr False)"
    using inst by (simp add: advance_body_def Let_def perm x w1(1) w2(1) tx_then_def)
  then show ?thesis using w1 w2 by (simp add: advance_instance_def)
qed

lemma fresh_for_later:
  assumes "fresh_for env inst w" "ww_db v = ww_db w" "ww_uuids w \<le> ww_uuids v"
  shows "fresh_for env inst v"
  using assms by (simp add: fresh_for_def)

text \<open>
  An activity that keeps failing is repeated within one run. When the service of an action is
  unreachable, the run reports success, sends the request 105 times, and leaves every table as it
  was: the instance is still running at the same node, so the next run repeats all of it.
\<close>

theorem failing_action_repeated:
  assumes inst: "find_instance (ww_db w) org i = Some inst" "wi_status inst = ''running''"
      "wi_current_node inst = Some nid" "graph_node g nid = Some (Action nid action params nxt)"
      "wi_step_count inst < snd (load_or_default_bounds (ww_db w) org)"
    and perm: "enforce_action_permission (we_time env) p action rid = Inr perm"
    and net: "we_var env ''WORKFLOW_ACTIVITIES_NOOP'' = None" "\<And>k req. we_http env k req = None"
      "action \<in> {''create_task'', ''start_approval'', ''create_purchase_request'', ''post_journal'', ''read_payroll''}"
    and fresh: "fresh_for env inst w"
  shows "\<exists>w'. run_until_idle env now org i g p act rid False w = (w', Inr ()) \<and> ww_db w' = ww_db w \<and>
    length (ww_http w') = length (ww_http w) + 105"
proof -
  have "\<exists>w'. run_iterations env now org i g p act rid False m v = (w', Inr ()) \<and> ww_db w' = ww_db v \<and>
      length (ww_http w') = length (ww_http v) + m"
    if "ww_db v = ww_db w" "ww_uuids v \<ge> ww_uuids w" for m v
    using that
  proof (induction m arbitrary: v)
    case (Suc m)
    have "fresh_for env inst v" by (rule fresh_for_later [OF fresh Suc.prems])
    from failing_advance [OF inst [folded Suc.prems(1)] perm net this, of now act] obtain v' where
      v': "advance_instance env now org i g p act rid False v = (v', Inr ())" "ww_db v' = ww_db v"
        "length (ww_http v') = Suc (length (ww_http v))" "ww_uuids v' \<ge> ww_uuids v" by blast
    from Suc.IH [of v'] v'(2,4) Suc.prems obtain w' where
      "run_iterations env now org i g p act rid False m v' = (w', Inr ())" "ww_db w' = ww_db v'"
      "length (ww_http w') = length (ww_http v') + m" by auto
    with v' inst(1,2) Suc.prems(1) show ?case by (simp add: tx_then_def)
  qed simp
  from this [of w "nat (DEFAULT_MAX_STEPS + 5)"] show ?thesis
    by (simp add: run_until_idle_def DEFAULT_MAX_STEPS_def)
qed

section \<open>The dry run predicts the engine\<close>

lemma advance_node_permitted:
  assumes "advance_node env now org p act rid dry inst n w = (w', Inr True)" "as_action_key n = Some k"
  shows "is_ok (enforce_action_permission (we_time env) p k rid)"
proof (cases n)
  case (Action nid action params nxt)
  with assms show ?thesis
    by (cases "enforce_action_permission (we_time env) p k rid") (simp_all add: tx_then_Inr Let_def)
next
  case (Human nid kind params a b)
  with assms show ?thesis
    by (cases "enforce_action_permission (we_time env) p k rid") (auto simp: tx_then_Inr Let_def split: human_step_kind.splits)
qed (use assms(2) in simp_all)

text \<open>
  What \<open>Value::pointer\<close> documents for a pointer of one token: on an object it is the lookup of
  that key, as long as the token has no separator and no escape.
\<close>

definition pointer_ok :: "wf_env \<Rightarrow> bool" where
  "pointer_ok env \<longleftrightarrow> (\<forall>m key. CHR ''/'' \<notin> set key \<and> CHR ''~'' \<notin> set key \<longrightarrow>
     we_pointer env (JObj m) (CHR ''/'' # key) = json_get (JObj m) key)"

definition plain_path :: "json \<Rightarrow> string \<Rightarrow> bool" where
  "plain_path payload key \<longleftrightarrow> CHR ''/'' \<notin> set key \<and> CHR ''~'' \<notin> set key \<and> [] \<notin> set (split_on CHR ''.'' key) \<and>
     (CHR ''.'' \<in> set key \<longrightarrow> json_get payload key = None)"

primrec plain_node :: "json \<Rightarrow> workflow_node \<Rightarrow> bool" where
  "plain_node payload (End nid) = True"
| "plain_node payload (Action nid action params nxt) = True"
| "plain_node payload (Condition nid path eq t e) = plain_path payload (strip_payload path)"
| "plain_node payload (Branch nid arms d) =
     list_all (\<lambda>arm. [] \<notin> set (split_on CHR ''.'' (strip_payload (arm_path arm)))) arms"
| "plain_node payload (Timer nid dur nxt) = True"
| "plain_node payload (Human nid kind params a b) = True"

lemma json_path_no_empty: "[] \<notin> set (split_on CHR ''.'' key) \<Longrightarrow> json_path j key = json_path_parts j (split_on CHR ''.'' key)"
proof -
  assume "[] \<notin> set (split_on CHR ''.'' key)"
  then have "filter (\<lambda>p. p \<noteq> []) (split_on CHR ''.'' key) = split_on CHR ''.'' key"
    by (intro filter_True) auto
  then show ?thesis by (simp add: json_path_def)
qed

lemma engine_lookup_plain:
  assumes "pointer_ok env" "plain_path (JObj m) key"
  shows "engine_lookup env (JObj m) key = json_path (JObj m) key"
proof (cases "json_get (JObj m) key")
  case None
  with assms show ?thesis by (simp add: engine_lookup_def pointer_ok_def plain_path_def json_path_no_empty)
next
  case (Some v)
  with assms have "CHR ''.'' \<notin> set key" by (auto simp: plain_path_def)
  with Some assms show ?thesis
    by (simp add: engine_lookup_def pointer_ok_def plain_path_def json_path_no_empty split_on_no_sep)
qed

lemma engine_choose_arm_plain:
  "list_all (\<lambda>arm. [] \<notin> set (split_on CHR ''.'' (strip_payload (arm_path arm)))) arms \<Longrightarrow>
   engine_choose_arm payload arms d = choose_arm payload arms d"
  by (induction arms) (simp_all add: json_path_no_empty)

lemma simulate_node_engine_next:
  assumes "pointer_ok env" "plain_node (JObj m) n"
    and "\<And>k. as_action_key n = Some k \<Longrightarrow> is_ok (enforce_action_permission pt p k ''simulate'')"
  shows "\<exists>s. simulate_node pt jt p (JObj m) ix n =
     (s, case n of End _ \<Rightarrow> Stop True None | _ \<Rightarrow> Goto (engine_next env (JObj m) n))"
proof (cases n)
  case (Action nid action params nxt)
  with assms(3) show ?thesis by (cases "enforce_action_permission pt p action ''simulate''") auto
next
  case (Human nid kind params a b)
  with assms(3) show ?thesis
    by (cases kind; cases "enforce_action_permission pt p ''start_approval'' ''simulate''") auto
qed (use assms(1,2) in \<open>simp_all add: Let_def engine_lookup_plain engine_choose_arm_plain\<close>)

text \<open>
  C37: Whenever the engine commits an advance of a running instance, the dry run of the same node
  with the same payload and principal predicts it: it completes exactly when the engine does, and
  goes to the same node otherwise, provided the paths of conditions and branches are plain (no
  empty part, no pointer separator or escape, and no key of the payload that is literally the
  dotted path).
\<close>

theorem dry_run_predicts_engine:
  assumes "advance_instance env now org i g p act rid dry w = (w', r)" and "ww_db w' \<noteq> ww_db w"
    and "find_instance (ww_db w) org i = Some inst" "wi_payload inst = JObj m"
    and "Option.bind (wi_current_node inst) (graph_node g) = Some n" "plain_node (JObj m) n" "pointer_ok env"
  shows "\<exists>inst' s nxt. find_instance (ww_db w') org i = Some inst' \<and>
     simulate_node (we_time env) jt p (JObj m) ix n = (s, nxt) \<and> ss_node_id s = ws_node_id (last (wf_steps (ww_db w'))) \<and>
     nxt = (if wi_status inst' = ''completed'' then Stop True None else Goto (wi_current_node inst'))"
  using assms(1)
proof (cases rule: advance_instance_cases)
  case unchanged
  with assms(2) show ?thesis by simp
next
  case (committed inst0 nid n0 f st)
  with assms(3,5) have eqs: "inst0 = inst" "n0 = n" by simp_all
  have "is_ok (enforce_action_permission (we_time env) p k ''simulate'')" if "as_action_key n = Some k" for k
    using advance_node_permitted [OF committed(9) [unfolded eqs] that] by (simp add: enforce_action_permission_ok)
  from simulate_node_engine_next [OF assms(7,6) this, of jt ix] obtain s where
    s: "simulate_node (we_time env) jt p (JObj m) ix n =
      (s, case n of End _ \<Rightarrow> Stop True None | _ \<Rightarrow> Goto (engine_next env (JObj m) n))" by blast
  have "find_instance (ww_db w') org i = Some (f inst)"
    using committed_find_instance [OF committed(2,7,8)] eqs by simp
  moreover have "ss_node_id s = ws_node_id (last (wf_steps (ww_db w')))"
    using simulate_node_next [OF s] committed(7) eqs by (simp add: advanced_def)
  moreover have "(case n of End _ \<Rightarrow> Stop True None | _ \<Rightarrow> Goto (engine_next env (JObj m) n)) =
      (if wi_status (f inst) = ''completed'' then Stop True None else Goto (wi_current_node (f inst)))"
    using committed(8) [rule_format, of inst] committed(3) assms(4) eqs
    by (auto simp: row_moves_def split: workflow_node.splits)
  ultimately show ?thesis using s by auto
qed

text \<open>The side condition is needed: with a literal dotted key the two disagree.\<close>

lemma literal_dotted_key_diverges:
  assumes "pointer_ok env" and "payload = JObj [(''a'', JObj [(''b'', JInt 2)]), (''a.b'', JInt 1)]"
  shows "engine_lookup env payload ''a.b'' = Some (JInt 1) \<and> json_path payload ''a.b'' = Some (JInt 2)"
  using assms by (simp add: engine_lookup_def pointer_ok_def json_path_def)

section \<open>Concrete instances\<close>

definition demo_wf_env :: wf_env where
  "demo_wf_env = \<lparr>we_relay = demo_relay_env, we_clock = (\<lambda>k. 7), we_show_unique = ''unique'',
     we_show_outbox_error = (\<lambda>e. ''outbox''), we_var = (\<lambda>v. None), we_http = (\<lambda>k req. None),
     we_pointer = (\<lambda>j path. json_get j (drop 1 path)), we_json_text = (\<lambda>j. ''{}''), we_add_secs = (\<lambda>t s. Some (t + s)),
     we_time = (\<lambda>f s. None)\<rparr>"

definition demo_instance :: wf_instance where
  "demo_instance = \<lparr>wi_id = 5, wi_org = 1, wi_public_id = ''wfi_5'', wi_definition_id = 6, wi_version_id = 7,
     wi_version_number = 1, wi_status = ''running'', wi_payload = JObj [], wi_current_node = Some ''a'',
     wi_step_count = 0, wi_error = None, wi_waiting_until = None, wi_completed_at = None, wi_actor_user = 3,
     wi_created_by = 3, wi_trigger_event = None, wi_temporal_id = ''t'', wi_sla_deadline = None, wi_started_at = 0\<rparr>"

definition demo_wf_world :: wf_world where
  "demo_wf_world = \<lparr>ww_db = \<lparr>wf_definitions = [], wf_versions = [], wf_idem = [], wf_instances = [demo_instance], wf_steps = [], wf_bounds = [],
     wf_outbox = \<lparr>ob_events = [], ob_dlq = []\<rparr>\<rparr>, ww_uuids = 10, ww_http = []\<rparr>"

lemmas demo_wf_defs = demo_wf_env_def demo_instance_def demo_wf_world_def demo_graph_def

lemma demo_permission:
  "enforce_action_permission (\<lambda>f s. None) demo_creator ''create_task'' rid = Inr ''operations.task.create''"
  by (simp add: enforce_action_permission_def required_permission_for_action_def find_action_entry_def
      ACTION_CATALOGUE_def decide_def decide_with_context_def demo_creator_def from_permission_ids_def
      conditions_match_def)

lemma demo_node:
  "find_instance (ww_db demo_wf_world) 1 5 = Some demo_instance"
  "graph_node demo_graph ''a'' = Some (Action ''a'' ''create_task'' (JObj []) (Some ''e''))"
  "wi_step_count demo_instance < snd (load_or_default_bounds (ww_db demo_wf_world) 1)"
  by (simp_all add: demo_wf_defs find_instance_def graph_node_def load_or_default_bounds_def DEFAULT_MAX_STEPS_def)

lemma demo_advance:
  "\<exists>w'. advance_instance demo_wf_env 9 1 5 demo_graph demo_creator (actor_human 3) ''r'' True demo_wf_world = (w', Inr ()) \<and>
     ww_db w' \<noteq> ww_db demo_wf_world"
  by (simp add: advance_instance_def advance_body_def demo_node Let_def record_step_def tx_then_def update_instance_def
      demo_permission demo_wf_defs load_or_default_bounds_def DEFAULT_MAX_STEPS_def graph_node_def find_instance_def)

theorem advance_instance_effect_witness:
  "\<exists>w' s. advance_instance demo_wf_env 9 1 5 demo_graph demo_creator (actor_human 3) ''r'' True demo_wf_world = (w', Inr ()) \<and>
     wf_steps (ww_db w') = [s] \<and> ws_index s = 1 \<and> ws_node_id s = ''a''"
proof -
  obtain w' where a: "advance_instance demo_wf_env 9 1 5 demo_graph demo_creator (actor_human 3) ''r'' True demo_wf_world =
      (w', Inr ())" "ww_db w' \<noteq> ww_db demo_wf_world" using demo_advance by blast
  have "wf_steps (ww_db demo_wf_world) = []" "wi_current_node demo_instance = Some ''a''" "wi_step_count demo_instance = 0"
    by (simp_all add: demo_wf_defs)
  with advance_instance_effect [OF a] a(1) show ?thesis by (auto simp: demo_node(1,2))
qed

lemma demo_fresh: "fresh_for demo_wf_env demo_instance demo_wf_world"
  by (simp add: fresh_for_def demo_wf_defs)

lemma demo_unreachable:
  "enforce_action_permission (we_time demo_wf_env) demo_creator ''create_task'' ''r'' = Inr ''operations.task.create''"
  "we_var demo_wf_env ''WORKFLOW_ACTIVITIES_NOOP'' = None" "we_http demo_wf_env k req = None"
  "wi_status demo_instance = ''running''" "wi_current_node demo_instance = Some ''a''"
  using demo_permission by (simp_all add: demo_wf_defs)

theorem failing_action_repeated_witness:
  "\<exists>w'. run_until_idle demo_wf_env 9 1 5 demo_graph demo_creator (actor_human 3) ''r'' False demo_wf_world = (w', Inr ()) \<and>
     ww_db w' = ww_db demo_wf_world \<and> length (ww_http w') = 105"
proof -
  have "length (ww_http demo_wf_world) = 0" by (simp add: demo_wf_world_def)
  then show ?thesis
    using failing_action_repeated [OF demo_node(1) demo_unreachable(4,5) demo_node(2,3) demo_unreachable(1-3) _ demo_fresh,
        of 9 "actor_human 3"] by simp
qed

theorem engine_requests_permitted_witness:
  "\<exists>req. ww_http (fst (advance_instance demo_wf_env 9 1 5 demo_graph demo_creator (actor_human 3) ''r'' False demo_wf_world)) =
     [req] \<and> hr_user req = actor_public demo_wf_env (actor_human 3) \<and>
     is_ok (enforce_action_permission (we_time demo_wf_env) demo_creator ''create_task'' ''r'')"
proof -
  let ?w = "fst (advance_instance demo_wf_env 9 1 5 demo_graph demo_creator (actor_human 3) ''r'' False demo_wf_world)"
  have "length (ww_http demo_wf_world) = 0" by (simp add: demo_wf_world_def)
  with failing_advance [OF demo_node(1) demo_unreachable(4,5) demo_node(2,3) demo_unreachable(1-3) _ demo_fresh,
      of 9 "actor_human 3"] have one: "length (ww_http ?w) = 1" by auto
  obtain reqs where r: "ww_http ?w = ww_http demo_wf_world @ reqs" "sent_as demo_wf_env 1 (actor_human 3) reqs"
    "reqs \<noteq> [] \<Longrightarrow> \<exists>inst n k. find_instance (ww_db demo_wf_world) 1 5 = Some inst \<and>
        Option.bind (wi_current_node inst) (graph_node demo_graph) = Some n \<and> as_action_key n = Some k \<and>
        is_ok (enforce_action_permission (we_time demo_wf_env) demo_creator k ''r'')"
    using engine_requests_permitted [of demo_wf_env 9 1 5 demo_graph demo_creator "actor_human 3" "''r''" False demo_wf_world]
    by blast
  with one have "length reqs = 1" by (simp add: demo_wf_world_def)
  then obtain req where "reqs = [req]" by (cases reqs) auto
  with r show ?thesis by (auto simp: demo_wf_world_def sent_as_def demo_unreachable(1))
qed

theorem dry_run_predicts_engine_witness:
  "\<exists>w' inst' s nxt.
     advance_instance demo_wf_env 9 1 5 demo_graph demo_creator (actor_human 3) ''r'' True demo_wf_world = (w', Inr ()) \<and>
     find_instance (ww_db w') 1 5 = Some inst' \<and>
     simulate_node (we_time demo_wf_env) (\<lambda>j. []) demo_creator (JObj []) 0
       (Action ''a'' ''create_task'' (JObj []) (Some ''e'')) = (s, nxt) \<and>
     nxt = (if wi_status inst' = ''completed'' then Stop True None else Goto (wi_current_node inst'))"
proof -
  obtain w' where a: "advance_instance demo_wf_env 9 1 5 demo_graph demo_creator (actor_human 3) ''r'' True demo_wf_world =
      (w', Inr ())" "ww_db w' \<noteq> ww_db demo_wf_world" using demo_advance by blast
  have "wi_payload demo_instance = JObj []"
    "Option.bind (wi_current_node demo_instance) (graph_node demo_graph) =
       Some (Action ''a'' ''create_task'' (JObj []) (Some ''e''))"
    "plain_node (JObj []) (Action ''a'' ''create_task'' (JObj []) (Some ''e''))"
    "pointer_ok demo_wf_env"
    by (simp_all add: demo_unreachable(5) demo_node(2)) (simp_all add: demo_wf_defs pointer_ok_def)
  from dry_run_predicts_engine [OF a demo_node(1) this, of "\<lambda>j. []" 0] a(1) show ?thesis by blast
qed

end
