(* ===== verification/Grants.thy ===== *)
theory Grants
  imports Authz Public_Ids Errors Json
begin

text \<open>
  How a request gets its principal: the loaders of the core service
  (\<open>workspace/principal.rs\<close>), of the finance service and of the other services
  (\<open>principal.rs\<close>, the same file in the workflow, people, inventory and project services; the
  sales service adds the restriction for API keys), the check at the entry of the governance
  handlers, and the handlers for inherited team grants and delegations
  (\<open>enterprise/grants.rs\<close>).

  \<open>org_db\<close> holds the tables these read and write. A select without an order returns the rows
  in the order of the table. Parameters: the conditions of a role grant are JSON that serde
  decodes (\<open>parse_conditions\<close>), generated UUIDs and their text, the clock.
\<close>

section \<open>Tables\<close>

record membership =
  mb_id :: uuid
  mb_org :: uuid
  mb_user :: uuid
  mb_public_id :: string
  mb_role :: string
  mb_policy_version :: int
  mb_role_id :: "uuid option"
  mb_status :: string
  mb_team :: "uuid option"
  mb_department :: "uuid option"
  mb_revoked :: "int option"

record role_permission =
  rp_org :: uuid
  rp_role :: uuid
  rp_permission :: string
  rp_effect :: string
  rp_scope :: string
  rp_conditions :: json

record team =
  tm_id :: uuid
  tm_org :: uuid
  tm_public_id :: string
  tm_parent :: "uuid option"

record inherit_grant =
  ig_id :: uuid
  ig_org :: uuid
  ig_public_id :: string
  ig_team :: uuid
  ig_permission :: string
  ig_effect :: string
  ig_scope :: string
  ig_created_by :: uuid
  ig_created_at :: int

record delegation =
  dg_id :: uuid
  dg_org :: uuid
  dg_public_id :: string
  dg_from :: uuid
  dg_to :: uuid
  dg_permission :: string
  dg_scope :: string
  dg_expires :: int
  dg_created_by :: uuid
  dg_created_at :: int
  dg_revoked :: "int option"

record audit_row =
  au_id :: uuid
  au_org :: uuid
  au_actor :: uuid
  au_action :: string
  au_resource_type :: string
  au_resource_id :: string
  au_metadata :: json

record org_role =
  rl_id :: uuid
  rl_org :: uuid
  rl_system_key :: "string option"
  rl_is_system :: bool

record org_db =
  od_memberships :: "membership list"
  od_role_permissions :: "role_permission list"
  od_teams :: "team list"
  od_inherit :: "inherit_grant list"
  od_delegations :: "delegation list"
  od_audit :: "audit_row list"
  od_uuids :: nat

type_synonym condition_parser = "json \<Rightarrow> abac_condition list option"

record grant_env =
  ge_show_uuid :: "uuid \<Rightarrow> string"
  ge_parse_uuid :: "string \<Rightarrow> string + uuid"
  ge_gen_uuid :: "nat \<Rightarrow> uuid"
  ge_show_time :: "int \<Rightarrow> string"
  ge_show_unique :: string
  ge_conditions :: condition_parser
  ge_time :: time_parser

section \<open>Statements\<close>

definition effect_of :: "string \<Rightarrow> effect" where
  "effect_of e = (if e = ''deny'' then EffectDeny else EffectAllow)"

definition scope_of :: "string \<Rightarrow> scope" where
  "scope_of s = (case scope_parse s of Some sc \<Rightarrow> sc | None \<Rightarrow> Organization)"

definition plain_statement :: "string \<Rightarrow> string \<Rightarrow> string \<Rightarrow> statement" where
  "plain_statement perm eff sc =
     \<lparr>st_effect = effect_of eff, st_permission = perm, st_scope = scope_of sc, st_conditions = []\<rparr>"

definition role_rows :: "org_db \<Rightarrow> uuid \<Rightarrow> uuid option \<Rightarrow> role_permission list" where
  "role_rows db org role_id =
     (case role_id of None \<Rightarrow> []
      | Some r \<Rightarrow> filter (\<lambda>rp. rp_role rp = r \<and> rp_org rp = org) (od_role_permissions db))"

text \<open>The core service decodes the conditions and takes none when they do not decode.\<close>

definition core_role_statements :: "condition_parser \<Rightarrow> org_db \<Rightarrow> uuid \<Rightarrow> uuid option \<Rightarrow> statement list" where
  "core_role_statements parse_conditions db org role_id =
     map (\<lambda>rp. \<lparr>st_effect = effect_of (rp_effect rp), st_permission = rp_permission rp,
                st_scope = scope_of (rp_scope rp),
                st_conditions = (case parse_conditions (rp_conditions rp) of Some cs \<Rightarrow> cs | None \<Rightarrow> [])\<rparr>)
       (role_rows db org role_id)"

text \<open>The other services do not select the conditions.\<close>

definition service_role_statements :: "org_db \<Rightarrow> uuid \<Rightarrow> uuid option \<Rightarrow> statement list" where
  "service_role_statements db org role_id =
     map (\<lambda>rp. plain_statement (rp_permission rp) (rp_effect rp) (rp_scope rp)) (role_rows db org role_id)"

definition team_statements :: "org_db \<Rightarrow> uuid \<Rightarrow> uuid \<Rightarrow> statement list" where
  "team_statements db org tid =
     map (\<lambda>g. plain_statement (ig_permission g) (ig_effect g) (ig_scope g))
       (filter (\<lambda>g. ig_org g = org \<and> ig_team g = tid) (od_inherit db))"

definition team_parent :: "org_db \<Rightarrow> uuid \<Rightarrow> uuid \<Rightarrow> uuid option" where
  "team_parent db org tid =
     Option.bind (find (\<lambda>t. tm_id t = tid \<and> tm_org t = org) (od_teams db)) tm_parent"

function walk_teams :: "org_db \<Rightarrow> uuid \<Rightarrow> uuid option \<Rightarrow> uuid list \<Rightarrow> statement list" where
  "walk_teams db org None visited = []"
| "walk_teams db org (Some tid) visited =
     (if tid \<in> set visited then []
      else team_statements db org tid @ walk_teams db org (team_parent db org tid) (tid # visited))"
  by pat_completeness auto

lemma team_parent_in: "team_parent db org tid = Some p \<Longrightarrow> tid \<in> tm_id ` set (od_teams db)"
  by (auto simp: team_parent_def bind_eq_Some_conv find_Some_iff)

termination walk_teams
proof (relation "measure (\<lambda>(db, org, cursor, visited).
    2 * card (tm_id ` set (od_teams db) - set visited) + (if cursor = None then 0 else 1))")
  fix db :: org_db and org tid :: uuid and visited :: "uuid list"
  assume new: "tid \<notin> set visited"
  let ?ids = "tm_id ` set (od_teams db)"
  have le: "card (?ids - set (tid # visited)) \<le> card (?ids - set visited)" by (intro card_mono) auto
  have "card (?ids - set (tid # visited)) < card (?ids - set visited)" if "tid \<in> ?ids"
    using that new by (intro psubset_card_mono) auto
  with le team_parent_in [of db org tid]
  show "((db, org, team_parent db org tid, tid # visited), db, org, Some tid, visited) \<in> measure (\<lambda>(db, org, cursor, visited).
    2 * card (tm_id ` set (od_teams db) - set visited) + (if cursor = None then 0 else 1))"
    by (cases "team_parent db org tid") auto
qed simp

definition inherited_statements :: "org_db \<Rightarrow> uuid \<Rightarrow> uuid option \<Rightarrow> statement list" where
  "inherited_statements db org team_id = walk_teams db org team_id []"

definition live_delegation :: "int \<Rightarrow> uuid \<Rightarrow> uuid \<Rightarrow> delegation \<Rightarrow> bool" where
  "live_delegation now org m d \<longleftrightarrow> dg_org d = org \<and> dg_to d = m \<and> dg_revoked d = None \<and> dg_expires d > now"

definition delegated_statements :: "int \<Rightarrow> org_db \<Rightarrow> uuid \<Rightarrow> uuid \<Rightarrow> statement list" where
  "delegated_statements now db org m =
     map (\<lambda>d. \<lparr>st_effect = EffectAllow, st_permission = dg_permission d, st_scope = scope_of (dg_scope d),
               st_conditions = []\<rparr>) (filter (live_delegation now org m) (od_delegations db))"

section \<open>Loaders\<close>

definition fetch_membership :: "org_db \<Rightarrow> uuid \<Rightarrow> uuid \<Rightarrow> string \<Rightarrow> app_error + membership" where
  "fetch_membership db org user request_id =
     (case find (\<lambda>m. mb_org m = org \<and> mb_user m = user \<and> mb_revoked m = None) (od_memberships db) of
        None \<Rightarrow> Inl (app_error_new Unauthorized request_id ''membership not found'')
      | Some m \<Rightarrow>
          if mb_status m \<noteq> ''active'' then Inl (app_error_new Unauthorized request_id ''membership not active'')
          else Inr m)"

definition role_list :: "string \<Rightarrow> role list" where
  "role_list role_key = (case role_parse role_key of Some r \<Rightarrow> [r] | None \<Rightarrow> [])"

definition core_load_principal ::
  "condition_parser \<Rightarrow> int \<Rightarrow> org_db \<Rightarrow> uuid \<Rightarrow> uuid \<Rightarrow> string \<Rightarrow> app_error + principal \<times> int \<times> uuid" where
  "core_load_principal parse_conditions now db org user request_id =
     and_then (fetch_membership db org user request_id) (\<lambda>m.
     Inr (\<lparr>roles = role_list (mb_role m),
           statements = core_role_statements parse_conditions db org (mb_role_id m) @
             inherited_statements db org (mb_team m) @ delegated_statements now db org (mb_id m)\<rparr>,
          mb_policy_version m, mb_id m))"

record membership_scope =
  ms_principal :: principal
  ms_policy_version :: int
  ms_membership_id :: uuid
  ms_team :: "uuid option"
  ms_department :: "uuid option"

definition finance_load_membership_scope ::
  "int \<Rightarrow> org_db \<Rightarrow> uuid \<Rightarrow> uuid \<Rightarrow> string \<Rightarrow> app_error + membership_scope" where
  "finance_load_membership_scope now db org user request_id =
     and_then (fetch_membership db org user request_id) (\<lambda>m.
     Inr \<lparr>ms_principal = \<lparr>roles = role_list (mb_role m),
           statements = service_role_statements db org (mb_role_id m) @
             inherited_statements db org (mb_team m) @ delegated_statements now db org (mb_id m)\<rparr>,
          ms_policy_version = mb_policy_version m, ms_membership_id = mb_id m,
          ms_team = mb_team m, ms_department = mb_department m\<rparr>)"

definition load_membership_scope ::
  "org_db \<Rightarrow> uuid \<Rightarrow> uuid \<Rightarrow> string \<Rightarrow> app_error + membership_scope" where
  "load_membership_scope db org user request_id =
     and_then (fetch_membership db org user request_id) (\<lambda>m.
     Inr \<lparr>ms_principal = \<lparr>roles = role_list (mb_role m),
           statements = service_role_statements db org (mb_role_id m)\<rparr>,
          ms_policy_version = mb_policy_version m, ms_membership_id = mb_id m,
          ms_team = mb_team m, ms_department = mb_department m\<rparr>)"

definition load_principal ::
  "org_db \<Rightarrow> uuid \<Rightarrow> uuid \<Rightarrow> string \<Rightarrow> app_error + principal \<times> int \<times> uuid" where
  "load_principal db org user request_id =
     and_then (load_membership_scope db org user request_id) (\<lambda>s.
     Inr (ms_principal s, ms_policy_version s, ms_membership_id s))"

record request_auth =
  ra_org :: uuid
  ra_user :: uuid
  ra_request_id :: string
  ra_membership :: uuid
  ra_api_key_scopes :: "string list option"

definition restrict_to_key :: "string list option \<Rightarrow> membership_scope \<Rightarrow> membership_scope" where
  "restrict_to_key key_scopes s =
     (case key_scopes of Some scopes \<Rightarrow> s\<lparr>ms_principal := from_permission_ids scopes\<rparr> | None \<Rightarrow> s)"

definition crm_load_membership_scope_for :: "org_db \<Rightarrow> request_auth \<Rightarrow> string \<Rightarrow> app_error + membership_scope" where
  "crm_load_membership_scope_for db auth request_id =
     and_then (load_membership_scope db (ra_org auth) (ra_user auth) request_id) (\<lambda>s.
     Inr (restrict_to_key (ra_api_key_scopes auth) s))"

definition finance_load_membership_scope_for ::
  "int \<Rightarrow> org_db \<Rightarrow> request_auth \<Rightarrow> string \<Rightarrow> app_error + membership_scope" where
  "finance_load_membership_scope_for now db auth request_id =
     and_then (finance_load_membership_scope now db (ra_org auth) (ra_user auth) request_id) (\<lambda>s.
     Inr (restrict_to_key (ra_api_key_scopes auth) s))"

section \<open>Checks\<close>

definition enforce :: "time_parser \<Rightarrow> principal \<Rightarrow> permission_id \<Rightarrow> string \<Rightarrow> app_error + unit" where
  "enforce pt p permission request_id =
     (if dd_decision (decide pt p permission) \<noteq> Allow
      then Inl (app_error_new Forbidden request_id (''missing permission '' @ permission)) else Inr ())"

definition enforce_scoped ::
  "time_parser \<Rightarrow> principal \<Rightarrow> permission_id \<Rightarrow> scope \<Rightarrow> string \<Rightarrow> app_error + unit" where
  "enforce_scoped pt p permission required_scope request_id =
     (if dd_decision (decide_with_scope pt p permission required_scope) \<noteq> Allow
      then Inl (app_error_new Forbidden request_id
        (''missing permission '' @ permission @ '' at scope '' @ scope_as_str required_scope)) else Inr ())"

definition enforce_any_scope :: "time_parser \<Rightarrow> principal \<Rightarrow> permission_id \<Rightarrow> string \<Rightarrow> app_error + unit" where
  "enforce_any_scope pt p permission request_id = enforce_scoped pt p permission Own request_id"

definition owner_membership_scope :: "org_db \<Rightarrow> uuid \<Rightarrow> uuid \<Rightarrow> uuid option \<times> uuid option" where
  "owner_membership_scope db org owner =
     (case find (\<lambda>m. mb_org m = org \<and> mb_user m = owner \<and> mb_revoked m = None) (od_memberships db) of
        Some m \<Rightarrow> (mb_team m, mb_department m) | None \<Rightarrow> (None, None))"

definition same_unit :: "uuid option \<Rightarrow> uuid option \<Rightarrow> bool" where
  "same_unit a b = (case (a, b) of (Some x, Some y) \<Rightarrow> x = y | _ \<Rightarrow> False)"

definition required_scope_for_owner ::
  "uuid \<Rightarrow> uuid option \<Rightarrow> uuid option \<Rightarrow> uuid option \<Rightarrow> uuid option \<Rightarrow> uuid option \<Rightarrow> scope" where
  "required_scope_for_owner actor_user owner actor_team owner_team actor_department owner_department =
     (if owner = Some actor_user then Own
      else if same_unit actor_team owner_team then Team
      else if same_unit actor_department owner_department then Department
      else Organization)"

definition required_scope_for_owner_row ::
  "org_db \<Rightarrow> uuid \<Rightarrow> uuid \<Rightarrow> uuid option \<Rightarrow> uuid option \<Rightarrow> uuid option \<Rightarrow> scope" where
  "required_scope_for_owner_row db org actor_user actor_team actor_department owner_user =
     (case owner_user of
        None \<Rightarrow> Organization
      | Some owner \<Rightarrow>
          if owner = actor_user then Own
          else (case owner_membership_scope db org owner of (owner_team, owner_department) \<Rightarrow>
            required_scope_for_owner actor_user (Some owner) actor_team owner_team actor_department owner_department))"

definition require_perm :: "time_parser \<Rightarrow> principal \<Rightarrow> permission_id \<Rightarrow> string \<Rightarrow> app_error + unit" where
  "require_perm pt p perm request_id =
     (if \<not> is_allowed pt p perm
      then Inl (app_error_new Forbidden request_id (''missing permission '' @ perm)) else Inr ())"

definition authorize :: "grant_env \<Rightarrow> int \<Rightarrow> org_db \<Rightarrow> request_auth \<Rightarrow> permission_id \<Rightarrow> app_error + principal" where
  "authorize env now db user perm =
     and_then (case ra_api_key_scopes user of
         Some scopes \<Rightarrow> Inr (from_permission_ids scopes)
       | None \<Rightarrow> and_then (core_load_principal (ge_conditions env) now db (ra_org user) (ra_user user) (ra_request_id user))
                   (\<lambda>(p, v, m). Inr p)) (\<lambda>p.
     and_then (require_perm (ge_time env) p perm (ra_request_id user)) (\<lambda>_. Inr p))"

section \<open>Inherited grants and delegations\<close>

definition grant_public :: "grant_env \<Rightarrow> id_kind \<Rightarrow> uuid \<Rightarrow> string" where
  "grant_public env kind u = public_id_as_str (ge_show_uuid env) (public_id_new kind u)"

definition new_uuid :: "grant_env \<Rightarrow> org_db \<Rightarrow> uuid \<times> org_db" where
  "new_uuid env db = (ge_gen_uuid env (od_uuids db), db\<lparr>od_uuids := Suc (od_uuids db)\<rparr>)"

definition utf8_ellipsis :: string where
  "utf8_ellipsis = [char_of (226::nat), char_of (128::nat), char_of (166::nat)]"

definition bump_policy :: "uuid \<Rightarrow> org_db \<Rightarrow> org_db" where
  "bump_policy org db =
     db\<lparr>od_memberships := map (\<lambda>m. if mb_org m = org \<and> mb_revoked m = None
         then m\<lparr>mb_policy_version := mb_policy_version m + 1\<rparr> else m) (od_memberships db)\<rparr>"

definition audit_mutation ::
  "grant_env \<Rightarrow> uuid \<Rightarrow> uuid \<Rightarrow> string \<Rightarrow> string \<Rightarrow> string \<Rightarrow> json \<Rightarrow> org_db \<Rightarrow> org_db" where
  "audit_mutation env org act action resource_type resource_id metadata db =
     (case new_uuid env db of (i, db) \<Rightarrow>
        if list_ex (\<lambda>a. au_id a = i) (od_audit db) then db
        else db\<lparr>od_audit := od_audit db @ [\<lparr>au_id = i, au_org = org, au_actor = act, au_action = action,
               au_resource_type = resource_type, au_resource_id = resource_id, au_metadata = metadata\<rparr>]\<rparr>)"

record create_inherit_request =
  ci_team_id :: string
  ci_permission_id :: string
  ci_effect :: string
  ci_scope :: string

record create_delegate_request =
  cd_to_membership_id :: string
  cd_permission_id :: string
  cd_scope :: string
  cd_expires_at :: int

definition db_failure :: "grant_env \<Rightarrow> string \<Rightarrow> app_error" where
  "db_failure env request_id = app_error_new Internal request_id (''db error: '' @ ge_show_unique env)"

text \<open>
  The handlers return the tables with the answer; an error drops the transaction, so that only
  the count of generated UUIDs is kept. The audit entry is written in a transaction of its own
  after the commit.
\<close>

definition parse_kind ::
  "grant_env \<Rightarrow> id_kind \<Rightarrow> string \<Rightarrow> string \<Rightarrow> string \<Rightarrow> string \<Rightarrow> app_error + uuid" where
  "parse_kind env kind raw request_id invalid wrong =
     and_then (map_err (\<lambda>_. app_error_new ValidationFailed request_id invalid)
         (public_id_from_str (ge_parse_uuid env) raw)) (\<lambda>pid.
     if pid_kind pid \<noteq> kind then Inl (app_error_new ValidationFailed request_id wrong) else Inr (pid_uuid pid))"

definition insert_inherit :: "grant_env \<Rightarrow> string \<Rightarrow> inherit_grant \<Rightarrow> org_db \<Rightarrow> app_error + org_db" where
  "insert_inherit env request_id g db =
     (if list_ex (\<lambda>h. ig_id h = ig_id g \<or> ig_org h = ig_org g \<and> ig_public_id h = ig_public_id g \<or>
          ig_org h = ig_org g \<and> ig_team h = ig_team g \<and> ig_permission h = ig_permission g \<and>
          ig_effect h = ig_effect g) (od_inherit db)
      then Inl (db_failure env request_id) else Inr (db\<lparr>od_inherit := od_inherit db @ [g]\<rparr>))"

text \<open>
  \<open>to_lowercase\<close> is compared with two ASCII words without the letters k and i, so only the
  ASCII letters matter.
\<close>

definition check_inherit ::
  "grant_env \<Rightarrow> int \<Rightarrow> org_db \<Rightarrow> request_auth \<Rightarrow> create_inherit_request \<Rightarrow> app_error + team" where
  "check_inherit env now db user body =
     (let rid = ra_request_id user in
      and_then (authorize env now db user ''workspace.grant.inherit'') (\<lambda>_.
      and_then (map_err (\<lambda>_. app_error_new ValidationFailed rid ''invalid permission_id'')
          (validate_permission_id (ci_permission_id body))) (\<lambda>_.
      if ascii_lower (ci_effect body) \<noteq> ''allow'' \<and> ascii_lower (ci_effect body) \<noteq> ''deny''
      then Inl (app_error_new ValidationFailed rid ''effect must be allow|deny'')
      else and_then (parse_kind env ''Team'' (ci_team_id body) rid ''invalid team_id'' (''team_id must be tem_'' @ utf8_ellipsis)) (\<lambda>tid.
        case find (\<lambda>t. tm_org t = ra_org user \<and> tm_id t = tid) (od_teams db) of
          None \<Rightarrow> Inl (app_error_new NotFound rid ''team not found'')
        | Some t \<Rightarrow> Inr t))))"

definition create_inherit ::
  "grant_env \<Rightarrow> int \<Rightarrow> request_auth \<Rightarrow> create_inherit_request \<Rightarrow> org_db \<Rightarrow> org_db \<times> (app_error + inherit_grant)" where
  "create_inherit env now user body db =
     (case check_inherit env now db user body of
        Inl e \<Rightarrow> (db, Inl e)
      | Inr t \<Rightarrow>
          (case new_uuid env db of (i, db) \<Rightarrow>
             let org = ra_org user;
                 pub = grant_public env ''PermissionInheritGrant'' i;
                 eff = ascii_lower (ci_effect body);
                 g = \<lparr>ig_id = i, ig_org = org, ig_public_id = pub, ig_team = tm_id t,
                      ig_permission = ci_permission_id body, ig_effect = eff, ig_scope = ci_scope body,
                      ig_created_by = ra_user user, ig_created_at = now\<rparr>
             in case insert_inherit env (ra_request_id user) g db of
                  Inl e \<Rightarrow> (db, Inl e)
                | Inr db \<Rightarrow>
                    (audit_mutation env org (ra_user user) ''grant.inherit.create'' ''permission_inherit_grant'' pub
                       (json_object [(''team_id'', JStr (tm_public_id t)),
                          (''permission_id'', JStr (ci_permission_id body)), (''effect'', JStr eff)])
                       (bump_policy org db), Inr g)))"

definition list_inherit ::
  "grant_env \<Rightarrow> int \<Rightarrow> org_db \<Rightarrow> request_auth \<Rightarrow> app_error + (inherit_grant \<times> team) list" where
  "list_inherit env now db user =
     and_then (authorize env now db user ''workspace.grant.inherit'') (\<lambda>_.
     Inr (concat (map (\<lambda>g. map (Pair g) (filter (\<lambda>t. tm_id t = ig_team g) (od_teams db)))
       (sort_by (\<lambda>a b. ig_created_at a \<le> ig_created_at b) (filter (\<lambda>g. ig_org g = ra_org user) (od_inherit db))))))"

definition insert_delegation :: "grant_env \<Rightarrow> string \<Rightarrow> delegation \<Rightarrow> org_db \<Rightarrow> app_error + org_db" where
  "insert_delegation env request_id d db =
     (if list_ex (\<lambda>h. dg_id h = dg_id d \<or> dg_org h = dg_org d \<and> dg_public_id h = dg_public_id d) (od_delegations db)
      then Inl (db_failure env request_id) else Inr (db\<lparr>od_delegations := od_delegations db @ [d]\<rparr>))"

definition check_delegate ::
  "grant_env \<Rightarrow> int \<Rightarrow> org_db \<Rightarrow> request_auth \<Rightarrow> create_delegate_request \<Rightarrow> app_error + membership \<times> membership" where
  "check_delegate env now db user body =
     (let rid = ra_request_id user in
      and_then (authorize env now db user ''workspace.grant.delegate'') (\<lambda>_.
      and_then (map_err (\<lambda>_. app_error_new ValidationFailed rid ''invalid permission_id'')
          (validate_permission_id (cd_permission_id body))) (\<lambda>_.
      if cd_expires_at body \<le> now
      then Inl (app_error_new ValidationFailed rid ''expires_at must be in the future'')
      else and_then (parse_kind env ''Membership'' (cd_to_membership_id body) rid ''invalid to_membership_id''
          (''to_membership_id must be mem_'' @ utf8_ellipsis)) (\<lambda>to_id.
        case find (\<lambda>m. mb_org m = ra_org user \<and> mb_id m = to_id \<and> mb_revoked m = None) (od_memberships db) of
          None \<Rightarrow> Inl (app_error_new NotFound rid ''target membership not found'')
        | Some to_row \<Rightarrow>
            (case find (\<lambda>m. mb_id m = ra_membership user \<and> mb_org m = ra_org user) (od_memberships db) of
               None \<Rightarrow> Inl (db_failure env rid)
             | Some from_row \<Rightarrow> Inr (from_row, to_row))))))"

definition create_delegate ::
  "grant_env \<Rightarrow> int \<Rightarrow> request_auth \<Rightarrow> create_delegate_request \<Rightarrow> org_db \<Rightarrow> org_db \<times> (app_error + delegation)" where
  "create_delegate env now user body db =
     (case check_delegate env now db user body of
        Inl e \<Rightarrow> (db, Inl e)
      | Inr (from_row, to_row) \<Rightarrow>
          (case new_uuid env db of (i, db) \<Rightarrow>
             let org = ra_org user;
                 pub = grant_public env ''PermissionDelegation'' i;
                 d = \<lparr>dg_id = i, dg_org = org, dg_public_id = pub, dg_from = ra_membership user, dg_to = mb_id to_row,
                      dg_permission = cd_permission_id body, dg_scope = cd_scope body, dg_expires = cd_expires_at body,
                      dg_created_by = ra_user user, dg_created_at = now, dg_revoked = None\<rparr>
             in case insert_delegation env (ra_request_id user) d db of
                  Inl e \<Rightarrow> (db, Inl e)
                | Inr db \<Rightarrow>
                    (audit_mutation env org (ra_user user) ''grant.delegate.create'' ''permission_delegation'' pub
                       (json_object [(''to_membership_id'', JStr (mb_public_id to_row)),
                          (''permission_id'', JStr (cd_permission_id body)),
                          (''expires_at'', JStr (ge_show_time env (cd_expires_at body)))])
                       (bump_policy org db), Inr d)))"

definition list_delegate ::
  "grant_env \<Rightarrow> int \<Rightarrow> org_db \<Rightarrow> request_auth \<Rightarrow> app_error + (delegation \<times> membership \<times> membership) list" where
  "list_delegate env now db user =
     and_then (authorize env now db user ''workspace.grant.delegate'') (\<lambda>_.
     Inr (concat (map (\<lambda>d. concat (map (\<lambda>f. map (\<lambda>t. (d, f, t))
           (filter (\<lambda>t. mb_id t = dg_to d) (od_memberships db)))
         (filter (\<lambda>f. mb_id f = dg_from d) (od_memberships db))))
       (sort_by (\<lambda>a b. dg_created_at b \<le> dg_created_at a)
         (filter (\<lambda>d. dg_org d = ra_org user) (od_delegations db))))))"

definition revoke_delegate ::
  "grant_env \<Rightarrow> int \<Rightarrow> request_auth \<Rightarrow> string \<Rightarrow> org_db \<Rightarrow> org_db \<times> (app_error + uuid)" where
  "revoke_delegate env now user raw db =
     (let rid = ra_request_id user; org = ra_org user in
      case and_then (authorize env now db user ''workspace.grant.delegate'') (\<lambda>_.
          parse_kind env ''PermissionDelegation'' raw rid ''invalid id'' (''id must be pdg_'' @ utf8_ellipsis)) of
        Inl e \<Rightarrow> (db, Inl e)
      | Inr i \<Rightarrow>
          let hit = (\<lambda>d. dg_org d = org \<and> dg_id d = i \<and> dg_revoked d = None) in
          if \<not> list_ex hit (od_delegations db)
          then (db, Inl (app_error_new NotFound rid ''delegation not found''))
          else (audit_mutation env org (ra_user user) ''grant.delegate.revoke'' ''permission_delegation''
                  (grant_public env ''PermissionDelegation'' i) (json_object [])
                  (bump_policy org (db\<lparr>od_delegations :=
                     map (\<lambda>d. if hit d then d\<lparr>dg_revoked := Some now\<rparr> else d) (od_delegations db)\<rparr>)), Inr i))"

section \<open>The walk up the team hierarchy\<close>

inductive ancestor_or_self :: "org_db \<Rightarrow> uuid \<Rightarrow> uuid \<Rightarrow> uuid \<Rightarrow> bool" for db org t where
  self: "ancestor_or_self db org t t"
| up: "ancestor_or_self db org t x \<Longrightarrow> team_parent db org x = Some y \<Longrightarrow> ancestor_or_self db org t y"

lemma ancestor_trans:
  assumes "ancestor_or_self db org x y" "ancestor_or_self db org t x"
  shows "ancestor_or_self db org t y"
  using assms by (induction rule: ancestor_or_self.induct) (auto intro: ancestor_or_self.up)

lemma ancestor_step:
  "ancestor_or_self db org t x \<longleftrightarrow> x = t \<or> (\<exists>p. team_parent db org t = Some p \<and> ancestor_or_self db org p x)"
proof
  assume "ancestor_or_self db org t x"
  then show "x = t \<or> (\<exists>p. team_parent db org t = Some p \<and> ancestor_or_self db org p x)"
    by (induction rule: ancestor_or_self.induct) (auto intro: ancestor_or_self.intros)
next
  assume "x = t \<or> (\<exists>p. team_parent db org t = Some p \<and> ancestor_or_self db org p x)"
  then show "ancestor_or_self db org t x"
    using ancestor_trans ancestor_or_self.intros by blast
qed

definition lineage :: "org_db \<Rightarrow> uuid \<Rightarrow> uuid option \<Rightarrow> uuid set" where
  "lineage db org cur = {x. \<exists>t. cur = Some t \<and> ancestor_or_self db org t x}"

lemma lineage_None [simp]: "lineage db org None = {}"
  by (simp add: lineage_def)

lemma lineage_Some: "lineage db org (Some t) = insert t (lineage db org (team_parent db org t))"
  using ancestor_step [of db org t] by (auto simp: lineage_def)

lemma lineage_closed:
  assumes "\<And>v p. v \<in> V \<Longrightarrow> team_parent db org v = Some p \<Longrightarrow> p \<in> V" "t \<in> V"
  shows "lineage db org (Some t) \<subseteq> V"
proof -
  have "x \<in> V" if "ancestor_or_self db org t x" for x
    using that by (induction rule: ancestor_or_self.induct) (use assms in auto)
  then show ?thesis by (auto simp: lineage_def)
qed

lemma walk_teams_set:
  assumes "\<And>v p. v \<in> set visited \<Longrightarrow> team_parent db org v = Some p \<Longrightarrow> p \<in> set visited \<or> cursor = Some p"
  shows "(\<Union>v \<in> set visited. set (team_statements db org v)) \<union> set (walk_teams db org cursor visited) =
    (\<Union>v \<in> set visited \<union> lineage db org cursor. set (team_statements db org v))"
  using assms
proof (induction db org cursor visited rule: walk_teams.induct)
  case (2 db org tid visited)
  show ?case
  proof (cases "tid \<in> set visited")
    case True
    with 2(2) have "lineage db org (Some tid) \<subseteq> set visited" by (intro lineage_closed) auto
    with True show ?thesis by auto
  next
    case False
    have "(\<Union>v \<in> set (tid # visited). set (team_statements db org v)) \<union>
        set (walk_teams db org (team_parent db org tid) (tid # visited)) =
        (\<Union>v \<in> set (tid # visited) \<union> lineage db org (team_parent db org tid). set (team_statements db org v))"
      by (rule 2(1) [OF False]) (use 2(2) in auto)
    with False show ?thesis by (simp add: lineage_Some Un_ac)
  qed
qed simp

lemma inherited_statements_set:
  "set (inherited_statements db org cursor) = (\<Union>t \<in> lineage db org cursor. set (team_statements db org t))"
  using walk_teams_set [of "[]" db org cursor] by (simp add: inherited_statements_def)

section \<open>What the loaders return\<close>

lemma fetch_membership_Inr:
  assumes "fetch_membership db org user rid = Inr m"
  shows "m \<in> set (od_memberships db) \<and> mb_org m = org \<and> mb_user m = user \<and> mb_revoked m = None \<and> mb_status m = ''active''"
  using assms by (auto simp: fetch_membership_def find_Some_iff split: option.splits if_splits)

text \<open>
  C10: The principal of the core service is exactly what the tables say: an active, unrevoked
  membership of the user, the system role of that membership, and the statements of its custom
  role, of every team on the chain of parents from its team (each once, also when the chain runs
  into a cycle, and the walk always ends), and of every delegation to it that is neither revoked
  nor expired.
\<close>

theorem core_principal_exact:
  assumes "core_load_principal pc now db org user rid = Inr (p, v, mid)"
  shows "\<exists>m \<in> set (od_memberships db). mb_org m = org \<and> mb_user m = user \<and> mb_revoked m = None \<and>
    mb_status m = ''active'' \<and> v = mb_policy_version m \<and> mid = mb_id m \<and> roles p = role_list (mb_role m) \<and>
    set (statements p) = set (core_role_statements pc db org (mb_role_id m)) \<union>
      (\<Union>t \<in> {x. \<exists>t. mb_team m = Some t \<and> ancestor_or_self db org t x}. set (team_statements db org t)) \<union>
      {s. \<exists>d \<in> set (od_delegations db). live_delegation now org mid d \<and>
         s = \<lparr>st_effect = EffectAllow, st_permission = dg_permission d, st_scope = scope_of (dg_scope d),
              st_conditions = []\<rparr>}"
proof -
  from assms obtain m where m: "fetch_membership db org user rid = Inr m"
    and eqs: "v = mb_policy_version m" "mid = mb_id m" "roles p = role_list (mb_role m)"
      "statements p = core_role_statements pc db org (mb_role_id m) @ inherited_statements db org (mb_team m) @
         delegated_statements now db org mid"
    by (auto simp: core_load_principal_def and_then_Inr)
  have "set (delegated_statements now db org mid) = {s. \<exists>d \<in> set (od_delegations db). live_delegation now org mid d \<and>
         s = \<lparr>st_effect = EffectAllow, st_permission = dg_permission d, st_scope = scope_of (dg_scope d),
              st_conditions = []\<rparr>}"
    by (auto simp: delegated_statements_def)
  then show ?thesis
    using fetch_membership_Inr [OF m] eqs
    by (intro bexI [of _ m]) (simp_all add: inherited_statements_set lineage_def Un_assoc)
qed

lemma core_load_Inr:
  "core_load_principal pc now db org user rid = Inr (p, v, mid) \<longleftrightarrow>
     (\<exists>m. fetch_membership db org user rid = Inr m \<and> v = mb_policy_version m \<and> mid = mb_id m \<and>
        p = \<lparr>roles = role_list (mb_role m), statements = core_role_statements pc db org (mb_role_id m) @
               inherited_statements db org (mb_team m) @ delegated_statements now db org mid\<rparr>)"
  by (auto simp: core_load_principal_def and_then_Inr)

lemma team_statement_in:
  assumes "g \<in> set (od_inherit db)" "ig_org g = org"
  shows "plain_statement (ig_permission g) (ig_effect g) (ig_scope g) \<in> set (team_statements db org (ig_team g))"
  using assms by (auto simp: team_statements_def)

lemma inherited_deny:
  assumes "g \<in> set (od_inherit db)" "ig_org g = org" "ig_effect g = ''deny''" "ancestor_or_self db org t (ig_team g)"
    and "set (inherited_statements db org (Some t)) \<subseteq> set (statements p)"
  shows "denied p (ig_permission g)"
proof -
  have "plain_statement (ig_permission g) (ig_effect g) (ig_scope g) \<in> set (inherited_statements db org (Some t))"
    unfolding inherited_statements_set lineage_def using team_statement_in [OF assms(1,2)] assms(4) by auto
  with assms(3,5) show ?thesis by (force simp: denied_def plain_statement_def effect_of_def)
qed

text \<open>
  C34: A deny on a team binds every member below it in the core and in the finance service: when
  the team of an active member, or any team above it, has an inherited deny of a permission, both
  services deny that permission to the member at every scope and in every context, whatever the
  roles, conditions and delegations.
\<close>

theorem inherited_deny_enforced:
  assumes "fetch_membership db org user rid = Inr m" "mb_team m = Some t"
    and "g \<in> set (od_inherit db)" "ig_org g = org" "ig_effect g = ''deny''" "ancestor_or_self db org t (ig_team g)"
  shows "\<exists>p v mid s. core_load_principal pc now db org user rid = Inr (p, v, mid) \<and>
    finance_load_membership_scope now db org user rid = Inr s \<and>
    dd_decision (decide_with_context pt p (ig_permission g) sc ctx) = Deny \<and>
    dd_decision (decide_with_context pt (ms_principal s) (ig_permission g) sc ctx) = Deny"
proof -
  let ?p = "\<lparr>roles = role_list (mb_role m), statements = core_role_statements pc db org (mb_role_id m) @
      inherited_statements db org (mb_team m) @ delegated_statements now db org (mb_id m)\<rparr>"
  let ?q = "\<lparr>roles = role_list (mb_role m), statements = service_role_statements db org (mb_role_id m) @
      inherited_statements db org (mb_team m) @ delegated_statements now db org (mb_id m)\<rparr>"
  have "denied ?p (ig_permission g)" "denied ?q (ig_permission g)"
    by (rule inherited_deny [OF assms(3-6)]; auto simp: assms(2))+
  then have "dd_decision (decide_with_context pt ?p (ig_permission g) sc ctx) = Deny"
    "dd_decision (decide_with_context pt ?q (ig_permission g) sc ctx) = Deny" by (simp_all add: decide_eq)
  moreover have "core_load_principal pc now db org user rid = Inr (?p, mb_policy_version m, mb_id m)"
    using assms(1) by (simp add: core_load_Inr)
  moreover have "\<exists>s. finance_load_membership_scope now db org user rid = Inr s \<and> ms_principal s = ?q"
    using assms(1) by (simp add: finance_load_membership_scope_def)
  ultimately show ?thesis by metis
qed

text \<open>Without restrictions of the three kinds the loaders agree.\<close>

lemma inherited_statements_Nil:
  assumes "\<And>g. g \<in> set (od_inherit db) \<Longrightarrow> ig_org g = org \<Longrightarrow> ig_team g \<notin> lineage db org cursor"
  shows "inherited_statements db org cursor = []"
proof -
  have "set (inherited_statements db org cursor) = {}"
    unfolding inherited_statements_set using assms by (auto simp: team_statements_def)
  then show ?thesis by simp
qed

lemma loaders_agree:
  assumes "fetch_membership db org user rid = Inr m"
    and "\<And>g. g \<in> set (od_inherit db) \<Longrightarrow> ig_org g = org \<Longrightarrow> ig_team g \<notin> lineage db org (mb_team m)"
    and "\<And>d. d \<in> set (od_delegations db) \<Longrightarrow> \<not> live_delegation now org (mb_id m) d"
    and "\<And>rp. rp \<in> set (role_rows db org (mb_role_id m)) \<Longrightarrow> pc (rp_conditions rp) \<in> {None, Some []}"
  shows "core_load_principal pc now db org user rid = load_principal db org user rid \<and>
    finance_load_membership_scope now db org user rid = load_membership_scope db org user rid"
proof -
  have "core_role_statements pc db org (mb_role_id m) = service_role_statements db org (mb_role_id m)"
    unfolding core_role_statements_def service_role_statements_def plain_statement_def
    using assms(4) by (intro map_cong refl) (fastforce split: option.split)
  moreover have "delegated_statements now db org (mb_id m) = []"
    using assms(3) by (simp add: delegated_statements_def filter_empty_conv)
  ultimately show ?thesis
    using inherited_statements_Nil [OF assms(2)] assms(1)
    by (simp add: core_load_principal_def load_principal_def finance_load_membership_scope_def load_membership_scope_def)
qed

section \<open>What the handlers do\<close>

lemma new_uuid_eq: "new_uuid env db = (ge_gen_uuid env (od_uuids db), db\<lparr>od_uuids := Suc (od_uuids db)\<rparr>)"
  by (simp add: new_uuid_def)

lemma audit_mutation_frame [simp]:
  "od_memberships (audit_mutation env org a ac rt ri md db) = od_memberships db"
  "od_role_permissions (audit_mutation env org a ac rt ri md db) = od_role_permissions db"
  "od_teams (audit_mutation env org a ac rt ri md db) = od_teams db"
  "od_inherit (audit_mutation env org a ac rt ri md db) = od_inherit db"
  "od_delegations (audit_mutation env org a ac rt ri md db) = od_delegations db"
  by (simp_all add: audit_mutation_def new_uuid_def)

lemma bump_policy_frame [simp]:
  "od_role_permissions (bump_policy org db) = od_role_permissions db"
  "od_teams (bump_policy org db) = od_teams db"
  "od_inherit (bump_policy org db) = od_inherit db"
  "od_delegations (bump_policy org db) = od_delegations db"
  by (simp_all add: bump_policy_def)

text \<open>Every live membership of the organisation gets the next policy version.\<close>

definition bumped :: "uuid \<Rightarrow> org_db \<Rightarrow> org_db \<Rightarrow> bool" where
  "bumped org db db' \<longleftrightarrow> od_role_permissions db' = od_role_permissions db \<and> od_teams db' = od_teams db \<and>
     list_all2 (\<lambda>m m'. m' = m\<lparr>mb_policy_version := mb_policy_version m'\<rparr> \<and>
       mb_policy_version m' = mb_policy_version m + (if mb_org m = org \<and> mb_revoked m = None then 1 else 0))
       (od_memberships db) (od_memberships db')"

lemma bumpedI:
  assumes "od_role_permissions db' = od_role_permissions db" "od_teams db' = od_teams db"
    "od_memberships db' = od_memberships (bump_policy org db)"
  shows "bumped org db db'"
  using assms by (auto simp: bumped_def bump_policy_def list_all2_conv_all_nth)

lemma create_inherit_Inr:
  assumes "create_inherit env now user body db = (db', Inr g)"
  shows "bumped (ra_org user) db db' \<and> od_inherit db' = od_inherit db @ [g] \<and> od_delegations db' = od_delegations db \<and>
    ig_org g = ra_org user \<and> ig_permission g = ci_permission_id body \<and> ig_effect g \<in> {''allow'', ''deny''}"
proof -
  from assms obtain t where "check_inherit env now db user body = Inr t"
    by (auto simp: create_inherit_def split: sum.splits)
  moreover from this have "ascii_lower (ci_effect body) \<in> {''allow'', ''deny''}"
    by (auto simp: check_inherit_def Let_def and_then_Inr split: if_splits)
  ultimately show ?thesis
    using assms by (auto simp: create_inherit_def new_uuid_eq Let_def insert_inherit_def bump_policy_def
        split: sum.splits if_splits intro!: bumpedI)
qed

lemma create_delegate_Inr:
  assumes "create_delegate env now user body db = (db', Inr d)"
  shows "bumped (ra_org user) db db' \<and> od_delegations db' = od_delegations db @ [d] \<and> od_inherit db' = od_inherit db \<and>
    dg_org d = ra_org user \<and> dg_permission d = cd_permission_id body \<and> dg_expires d = cd_expires_at body \<and>
    cd_expires_at body > now \<and> dg_revoked d = None"
proof -
  from assms obtain f t where c: "check_delegate env now db user body = Inr (f, t)"
    by (auto simp: create_delegate_def split: sum.splits)
  then have "cd_expires_at body > now"
    by (auto simp: check_delegate_def Let_def and_then_Inr split: if_splits)
  with c assms show ?thesis
    by (auto simp: create_delegate_def new_uuid_eq Let_def insert_delegation_def bump_policy_def
        split: sum.splits if_splits intro!: bumpedI)
qed

lemma revoke_delegate_Inr:
  assumes "revoke_delegate env now user raw db = (db', Inr i)"
  shows "bumped (ra_org user) db db' \<and> od_inherit db' = od_inherit db \<and>
    (\<exists>d \<in> set (od_delegations db). dg_org d = ra_org user \<and> dg_id d = i \<and> dg_revoked d = None) \<and>
    od_delegations db' = map (\<lambda>d. if dg_org d = ra_org user \<and> dg_id d = i \<and> dg_revoked d = None
      then d\<lparr>dg_revoked := Some now\<rparr> else d) (od_delegations db)"
  using assms
  by (auto simp: revoke_delegate_def Let_def bump_policy_def list_ex_iff split: sum.splits if_splits intro!: bumpedI)

lemma handler_errors:
  "create_inherit env now user body db = (db', Inl e) \<Longrightarrow> \<exists>k. db' = db\<lparr>od_uuids := k\<rparr>"
  "create_delegate env now user body' db = (db', Inl e) \<Longrightarrow> \<exists>k. db' = db\<lparr>od_uuids := k\<rparr>"
  "revoke_delegate env now user raw db = (db', Inl e) \<Longrightarrow> \<exists>k. db' = db\<lparr>od_uuids := k\<rparr>"
  by (auto simp: create_inherit_def create_delegate_def revoke_delegate_def new_uuid_eq Let_def
      split: sum.splits if_splits intro: exI [of _ "od_uuids db"])

text \<open>
  What the grant handlers do. A created grant or delegation is appended as requested; a
  delegation is in force exactly until its expiry; a revoked one is never in force again, for
  nobody and at no time. Each success gives every live membership of the organisation the next
  policy version and touches no other organisation, role or team; a failure changes no table.
\<close>

theorem grant_handlers_effect:
  "(create_inherit env now user ibody db = (db1, Inr g) \<longrightarrow>
      bumped (ra_org user) db db1 \<and> od_inherit db1 = od_inherit db @ [g] \<and> od_delegations db1 = od_delegations db \<and>
      ig_org g = ra_org user \<and> ig_permission g = ci_permission_id ibody \<and> ig_effect g \<in> {''allow'', ''deny''}) \<and>
   (create_delegate env now user dbody db = (db2, Inr d) \<longrightarrow>
      bumped (ra_org user) db db2 \<and> od_delegations db2 = od_delegations db @ [d] \<and> od_inherit db2 = od_inherit db \<and>
      dg_permission d = cd_permission_id dbody \<and> now < cd_expires_at dbody \<and>
      (\<forall>t. live_delegation t (ra_org user) (dg_to d) d \<longleftrightarrow> t < cd_expires_at dbody)) \<and>
   (revoke_delegate env now user raw db = (db3, Inr i) \<longrightarrow>
      bumped (ra_org user) db db3 \<and> od_inherit db3 = od_inherit db \<and>
      (\<forall>d' \<in> set (od_delegations db3). dg_org d' = ra_org user \<and> dg_id d' = i \<longrightarrow>
         (\<forall>t m. \<not> live_delegation t (ra_org user) m d'))) \<and>
   (\<forall>e. create_inherit env now user ibody db = (db1, Inl e) \<or> create_delegate env now user dbody db = (db1, Inl e) \<or>
      revoke_delegate env now user raw db = (db1, Inl e) \<longrightarrow> (\<exists>k. db1 = db\<lparr>od_uuids := k\<rparr>))"
proof (intro conjI impI allI)
  assume r: "revoke_delegate env now user raw db = (db3, Inr i)"
  note rev = revoke_delegate_Inr [OF r]
  show "\<forall>d' \<in> set (od_delegations db3). dg_org d' = ra_org user \<and> dg_id d' = i \<longrightarrow>
      (\<forall>t m. \<not> live_delegation t (ra_org user) m d')"
    using rev by (auto simp: live_delegation_def split: if_splits)
  show "bumped (ra_org user) db db3" "od_inherit db3 = od_inherit db" using rev by simp_all
next
  assume c: "create_delegate env now user dbody db = (db2, Inr d)"
  note cd = create_delegate_Inr [OF c]
  show "bumped (ra_org user) db db2" "od_delegations db2 = od_delegations db @ [d]" "od_inherit db2 = od_inherit db"
    "dg_permission d = cd_permission_id dbody" "now < cd_expires_at dbody" using cd by simp_all
  show "live_delegation t (ra_org user) (dg_to d) d \<longleftrightarrow> t < cd_expires_at dbody" for t
    using cd by (simp add: live_delegation_def)
next
  fix e
  assume "create_inherit env now user ibody db = (db1, Inl e) \<or> create_delegate env now user dbody db = (db1, Inl e) \<or>
      revoke_delegate env now user raw db = (db1, Inl e)"
  then show "\<exists>k. db1 = db\<lparr>od_uuids := k\<rparr>" by (elim disjE) (rule handler_errors; assumption)+
qed (use create_inherit_Inr [of env now user ibody db db1 g] in simp_all)

section \<open>A delegation needs no permission but the right to delegate\<close>

lemma fetch_membership_bump:
  assumes "od_memberships db' = od_memberships (bump_policy org db)" "fetch_membership db org user rid = Inr m"
  shows "fetch_membership db' org user rid = Inr (m\<lparr>mb_policy_version := mb_policy_version m + 1\<rparr>)"
proof -
  let ?P = "\<lambda>m. mb_org m = org \<and> mb_user m = user \<and> mb_revoked m = None"
  let ?f = "\<lambda>m. if mb_org m = org \<and> mb_revoked m = None then m\<lparr>mb_policy_version := mb_policy_version m + 1\<rparr> else m"
  have "find ?P (map ?f ms) = map_option ?f (find ?P ms)" for ms by (induction ms) auto
  then have "find ?P (od_memberships db') = map_option ?f (find ?P (od_memberships db))"
    using assms(1) by (simp add: bump_policy_def)
  moreover have "find ?P (od_memberships db) = Some m" "mb_status m = ''active''"
    using assms(2) by (auto simp: fetch_membership_def split: option.splits if_splits)
  moreover have "mb_org m = org \<and> mb_revoked m = None" using fetch_membership_Inr [OF assms(2)] by simp
  ultimately show ?thesis by (simp add: fetch_membership_def)
qed

lemma same_teams_statements:
  assumes "od_teams db' = od_teams db" "od_inherit db' = od_inherit db"
  shows "inherited_statements db' org cursor = inherited_statements db org cursor"
proof -
  have "walk_teams db' org cursor visited = walk_teams db org cursor visited" for visited
    using assms
    by (induction db org cursor visited rule: walk_teams.induct) (auto simp: team_statements_def team_parent_def)
  then show ?thesis by (simp add: inherited_statements_def)
qed

lemma find_some_if: "x \<in> set xs \<Longrightarrow> P x \<Longrightarrow> \<exists>y. find P xs = Some y \<and> P y"
  by (induction xs) auto

lemma check_delegate_self:
  assumes "authorize env now db user ''workspace.grant.delegate'' = Inr p"
    and "fetch_membership db (ra_org user) (ra_user user) rid = Inr m" "ra_membership user = mb_id m"
    and "\<And>u. ge_parse_uuid env (ge_show_uuid env u) = Inr u"
    and "is_ok (validate_permission_id (cd_permission_id body))" "now < cd_expires_at body"
    and "cd_to_membership_id body = grant_public env ''Membership'' (mb_id m)"
  shows "\<exists>f t. check_delegate env now db user body = Inr (f, t) \<and> mb_id t = mb_id m"
proof -
  have m: "m \<in> set (od_memberships db)" "mb_org m = ra_org user" "mb_revoked m = None"
    using fetch_membership_Inr [OF assms(2)] by simp_all
  obtain t where t: "find (\<lambda>q. mb_org q = ra_org user \<and> mb_id q = mb_id m \<and> mb_revoked q = None) (od_memberships db) = Some t"
    "mb_id t = mb_id m" using find_some_if [OF m(1), of "\<lambda>q. mb_org q = ra_org user \<and> mb_id q = mb_id m \<and> mb_revoked q = None"] m by auto
  obtain f where f: "find (\<lambda>q. mb_id q = mb_id m \<and> mb_org q = ra_org user) (od_memberships db) = Some f"
    using find_some_if [OF m(1), of "\<lambda>q. mb_id q = mb_id m \<and> mb_org q = ra_org user"] m by auto
  have "public_id_from_str (ge_parse_uuid env) (grant_public env ''Membership'' (mb_id m)) =
      Inr (public_id_new ''Membership'' (mb_id m))"
    unfolding grant_public_def by (rule parse_printed_id) (simp_all add: assms(4) id_kinds_def)
  then have "parse_kind env ''Membership'' (cd_to_membership_id body) (ra_request_id user) a b = Inr (mb_id m)" for a b
    by (simp add: parse_kind_def assms(7) public_id_new_def)
  moreover obtain u where "validate_permission_id (cd_permission_id body) = Inr u"
    using assms(5) by (cases "validate_permission_id (cd_permission_id body)") auto
  ultimately show ?thesis using assms(1,3,6) t f by (simp add: check_delegate_def Let_def)
qed

lemma delegated_statements_snoc:
  "od_delegations db' = od_delegations db @ [d] \<Longrightarrow>
   delegated_statements now db' org m = delegated_statements now db org m @
     (if live_delegation now org m d then [\<lparr>st_effect = EffectAllow, st_permission = dg_permission d,
        st_scope = scope_of (dg_scope d), st_conditions = []\<rparr>] else [])"
  by (simp add: delegated_statements_def)

lemma allow_statement_allows:
  assumes "\<lparr>st_effect = EffectAllow, st_permission = x, st_scope = Organization, st_conditions = []\<rparr> \<in> set (statements p)"
    and "\<not> denied p x"
  shows "dd_decision (decide_with_context pt p x sc ctx) = Allow"
proof -
  have "granted pt p x sc ctx"
    unfolding granted_def by (rule bexI [OF _ assms(1)]) (simp add: grants_def le_Organization)
  with assms(2) show ?thesis by (simp add: decide_Allow)
qed

lemma create_delegate_ok:
  assumes "check_delegate env now db user body = Inr (f, t)"
    and "\<And>d. d \<in> set (od_delegations db) \<Longrightarrow> dg_id d \<noteq> ge_gen_uuid env (od_uuids db) \<and>
           dg_public_id d \<noteq> grant_public env ''PermissionDelegation'' (ge_gen_uuid env (od_uuids db))"
  shows "\<exists>db' d. create_delegate env now user body db = (db', Inr d) \<and> dg_to d = mb_id t \<and> dg_scope d = cd_scope body \<and>
    od_memberships db' = od_memberships (bump_policy (ra_org user) db)"
proof -
  have "\<not> list_ex (\<lambda>h. dg_id h = ge_gen_uuid env (od_uuids db) \<or> dg_org h = ra_org user \<and>
      dg_public_id h = grant_public env ''PermissionDelegation'' (ge_gen_uuid env (od_uuids db))) (od_delegations db)"
    using assms(2) by (auto simp: list_ex_iff)
  then show ?thesis
    by (simp add: create_delegate_def assms(1) new_uuid_eq Let_def insert_delegation_def) (simp add: bump_policy_def)
qed

lemma core_load_after_delegation:
  assumes "core_load_principal pc now db org user rid = Inr (p, v, mid)"
    and "bumped org db db'" "od_memberships db' = od_memberships (bump_policy org db)"
    and "od_delegations db' = od_delegations db @ [d]" "od_inherit db' = od_inherit db" "live_delegation now org mid d"
  shows "core_load_principal pc now db' org user rid = Inr (\<lparr>roles = roles p, statements = statements p @
    [\<lparr>st_effect = EffectAllow, st_permission = dg_permission d, st_scope = scope_of (dg_scope d), st_conditions = []\<rparr>]\<rparr>,
    v + 1, mid)"
proof -
  from assms(1) obtain m where m: "fetch_membership db org user rid = Inr m" "v = mb_policy_version m" "mid = mb_id m"
    and p: "p = \<lparr>roles = role_list (mb_role m), statements = core_role_statements pc db org (mb_role_id m) @
        inherited_statements db org (mb_team m) @ delegated_statements now db org mid\<rparr>"
    by (auto simp: core_load_Inr)
  have "od_role_permissions db' = od_role_permissions db" using assms(2) by (simp add: bumped_def)
  then have "core_role_statements pc db' org r = core_role_statements pc db org r" for r
    unfolding core_role_statements_def role_rows_def by (cases r) simp_all
  moreover have "inherited_statements db' org r = inherited_statements db org r" for r
    using assms(2,5) by (intro same_teams_statements) (simp_all add: bumped_def)
  ultimately show ?thesis
    using fetch_membership_bump [OF assms(3) m(1)] m(2,3) delegated_statements_snoc [OF assms(4), of now org mid] assms(6)
    unfolding core_load_Inr by (intro exI [of _ "m\<lparr>mb_policy_version := mb_policy_version m + 1\<rparr>"]) (simp add: p)
qed

text \<open>
  C35: A member whose only permission is the right to delegate can give itself every other one. The
  handler does not compare the delegated permission with those of the caller, and the target may
  be the caller's own membership: after the call the member is allowed the permission at every
  scope and in every context, unless it was explicitly denied to it before.
\<close>

theorem delegation_escalates:
  assumes "core_load_principal (ge_conditions env) now db (ra_org user) (ra_user user) (ra_request_id user) = Inr (p, v, mid)"
    and "ra_api_key_scopes user = None" "is_allowed (ge_time env) p ''workspace.grant.delegate''" "ra_membership user = mid"
    and "\<And>u. ge_parse_uuid env (ge_show_uuid env u) = Inr u"
    and "is_ok (validate_permission_id x)" "now < expires" "\<not> denied p x"
    and "\<And>d. d \<in> set (od_delegations db) \<Longrightarrow> dg_id d \<noteq> ge_gen_uuid env (od_uuids db) \<and>
           dg_public_id d \<noteq> grant_public env ''PermissionDelegation'' (ge_gen_uuid env (od_uuids db))"
  shows "\<exists>db' d p'.
     create_delegate env now user \<lparr>cd_to_membership_id = grant_public env ''Membership'' mid,
       cd_permission_id = x, cd_scope = ''organization'', cd_expires_at = expires\<rparr> db = (db', Inr d) \<and>
     core_load_principal (ge_conditions env) now db' (ra_org user) (ra_user user) (ra_request_id user) = Inr (p', v + 1, mid) \<and>
     dd_decision (decide_with_context (ge_time env) p' x sc ctx) = Allow"
proof -
  let ?b = "\<lparr>cd_to_membership_id = grant_public env ''Membership'' mid, cd_permission_id = x,
    cd_scope = ''organization'', cd_expires_at = expires\<rparr>"
  let ?new = "\<lparr>st_effect = EffectAllow, st_permission = x, st_scope = Organization, st_conditions = []\<rparr>"
  from assms(1) obtain m where m: "fetch_membership db (ra_org user) (ra_user user) (ra_request_id user) = Inr m"
    and mid: "mid = mb_id m" by (auto simp: core_load_Inr)
  have "authorize env now db user ''workspace.grant.delegate'' = Inr p"
    using assms(1-3) by (simp add: authorize_def require_perm_def)
  from check_delegate_self [OF this m _ assms(5), of ?b] assms(4,6,7) mid obtain f t where
    chk: "check_delegate env now db user ?b = Inr (f, t)" "mb_id t = mid" by auto
  from create_delegate_ok [OF chk(1) assms(9)] obtain db' d where
    c: "create_delegate env now user ?b db = (db', Inr d)" "dg_to d = mid" "dg_scope d = ''organization''"
      "od_memberships db' = od_memberships (bump_policy (ra_org user) db)" by (auto simp: chk(2))
  note cd = create_delegate_Inr [OF c(1)]
  have live: "live_delegation now (ra_org user) mid d" using cd c(2) by (simp add: live_delegation_def)
  let ?p' = "\<lparr>roles = roles p, statements = statements p @ [?new]\<rparr>"
  have "core_load_principal (ge_conditions env) now db' (ra_org user) (ra_user user) (ra_request_id user) = Inr (?p', v + 1, mid)"
    using core_load_after_delegation [OF assms(1) _ c(4) _ _ live] cd c(3)
    by (simp add: scope_of_def scope_parse_def)
  moreover have "dd_decision (decide_with_context (ge_time env) ?p' x sc ctx) = Allow"
    by (rule allow_statement_allows) (use assms(8) in \<open>auto simp: denied_def\<close>)
  ultimately show ?thesis using c(1) by blast
qed

section \<open>Restrictions the services do not see\<close>

definition demo_member :: membership where
  "demo_member = \<lparr>mb_id = 4, mb_org = 1, mb_user = 3, mb_public_id = ''mem_4'', mb_role = ''custom'', mb_policy_version = 1,
     mb_role_id = Some 9, mb_status = ''active'', mb_team = Some 20, mb_department = None, mb_revoked = None\<rparr>"

definition demo_grant_row :: "string \<Rightarrow> json \<Rightarrow> role_permission" where
  "demo_grant_row x c = \<lparr>rp_org = 1, rp_role = 9, rp_permission = x, rp_effect = ''allow'', rp_scope = ''organization'',
     rp_conditions = c\<rparr>"

definition demo_org_db :: org_db where
  "demo_org_db = \<lparr>od_memberships = [demo_member],
     od_role_permissions = [demo_grant_row ''finance.journal.post'' JNull, demo_grant_row ''hr.payroll.read'' (JStr ''office''),
       demo_grant_row ''workspace.grant.delegate'' JNull],
     od_teams = [\<lparr>tm_id = 20, tm_org = 1, tm_public_id = ''tem_20'', tm_parent = Some 21\<rparr>,
       \<lparr>tm_id = 21, tm_org = 1, tm_public_id = ''tem_21'', tm_parent = Some 20\<rparr>],
     od_inherit = [\<lparr>ig_id = 30, ig_org = 1, ig_public_id = ''pig_30'', ig_team = 21, ig_permission = ''finance.journal.post'',
       ig_effect = ''deny'', ig_scope = ''organization'', ig_created_by = 5, ig_created_at = 0\<rparr>],
     od_delegations = [], od_audit = [], od_uuids = 0\<rparr>"

fun demo_conditions :: condition_parser where
  "demo_conditions (JStr s) = Some [Location [s]]"
| "demo_conditions j = Some []"

lemmas demo_org_defs = demo_org_db_def demo_member_def demo_grant_row_def

lemma demo_fetch: "fetch_membership demo_org_db 1 3 rid = Inr demo_member"
  by (simp add: fetch_membership_def demo_org_defs)

definition demo_principal :: principal where
  "demo_principal = \<lparr>roles = [], statements =
     [\<lparr>st_effect = EffectAllow, st_permission = ''finance.journal.post'', st_scope = Organization, st_conditions = []\<rparr>,
      \<lparr>st_effect = EffectAllow, st_permission = ''hr.payroll.read'', st_scope = Organization,
       st_conditions = [Location [''office'']]\<rparr>,
      \<lparr>st_effect = EffectAllow, st_permission = ''workspace.grant.delegate'', st_scope = Organization, st_conditions = []\<rparr>,
      \<lparr>st_effect = EffectDeny, st_permission = ''finance.journal.post'', st_scope = Organization, st_conditions = []\<rparr>]\<rparr>"

lemma demo_core_load: "core_load_principal demo_conditions now demo_org_db 1 3 rid = Inr (demo_principal, 1, 4)"
  using demo_fetch [of rid]
  by (simp add: core_load_Inr demo_principal_def role_list_def role_parse_def core_role_statements_def role_rows_def
      inherited_statements_def team_statements_def team_parent_def delegated_statements_def plain_statement_def
      effect_of_def scope_of_def scope_parse_def demo_org_defs)

text \<open>
  The services other than core and finance take no notice of inherited team grants, of
  delegations and of the conditions of role grants: the principal they load is the same whatever
  these tables hold. So a permission that is denied by a team, or granted under a condition that
  does not hold, is denied by the core service and allowed by them.
\<close>

theorem services_ignore_restrictions:
  "load_membership_scope (db\<lparr>od_inherit := gs, od_delegations := ds,
     od_role_permissions := map (\<lambda>rp. rp\<lparr>rp_conditions := f rp\<rparr>) (od_role_permissions db)\<rparr>) org user rid =
   load_membership_scope db org user rid \<and>
   (\<exists>p v mid s. core_load_principal demo_conditions 0 demo_org_db 1 3 rid = Inr (p, v, mid) \<and>
     load_membership_scope demo_org_db 1 3 rid = Inr s \<and>
     dd_decision (decide pt p ''finance.journal.post'') = Deny \<and>
     dd_decision (decide pt (ms_principal s) ''finance.journal.post'') = Allow \<and>
     dd_decision (decide pt p ''hr.payroll.read'') = Deny \<and>
     dd_decision (decide pt (ms_principal s) ''hr.payroll.read'') = Allow)"
proof
  let ?db = "db\<lparr>od_inherit := gs, od_delegations := ds,
     od_role_permissions := map (\<lambda>rp. rp\<lparr>rp_conditions := f rp\<rparr>) (od_role_permissions db)\<rparr>"
  have "fetch_membership ?db org user rid = fetch_membership db org user rid" by (simp add: fetch_membership_def)
  moreover have "service_role_statements ?db org r = service_role_statements db org r" for r
    by (cases r) (simp_all add: service_role_statements_def role_rows_def filter_map comp_def)
  ultimately show "load_membership_scope ?db org user rid = load_membership_scope db org user rid"
    by (simp add: load_membership_scope_def)
  have s: "\<exists>s. load_membership_scope demo_org_db 1 3 rid = Inr s \<and> ms_principal s = \<lparr>roles = [], statements =
      map (\<lambda>x. plain_statement x ''allow'' ''organization'')
        [''finance.journal.post'', ''hr.payroll.read'', ''workspace.grant.delegate'']\<rparr>"
    using demo_fetch [of rid]
    by (simp add: load_membership_scope_def role_list_def role_parse_def service_role_statements_def role_rows_def demo_org_defs)
  then obtain s where s: "load_membership_scope demo_org_db 1 3 rid = Inr s" "ms_principal s = \<lparr>roles = [], statements =
      map (\<lambda>x. plain_statement x ''allow'' ''organization'')
        [''finance.journal.post'', ''hr.payroll.read'', ''workspace.grant.delegate'']\<rparr>" by blast
  note ev = decide_def decide_with_context_def demo_principal_def plain_statement_def effect_of_def scope_of_def
    scope_parse_def conditions_match_def match_location_def ec_default_def
  have "dd_decision (decide pt demo_principal ''finance.journal.post'') = Deny"
    "dd_decision (decide pt demo_principal ''hr.payroll.read'') = Deny"
    "dd_decision (decide pt (ms_principal s) ''finance.journal.post'') = Allow"
    "dd_decision (decide pt (ms_principal s) ''hr.payroll.read'') = Allow" by (simp_all add: ev s(2))
  then show "\<exists>p v mid s. core_load_principal demo_conditions 0 demo_org_db 1 3 rid = Inr (p, v, mid) \<and>
     load_membership_scope demo_org_db 1 3 rid = Inr s \<and>
     dd_decision (decide pt p ''finance.journal.post'') = Deny \<and>
     dd_decision (decide pt (ms_principal s) ''finance.journal.post'') = Allow \<and>
     dd_decision (decide pt p ''hr.payroll.read'') = Deny \<and>
     dd_decision (decide pt (ms_principal s) ''hr.payroll.read'') = Allow"
    using demo_core_load s(1) by blast
qed

section \<open>Concrete instances\<close>

definition demo_grant_env :: grant_env where
  "demo_grant_env = \<lparr>ge_show_uuid = bits_of_uuid, ge_parse_uuid = uuid_of_bits, ge_gen_uuid = of_nat,
     ge_show_time = (\<lambda>t. ''t''), ge_show_unique = ''unique'', ge_conditions = demo_conditions, ge_time = (\<lambda>f s. None)\<rparr>"

definition demo_caller :: request_auth where
  "demo_caller = \<lparr>ra_org = 1, ra_user = 3, ra_request_id = ''r'', ra_membership = 4, ra_api_key_scopes = None\<rparr>"

theorem core_principal_exact_witness:
  "\<exists>m. m \<in> set (od_memberships demo_org_db) \<and> mb_status m = ''active'' \<and>
     roles demo_principal = role_list (mb_role m)"
  using core_principal_exact [OF demo_core_load [of 0 "''r''"]] by metis

lemma demo_ancestor: "ancestor_or_self demo_org_db 1 20 21"
  by (rule ancestor_or_self.up [OF ancestor_or_self.self]) (simp add: team_parent_def demo_org_db_def)

theorem inherited_deny_enforced_witness:
  "dd_decision (decide_with_context (\<lambda>f s. None) demo_principal ''finance.journal.post'' Own ec_default) = Deny"
proof -
  let ?g = "\<lparr>ig_id = 30, ig_org = 1, ig_public_id = ''pig_30'', ig_team = 21, ig_permission = ''finance.journal.post'',
       ig_effect = ''deny'', ig_scope = ''organization'', ig_created_by = 5, ig_created_at = 0\<rparr>"
  have "mb_team demo_member = Some 20" "?g \<in> set (od_inherit demo_org_db)" "ig_org ?g = 1" "ig_effect ?g = ''deny''"
    "ancestor_or_self demo_org_db 1 20 (ig_team ?g)" by (simp_all add: demo_org_defs demo_ancestor [unfolded demo_org_defs])
  from inherited_deny_enforced [OF demo_fetch [of "''r''"] this, of demo_conditions 0 "\<lambda>f s. None" Own ec_default]
  show ?thesis by (auto simp: demo_core_load)
qed

lemma demo_can_delegate: "is_allowed (ge_time demo_grant_env) demo_principal ''workspace.grant.delegate''"
  "\<not> denied demo_principal ''finance.payment.void''" "is_ok (validate_permission_id ''finance.payment.void'')"
  by (simp_all add: is_allowed_iff decision_defs demo_principal_def validate_permission_id_def le_Organization)

theorem delegation_escalates_witness:
  "\<exists>db' d p'. create_delegate demo_grant_env 0 demo_caller \<lparr>cd_to_membership_id = grant_public demo_grant_env ''Membership'' 4,
       cd_permission_id = ''finance.payment.void'', cd_scope = ''organization'', cd_expires_at = 9\<rparr> demo_org_db = (db', Inr d) \<and>
     core_load_principal demo_conditions 0 db' 1 3 ''r'' = Inr (p', 2, 4) \<and>
     dd_decision (decide_with_context (\<lambda>f s. None) p' ''finance.payment.void'' Organization ec_default) = Allow"
proof -
  have c: "core_load_principal (ge_conditions demo_grant_env) 0 demo_org_db (ra_org demo_caller) (ra_user demo_caller)
      (ra_request_id demo_caller) = Inr (demo_principal, 1, 4)"
    by (simp add: demo_grant_env_def demo_caller_def demo_core_load)
  have o: "ra_api_key_scopes demo_caller = None" "ra_membership demo_caller = 4" "od_delegations demo_org_db = []"
    by (simp_all add: demo_caller_def demo_org_db_def)
  have u: "ge_parse_uuid demo_grant_env (ge_show_uuid demo_grant_env u) = Inr u" for u
    by (simp add: demo_grant_env_def uuid_bits_roundtrip)
  from delegation_escalates [OF c o(1) demo_can_delegate(1) o(2) u demo_can_delegate(3), of 9 Organization ec_default]
    demo_can_delegate(2) o(3)
  show ?thesis by (simp add: demo_grant_env_def demo_caller_def)
qed

theorem grant_handlers_effect_witness:
  "\<exists>db' d. create_delegate demo_grant_env 0 demo_caller \<lparr>cd_to_membership_id = grant_public demo_grant_env ''Membership'' 4,
       cd_permission_id = ''finance.payment.void'', cd_scope = ''organization'', cd_expires_at = 9\<rparr> demo_org_db = (db', Inr d) \<and>
     bumped 1 demo_org_db db' \<and> od_delegations db' = [d] \<and> live_delegation 8 1 (dg_to d) d \<and> \<not> live_delegation 9 1 (dg_to d) d"
proof -
  let ?b = "\<lparr>cd_to_membership_id = grant_public demo_grant_env ''Membership'' 4,
       cd_permission_id = ''finance.payment.void'', cd_scope = ''organization'', cd_expires_at = 9\<rparr>"
  have a: "authorize demo_grant_env 0 demo_org_db demo_caller ''workspace.grant.delegate'' = Inr demo_principal"
    using demo_can_delegate(1) by (simp add: authorize_def demo_caller_def demo_grant_env_def demo_core_load require_perm_def)
  have m: "fetch_membership demo_org_db (ra_org demo_caller) (ra_user demo_caller) ''r'' = Inr demo_member"
    "ra_membership demo_caller = mb_id demo_member" "ra_org demo_caller = 1" "od_delegations demo_org_db = []" "mb_id demo_member = 4"
    using demo_fetch by (simp_all add: demo_caller_def demo_member_def demo_org_db_def)
  have u: "ge_parse_uuid demo_grant_env (ge_show_uuid demo_grant_env u) = Inr u" for u
    by (simp add: demo_grant_env_def uuid_bits_roundtrip)
  from check_delegate_self [OF a m(1,2) u, of ?b] obtain f t where
    "check_delegate demo_grant_env 0 demo_org_db demo_caller ?b = Inr (f, t)" using demo_can_delegate(3) m(5) by auto
  from create_delegate_ok [OF this] m(4) obtain db' d where c: "create_delegate demo_grant_env 0 demo_caller ?b demo_org_db = (db', Inr d)"
    by auto
  then have "bumped 1 demo_org_db db'" "od_delegations db' = [d]" "live_delegation 8 1 (dg_to d) d" "\<not> live_delegation 9 1 (dg_to d) d"
    using grant_handlers_effect [of demo_grant_env 0 demo_caller undefined demo_org_db undefined undefined ?b db' d]
    by (simp_all add: m(3,4))
  with c show ?thesis by blast
qed

end
