(* ===== verification/Workflow_Service.thy ===== *)
theory Workflow_Service
  imports Workflow_Engine Grants "HOL-Library.AList"
begin

text \<open>
  The handlers of the workflow service: definitions and their versions
  (\<open>handlers/definitions.rs\<close>), instances and triggers (\<open>handlers/instances.rs\<close>), the
  monitor and the bounds (\<open>handlers/monitor.rs\<close>), the dry run (\<open>handlers/simulate.rs\<close>) and
  the idempotency keys (\<open>idempotency.rs\<close>).

  A handler gets the caller, the membership tables and the instant at which it runs, and returns
  the world with the answer. What runs in a transaction is wrapped in \<open>in_tx\<close>, which keeps the
  tables of the start when the body fails; \<open>start_instance\<close> and \<open>ingest_trigger_event\<close> commit
  before they drive the instance. The JSON forms of graphs and answers are made by serde and are
  parameters.
\<close>

section \<open>Requests and answers\<close>

record wf_caller =
  wc_org :: uuid
  wc_actor :: actor
  wc_request_id :: string
  wc_idempotency_header :: "string option"

record version_dto =
  vd_id :: string
  vd_definition_id :: string
  vd_version :: int
  vd_graph :: workflow_graph
  vd_required :: "string list"
  vd_published_at :: "int option"
  vd_published_by :: "string option"

record instance_dto =
  id_id :: string
  id_definition_id :: string
  id_version_id :: string
  id_version_number :: int
  id_status :: string
  id_actor_user_id :: string
  id_temporal_id :: string
  id_step_count :: int
  id_current_node :: "string option"
  id_error :: "string option"
  id_waiting_until :: "int option"
  id_sla_deadline :: "int option"
  id_started_at :: int
  id_completed_at :: "int option"

record wf_service_env =
  wse_engine :: wf_env
  wse_parse_uuid :: "string \<Rightarrow> string + uuid"
  wse_graph_json :: "workflow_graph \<Rightarrow> json"
  wse_graph_of :: "json \<Rightarrow> string + workflow_graph"
  wse_version_json :: "version_dto \<Rightarrow> json"
  wse_version_of :: "json \<Rightarrow> string + version_dto"
  wse_instance_json :: "instance_dto \<Rightarrow> json"
  wse_instance_of :: "json \<Rightarrow> string + instance_dto"

section \<open>Helpers\<close>

definition wf_err :: "error_code \<Rightarrow> string \<Rightarrow> string \<Rightarrow> wf_failure" where
  "wf_err code rid detail = WfError (app_error_new code rid detail)"

definition internal_db :: "wf_service_env \<Rightarrow> string \<Rightarrow> wf_failure" where
  "internal_db env rid = wf_err Internal rid (''db error: '' @ we_show_unique (wse_engine env))"

definition wf_not_found :: "string \<Rightarrow> string \<Rightarrow> wf_failure" where
  "wf_not_found rid what = wf_err NotFound rid (what @ '' not found'')"

definition wf_validation :: "string \<Rightarrow> string \<Rightarrow> wf_failure" where
  "wf_validation rid detail = wf_err ValidationFailed rid detail"

definition wf_parse_public_id :: "wf_service_env \<Rightarrow> id_kind \<Rightarrow> string \<Rightarrow> string \<Rightarrow> wf_failure + uuid" where
  "wf_parse_public_id env kind raw rid =
     (case public_id_from_str (wse_parse_uuid env) raw of
        Inl e \<Rightarrow> Inl (wf_validation rid (''invalid id: '' @ raw))
      | Inr pid \<Rightarrow>
          if pid_kind pid \<noteq> kind then Inl (wf_validation rid (''id '' @ raw @ '' is not a '' @ Public_Ids.prefix kind @ '' id''))
          else Inr (pid_uuid pid))"

definition header_key :: "string option \<Rightarrow> string option" where
  "header_key h = Option.bind h (\<lambda>s. if is_blank s then None else Some (str_trim s))"

definition require_idempotency :: "wf_caller \<Rightarrow> wf_failure + string" where
  "require_idempotency c =
     (case header_key (wc_idempotency_header c) of
        Some k \<Rightarrow> Inr k
      | None \<Rightarrow> Inl (wf_validation (wc_request_id c) ''Idempotency-Key header is required''))"

definition wf_load_principal :: "org_db \<Rightarrow> uuid \<Rightarrow> uuid \<Rightarrow> string \<Rightarrow> wf_failure + principal" where
  "wf_load_principal odb org user rid =
     and_then (map_err WfError (load_principal odb org user rid)) (\<lambda>(p, v, m). Inr p)"

definition wf_authorize :: "wf_service_env \<Rightarrow> org_db \<Rightarrow> wf_caller \<Rightarrow> permission_id \<Rightarrow> wf_failure + principal" where
  "wf_authorize env odb c perm =
     and_then (wf_load_principal odb (wc_org c) (on_behalf_of (wc_actor c)) (wc_request_id c)) (\<lambda>p.
     and_then (map_err WfError (enforce (we_time (wse_engine env)) p perm (wc_request_id c))) (\<lambda>_. Inr p))"

definition creator_can_own ::
  "wf_service_env \<Rightarrow> principal \<Rightarrow> workflow_graph \<Rightarrow> string \<Rightarrow> wf_failure + string list" where
  "creator_can_own env p g rid =
     map_err WfError (enforce_creator_can_own_graph (we_time (wse_engine env)) p g rid)"

definition in_tx :: "(wf_world \<Rightarrow> wf_world \<times> (wf_failure + 'a)) \<Rightarrow> wf_world \<Rightarrow> wf_world \<times> (wf_failure + 'a)" where
  "in_tx f w = (case f w of (w', Inl e) \<Rightarrow> (w'\<lparr>ww_db := ww_db w\<rparr>, Inl e) | (w', Inr x) \<Rightarrow> (w', Inr x))"

definition pure_tx :: "wf_failure + 'a \<Rightarrow> wf_world \<Rightarrow> wf_world \<times> (wf_failure + 'a)" where
  "pure_tx r w = (w, r)"

definition fresh_uuid :: "wf_service_env \<Rightarrow> wf_world \<Rightarrow> wf_world \<times> (wf_failure + uuid)" where
  "fresh_uuid env w =
     (w\<lparr>ww_uuids := Suc (ww_uuids w)\<rparr>, Inr (re_gen_uuid (we_relay (wse_engine env)) (ww_uuids w)))"

definition srv_public :: "wf_service_env \<Rightarrow> id_kind \<Rightarrow> uuid \<Rightarrow> string" where
  "srv_public env kind u = wf_public_id (wse_engine env) kind u"

definition idem_get :: "wf_db \<Rightarrow> uuid \<Rightarrow> string \<Rightarrow> string \<Rightarrow> (int \<times> json) option" where
  "idem_get db org sc key =
     map_option (\<lambda>r. (wk_status r, wk_body r))
       (find (\<lambda>r. wk_org r = org \<and> wk_scope r = sc \<and> wk_key r = key) (wf_idem db))"

definition idem_put ::
  "wf_service_env \<Rightarrow> string \<Rightarrow> uuid \<Rightarrow> string \<Rightarrow> string \<Rightarrow> int \<Rightarrow> json \<Rightarrow> wf_world \<Rightarrow> wf_world \<times> (wf_failure + unit)" where
  "idem_put env rid org sc key status body w =
     tx_then (fresh_uuid env w) (\<lambda>i w.
     if list_ex (\<lambda>r. wk_org r = org \<and> wk_scope r = sc \<and> wk_key r = key) (wf_idem (ww_db w)) then (w, Inr ())
     else if list_ex (\<lambda>r. wk_id r = i) (wf_idem (ww_db w)) then (w, Inl (internal_db env rid))
     else (w\<lparr>ww_db := (ww_db w)\<lparr>wf_idem := wf_idem (ww_db w) @
        [\<lparr>wk_id = i, wk_org = org, wk_scope = sc, wk_key = key, wk_status = status, wk_body = body\<rparr>]\<rparr>\<rparr>, Inr ()))"

definition srv_emit ::
  "wf_service_env \<Rightarrow> string \<Rightarrow> uuid \<Rightarrow> actor \<Rightarrow> string \<Rightarrow> string \<Rightarrow> json \<Rightarrow> wf_world \<Rightarrow> wf_world \<times> (wf_failure + unit)" where
  "srv_emit env rid org act aggregate event_type payload w =
     (let e = wse_engine env; k = ww_uuids w;
          envelope = envelope_new (re_gen_uuid (we_relay e) k) (we_clock e k) (re_show_uuid (we_relay e))
            org Events.Workflow aggregate event_type 1 act payload;
          w = w\<lparr>ww_uuids := Suc k\<rparr>
      in case insert_event (we_relay e) \<lparr>app_org = Some org, app_outbox_relay = False\<rparr> envelope (wf_outbox (ww_db w)) of
           Inl err \<Rightarrow> (w, Inl (wf_err Internal rid (we_show_outbox_error e err)))
         | Inr (ob, _) \<Rightarrow> (w\<lparr>ww_db := (ww_db w)\<lparr>wf_outbox := ob\<rparr>\<rparr>, Inr ()))"

definition insert_definition ::
  "wf_service_env \<Rightarrow> string \<Rightarrow> wf_definition \<Rightarrow> wf_world \<Rightarrow> wf_world \<times> (wf_failure + unit)" where
  "insert_definition env rid d w =
     (if list_ex (\<lambda>r. wd_id r = wd_id d \<or> wd_org r = wd_org d \<and> wd_public_id r = wd_public_id d) (wf_definitions (ww_db w))
      then (w, Inl (internal_db env rid))
      else (w\<lparr>ww_db := (ww_db w)\<lparr>wf_definitions := wf_definitions (ww_db w) @ [d]\<rparr>\<rparr>, Inr ()))"

definition insert_version ::
  "wf_service_env \<Rightarrow> string \<Rightarrow> wf_version \<Rightarrow> wf_world \<Rightarrow> wf_world \<times> (wf_failure + unit)" where
  "insert_version env rid v w =
     (if list_ex (\<lambda>r. wv_id r = wv_id v \<or> wv_org r = wv_org v \<and>
          (wv_public_id r = wv_public_id v \<or> wv_definition r = wv_definition v \<and> wv_version r = wv_version v))
          (wf_versions (ww_db w))
      then (w, Inl (internal_db env rid))
      else (w\<lparr>ww_db := (ww_db w)\<lparr>wf_versions := wf_versions (ww_db w) @ [v]\<rparr>\<rparr>, Inr ()))"

definition insert_instance ::
  "wf_service_env \<Rightarrow> string \<Rightarrow> wf_instance \<Rightarrow> wf_world \<Rightarrow> wf_world \<times> (wf_failure + unit)" where
  "insert_instance env rid i w =
     (if list_ex (\<lambda>r. wi_id r = wi_id i \<or> wi_org r = wi_org i \<and>
          (wi_public_id r = wi_public_id i \<or> wi_temporal_id r = wi_temporal_id i)) (wf_instances (ww_db w))
      then (w, Inl (internal_db env rid))
      else (w\<lparr>ww_db := (ww_db w)\<lparr>wf_instances := wf_instances (ww_db w) @ [i]\<rparr>\<rparr>, Inr ()))"

definition update_versions :: "(wf_version \<Rightarrow> bool) \<Rightarrow> (wf_version \<Rightarrow> wf_version) \<Rightarrow> wf_world \<Rightarrow> wf_world" where
  "update_versions sel f w =
     w\<lparr>ww_db := (ww_db w)\<lparr>wf_versions := map (\<lambda>r. if sel r then f r else r) (wf_versions (ww_db w))\<rparr>\<rparr>"

definition update_definitions :: "uuid \<Rightarrow> uuid \<Rightarrow> (wf_definition \<Rightarrow> wf_definition) \<Rightarrow> wf_world \<Rightarrow> wf_world" where
  "update_definitions org i f w =
     w\<lparr>ww_db := (ww_db w)\<lparr>wf_definitions :=
       map (\<lambda>r. if wd_id r = i \<and> wd_org r = org then f r else r) (wf_definitions (ww_db w))\<rparr>\<rparr>"

definition find_definition :: "wf_db \<Rightarrow> uuid \<Rightarrow> uuid \<Rightarrow> wf_definition option" where
  "find_definition db org i = find (\<lambda>d. wd_id d = i \<and> wd_org d = org) (wf_definitions db)"

section \<open>Definitions\<close>

definition create_definition ::
  "wf_service_env \<Rightarrow> org_db \<Rightarrow> wf_caller \<Rightarrow> string \<Rightarrow> string \<Rightarrow> workflow_graph \<Rightarrow> wf_world \<Rightarrow> wf_world \<times> (wf_failure + uuid)" where
  "create_definition env odb c name description g =
     (let rid = wc_request_id c; org = wc_org c; user = on_behalf_of (wc_actor c) in
      in_tx (\<lambda>w.
        tx_then (pure_tx (wf_authorize env odb c operations_workflow_write) w) (\<lambda>p w.
        if is_blank name then (w, Inl (wf_validation rid ''name is required'')) else
        tx_then (pure_tx (map_err (wf_validation rid) (graph_validate g)) w) (\<lambda>_ w.
        tx_then (pure_tx (creator_can_own env p g rid) w) (\<lambda>required w.
        tx_then (fresh_uuid env w) (\<lambda>def_id w.
        tx_then (fresh_uuid env w) (\<lambda>ver_id w.
        tx_then (insert_definition env rid \<lparr>wd_id = def_id, wd_org = org,
            wd_public_id = srv_public env ''WorkflowDefinition'' def_id, wd_name = str_trim name,
            wd_description = description, wd_status = ''draft'', wd_created_by = user, wd_updated_by = user,
            wd_published_version = None\<rparr> w) (\<lambda>_ w.
        tx_then (insert_version env rid \<lparr>wv_id = ver_id, wv_org = org,
            wv_public_id = srv_public env ''WorkflowVersion'' ver_id, wv_definition = def_id, wv_version = 0,
            wv_graph = wse_graph_json env g, wv_required = required, wv_published_at = None,
            wv_published_by = None\<rparr> w) (\<lambda>_ w. (w, Inr def_id))))))))))"

record update_definition_request =
  ud_name :: "string option"
  ud_description :: "string option"
  ud_graph :: "workflow_graph option"

definition store_draft ::
  "wf_service_env \<Rightarrow> wf_caller \<Rightarrow> principal \<Rightarrow> uuid \<Rightarrow> workflow_graph \<Rightarrow> wf_world \<Rightarrow> wf_world \<times> (wf_failure + unit)" where
  "store_draft env c p def_id g w =
     (let rid = wc_request_id c; org = wc_org c in
      tx_then (pure_tx (map_err (wf_validation rid) (graph_validate g)) w) (\<lambda>_ w.
      tx_then (pure_tx (creator_can_own env p g rid) w) (\<lambda>required w.
      let gj = wse_graph_json env g in
      case find (\<lambda>v. wv_definition v = def_id \<and> wv_org v = org \<and> wv_version v = 0 \<and> wv_published_at v = None)
          (wf_versions (ww_db w)) of
        Some v \<Rightarrow>
          (update_versions (\<lambda>r. wv_id r = wv_id v \<and> wv_org r = org) (\<lambda>r. r\<lparr>wv_graph := gj, wv_required := required\<rparr>) w, Inr ())
      | None \<Rightarrow>
          tx_then (fresh_uuid env w) (\<lambda>ver_id w.
          if list_ex (\<lambda>r. wv_org r = org \<and> wv_definition r = def_id \<and> wv_version r = 0) (wf_versions (ww_db w)) then
            (update_versions (\<lambda>r. wv_org r = org \<and> wv_definition r = def_id \<and> wv_version r = 0)
               (\<lambda>r. r\<lparr>wv_graph := gj, wv_required := required, wv_published_at := None, wv_published_by := None\<rparr>) w, Inr ())
          else insert_version env rid \<lparr>wv_id = ver_id, wv_org = org,
            wv_public_id = srv_public env ''WorkflowVersion'' ver_id, wv_definition = def_id, wv_version = 0,
            wv_graph = gj, wv_required = required, wv_published_at = None, wv_published_by = None\<rparr> w))))"

definition update_definition ::
  "wf_service_env \<Rightarrow> org_db \<Rightarrow> wf_caller \<Rightarrow> string \<Rightarrow> update_definition_request \<Rightarrow> wf_world \<Rightarrow> wf_world \<times> (wf_failure + unit)" where
  "update_definition env odb c raw body =
     (let rid = wc_request_id c; org = wc_org c; user = on_behalf_of (wc_actor c) in
      in_tx (\<lambda>w.
        tx_then (pure_tx (wf_authorize env odb c operations_workflow_write) w) (\<lambda>p w.
        tx_then (pure_tx (wf_parse_public_id env ''WorkflowDefinition'' raw rid) w) (\<lambda>def_id w.
        case find_definition (ww_db w) org def_id of
          None \<Rightarrow> (w, Inl (wf_not_found rid ''workflow definition''))
        | Some d \<Rightarrow>
            if wd_status d = ''archived'' then (w, Inl (wf_validation rid ''cannot update archived definition''))
            else tx_then (case ud_graph body of None \<Rightarrow> (w, Inr ()) | Some g \<Rightarrow> store_draft env c p def_id g w) (\<lambda>_ w.
              (update_definitions org def_id (\<lambda>r. r\<lparr>
                 wd_name := (case ud_name body of Some n \<Rightarrow> n | None \<Rightarrow> wd_name d),
                 wd_description := (case ud_description body of Some x \<Rightarrow> x | None \<Rightarrow> wd_description d),
                 wd_updated_by := user\<rparr>) w, Inr ()))))))"

definition max_version :: "wf_db \<Rightarrow> uuid \<Rightarrow> uuid \<Rightarrow> int" where
  "max_version db org def_id =
     foldr max (map wv_version (filter (\<lambda>v. wv_definition v = def_id \<and> wv_org v = org \<and> wv_version v > 0) (wf_versions db))) 0"

definition publish_version ::
  "wf_service_env \<Rightarrow> org_db \<Rightarrow> wf_caller \<Rightarrow> int \<Rightarrow> principal \<Rightarrow> string \<Rightarrow> string \<Rightarrow> uuid \<Rightarrow> wf_world
     \<Rightarrow> wf_world \<times> (wf_failure + version_dto)" where
  "publish_version env odb c now p sc idem def_id w =
     (let rid = wc_request_id c; org = wc_org c; user = on_behalf_of (wc_actor c) in
      case find_definition (ww_db w) org def_id of
        None \<Rightarrow> (w, Inl (wf_not_found rid ''workflow definition''))
      | Some d \<Rightarrow>
        tx_then (pure_tx (if wd_created_by d = user then Inr p else wf_load_principal odb org (wd_created_by d) rid) w) (\<lambda>creator w.
        case find (\<lambda>v. wv_definition v = def_id \<and> wv_org v = org \<and> wv_version v = 0) (wf_versions (ww_db w)) of
          None \<Rightarrow> (w, Inl (wf_validation rid ''no draft graph to publish''))
        | Some draft \<Rightarrow>
          tx_then (pure_tx (map_err (wf_err Internal rid) (wse_graph_of env (wv_graph draft))) w) (\<lambda>g w.
          tx_then (pure_tx (map_err (wf_validation rid) (graph_validate g)) w) (\<lambda>_ w.
          tx_then (pure_tx (creator_can_own env creator g rid) w) (\<lambda>required w.
          let new_ver = max_version (ww_db w) org def_id + 1 in
          tx_then (fresh_uuid env w) (\<lambda>ver_id w.
          let pub = srv_public env ''WorkflowVersion'' ver_id in
          tx_then (insert_version env rid \<lparr>wv_id = ver_id, wv_org = org, wv_public_id = pub, wv_definition = def_id,
              wv_version = new_ver, wv_graph = wv_graph draft, wv_required = required, wv_published_at = Some now,
              wv_published_by = Some user\<rparr> w) (\<lambda>_ w.
          let w = update_definitions org def_id (\<lambda>r. r\<lparr>wd_status := ''published'', wd_published_version := Some new_ver,
                wd_updated_by := user\<rparr>) w;
              w = update_versions (\<lambda>r. wv_definition r = def_id \<and> wv_org r = org \<and> wv_version r = 0)
                (\<lambda>r. r\<lparr>wv_graph := wv_graph draft, wv_required := required, wv_published_at := None,
                   wv_published_by := None\<rparr>) w in
          tx_then (srv_emit env rid org (wc_actor c) ''definition'' ''published''
              (json_object [(''id'', JStr (wd_public_id d)), (''version_id'', JStr pub), (''version'', JInt new_ver)]) w) (\<lambda>_ w.
          let dto = \<lparr>vd_id = pub, vd_definition_id = wd_public_id d, vd_version = new_ver, vd_graph = g,
                vd_required = required, vd_published_at = Some now, vd_published_by = Some (srv_public env ''User'' user)\<rparr> in
          tx_then (idem_put env rid org sc idem 200 (wse_version_json env dto) w) (\<lambda>_ w. (w, Inr dto))))))))))"

definition publish_definition ::
  "wf_service_env \<Rightarrow> org_db \<Rightarrow> wf_caller \<Rightarrow> int \<Rightarrow> string \<Rightarrow> wf_world \<Rightarrow> wf_world \<times> (wf_failure + version_dto)" where
  "publish_definition env odb c now raw =
     (let rid = wc_request_id c; org = wc_org c in
      in_tx (\<lambda>w.
        tx_then (pure_tx (require_idempotency c) w) (\<lambda>idem w.
        tx_then (pure_tx (wf_authorize env odb c operations_workflow_publish) w) (\<lambda>p w.
        if is_ai (wc_actor c)
        then (w, Inl (wf_err Forbidden rid ''AI cannot publish workflow definitions; human must commit publish''))
        else tx_then (pure_tx (wf_parse_public_id env ''WorkflowDefinition'' raw rid) w) (\<lambda>def_id w.
        let sc = ''workflow.publish:'' @ raw in
        case idem_get (ww_db w) org sc idem of
          Some (status, body) \<Rightarrow>
            (w, if status = 200 then map_err (wf_err Internal rid) (wse_version_of env body)
                else Inl (wf_err Conflict rid ''Idempotency-Key already used with a different outcome''))
        | None \<Rightarrow> publish_version env odb c now p sc idem def_id w)))))"

section \<open>Instances\<close>

definition instance_dto_of :: "wf_service_env \<Rightarrow> string \<Rightarrow> wf_instance \<Rightarrow> instance_dto" where
  "instance_dto_of env def_public r =
     \<lparr>id_id = srv_public env ''WorkflowInstance'' (wi_id r), id_definition_id = def_public,
      id_version_id = srv_public env ''WorkflowVersion'' (wi_version_id r), id_version_number = wi_version_number r,
      id_status = wi_status r, id_actor_user_id = srv_public env ''User'' (wi_actor_user r),
      id_temporal_id = wi_temporal_id r, id_step_count = wi_step_count r, id_current_node = wi_current_node r,
      id_error = wi_error r, id_waiting_until = wi_waiting_until r, id_sla_deadline = wi_sla_deadline r,
      id_started_at = wi_started_at r, id_completed_at = wi_completed_at r\<rparr>"

definition dry_http :: "wf_service_env \<Rightarrow> bool" where
  "dry_http env \<longleftrightarrow>
     we_var (wse_engine env) ''WORKFLOW_ACTIVITIES_NOOP'' \<in> {Some ''1'', Some ''true'', Some ''TRUE''}"

definition find_published :: "wf_db \<Rightarrow> uuid \<Rightarrow> uuid \<Rightarrow> int \<Rightarrow> wf_version option" where
  "find_published db org def_id ver =
     find (\<lambda>v. wv_definition v = def_id \<and> wv_org v = org \<and> wv_version v = ver \<and> wv_published_at v \<noteq> None) (wf_versions db)"

text \<open>The part of \<open>start_instance\<close> up to its commit.\<close>

record started =
  sd_instance :: wf_instance
  sd_graph :: workflow_graph
  sd_creator :: principal
  sd_definition_public :: string

definition sla_deadline_of :: "wf_service_env \<Rightarrow> int \<Rightarrow> workflow_graph \<Rightarrow> wf_failure + int option" where
  "sla_deadline_of env now g =
     (case wg_sla_seconds g of
        None \<Rightarrow> Inr None
      | Some s \<Rightarrow> (case we_add_secs (wse_engine env) now (wrap_i64 (int s)) of
                     None \<Rightarrow> Inl WfPanic | Some t \<Rightarrow> Inr (Some t)))"

text \<open>
  The cap is enforced by counting the active rows, without a lock, before the insert. The tables
  that the count saw are the argument \<open>seen\<close>; the rest runs on the tables of the moment of the
  insert. When nothing comes in between, both are the same.
\<close>

definition begin_seen ::
  "wf_service_env \<Rightarrow> org_db \<Rightarrow> wf_db \<Rightarrow> wf_caller \<Rightarrow> int \<Rightarrow> string \<Rightarrow> string \<Rightarrow> uuid \<Rightarrow> json \<Rightarrow> wf_world
     \<Rightarrow> wf_world \<times> (wf_failure + started)" where
  "begin_seen env odb seen c now sc idem def_id payload w =
     (let rid = wc_request_id c; org = wc_org c in
      tx_then (pure_tx (map_err WfError (enforce_concurrency_cap seen org rid)) w) (\<lambda>_ w.
      case find_definition (ww_db w) org def_id of
        None \<Rightarrow> (w, Inl (wf_validation rid ''definition must be published before start''))
      | Some d \<Rightarrow>
        (case wd_published_version d of
           None \<Rightarrow> (w, Inl (wf_validation rid ''definition must be published before start''))
         | Some ver \<Rightarrow>
           (case find_published (ww_db w) org def_id ver of
              None \<Rightarrow> (w, Inl (wf_not_found rid ''published workflow version''))
            | Some v \<Rightarrow>
              tx_then (pure_tx (map_err (wf_err Internal rid) (wse_graph_of env (wv_graph v))) w) (\<lambda>g w.
              tx_then (pure_tx (wf_load_principal odb org (wd_created_by d) rid) w) (\<lambda>creator w.
              tx_then (pure_tx (creator_can_own env creator g rid) w) (\<lambda>_ w.
              tx_then (fresh_uuid env w) (\<lambda>i w.
              let pub = srv_public env ''WorkflowInstance'' i;
                  temporal = user_workflow_id (org_public (wse_engine env) org) (wd_public_id d) pub in
              tx_then (pure_tx (sla_deadline_of env now g) w) (\<lambda>sla w.
              let inst = \<lparr>wi_id = i, wi_org = org, wi_public_id = pub, wi_definition_id = def_id,
                    wi_version_id = wv_id v, wi_version_number = ver, wi_status = ''running'', wi_payload = payload,
                    wi_current_node = Some (wg_entry g), wi_step_count = 0, wi_error = None, wi_waiting_until = None,
                    wi_completed_at = None, wi_actor_user = wd_created_by d,
                    wi_created_by = on_behalf_of (wc_actor c), wi_trigger_event = None, wi_temporal_id = temporal,
                    wi_sla_deadline = sla, wi_started_at = now\<rparr> in
              tx_then (insert_instance env rid inst w) (\<lambda>_ w.
              tx_then (srv_emit env rid org (actor_human (wd_created_by d)) ''instance'' ''started''
                  (json_object [(''id'', JStr pub), (''definition_id'', JStr (wd_public_id d)),
                     (''version_id'', JStr (srv_public env ''WorkflowVersion'' (wv_id v))), (''version'', JInt ver),
                     (''temporal_workflow_id'', JStr temporal)]) w) (\<lambda>_ w.
              tx_then (idem_put env rid org sc idem 201
                  (wse_instance_json env (instance_dto_of env (wd_public_id d) inst)) w) (\<lambda>_ w.
              (w, Inr \<lparr>sd_instance = inst, sd_graph = g, sd_creator = creator,
                 sd_definition_public = wd_public_id d\<rparr>)))))))))))))"

definition begin_instance ::
  "wf_service_env \<Rightarrow> org_db \<Rightarrow> wf_caller \<Rightarrow> int \<Rightarrow> string \<Rightarrow> string \<Rightarrow> uuid \<Rightarrow> json \<Rightarrow> wf_world
     \<Rightarrow> wf_world \<times> (wf_failure + started)" where
  "begin_instance env odb c now sc idem def_id payload w =
     begin_seen env odb (ww_db w) c now sc idem def_id payload w"

definition start_checks ::
  "wf_service_env \<Rightarrow> org_db \<Rightarrow> wf_caller \<Rightarrow> string \<Rightarrow> bool \<Rightarrow> wf_failure + string \<times> uuid" where
  "start_checks env odb c raw dry_run =
     (let rid = wc_request_id c in
      if dry_run then Inl (wf_validation rid
        ''dry_run start is not allowed; use POST /api/v1/workflows/simulate (zero side effects)'')
      else and_then (require_idempotency c) (\<lambda>idem.
        and_then (wf_authorize env odb c operations_workflow_run) (\<lambda>_.
        and_then (wf_parse_public_id env ''WorkflowDefinition'' raw rid) (\<lambda>def_id. Inr (idem, def_id)))))"

definition drive ::
  "wf_service_env \<Rightarrow> wf_caller \<Rightarrow> int \<Rightarrow> started \<Rightarrow> wf_world \<Rightarrow> wf_world \<times> (wf_failure + unit)" where
  "drive env c now s =
     run_until_idle (wse_engine env) now (wc_org c) (wi_id (sd_instance s)) (sd_graph s) (sd_creator s)
       (actor_human (wi_actor_user (sd_instance s))) (wc_request_id c) (dry_http env)"

definition start_instance ::
  "wf_service_env \<Rightarrow> org_db \<Rightarrow> wf_caller \<Rightarrow> int \<Rightarrow> string \<Rightarrow> bool \<Rightarrow> json \<Rightarrow> wf_world \<Rightarrow> wf_world \<times> (wf_failure + instance_dto)" where
  "start_instance env odb c now raw dry_run payload w =
     (let rid = wc_request_id c; org = wc_org c; sc = ''workflow.start:'' @ raw in
      tx_then (pure_tx (start_checks env odb c raw dry_run) w) (\<lambda>(idem, def_id) w.
      case idem_get (ww_db w) org sc idem of
        Some (status, body) \<Rightarrow>
          (w, if status = 201 then map_err (wf_err Internal rid) (wse_instance_of env body)
              else Inl (wf_err Conflict rid ''Idempotency-Key already used with a different outcome''))
      | None \<Rightarrow>
          tx_then (in_tx (begin_instance env odb c now sc idem def_id payload) w) (\<lambda>s w.
          tx_then (drive env c now s w) (\<lambda>_ w.
          case find_instance (ww_db w) org (wi_id (sd_instance s)) of
            None \<Rightarrow> (w, Inl (wf_not_found rid ''workflow instance''))
          | Some r \<Rightarrow> (w, Inr (instance_dto_of env (sd_definition_public s) r))))))"

definition cancel_instance ::
  "wf_service_env \<Rightarrow> org_db \<Rightarrow> wf_caller \<Rightarrow> int \<Rightarrow> string \<Rightarrow> wf_world \<Rightarrow> wf_world \<times> (wf_failure + unit)" where
  "cancel_instance env odb c now raw =
     (let rid = wc_request_id c; org = wc_org c in
      in_tx (\<lambda>w.
        tx_then (pure_tx (wf_authorize env odb c operations_workflow_run) w) (\<lambda>_ w.
        tx_then (pure_tx (wf_parse_public_id env ''WorkflowInstance'' raw rid) w) (\<lambda>i w.
        let hit = (\<lambda>r. wi_id r = i \<and> wi_org r = org \<and> wi_status r \<in> {''running'', ''waiting''}) in
        if \<not> list_ex hit (wf_instances (ww_db w)) then (w, Inl (wf_validation rid ''instance not cancellable''))
        else
          let w = w\<lparr>ww_db := (ww_db w)\<lparr>wf_instances := map (\<lambda>r. if hit r
                then r\<lparr>wi_status := ''cancelled'', wi_completed_at := Some now\<rparr> else r) (wf_instances (ww_db w))\<rparr>\<rparr> in
          case find_instance (ww_db w) org i of
            None \<Rightarrow> (w, Inr ())
          | Some r \<Rightarrow>
              srv_emit env rid org (wc_actor c) ''instance'' ''cancelled''
                (json_object [(''id'', JStr (wi_public_id r)),
                   (''definition_id'', JStr (srv_public env ''WorkflowDefinition'' (wi_definition_id r))),
                   (''version_id'', JStr (srv_public env ''WorkflowVersion'' (wi_version_id r))),
                   (''version'', JInt (wi_version_number r))]) w))))"

text \<open>Triggers: one transaction per matching definition, then the run, whose errors are ignored.\<close>

definition trigger_matches :: "string \<Rightarrow> workflow_graph \<Rightarrow> bool" where
  "trigger_matches event_key g = (case wg_trigger g of DomainEvent k \<Rightarrow> k = event_key | Manual \<Rightarrow> False)"

definition published_definitions :: "wf_db \<Rightarrow> uuid \<Rightarrow> (wf_definition \<times> wf_version) list" where
  "published_definitions db org =
     concat (map (\<lambda>d. map (Pair d) (filter (\<lambda>v. wv_definition v = wd_id d \<and> wv_org v = wd_org d \<and>
         Some (wv_version v) = wd_published_version d \<and> wv_published_at v \<noteq> None) (wf_versions db)))
       (filter (\<lambda>d. wd_org d = org \<and> wd_status d = ''published'') (wf_definitions db)))"

definition begin_triggered ::
  "wf_service_env \<Rightarrow> wf_caller \<Rightarrow> int \<Rightarrow> string \<Rightarrow> json \<Rightarrow> wf_definition \<Rightarrow> wf_version \<Rightarrow> workflow_graph \<Rightarrow> principal
     \<Rightarrow> wf_world \<Rightarrow> wf_world \<times> (wf_failure + started)" where
  "begin_triggered env c now event_key payload d v g creator w =
     (let rid = wc_request_id c; org = wc_org c in
      tx_then (fresh_uuid env w) (\<lambda>i w.
      let pub = srv_public env ''WorkflowInstance'' i;
          inst = \<lparr>wi_id = i, wi_org = org, wi_public_id = pub, wi_definition_id = wd_id d,
            wi_version_id = wv_id v, wi_version_number = wv_version v, wi_status = ''running'', wi_payload = payload,
            wi_current_node = Some (wg_entry g), wi_step_count = 0, wi_error = None, wi_waiting_until = None,
            wi_completed_at = None, wi_actor_user = wd_created_by d, wi_created_by = wd_created_by d,
            wi_trigger_event = Some (json_object [(''event_key'', JStr event_key)]),
            wi_temporal_id = user_workflow_id (org_public (wse_engine env) org) (wd_public_id d) pub,
            wi_sla_deadline = None, wi_started_at = now\<rparr> in
      tx_then (insert_instance env rid inst w) (\<lambda>_ w.
      tx_then (srv_emit env rid org (actor_human (wd_created_by d)) ''instance'' ''started''
          (json_object [(''id'', JStr pub), (''definition_id'', JStr (wd_public_id d)),
             (''version_id'', JStr (srv_public env ''WorkflowVersion'' (wv_id v)))]) w) (\<lambda>_ w.
      (w, Inr \<lparr>sd_instance = inst, sd_graph = g, sd_creator = creator, sd_definition_public = wd_public_id d\<rparr>)))))"

definition trigger_begin ::
  "wf_service_env \<Rightarrow> org_db \<Rightarrow> wf_db \<Rightarrow> wf_caller \<Rightarrow> int \<Rightarrow> string \<Rightarrow> json \<Rightarrow> wf_definition \<Rightarrow> wf_version \<Rightarrow> wf_world
     \<Rightarrow> wf_world \<times> (wf_failure + started option)" where
  "trigger_begin env odb seen c now event_key payload d v w =
     (case wse_graph_of env (wv_graph v) of
        Inl e \<Rightarrow> (w, Inr None)
      | Inr g \<Rightarrow>
          if \<not> trigger_matches event_key g \<or>
             \<not> is_ok (enforce_concurrency_cap seen (wc_org c) (wc_request_id c))
          then (w, Inr None)
          else tx_then (pure_tx (wf_load_principal odb (wc_org c) (wd_created_by d) (wc_request_id c)) w) (\<lambda>creator w.
            if \<not> is_ok (creator_can_own env creator g (wc_request_id c)) then (w, Inr None)
            else tx_then (in_tx (begin_triggered env c now event_key payload d v g creator) w) (\<lambda>s w.
              (w, Inr (Some s)))))"

definition trigger_one ::
  "wf_service_env \<Rightarrow> org_db \<Rightarrow> wf_caller \<Rightarrow> int \<Rightarrow> string \<Rightarrow> json \<Rightarrow> wf_definition \<Rightarrow> wf_version \<Rightarrow> wf_world
     \<Rightarrow> wf_world \<times> (wf_failure + bool)" where
  "trigger_one env odb c now event_key payload d v w =
     tx_then (trigger_begin env odb (ww_db w) c now event_key payload d v w) (\<lambda>s w.
     case s of
       None \<Rightarrow> (w, Inr False)
     | Some s \<Rightarrow> (case drive env c now s w of
         (w, r) \<Rightarrow> (w, if r = Inl WfPanic then Inl WfPanic else Inr True)))"

fun trigger_loop ::
  "wf_service_env \<Rightarrow> org_db \<Rightarrow> wf_caller \<Rightarrow> int \<Rightarrow> string \<Rightarrow> json \<Rightarrow> (wf_definition \<times> wf_version) list \<Rightarrow> nat \<Rightarrow> wf_world
     \<Rightarrow> wf_world \<times> (wf_failure + nat)" where
  "trigger_loop env odb c now event_key payload [] n w = (w, Inr n)"
| "trigger_loop env odb c now event_key payload ((d, v) # ds) n w =
     tx_then (trigger_one env odb c now event_key payload d v w) (\<lambda>was_started w.
       trigger_loop env odb c now event_key payload ds (if was_started then Suc n else n) w)"

definition ingest_trigger_event ::
  "wf_service_env \<Rightarrow> org_db \<Rightarrow> wf_caller \<Rightarrow> int \<Rightarrow> string \<Rightarrow> json \<Rightarrow> wf_world \<Rightarrow> wf_world \<times> (wf_failure + string)" where
  "ingest_trigger_event env odb c now event_key payload w =
     tx_then (pure_tx (wf_authorize env odb c operations_workflow_run) w) (\<lambda>_ w.
     if \<not> is_known_trigger event_key then (w, Inl (wf_validation (wc_request_id c) (''unknown trigger '' @ event_key)))
     else tx_then (trigger_loop env odb c now event_key payload (published_definitions (ww_db w) (wc_org c)) 0 w) (\<lambda>n w.
       (w, Inr (''started '' @ show_nat n @ '' instance(s)''))))"

section \<open>Monitor, bounds and dry run\<close>

definition breach_sla :: "uuid \<Rightarrow> int \<Rightarrow> wf_world \<Rightarrow> wf_world" where
  "breach_sla org now w =
     w\<lparr>ww_db := (ww_db w)\<lparr>wf_instances := map (\<lambda>r.
       if wi_org r = org \<and> wi_status r \<in> {''running'', ''waiting''} \<and>
          (case wi_sla_deadline r of Some t \<Rightarrow> t < now | None \<Rightarrow> False)
       then r\<lparr>wi_status := ''sla_breached''\<rparr> else r) (wf_instances (ww_db w))\<rparr>\<rparr>"

definition status_count :: "wf_db \<Rightarrow> uuid \<Rightarrow> string \<Rightarrow> nat" where
  "status_count db org st = length (filter (\<lambda>r. wi_org r = org \<and> wi_status r = st) (wf_instances db))"

definition monitor ::
  "wf_service_env \<Rightarrow> org_db \<Rightarrow> wf_caller \<Rightarrow> int \<Rightarrow> wf_world \<Rightarrow> wf_world \<times> (wf_failure + nat list)" where
  "monitor env odb c now w =
     tx_then (pure_tx (wf_authorize env odb c operations_workflow_read) w) (\<lambda>_ w.
     let w = breach_sla (wc_org c) now w in
     (w, Inr (map (status_count (ww_db w) (wc_org c))
        [''running'', ''waiting'', ''failed'', ''completed'', ''cancelled'', ''sla_breached''])))"

definition get_bounds :: "wf_service_env \<Rightarrow> org_db \<Rightarrow> wf_caller \<Rightarrow> wf_world \<Rightarrow> wf_failure + int \<times> int" where
  "get_bounds env odb c w =
     and_then (wf_authorize env odb c operations_workflow_read) (\<lambda>_. Inr (load_or_default_bounds (ww_db w) (wc_org c)))"

definition update_bounds ::
  "wf_service_env \<Rightarrow> org_db \<Rightarrow> wf_caller \<Rightarrow> int \<Rightarrow> int \<Rightarrow> wf_world \<Rightarrow> wf_world \<times> (wf_failure + int \<times> int)" where
  "update_bounds env odb c max_concurrent max_steps w =
     (let rid = wc_request_id c in
      tx_then (pure_tx (wf_authorize env odb c operations_workflow_manage) w) (\<lambda>_ w.
      if max_concurrent < 1 \<or> max_concurrent > 1000
      then (w, Inl (wf_validation rid ''max_concurrent must be 1..=1000''))
      else if max_steps < 1 \<or> max_steps > 10000
      then (w, Inl (wf_validation rid ''max_steps_per_instance must be 1..=10000''))
      else (w\<lparr>ww_db := (ww_db w)\<lparr>wf_bounds := AList.update (wc_org c) (max_concurrent, max_steps) (wf_bounds (ww_db w))\<rparr>\<rparr>,
            Inr (max_concurrent, max_steps))))"

definition simulate_handler ::
  "wf_service_env \<Rightarrow> org_db \<Rightarrow> wf_caller \<Rightarrow> workflow_graph \<Rightarrow> json \<Rightarrow> int option \<Rightarrow> wf_world \<Rightarrow> wf_failure + simulate_result" where
  "simulate_handler env odb c g payload max_steps w =
     (let rid = wc_request_id c; e = wse_engine env in
      and_then (wf_authorize env odb c operations_workflow_read) (\<lambda>p.
      and_then (map_err (wf_validation rid) (graph_validate g)) (\<lambda>_.
      and_then (creator_can_own env p g rid) (\<lambda>_.
      let m = (case max_steps of Some m \<Rightarrow> m | None \<Rightarrow> snd (load_or_default_bounds (ww_db w) (wc_org c))) in
      Inr (simulate (we_time e) (we_json_text e) g p payload (max 1 (min m (DEFAULT_MAX_STEPS * 2))))))))"

definition migrate_stub :: "wf_service_env \<Rightarrow> org_db \<Rightarrow> wf_caller \<Rightarrow> wf_failure + unit" where
  "migrate_stub env odb c =
     and_then (wf_authorize env odb c operations_workflow_manage) (\<lambda>_.
     Inl (wf_validation (wc_request_id c) ''explicit in-flight migrate is stubbed; keep-old-version is the safe default''))"

section \<open>What the engine leaves alone\<close>

definition wf_config ::
  "wf_db \<Rightarrow> wf_definition list \<times> wf_version list \<times> wf_idem_row list \<times> (uuid \<times> int \<times> int) list" where
  "wf_config db = (wf_definitions db, wf_versions db, wf_idem db, wf_bounds db)"

named_theorems wf_frames

lemma record_step_config [wf_frames]:
  "wf_config (ww_db (fst (record_step env org i ix nid nt key st d perm al w))) = wf_config (ww_db w)"
  by (simp add: record_step_def Let_def wf_config_def)

lemma emit_config [wf_frames]:
  "wf_config (ww_db (fst (emit_instance_event env org act ev inst w))) = wf_config (ww_db w)"
  by (simp add: emit_instance_event_def Let_def wf_config_def split: sum.split prod.split)

lemma update_instance_config [wf_frames]: "wf_config (ww_db (update_instance org i f w)) = wf_config (ww_db w)"
  by (simp add: update_instance_def wf_config_def)

lemma execute_action_config [wf_frames]:
  "wf_config (ww_db (fst (execute_action env a params payload org act w))) = wf_config (ww_db w)"
  by simp

lemma tx_then_config [wf_frames]:
  assumes "\<And>x w. wf_config (ww_db (fst (f x w))) = wf_config (ww_db w)"
  shows "wf_config (ww_db (fst (tx_then m f))) = wf_config (ww_db (fst m))"
  by (cases m) (auto simp: tx_then_def assms split: sum.splits)

lemma fail_complete_config [wf_frames]:
  "wf_config (ww_db (fst (fail_instance env now org act inst msg w))) = wf_config (ww_db w)"
  "wf_config (ww_db (fst (complete_instance env now org act inst w))) = wf_config (ww_db w)"
  by (simp_all add: fail_instance_def complete_instance_def wf_frames)

lemma advance_node_config: "wf_config (ww_db (fst (advance_node env now org p act rid dry inst n w))) = wf_config (ww_db w)"
proof (cases n)
  case (Action nid action params nxt)
  obtain wx rx where x: "execute_action env action params (wi_payload inst) org act w = (wx, rx)" by fastforce
  with execute_action_config [of env action params "wi_payload inst" org act w]
  have "wf_config (ww_db wx) = wf_config (ww_db w)" by simp
  with x Action show ?thesis
    by (cases "enforce_action_permission (we_time env) p action rid"; cases rx; cases dry) (simp_all add: Let_def wf_frames)
next
  case (Human nid kind params a b)
  then show ?thesis
    by (cases kind; cases "enforce_action_permission (we_time env) p ''start_approval'' rid"; cases dry)
      (simp_all add: Let_def wf_frames)
qed (simp_all add: Let_def wf_frames split: option.split)

lemma advance_instance_config:
  "wf_config (ww_db (fst (advance_instance env now org i g p act rid dry w))) = wf_config (ww_db w)"
proof -
  have "wf_config (ww_db (fst (advance_body env now org i g p act rid dry w))) = wf_config (ww_db w)"
    by (simp add: advance_body_def Let_def advance_node_config wf_frames split: option.split)
  then show ?thesis by (auto simp: advance_instance_def split: prod.splits sum.splits)
qed

lemma run_iterations_config:
  "wf_config (ww_db (fst (run_iterations env now org i g p act rid dry k w))) = wf_config (ww_db w)"
proof (induction k arbitrary: w)
  case (Suc k)
  obtain w' r where a: "advance_instance env now org i g p act rid dry w = (w', r)" by fastforce
  with advance_instance_config [of env now org i g p act rid dry w] have "wf_config (ww_db w') = wf_config (ww_db w)" by simp
  with Suc.IH [of w'] show ?case by (cases r) (simp_all add: a tx_then_def)
qed simp

lemma drive_config: "wf_config (ww_db (fst (drive env c now s w))) = wf_config (ww_db w)"
  by (simp add: drive_def run_until_idle_def run_iterations_config)

section \<open>Relations that survive transactions\<close>

text \<open>
  A relation between the world before and after that is a preorder, looks only at the tables and
  survives a rollback is kept by every handler whose writes keep it.
\<close>

locale tx_relation =
  fixes R :: "wf_world \<Rightarrow> wf_world \<Rightarrow> bool"
  assumes R_refl: "R w w"
    and R_trans: "R a b \<Longrightarrow> R b c \<Longrightarrow> R a c"
    and R_tables: "ww_db b = ww_db a \<Longrightarrow> R a b"
begin

lemma R_then:
  assumes "R w (fst m)" and "\<And>x v. R v (fst (f x v))"
  shows "R w (fst (tx_then m f))"
  using assms R_trans by (cases m) (fastforce simp: tx_then_def split: sum.splits)

lemma R_pure: "R w (fst (pure_tx r w))"
  by (simp add: pure_tx_def R_refl)

lemma R_fresh: "R w (fst (fresh_uuid env w))"
  by (simp add: fresh_uuid_def R_tables)

lemma R_in_tx:
  assumes "R w (fst (f w))"
  shows "R w (fst (in_tx f w))"
  using assms by (cases "f w") (auto simp: in_tx_def R_tables split: sum.splits)

lemmas R_intros = R_then R_pure R_fresh R_in_tx R_refl

lemma R_rtrancl:
  assumes "\<And>a b. step a b \<Longrightarrow> R a b" "step\<^sup>*\<^sup>* w w'"
  shows "R w w'"
  using assms(2) by (induction rule: rtranclp_induct) (auto intro: R_refl R_trans assms(1))

end

text \<open>Published versions stay, and version ids stay unique.\<close>

definition versions_unique :: "wf_db \<Rightarrow> bool" where
  "versions_unique db \<longleftrightarrow> distinct (map wv_id (wf_versions db))"

definition published_kept :: "wf_world \<Rightarrow> wf_world \<Rightarrow> bool" where
  "published_kept w w' \<longleftrightarrow> (versions_unique (ww_db w) \<longrightarrow> versions_unique (ww_db w') \<and>
     (\<forall>v \<in> set (wf_versions (ww_db w)). wv_version v > 0 \<longrightarrow> v \<in> set (wf_versions (ww_db w'))))"

interpretation published: tx_relation published_kept
  by unfold_locales (auto simp: published_kept_def)

text \<open>Instances that are not running stay so.\<close>

definition settled :: "uuid \<Rightarrow> wf_db \<Rightarrow> bool" where
  "settled i db \<longleftrightarrow> (\<exists>r \<in> set (wf_instances db). wi_id r = i) \<and>
     (\<forall>r \<in> set (wf_instances db). wi_id r = i \<longrightarrow> wi_status r \<noteq> ''running'')"

definition settled_kept :: "wf_world \<Rightarrow> wf_world \<Rightarrow> bool" where
  "settled_kept w w' \<longleftrightarrow> (\<forall>i. settled i (ww_db w) \<longrightarrow> settled i (ww_db w'))"

interpretation settle: tx_relation settled_kept
  by unfold_locales (auto simp: settled_kept_def)

text \<open>Writes that touch other tables than the versions, or than the instances and the bounds.\<close>

definition same_versions :: "wf_world \<Rightarrow> wf_world \<Rightarrow> bool" where
  "same_versions w w' \<longleftrightarrow> wf_versions (ww_db w') = wf_versions (ww_db w)"

definition same_instances :: "wf_world \<Rightarrow> wf_world \<Rightarrow> bool" where
  "same_instances w w' \<longleftrightarrow> wf_instances (ww_db w') = wf_instances (ww_db w) \<and> wf_bounds (ww_db w') = wf_bounds (ww_db w)"

interpretation vers: tx_relation same_versions
  by unfold_locales (simp_all add: same_versions_def)

interpretation inst: tx_relation same_instances
  by unfold_locales (simp_all add: same_instances_def)

lemma same_versions_published: "same_versions w w' \<Longrightarrow> published_kept w w'"
  by (simp add: same_versions_def published_kept_def versions_unique_def)

lemma same_instances_settled: "same_instances w w' \<Longrightarrow> settled_kept w w'"
  by (simp add: same_instances_def settled_kept_def settled_def)

lemma version_frames:
  "same_versions w (fst (srv_emit env rid org act ag ev pl w))"
  "same_versions w (fst (idem_put env rid org sc key st body w))"
  "same_versions w (fst (insert_definition env rid d w))"
  "same_versions w (fst (insert_instance env rid i w))"
  "same_versions w (update_definitions org j f w)"
  by (auto simp: same_versions_def srv_emit_def idem_put_def tx_then_def fresh_uuid_def Let_def insert_definition_def
      insert_instance_def update_definitions_def split: sum.split prod.split)

lemma instance_frames:
  "same_instances w (fst (srv_emit env rid org act ag ev pl w))"
  "same_instances w (fst (idem_put env rid org sc key st body w))"
  "same_instances w (fst (insert_definition env rid d w))"
  "same_instances w (fst (insert_version env rid v w))"
  "same_instances w (update_definitions org j f w)"
  "same_instances w (update_versions sel g w)"
  by (auto simp: same_instances_def srv_emit_def idem_put_def tx_then_def fresh_uuid_def Let_def insert_definition_def
      insert_version_def update_definitions_def update_versions_def split: sum.split prod.split)

lemma insert_version_published: "published_kept w (fst (insert_version env rid v w))"
  by (auto simp: published_kept_def insert_version_def versions_unique_def list_ex_iff)

lemma update_draft_published:
  assumes "\<And>r. r \<in> set (wf_versions (ww_db w)) \<Longrightarrow> sel r \<Longrightarrow> versions_unique (ww_db w) \<Longrightarrow> wv_version r = 0"
    and "\<And>r. wv_id (f r) = wv_id r"
  shows "published_kept w (update_versions sel f w)"
proof -
  have "map wv_id (wf_versions (ww_db (update_versions sel f w))) = map wv_id (wf_versions (ww_db w))"
    by (simp add: update_versions_def assms(2))
  then have "versions_unique (ww_db (update_versions sel f w)) \<longleftrightarrow> versions_unique (ww_db w)"
    by (simp add: versions_unique_def)
  moreover have "v \<in> set (wf_versions (ww_db (update_versions sel f w)))"
    if "v \<in> set (wf_versions (ww_db w))" "wv_version v > 0" "versions_unique (ww_db w)" for v
  proof -
    have "\<not> sel v" using assms(1) [OF that(1)] that(2,3) by auto
    with that(1) show ?thesis by (force simp: update_versions_def)
  qed
  ultimately show ?thesis by (simp add: published_kept_def)
qed

lemma store_draft_published: "published_kept w (fst (store_draft env c p def_id g w))"
proof -
  have "published_kept v (update_versions (\<lambda>r. wv_id r = wv_id d \<and> wv_org r = wc_org c) (\<lambda>r. r\<lparr>wv_graph := x, wv_required := y\<rparr>) v)"
    if "find (\<lambda>v. wv_definition v = def_id \<and> wv_org v = wc_org c \<and> wv_version v = 0 \<and> wv_published_at v = None)
      (wf_versions (ww_db v)) = Some d" for v d x y
  proof (rule update_draft_published)
    fix r assume r: "r \<in> set (wf_versions (ww_db v))" "wv_id r = wv_id d \<and> wv_org r = wc_org c" "versions_unique (ww_db v)"
    have d: "d \<in> set (wf_versions (ww_db v))" "wv_version d = 0" using that by (auto simp: find_Some_iff)
    with r have "r = d" unfolding versions_unique_def distinct_map inj_on_def by blast
    with d show "wv_version r = 0" by simp
  qed simp
  then show ?thesis
    unfolding store_draft_def Let_def
    by (intro published.R_intros) (auto intro!: published.R_intros insert_version_published update_draft_published
        split: option.split)
qed

lemmas kept_writes = insert_version_published store_draft_published version_frames [THEN same_versions_published]

lemma create_definition_kept:
  "published_kept w (fst (create_definition env odb c name d g w))" "same_instances w (fst (create_definition env odb c name d g w))"
  unfolding create_definition_def Let_def
   apply (auto intro!: published.R_intros kept_writes)[1]
  apply (auto intro!: inst.R_intros instance_frames)
  done

lemma store_draft_instances: "same_instances w (fst (store_draft env c p def_id g w))"
  unfolding store_draft_def Let_def
  by (intro inst.R_intros) (auto intro!: inst.R_intros instance_frames split: option.split)

lemma update_definition_kept:
  "published_kept w (fst (update_definition env odb c raw body w))" "same_instances w (fst (update_definition env odb c raw body w))"
  unfolding update_definition_def Let_def
   apply (auto intro!: published.R_intros kept_writes split: option.split)[1]
  apply (auto intro!: inst.R_intros instance_frames store_draft_instances split: option.split)
  done

lemma publish_version_kept:
  "published_kept w (fst (publish_version env odb c now p sc idem def_id w))"
  "same_instances w (fst (publish_version env odb c now p sc idem def_id w))"
proof -
  have u: "published_kept v (update_versions (\<lambda>r. wv_definition r = def_id \<and> wv_org r = org \<and> wv_version r = 0)
      (\<lambda>r. r\<lparr>wv_graph := a, wv_required := b, wv_published_at := None, wv_published_by := None\<rparr>)
      (update_definitions org def_id f v))" for v org a b f
    by (rule published.R_trans [OF same_versions_published [OF version_frames(5)]], rule update_draft_published) simp_all
  have ui: "same_instances v (update_versions sel h (update_definitions org def_id f v))" for v sel h org f
    by (rule inst.R_trans [OF instance_frames(5) instance_frames(6)])
  have p: "published_kept v (fst (srv_emit env rid org act ag ev pl (update_versions (\<lambda>r. wv_definition r = def_id \<and>
      wv_org r = org \<and> wv_version r = 0) (\<lambda>r. r\<lparr>wv_graph := a, wv_required := b, wv_published_at := None,
      wv_published_by := None\<rparr>) (update_definitions org def_id f v))))" for v org a b f rid act ag ev pl
    by (rule published.R_trans [OF u]) (rule same_versions_published [OF version_frames(1)])
  have pi: "same_instances v (fst (srv_emit env rid org act ag ev pl (update_versions sel h (update_definitions org def_id f v))))"
    for v org sel h f rid act ag ev pl
    by (rule inst.R_trans [OF ui]) (rule instance_frames(1))
  show "published_kept w (fst (publish_version env odb c now p sc idem def_id w))"
    unfolding publish_version_def Let_def
    by (auto intro!: published.R_intros insert_version_published p same_versions_published [OF version_frames(2)] split: option.split)
  show "same_instances w (fst (publish_version env odb c now p sc idem def_id w))"
    unfolding publish_version_def Let_def
    by (auto intro!: inst.R_intros instance_frames(2,4) pi split: option.split)
qed

lemma publish_definition_kept:
  "published_kept w (fst (publish_definition env odb c now raw w))" "same_instances w (fst (publish_definition env odb c now raw w))"
  unfolding publish_definition_def Let_def
   apply (auto intro!: published.R_intros publish_version_kept split: option.split)[1]
  apply (auto intro!: inst.R_intros publish_version_kept split: option.split)
  done

lemma insert_instance_settled: "settled_kept w (fst (insert_instance env rid i w))"
  by (auto simp: settled_kept_def settled_def insert_instance_def list_ex_iff)

lemmas settled_writes = insert_instance_settled instance_frames [THEN same_instances_settled]

lemma begin_instance_kept:
  "same_versions w (fst (begin_instance env odb c now sc idem def_id payload w))"
  "settled_kept w (fst (begin_instance env odb c now sc idem def_id payload w))"
  unfolding begin_instance_def begin_seen_def Let_def
   apply (auto intro!: vers.R_intros version_frames split: option.split)[1]
  apply (auto intro!: settle.R_intros settled_writes split: option.split)
  done

lemma begin_triggered_kept:
  "same_versions w (fst (begin_triggered env c now key payload d v g creator w))"
  "settled_kept w (fst (begin_triggered env c now key payload d v g creator w))"
  unfolding begin_triggered_def Let_def
   apply (auto intro!: vers.R_intros version_frames)[1]
  apply (auto intro!: settle.R_intros settled_writes)
  done

lemma settled_mapI:
  assumes "wf_instances (ww_db w') = map h (wf_instances (ww_db w))"
    and "\<And>r. wi_id (h r) = wi_id r" "\<And>r. wi_status r \<noteq> ''running'' \<Longrightarrow> wi_status (h r) \<noteq> ''running''"
  shows "settled_kept w w'"
  using assms by (auto simp: settled_kept_def settled_def)

lemma advance_instance_settled: "settled_kept w (fst (advance_instance env now org i g p act rid dry w))"
proof -
  obtain w' r where a: "advance_instance env now org i g p act rid dry w = (w', r)" by fastforce
  then have "settled_kept w w'"
  proof (cases rule: advance_instance_cases)
    case unchanged
    then show ?thesis by (rule settle.R_tables)
  next
    case (committed inst nid n f s)
    show ?thesis
    proof (rule settled_mapI)
      show "wf_instances (ww_db w') = map (\<lambda>r. if wi_id r = wi_id inst \<and> wi_org r = org then f r else r) (wf_instances (ww_db w))"
        using committed(7) by (simp add: advanced_def)
      show "wi_id (if wi_id r = wi_id inst \<and> wi_org r = org then f r else r) = wi_id r" for r
        using row_moves_ids [OF committed(8) [rule_format], of r] by simp
      show "wi_status (if wi_id r = wi_id inst \<and> wi_org r = org then f r else r) \<noteq> ''running''"
        if "wi_status r \<noteq> ''running''" for r
        using row_moves_status [OF committed(8) [rule_format], of r] that by auto
    qed
  qed
  with a show ?thesis by simp
qed

lemma run_iterations_settled: "settled_kept w (fst (run_iterations env now org i g p act rid dry k w))"
  by (induction k arbitrary: w) (auto intro!: settle.R_intros advance_instance_settled)

lemma drive_kept: "published_kept w (fst (drive env c now s w))" "settled_kept w (fst (drive env c now s w))"
  using drive_config [of env c now s w]
  by (simp_all add: same_versions_published same_versions_def wf_config_def)
    (simp add: drive_def run_until_idle_def run_iterations_settled)

lemma start_instance_kept:
  "published_kept w (fst (start_instance env odb c now raw dr payload w))"
  "settled_kept w (fst (start_instance env odb c now raw dr payload w))"
  unfolding start_instance_def Let_def
   apply (auto intro!: published.R_intros drive_kept same_versions_published [OF begin_instance_kept(1)] split: option.split)[1]
  apply (auto intro!: settle.R_intros drive_kept begin_instance_kept split: option.split)
  done

lemma trigger_begin_kept:
  "same_versions w (fst (trigger_begin env odb seen c now key payload d v w))"
  "settled_kept w (fst (trigger_begin env odb seen c now key payload d v w))"
  unfolding trigger_begin_def
   apply (auto intro!: vers.R_intros begin_triggered_kept split: sum.split)[1]
  apply (auto intro!: settle.R_intros begin_triggered_kept split: sum.split)
  done

lemma trigger_one_kept:
  "published_kept w (fst (trigger_one env odb c now key payload d v w))"
  "settled_kept w (fst (trigger_one env odb c now key payload d v w))"
  unfolding trigger_one_def
   apply (auto intro!: published.R_intros drive_kept same_versions_published [OF trigger_begin_kept(1)]
      simp: case_prod_beta split: option.split)[1]
  apply (auto intro!: settle.R_intros drive_kept trigger_begin_kept simp: case_prod_beta split: option.split)
  done

lemma trigger_loop_kept:
  "published_kept w (fst (trigger_loop env odb c now key payload ds n w))"
  "settled_kept w (fst (trigger_loop env odb c now key payload ds n w))"
   apply (induction ds arbitrary: n w; auto intro!: published.R_intros trigger_one_kept)
  apply (induction ds arbitrary: n w; auto intro!: settle.R_intros trigger_one_kept)
  done

lemma ingest_kept:
  "published_kept w (fst (ingest_trigger_event env odb c now key payload w))"
  "settled_kept w (fst (ingest_trigger_event env odb c now key payload w))"
  unfolding ingest_trigger_event_def
   apply (auto intro!: published.R_intros trigger_loop_kept)[1]
  apply (auto intro!: settle.R_intros trigger_loop_kept)
  done

lemma table_frames:
  "same_versions w (w\<lparr>ww_db := (ww_db w)\<lparr>wf_instances := x\<rparr>\<rparr>)"
  "same_versions w (w\<lparr>ww_db := (ww_db w)\<lparr>wf_bounds := y\<rparr>\<rparr>)"
  "settled_kept w (w\<lparr>ww_db := (ww_db w)\<lparr>wf_bounds := y\<rparr>\<rparr>)"
  "same_versions w (fst (srv_emit env rid org act ag ev pl (w\<lparr>ww_db := (ww_db w)\<lparr>wf_instances := x\<rparr>\<rparr>)))"
proof -
  show e: "same_versions w (w\<lparr>ww_db := (ww_db w)\<lparr>wf_instances := x\<rparr>\<rparr>)" by (simp add: same_versions_def)
  show "same_versions w (fst (srv_emit env rid org act ag ev pl (w\<lparr>ww_db := (ww_db w)\<lparr>wf_instances := x\<rparr>\<rparr>)))"
    by (rule vers.R_trans [OF e version_frames(1)])
qed (simp_all add: same_versions_def settled_kept_def settled_def)

lemma rows_settled:
  assumes "\<And>r. wi_id (h r) = wi_id r" "\<And>r. wi_status r \<noteq> ''running'' \<Longrightarrow> wi_status (h r) \<noteq> ''running''"
  shows "settled_kept w (w\<lparr>ww_db := (ww_db w)\<lparr>wf_instances := map h (wf_instances (ww_db w))\<rparr>\<rparr>)"
    "settled_kept w (fst (srv_emit env rid org act ag ev pl
       (w\<lparr>ww_db := (ww_db w)\<lparr>wf_instances := map h (wf_instances (ww_db w))\<rparr>\<rparr>)))"
proof -
  show e: "settled_kept w (w\<lparr>ww_db := (ww_db w)\<lparr>wf_instances := map h (wf_instances (ww_db w))\<rparr>\<rparr>)"
    by (rule settled_mapI [where h = h]) (simp_all add: assms)
  show "settled_kept w (fst (srv_emit env rid org act ag ev pl
       (w\<lparr>ww_db := (ww_db w)\<lparr>wf_instances := map h (wf_instances (ww_db w))\<rparr>\<rparr>)))"
    by (rule settle.R_trans [OF e]) (rule same_instances_settled [OF instance_frames(1)])
qed

lemma cancel_instance_kept:
  "same_versions w (fst (cancel_instance env odb c now raw w))" "settled_kept w (fst (cancel_instance env odb c now raw w))"
  unfolding cancel_instance_def Let_def
   apply (auto intro!: vers.R_intros table_frames split: option.split)[1]
  apply (auto intro!: settle.R_intros rows_settled split: option.split if_split_asm)
  done

lemma monitor_kept: "same_versions w (fst (monitor env odb c now w))" "settled_kept w (fst (monitor env odb c now w))"
  unfolding monitor_def Let_def breach_sla_def
   apply (intro vers.R_intros, simp add: table_frames)
  apply (intro settle.R_intros, simp add: rows_settled)
  done

lemma update_bounds_kept:
  "same_versions w (fst (update_bounds env odb c mc ms w))" "settled_kept w (fst (update_bounds env odb c mc ms w))"
  unfolding update_bounds_def Let_def
   apply (auto intro!: vers.R_intros table_frames)[1]
  apply (auto intro!: settle.R_intros table_frames)
  done

section \<open>The service as a step relation\<close>

inductive wf_call :: "wf_service_env \<Rightarrow> wf_world \<Rightarrow> wf_world \<Rightarrow> bool" for env where
  create: "wf_call env w (fst (create_definition env odb c name d g w))"
| update: "wf_call env w (fst (update_definition env odb c raw body w))"
| publish: "wf_call env w (fst (publish_definition env odb c now raw w))"
| start: "wf_call env w (fst (start_instance env odb c now raw dr payload w))"
| cancel: "wf_call env w (fst (cancel_instance env odb c now raw w))"
| trigger: "wf_call env w (fst (ingest_trigger_event env odb c now key payload w))"
| monitor: "wf_call env w (fst (monitor env odb c now w))"
| bounds: "wf_call env w (fst (update_bounds env odb c mc ms w))"

lemma wf_call_kept:
  assumes "wf_call env w w'"
  shows "published_kept w w' \<and> settled_kept w w'"
  using assms
  by (induction rule: wf_call.induct)
    (simp_all add: create_definition_kept update_definition_kept publish_definition_kept start_instance_kept
      cancel_instance_kept ingest_kept monitor_kept update_bounds_kept same_versions_published same_instances_settled)

text \<open>
  C12: A published version is immutable. Whatever calls the service answers, with any callers,
  memberships and times, a version with a positive number that is in the table stays there
  unchanged (graph, required permissions, publication), so that the instances pinned to it keep
  their graph; version ids stay unique.
\<close>

theorem published_immutable:
  assumes "(wf_call env)\<^sup>*\<^sup>* w w'" "versions_unique (ww_db w)"
    and "v \<in> set (wf_versions (ww_db w))" "wv_version v > 0"
  shows "versions_unique (ww_db w') \<and> v \<in> set (wf_versions (ww_db w'))"
proof -
  have "published_kept w w'" by (rule published.R_rtrancl [OF _ assms(1)]) (use wf_call_kept in blast)
  with assms(2-4) show ?thesis by (simp add: published_kept_def)
qed

text \<open>
  An instance that is not running never runs again. No call of the service takes an instance
  out of the waiting state into the running one: the timer of a timer node and the decision of a
  human step have no effect in this service, so a waiting instance ends as cancelled or with a
  breached deadline, or waits for ever.
\<close>

theorem waiting_never_resumes:
  assumes "(wf_call env)\<^sup>*\<^sup>* w w'" "settled i (ww_db w)"
  shows "settled i (ww_db w')"
proof -
  have "settled_kept w w'" by (rule settle.R_rtrancl [OF _ assms(1)]) (use wf_call_kept in blast)
  with assms(2) show ?thesis by (simp add: settled_kept_def)
qed

section \<open>Starting an instance\<close>

text \<open>What a successful beginning has checked and written, for both ways to start.\<close>

definition begun ::
  "wf_service_env \<Rightarrow> org_db \<Rightarrow> wf_caller \<Rightarrow> wf_definition \<Rightarrow> started \<Rightarrow> wf_world \<Rightarrow> wf_world \<Rightarrow> bool" where
  "begun env odb c d s w w' \<longleftrightarrow>
     wf_instances (ww_db w') = wf_instances (ww_db w) @ [sd_instance s] \<and> wf_bounds (ww_db w') = wf_bounds (ww_db w) \<and>
     ww_http w' = ww_http w \<and> wi_org (sd_instance s) = wc_org c \<and> wi_status (sd_instance s) = ''running'' \<and>
     wi_step_count (sd_instance s) = 0 \<and> wi_actor_user (sd_instance s) = wd_created_by d \<and>
     wi_current_node (sd_instance s) = Some (wg_entry (sd_graph s)) \<and>
     wi_id (sd_instance s) \<notin> wi_id ` set (wf_instances (ww_db w))"

lemma insert_instance_Inr:
  "insert_instance env rid i w = (w', Inr u) \<Longrightarrow>
   wf_instances (ww_db w') = wf_instances (ww_db w) @ [i] \<and> wf_bounds (ww_db w') = wf_bounds (ww_db w) \<and> ww_http w' = ww_http w \<and>
   wi_id i \<notin> wi_id ` set (wf_instances (ww_db w))"
  by (auto simp: insert_instance_def list_ex_iff split: if_splits)

lemma fresh_uuid_Inr: "fresh_uuid env w = (w', r) \<Longrightarrow> ww_db w' = ww_db w \<and> ww_http w' = ww_http w"
  by (auto simp: fresh_uuid_def)

lemma srv_emit_http [simp]: "ww_http (fst (srv_emit env rid org act ag ev pl w)) = ww_http w"
  by (simp add: srv_emit_def Let_def split: sum.split prod.split)

lemma idem_put_http [simp]: "ww_http (fst (idem_put env rid org sc key st body w)) = ww_http w"
  by (simp add: idem_put_def fresh_uuid_def tx_then_def)

lemma srv_emit_Inr:
  "srv_emit env rid org act ag ev pl w = (w', r) \<Longrightarrow>
   wf_instances (ww_db w') = wf_instances (ww_db w) \<and> wf_bounds (ww_db w') = wf_bounds (ww_db w) \<and> ww_http w' = ww_http w"
  using instance_frames(1) [of w env rid org act ag ev pl] srv_emit_http [of env rid org act ag ev pl w]
  by (simp add: same_instances_def)

lemma idem_put_Inr:
  "idem_put env rid org sc key st body w = (w', r) \<Longrightarrow>
   wf_instances (ww_db w') = wf_instances (ww_db w) \<and> wf_bounds (ww_db w') = wf_bounds (ww_db w) \<and> ww_http w' = ww_http w"
  using instance_frames(2) [of w env rid org sc key st body] idem_put_http [of env rid org sc key st body w]
  by (simp add: same_instances_def)

lemma pure_tx_Inr: "pure_tx r w = (w', Inr x) \<longleftrightarrow> w' = w \<and> r = Inr x"
  by (auto simp: pure_tx_def)

lemma begin_seen_Inr:
  assumes "begin_seen env odb seen c now sc idem def_id payload w = (w', Inr s)"
  shows "\<exists>d ver v. find_definition (ww_db w) (wc_org c) def_id = Some d \<and> wd_published_version d = Some ver \<and>
    find_published (ww_db w) (wc_org c) def_id ver = Some v \<and> begun env odb c d s w w' \<and>
    is_ok (enforce_concurrency_cap seen (wc_org c) (wc_request_id c)) \<and>
    wi_version_id (sd_instance s) = wv_id v \<and> wse_graph_of env (wv_graph v) = Inr (sd_graph s) \<and>
    wf_load_principal odb (wc_org c) (wd_created_by d) (wc_request_id c) = Inr (sd_creator s) \<and>
    is_ok (creator_can_own env (sd_creator s) (sd_graph s) (wc_request_id c))"
proof -
  from assms obtain b d ver where b: "enforce_concurrency_cap seen (wc_org c) (wc_request_id c) = Inr b"
    and d: "find_definition (ww_db w) (wc_org c) def_id = Some d" "wd_published_version d = Some ver"
    by (auto simp: begin_seen_def Let_def tx_then_Inr pure_tx_Inr map_err_Inr split: option.splits)
  with assms obtain v where v: "find_published (ww_db w) (wc_org c) def_id ver = Some v"
    by (auto simp: begin_seen_def Let_def tx_then_Inr pure_tx_Inr map_err_Inr split: option.splits)
  from assms b d v obtain g creator req where
    g: "wse_graph_of env (wv_graph v) = Inr g"
      "wf_load_principal odb (wc_org c) (wd_created_by d) (wc_request_id c) = Inr creator"
      "creator_can_own env creator g (wc_request_id c) = Inr req"
    by (auto simp: begin_seen_def Let_def tx_then_Inr pure_tx_Inr map_err_Inr)
  from assms b d v g have "begun env odb c d s w w' \<and> sd_graph s = g \<and> sd_creator s = creator \<and>
      wi_version_id (sd_instance s) = wv_id v"
    by (auto simp: begin_seen_def Let_def tx_then_Inr pure_tx_Inr map_err_Inr begun_def
        dest!: fresh_uuid_Inr insert_instance_Inr srv_emit_Inr idem_put_Inr)
  then show ?thesis using b d v g by (intro exI [of _ d] exI [of _ ver] exI [of _ v]) simp
qed

lemma begin_triggered_Inr:
  assumes "begin_triggered env c now key payload d v g creator w = (w', Inr s)"
  shows "begun env odb c d s w w' \<and> sd_graph s = g \<and> sd_creator s = creator"
  using assms
  by (auto simp: begin_triggered_def Let_def tx_then_Inr begun_def
      dest!: fresh_uuid_Inr insert_instance_Inr srv_emit_Inr)

lemma begin_http:
  "ww_http (fst (begin_instance env odb c now sc idem def_id payload w)) = ww_http w"
  "ww_http (fst (begin_triggered env c now key payload d v g creator w)) = ww_http w"
  by (simp_all add: begin_instance_def begin_seen_def begin_triggered_def Let_def pure_tx_def fresh_uuid_def insert_instance_def
      fst_tx_then_http split: option.split)

lemma in_tx_cases:
  "in_tx f w = (w', Inl e) \<Longrightarrow> ww_db w' = ww_db w \<and> ww_http w' = ww_http (fst (f w))"
  "in_tx f w = (w', Inr x) \<longleftrightarrow> f w = (w', Inr x)"
  by (auto simp: in_tx_def split: prod.splits sum.splits)

text \<open>The requests of a whole run.\<close>

lemma run_iterations_sent:
  "\<exists>reqs. ww_http (fst (run_iterations env now org i g p act rid dry k w)) = ww_http w @ reqs \<and> length reqs \<le> k \<and>
     (\<forall>req \<in> set reqs. hr_org req = org_public env org \<and> hr_user req = actor_public env act)"
proof (induction k arbitrary: w)
  case (Suc k)
  show ?case
  proof (cases "map_option wi_status (find_instance (ww_db w) org i) = Some ''running''")
    case True
    obtain w' r where a: "advance_instance env now org i g p act rid dry w = (w', r)" by fastforce
    from advance_instance_requests [of env now org i g p act rid dry w] obtain reqs where
      reqs: "ww_http w' = ww_http w @ reqs" "sent_as env org act reqs" by (auto simp: a)
    from Suc.IH [of w'] obtain more where
      more: "ww_http (fst (run_iterations env now org i g p act rid dry k w')) = ww_http w' @ more" "length more \<le> k"
        "\<forall>req \<in> set more. hr_org req = org_public env org \<and> hr_user req = actor_public env act" by blast
    show ?thesis
    proof (cases r)
      case (Inl e)
      with a True reqs show ?thesis by (auto simp: tx_then_def sent_as_def)
    next
      case (Inr u)
      with a True reqs more show ?thesis
        by (intro exI [of _ "reqs @ more"]) (auto simp: tx_then_def sent_as_def)
    qed
  qed auto
qed simp

lemma drive_sent:
  "\<exists>reqs. ww_http (fst (drive env c now s w)) = ww_http w @ reqs \<and> length reqs \<le> 105 \<and>
     (\<forall>req \<in> set reqs. hr_org req = org_public (wse_engine env) (wc_org c) \<and>
        hr_user req = srv_public env ''User'' (wi_actor_user (sd_instance s)))"
  using run_iterations_sent [of "wse_engine env" now "wc_org c" "wi_id (sd_instance s)" "sd_graph s" "sd_creator s"
      "actor_human (wi_actor_user (sd_instance s))" "wc_request_id c" "dry_http env" 105 w]
  by (simp add: drive_def run_until_idle_def DEFAULT_MAX_STEPS_def actor_public_def srv_public_def actor_human_def)

text \<open>
  C11: Starting a workflow never acts with the rights of the caller. The requests that
  \<open>start_instance\<close> sends, at most 105, are all in the name of the user who created the
  definition that was asked for. There are any only if the caller may run workflows, the
  definition has a published version, the number of active instances is below the cap, and the
  creator still is a member whose loaded permissions may own the graph of that version, the very
  graph that runs.
\<close>

theorem start_acts_as_creator:
  assumes "start_instance env odb c now raw dr payload w = (w', r)"
  shows "\<exists>reqs. ww_http w' = ww_http w @ reqs \<and> length reqs \<le> 105 \<and>
    (reqs \<noteq> [] \<longrightarrow> (\<exists>def_id d ver v g p.
       is_ok (wf_authorize env odb c operations_workflow_run) \<and>
       wf_parse_public_id env ''WorkflowDefinition'' raw (wc_request_id c) = Inr def_id \<and>
       find_definition (ww_db w) (wc_org c) def_id = Some d \<and> wd_published_version d = Some ver \<and>
       find_published (ww_db w) (wc_org c) def_id ver = Some v \<and> wse_graph_of env (wv_graph v) = Inr g \<and>
       wf_load_principal odb (wc_org c) (wd_created_by d) (wc_request_id c) = Inr p \<and>
       is_ok (enforce_creator_can_own_graph (we_time (wse_engine env)) p g (wc_request_id c)) \<and>
       is_ok (enforce_concurrency_cap (ww_db w) (wc_org c) (wc_request_id c)) \<and>
       (\<forall>req \<in> set reqs. hr_org req = org_public (wse_engine env) (wc_org c) \<and>
          hr_user req = srv_public env ''User'' (wd_created_by d))))"
proof (cases "start_checks env odb c raw dr")
  case (Inl e)
  with assms show ?thesis by (auto simp: start_instance_def Let_def pure_tx_def tx_then_def)
next
  case (Inr x)
  obtain idem def_id where x: "x = (idem, def_id)" by fastforce
  from Inr x have checks: "is_ok (wf_authorize env odb c operations_workflow_run)"
      "wf_parse_public_id env ''WorkflowDefinition'' raw (wc_request_id c) = Inr def_id"
    by (auto simp: start_checks_def Let_def and_then_Inr split: if_splits)
  let ?b = "in_tx (begin_instance env odb c now (''workflow.start:'' @ raw) idem def_id payload) w"
  show ?thesis
  proof (cases "idem_get (ww_db w) (wc_org c) (''workflow.start:'' @ raw) idem")
    case (Some y)
    with assms Inr x show ?thesis by (cases y) (auto simp: start_instance_def Let_def pure_tx_def tx_then_def)
  next
    case None
    obtain w1 r1 where b: "?b = (w1, r1)" by fastforce
    show ?thesis
    proof (cases r1)
      case (Inl e)
      with in_tx_cases(1) [of _ w w1 e] b begin_http(1) have "ww_http w1 = ww_http w" by metis
      with assms Inr x None b Inl show ?thesis by (auto simp: start_instance_def Let_def pure_tx_def tx_then_def)
    next
      case s: (Inr s)
      with b have "begin_instance env odb c now (''workflow.start:'' @ raw) idem def_id payload w = (w1, Inr s)"
        by (simp add: in_tx_cases(2))
      from begin_seen_Inr [OF this [unfolded begin_instance_def]] obtain d ver v where
        d: "find_definition (ww_db w) (wc_org c) def_id = Some d" "wd_published_version d = Some ver"
          "find_published (ww_db w) (wc_org c) def_id ver = Some v" "wse_graph_of env (wv_graph v) = Inr (sd_graph s)"
          "wf_load_principal odb (wc_org c) (wd_created_by d) (wc_request_id c) = Inr (sd_creator s)"
          "is_ok (enforce_concurrency_cap (ww_db w) (wc_org c) (wc_request_id c))"
        and bs: "begun env odb c d s w w1"
          "is_ok (creator_can_own env (sd_creator s) (sd_graph s) (wc_request_id c))" by blast
      have gate: "is_ok (enforce_creator_can_own_graph (we_time (wse_engine env)) (sd_creator s) (sd_graph s) (wc_request_id c))"
        using bs(2) by (cases "enforce_creator_can_own_graph (we_time (wse_engine env)) (sd_creator s) (sd_graph s) (wc_request_id c)")
          (simp_all add: creator_can_own_def)
      have "ww_http w' = ww_http (fst (drive env c now s w1))"
        using assms Inr x None b s
        by (cases "drive env c now s w1"; cases "snd (drive env c now s w1)")
          (auto simp: start_instance_def Let_def pure_tx_def tx_then_def split: option.splits)
      with drive_sent [of env c now s w1] bs(1) obtain reqs where
        "ww_http w' = ww_http w @ reqs" "length reqs \<le> 105"
        "\<forall>req \<in> set reqs. hr_org req = org_public (wse_engine env) (wc_org c) \<and>
          hr_user req = srv_public env ''User'' (wd_created_by d)" by (auto simp: begun_def)
      then show ?thesis using checks d gate by blast
    qed
  qed
qed

section \<open>The concurrency cap\<close>

text \<open>
  The primary key of the instances, without which an update could revive a second row. Every
  write but the insert of a start keeps it, keeps the bounds and leaves no organisation with
  more active instances.
\<close>

definition instances_unique :: "wf_db \<Rightarrow> bool" where
  "instances_unique db \<longleftrightarrow> distinct (map wi_id (wf_instances db))"

definition not_more_active :: "wf_world \<Rightarrow> wf_world \<Rightarrow> bool" where
  "not_more_active w w' \<longleftrightarrow> (instances_unique (ww_db w) \<longrightarrow> instances_unique (ww_db w') \<and>
     wf_bounds (ww_db w') = wf_bounds (ww_db w) \<and>
     (\<forall>org. count_active_instances (ww_db w') org \<le> count_active_instances (ww_db w) org))"

interpretation fewer: tx_relation not_more_active
proof
  fix a b c assume ab: "not_more_active a b" and bc: "not_more_active b c"
  show "not_more_active a c"
    unfolding not_more_active_def
  proof
    assume u: "instances_unique (ww_db a)"
    with ab bc show "instances_unique (ww_db c) \<and> wf_bounds (ww_db c) = wf_bounds (ww_db a) \<and>
        (\<forall>org. count_active_instances (ww_db c) org \<le> count_active_instances (ww_db a) org)"
      unfolding not_more_active_def by (metis order_trans)
  qed
qed (simp_all add: not_more_active_def)

lemma same_bounds_cap: "wf_bounds db' = wf_bounds db \<Longrightarrow> load_or_default_bounds db' org = load_or_default_bounds db org"
  by (simp add: load_or_default_bounds_def)

lemma same_instances_fewer: "same_instances w w' \<Longrightarrow> not_more_active w w'"
  by (simp add: same_instances_def not_more_active_def count_active_instances_def instances_unique_def)

abbreviation active_row :: "wf_instance \<Rightarrow> bool" where
  "active_row r \<equiv> wi_status r \<in> {''running'', ''waiting''}"

lemma fewer_active:
  assumes "\<And>r. r \<in> set rs \<Longrightarrow> wi_org (h r) = wi_org r \<and> (active_row (h r) \<longrightarrow> active_row r)"
  shows "length (filter (\<lambda>i. wi_org i = org \<and> active_row i) (map h rs)) \<le>
    length (filter (\<lambda>i. wi_org i = org \<and> active_row i) rs)"
  using assms
proof (induction rs)
  case (Cons r rs)
  then have "length (filter (\<lambda>i. wi_org i = org \<and> active_row i) (map h rs)) \<le>
    length (filter (\<lambda>i. wi_org i = org \<and> active_row i) rs)" by simp
  with Cons.prems [of r] show ?case by auto
qed simp

lemma rows_fewer_active:
  assumes "wf_bounds (ww_db w') = wf_bounds (ww_db w)" "wf_instances (ww_db w') = map h (wf_instances (ww_db w))"
    and "\<And>r. wi_id (h r) = wi_id r"
    and "\<And>r. instances_unique (ww_db w) \<Longrightarrow> r \<in> set (wf_instances (ww_db w)) \<Longrightarrow>
      wi_org (h r) = wi_org r \<and> (active_row (h r) \<longrightarrow> active_row r)"
  shows "not_more_active w w'"
  unfolding not_more_active_def
proof
  assume u: "instances_unique (ww_db w)"
  have "map wi_id (wf_instances (ww_db w')) = map wi_id (wf_instances (ww_db w))" by (simp add: assms(2,3))
  with u have "instances_unique (ww_db w')" by (simp add: instances_unique_def)
  moreover have "count_active_instances (ww_db w') org \<le> count_active_instances (ww_db w) org" for org
    using fewer_active [OF assms(4) [OF u], of "wf_instances (ww_db w)" org]
    by (simp add: count_active_instances_def assms(2))
  ultimately show "instances_unique (ww_db w') \<and> wf_bounds (ww_db w') = wf_bounds (ww_db w) \<and>
     (\<forall>org. count_active_instances (ww_db w') org \<le> count_active_instances (ww_db w) org)"
    using assms(1) by simp
qed

lemma advance_instance_fewer: "not_more_active w (fst (advance_instance env now org i g p act rid dry w))"
proof -
  obtain w' r where a: "advance_instance env now org i g p act rid dry w = (w', r)" by fastforce
  then have "not_more_active w w'"
  proof (cases rule: advance_instance_cases)
    case unchanged
    then show ?thesis by (rule fewer.R_tables)
  next
    case (committed inst nid n f s)
    let ?h = "\<lambda>r. if wi_id r = wi_id inst \<and> wi_org r = org then f r else r"
    note moves = row_moves_ids [OF committed(8) [rule_format]]
    show ?thesis
    proof (rule rows_fewer_active [where h = ?h])
      show "wf_bounds (ww_db w') = wf_bounds (ww_db w)" "wf_instances (ww_db w') = map ?h (wf_instances (ww_db w))"
        using committed(7) by (simp_all add: advanced_def)
      show "wi_id (?h r) = wi_id r" for r using moves [of r] by simp
      fix r assume u: "instances_unique (ww_db w)" and r: "r \<in> set (wf_instances (ww_db w))"
      have inst: "inst \<in> set (wf_instances (ww_db w))" using find_instance_Some [OF committed(2)] by simp
      show "wi_org (?h r) = wi_org r \<and> (active_row (?h r) \<longrightarrow> active_row r)"
      proof (cases "wi_id r = wi_id inst \<and> wi_org r = org")
        case True
        with u r inst have "r = inst" unfolding instances_unique_def distinct_map inj_on_def by blast
        with committed(3) moves [of r] show ?thesis by simp
      qed auto
    qed
  qed
  with a show ?thesis by simp
qed

lemma rows_fewer:
  assumes "\<And>r. wi_id (h r) = wi_id r \<and> wi_org (h r) = wi_org r \<and> (active_row (h r) \<longrightarrow> active_row r)"
  shows "not_more_active w (w\<lparr>ww_db := (ww_db w)\<lparr>wf_instances := map h (wf_instances (ww_db w))\<rparr>\<rparr>)"
    "not_more_active w (fst (srv_emit env rid org act ag ev pl
       (w\<lparr>ww_db := (ww_db w)\<lparr>wf_instances := map h (wf_instances (ww_db w))\<rparr>\<rparr>)))"
proof -
  show e: "not_more_active w (w\<lparr>ww_db := (ww_db w)\<lparr>wf_instances := map h (wf_instances (ww_db w))\<rparr>\<rparr>)"
    by (rule rows_fewer_active [where h = h]) (simp_all add: assms del: insert_iff)
  show "not_more_active w (fst (srv_emit env rid org act ag ev pl
       (w\<lparr>ww_db := (ww_db w)\<lparr>wf_instances := map h (wf_instances (ww_db w))\<rparr>\<rparr>)))"
    by (rule fewer.R_trans [OF e]) (rule same_instances_fewer [OF instance_frames(1)])
qed

lemma cancel_instance_fewer: "not_more_active w (fst (cancel_instance env odb c now raw w))"
  unfolding cancel_instance_def Let_def
  by (auto intro!: fewer.R_intros rows_fewer split: option.split if_split_asm)

lemma monitor_fewer: "not_more_active w (fst (monitor env odb c now w))"
  unfolding monitor_def Let_def breach_sla_def by (intro fewer.R_intros, simp add: rows_fewer)

lemma update_bounds_active:
  "wf_instances (ww_db (fst (update_bounds env odb c mc ms w))) = wf_instances (ww_db w)"
  by (simp add: update_bounds_def Let_def tx_then_def pure_tx_def split: sum.split)

lemma update_bounds_cap:
  assumes "wc_org c \<noteq> org \<or> mc \<le> C" "fst (load_or_default_bounds (ww_db w) org) \<le> C"
  shows "fst (load_or_default_bounds (ww_db (fst (update_bounds env odb c mc ms w))) org) \<le> C"
  using assms
  by (auto simp: update_bounds_def Let_def tx_then_def pure_tx_def load_or_default_bounds_def update_conv' split: sum.split)

text \<open>What the insert of a start does, given the tables its count saw.\<close>

definition may_insert :: "wf_db \<Rightarrow> wf_caller \<Rightarrow> wf_world \<Rightarrow> wf_world \<Rightarrow> bool" where
  "may_insert seen c w w' \<longleftrightarrow> ww_db w' = ww_db w \<or>
     (is_ok (enforce_concurrency_cap seen (wc_org c) (wc_request_id c)) \<and>
      wf_bounds (ww_db w') = wf_bounds (ww_db w) \<and>
      (\<exists>i. wf_instances (ww_db w') = wf_instances (ww_db w) @ [i] \<and> wi_org i = wc_org c \<and> wi_status i = ''running'' \<and>
         wi_id i \<notin> wi_id ` set (wf_instances (ww_db w))))"

lemma begun_may_insert:
  "begun env odb c d s w w' \<Longrightarrow> is_ok (enforce_concurrency_cap seen (wc_org c) (wc_request_id c)) \<Longrightarrow> may_insert seen c w w'"
  by (auto simp: begun_def may_insert_def)

lemma begin_seen_may_insert: "may_insert seen c w (fst (in_tx (begin_seen env odb seen c now sc idem def_id payload) w))"
proof (cases "begin_seen env odb seen c now sc idem def_id payload w")
  case (Pair w' r)
  show ?thesis
  proof (cases r)
    case (Inl e)
    with Pair show ?thesis by (simp add: in_tx_def may_insert_def)
  next
    case (Inr s)
    with Pair begin_seen_Inr [of env odb seen c now sc idem def_id payload w w' s] begun_may_insert show ?thesis
      by (auto simp: in_tx_def)
  qed
qed

lemma trigger_begin_may_insert: "may_insert seen c w (fst (trigger_begin env odb seen c now key payload d v w))"
proof (cases "is_ok (enforce_concurrency_cap seen (wc_org c) (wc_request_id c))")
  case True
  have one: "may_insert seen c w (fst (in_tx (begin_triggered env c now key payload d v g creator) w))" for g creator
  proof (cases "begin_triggered env c now key payload d v g creator w")
    case (Pair w' r)
    show ?thesis
    proof (cases r)
      case (Inl e)
      with Pair show ?thesis by (simp add: in_tx_def may_insert_def)
    next
      case (Inr s)
      with Pair begun_may_insert [OF begin_triggered_Inr [THEN conjunct1] True, of env now key payload d v g creator w w' s]
      show ?thesis by (simp add: in_tx_def)
    qed
  qed
  have "fst (trigger_begin env odb seen c now key payload d v w) = w \<or>
    (\<exists>g creator. fst (trigger_begin env odb seen c now key payload d v w) =
       fst (in_tx (begin_triggered env c now key payload d v g creator) w))"
    by (auto simp: trigger_begin_def pure_tx_def tx_then_def split: sum.split prod.split) (metis fst_conv)+
  then show ?thesis
  proof (elim disjE exE)
    show ?thesis if "fst (trigger_begin env odb seen c now key payload d v w) = w" using that by (simp add: may_insert_def)
  qed (simp only: one)
qed (simp add: trigger_begin_def may_insert_def split: sum.split)

text \<open>
  Interleaved starts. A start first counts (\<open>counted\<close>: it keeps the tables it saw) and later
  inserts (\<open>started\<close>, \<open>triggered\<close>) or gives up; in between other requests count, insert, advance
  instances or change anything else. At most \<open>k\<close> starts of the organisation are between their
  count and their insert at any time, and nobody sets its cap above \<open>C\<close>.
\<close>

definition starts_between :: "uuid \<Rightarrow> (uuid \<times> wf_db) list \<Rightarrow> nat" where
  "starts_between org ts = length (filter (\<lambda>t. fst t = org) ts)"

inductive cap_step ::
  "wf_service_env \<Rightarrow> uuid \<Rightarrow> nat \<Rightarrow> int \<Rightarrow> wf_world \<times> (uuid \<times> wf_db) list \<Rightarrow> wf_world \<times> (uuid \<times> wf_db) list \<Rightarrow> bool"
  for env org k C where
  counted: "starts_between org ((org', ww_db w) # ts) \<le> k \<Longrightarrow> cap_step env org k C (w, ts) (w, (org', ww_db w) # ts)"
| started: "(wc_org c, seen) \<in> set ts \<Longrightarrow> cap_step env org k C (w, ts)
    (fst (in_tx (begin_seen env odb seen c now sc idem def_id payload) w), remove1 (wc_org c, seen) ts)"
| triggered: "(wc_org c, seen) \<in> set ts \<Longrightarrow> cap_step env org k C (w, ts)
    (fst (trigger_begin env odb seen c now key payload d v w), remove1 (wc_org c, seen) ts)"
| given_up: "cap_step env org k C (w, ts) (w, remove1 t ts)"
| advanced: "cap_step env org k C (w, ts)
    (fst (advance_instance (wse_engine env) now org' i g p act rid dry w), ts)"
| create: "cap_step env org k C (w, ts) (fst (create_definition env odb c name d g w), ts)"
| update: "cap_step env org k C (w, ts) (fst (update_definition env odb c raw body w), ts)"
| publish: "cap_step env org k C (w, ts) (fst (publish_definition env odb c now raw w), ts)"
| cancel: "cap_step env org k C (w, ts) (fst (cancel_instance env odb c now raw w), ts)"
| monitor: "cap_step env org k C (w, ts) (fst (monitor env odb c now w), ts)"
| bounds: "wc_org c \<noteq> org \<or> mc \<le> C \<Longrightarrow> cap_step env org k C (w, ts) (fst (update_bounds env odb c mc ms w), ts)"
| idle: "ww_db w' = ww_db w \<Longrightarrow> cap_step env org k C (w, ts) (w', ts)"

text \<open>The starts that will pass the check: the organisation was below the cap in what they saw.\<close>

definition starts_granted :: "uuid \<Rightarrow> (uuid \<times> wf_db) list \<Rightarrow> nat" where
  "starts_granted org ts = length (filter (\<lambda>t. fst t = org \<and>
     count_active_instances (snd t) org < fst (load_or_default_bounds (snd t) org)) ts)"

definition cap_inv :: "uuid \<Rightarrow> int \<Rightarrow> int \<Rightarrow> wf_world \<times> (uuid \<times> wf_db) list \<Rightarrow> bool" where
  "cap_inv org C M s \<longleftrightarrow> instances_unique (ww_db (fst s)) \<and> fst (load_or_default_bounds (ww_db (fst s)) org) \<le> C \<and>
     count_active_instances (ww_db (fst s)) org + int (starts_granted org (snd s)) \<le> M"

lemma cap_ok_iff:
  "is_ok (enforce_concurrency_cap db org rid) \<longleftrightarrow> count_active_instances db org < fst (load_or_default_bounds db org)"
  by (auto simp: enforce_concurrency_cap_def Let_def)

lemma length_filter_remove1:
  "length (filter P (remove1 x xs)) = length (filter P xs) - (if x \<in> set xs \<and> P x then 1 else 0)"
  by (simp add: filter_remove1 length_remove1)

lemma starts_remove1: "starts_granted org (remove1 t ts) \<le> starts_granted org ts"
  by (simp add: starts_granted_def length_filter_remove1)

lemma starts_use:
  assumes "t \<in> set ts" "fst t = org" "count_active_instances (snd t) org < fst (load_or_default_bounds (snd t) org)"
  shows "Suc (starts_granted org (remove1 t ts)) = starts_granted org ts"
proof -
  let ?P = "\<lambda>t. fst t = org \<and> count_active_instances (snd t) org < fst (load_or_default_bounds (snd t) org)"
  have "t \<in> set (filter ?P ts)" using assms by simp
  then have "0 < length (filter ?P ts)" by (rule length_pos_if_in_set)
  with assms show ?thesis by (simp add: starts_granted_def length_filter_remove1)
qed

lemma granted_between: "starts_granted org ts \<le> starts_between org ts"
  by (induction ts) (auto simp: starts_granted_def starts_between_def)

lemma fewer_inv:
  assumes "not_more_active w w'" "cap_inv org C M (w, ts)"
  shows "cap_inv org C M (w', ts)"
  using assms same_bounds_cap [of "ww_db w'" "ww_db w" org]
  unfolding cap_inv_def not_more_active_def by (auto intro: order_trans add_right_mono)

lemma insert_inv:
  assumes "may_insert seen c w w'" "(wc_org c, seen) \<in> set ts" "cap_inv org C M (w, ts)"
  shows "cap_inv org C M (w', remove1 (wc_org c, seen) ts)"
proof (cases "ww_db w' = ww_db w")
  case True
  then show ?thesis using assms(3) starts_remove1 [of org "(wc_org c, seen)" ts] by (simp add: cap_inv_def)
next
  case False
  with assms(1) obtain i where ok: "is_ok (enforce_concurrency_cap seen (wc_org c) (wc_request_id c))"
    and b: "wf_bounds (ww_db w') = wf_bounds (ww_db w)"
    and i: "wf_instances (ww_db w') = wf_instances (ww_db w) @ [i]" "wi_org i = wc_org c" "wi_status i = ''running''"
      "wi_id i \<notin> wi_id ` set (wf_instances (ww_db w))"
    unfolding may_insert_def by blast
  have "instances_unique (ww_db w')" using assms(3) i by (simp add: cap_inv_def instances_unique_def)
  moreover have "count_active_instances (ww_db w') org =
      count_active_instances (ww_db w) org + (if wc_org c = org then 1 else 0)"
    by (simp add: count_active_instances_def i)
  moreover have "starts_granted org (remove1 (wc_org c, seen) ts) + (if wc_org c = org then 1 else 0) \<le> starts_granted org ts"
    using starts_remove1 [of org "(wc_org c, seen)" ts] starts_use [OF assms(2), of org] ok
    by (auto simp: cap_ok_iff)
  ultimately show ?thesis
    using assms(3) same_bounds_cap [OF b, of org] by (auto simp: cap_inv_def split: if_splits)
qed

lemma cap_step_inv:
  assumes "cap_step env org k C s s'" "cap_inv org C M s" "C - 1 + int k \<le> M"
  shows "cap_inv org C M s'"
  using assms(1,2)
proof (cases rule: cap_step.cases)
  case (counted org' w ts)
  have k: "int (starts_granted org ((org', ww_db w) # ts)) \<le> int k"
    using counted(3) granted_between [of org "(org', ww_db w) # ts"] by simp
  show ?thesis
  proof (cases "org' = org \<and> count_active_instances (ww_db w) org < fst (load_or_default_bounds (ww_db w) org)")
    case True
    with k assms(2,3) counted show ?thesis by (simp add: cap_inv_def)
  next
    case False
    then have "starts_granted org ((org', ww_db w) # ts) = starts_granted org ts" by (auto simp: starts_granted_def)
    with assms(2) counted show ?thesis by (simp add: cap_inv_def)
  qed
next
  case (started c seen ts odb now sc idem def_id payload w)
  with assms(2) show ?thesis by (auto intro: insert_inv [OF begin_seen_may_insert])
next
  case (triggered c seen ts odb now key payload d v w)
  with assms(2) show ?thesis by (auto intro: insert_inv [OF trigger_begin_may_insert])
next
  case (given_up w ts t)
  with assms(2) starts_remove1 [of org t ts] show ?thesis by (simp add: cap_inv_def)
next
  case (bounds c mc w ts odb ms)
  with assms(2) update_bounds_cap [of c org mc C w env odb ms] show ?thesis
    by (simp add: cap_inv_def instances_unique_def count_active_instances_def update_bounds_active)
next
  case (idle w' w ts)
  with assms(2) show ?thesis by (simp add: cap_inv_def)
qed (auto intro: fewer_inv advance_instance_fewer cancel_instance_fewer monitor_fewer
    same_instances_fewer create_definition_kept update_definition_kept publish_definition_kept)

text \<open>
  C13: What the concurrency cap guarantees under every interleaving of requests. The cap is
  enforced by a count without a lock, so simultaneous starts can pass it together; but as long
  as at most \<open>k\<close> starts of an organisation are between their count and their insert, and its cap
  never is above \<open>C\<close>, the organisation never has more active instances than the larger of what it
  had and \<open>C - 1 + k\<close>: the cap itself when starts come one after another, and no more than
  \<open>k - 1\<close> above it otherwise. Instance ids stay unique.
\<close>

theorem concurrency_cap_holds:
  assumes "(cap_step env org k C)\<^sup>*\<^sup>* (w, []) (w', ts)" "instances_unique (ww_db w)"
    and "fst (load_or_default_bounds (ww_db w) org) \<le> C"
  shows "instances_unique (ww_db w') \<and>
    count_active_instances (ww_db w') org \<le> max (count_active_instances (ww_db w) org) (C - 1 + int k)"
proof -
  let ?M = "max (count_active_instances (ww_db w) org) (C - 1 + int k)"
  have "cap_inv org C ?M s" if "(cap_step env org k C)\<^sup>*\<^sup>* (w, []) s" for s
    using that
  proof (induction rule: rtranclp_induct)
    case base
    show ?case using assms(2,3) by (simp add: cap_inv_def starts_granted_def)
  next
    case (step s s')
    then show ?case using cap_step_inv [of env org k C s s' ?M] by simp
  qed
  from this [OF assms(1)] show ?thesis by (simp add: cap_inv_def)
qed

text \<open>
  The handlers are such interleavings: a request served without interruption is a sequence of
  these steps with one start between its count and its insert at a time.
\<close>

definition served :: "wf_service_env \<Rightarrow> uuid \<Rightarrow> int \<Rightarrow> wf_world \<Rightarrow> wf_world \<Rightarrow> bool" where
  "served env org C w w' \<longleftrightarrow> (cap_step env org 1 C)\<^sup>*\<^sup>* (w, []) (w', [])"

interpretation serve: tx_relation "served env org C" for env org C
proof
  show "served env org C w w" for w by (simp add: served_def)
  show "served env org C a b \<Longrightarrow> served env org C b c \<Longrightarrow> served env org C a c" for a b c
    unfolding served_def by (rule rtranclp_trans)
  show "served env org C a b" if "ww_db b = ww_db a" for a b
    unfolding served_def by (rule r_into_rtranclp) (rule cap_step.idle [OF that])
qed

lemma count_then_insert:
  assumes "cap_step env org 1 C (w, [(org', ww_db w)]) (w', remove1 (org', ww_db w) [(org', ww_db w)])"
  shows "served env org C w w'"
proof -
  have "cap_step env org 1 C (w, []) (w, [(org', ww_db w)])"
    by (rule cap_step.counted) (simp add: starts_between_def)
  moreover have "cap_step env org 1 C (w, [(org', ww_db w)]) (w', [])" using assms by simp
  ultimately show ?thesis unfolding served_def by (meson converse_rtranclp_into_rtranclp r_into_rtranclp)
qed

lemma begin_instance_served: "served env org C w (fst (in_tx (begin_instance env odb c now sc idem def_id payload) w))"
proof -
  have "in_tx (begin_instance env odb c now sc idem def_id payload) w =
      in_tx (begin_seen env odb (ww_db w) c now sc idem def_id payload) w"
    by (simp add: in_tx_def begin_instance_def)
  then show ?thesis
    using count_then_insert [OF cap_step.started, of c w env org C odb now sc idem def_id payload] by simp
qed

lemma trigger_begin_served: "served env org C w (fst (trigger_begin env odb (ww_db w) c now key payload d v w))"
  using count_then_insert [OF cap_step.triggered, of c w env org C odb now key payload d v] by simp

lemma run_iterations_served:
  "served env org C w (fst (run_iterations (wse_engine env) now org' i g p act rid dry k w))"
proof (induction k arbitrary: w)
  case (Suc k)
  have "served env org C w (fst (advance_instance (wse_engine env) now org' i g p act rid dry w))" for w
    unfolding served_def by (rule r_into_rtranclp) (rule cap_step.advanced)
  with Suc show ?case by (auto intro!: serve.R_intros)
qed (simp add: serve.R_refl)

lemma drive_served: "served env org C w (fst (drive env c now s w))"
  by (simp add: drive_def run_until_idle_def run_iterations_served)

lemma start_instance_served: "served env org C w (fst (start_instance env odb c now raw dr payload w))"
  unfolding start_instance_def Let_def
  by (auto intro!: serve.R_then serve.R_pure serve.R_refl drive_served begin_instance_served split: option.split)

lemma trigger_one_served: "served env org C w (fst (trigger_one env odb c now key payload d v w))"
  unfolding trigger_one_def
  by (auto intro!: serve.R_then serve.R_refl drive_served trigger_begin_served simp: case_prod_beta split: option.split)

lemma trigger_loop_served: "served env org C w (fst (trigger_loop env odb c now key payload ds n w))"
  by (induction ds arbitrary: n w) (auto intro!: serve.R_intros trigger_one_served)

lemma ingest_served: "served env org C w (fst (ingest_trigger_event env odb c now key payload w))"
  unfolding ingest_trigger_event_def by (auto intro!: serve.R_intros trigger_loop_served)

lemma served_steps:
  "served env org C w (fst (create_definition env odb c name d g w))"
  "served env org C w (fst (update_definition env odb c raw body w))"
  "served env org C w (fst (publish_definition env odb c now raw w))"
  "served env org C w (fst (cancel_instance env odb c now raw w))"
  "served env org C w (fst (monitor env odb c now w))"
  unfolding served_def by (rule r_into_rtranclp, rule cap_step.intros)+

text \<open>
  So the cap itself holds while the calls of the service are served one after another, even for
  a trigger that starts many workflows.
\<close>

theorem concurrency_cap_serial:
  assumes "wf_call env w w'" "instances_unique (ww_db w)"
  shows "instances_unique (ww_db w') \<and> count_active_instances (ww_db w') org \<le>
    max (count_active_instances (ww_db w) org) (fst (load_or_default_bounds (ww_db w) org))"
proof -
  let ?C = "fst (load_or_default_bounds (ww_db w) org)"
  have "served env org ?C w w' \<or> wf_instances (ww_db w') = wf_instances (ww_db w)"
    using assms(1)
    by (induction rule: wf_call.induct) (simp_all add: start_instance_served ingest_served served_steps update_bounds_active)
  then show ?thesis
  proof
    assume "served env org ?C w w'"
    then have "cap_inv org ?C (max (count_active_instances (ww_db w) org) ?C) (w', [])"
      unfolding served_def
    proof (induction rule: rtranclp_induct)
      case base
      show ?case using assms(2) by (simp add: cap_inv_def starts_granted_def)
    next
      case (step s s')
      then show ?case using cap_step_inv [OF step.hyps(2) step.IH] by simp
    qed
    then show ?thesis by (simp add: cap_inv_def starts_granted_def)
  qed (use assms(2) in \<open>simp add: instances_unique_def count_active_instances_def\<close>)
qed

section \<open>Concrete instances\<close>

definition demo_service_env :: wf_service_env where
  "demo_service_env = \<lparr>wse_engine = demo_wf_env\<lparr>we_relay := demo_relay_env\<lparr>re_show_uuid := bits_of_uuid,
       re_gen_uuid := (\<lambda>k. of_nat (min k 900))\<rparr>\<rparr>,
     wse_parse_uuid = uuid_of_bits, wse_graph_json = (\<lambda>g. JNull), wse_graph_of = (\<lambda>j. Inr demo_graph),
     wse_version_json = (\<lambda>v. JNull), wse_version_of = (\<lambda>j. Inl ''none''), wse_instance_json = (\<lambda>i. JNull),
     wse_instance_of = (\<lambda>j. Inl ''none'')\<rparr>"

definition demo_version :: wf_version where
  "demo_version = \<lparr>wv_id = 12, wv_org = 1, wv_public_id = ''wfv_12'', wv_definition = 11, wv_version = 1, wv_graph = JNull,
     wv_required = [''operations.task.create''], wv_published_at = Some 0, wv_published_by = Some 3\<rparr>"

definition demo_service_world :: wf_world where
  "demo_service_world = \<lparr>ww_db = \<lparr>
     wf_definitions = [\<lparr>wd_id = 11, wd_org = 1, wd_public_id = ''wfd_11'', wd_name = ''d'', wd_description = [],
       wd_status = ''published'', wd_created_by = 3, wd_updated_by = 3, wd_published_version = Some 1\<rparr>],
     wf_versions = [demo_version], wf_idem = [],
     wf_instances = [demo_instance\<lparr>wi_status := ''waiting''\<rparr>], wf_steps = [], wf_bounds = [],
     wf_outbox = \<lparr>ob_events = [], ob_dlq = []\<rparr>\<rparr>, ww_uuids = 100, ww_http = []\<rparr>"

definition demo_service_odb :: org_db where
  "demo_service_odb = demo_org_db\<lparr>od_role_permissions :=
     [demo_grant_row ''operations.workflow.run'' JNull, demo_grant_row ''operations.task.create'' JNull]\<rparr>"

definition demo_wf_caller :: wf_caller where
  "demo_wf_caller = \<lparr>wc_org = 1, wc_actor = actor_human 3, wc_request_id = ''r'', wc_idempotency_header = Some ''key''\<rparr>"

definition demo_definition_id :: string where
  "demo_definition_id = public_id_as_str bits_of_uuid (public_id_new ''WorkflowDefinition'' 11)"

abbreviation demo_start :: "wf_world \<times> (wf_failure + instance_dto)" where
  "demo_start \<equiv> start_instance demo_service_env demo_service_odb demo_wf_caller 9 demo_definition_id False JNull demo_service_world"

lemma demo_call: "(wf_call demo_service_env)\<^sup>*\<^sup>* demo_service_world (fst demo_start)"
  by (rule r_into_rtranclp) (rule wf_call.start)

theorem published_immutable_witness: "demo_version \<in> set (wf_versions (ww_db (fst demo_start)))"
proof -
  have "versions_unique (ww_db demo_service_world)" "demo_version \<in> set (wf_versions (ww_db demo_service_world))"
    "wv_version demo_version > 0" by (simp_all add: demo_service_world_def demo_version_def versions_unique_def)
  then show ?thesis using published_immutable [OF demo_call] by blast
qed

theorem waiting_never_resumes_witness: "settled 5 (ww_db (fst demo_start))"
proof -
  have "settled 5 (ww_db demo_service_world)" by (simp add: demo_service_world_def demo_instance_def settled_def)
  then show ?thesis by (rule waiting_never_resumes [OF demo_call])
qed

lemma demo_service_load:
  "wf_load_principal demo_service_odb 1 3 ''r'' = Inr (from_permission_ids [''operations.workflow.run'', ''operations.task.create''])"
  by (simp add: wf_load_principal_def load_principal_def load_membership_scope_def fetch_membership_def role_list_def
      role_parse_def service_role_statements_def role_rows_def plain_statement_def effect_of_def scope_of_def
      scope_parse_def demo_service_odb_def demo_org_defs from_permission_ids_def)

lemma demo_gate_service:
  "is_ok (creator_can_own demo_service_env (from_permission_ids [''operations.workflow.run'', ''operations.task.create'']) demo_graph ''r'')"
proof -
  let ?p = "from_permission_ids [''operations.workflow.run'', ''operations.task.create'']"
  have "is_ok (enforce_creator_can_own_graph pt ?p demo_graph ''r'')" for pt
    unfolding gate_iff [where rid' = "''r''"] enforce_action_permission_ok
    by (auto simp: demo_graph_def is_allowed_from_ids find_action_entry_def ACTION_CATALOGUE_def)
  then have "is_ok (enforce_creator_can_own_graph (we_time (wse_engine demo_service_env)) ?p demo_graph ''r'')" .
  then show ?thesis
    by (cases "enforce_creator_can_own_graph (we_time (wse_engine demo_service_env)) ?p demo_graph ''r''")
      (simp_all add: creator_can_own_def)
qed

lemma demo_checks: "start_checks demo_service_env demo_service_odb demo_wf_caller demo_definition_id False = Inr (''key'', 11)"
proof -
  have "wf_parse_public_id demo_service_env ''WorkflowDefinition'' demo_definition_id ''r'' = Inr 11"
    using parse_printed_id [of uuid_of_bits bits_of_uuid 11 "''WorkflowDefinition''"]
    by (simp add: wf_parse_public_id_def demo_service_env_def demo_definition_id_def uuid_bits_roundtrip id_kinds_def public_id_new_def)
  moreover have "require_idempotency demo_wf_caller = Inr ''key''"
    by (simp add: require_idempotency_def demo_wf_caller_def header_key_def is_blank_def str_trim_def trim_start_def trim_end_def upt_rec)
  moreover have "enforce pt (from_permission_ids [''operations.workflow.run'', ''operations.task.create'']) operations_workflow_run ''r'' = Inr ()" for pt
    using is_allowed_from_ids [of pt "[''operations.workflow.run'', ''operations.task.create'']" operations_workflow_run]
    by (simp add: enforce_def is_allowed_def operations_workflow_run_def)
  ultimately show ?thesis
    by (simp add: start_checks_def wf_authorize_def demo_wf_caller_def demo_service_load actor_human_def)
qed

text \<open>A world in which nothing runs yet: the start of the definition's only action is visible in the log.\<close>

definition demo_idle_world :: wf_world where
  "demo_idle_world = demo_service_world\<lparr>ww_db := (ww_db demo_service_world)\<lparr>wf_instances := []\<rparr>\<rparr>"

abbreviation demo_idle_start :: "wf_world \<times> (wf_failure + instance_dto)" where
  "demo_idle_start \<equiv> start_instance demo_service_env demo_service_odb demo_wf_caller 9 demo_definition_id False JNull demo_idle_world"

abbreviation demo_begin :: "wf_world \<times> (wf_failure + started)" where
  "demo_begin \<equiv> begin_instance demo_service_env demo_service_odb demo_wf_caller 9
     (''workflow.start:'' @ demo_definition_id) ''key'' 11 JNull demo_idle_world"

lemma demo_begin_ok:
  "\<exists>w s. demo_begin = (w, Inr s) \<and> wf_steps (ww_db w) = [] \<and> wf_bounds (ww_db w) = [] \<and> ww_uuids w = 103 \<and>
     oe_id ` set (ob_events (wf_outbox (ww_db w))) = {101} \<and> sd_graph s = demo_graph \<and>
     sd_creator s = from_permission_ids [''operations.workflow.run'', ''operations.task.create'']"
proof -
  obtain perms where g: "creator_can_own demo_service_env (from_permission_ids [''operations.workflow.run'', ''operations.task.create''])
      demo_graph ''r'' = Inr perms"
    using demo_gate_service by (cases "creator_can_own demo_service_env
      (from_permission_ids [''operations.workflow.run'', ''operations.task.create'']) demo_graph ''r''") auto
  have env: "wse_graph_of demo_service_env j = Inr demo_graph"
      "sla_deadline_of demo_service_env n demo_graph = Inr None"
      "re_gen_uuid (we_relay (wse_engine demo_service_env)) k = of_nat (min k 900)" for j n k
    by (simp_all add: demo_service_env_def sla_deadline_of_def demo_graph_def)
  show ?thesis
    by (simp add: begin_instance_def begin_seen_def tx_then_def pure_tx_def demo_wf_caller_def demo_idle_world_def demo_service_world_def
        enforce_concurrency_cap_def count_active_instances_def load_or_default_bounds_def DEFAULT_MAX_CONCURRENT_def
        find_definition_def find_published_def demo_version_def demo_service_load env g fresh_uuid_def insert_instance_def
        srv_emit_def insert_event_def insert_outbox_row_def rls_visible_def envelope_new_def idem_put_def Let_def)
qed

text \<open>
  The race on the cap: an organisation with a cap of one active instance, in which two starts
  count before either inserts.
\<close>

definition demo_race_env :: wf_service_env where
  "demo_race_env = demo_service_env\<lparr>wse_engine := (wse_engine demo_service_env)\<lparr>we_relay :=
     (we_relay (wse_engine demo_service_env))\<lparr>re_show_uuid := (\<lambda>u. if u = 100 then ''a'' else ''b'')\<rparr>\<rparr>\<rparr>"

definition demo_race_world :: wf_world where
  "demo_race_world = demo_idle_world\<lparr>ww_db := (ww_db demo_idle_world)\<lparr>wf_bounds := [(1, (1, 100))]\<rparr>\<rparr>"

abbreviation demo_race_start :: "wf_world \<Rightarrow> wf_world \<times> (wf_failure + started)" where
  "demo_race_start \<equiv> in_tx (begin_seen demo_race_env demo_service_odb (ww_db demo_race_world) demo_wf_caller 9 ''s'' ''k'' 11 JNull)"

lemma demo_race_begins:
  "wf_bounds (ww_db (fst (demo_race_start (fst (demo_race_start demo_race_world))))) = [(1, (1, 100))]"
  "count_active_instances (ww_db (fst (demo_race_start (fst (demo_race_start demo_race_world))))) 1 = 2"
proof -
  have t: "we_time (wse_engine demo_race_env) = we_time (wse_engine demo_service_env)" by (simp add: demo_race_env_def)
  obtain perms where g: "creator_can_own demo_race_env (from_permission_ids [''operations.workflow.run'', ''operations.task.create''])
      demo_graph ''r'' = Inr perms"
    using demo_gate_service unfolding creator_can_own_def t by (cases "enforce_creator_can_own_graph
      (we_time (wse_engine demo_service_env)) (from_permission_ids [''operations.workflow.run'', ''operations.task.create''])
      demo_graph ''r''") auto
  have env: "wse_graph_of demo_race_env j = Inr demo_graph"
      "sla_deadline_of demo_race_env n demo_graph = Inr None"
      "re_gen_uuid (we_relay (wse_engine demo_race_env)) k = of_nat (min k 900)"
      "re_show_uuid (we_relay (wse_engine demo_race_env)) u = (if u = 100 then ''a'' else ''b'')" for j n k u
    by (simp_all add: demo_race_env_def demo_service_env_def sla_deadline_of_def demo_graph_def)
  show "count_active_instances (ww_db (fst (demo_race_start (fst (demo_race_start demo_race_world))))) 1 = 2"
    "wf_bounds (ww_db (fst (demo_race_start (fst (demo_race_start demo_race_world))))) = [(1, (1, 100))]"
    by (simp_all add: in_tx_def begin_seen_def tx_then_def pure_tx_def demo_wf_caller_def demo_race_world_def demo_idle_world_def
        demo_service_world_def enforce_concurrency_cap_def count_active_instances_def load_or_default_bounds_def
        find_definition_def find_published_def demo_version_def demo_service_load env g fresh_uuid_def insert_instance_def
        srv_emit_def insert_event_def insert_outbox_row_def rls_visible_def envelope_new_def idem_put_def Let_def
        srv_public_def wf_public_id_def user_workflow_id_def public_id_as_str_def public_id_new_def)
qed

theorem concurrency_cap_holds_witness:
  "\<exists>w' ts. (cap_step demo_race_env 1 2 1)\<^sup>*\<^sup>* (demo_race_world, []) (w', ts) \<and>
     fst (load_or_default_bounds (ww_db w') 1) = 1 \<and> count_active_instances (ww_db w') 1 = 2 \<and> instances_unique (ww_db w')"
proof -
  let ?w = "demo_race_world" and ?t = "(1 :: uuid, ww_db demo_race_world)"
  let ?w1 = "fst (demo_race_start ?w)"
  let ?w2 = "fst (demo_race_start ?w1)"
  let ?step = "cap_step demo_race_env 1 2 1"
  have "?step (?w, []) (?w, [?t])" "?step (?w, [?t]) (?w, [?t, ?t])"
    by (rule cap_step.counted, simp add: starts_between_def)+
  moreover have "?step (?w, [?t, ?t]) (?w1, [?t])" "?step (?w1, [?t]) (?w2, [])"
    using cap_step.started [of demo_wf_caller "ww_db demo_race_world" "[?t, ?t]" demo_race_env 1 2 1 ?w demo_service_odb 9 "''s''" "''k''" 11 JNull]
      cap_step.started [of demo_wf_caller "ww_db demo_race_world" "[?t]" demo_race_env 1 2 1 ?w1 demo_service_odb 9 "''s''" "''k''" 11 JNull]
    by (simp_all add: demo_wf_caller_def)
  ultimately have run: "?step\<^sup>*\<^sup>* (?w, []) (?w2, [])"
    by (meson converse_rtranclp_into_rtranclp rtranclp.rtrancl_refl)
  have "instances_unique (ww_db ?w)" "fst (load_or_default_bounds (ww_db ?w) 1) \<le> 1"
    by (simp_all add: demo_race_world_def demo_idle_world_def instances_unique_def load_or_default_bounds_def)
  from concurrency_cap_holds [OF run this] have "instances_unique (ww_db ?w2)" by simp
  moreover have "fst (load_or_default_bounds (ww_db ?w2) 1) = 1" by (simp add: load_or_default_bounds_def demo_race_begins)
  ultimately show ?thesis using run demo_race_begins(2) by blast
qed

lemma demo_drive:
  assumes "demo_begin = (w, Inr s)"
  shows "ww_http (fst (drive demo_service_env demo_wf_caller 9 s w)) \<noteq> []"
proof -
  let ?env = "wse_engine demo_service_env" and ?i = "wi_id (sd_instance s)" and ?act = "actor_human (wi_actor_user (sd_instance s))"
  obtain w' s' where b': "demo_begin = (w', Inr s')" and w': "wf_steps (ww_db w') = []" "wf_bounds (ww_db w') = []"
    "ww_uuids w' = 103" "oe_id ` set (ob_events (wf_outbox (ww_db w'))) = {101}" and s': "sd_graph s' = demo_graph"
    "sd_creator s' = from_permission_ids [''operations.workflow.run'', ''operations.task.create'']"
    using demo_begin_ok by blast
  have eq: "w' = w" "s' = s" using b' unfolding assms by simp_all
  note w = w' [unfolded eq] and s = s' [unfolded eq]
  from begin_seen_Inr [OF assms [unfolded begin_instance_def]] obtain d where b: "begun demo_service_env demo_service_odb demo_wf_caller d s demo_idle_world w"
    by blast
  then have inst: "wf_instances (ww_db w) = [sd_instance s]" "wi_org (sd_instance s) = 1" "wi_status (sd_instance s) = ''running''"
    "wi_step_count (sd_instance s) = 0" "wi_current_node (sd_instance s) = Some ''a''"
    by (simp_all add: begun_def demo_idle_world_def demo_wf_caller_def s demo_graph_def)
  have found: "find_instance (ww_db w) 1 ?i = Some (sd_instance s)" by (simp add: find_instance_def inst)
  have bound: "wi_step_count (sd_instance s) < snd (load_or_default_bounds (ww_db w) 1)"
    by (simp add: inst load_or_default_bounds_def w DEFAULT_MAX_STEPS_def)
  have perm: "is_ok (enforce_action_permission (we_time ?env) (sd_creator s) ''create_task'' ''r'')"
    unfolding s enforce_action_permission_ok by (auto simp: is_allowed_from_ids find_action_entry_def ACTION_CATALOGUE_def)
  then obtain pm where perm: "enforce_action_permission (we_time ?env) (sd_creator s) ''create_task'' ''r'' = Inr pm"
    by (cases "enforce_action_permission (we_time ?env) (sd_creator s) ''create_task'' ''r''") auto
  have net: "we_var ?env v = None" "we_http ?env k req = None" for k req v
    by (simp_all add: demo_service_env_def demo_wf_env_def)
  have "re_gen_uuid (we_relay ?env) k \<noteq> 101" if "103 \<le> k" for k
  proof
    assume "re_gen_uuid (we_relay ?env) k = 101"
    then have "unat (of_nat (min k 900) :: uuid) = unat (101 :: uuid)" by (simp add: demo_service_env_def)
    then show False using that demo_uuid [of "min k 900"] by simp
  qed
  then have fresh: "fresh_for ?env (sd_instance s) w" by (simp add: fresh_for_def w)
  obtain w1 where a: "advance_instance ?env 9 1 ?i demo_graph (sd_creator s) ?act ''r'' False w = (w1, Inr ())"
    "length (ww_http w1) = Suc (length (ww_http w))"
    using failing_advance [OF found inst(3,5) demo_node(2) bound perm net(1,2) _ fresh, of 9 ?act] by blast
  obtain reqs where "ww_http (fst (run_iterations ?env 9 1 ?i demo_graph (sd_creator s) ?act ''r'' False 104 w1)) = ww_http w1 @ reqs"
    using run_iterations_sent [of ?env 9 1 ?i demo_graph "sd_creator s" ?act "''r''" False 104 w1] by blast
  moreover have "drive demo_service_env demo_wf_caller 9 s w =
      run_iterations ?env 9 1 ?i demo_graph (sd_creator s) ?act ''r'' False (Suc 104) w"
    by (simp add: drive_def run_until_idle_def DEFAULT_MAX_STEPS_def dry_http_def net s demo_wf_caller_def del: run_iterations.simps)
  moreover have "map_option wi_status (find_instance (ww_db w) 1 ?i) = Some ''running''" by (simp add: found inst)
  ultimately show ?thesis using a unfolding run_iterations.simps(2) by (simp only: if_True) (auto simp: tx_then_def)
qed

theorem start_acts_as_creator_witness:
  "ww_http (fst demo_idle_start) \<noteq> [] \<and> list_all (\<lambda>req. hr_user req = srv_public demo_service_env ''User'' 3) (ww_http (fst demo_idle_start))"
proof -
  obtain w s where b: "demo_begin = (w, Inr s)" using demo_begin_ok by blast
  have "idem_get (ww_db demo_idle_world) org sc k = None" for org sc k
    by (simp add: idem_get_def demo_idle_world_def demo_service_world_def)
  then have "fst demo_idle_start = fst (drive demo_service_env demo_wf_caller 9 s w)"
    using b by (cases "drive demo_service_env demo_wf_caller 9 s w")
      (auto simp: start_instance_def demo_checks Let_def pure_tx_def tx_then_def in_tx_def split: sum.split option.split)
  with demo_drive [OF b] have sent: "ww_http (fst demo_idle_start) \<noteq> []" by simp
  have "ww_http demo_idle_world = []" "wf_definitions (ww_db demo_idle_world) = wf_definitions (ww_db demo_service_world)"
    by (simp_all add: demo_idle_world_def demo_service_world_def)
  moreover have "wd_created_by d = 3" if "d \<in> set (wf_definitions (ww_db demo_service_world))" for d
    using that by (simp add: demo_service_world_def)
  moreover have "d \<in> set (wf_definitions db)" if "find_definition db org i = Some d" for db org i d
    using that by (auto simp: find_definition_def find_Some_iff)
  ultimately show ?thesis
    using sent start_acts_as_creator [of demo_service_env demo_service_odb demo_wf_caller 9 demo_definition_id False JNull
        demo_idle_world "fst demo_idle_start" "snd demo_idle_start"]
    by (fastforce simp: list_all_iff)
qed

end
