(* ===== verification/Formula.thy ===== *)
theory Formula
  imports Json
begin

text \<open>
  Formula fields of custom entities (\<open>services/platform/custom-service/src/formula.rs\<close>): a
  recursive-descent evaluator over the text of the formula. The parser state is the rest of the
  text. Addition, subtraction and multiplication of \<open>i64\<close> wrap around, as they do in the release
  profile of the workspace, which does not turn on overflow checks. The recursion is bounded by
  fuel; \<open>eval_formula\<close> starts with enough for any text of that length, and
  \<open>eval_formula_total\<close> shows that it never runs out. The \<open>Debug\<close> form of the next character,
  which one error message contains, is a parameter.
\<close>

section \<open>Values\<close>

datatype formula_error =
    Parse string
  | Runtime string
  | Escape
  | NoFuel

fun as_i64 :: "json \<Rightarrow> formula_error + int" where
  "as_i64 (JInt n) = (if in_i64 n then Inr n else Inl (Runtime ''non-integer number''))"
| "as_i64 (JFloat s) = Inl (Runtime ''non-integer number'')"
| "as_i64 JNull = Inr 0"
| "as_i64 _ = Inl (Runtime ''expected integer'')"

definition num_op :: "json \<Rightarrow> json \<Rightarrow> (int \<Rightarrow> int \<Rightarrow> int) \<Rightarrow> formula_error + json" where
  "num_op a b f =
     and_then (as_i64 a) (\<lambda>ai. and_then (as_i64 b) (\<lambda>bi. Inr (JInt (wrap_i64 (f ai bi)))))"

definition field_value :: "(string \<times> json) list \<Rightarrow> string \<Rightarrow> json" where
  "field_value vals name =
     (case map_of vals name of
        None \<Rightarrow> JNull
      | Some v \<Rightarrow> (case json_get v ''amount_minor'' of Some a \<Rightarrow> a | None \<Rightarrow> v))"

section \<open>Lexical part\<close>

text \<open>\<open>char::is_whitespace\<close> on the UTF-8 bytes: the width of the white space in front, 0 for none.\<close>

definition ws_width :: "string \<Rightarrow> nat" where
  "ws_width s = (if is_blank (take 1 s) then min 1 (length s)
     else if is_blank (take 2 s) then 2 else if is_blank (take 3 s) then 3 else 0)"

function skip_ws :: "string \<Rightarrow> string" where
  "skip_ws s = (if ws_width s = 0 then s else skip_ws (drop (ws_width s) s))"
  by pat_completeness auto

termination skip_ws
proof (relation "measure length")
  fix s assume "ws_width s \<noteq> 0"
  then show "(drop (ws_width s) s, s) \<in> measure length"
    by (cases s) (auto simp: ws_width_def is_blank_def)
qed simp

declare skip_ws.simps [simp del]

definition parse_i64 :: "string \<Rightarrow> string + int" where
  "parse_i64 s =
     (let neg = (s \<noteq> [] \<and> hd s = CHR ''-''); ds = (if neg then tl s else s);
          n = (if neg then - int (dec_val ds) else int (dec_val ds)) in
      if ds = [] \<or> \<not> list_all is_digit ds then Inl ''invalid digit found in string''
      else if n \<ge> 2 ^ 63 then Inl ''number too large to fit in target type''
      else if n < - (2 ^ 63) then Inl ''number too small to fit in target type''
      else Inr n)"

definition parse_number :: "string \<Rightarrow> formula_error + json \<times> string" where
  "parse_number s =
     (let (sign, s1) = (if s \<noteq> [] \<and> hd s = CHR ''-'' then ([CHR ''-''], tl s) else ([], s));
          ds = takeWhile is_digit s1; r = dropWhile is_digit s1 in
      if r \<noteq> [] \<and> hd r = CHR ''.''
      then Inl (Parse (''floats forbidden '' @ [char_of (226::nat), char_of (128::nat), char_of (148::nat)] @
        '' use integer minor units for money''))
      else case parse_i64 (sign @ ds) of
        Inl e \<Rightarrow> Inl (Parse (''bad number: '' @ e))
      | Inr n \<Rightarrow> Inr (JInt n, r))"

definition is_word_char :: "char \<Rightarrow> bool" where
  "is_word_char c \<longleftrightarrow> is_ascii_alpha c \<or> is_digit c \<or> c = CHR ''_''"

definition parse_field :: "(string \<times> json) list \<Rightarrow> string \<Rightarrow> formula_error + json \<times> string" where
  "parse_field vals s = Inr (field_value vals (takeWhile is_word_char s), dropWhile is_word_char s)"

section \<open>The parser\<close>

definition expected_close :: string where
  "expected_close = ''expected '' @ [CHR 0x27, CHR '')'', CHR 0x27]"

type_synonym debug_next = "string \<Rightarrow> string"

type_synonym parser_fun = "string \<Rightarrow> formula_error + json \<times> string"

text \<open>
  The functions of the parser call each other through the parenthesised factor. Each takes the
  factor parser it uses; the loops are bounded by the length of the rest, the nesting of
  parentheses by the fuel of \<open>parse_factor\<close>.
\<close>

fun term_loop :: "parser_fun \<Rightarrow> nat \<Rightarrow> json \<Rightarrow> parser_fun" where
  "term_loop factor 0 left s = Inl NoFuel"
| "term_loop factor (Suc n) left s =
     (case skip_ws s of
        [] \<Rightarrow> Inr (left, [])
      | c # r \<Rightarrow>
          if c = CHR ''*'' then and_then (factor r) (\<lambda>(right, r').
            and_then (num_op left right (*)) (\<lambda>v. term_loop factor n v r'))
          else Inr (left, c # r))"

definition parse_term :: "parser_fun \<Rightarrow> parser_fun" where
  "parse_term factor s = and_then (factor s) (\<lambda>(left, r). term_loop factor (Suc (length r)) left r)"

fun expr_loop :: "parser_fun \<Rightarrow> nat \<Rightarrow> json \<Rightarrow> parser_fun" where
  "expr_loop factor 0 left s = Inl NoFuel"
| "expr_loop factor (Suc n) left s =
     (case skip_ws s of
        [] \<Rightarrow> Inr (left, [])
      | c # r \<Rightarrow>
          if c = CHR ''+'' then and_then (parse_term factor r) (\<lambda>(right, r').
            and_then (num_op left right (+)) (\<lambda>v. expr_loop factor n v r'))
          else if c = CHR ''-'' then and_then (parse_term factor r) (\<lambda>(right, r').
            and_then (num_op left right (-)) (\<lambda>v. expr_loop factor n v r'))
          else Inr (left, c # r))"

definition parse_expr :: "parser_fun \<Rightarrow> parser_fun" where
  "parse_expr factor s = and_then (parse_term factor s) (\<lambda>(left, r). expr_loop factor (Suc (length r)) left r)"

fun parse_factor :: "debug_next \<Rightarrow> (string \<times> json) list \<Rightarrow> nat \<Rightarrow> parser_fun" where
  "parse_factor dbg vals 0 s = Inl NoFuel"
| "parse_factor dbg vals (Suc n) s =
     (case skip_ws s of
        [] \<Rightarrow> Inl (Parse (''unexpected '' @ dbg []))
      | c # r \<Rightarrow>
          if c = CHR ''('' then and_then (parse_expr (parse_factor dbg vals n) r) (\<lambda>(v, r').
            case skip_ws r' of
              [] \<Rightarrow> Inl (Parse expected_close)
            | d # r'' \<Rightarrow> if d = CHR '')'' then Inr (v, r'') else Inl (Parse expected_close))
          else if is_digit c \<or> c = CHR ''-'' then parse_number (c # r)
          else if is_ascii_alpha c \<or> c = CHR ''_'' then parse_field vals (c # r)
          else Inl (Parse (''unexpected '' @ dbg (c # r))))"

definition BANNED :: "string list" where
  "BANNED = [''http'', ''fetch'', ''fs::'', ''env::'', ''sql'', ''require'', ''import'']"

definition eval_formula :: "debug_next \<Rightarrow> string \<Rightarrow> (string \<times> json) list \<Rightarrow> formula_error + json" where
  "eval_formula dbg expr vals =
     (if list_ex (\<lambda>b. str_contains b (ascii_lower expr)) BANNED then Inl Escape
      else and_then (parse_expr (parse_factor dbg vals (Suc (length expr))) expr) (\<lambda>(v, r).
        if skip_ws r \<noteq> [] then Inl (Parse ''trailing input'') else Inr v))"


section \<open>Formula fields of a record\<close>

datatype field_type = Text | Number | Money | Date | Bool | Select | Ref | Formula

record field_def =
  fd_name :: string
  fd_label :: string
  fd_type :: field_type
  fd_required :: bool
  fd_options :: "string list option"
  fd_ref_target :: "string option"
  fd_formula :: "string option"

fun apply_formulas ::
  "debug_next \<Rightarrow> field_def list \<Rightarrow> (string \<times> json) list \<Rightarrow> formula_error + (string \<times> json) list" where
  "apply_formulas dbg [] vals = Inr vals"
| "apply_formulas dbg (f # fs) vals =
     (if fd_type f \<noteq> Formula then apply_formulas dbg fs vals
      else case fd_formula f of
        None \<Rightarrow> apply_formulas dbg fs vals
      | Some expr \<Rightarrow> and_then (eval_formula dbg expr vals) (\<lambda>v. apply_formulas dbg fs (map_put (fd_name f) v vals)))"

section \<open>Totality\<close>

definition within :: "nat \<Rightarrow> formula_error + 'a \<times> string \<Rightarrow> bool" where
  "within b r \<longleftrightarrow> r \<noteq> Inl NoFuel \<and> (\<forall>v t. r = Inr (v, t) \<longrightarrow> length t < b)"

lemma within_simps [simp]:
  "within b (Inl e) \<longleftrightarrow> e \<noteq> NoFuel" "within b (Inr (v, t)) \<longleftrightarrow> length t < b"
  by (simp_all add: within_def)

lemma within_mono: "within b r \<Longrightarrow> b \<le> c \<Longrightarrow> within c r"
  by (force simp: within_def)

lemma within_bind:
  assumes "within b r" "\<And>v t. r = Inr (v, t) \<Longrightarrow> length t < b \<Longrightarrow> within c (f v t)"
  shows "within c (and_then r (\<lambda>(v, t). f v t))"
  using assms by (cases r) (auto simp: within_def and_then_def)

lemma within_num_op:
  assumes "\<And>v. within c (f v)"
  shows "within c (and_then (num_op a b g) f)"
proof -
  have "as_i64 x \<noteq> Inl NoFuel" for x by (cases x) simp_all
  then show ?thesis
    using assms by (cases "as_i64 a"; cases "as_i64 b") (auto simp: num_op_def and_then_def within_def)
qed

lemma skip_ws_length: "length (skip_ws s) \<le> length s"
proof (induction s rule: skip_ws.induct)
  case (1 s)
  then show ?case by (subst skip_ws.simps) (auto intro: le_trans)
qed

lemma skip_ws_Cons: "skip_ws s = c # r \<Longrightarrow> length r < length s"
  using skip_ws_length [of s] by simp

lemma parse_number_within: "is_digit c \<or> c = CHR ''-'' \<Longrightarrow> within (length (c # r)) (parse_number (c # r))"
  using length_dropWhile_le [of is_digit r]
  by (auto simp: parse_number_def Let_def less_Suc_eq_le split: sum.split)

lemma parse_field_within: "is_ascii_alpha c \<or> c = CHR ''_'' \<Longrightarrow> within (length (c # r)) (parse_field vals (c # r))"
  using length_dropWhile_le [of is_word_char r] by (auto simp: parse_field_def is_word_char_def less_Suc_eq_le)

text \<open>A factor parser that consumes input, on texts no longer than a bound.\<close>

definition consuming :: "nat \<Rightarrow> parser_fun \<Rightarrow> bool" where
  "consuming b factor \<longleftrightarrow> (\<forall>s. length s \<le> b \<longrightarrow> within (length s) (factor s))"

lemma consumingD: "consuming b factor \<Longrightarrow> length s \<le> b \<Longrightarrow> within (length s) (factor s)"
  by (simp add: consuming_def)

lemma term_loop_within:
  assumes "consuming b factor"
  shows "length s \<le> b \<Longrightarrow> length s < n \<Longrightarrow> within (Suc (length s)) (term_loop factor n left s)"
proof (induction n arbitrary: left s)
  case (Suc n)
  show ?case
  proof (cases "skip_ws s")
    case (Cons c r)
    have less: "length r < length s" by (rule skip_ws_Cons [OF Cons])
    have "within (Suc (length s)) (term_loop factor n v u)" if "length u < length r" for v u
      by (rule within_mono [OF Suc.IH]) (use that less Suc.prems in simp_all)
    with less Suc.prems Cons show ?thesis
      by (auto intro!: within_bind [where b = "length r"] within_num_op consumingD [OF assms])
  qed simp
qed simp

lemma parse_term_within:
  assumes "consuming b factor" "length s \<le> b"
  shows "within (length s) (parse_term factor s)"
  unfolding parse_term_def
proof (rule within_bind [OF consumingD [OF assms]])
  fix v and t :: string assume "length t < length s"
  then show "within (length s) (term_loop factor (Suc (length t)) v t)"
    by (intro within_mono [OF term_loop_within [OF assms(1)]]) (use assms(2) in simp_all)
qed

lemma expr_loop_within:
  assumes "consuming b factor"
  shows "length s \<le> b \<Longrightarrow> length s < n \<Longrightarrow> within (Suc (length s)) (expr_loop factor n left s)"
proof (induction n arbitrary: left s)
  case (Suc n)
  show ?case
  proof (cases "skip_ws s")
    case (Cons c r)
    have less: "length r < length s" by (rule skip_ws_Cons [OF Cons])
    have "within (Suc (length s)) (expr_loop factor n v u)" if "length u < length r" for v u
      by (rule within_mono [OF Suc.IH]) (use that less Suc.prems in simp_all)
    with less Suc.prems Cons show ?thesis
      by (auto intro!: within_bind [where b = "length r"] within_num_op parse_term_within [OF assms])
  qed simp
qed simp

lemma parse_expr_within:
  assumes "consuming b factor" "length s \<le> b"
  shows "within (length s) (parse_expr factor s)"
  unfolding parse_expr_def
proof (rule within_bind [OF parse_term_within [OF assms]])
  fix v and t :: string assume "length t < length s"
  then show "within (length s) (expr_loop factor (Suc (length t)) v t)"
    by (intro within_mono [OF expr_loop_within [OF assms(1)]]) (use assms(2) in simp_all)
qed

lemma parse_factor_consuming: "consuming b (parse_factor dbg vals (Suc b))"
proof (induction b)
  case 0
  then show ?case by (simp add: consuming_def skip_ws.simps [of "[]"] ws_width_def is_blank_def)
next
  case (Suc b)
  show ?case unfolding consuming_def
  proof (intro allI impI)
    fix s :: string
    assume s: "length s \<le> Suc b"
    show "within (length s) (parse_factor dbg vals (Suc (Suc b)) s)"
    proof (cases "skip_ws s")
      case (Cons c r)
      note less = skip_ws_Cons [OF Cons]
      have close: "within (length s) (case skip_ws t of [] \<Rightarrow> Inl (Parse expected_close)
          | d # u \<Rightarrow> if d = CHR '')'' then Inr (v, u) else Inl (Parse expected_close))"
        if "length t < length r" for v :: json and t
        using that less skip_ws_length [of t] by (auto split: list.split)
      have "within (length s) (parse_number (c # r))" if "is_digit c \<or> c = CHR ''-''"
        by (rule within_mono [OF parse_number_within [OF that]]) (use less in simp)
      moreover have "within (length s) (parse_field vals (c # r))" if "is_ascii_alpha c \<or> c = CHR ''_''"
        by (rule within_mono [OF parse_field_within [OF that]]) (use less in simp)
      moreover have "within (length r) (parse_expr (parse_factor dbg vals (Suc b)) r)"
        by (rule parse_expr_within [OF Suc.IH]) (use s less in simp)
      ultimately show ?thesis using Cons by (auto intro!: within_bind [where b = "length r"] close)
    qed simp
  qed
qed

text \<open>
  Evaluating a formula always ends with a value or one of the three errors of the source: the
  bounds on the nesting of parentheses and on the loops are never reached, whatever the text.
\<close>

theorem eval_formula_total: "eval_formula dbg expr vals \<noteq> Inl NoFuel"
proof -
  have "within (length expr) (parse_expr (parse_factor dbg vals (Suc (length expr))) expr)"
    by (rule parse_expr_within [OF parse_factor_consuming]) simp
  then show ?thesis
    by (cases "parse_expr (parse_factor dbg vals (Suc (length expr))) expr") (auto simp: eval_formula_def and_then_def split: if_splits)
qed

section \<open>White space and fuel\<close>

lemma ws_width_space [simp]: "ws_width (CHR '' '' # s) = 1"
  by (simp add: ws_width_def is_blank_def)

lemma skip_ws_Nil [simp]: "skip_ws [] = []"
  by (simp add: skip_ws.simps [of "[]"] ws_width_def is_blank_def)

lemma skip_ws_space [simp]: "skip_ws (CHR '' '' # s) = skip_ws s"
  by (simp add: skip_ws.simps [of "CHR '' '' # s"])

lemma skip_ws_visible:
  assumes "33 \<le> (of_char c :: nat)" "(of_char c :: nat) < 128"
  shows "skip_ws (c # s) = c # s"
proof -
  have "ws_width (c # s) = 0"
    using assms by (cases s; cases "tl s") (auto simp: ws_width_def is_blank_def numeral_2_eq_2 numeral_3_eq_3)
  then show ?thesis by (simp add: skip_ws.simps [of "c # s"])
qed

lemma skip_ws_idem [simp]: "skip_ws (skip_ws s) = skip_ws s"
proof (induction s rule: skip_ws.induct)
  case (1 s)
  then show ?case by (cases "ws_width s = 0") (simp_all add: skip_ws.simps [of s])
qed

lemma term_loop_fuel:
  assumes "consuming b factor"
  shows "length s \<le> b \<Longrightarrow> length s < n \<Longrightarrow> length s < m \<Longrightarrow> term_loop factor n left s = term_loop factor m left s"
proof (induction n arbitrary: left s m)
  case (Suc n)
  obtain k where m: "m = Suc k" using Suc.prems(3) by (cases m) auto
  show ?case
  proof (cases "skip_ws s")
    case (Cons c r)
    note less = skip_ws_Cons [OF Cons]
    have "within (length r) (factor r)" by (rule consumingD [OF assms]) (use less Suc.prems in simp)
    then have "length u < length r" if "factor r = Inr (x, u)" for x u using that by (simp add: within_def)
    then have "term_loop factor n v u = term_loop factor k v u" if "factor r = Inr (x, u)" for x u v
      using that less Suc.prems m by (intro Suc.IH) fastforce+
    with Cons m show ?thesis by (cases "factor r") (auto simp: and_then_def split: sum.split)
  qed (simp add: m)
qed simp

lemma expr_loop_fuel:
  assumes "consuming b factor"
  shows "length s \<le> b \<Longrightarrow> length s < n \<Longrightarrow> length s < m \<Longrightarrow> expr_loop factor n left s = expr_loop factor m left s"
proof (induction n arbitrary: left s m)
  case (Suc n)
  obtain k where m: "m = Suc k" using Suc.prems(3) by (cases m) auto
  show ?case
  proof (cases "skip_ws s")
    case (Cons c r)
    note less = skip_ws_Cons [OF Cons]
    have "within (length r) (parse_term factor r)" by (rule parse_term_within [OF assms]) (use less Suc.prems in simp)
    then have "length u < length r" if "parse_term factor r = Inr (x, u)" for x u using that by (simp add: within_def)
    then have "expr_loop factor n v u = expr_loop factor k v u" if "parse_term factor r = Inr (x, u)" for x u v
      using that less Suc.prems m by (intro Suc.IH) fastforce+
    with Cons m show ?thesis by (cases "parse_term factor r") (auto simp: and_then_def split: sum.splits)
  qed (simp add: m)
qed simp

section \<open>What a formula means\<close>

datatype fexpr = FNum int | FField string | FAdd fexpr fexpr | FSub fexpr fexpr | FMul fexpr fexpr

fun formula_value :: "(string \<times> json) list \<Rightarrow> fexpr \<Rightarrow> formula_error + json" where
  "formula_value vals (FNum n) = Inr (JInt n)"
| "formula_value vals (FField x) = Inr (field_value vals x)"
| "formula_value vals (FAdd a b) =
     and_then (formula_value vals a) (\<lambda>v. and_then (formula_value vals b) (\<lambda>w. num_op v w (+)))"
| "formula_value vals (FSub a b) =
     and_then (formula_value vals a) (\<lambda>v. and_then (formula_value vals b) (\<lambda>w. num_op v w (-)))"
| "formula_value vals (FMul a b) =
     and_then (formula_value vals a) (\<lambda>v. and_then (formula_value vals b) (\<lambda>w. num_op v w (*)))"

definition paren :: "bool \<Rightarrow> string \<Rightarrow> string" where
  "paren b s = (if b then ''('' @ s @ '')'' else s)"

text \<open>The text with as few parentheses as the usual precedences and left associativity allow.\<close>

fun formula_text :: "nat \<Rightarrow> fexpr \<Rightarrow> string" where
  "formula_text p (FNum n) = show_int n"
| "formula_text p (FField x) = x"
| "formula_text p (FAdd a b) = paren (0 < p) (formula_text 0 a @ '' + '' @ formula_text 1 b)"
| "formula_text p (FSub a b) = paren (0 < p) (formula_text 0 a @ '' - '' @ formula_text 1 b)"
| "formula_text p (FMul a b) = paren (1 < p) (formula_text 1 a @ '' * '' @ formula_text 2 b)"

fun well_formed :: "fexpr \<Rightarrow> bool" where
  "well_formed (FNum n) = in_i64 n"
| "well_formed (FField x) =
     (x \<noteq> [] \<and> (is_ascii_alpha (hd x) \<or> hd x = CHR ''_'') \<and> list_all is_word_char x)"
| "well_formed (FAdd a b) = (well_formed a \<and> well_formed b)"
| "well_formed (FSub a b) = (well_formed a \<and> well_formed b)"
| "well_formed (FMul a b) = (well_formed a \<and> well_formed b)"

text \<open>What may follow: nothing that continues a number or a name; no product where a sum is read.\<close>

definition boundary :: "string \<Rightarrow> bool" where
  "boundary s \<longleftrightarrow> s = [] \<or> \<not> is_word_char (hd s) \<and> hd s \<noteq> CHR ''.''"

definition no_star :: "string \<Rightarrow> bool" where
  "no_star s \<longleftrightarrow> skip_ws s = [] \<or> hd (skip_ws s) \<noteq> CHR ''*''"

declare term_loop.simps(2) [simp del] expr_loop.simps(2) [simp del]

lemma and_then_assoc: "and_then (and_then r f) g = and_then r (\<lambda>x. and_then (f x) g)"
  by (cases r) (simp_all add: and_then_def)

lemma and_then_pair: "and_then (and_then r (\<lambda>v. Inr (v, s))) (\<lambda>(v, u). f v u) = and_then r (\<lambda>v. f v s)"
  by (cases r) (simp_all add: and_then_def)

lemma ascii_visible:
  assumes "is_digit c \<or> is_ascii_alpha c \<or> c \<in> set ''_-+*()''"
  shows "skip_ws (c # s) = c # s"
  by (rule skip_ws_visible) (use assms in \<open>auto simp: is_digit_def is_ascii_alpha_def\<close>)

lemma parse_factor_space: "parse_factor dbg vals n (CHR '' '' # s) = parse_factor dbg vals n s"
  by (cases n) simp_all

lemma parse_term_space: "parse_term (parse_factor dbg vals n) (CHR '' '' # s) = parse_term (parse_factor dbg vals n) s"
  by (simp add: parse_term_def parse_factor_space)

lemma term_loop_stop: "no_star s \<Longrightarrow> term_loop factor (Suc n) v s = Inr (v, skip_ws s)"
  by (cases "skip_ws s") (auto simp: no_star_def term_loop.simps)

lemma expr_loop_skip:
  assumes "consuming b factor" "length s \<le> b" "length s < n"
  shows "expr_loop factor (Suc (length (skip_ws s))) v (skip_ws s) = expr_loop factor n v s"
proof -
  have "expr_loop factor (Suc m) v (skip_ws s) = expr_loop factor (Suc m) v s" for m
    by (simp add: expr_loop.simps)
  moreover have "expr_loop factor (Suc (length s)) v s = expr_loop factor n v s"
    by (rule expr_loop_fuel [OF assms(1,2)]) (use assms(3) in simp_all)
  moreover have "expr_loop factor (Suc (length (skip_ws s))) v (skip_ws s) = expr_loop factor (Suc (length s)) v (skip_ws s)"
    by (rule expr_loop_fuel [OF assms(1)]) (use skip_ws_length [of s] assms in simp_all)
  ultimately show ?thesis by simp
qed

lemma consuming_parse_factor: "b < n \<Longrightarrow> consuming b (parse_factor dbg vals n)"
proof -
  assume "b < n"
  then obtain k where n: "n = Suc k" and k: "b \<le> k" by (cases n) auto
  show ?thesis using parse_factor_consuming [of k dbg vals] k unfolding n consuming_def by simp
qed

lemma parse_number_show:
  assumes "in_i64 n" "boundary s"
  shows "parse_number (show_int n @ s) = Inr (JInt n, s)"
proof -
  define k where "k = nat \<bar>n\<bar>"
  have stop: "takeWhile is_digit (show_nat k @ s) = show_nat k" "dropWhile is_digit (show_nat k @ s) = s"
    using show_nat_digits [of k] assms(2)
    by (cases s; auto simp: boundary_def is_word_char_def list_all_iff takeWhile_append2 dropWhile_append2)+
  have nodot: "\<not> (s \<noteq> [] \<and> hd s = CHR ''.'')" using assms(2) by (auto simp: boundary_def)
  obtain c cs where sh: "show_nat k = c # cs" by (cases "show_nat k") simp_all
  with show_nat_digits [of k] have c: "is_digit c" "c \<noteq> CHR ''-''" by (auto simp: is_digit_def)
  have p: "parse_i64 (show_int n) = Inr n"
  proof (cases "n < 0")
    case True
    then have "show_int n = CHR ''-'' # show_nat k" by (simp add: show_int_def k_def)
    with True assms(1) show_nat_digits [of k] show ?thesis
      by (auto simp: parse_i64_def Let_def dec_val_show_nat k_def in_i64_def)
  next
    case False
    then have "show_int n = show_nat k" by (simp add: show_int_def k_def)
    with False assms(1) show_nat_digits [of k] c sh dec_val_show_nat [of k] show ?thesis
      by (auto simp: parse_i64_def Let_def k_def in_i64_def)
  qed
  show ?thesis
  proof (cases "n < 0")
    case True
    then have "show_int n = CHR ''-'' # show_nat k" by (simp add: show_int_def k_def)
    with p stop nodot show ?thesis by (auto simp: parse_number_def Let_def)
  next
    case False
    then have "show_int n = show_nat k" by (simp add: show_int_def k_def)
    with p stop nodot sh c show ?thesis by (auto simp: parse_number_def Let_def)
  qed
qed

text \<open>The three levels of the grammar, each with the text that follows.\<close>

definition reads_factor :: "debug_next \<Rightarrow> (string \<times> json) list \<Rightarrow> fexpr \<Rightarrow> bool" where
  "reads_factor dbg vals e \<longleftrightarrow> (\<forall>n s. length (formula_text 2 e @ s) < n \<longrightarrow> boundary s \<longrightarrow>
     parse_factor dbg vals n (formula_text 2 e @ s) = and_then (formula_value vals e) (\<lambda>v. Inr (v, s)))"

definition reads_term :: "debug_next \<Rightarrow> (string \<times> json) list \<Rightarrow> fexpr \<Rightarrow> bool" where
  "reads_term dbg vals e \<longleftrightarrow> (\<forall>n s. length (formula_text 1 e @ s) < n \<longrightarrow> boundary s \<longrightarrow>
     parse_term (parse_factor dbg vals n) (formula_text 1 e @ s) =
       and_then (formula_value vals e) (\<lambda>v. term_loop (parse_factor dbg vals n) (Suc (length s)) v s))"

definition reads_expr :: "debug_next \<Rightarrow> (string \<times> json) list \<Rightarrow> fexpr \<Rightarrow> bool" where
  "reads_expr dbg vals e \<longleftrightarrow> (\<forall>n s. length (formula_text 0 e @ s) < n \<longrightarrow> boundary s \<longrightarrow> no_star s \<longrightarrow>
     parse_expr (parse_factor dbg vals n) (formula_text 0 e @ s) =
       and_then (formula_value vals e) (\<lambda>v. expr_loop (parse_factor dbg vals n) (Suc (length s)) v s))"

lemma factor_reads_term: "formula_text 1 e = formula_text 2 e \<Longrightarrow> reads_factor dbg vals e \<Longrightarrow> reads_term dbg vals e"
  by (auto simp: reads_factor_def reads_term_def parse_term_def and_then_pair)

lemma term_reads_expr:
  assumes "formula_text 0 e = formula_text 1 e" "reads_term dbg vals e"
  shows "reads_expr dbg vals e"
  unfolding reads_expr_def
proof (intro allI impI)
  fix n s assume n: "length (formula_text 0 e @ s) < n" and s: "boundary s" "no_star s"
  have c: "consuming (length s) (parse_factor dbg vals n)" by (rule consuming_parse_factor) (use n in simp)
  have "parse_term (parse_factor dbg vals n) (formula_text 1 e @ s) =
      and_then (formula_value vals e) (\<lambda>v. Inr (v, skip_ws s))"
    using assms(2) n s(1) unfolding reads_term_def assms(1) by (simp add: term_loop_stop [OF s(2)])
  then show "parse_expr (parse_factor dbg vals n) (formula_text 0 e @ s) =
      and_then (formula_value vals e) (\<lambda>v. expr_loop (parse_factor dbg vals n) (Suc (length s)) v s)"
    by (simp add: parse_expr_def assms(1) and_then_pair expr_loop_skip [OF c order_refl lessI])
qed

lemma expr_reads_factor:
  assumes "formula_text 2 e = ''('' @ formula_text 0 e @ '')''" "reads_expr dbg vals e"
  shows "reads_factor dbg vals e"
  unfolding reads_factor_def
proof (intro allI impI)
  fix n s assume n: "length (formula_text 2 e @ s) < n" and s: "boundary s"
  obtain m where m: "n = Suc m" using n by (cases n) simp_all
  have "boundary (CHR '')'' # s)" by (simp add: boundary_def is_word_char_def is_ascii_alpha_def is_digit_def)
  moreover have "no_star (CHR '')'' # s)" by (simp add: no_star_def ascii_visible)
  ultimately have "parse_expr (parse_factor dbg vals m) (formula_text 0 e @ CHR '')'' # s) =
      and_then (formula_value vals e) (\<lambda>v. Inr (v, CHR '')'' # s))"
    using assms n m unfolding reads_expr_def by (simp add: expr_loop.simps ascii_visible)
  then show "parse_factor dbg vals n (formula_text 2 e @ s) = and_then (formula_value vals e) (\<lambda>v. Inr (v, s))"
    by (simp add: m assms(1) ascii_visible and_then_pair)
qed

lemma sum_reads_expr:
  assumes op: "formula_text 0 e = formula_text 0 a @ CHR '' '' # c # CHR '' '' # formula_text 1 b"
      "c = CHR ''+'' \<and> f = (+) \<or> c = CHR ''-'' \<and> f = (-)"
      "formula_value vals e = and_then (formula_value vals a) (\<lambda>v. and_then (formula_value vals b) (\<lambda>w. num_op v w f))"
    and IH: "reads_expr dbg vals a" "reads_term dbg vals b"
  shows "reads_expr dbg vals e"
  unfolding reads_expr_def
proof (intro allI impI)
  fix n s assume n: "length (formula_text 0 e @ s) < n" and s: "boundary s" "no_star s"
  let ?f = "parse_factor dbg vals n" and ?t = "c # CHR '' '' # formula_text 1 b @ s"
  have c: "consuming (length s) ?f" by (rule consuming_parse_factor) (use n in simp)
  have vis: "skip_ws ?t = ?t" using op(2) by (auto intro: ascii_visible)
  have a: "parse_expr ?f (formula_text 0 a @ CHR '' '' # ?t) =
      and_then (formula_value vals a) (\<lambda>v. expr_loop ?f (Suc (Suc (length ?t))) v (CHR '' '' # ?t))"
  proof -
    have "boundary (CHR '' '' # ?t)" by (simp add: boundary_def is_word_char_def is_ascii_alpha_def is_digit_def)
    moreover have "no_star (CHR '' '' # ?t)" using op(2) by (auto simp: no_star_def ascii_visible)
    ultimately show ?thesis using IH(1) n unfolding reads_expr_def op(1) by simp
  qed
  have b: "parse_term ?f (CHR '' '' # formula_text 1 b @ s) = and_then (formula_value vals b) (\<lambda>w. Inr (w, skip_ws s))"
    using IH(2) n s(1) unfolding reads_term_def op(1) by (simp add: parse_term_space term_loop_stop [OF s(2)])
  have l: "expr_loop ?f (Suc (Suc (length ?t))) v (CHR '' '' # ?t) =
      and_then (formula_value vals b) (\<lambda>w. and_then (num_op v w f) (\<lambda>x. expr_loop ?f (Suc (length s)) x s))" for v
  proof -
    have "expr_loop ?f (Suc k) v (CHR '' '' # ?t) = and_then (formula_value vals b) (\<lambda>w.
        and_then (num_op v w f) (\<lambda>x. expr_loop ?f k x (skip_ws s)))" for k
      using op(2) by (auto simp: expr_loop.simps(2) ascii_visible b and_then_pair simp del: One_nat_def)
    moreover have "expr_loop ?f (Suc (length ?t)) x (skip_ws s) = expr_loop ?f (Suc (length s)) x s" for x
      using expr_loop_skip [OF c order_refl, of "Suc (length s)" x] skip_ws_length [of s]
        expr_loop_fuel [OF c, of "skip_ws s" "Suc (length ?t)" "Suc (length (skip_ws s))" x] by simp
    ultimately show ?thesis by simp
  qed
  show "parse_expr ?f (formula_text 0 e @ s) = and_then (formula_value vals e) (\<lambda>v. expr_loop ?f (Suc (length s)) v s)"
    using a by (simp only: op(1,3) l and_then_assoc append.assoc append_Cons)
qed

lemma product_reads_term:
  assumes op: "formula_text 1 e = formula_text 1 a @ CHR '' '' # CHR ''*'' # CHR '' '' # formula_text 2 b"
      "formula_value vals e = and_then (formula_value vals a) (\<lambda>v. and_then (formula_value vals b) (\<lambda>w. num_op v w (*)))"
    and IH: "reads_term dbg vals a" "reads_factor dbg vals b"
  shows "reads_term dbg vals e"
  unfolding reads_term_def
proof (intro allI impI)
  fix n s assume n: "length (formula_text 1 e @ s) < n" and s: "boundary s"
  let ?f = "parse_factor dbg vals n" and ?t = "CHR ''*'' # CHR '' '' # formula_text 2 b @ s"
  have c: "consuming (length s) ?f" by (rule consuming_parse_factor) (use n in simp)
  have vis: "skip_ws ?t = ?t" by (rule ascii_visible) simp
  have a: "parse_term ?f (formula_text 1 a @ CHR '' '' # ?t) =
      and_then (formula_value vals a) (\<lambda>v. term_loop ?f (Suc (Suc (length ?t))) v (CHR '' '' # ?t))"
    using IH(1) n unfolding reads_term_def op(1)
    by (simp add: boundary_def is_word_char_def is_ascii_alpha_def is_digit_def)
  have b: "?f (CHR '' '' # formula_text 2 b @ s) = and_then (formula_value vals b) (\<lambda>w. Inr (w, s))"
    using IH(2) n s unfolding reads_factor_def op(1) by (simp add: parse_factor_space)
  have l: "term_loop ?f (Suc (Suc (length ?t))) v (CHR '' '' # ?t) =
      and_then (formula_value vals b) (\<lambda>w. and_then (num_op v w (*)) (\<lambda>x. term_loop ?f (Suc (length s)) x s))" for v
  proof -
    have "term_loop ?f (Suc k) v (CHR '' '' # ?t) = and_then (formula_value vals b) (\<lambda>w.
        and_then (num_op v w (*)) (\<lambda>x. term_loop ?f k x s))" for k
      by (simp add: term_loop.simps(2) ascii_visible b and_then_pair)
    moreover have "term_loop ?f (Suc (length ?t)) x s = term_loop ?f (Suc (length s)) x s" for x
      by (rule term_loop_fuel [OF c]) simp_all
    ultimately show ?thesis by simp
  qed
  show "parse_term ?f (formula_text 1 e @ s) = and_then (formula_value vals e) (\<lambda>v. term_loop ?f (Suc (length s)) v s)"
    using a by (simp only: op l and_then_assoc append.assoc append_Cons)
qed

lemma field_reads_factor: "well_formed (FField x) \<Longrightarrow> reads_factor dbg vals (FField x)"
  unfolding reads_factor_def
proof (intro allI impI)
  fix n s assume x: "well_formed (FField x)" and n: "length (formula_text 2 (FField x) @ s) < n" and s: "boundary s"
  obtain m where m: "n = Suc m" using n by (cases n) simp_all
  obtain c cs where cs: "x = c # cs" using x by (cases x) simp_all
  have "takeWhile is_word_char (x @ s) = x" "dropWhile is_word_char (x @ s) = s"
    using x s by (cases s; auto simp: boundary_def list_all_iff takeWhile_append2 dropWhile_append2)+
  moreover have "\<not> is_digit c" "c \<noteq> CHR ''-''" "c \<noteq> CHR ''(''" "is_ascii_alpha c \<or> c = CHR ''_''"
    using x cs by (auto simp: is_digit_def is_ascii_alpha_def)
  ultimately show "parse_factor dbg vals n (formula_text 2 (FField x) @ s) =
      and_then (formula_value vals (FField x)) (\<lambda>v. Inr (v, s))"
    by (auto simp: m cs ascii_visible parse_field_def and_then_def)
qed

lemma number_reads_factor: "well_formed (FNum k) \<Longrightarrow> reads_factor dbg vals (FNum k)"
  unfolding reads_factor_def
proof (intro allI impI)
  fix n s assume k: "well_formed (FNum k)" and n: "length (formula_text 2 (FNum k) @ s) < n" and s: "boundary s"
  obtain m where m: "n = Suc m" using n by (cases n) simp_all
  obtain c cs where cs: "show_int k = c # cs" "is_digit c \<or> c = CHR ''-''"
  proof (cases "k < 0")
    case True
    then show ?thesis using that by (simp add: show_int_def)
  next
    case False
    then show ?thesis using that show_nat_digits [of "nat k"]
      by (cases "show_nat (nat k)") (auto simp: show_int_def)
  qed
  moreover have "c \<noteq> CHR ''(''" using cs(2) by (auto simp: is_digit_def)
  ultimately show "parse_factor dbg vals n (formula_text 2 (FNum k) @ s) =
      and_then (formula_value vals (FNum k)) (\<lambda>v. Inr (v, s))"
    using parse_number_show [OF k [simplified] s] by (auto simp: m ascii_visible and_then_def)
qed

lemma formula_read:
  "well_formed e \<Longrightarrow> reads_factor dbg vals e \<and> reads_term dbg vals e \<and> reads_expr dbg vals e"
proof (induction e)
  case (FNum k)
  then have f: "reads_factor dbg vals (FNum k)" by (rule number_reads_factor)
  have t: "reads_term dbg vals (FNum k)" by (rule factor_reads_term [OF _ f]) simp
  have "reads_expr dbg vals (FNum k)" by (rule term_reads_expr [OF _ t]) simp
  with f t show ?case by simp
next
  case (FField x)
  then have f: "reads_factor dbg vals (FField x)" by (rule field_reads_factor)
  have t: "reads_term dbg vals (FField x)" by (rule factor_reads_term [OF _ f]) simp
  have "reads_expr dbg vals (FField x)" by (rule term_reads_expr [OF _ t]) simp
  with f t show ?case by simp
next
  case (FAdd a b)
  have e: "reads_expr dbg vals (FAdd a b)"
    by (rule sum_reads_expr [of _ a "CHR ''+''" b "(+)"]) (use FAdd in \<open>simp_all add: paren_def\<close>)
  have f: "reads_factor dbg vals (FAdd a b)" by (rule expr_reads_factor [OF _ e]) (simp add: paren_def)
  have "reads_term dbg vals (FAdd a b)" by (rule factor_reads_term [OF _ f]) simp
  with e f show ?case by simp
next
  case (FSub a b)
  have e: "reads_expr dbg vals (FSub a b)"
    by (rule sum_reads_expr [of _ a "CHR ''-''" b "(-)"]) (use FSub in \<open>simp_all add: paren_def\<close>)
  have f: "reads_factor dbg vals (FSub a b)" by (rule expr_reads_factor [OF _ e]) (simp add: paren_def)
  have "reads_term dbg vals (FSub a b)" by (rule factor_reads_term [OF _ f]) simp
  with e f show ?case by simp
next
  case (FMul a b)
  have t: "reads_term dbg vals (FMul a b)"
    by (rule product_reads_term [of _ a b]) (use FMul in \<open>simp_all add: paren_def\<close>)
  have e: "reads_expr dbg vals (FMul a b)" by (rule term_reads_expr [OF _ t]) (simp add: paren_def)
  have "reads_factor dbg vals (FMul a b)" by (rule expr_reads_factor [OF _ e]) (simp add: paren_def)
  with e t show ?case by simp
qed

lemma formula_value_type:
  "well_formed e \<Longrightarrow> formula_value vals e = Inr v \<Longrightarrow> (\<exists>x. e = FField x) \<or> (\<exists>n. v = JInt n \<and> in_i64 n)"
  by (cases e) (auto simp: and_then_Inr num_op_def in_i64_wrap)

text \<open>
  C31: The evaluator computes what the grammar says. The text of an expression, with parentheses
  only where precedence and left associativity need them, evaluates to the value of the
  expression: sums and products of 64-bit integers that wrap around, an absent or null field as
  zero, money as its minor units, and the first error from the left. The value is a 64-bit integer
  unless the formula is a single field. (A text that contains a banned word is refused.)
\<close>

theorem formula_grammar:
  assumes "well_formed e" "\<not> list_ex (\<lambda>b. str_contains b (ascii_lower (formula_text 0 e))) BANNED"
  shows "eval_formula dbg (formula_text 0 e) vals = formula_value vals e \<and>
    (\<forall>v. formula_value vals e = Inr v \<longrightarrow> (\<exists>x. e = FField x) \<or> (\<exists>n. v = JInt n \<and> in_i64 n))"
proof -
  have "reads_expr dbg vals e" using formula_read [OF assms(1)] by simp
  then have "parse_expr (parse_factor dbg vals (Suc (length (formula_text 0 e)))) (formula_text 0 e @ []) =
      and_then (formula_value vals e) (\<lambda>v. Inr (v, []))"
    unfolding reads_expr_def by (subst (asm) all_comm) (simp add: boundary_def no_star_def expr_loop.simps)
  with assms(2) have "eval_formula dbg (formula_text 0 e) vals = formula_value vals e"
    by (cases "formula_value vals e") (simp_all add: eval_formula_def and_then_def)
  with formula_value_type [OF assms(1)] show ?thesis by blast
qed

text \<open>\<open>(qty - 1) * price\<close> with a price of 19.99: parentheses around the difference only.\<close>

theorem formula_grammar_witness:
  "formula_text 0 (FMul (FSub (FField ''qty'') (FNum 1)) (FField ''price'')) = ''(qty - 1) * price'' \<and>
   eval_formula (\<lambda>s. []) ''(qty - 1) * price''
     [(''price'', JObj [(''amount_minor'', JInt 1999), (''currency'', JStr ''USD'')]), (''qty'', JInt 3)] = Inr (JInt 3998)"
proof -
  let ?e = "FMul (FSub (FField ''qty'') (FNum 1)) (FField ''price'')"
    and ?m = "[(''price'', JObj [(''amount_minor'', JInt 1999), (''currency'', JStr ''USD'')]), (''qty'', JInt 3)]"
  have t: "formula_text 0 ?e = ''(qty - 1) * price''" by code_simp
  moreover have "well_formed ?e" by (simp add: in_i64_def is_ascii_alpha_def is_word_char_def)
  moreover have "\<not> list_ex (\<lambda>b. str_contains b (ascii_lower ''(qty - 1) * price'')) BANNED"
    by (simp add: BANNED_def ascii_lower_def starts_with_def)
  moreover have "formula_value ?m ?e = Inr (JInt 3998)"
    by (simp add: field_value_def num_op_def and_then_def in_i64_def wrap_i64_def)
  ultimately show ?thesis using formula_grammar [of ?e "\<lambda>s. []" ?m] by simp
qed

section \<open>Applying the formulas of an entity\<close>

text \<open>Only formula fields change.\<close>

lemma apply_formulas_frame:
  "apply_formulas dbg fs vals = Inr vals' \<Longrightarrow> k \<notin> fd_name ` {f \<in> set fs. fd_type f = Formula} \<Longrightarrow>
   map_of vals' k = map_of vals k"
proof (induction dbg fs vals rule: apply_formulas.induct)
  case (2 dbg f fs vals)
  have fs: "k \<notin> fd_name ` {f \<in> set fs. fd_type f = Formula}" "fd_type f = Formula \<Longrightarrow> k \<noteq> fd_name f"
    using "2.prems"(2) by auto
  show ?case
  proof (cases "fd_type f = Formula \<and> fd_formula f \<noteq> None")
    case True
    then obtain expr v where "fd_formula f = Some expr" "eval_formula dbg expr vals = Inr v"
      "apply_formulas dbg fs (map_put (fd_name f) v vals) = Inr vals'"
      using "2.prems"(1) by (auto simp: and_then_Inr split: option.splits)
    with True "2.IH"(3) fs show ?thesis by simp
  qed (use 2 fs in \<open>auto split: if_splits option.splits\<close>)
qed simp

lemma apply_formulas_keys:
  "apply_formulas dbg fs vals = Inr vals' \<Longrightarrow> fst ` set vals' \<subseteq> fst ` set vals \<union> fd_name ` set fs"
proof (induction dbg fs vals rule: apply_formulas.induct)
  case (2 dbg f fs vals)
  show ?case
  proof (cases "fd_type f = Formula \<and> fd_formula f \<noteq> None")
    case True
    then obtain expr v where "fd_formula f = Some expr" "eval_formula dbg expr vals = Inr v"
      "apply_formulas dbg fs (map_put (fd_name f) v vals) = Inr vals'"
      using "2.prems" by (auto simp: and_then_Inr split: option.splits)
    with True "2.IH"(3) have "fst ` set vals' \<subseteq> fst ` set (map_put (fd_name f) v vals) \<union> fd_name ` set fs" by simp
    then show ?thesis unfolding keys_map_put by auto
  next
    case False
    with "2.prems" have "apply_formulas dbg fs vals = Inr vals'" by (auto split: if_splits option.splits)
    with False "2.IH"(1,2) have "fst ` set vals' \<subseteq> fst ` set vals \<union> fd_name ` set fs" by (cases "fd_type f = Formula") auto
    then show ?thesis by auto
  qed
qed simp

end
