(* ===== verification/Sandbox.thy ===== *)
theory Sandbox
  imports Json
begin

text \<open>
  The scripting sandbox of custom entities (\<open>services/platform/custom-service/src/sandbox/mod.rs\<close>):
  statements and expressions, the meter that counts operations and reads the clock, the record
  host that accounts for memory, and the interpreter. \<open>f64\<close> arithmetic and its decimal text are
  parameters (\<open>float_ops\<close>), so is the clock: \<open>clk k\<close> is the time since the start of the script
  that its \<open>k\<close>-th reading shows, in milliseconds. An operation count that saturated would need a
  limit of \<open>u64::MAX\<close>; below that \<open>saturating_add\<close> is addition, and sizes of values in memory
  do not reach \<open>usize::MAX\<close>.
\<close>

section \<open>Scripts\<close>

record limits =
  lm_max_ops :: nat
  lm_max_bytes :: nat
  lm_max_wall :: nat

definition default_limits :: limits where
  "default_limits = \<lparr>lm_max_ops = 10000, lm_max_bytes = 256 * 1024, lm_max_wall = 50\<rparr>"

datatype sandbox_error =
    CpuLimit nat
  | MemoryLimit nat
  | TimeLimit
  | DeniedHost string
  | ScriptRuntime string
  | ScriptPanic

datatype sexpr =
    Lit json
  | Field_expr string
  | Add sexpr sexpr
  | Sub sexpr sexpr
  | Mul sexpr sexpr
  | Eq sexpr sexpr
  | Gt sexpr sexpr
  | Not_expr sexpr
  | TrueLit

datatype stmt =
    SetField string sexpr
  | If_stmt sexpr "stmt list" "stmt list"
  | Loop nat "stmt list"
  | SleepMs nat
  | Alloc string nat
  | Call string "sexpr list"

record 'f float_ops =
  fo_of_int :: "int \<Rightarrow> 'f"
  fo_of_text :: "string \<Rightarrow> 'f"
  fo_add :: "'f \<Rightarrow> 'f \<Rightarrow> 'f"
  fo_sub :: "'f \<Rightarrow> 'f \<Rightarrow> 'f"
  fo_mul :: "'f \<Rightarrow> 'f \<Rightarrow> 'f"
  fo_gt :: "'f \<Rightarrow> 'f \<Rightarrow> bool"
  fo_eq :: "'f \<Rightarrow> 'f \<Rightarrow> bool"
  fo_show :: "'f \<Rightarrow> string option"

record script_state =
  st_values :: "(string \<times> json) list"
  st_bytes :: nat
  st_ops :: nat
  st_reads :: nat

section \<open>Values\<close>

fun approx_bytes :: "json \<Rightarrow> nat" where
  "approx_bytes JNull = 4"
| "approx_bytes (JBool b) = 1"
| "approx_bytes (JInt n) = 16"
| "approx_bytes (JFloat t) = 16"
| "approx_bytes (JStr s) = length s"
| "approx_bytes (JArr a) = sum_list (map approx_bytes a) + 8"
| "approx_bytes (JObj m) = sum_list (map (\<lambda>(k, v). length k + approx_bytes v) m) + 8"

fun as_f64 :: "'f float_ops \<Rightarrow> json \<Rightarrow> sandbox_error + 'f" where
  "as_f64 fo (JInt n) = Inr (fo_of_int fo n)"
| "as_f64 fo (JFloat t) = Inr (fo_of_text fo t)"
| "as_f64 fo (JBool b) = Inr (if b then fo_of_int fo 1 else fo_of_int fo 0)"
| "as_f64 fo _ = Inl (ScriptRuntime ''expected number'')"

fun truthy :: "'f float_ops \<Rightarrow> json \<Rightarrow> bool" where
  "truthy fo JNull = False"
| "truthy fo (JBool b) = b"
| "truthy fo (JInt n) = (\<not> fo_eq fo (fo_of_int fo n) (fo_of_int fo 0))"
| "truthy fo (JFloat t) = (\<not> fo_eq fo (fo_of_text fo t) (fo_of_int fo 0))"
| "truthy fo (JStr s) = (s \<noteq> [])"
| "truthy fo (JArr a) = (a \<noteq> [])"
| "truthy fo (JObj m) = (m \<noteq> [])"

definition json_number :: "'f float_ops \<Rightarrow> 'f \<Rightarrow> json" where
  "json_number fo x = (case fo_show fo x of Some t \<Rightarrow> JFloat t | None \<Rightarrow> JNull)"

text \<open>\<open>==\<close> on \<open>Value\<close>: an integer and a float are never equal, two floats are compared as such.\<close>

fun json_eq :: "'f float_ops \<Rightarrow> json \<Rightarrow> json \<Rightarrow> bool" where
  "json_eq fo (JFloat s) (JFloat t) = fo_eq fo (fo_of_text fo s) (fo_of_text fo t)"
| "json_eq fo (JArr a) (JArr b) = list_all2 (json_eq fo) a b"
| "json_eq fo (JObj a) (JObj b) = list_all2 (\<lambda>(k, v) (l, w). k = l \<and> json_eq fo v w) a b"
| "json_eq fo a b = (a = b)"

section \<open>Meter and host\<close>

definition tick :: "limits \<Rightarrow> (nat \<Rightarrow> nat) \<Rightarrow> script_state \<Rightarrow> sandbox_error + script_state" where
  "tick lim clk st =
     (let ops = st_ops st + 1 in
      if ops > lm_max_ops lim then Inl (CpuLimit (lm_max_ops lim))
      else if clk (st_reads st) > lm_max_wall lim then Inl TimeLimit
      else Inr (st\<lparr>st_ops := ops, st_reads := Suc (st_reads st)\<rparr>))"

definition get_field :: "script_state \<Rightarrow> string \<Rightarrow> json" where
  "get_field st name = (case map_of (st_values st) name of Some v \<Rightarrow> v | None \<Rightarrow> JNull)"

definition set_field :: "limits \<Rightarrow> string \<Rightarrow> json \<Rightarrow> script_state \<Rightarrow> sandbox_error + script_state" where
  "set_field lim name v st =
     (let old = (case map_of (st_values st) name of Some w \<Rightarrow> approx_bytes w | None \<Rightarrow> 0);
          next_bytes = (st_bytes st - old) + approx_bytes v in
      if next_bytes > lm_max_bytes lim then Inl (MemoryLimit (lm_max_bytes lim))
      else Inr (st\<lparr>st_bytes := next_bytes, st_values := map_put name v (st_values st)\<rparr>))"

section \<open>The interpreter\<close>

type_synonym expr_fun = "script_state \<Rightarrow> sandbox_error + json \<times> script_state"

definition binary :: "'f float_ops \<Rightarrow> ('f \<Rightarrow> 'f \<Rightarrow> json) \<Rightarrow> expr_fun \<Rightarrow> expr_fun \<Rightarrow> expr_fun" where
  "binary fo f left right st =
     and_then (left st) (\<lambda>(v, st).
     and_then (as_f64 fo v) (\<lambda>l.
     and_then (right st) (\<lambda>(w, st).
     and_then (as_f64 fo w) (\<lambda>r. Inr (f l r, st)))))"

fun eval_expr :: "'f float_ops \<Rightarrow> limits \<Rightarrow> (nat \<Rightarrow> nat) \<Rightarrow> sexpr \<Rightarrow> expr_fun" where
  "eval_expr fo lim clk (Lit v) st = and_then (tick lim clk st) (\<lambda>st. Inr (v, st))"
| "eval_expr fo lim clk (Field_expr name) st = and_then (tick lim clk st) (\<lambda>st. Inr (get_field st name, st))"
| "eval_expr fo lim clk TrueLit st = and_then (tick lim clk st) (\<lambda>st. Inr (JBool True, st))"
| "eval_expr fo lim clk (Not_expr a) st = and_then (tick lim clk st) (\<lambda>st.
     and_then (eval_expr fo lim clk a st) (\<lambda>(v, st). Inr (JBool (\<not> truthy fo v), st)))"
| "eval_expr fo lim clk (Eq a b) st = and_then (tick lim clk st) (\<lambda>st.
     and_then (eval_expr fo lim clk a st) (\<lambda>(v, st).
     and_then (eval_expr fo lim clk b st) (\<lambda>(w, st). Inr (JBool (json_eq fo v w), st))))"
| "eval_expr fo lim clk (Gt a b) st = and_then (tick lim clk st)
     (binary fo (\<lambda>l r. JBool (fo_gt fo l r)) (eval_expr fo lim clk a) (eval_expr fo lim clk b))"
| "eval_expr fo lim clk (Add a b) st = and_then (tick lim clk st)
     (binary fo (\<lambda>l r. json_number fo (fo_add fo l r)) (eval_expr fo lim clk a) (eval_expr fo lim clk b))"
| "eval_expr fo lim clk (Sub a b) st = and_then (tick lim clk st)
     (binary fo (\<lambda>l r. json_number fo (fo_sub fo l r)) (eval_expr fo lim clk a) (eval_expr fo lim clk b))"
| "eval_expr fo lim clk (Mul a b) st = and_then (tick lim clk st)
     (binary fo (\<lambda>l r. json_number fo (fo_mul fo l r)) (eval_expr fo lim clk a) (eval_expr fo lim clk b))"

text \<open>The busy wait ends at the latest when the meter has no operation left.\<close>

function sleep_loop ::
  "limits \<Rightarrow> (nat \<Rightarrow> nat) \<Rightarrow> nat \<Rightarrow> script_state \<Rightarrow> sandbox_error + script_state" where
  "sleep_loop lim clk target st =
     (if clk (st_reads st) < target then
        (case tick lim clk (st\<lparr>st_reads := Suc (st_reads st)\<rparr>) of
           Inl e \<Rightarrow> Inl e
         | Inr st' \<Rightarrow>
             if clk (st_reads st') \<ge> lm_max_wall lim then Inl TimeLimit
             else sleep_loop lim clk target (st'\<lparr>st_reads := Suc (st_reads st')\<rparr>))
      else Inr (st\<lparr>st_reads := Suc (st_reads st)\<rparr>))"
  by pat_completeness auto

termination sleep_loop
  by (relation "measure (\<lambda>(lim, clk, target, st). lm_max_ops lim - st_ops st)")
    (auto simp: tick_def Let_def split: if_splits)

declare sleep_loop.simps [simp del]

fun times_res :: "nat \<Rightarrow> ('s \<Rightarrow> 'e + 's) \<Rightarrow> 's \<Rightarrow> 'e + 's" where
  "times_res 0 f st = Inr st"
| "times_res (Suc n) f st = and_then (f st) (times_res n f)"

definition call_host :: "string \<Rightarrow> sandbox_error" where
  "call_host name =
     (if name \<in> {''get'', ''set''} then ScriptRuntime ''use set/field AST nodes instead of call get/set''
      else DeniedHost name)"

fun eval_stmt ::
  "'f float_ops \<Rightarrow> limits \<Rightarrow> (nat \<Rightarrow> nat) \<Rightarrow> stmt \<Rightarrow> script_state \<Rightarrow> sandbox_error + script_state"
and eval_block ::
  "'f float_ops \<Rightarrow> limits \<Rightarrow> (nat \<Rightarrow> nat) \<Rightarrow> stmt list \<Rightarrow> script_state \<Rightarrow> sandbox_error + script_state"
where
  "eval_stmt fo lim clk (SetField name e) st =
     and_then (tick lim clk st) (\<lambda>st.
     and_then (eval_expr fo lim clk e st) (\<lambda>(v, st). set_field lim name v st))"
| "eval_stmt fo lim clk (If_stmt cond thn els) st =
     and_then (tick lim clk st) (\<lambda>st.
     and_then (eval_expr fo lim clk cond st) (\<lambda>(c, st).
     if truthy fo c then eval_block fo lim clk thn st else eval_block fo lim clk els st))"
| "eval_stmt fo lim clk (Loop n body) st =
     and_then (tick lim clk st) (times_res (min n (lm_max_ops lim + 1)) (eval_block fo lim clk body))"
| "eval_stmt fo lim clk (SleepMs ms) st =
     and_then (tick lim clk st) (\<lambda>st.
     sleep_loop lim clk (clk (st_reads st) + ms) (st\<lparr>st_reads := Suc (st_reads st)\<rparr>))"
| "eval_stmt fo lim clk (Alloc name sz) st =
     and_then (tick lim clk st) (\<lambda>st.
     and_then (tick lim clk st) (\<lambda>st.
     if sz \<ge> 2 ^ 63 then Inl ScriptPanic
     else set_field lim name (JStr (replicate sz CHR ''x'')) st))"
| "eval_stmt fo lim clk (Call name args) st =
     and_then (tick lim clk st) (\<lambda>st. Inl (call_host name))"
| "eval_block fo lim clk [] st = Inr st"
| "eval_block fo lim clk (s # ss) st =
     and_then (eval_stmt fo lim clk s st) (eval_block fo lim clk ss)"

definition host_new :: "(string \<times> json) list \<Rightarrow> script_state" where
  "host_new vals = \<lparr>st_values = vals, st_bytes = approx_bytes (JObj vals), st_ops = 0, st_reads = 0\<rparr>"

definition execute ::
  "'f float_ops \<Rightarrow> limits \<Rightarrow> (nat \<Rightarrow> nat) \<Rightarrow> stmt list \<Rightarrow> script_state \<Rightarrow> sandbox_error + script_state" where
  "execute fo lim clk prog st = eval_block fo lim clk prog st"

section \<open>What every script keeps\<close>

fun assigned :: "stmt \<Rightarrow> string set" and assigned_block :: "stmt list \<Rightarrow> string set" where
  "assigned (SetField name e) = {name}"
| "assigned (If_stmt c thn els) = assigned_block thn \<union> assigned_block els"
| "assigned (Loop n body) = assigned_block body"
| "assigned (SleepMs ms) = {}"
| "assigned (Alloc name sz) = {name}"
| "assigned (Call name args) = {}"
| "assigned_block [] = {}"
| "assigned_block (s # ss) = assigned s \<union> assigned_block ss"

text \<open>
  A relation between the state before and after that is a preorder and holds across a tick, a
  reading of the clock and the assignment of one of the given fields holds across every script
  that assigns only those.
\<close>

locale script_relation =
  fixes lim :: limits and clk :: "nat \<Rightarrow> nat" and names :: "string set"
    and R :: "script_state \<Rightarrow> script_state \<Rightarrow> bool"
  assumes R_refl: "R st st"
    and R_trans: "R st st' \<Longrightarrow> R st' st'' \<Longrightarrow> R st st''"
    and R_tick: "tick lim clk st = Inr st' \<Longrightarrow> R st st'"
    and R_read: "R st (st\<lparr>st_reads := Suc (st_reads st)\<rparr>)"
    and R_set: "name \<in> names \<Longrightarrow> set_field lim name v st = Inr st' \<Longrightarrow> R st st'"
begin

lemma R_binary:
  assumes "\<And>st v st'. left st = Inr (v, st') \<Longrightarrow> R st st'" "\<And>st v st'. right st = Inr (v, st') \<Longrightarrow> R st st'"
    "binary fo f left right st = Inr (v, st')"
  shows "R st st'"
  using assms(3) by (auto simp: binary_def and_then_Inr dest!: assms(1,2) intro: R_trans)

lemma R_after_tick: "tick lim clk st = Inr st' \<Longrightarrow> R st' st'' \<Longrightarrow> R st st''"
  by (rule R_trans [OF R_tick])

lemma R_arith:
  assumes "\<And>st v st'. left st = Inr (v, st') \<Longrightarrow> R st st'" "\<And>st v st'. right st = Inr (v, st') \<Longrightarrow> R st st'"
    "and_then (tick lim clk st) (binary fo f left right) = Inr (v, st')"
  shows "R st st'"
proof -
  from assms(3) obtain s where s: "tick lim clk st = Inr s" "binary fo f left right s = Inr (v, st')"
    by (auto simp: and_then_Inr)
  show ?thesis by (rule R_after_tick [OF s(1) R_binary [OF assms(1,2) s(2)]])
qed

lemma R_expr: "eval_expr fo lim clk e st = Inr (v, st') \<Longrightarrow> R st st'"
proof (induction e arbitrary: st v st')
  case (Eq a b)
  from Eq.prems obtain st1 v1 st2 v2 st3 where s: "tick lim clk st = Inr st1" "eval_expr fo lim clk a st1 = Inr (v1, st2)"
    "eval_expr fo lim clk b st2 = Inr (v2, st3)" "st' = st3" by (auto simp: and_then_Inr)
  show ?case unfolding s(4) by (rule R_after_tick [OF s(1) R_trans [OF Eq.IH(1) [OF s(2)] Eq.IH(2) [OF s(3)]]])
next
  case (Not_expr a)
  then show ?case by (auto simp: and_then_Inr intro: R_after_tick)
next
  case (Add a b)
  show ?case by (rule R_arith [OF _ _ Add.prems [unfolded eval_expr.simps]]) (rule Add.IH, assumption)+
next
  case (Sub a b)
  show ?case by (rule R_arith [OF _ _ Sub.prems [unfolded eval_expr.simps]]) (rule Sub.IH, assumption)+
next
  case (Mul a b)
  show ?case by (rule R_arith [OF _ _ Mul.prems [unfolded eval_expr.simps]]) (rule Mul.IH, assumption)+
next
  case (Gt a b)
  show ?case by (rule R_arith [OF _ _ Gt.prems [unfolded eval_expr.simps]]) (rule Gt.IH, assumption)+
qed (auto simp: and_then_Inr intro: R_tick)

lemma R_sleep: "sleep_loop lim clk target st = Inr st' \<Longrightarrow> R st st'"
proof (induction "lm_max_ops lim - st_ops st" arbitrary: st rule: less_induct)
  case less
  let ?st = "st\<lparr>st_reads := Suc (st_reads st)\<rparr>"
  show ?case
  proof (cases "clk (st_reads st) < target")
    case False
    with less.prems show ?thesis using R_read [of st] by (auto simp: sleep_loop.simps [of _ _ _ st])
  next
    case True
    with less.prems obtain s where s: "tick lim clk ?st = Inr s"
      "sleep_loop lim clk target (s\<lparr>st_reads := Suc (st_reads s)\<rparr>) = Inr st'"
      by (auto simp: sleep_loop.simps [of _ _ _ st] split: sum.splits if_splits)
    from s(1) have "lm_max_ops lim - st_ops (s\<lparr>st_reads := Suc (st_reads s)\<rparr>) < lm_max_ops lim - st_ops st"
      by (auto simp: tick_def Let_def split: if_splits)
    from less.hyps [OF this s(2)] have "R s st'" by (rule R_trans [OF R_read])
    with s(1) show ?thesis by (blast intro: R_after_tick R_trans R_read)
  qed
qed

lemma R_times:
  assumes "\<And>st st'. f st = Inr st' \<Longrightarrow> R st st'"
  shows "times_res n f st = Inr st' \<Longrightarrow> R st st'"
  by (induction n arbitrary: st) (auto simp: and_then_Inr R_refl intro: assms R_trans)

lemma R_script:
  "eval_stmt fo lim clk s st = Inr st' \<Longrightarrow> assigned s \<subseteq> names \<Longrightarrow> R st st'"
  "eval_block fo lim clk ss st = Inr st' \<Longrightarrow> assigned_block ss \<subseteq> names \<Longrightarrow> R st st'"
proof (induction s and ss arbitrary: st st' and st st' rule: assigned_assigned_block.induct)
  case (1 name e)
  then obtain s1 v s2 where s: "tick lim clk st = Inr s1" "eval_expr fo lim clk e s1 = Inr (v, s2)"
    "set_field lim name v s2 = Inr st'" by (auto simp: and_then_Inr)
  with 1 have "R s2 st'" by (auto intro: R_set)
  then show ?case by (rule R_after_tick [OF s(1) R_trans [OF R_expr [OF s(2)]]])
next
  case (2 c thn els)
  then obtain s1 v s2 where s: "tick lim clk st = Inr s1" "eval_expr fo lim clk c s1 = Inr (v, s2)"
    "eval_block fo lim clk (if truthy fo v then thn else els) s2 = Inr st'" by (auto simp: and_then_Inr split: if_splits)
  with 2 have "R s2 st'" by (auto split: if_splits)
  then show ?case by (rule R_after_tick [OF s(1) R_trans [OF R_expr [OF s(2)]]])
next
  case (3 n body)
  then obtain s where s: "tick lim clk st = Inr s"
    "times_res (min n (lm_max_ops lim + 1)) (eval_block fo lim clk body) s = Inr st'" by (auto simp: and_then_Inr)
  have "R s st'" by (rule R_times [OF _ s(2)]) (use 3 in simp)
  then show ?case by (rule R_after_tick [OF s(1)])
next
  case (4 ms)
  then obtain s1 where "tick lim clk st = Inr s1"
    "sleep_loop lim clk (clk (st_reads s1) + ms) (s1\<lparr>st_reads := Suc (st_reads s1)\<rparr>) = Inr st'" by (auto simp: and_then_Inr)
  then show ?case by (blast intro: R_after_tick R_trans R_read R_sleep)
next
  case (5 name sz)
  then obtain s1 s2 where s: "tick lim clk st = Inr s1" "tick lim clk s1 = Inr s2"
    "set_field lim name (JStr (replicate sz CHR ''x'')) s2 = Inr st'" by (auto simp: and_then_Inr split: if_splits)
  show ?case by (rule R_after_tick [OF s(1) R_after_tick [OF s(2) R_set [OF _ s(3)]]]) (use 5 in simp)
next
  case (8 s ss)
  then obtain s1 where "eval_stmt fo lim clk s st = Inr s1" "eval_block fo lim clk ss s1 = Inr st'" by (auto simp: and_then_Inr)
  with 8 have "R st s1" "R s1 st'" by auto
  then show ?case by (rule R_trans)
qed (auto simp: and_then_Inr R_refl)

end

section \<open>Limits, memory, frame\<close>

abbreviation entry_bytes :: "string \<times> json \<Rightarrow> nat" where
  "entry_bytes \<equiv> \<lambda>(k, v). length k + approx_bytes v"

lemma map_put_bytes_new:
  "map_of m k = None \<Longrightarrow> sum_list (map entry_bytes (map_put k v m)) = sum_list (map entry_bytes m) + length k + approx_bytes v"
  by (induction m) (auto split: if_splits)

lemma map_put_bytes_old:
  "keys_sorted m \<Longrightarrow> map_of m k = Some w \<Longrightarrow>
   sum_list (map entry_bytes (map_put k v m)) + approx_bytes w = sum_list (map entry_bytes m) + approx_bytes v"
proof (induction m)
  case (Cons x m)
  obtain l u where x: "x = (l, u)" by fastforce
  have "k = l" if "str_less k l"
  proof (rule ccontr)
    assume "k \<noteq> l"
    with Cons.prems(2) x have "k \<in> fst ` set m" by (auto dest: map_of_SomeD simp: rev_image_eqI)
    with Cons.prems(1) x have "str_less l k" by auto
    with that show False by (simp add: str_less_antisym)
  qed
  with Cons x show ?case by (auto split: if_splits)
qed simp

lemma map_put_keys_new:
  "map_of m k = None \<Longrightarrow> k \<notin> K \<Longrightarrow>
   sum_list (map length (filter (\<lambda>j. j \<notin> K) (map fst (map_put k v m)))) =
   sum_list (map length (filter (\<lambda>j. j \<notin> K) (map fst m))) + length k"
  by (induction m) (auto split: if_splits)

lemma map_put_keys_old: "keys_sorted m \<Longrightarrow> k \<in> fst ` set m \<Longrightarrow> map fst (map_put k v m) = map fst m"
proof (induction m)
  case (Cons x m)
  obtain l u where x: "x = (l, u)" by fastforce
  have "k = l" if "str_less k l"
    using Cons.prems x that str_less_antisym by fastforce
  with Cons x show ?case by auto
qed simp

definition metered :: "limits \<Rightarrow> script_state \<Rightarrow> script_state \<Rightarrow> bool" where
  "metered lim st st' \<longleftrightarrow> st_ops st \<le> st_ops st' \<and> (st_ops st \<le> lm_max_ops lim \<longrightarrow> st_ops st' \<le> lm_max_ops lim) \<and>
     (st_bytes st' \<le> lm_max_bytes lim \<or> st_bytes st' = st_bytes st \<and> st_values st' = st_values st)"

interpretation meter: script_relation lim clk UNIV "metered lim"
  by unfold_locales (auto simp: metered_def tick_def set_field_def Let_def split: if_splits)

text \<open>
  Time: each operation has read the clock once, in order, and each reading was within the limit.
\<close>

definition timed :: "limits \<Rightarrow> (nat \<Rightarrow> nat) \<Rightarrow> script_state \<Rightarrow> script_state \<Rightarrow> bool" where
  "timed lim clk st st' \<longleftrightarrow> st_reads st \<le> st_reads st' \<and>
     (\<exists>js. sorted_wrt (<) js \<and> st_ops st' = st_ops st + length js \<and>
        (\<forall>j \<in> set js. st_reads st \<le> j \<and> j < st_reads st' \<and> clk j \<le> lm_max_wall lim))"

lemma timed_trans:
  assumes "timed lim clk a b" "timed lim clk b c"
  shows "timed lim clk a c"
proof -
  from assms obtain ks js where "sorted_wrt (<) ks" "st_ops b = st_ops a + length ks"
      "\<forall>j \<in> set ks. st_reads a \<le> j \<and> j < st_reads b \<and> clk j \<le> lm_max_wall lim"
    and "sorted_wrt (<) js" "st_ops c = st_ops b + length js"
      "\<forall>j \<in> set js. st_reads b \<le> j \<and> j < st_reads c \<and> clk j \<le> lm_max_wall lim"
    unfolding timed_def by blast
  moreover have "st_reads a \<le> st_reads b" "st_reads b \<le> st_reads c" using assms by (simp_all add: timed_def)
  ultimately show ?thesis unfolding timed_def
    by (intro conjI exI [of _ "ks @ js"]) (auto simp: sorted_wrt_append, fastforce+)
qed

lemma timed_none: "st_reads st \<le> st_reads st' \<Longrightarrow> st_ops st' = st_ops st \<Longrightarrow> timed lim clk st st'"
  unfolding timed_def by (intro conjI exI [of _ "[]"]) simp_all

interpretation clock: script_relation lim clk UNIV "timed lim clk"
proof
  show "timed lim clk st st'" if "tick lim clk st = Inr st'" for st st'
    using that unfolding timed_def
    by (intro conjI exI [of _ "[st_reads st]"]) (auto simp: tick_def Let_def split: if_splits)
qed (auto intro: timed_none timed_trans simp: set_field_def Let_def split: if_splits)

definition framed :: "string set \<Rightarrow> script_state \<Rightarrow> script_state \<Rightarrow> bool" where
  "framed names st st' \<longleftrightarrow> (\<forall>k. k \<notin> names \<longrightarrow> map_of (st_values st') k = map_of (st_values st) k)"

interpretation frame: script_relation lim clk names "framed names"
  by unfold_locales (auto simp: framed_def tick_def set_field_def Let_def split: if_splits)

text \<open>
  The memory account: the bytes of the record are those the host has counted plus the names of the
  fields that the script has added, which the host does not count.
\<close>

definition accounted :: "string set \<Rightarrow> script_state \<Rightarrow> bool" where
  "accounted K st \<longleftrightarrow> keys_sorted (st_values st) \<and> K \<subseteq> fst ` set (st_values st) \<and>
     approx_bytes (JObj (st_values st)) =
       st_bytes st + sum_list (map length (filter (\<lambda>k. k \<notin> K) (map fst (st_values st))))"

lemma key_bytes_le:
  "sum_list (map length (filter P (map fst m))) + approx_bytes w \<le> sum_list (map entry_bytes m)"
  if "map_of m k = Some w"
  using that
proof (induction m)
  case (Cons x m)
  have "sum_list (map length (filter P (map fst m))) \<le> sum_list (map entry_bytes m)"
    by (induction m) auto
  with Cons show ?case by (cases x) (auto split: if_splits)
qed simp

lemma set_field_accounted:
  assumes "accounted K st" "set_field lim name v st = Inr st'"
  shows "accounted K st'"
proof (cases "map_of (st_values st) name")
  case None
  then have "name \<notin> fst ` set (st_values st)" by (simp add: map_of_eq_None_iff)
  with assms(1) have "name \<notin> K" by (auto simp: accounted_def)
  with None assms show ?thesis
    by (auto simp: accounted_def set_field_def Let_def keys_sorted_map_put keys_map_put map_put_bytes_new map_put_keys_new
        split: if_splits)
next
  case (Some w)
  then have k: "name \<in> fst ` set (st_values st)" by (metis fst_conv image_eqI map_of_SomeD)
  have "approx_bytes w \<le> st_bytes st"
    using assms(1) key_bytes_le [OF Some, of "\<lambda>k. k \<notin> K"] by (simp add: accounted_def)
  moreover have "map fst (map_put name v (st_values st)) = map fst (st_values st)"
    by (rule map_put_keys_old [OF _ k]) (use assms(1) in \<open>simp add: accounted_def\<close>)
  ultimately show ?thesis using Some assms map_put_bytes_old [OF _ Some, of v]
    by (auto simp: accounted_def set_field_def Let_def keys_map_put split: if_splits)
qed

interpretation account: script_relation lim clk UNIV "\<lambda>st st'. accounted K st \<longrightarrow> accounted K st'"
proof unfold_locales
  fix st st' name v
  show "tick lim clk st = Inr st' \<Longrightarrow> accounted K st \<longrightarrow> accounted K st'"
    by (auto simp: tick_def Let_def accounted_def split: if_splits)
  show "set_field lim name v st = Inr st' \<Longrightarrow> accounted K st \<longrightarrow> accounted K st'"
    by (blast intro: set_field_accounted)
qed (auto simp: accounted_def)

text \<open>
  C32: What a script that returns has done, whatever the clock and the arithmetic are: at most
  \<open>max_ops\<close> operations, each of which read the clock, one reading after another, and found it within
  the time limit; the memory it is charged for is within the memory limit, or it has not changed the
  record it was given; the record is larger than that charge by the names of the fields the script
  has added only; and fields that no assignment of the script names are as they were.
\<close>

theorem script_limits:
  assumes "execute fo lim clk prog (host_new vals) = Inr st" "keys_sorted vals"
  shows "st_ops st \<le> lm_max_ops lim \<and>
    (\<exists>js. length js = st_ops st \<and> sorted_wrt (<) js \<and> (\<forall>j \<in> set js. j < st_reads st \<and> clk j \<le> lm_max_wall lim)) \<and>
    (st_bytes st \<le> lm_max_bytes lim \<or> st_values st = vals) \<and>
    approx_bytes (JObj (st_values st)) =
      st_bytes st + sum_list (map length (filter (\<lambda>k. k \<notin> fst ` set vals) (map fst (st_values st)))) \<and>
    (\<forall>k. k \<notin> assigned_block prog \<longrightarrow> map_of (st_values st) k = map_of vals k)"
proof -
  have e: "eval_block fo lim clk prog (host_new vals) = Inr st" using assms(1) by (simp add: execute_def)
  have "metered lim (host_new vals) st" by (rule meter.R_script(2) [OF e]) simp
  moreover have "timed lim clk (host_new vals) st" by (rule clock.R_script(2) [OF e]) simp
  then have "\<exists>js. length js = st_ops st \<and> sorted_wrt (<) js \<and> (\<forall>j \<in> set js. j < st_reads st \<and> clk j \<le> lm_max_wall lim)"
    unfolding timed_def by (auto simp: host_new_def)
  moreover have "framed (assigned_block prog) (host_new vals) st" by (rule frame.R_script(2) [OF e]) simp
  moreover have "accounted (fst ` set vals) (host_new vals)"
    using assms(2) by (simp add: accounted_def host_new_def filter_empty_conv)
  with account.R_script(2) [OF e] have "accounted (fst ` set vals) st" by simp
  ultimately show ?thesis by (auto simp: metered_def framed_def accounted_def host_new_def)
qed

text \<open>The arithmetic of scripts yields floats, never integers.\<close>

lemma script_arithmetic_float:
  assumes "eval_expr fo lim clk (Add a b) st = Inr (v, st') \<or> eval_expr fo lim clk (Sub a b) st = Inr (v, st') \<or>
    eval_expr fo lim clk (Mul a b) st = Inr (v, st')"
  shows "v = JNull \<or> (\<exists>t. v = JFloat t)"
  using assms by (auto simp: and_then_Inr binary_def json_number_def split: option.splits)

section \<open>Concrete instances\<close>

definition int_floats :: "int float_ops" where
  "int_floats = \<lparr>fo_of_int = (\<lambda>n. n), fo_of_text = (\<lambda>t. 0), fo_add = (+), fo_sub = (-), fo_mul = (*),
     fo_gt = (\<lambda>x y. x > y), fo_eq = (=), fo_show = (\<lambda>x. Some (show_int x @ ''.0''))\<rparr>"

theorem script_limits_witness:
  "\<exists>st. execute int_floats default_limits (\<lambda>k. 0) [SetField ''note'' (Lit (JStr ''ok''))] (host_new [(''n'', JInt 7)]) = Inr st \<and>
     approx_bytes (JObj (st_values st)) = st_bytes st + 4 \<and> map_of (st_values st) ''n'' = Some (JInt 7)"
proof -
  let ?p = "[SetField ''note'' (Lit (JStr ''ok''))]"
  obtain st where e: "execute int_floats default_limits (\<lambda>k. 0) ?p (host_new [(''n'', JInt 7)]) = Inr st"
    "st_values st = [(''n'', JInt 7), (''note'', JStr ''ok'')]"
    by (simp add: execute_def host_new_def tick_def set_field_def default_limits_def and_then_def)
  from script_limits [OF e(1)] e show ?thesis by simp
qed

end
