(* ===== verification/Custom_Records.thy ===== *)
theory Custom_Records
  imports Formula Sandbox Grants Outbox
begin

text \<open>
  The low-code builder (\<open>services/platform/custom-service/src\<close>): entity definitions
  (\<open>handlers/entities.rs\<close>, \<open>permissions.rs\<close>), lifecycle scripts (\<open>handlers/scripts.rs\<close>) and
  records (\<open>handlers/records.rs\<close>) with validation, formulas, scripts, optimistic versions, search
  text, events and the audit trail. A handler runs in one transaction: an error or a panic leaves
  every table as it was. The JSON forms of field lists and scripts are made by serde and are
  parameters, as are UUIDs, the clock and the texts of database errors.
\<close>

section \<open>Tables\<close>

record cu_entity =
  ce_id :: uuid
  ce_org :: uuid
  ce_public_id :: string
  ce_slug :: string
  ce_label :: string
  ce_description :: string
  ce_fields :: json
  ce_status :: string
  ce_published_version :: int
  ce_created_by :: uuid
  ce_updated_by :: uuid
  ce_deleted :: "int option"

record cu_record =
  cr_id :: uuid
  cr_org :: uuid
  cr_public_id :: string
  cr_entity :: uuid
  cr_slug :: string
  cr_values :: json
  cr_search :: string
  cr_created_by :: uuid
  cr_updated_by :: uuid
  cr_version :: int
  cr_deleted :: "int option"

record cu_script =
  cs_id :: uuid
  cs_org :: uuid
  cs_public_id :: string
  cs_slug :: string
  cs_hook :: string
  cs_source :: string
  cs_enabled :: bool
  cs_created_by :: uuid

record perm_row =
  pr_id :: string
  pr_resource :: string
  pr_action :: string
  pr_description :: string
  pr_sensitive :: bool

record cu_world =
  cw_org :: org_db
  cw_roles :: "org_role list"
  cw_perms :: "perm_row list"
  cw_entities :: "cu_entity list"
  cw_records :: "cu_record list"
  cw_scripts :: "cu_script list"
  cw_outbox :: outbox_db
  cw_audit :: "audit_entry list"
  cw_uuids :: nat

datatype cu_failure = CuError app_error | CuPanic

record cu_caller =
  cc_org :: uuid
  cc_actor :: actor
  cc_request_id :: string
  cc_local_bypass :: bool

record 'f cu_env =
  cv_relay :: relay_env
  cv_parse_uuid :: "string \<Rightarrow> string + uuid"
  cv_clock :: "nat \<Rightarrow> int"
  cv_time :: time_parser
  cv_show_unique :: string
  cv_show_outbox_error :: "outbox_error \<Rightarrow> string"
  cv_fields_of :: "json \<Rightarrow> string + field_def list"
  cv_fields_json :: "field_def list \<Rightarrow> json"
  cv_program :: "string \<Rightarrow> string + stmt list"
  cv_floats :: "'f float_ops"
  cv_script_clock :: "string \<Rightarrow> nat \<Rightarrow> nat \<Rightarrow> nat"
  cv_debug :: debug_next

type_synonym 'a cu_step = "cu_world \<Rightarrow> cu_world \<times> (cu_failure + 'a)"

section \<open>Helpers\<close>

definition cu_then :: "'a cu_step \<Rightarrow> ('a \<Rightarrow> 'b cu_step) \<Rightarrow> 'b cu_step" where
  "cu_then m f w = (case m w of (w', Inl e) \<Rightarrow> (w', Inl e) | (w', Inr x) \<Rightarrow> f x w')"

definition cu_return :: "cu_failure + 'a \<Rightarrow> 'a cu_step" where
  "cu_return r w = (w, r)"

definition cu_tx :: "'a cu_step \<Rightarrow> 'a cu_step" where
  "cu_tx m w = (case m w of (w', Inl e) \<Rightarrow> (w\<lparr>cw_uuids := cw_uuids w'\<rparr>, Inl e) | (w', Inr x) \<Rightarrow> (w', Inr x))"

definition cu_err :: "error_code \<Rightarrow> string \<Rightarrow> string \<Rightarrow> cu_failure" where
  "cu_err code rid detail = CuError (app_error_new code rid detail)"

definition cu_internal :: "'f cu_env \<Rightarrow> string \<Rightarrow> cu_failure" where
  "cu_internal env rid = cu_err Internal rid (''db error: '' @ cv_show_unique env)"

definition cu_not_found :: "string \<Rightarrow> string \<Rightarrow> cu_failure" where
  "cu_not_found rid what = cu_err NotFound rid (what @ '' not found'')"

definition cu_validation :: "string \<Rightarrow> string \<Rightarrow> cu_failure" where
  "cu_validation rid detail = cu_err ValidationFailed rid detail"

definition cu_conflict :: "string \<Rightarrow> string \<Rightarrow> cu_failure" where
  "cu_conflict rid detail = cu_err Conflict rid detail"

definition cu_parse_public_id :: "'f cu_env \<Rightarrow> id_kind \<Rightarrow> string \<Rightarrow> string \<Rightarrow> cu_failure + uuid" where
  "cu_parse_public_id env kind raw rid =
     (case public_id_from_str (cv_parse_uuid env) raw of
        Inl e \<Rightarrow> Inl (cu_validation rid (''invalid id: '' @ raw))
      | Inr pid \<Rightarrow>
          if pid_kind pid \<noteq> kind then Inl (cu_validation rid (''id '' @ raw @ '' is not a '' @ Public_Ids.prefix kind @ '' id''))
          else Inr (pid_uuid pid))"

definition cu_public :: "'f cu_env \<Rightarrow> id_kind \<Rightarrow> uuid \<Rightarrow> string" where
  "cu_public env kind u = public_id_as_str (re_show_uuid (cv_relay env)) (public_id_new kind u)"

definition cu_uuid :: "'f cu_env \<Rightarrow> uuid cu_step" where
  "cu_uuid env w = (w\<lparr>cw_uuids := Suc (cw_uuids w)\<rparr>, Inr (re_gen_uuid (cv_relay env) (cw_uuids w)))"

definition cu_require_perm :: "'f cu_env \<Rightarrow> cu_caller \<Rightarrow> permission_id \<Rightarrow> unit cu_step" where
  "cu_require_perm env c perm w =
     (w, if cc_local_bypass c then Inr ()
         else map_err CuError (and_then (load_principal (cw_org w) (cc_org c) (on_behalf_of (cc_actor c)) (cc_request_id c))
           (\<lambda>(p, v, m). enforce (cv_time env) p perm (cc_request_id c))))"

definition insert_audit :: "'f cu_env \<Rightarrow> cu_caller \<Rightarrow> string \<Rightarrow> string \<Rightarrow> string \<Rightarrow> json \<Rightarrow> unit cu_step" where
  "insert_audit env c action resource_type resource_id metadata =
     cu_then (cu_uuid env) (\<lambda>i w.
     if list_ex (\<lambda>a. ae_id a = i) (cw_audit w) then (w, Inl (cu_internal env (cc_request_id c)))
     else (w\<lparr>cw_audit := cw_audit w @ [\<lparr>ae_id = i, ae_org = cc_org c, ae_actor = cc_actor c, ae_action = action,
        ae_resource_type = resource_type, ae_resource_id = resource_id, ae_metadata = metadata\<rparr>]\<rparr>, Inr ()))"

definition cu_emit :: "'f cu_env \<Rightarrow> cu_caller \<Rightarrow> string \<Rightarrow> string \<Rightarrow> json \<Rightarrow> unit cu_step" where
  "cu_emit env c aggregate event_type payload w =
     (let k = cw_uuids w; r = cv_relay env;
          envelope = envelope_new (re_gen_uuid r k) (cv_clock env k) (re_show_uuid r) (cc_org c) Events.Custom
            aggregate event_type 1 (cc_actor c) payload;
          w = w\<lparr>cw_uuids := Suc k\<rparr> in
      case insert_event r \<lparr>app_org = Some (cc_org c), app_outbox_relay = False\<rparr> envelope (cw_outbox w) of
        Inl e \<Rightarrow> (w, Inl (cu_err Internal (cc_request_id c) (cv_show_outbox_error env e)))
      | Inr (ob, i) \<Rightarrow> (w\<lparr>cw_outbox := ob\<rparr>, Inr ()))"

definition squote :: "string \<Rightarrow> string" where
  "squote s = CHR 0x27 # s @ [CHR 0x27]"

section \<open>Search documents\<close>

fun search_part :: "string \<times> json \<Rightarrow> string list" where
  "search_part (k, JStr s) = [k @ '':'' @ s]"
| "search_part (k, JInt n) = [k @ '':'' @ show_int n]"
| "search_part (k, JFloat t) = [k @ '':'' @ t]"
| "search_part (k, JBool b) = [k @ '':'' @ (if b then ''true'' else ''false'')]"
| "search_part (k, v) = []"

definition build_search_text :: "(string \<times> json) list \<Rightarrow> string" where
  "build_search_text vals = join_with '' '' (concat (map search_part vals))"

definition search_document :: "string \<Rightarrow> string \<Rightarrow> string \<Rightarrow> json \<Rightarrow> string \<Rightarrow> json" where
  "search_document org_public slug record_public vals search_text = json_object
     [(''doc_type'', JStr (''custom:'' @ slug)), (''org_id'', JStr org_public), (''id'', JStr record_public),
      (''title'', JStr search_text), (''body'', vals), (''permission'', JStr (''custom.'' @ slug @ ''.read''))]"

section \<open>Validation\<close>

fun value_is_i64 :: "json \<Rightarrow> bool" where
  "value_is_i64 (JInt n) = in_i64 n"
| "value_is_i64 _ = False"

fun value_is_bool :: "json \<Rightarrow> bool" where
  "value_is_bool (JBool b) = True"
| "value_is_bool _ = False"

fun value_object :: "json \<Rightarrow> (string \<times> json) list option" where
  "value_object (JObj m) = Some m"
| "value_object _ = None"

definition validate_money :: "json \<Rightarrow> string \<Rightarrow> string \<Rightarrow> cu_failure + unit" where
  "validate_money v name rid =
     (let bad = (\<lambda>d. Inl (cu_validation rid (''field '' @ squote name @ d))) in
      case value_object v of
        None \<Rightarrow> bad '' must be {amount_minor: i64, currency: String}''
      | Some m \<Rightarrow>
          (case map_of m ''amount_minor'' of
             None \<Rightarrow> bad '' missing amount_minor''
           | Some amount \<Rightarrow>
               if \<not> value_is_i64 amount then bad '' amount_minor must be an integer (no floats)''
               else case Option.bind (map_of m ''currency'') json_as_str of
                 None \<Rightarrow> bad '' currency must be a string''
               | Some currency \<Rightarrow>
                   if length currency \<noteq> 3 then bad '' currency must be a 3-letter code''
                   else if list_ex (\<lambda>(k, x). k \<noteq> ''amount_minor'' \<and> k \<noteq> ''currency'') m
                   then bad '' money object may only contain amount_minor and currency''
                   else Inr ()))"

definition validate_field :: "string \<Rightarrow> (string \<times> json) list \<Rightarrow> field_def \<Rightarrow> cu_failure + unit" where
  "validate_field rid vals f =
     (let bad = (\<lambda>d. Inl (cu_validation rid (''field '' @ squote (fd_name f) @ d)));
          present = (case map_of vals (fd_name f) of Some JNull \<Rightarrow> None | r \<Rightarrow> r) in
      if fd_type f = Formula then Inr ()
      else if fd_required f \<and> present = None then bad '' is required''
      else case present of
        None \<Rightarrow> Inr ()
      | Some v \<Rightarrow>
          (case fd_type f of
             Number \<Rightarrow> if value_is_i64 v then Inr () else bad '' must be an integer''
           | Bool \<Rightarrow> if value_is_bool v then Inr () else bad '' must be a boolean''
           | Select \<Rightarrow>
               (case json_as_str v of
                  None \<Rightarrow> bad '' must be a string option''
                | Some s \<Rightarrow>
                    (case fd_options f of
                       Some opts \<Rightarrow> if s \<in> set opts then Inr () else bad '' value not in options''
                     | None \<Rightarrow> Inr ()))
           | Money \<Rightarrow> validate_money v (fd_name f) rid
           | Formula \<Rightarrow> Inr ()
           | _ \<Rightarrow> if json_as_str v \<noteq> None then Inr () else bad '' must be a string''))"

fun validate_fields :: "string \<Rightarrow> (string \<times> json) list \<Rightarrow> field_def list \<Rightarrow> cu_failure + unit" where
  "validate_fields rid vals [] = Inr ()"
| "validate_fields rid vals (f # fs) = and_then (validate_field rid vals f) (\<lambda>_. validate_fields rid vals fs)"

definition validate_values :: "field_def list \<Rightarrow> (string \<times> json) list \<Rightarrow> string \<Rightarrow> cu_failure + unit" where
  "validate_values fdefs vals rid =
     (case find (\<lambda>(k, v). k \<notin> fd_name ` set fdefs) vals of
        Some (k, v) \<Rightarrow> Inl (cu_validation rid (''unknown field '' @ squote k))
      | None \<Rightarrow> validate_fields rid vals fdefs)"

section \<open>Scripts\<close>

fun show_sandbox_error :: "sandbox_error \<Rightarrow> string" where
  "show_sandbox_error (CpuLimit n) = ''script exceeded CPU operation limit ('' @ show_nat n @ '')''"
| "show_sandbox_error (MemoryLimit n) = ''script exceeded memory limit ('' @ show_nat n @ '' bytes)''"
| "show_sandbox_error TimeLimit = ''script exceeded wall-clock time limit''"
| "show_sandbox_error (DeniedHost f) = ''denied host function: '' @ f"
| "show_sandbox_error (ScriptRuntime d) = ''script error: '' @ d"
| "show_sandbox_error ScriptPanic = []"

fun show_formula_error :: "formula_error \<Rightarrow> string" where
  "show_formula_error (Parse d) = ''formula parse error: '' @ d"
| "show_formula_error (Runtime d) = ''formula runtime error: '' @ d"
| "show_formula_error Escape = ''formula attempted network/host escape''"
| "show_formula_error NoFuel = []"

definition load_script :: "cu_world \<Rightarrow> uuid \<Rightarrow> string \<Rightarrow> string \<Rightarrow> string option" where
  "load_script w org slug hook =
     map_option cs_source
       (find (\<lambda>s. cs_org s = org \<and> cs_slug s = slug \<and> cs_hook s = hook \<and> cs_enabled s) (cw_scripts w))"

definition run_script ::
  "'f cu_env \<Rightarrow> string \<Rightarrow> nat \<Rightarrow> string \<Rightarrow> (string \<times> json) list \<Rightarrow> string \<Rightarrow> cu_failure + (string \<times> json) list" where
  "run_script env hook k src vals rid =
     (case cv_program env src of
        Inl e \<Rightarrow> Inl (cu_validation rid (''script parse failed: '' @ show_sandbox_error (ScriptRuntime (''parse: '' @ e))))
      | Inr program \<Rightarrow>
          (case execute (cv_floats env) default_limits (cv_script_clock env hook k) program (host_new vals) of
             Inl ScriptPanic \<Rightarrow> Inl CuPanic
           | Inl e \<Rightarrow> Inl (cu_validation rid (''script failed (fail-closed): '' @ show_sandbox_error e))
           | Inr st \<Rightarrow> Inr (st_values st)))"

definition run_hook ::
  "'f cu_env \<Rightarrow> cu_caller \<Rightarrow> string \<Rightarrow> string \<Rightarrow> (string \<times> json) list \<Rightarrow> (string \<times> json) list cu_step" where
  "run_hook env c slug hook vals w =
     (w, case load_script w (cc_org c) slug hook of
           None \<Rightarrow> Inr vals
         | Some src \<Rightarrow> run_script env hook (cw_uuids w) src vals (cc_request_id c))"

section \<open>Records\<close>

record record_dto =
  rd_id :: string
  rd_slug :: string
  rd_values :: json
  rd_version :: int

definition trim_quotes :: "string \<Rightarrow> string" where
  "trim_quotes s = rev (dropWhile (\<lambda>c. c = CHR 0x22) (rev (dropWhile (\<lambda>c. c = CHR 0x22) s)))"

definition parse_i32 :: "string \<Rightarrow> int option" where
  "parse_i32 s =
     (let neg = (s \<noteq> [] \<and> hd s = CHR ''-''); signed = (neg \<or> s \<noteq> [] \<and> hd s = CHR ''+'');
          ds = (if signed then tl s else s);
          n = (if neg then - int (dec_val ds) else int (dec_val ds)) in
      if ds = [] \<or> \<not> list_all is_digit ds \<or> \<not> in_i32 n then None else Some n)"

definition require_if_match :: "string option \<Rightarrow> string \<Rightarrow> cu_failure + int" where
  "require_if_match h rid =
     (case Option.bind h (\<lambda>s. parse_i32 (trim_quotes (str_trim s))) of
        Some n \<Rightarrow> Inr n
      | None \<Rightarrow> Inl (cu_validation rid ''If-Match header with integer version is required''))"

definition load_published_entity :: "'f cu_env \<Rightarrow> cu_caller \<Rightarrow> string \<Rightarrow> (uuid \<times> field_def list) cu_step" where
  "load_published_entity env c slug w =
     (w, case find (\<lambda>e. ce_org e = cc_org c \<and> ce_slug e = slug \<and> ce_status e = ''published'' \<and> ce_deleted e = None)
           (cw_entities w) of
           None \<Rightarrow> Inl (cu_not_found (cc_request_id c) ''published entity'')
         | Some e \<Rightarrow>
             (case cv_fields_of env (ce_fields e) of
                Inl m \<Rightarrow> Inl (cu_err Internal (cc_request_id c) (''fields json: '' @ m))
              | Inr fdefs \<Rightarrow> Inr (ce_id e, fdefs)))"

definition checked_values ::
  "'f cu_env \<Rightarrow> field_def list \<Rightarrow> (string \<times> json) list \<Rightarrow> string \<Rightarrow> cu_failure + (string \<times> json) list" where
  "checked_values env fdefs vals rid =
     and_then (validate_values fdefs vals rid) (\<lambda>_.
     map_err (\<lambda>e. cu_validation rid (''formula error: '' @ show_formula_error e)) (apply_formulas (cv_debug env) fdefs vals))"

definition update_records :: "uuid \<Rightarrow> uuid \<Rightarrow> (cu_record \<Rightarrow> cu_record) \<Rightarrow> cu_world \<Rightarrow> cu_world" where
  "update_records org i f w =
     w\<lparr>cw_records := map (\<lambda>r. if cr_org r = org \<and> cr_id r = i then f r else r) (cw_records w)\<rparr>"

definition insert_record :: "'f cu_env \<Rightarrow> string \<Rightarrow> cu_record \<Rightarrow> unit cu_step" where
  "insert_record env rid r w =
     (if list_ex (\<lambda>s. cr_id s = cr_id r \<or> cr_org s = cr_org r \<and> cr_public_id s = cr_public_id r) (cw_records w)
      then (w, Inl (cu_internal env rid))
      else (w\<lparr>cw_records := cw_records w @ [r]\<rparr>, Inr ()))"

definition after_save ::
  "'f cu_env \<Rightarrow> cu_caller \<Rightarrow> string \<Rightarrow> uuid \<Rightarrow> (string \<times> json) list \<Rightarrow> (string \<times> json) list cu_step" where
  "after_save env c slug i vals w =
     (case load_script w (cc_org c) slug ''after_save'' of
        None \<Rightarrow> (w, Inr vals)
      | Some src \<Rightarrow>
          (case run_script env ''after_save'' (cw_uuids w) src vals (cc_request_id c) of
             Inl e \<Rightarrow> (w, Inl e)
           | Inr vals' \<Rightarrow>
               (update_records (cc_org c) i (\<lambda>r. r\<lparr>cr_values := JObj vals', cr_search := build_search_text vals'\<rparr>) w,
                Inr vals')))"

definition create_record :: "'f cu_env \<Rightarrow> cu_caller \<Rightarrow> string \<Rightarrow> (string \<times> json) list \<Rightarrow> record_dto cu_step" where
  "create_record env c slug body =
     (let rid = cc_request_id c; org = cc_org c; user = on_behalf_of (cc_actor c) in
      cu_then (cu_require_perm env c (custom_entity_write slug)) (\<lambda>_.
      cu_then (cu_uuid env) (\<lambda>i.
      let pub = cu_public env ''CustomRecord'' i in
      cu_tx (
        cu_then (load_published_entity env c slug) (\<lambda>(entity, fdefs).
        cu_then (cu_return (checked_values env fdefs body rid)) (\<lambda>vals.
        cu_then (run_hook env c slug ''before_save'' vals) (\<lambda>vals.
        cu_then (insert_record env rid \<lparr>cr_id = i, cr_org = org, cr_public_id = pub, cr_entity = entity, cr_slug = slug,
            cr_values = JObj vals, cr_search = build_search_text vals, cr_created_by = user, cr_updated_by = user,
            cr_version = 1, cr_deleted = None\<rparr>) (\<lambda>_.
        cu_then (after_save env c slug i vals) (\<lambda>vals.
        let txt = build_search_text vals;
            doc = search_document (cu_public env ''Org'' org) slug pub (JObj vals) txt in
        cu_then (cu_emit env c slug ''created'' (json_object [(''id'', JStr pub), (''record_id'', JStr pub),
            (''entity_slug'', JStr slug), (''search_text'', JStr txt), (''search_doc'', doc)])) (\<lambda>_.
        cu_then (insert_audit env c ''custom.record.create'' ''custom_record'' pub (json_object [(''entity_slug'', JStr slug)])) (\<lambda>_.
        cu_return (Inr \<lparr>rd_id = pub, rd_slug = slug, rd_values = JObj vals, rd_version = 1\<rparr>))))))))))))"

definition find_record :: "cu_world \<Rightarrow> uuid \<Rightarrow> uuid \<Rightarrow> string \<Rightarrow> cu_record option" where
  "find_record w org i slug =
     find (\<lambda>r. cr_org r = org \<and> cr_id r = i \<and> cr_slug r = slug \<and> cr_deleted r = None) (cw_records w)"

definition merge_values :: "json \<Rightarrow> (string \<times> json) list \<Rightarrow> (string \<times> json) list" where
  "merge_values old body =
     foldl (\<lambda>m (k, v). map_put k v m) (case value_object old of Some m \<Rightarrow> m | None \<Rightarrow> []) body"

definition save_record ::
  "'f cu_env \<Rightarrow> cu_caller \<Rightarrow> string \<Rightarrow> cu_record \<Rightarrow> int \<Rightarrow> (string \<times> json) list \<Rightarrow> unit cu_step" where
  "save_record env c slug r expected vals w =
     (if \<not> list_ex (\<lambda>s. cr_org s = cc_org c \<and> cr_id s = cr_id r \<and> cr_slug s = slug \<and> cr_deleted s = None \<and> cr_version s = expected)
          (cw_records w)
      then (w, Inl (cu_conflict (cc_request_id c) (''version mismatch: expected '' @ show_int expected @
        '', current changed concurrently'')))
      else if \<not> in_i32 (cr_version r + 1) then (w, Inl (cu_internal env (cc_request_id c)))
      else (update_records (cc_org c) (cr_id r) (\<lambda>r. if cr_slug r = slug \<and> cr_deleted r = None \<and> cr_version r = expected
          then r\<lparr>cr_values := JObj vals, cr_search := build_search_text vals,
            cr_updated_by := on_behalf_of (cc_actor c), cr_version := cr_version r + 1\<rparr> else r) w, Inr ()))"

definition record_row :: "cu_world \<Rightarrow> uuid \<Rightarrow> uuid \<Rightarrow> cu_record option" where
  "record_row w org i = find (\<lambda>r. cr_org r = org \<and> cr_id r = i) (cw_records w)"

definition to_dto :: "cu_record \<Rightarrow> record_dto" where
  "to_dto r = \<lparr>rd_id = cr_public_id r, rd_slug = cr_slug r, rd_values = cr_values r, rd_version = cr_version r\<rparr>"

definition update_record ::
  "'f cu_env \<Rightarrow> cu_caller \<Rightarrow> string \<Rightarrow> string \<Rightarrow> string option \<Rightarrow> (string \<times> json) list \<Rightarrow> record_dto cu_step" where
  "update_record env c slug raw if_match body =
     (let rid = cc_request_id c; org = cc_org c in
      cu_then (cu_require_perm env c (custom_entity_write slug)) (\<lambda>_.
      cu_then (cu_return (cu_parse_public_id env ''CustomRecord'' raw rid)) (\<lambda>i.
      cu_then (cu_return (require_if_match if_match rid)) (\<lambda>expected.
      cu_tx (
        cu_then (load_published_entity env c slug) (\<lambda>(entity, fdefs) w.
        case find_record w org i slug of
          None \<Rightarrow> (w, Inl (cu_not_found rid ''record''))
        | Some r \<Rightarrow>
            if expected \<noteq> cr_version r
            then (w, Inl (cu_conflict rid (''version mismatch: expected '' @ show_int expected @
              '', current '' @ show_int (cr_version r))))
            else (
              cu_then (cu_return (checked_values env fdefs (merge_values (cr_values r) body) rid)) (\<lambda>vals.
              cu_then (run_hook env c slug ''before_save'' vals) (\<lambda>vals.
              cu_then (save_record env c slug r expected vals) (\<lambda>_.
              cu_then (after_save env c slug i vals) (\<lambda>vals.
              let txt = build_search_text vals;
                  doc = search_document (cu_public env ''Org'' org) slug (cr_public_id r) (JObj vals) txt in
              cu_then (cu_emit env c slug ''updated'' (json_object [(''id'', JStr (cr_public_id r)),
                  (''record_id'', JStr (cr_public_id r)), (''entity_slug'', JStr slug), (''search_text'', JStr txt),
                  (''search_doc'', doc), (''version'', JInt (expected + 1))])) (\<lambda>_.
              cu_then (insert_audit env c ''custom.record.update'' ''custom_record'' (cr_public_id r)
                  (json_object [(''entity_slug'', JStr slug), (''version'', JInt (expected + 1))])) (\<lambda>_ w.
              case record_row w org i of
                None \<Rightarrow> (w, Inl (cu_internal env rid))
              | Some s \<Rightarrow> (w, Inr (to_dto s)))))))) w)))))))"

definition delete_record :: "'f cu_env \<Rightarrow> cu_caller \<Rightarrow> int \<Rightarrow> string \<Rightarrow> string \<Rightarrow> record_dto cu_step" where
  "delete_record env c now slug raw =
     (let rid = cc_request_id c; org = cc_org c in
      cu_then (cu_require_perm env c (custom_entity_write slug)) (\<lambda>_.
      cu_then (cu_return (cu_parse_public_id env ''CustomRecord'' raw rid)) (\<lambda>i.
      cu_tx (
        cu_then (load_published_entity env c slug) (\<lambda>_ w.
        case find_record w org i slug of
          None \<Rightarrow> (w, Inl (cu_not_found rid ''record''))
        | Some r \<Rightarrow>
            (let w = update_records org i (\<lambda>s. if cr_slug s = slug \<and> cr_deleted s = None
                   then s\<lparr>cr_deleted := Some now, cr_updated_by := on_behalf_of (cc_actor c)\<rparr> else s) w;
                 txt = build_search_text (case value_object (cr_values r) of Some m \<Rightarrow> m | None \<Rightarrow> []);
                 doc = search_document (cu_public env ''Org'' org) slug (cr_public_id r) (cr_values r) txt in
             cu_then (cu_emit env c slug ''deleted'' (json_object [(''id'', JStr (cr_public_id r)),
                 (''entity_slug'', JStr slug), (''search_doc'', doc)])) (\<lambda>_.
             cu_then (insert_audit env c ''custom.record.delete'' ''custom_record'' (cr_public_id r)
                 (json_object [(''entity_slug'', JStr slug)])) (\<lambda>_.
             cu_return (Inr (to_dto r)))) w))))))"

section \<open>Entity definitions\<close>

definition validate_slug :: "string \<Rightarrow> string + unit" where
  "validate_slug slug =
     (if length slug < 2 \<or> length slug > 64
      then Inl (''slug must be 2'' @ [char_of (226::nat), char_of (128::nat), char_of (147::nat)] @ ''64 chars'')
      else case slug of
        [] \<Rightarrow> Inl ''empty slug''
      | first # chars \<Rightarrow>
          if \<not> is_ascii_lowercase first then Inl ''slug must start with a lowercase letter''
          else if \<not> list_all (\<lambda>c. is_ascii_lowercase c \<or> is_ascii_digit c \<or> c = CHR ''_'') chars
          then Inl ''slug may only contain [a-z0-9_]''
          else if slug \<in> set CUSTOM_RESERVED_RESOURCES \<or>
              slug \<in> {''entities'', ''records'', ''packages'', ''views'', ''layouts'', ''scripts''}
          then Inl ''slug is reserved''
          else Inr ())"

definition upsert_perm :: "perm_row \<Rightarrow> cu_world \<Rightarrow> cu_world" where
  "upsert_perm p w =
     w\<lparr>cw_perms := (if list_ex (\<lambda>q. pr_id q = pr_id p) (cw_perms w)
        then map (\<lambda>q. if pr_id q = pr_id p then q\<lparr>pr_description := pr_description p, pr_sensitive := pr_sensitive p\<rparr> else q)
          (cw_perms w)
        else cw_perms w @ [p])\<rparr>"

fun grant_missing :: "'f cu_env \<Rightarrow> uuid \<Rightarrow> (uuid \<times> string) list \<Rightarrow> unit cu_step" where
  "grant_missing env org [] w = (w, Inr ())"
| "grant_missing env org ((role, perm) # gs) w =
     (if list_ex (\<lambda>r. rp_role r = role \<and> rp_permission r = perm \<and> rp_org r = org) (od_role_permissions (cw_org w))
      then grant_missing env org gs w
      else cu_then (cu_uuid env) (\<lambda>_ w. grant_missing env org gs
        (w\<lparr>cw_org := (cw_org w)\<lparr>od_role_permissions := od_role_permissions (cw_org w) @
          [\<lparr>rp_org = org, rp_role = role, rp_permission = perm, rp_effect = ''allow'', rp_scope = ''organization'',
            rp_conditions = JArr []\<rparr>]\<rparr>\<rparr>)) w)"

definition register_entity_permissions :: "'f cu_env \<Rightarrow> uuid \<Rightarrow> string \<Rightarrow> (string \<times> string) cu_step" where
  "register_entity_permissions env org slug w =
     (let read_id = custom_entity_read slug; write_id = custom_entity_write slug in
      if \<not> is_dynamic_custom_entity_permission read_id \<or> \<not> is_dynamic_custom_entity_permission write_id
      then (w, Inl CuPanic)
      else
        let w = upsert_perm \<lparr>pr_id = read_id, pr_resource = slug, pr_action = ''read'',
                pr_description = ''Custom entity '' @ slug @ '' read'', pr_sensitive = False\<rparr> w;
            w = upsert_perm \<lparr>pr_id = write_id, pr_resource = slug, pr_action = ''write'',
                pr_description = ''Custom entity '' @ slug @ '' write'', pr_sensitive = True\<rparr> w;
            roles = filter (\<lambda>r. rl_org r = org \<and> rl_system_key r \<in> {Some ''owner'', Some ''admin''} \<and> rl_is_system r)
              (cw_roles w) in
        cu_then (grant_missing env org (concat (map (\<lambda>r. [(rl_id r, read_id), (rl_id r, write_id)]) roles))) (\<lambda>_ w.
          (w\<lparr>cw_org := bump_policy org (cw_org w)\<rparr>, Inr (read_id, write_id))) w)"

record entity_dto =
  ed_id :: string
  ed_slug :: string
  ed_label :: string
  ed_description :: string
  ed_fields :: "field_def list"
  ed_status :: string
  ed_published_version :: int

definition map_entity :: "'f cu_env \<Rightarrow> string \<Rightarrow> cu_entity \<Rightarrow> cu_failure + entity_dto" where
  "map_entity env rid e =
     (case cv_fields_of env (ce_fields e) of
        Inl m \<Rightarrow> Inl (cu_err Internal rid (''entity fields json: '' @ m))
      | Inr fdefs \<Rightarrow> Inr \<lparr>ed_id = ce_public_id e, ed_slug = ce_slug e, ed_label = ce_label e, ed_description = ce_description e,
          ed_fields = fdefs, ed_status = ce_status e, ed_published_version = ce_published_version e\<rparr>)"

definition create_entity ::
  "'f cu_env \<Rightarrow> cu_caller \<Rightarrow> string \<Rightarrow> string \<Rightarrow> string \<Rightarrow> field_def list \<Rightarrow> entity_dto cu_step" where
  "create_entity env c slug label descr fdefs =
     (let rid = cc_request_id c; org = cc_org c; user = on_behalf_of (cc_actor c) in
      cu_then (cu_require_perm env c custom_builder_manage) (\<lambda>_.
      cu_then (cu_return (map_err (cu_validation rid) (validate_slug slug))) (\<lambda>_.
      if is_blank label then cu_return (Inl (cu_validation rid ''label is required''))
      else cu_then (cu_uuid env) (\<lambda>i.
      let pub = cu_public env ''CustomEntity'' i in
      cu_tx (
        cu_then (\<lambda>w. if list_ex (\<lambda>e. ce_id e = i \<or> ce_org e = org \<and> (ce_public_id e = pub \<or> ce_slug e = str_trim slug)) (cw_entities w)
            then (w, Inl (cu_conflict rid (''entity slug '' @ squote slug @ '' already exists'')))
            else (w\<lparr>cw_entities := cw_entities w @ [\<lparr>ce_id = i, ce_org = org, ce_public_id = pub, ce_slug = str_trim slug,
                ce_label = str_trim label, ce_description = descr, ce_fields = cv_fields_json env fdefs,
                ce_status = ''draft'', ce_published_version = 0, ce_created_by = user, ce_updated_by = user,
                ce_deleted = None\<rparr>]\<rparr>, Inr ())) (\<lambda>_.
        cu_then (insert_audit env c ''custom.entity.create'' ''custom_entity'' pub (json_object [(''slug'', JStr slug)])) (\<lambda>_.
        cu_return (Inr \<lparr>ed_id = pub, ed_slug = slug, ed_label = label, ed_description = descr, ed_fields = fdefs,
          ed_status = ''draft'', ed_published_version = 0\<rparr>))))))))"

definition find_entity :: "cu_world \<Rightarrow> uuid \<Rightarrow> uuid \<Rightarrow> cu_entity option" where
  "find_entity w org i = find (\<lambda>e. ce_org e = org \<and> ce_id e = i \<and> ce_deleted e = None) (cw_entities w)"

definition update_entities :: "uuid \<Rightarrow> uuid \<Rightarrow> (cu_entity \<Rightarrow> cu_entity) \<Rightarrow> cu_world \<Rightarrow> cu_world" where
  "update_entities org i f w =
     w\<lparr>cw_entities := map (\<lambda>e. if ce_org e = org \<and> ce_id e = i \<and> ce_deleted e = None then f e else e) (cw_entities w)\<rparr>"

definition change_entity ::
  "'f cu_env \<Rightarrow> cu_caller \<Rightarrow> string \<Rightarrow> (uuid \<Rightarrow> cu_entity \<Rightarrow> 'a cu_step) \<Rightarrow> 'a cu_step" where
  "change_entity env c raw change =
     cu_then (cu_require_perm env c custom_builder_manage) (\<lambda>_.
     cu_then (cu_return (cu_parse_public_id env ''CustomEntity'' raw (cc_request_id c))) (\<lambda>i.
     cu_tx (\<lambda>w.
       case find_entity w (cc_org c) i of
         None \<Rightarrow> (w, Inl (cu_not_found (cc_request_id c) ''entity''))
       | Some e \<Rightarrow> change i e w)))"

text \<open>The changed row is read back in the transaction, its fields only after the commit.\<close>

definition change_entity_dto ::
  "'f cu_env \<Rightarrow> cu_caller \<Rightarrow> string \<Rightarrow> (uuid \<Rightarrow> cu_entity \<Rightarrow> unit cu_step) \<Rightarrow> entity_dto cu_step" where
  "change_entity_dto env c raw change =
     cu_then (change_entity env c raw (\<lambda>i e. cu_then (change i e) (\<lambda>_ w.
       (w, case find (\<lambda>e. ce_org e = cc_org c \<and> ce_id e = i) (cw_entities w) of
             None \<Rightarrow> Inl (cu_internal env (cc_request_id c))
           | Some e \<Rightarrow> Inr e)))) (\<lambda>e.
     cu_return (map_entity env (cc_request_id c) e))"

definition update_entity ::
  "'f cu_env \<Rightarrow> cu_caller \<Rightarrow> string \<Rightarrow> string option \<Rightarrow> string option \<Rightarrow> field_def list option \<Rightarrow> entity_dto cu_step" where
  "update_entity env c raw label descr fdefs =
     change_entity_dto env c raw (\<lambda>i e w.
       let label' = (case label of Some l \<Rightarrow> if is_blank l then ce_label e else str_trim l | None \<Rightarrow> ce_label e);
           descr' = (case descr of Some d \<Rightarrow> d | None \<Rightarrow> ce_description e);
           fields' = (case fdefs of Some fs \<Rightarrow> cv_fields_json env fs | None \<Rightarrow> ce_fields e);
           w = update_entities (cc_org c) i (\<lambda>e. e\<lparr>ce_label := label', ce_description := descr', ce_fields := fields',
                 ce_updated_by := on_behalf_of (cc_actor c)\<rparr>) w in
       insert_audit env c ''custom.entity.update'' ''custom_entity'' (ce_public_id e)
         (json_object [(''slug'', JStr (ce_slug e))]) w)"

definition delete_entity :: "'f cu_env \<Rightarrow> cu_caller \<Rightarrow> int \<Rightarrow> string \<Rightarrow> string \<Rightarrow> unit cu_step" where
  "delete_entity env c now raw confirm_slug =
     change_entity env c raw (\<lambda>i e w.
       if confirm_slug \<noteq> ce_slug e
       then (w, Inl (cu_validation (cc_request_id c) (''confirm_slug must match entity slug '' @ squote (ce_slug e))))
       else insert_audit env c ''custom.entity.delete'' ''custom_entity'' (ce_public_id e)
         (json_object [(''slug'', JStr (ce_slug e))])
         (update_entities (cc_org c) i (\<lambda>e. e\<lparr>ce_deleted := Some now, ce_updated_by := on_behalf_of (cc_actor c)\<rparr>) w))"

definition publish_entity :: "'f cu_env \<Rightarrow> cu_caller \<Rightarrow> string \<Rightarrow> entity_dto cu_step" where
  "publish_entity env c raw =
     change_entity_dto env c raw (\<lambda>i e.
       let next_ver = wrap_i32 (ce_published_version e + 1) in
       cu_then (\<lambda>w. (update_entities (cc_org c) i (\<lambda>e. e\<lparr>ce_status := ''published'', ce_published_version := next_ver,
           ce_updated_by := on_behalf_of (cc_actor c)\<rparr>) w, Inr ())) (\<lambda>_.
       cu_then (register_entity_permissions env (cc_org c) (ce_slug e)) (\<lambda>_.
       insert_audit env c ''custom.entity.publish'' ''custom_entity'' (ce_public_id e)
         (json_object [(''slug'', JStr (ce_slug e)), (''published_version'', JInt next_ver)]))))"

section \<open>Lifecycle scripts\<close>

definition ALLOWED_HOOKS :: "string list" where
  "ALLOWED_HOOKS = [''before_save'', ''after_save'']"

definition upsert_script :: "'f cu_env \<Rightarrow> cu_caller \<Rightarrow> string \<Rightarrow> string \<Rightarrow> string \<Rightarrow> bool \<Rightarrow> string cu_step" where
  "upsert_script env c slug hook src enabled =
     (let rid = cc_request_id c; org = cc_org c in
      cu_then (cu_require_perm env c custom_builder_manage) (\<lambda>_.
      if hook \<notin> set ALLOWED_HOOKS
      then cu_return (Inl (cu_validation rid (''hook must be one of: '' @ join_with '', '' ALLOWED_HOOKS)))
      else case cv_program env src of
        Inl e \<Rightarrow> cu_return (Inl (cu_validation rid (''invalid script: '' @ show_sandbox_error (ScriptRuntime (''parse: '' @ e)))))
      | Inr program \<Rightarrow>
          cu_tx (
            cu_then (\<lambda>w.
              case find (\<lambda>s. cs_org s = org \<and> cs_slug s = slug \<and> cs_hook s = hook) (cw_scripts w) of
                Some s \<Rightarrow>
                  (w\<lparr>cw_scripts := map (\<lambda>t. if cs_org t = org \<and> cs_id t = cs_id s \<and> cs_hook t = hook
                      then t\<lparr>cs_source := src, cs_enabled := enabled\<rparr> else t) (cw_scripts w)\<rparr>, Inr (cs_public_id s))
              | None \<Rightarrow>
                  cu_then (cu_uuid env) (\<lambda>i w.
                    let pub = cu_public env ''CustomScript'' i in
                    if list_ex (\<lambda>s. cs_id s = i \<or> cs_org s = org \<and> cs_public_id s = pub) (cw_scripts w)
                    then (w, Inl (cu_internal env rid))
                    else (w\<lparr>cw_scripts := cw_scripts w @ [\<lparr>cs_id = i, cs_org = org, cs_public_id = pub, cs_slug = slug,
                        cs_hook = hook, cs_source = src, cs_enabled = enabled,
                        cs_created_by = on_behalf_of (cc_actor c)\<rparr>]\<rparr>, Inr pub)) w) (\<lambda>pub.
            cu_then (insert_audit env c ''custom.script.upsert'' ''custom_script'' pub
                (json_object [(''entity_slug'', JStr slug), (''hook'', JStr hook)])) (\<lambda>_.
            cu_return (Inr pub))))))"

inductive cu_call :: "'f cu_env \<Rightarrow> cu_world \<Rightarrow> cu_world \<Rightarrow> bool" for env where
  create_record: "cu_call env w (fst (create_record env c slug body w))"
| update_record: "cu_call env w (fst (update_record env c slug raw if_match body w))"
| delete_record: "cu_call env w (fst (delete_record env c now slug raw w))"
| create_entity: "cu_call env w (fst (create_entity env c slug label descr fdefs w))"
| update_entity: "cu_call env w (fst (update_entity env c raw label' descr' fdefs' w))"
| delete_entity: "cu_call env w (fst (delete_entity env c now raw confirm w))"
| publish_entity: "cu_call env w (fst (publish_entity env c raw w))"
| upsert_script: "cu_call env w (fst (upsert_script env c slug hook src enabled w))"

section \<open>Steps and transactions\<close>

lemma cu_then_Inr:
  "cu_then m f w = (w', Inr y) \<longleftrightarrow> (\<exists>w1 x. m w = (w1, Inr x) \<and> f x w1 = (w', Inr y))"
  by (auto simp: cu_then_def split: prod.split sum.split)

lemma cu_tx_Inr: "cu_tx m w = (w', Inr x) \<longleftrightarrow> m w = (w', Inr x)"
  by (auto simp: cu_tx_def split: prod.splits sum.splits)

lemma cu_return_Inr: "cu_return r w = (w', Inr x) \<longleftrightarrow> w' = w \<and> r = Inr x"
  by (auto simp: cu_return_def)

text \<open>Steps that only read.\<close>

lemma reading_Inr:
  "cu_require_perm env c perm w = (w', Inr u) \<longleftrightarrow> w' = w \<and> snd (cu_require_perm env c perm w) = Inr u"
  "load_published_entity env c slug w = (w', Inr x) \<longleftrightarrow> w' = w \<and> snd (load_published_entity env c slug w) = Inr x"
  "run_hook env c slug hook vals w = (w', Inr y) \<longleftrightarrow> w' = w \<and> snd (run_hook env c slug hook vals w) = Inr y"
  by (auto simp: cu_require_perm_def load_published_entity_def run_hook_def)

lemmas cu_simps = cu_then_Inr cu_tx_Inr cu_return_Inr reading_Inr

text \<open>
  A relation between the worlds before and after a handler that is a preorder and does not look at
  the supply of UUIDs is kept by a transaction whose steps keep it.
\<close>

locale cu_relation =
  fixes R :: "cu_world \<Rightarrow> cu_world \<Rightarrow> bool"
  assumes R_refl: "R w w"
    and R_trans: "R w w' \<Longrightarrow> R w' w'' \<Longrightarrow> R w w''"
    and R_uuids: "R w (w\<lparr>cw_uuids := k\<rparr>)"
begin

lemma R_then: "R w (fst (m w)) \<Longrightarrow> (\<And>x w. R w (fst (f x w))) \<Longrightarrow> R w (fst (cu_then m f w))"
  by (auto simp: cu_then_def split: prod.split sum.split intro: R_trans)

lemma R_tx: "R w (fst (m w)) \<Longrightarrow> R w (fst (cu_tx m w))"
  by (auto simp: cu_tx_def split: prod.split sum.split intro: R_uuids)

lemma R_pure: "R w (fst (cu_return r w))" "R w (fst (cu_require_perm env c perm w))"
  "R w (fst (load_published_entity env c slug w))" "R w (fst (run_hook env c slug hook vals w))"
  by (simp_all add: cu_return_def cu_require_perm_def load_published_entity_def run_hook_def R_refl)

lemma R_uuid: "R w (fst (cu_uuid env w))"
  by (simp add: cu_uuid_def R_uuids)

lemma R_if: "(P \<Longrightarrow> R w (fst (a w))) \<Longrightarrow> (\<not> P \<Longrightarrow> R w (fst (b w))) \<Longrightarrow> R w (fst ((if P then a else b) w))"
  by simp

lemma R_cases:
  "(\<And>a b. R w (fst (g a b w))) \<Longrightarrow> R w (fst ((case x of (a, b) \<Rightarrow> g a b) w))"
  "R w (fst n) \<Longrightarrow> (\<And>r. R w (fst (s r))) \<Longrightarrow> R w (fst (case opt of None \<Rightarrow> n | Some r \<Rightarrow> s r))"
  "R w (fst x1) \<Longrightarrow> R w (fst x2) \<Longrightarrow> R w (fst (if P then x1 else x2))"
  "R w w \<Longrightarrow> R w (fst (w, z))"
  by (simp_all split: prod.split option.split)

lemmas R_intros = R_tx R_then R_pure R_uuid R_refl R_uuids R_if R_cases

end

section \<open>Which calls touch the records\<close>

definition same_records :: "cu_world \<Rightarrow> cu_world \<Rightarrow> bool" where
  "same_records w w' \<longleftrightarrow> cw_records w' = cw_records w"

interpretation recs: cu_relation same_records
  by unfold_locales (simp_all add: same_records_def)

lemma audit_same: "same_records w (fst (insert_audit env c a t i m w))"
  by (simp add: insert_audit_def same_records_def cu_then_def cu_uuid_def)

lemma emit_same: "same_records w (fst (cu_emit env c a e pl w))"
  by (simp add: cu_emit_def same_records_def Let_def split: sum.split prod.split)

lemma grant_missing_same: "same_records w (fst (grant_missing env org gs w))"
  by (induction gs arbitrary: w) (auto simp: same_records_def cu_then_def cu_uuid_def)

lemma register_same: "same_records w (fst (register_entity_permissions env org slug w))"
proof -
  have "same_records v (fst (cu_then (grant_missing env org gs) (\<lambda>_ w. (w\<lparr>cw_org := bump_policy org (cw_org w)\<rparr>, Inr x)) v))" for gs v x
    by (rule recs.R_then [OF grant_missing_same]) (simp add: same_records_def)
  then have *: "same_records w (fst (cu_then (grant_missing env org gs) (\<lambda>_ w. (w\<lparr>cw_org := bump_policy org (cw_org w)\<rparr>, Inr x))
      (upsert_perm p (upsert_perm q w))))" for gs x p q
    by (rule recs.R_trans [rotated]) (simp add: same_records_def upsert_perm_def)
  show ?thesis unfolding register_entity_permissions_def Let_def
    by (split if_split, intro conjI impI) (simp add: recs.R_refl, rule *)
qed

lemma change_entity_same:
  assumes "\<And>i e w. same_records w (fst (change i e w))"
  shows "same_records w (fst (change_entity env c raw change w))"
  unfolding change_entity_def by (intro recs.R_intros) (auto simp: assms recs.R_refl split: option.split)

lemma change_entity_dto_same:
  "(\<And>i e w. same_records w (fst (change i e w))) \<Longrightarrow> same_records w (fst (change_entity_dto env c raw change w))"
  unfolding change_entity_dto_def by (intro recs.R_then change_entity_same recs.R_pure) (simp_all add: recs.R_refl)

lemma builder_same:
  "same_records w (fst (create_entity env c slug label descr fdefs w))"
  "same_records w (fst (update_entity env c raw label' descr' fdefs' w))"
  "same_records w (fst (delete_entity env c now raw confirm w))"
  "same_records w (fst (publish_entity env c raw w))"
  "same_records w (fst (upsert_script env c slug hook src enabled w))"
proof -
  show "same_records w (fst (create_entity env c slug label descr fdefs w))"
    unfolding create_entity_def Let_def
    by (intro recs.R_intros audit_same) (simp add: same_records_def)
  have "same_records w (fst (insert_audit env c a t i m (update_entities org j f w)))" for a t i m org j f w
    using audit_same [of "update_entities org j f w" env c a t i m] by (simp add: same_records_def update_entities_def)
  then show "same_records w (fst (update_entity env c raw label' descr' fdefs' w))"
    "same_records w (fst (delete_entity env c now raw confirm w))"
    unfolding update_entity_def delete_entity_def
    by (intro change_entity_same change_entity_dto_same; simp add: Let_def recs.R_refl)+
  show "same_records w (fst (publish_entity env c raw w))"
    unfolding publish_entity_def Let_def
    by (intro change_entity_dto_same recs.R_then register_same audit_same) (simp add: same_records_def update_entities_def)
  show "same_records w (fst (upsert_script env c slug hook src enabled w))"
  proof (cases "cv_program env src")
    case (Inr program)
    have "same_records v (fst (cu_then (cu_uuid env) (\<lambda>i w. if P i w then (w, Inl e)
        else (w\<lparr>cw_scripts := g i w\<rparr>, Inr (h i))) v))" for v P e g and h :: "uuid \<Rightarrow> string"
      by (simp add: same_records_def cu_then_def cu_uuid_def)
    then show "same_records w (fst (upsert_script env c slug hook src enabled w))"
      unfolding upsert_script_def Let_def Inr sum.case
      by (intro recs.R_intros audit_same) (simp_all add: same_records_def)
  next
    case (Inl e)
    show ?thesis unfolding upsert_script_def Let_def Inl sum.case by (intro recs.R_intros)
  qed
qed

definition records_unique :: "cu_world \<Rightarrow> bool" where
  "records_unique w \<longleftrightarrow> distinct (map cr_id (cw_records w))"

text \<open>No row goes away, and no version goes down.\<close>

definition records_grow :: "cu_world \<Rightarrow> cu_world \<Rightarrow> bool" where
  "records_grow w w' \<longleftrightarrow> (records_unique w \<longrightarrow> records_unique w' \<and>
     (\<forall>r \<in> set (cw_records w). \<exists>s \<in> set (cw_records w'). cr_id s = cr_id r \<and> cr_org s = cr_org r \<and> cr_version r \<le> cr_version s))"

lemma records_grow_trans: "records_grow w w' \<Longrightarrow> records_grow w' w'' \<Longrightarrow> records_grow w w''"
  unfolding records_grow_def by (metis order_trans)

interpretation grow: cu_relation records_grow
proof unfold_locales
  show "records_grow w w' \<Longrightarrow> records_grow w' w'' \<Longrightarrow> records_grow w w''" for w w' w'' by (rule records_grow_trans)
qed (auto simp: records_grow_def records_unique_def)

lemma same_grow: "same_records w w' \<Longrightarrow> records_grow w w'"
  by (auto simp: same_records_def records_grow_def records_unique_def)

lemma insert_record_grow: "records_grow w (fst (insert_record env rid r w))"
  by (auto simp: insert_record_def records_grow_def records_unique_def list_ex_iff)

lemma update_records_grow:
  assumes "\<And>r. cr_id (f r) = cr_id r \<and> cr_org (f r) = cr_org r \<and> cr_version r \<le> cr_version (f r)"
  shows "records_grow w (update_records org i f w)"
proof -
  let ?g = "\<lambda>r. if cr_org r = org \<and> cr_id r = i then f r else r"
  have g: "cr_id (?g r) = cr_id r \<and> cr_org (?g r) = cr_org r \<and> cr_version r \<le> cr_version (?g r)" for r using assms by simp
  have "map cr_id (map ?g (cw_records w)) = map cr_id (cw_records w)" using g by simp
  moreover have "\<exists>s \<in> set (map ?g (cw_records w)). cr_id s = cr_id r \<and> cr_org s = cr_org r \<and> cr_version r \<le> cr_version s"
    if "r \<in> set (cw_records w)" for r
    using that g [of r] by (intro bexI [of _ "?g r"]) auto
  moreover have "cw_records (update_records org i f w) = map ?g (cw_records w)" by (simp add: update_records_def)
  ultimately show ?thesis unfolding records_grow_def records_unique_def by metis
qed

lemma after_save_grow: "records_grow w (fst (after_save env c slug i vals w))"
  by (auto simp: after_save_def grow.R_refl intro!: update_records_grow split: option.split sum.split)

lemma save_record_grow: "records_grow w (fst (save_record env c slug r n vals w))"
  by (auto simp: save_record_def grow.R_refl intro!: update_records_grow)

lemma record_calls_grow:
  "records_grow w (fst (create_record env c slug body w))"
  "records_grow w (fst (update_record env c slug raw h body w))"
  "records_grow w (fst (delete_record env c now slug raw w))"
proof -
  note steps = grow.R_intros same_grow [OF audit_same] same_grow [OF emit_same] insert_record_grow after_save_grow save_record_grow
  show "records_grow w (fst (create_record env c slug body w))"
    unfolding create_record_def Let_def by (intro steps)
  show "records_grow w (fst (update_record env c slug raw h body w))"
    unfolding update_record_def Let_def by (intro steps)
  have log: "records_grow v (fst (cu_then (cu_emit env c slug e pl) (\<lambda>_. cu_then (insert_audit env c a t i m) (\<lambda>_. cu_return x)) v))"
    for v e pl a t i m and x :: "cu_failure + record_dto" by (intro steps)
  have "records_grow v (fst (cu_then (cu_emit env c slug e pl) (\<lambda>_. cu_then (insert_audit env c a t i m) (\<lambda>_. cu_return x))
      (update_records org j (\<lambda>s. if cr_slug s = slug \<and> cr_deleted s = None
        then s\<lparr>cr_deleted := Some now, cr_updated_by := u\<rparr> else s) v)))"
    for v e pl a t i m org j u and x :: "cu_failure + record_dto"
    by (rule records_grow_trans [OF update_records_grow log]) simp
  then show "records_grow w (fst (delete_record env c now slug raw w))"
    unfolding delete_record_def Let_def by (intro steps)
qed

lemma cu_call_grow: "cu_call env w w' \<Longrightarrow> records_grow w w'"
  by (induction rule: cu_call.induct) (auto intro: record_calls_grow same_grow [OF builder_same(1)] same_grow [OF builder_same(2)]
      same_grow [OF builder_same(3)] same_grow [OF builder_same(4)] same_grow [OF builder_same(5)])

lemma cu_calls_grow: "(cu_call env)\<^sup>*\<^sup>* w w' \<Longrightarrow> records_grow w w'"
  by (induction rule: rtranclp_induct) (auto intro: grow.R_refl records_grow_trans cu_call_grow)

section \<open>Updates\<close>

lemma insert_audit_Inr:
  "insert_audit env c a t i m w = (w', Inr u) \<Longrightarrow> cw_records w' = cw_records w \<and> cw_outbox w' = cw_outbox w \<and>
   (\<exists>x. cw_audit w' = cw_audit w @ [x] \<and> ae_action x = a \<and> ae_resource_id x = i \<and> ae_actor x = cc_actor c)"
  by (auto simp: insert_audit_def cu_then_def cu_uuid_def split: if_splits)

lemma cu_emit_Inr:
  "cu_emit env c a e pl w = (w', Inr u) \<Longrightarrow> cw_records w' = cw_records w \<and> cw_audit w' = cw_audit w \<and>
   (\<exists>x. ob_events (cw_outbox w') = ob_events (cw_outbox w) @ [x])"
  by (auto simp: cu_emit_def Let_def insert_event_def insert_outbox_row_def and_then_Inr split: sum.splits if_splits)

lemma after_save_Inr:
  "after_save env c slug i vals w = (w', Inr vals') \<Longrightarrow> cw_audit w' = cw_audit w \<and> cw_outbox w' = cw_outbox w \<and>
   (load_script w (cc_org c) slug ''after_save'' = None \<and> w' = w \<and> vals' = vals \<or>
    w' = update_records (cc_org c) i (\<lambda>r. r\<lparr>cr_values := JObj vals', cr_search := build_search_text vals'\<rparr>) w)"
  by (auto simp: after_save_def update_records_def split: option.splits sum.splits)

lemma save_record_Inr:
  "save_record env c slug r n vals w = (w', Inr u) \<Longrightarrow> cw_audit w' = cw_audit w \<and> cw_outbox w' = cw_outbox w \<and>
   cw_scripts w' = cw_scripts w \<and> in_i32 (cr_version r + 1) \<and> cw_records w' = cw_records (update_records (cc_org c) (cr_id r)
     (\<lambda>r. if cr_slug r = slug \<and> cr_deleted r = None \<and> cr_version r = n
       then r\<lparr>cr_values := JObj vals, cr_search := build_search_text vals,
         cr_updated_by := on_behalf_of (cc_actor c), cr_version := cr_version r + 1\<rparr> else r) w)"
  by (auto simp: save_record_def update_records_def split: if_splits)

lemma unique_record:
  "records_unique w \<Longrightarrow> r \<in> set (cw_records w) \<Longrightarrow> s \<in> set (cw_records w) \<Longrightarrow> cr_id r = cr_id s \<Longrightarrow> r = s"
  by (auto simp: records_unique_def distinct_map dest: inj_onD)

lemma find_record_Some:
  "find_record w org i slug = Some r \<Longrightarrow> r \<in> set (cw_records w) \<and> cr_org r = org \<and> cr_id r = i \<and> cr_slug r = slug \<and> cr_deleted r = None"
  by (auto simp: find_record_def find_Some_iff)

lemma update_records_mem:
  "r \<in> set (cw_records w) \<Longrightarrow> cr_org r = org \<Longrightarrow> cr_id r = i \<Longrightarrow> f r \<in> set (cw_records (update_records org i f w))"
  by (force simp: update_records_def)

text \<open>Where an update gets before it writes.\<close>

lemma update_record_reads:
  assumes "update_record env c slug raw h body w = (w', Inr d)"
  obtains i fdefs e r vals vals' vals'' w1 w2 w3 s pl m where
    "cu_parse_public_id env ''CustomRecord'' raw (cc_request_id c) = Inr i"
    "require_if_match h (cc_request_id c) = Inr (cr_version r)"
    "snd (load_published_entity env c slug w) = Inr (e, fdefs)"
    "find_record w (cc_org c) i slug = Some r"
    "checked_values env fdefs (merge_values (cr_values r) body) (cc_request_id c) = Inr vals"
    "snd (run_hook env c slug ''before_save'' vals w) = Inr vals'"
    "save_record env c slug r (cr_version r) vals' w = (w1, Inr ())"
    "after_save env c slug i vals' w1 = (w2, Inr vals'')"
    "cu_emit env c slug ''updated'' pl w2 = (w3, Inr ())"
    "insert_audit env c ''custom.record.update'' ''custom_record'' (cr_public_id r) m w3 = (w', Inr ())"
    "record_row w' (cc_org c) i = Some s" "d = to_dto s"
proof -
  let ?org = "cc_org c" and ?rid = "cc_request_id c"
  from assms obtain i n e fdefs where a: "cu_parse_public_id env ''CustomRecord'' raw ?rid = Inr i"
    "require_if_match h ?rid = Inr n" "snd (load_published_entity env c slug w) = Inr (e, fdefs)"
    by (auto simp: update_record_def Let_def cu_simps)
  with assms obtain r where r: "find_record w ?org i slug = Some r" "n = cr_version r"
    by (auto simp: update_record_def Let_def cu_simps split: option.splits if_splits)
  show thesis
    using assms a r that by (auto simp: update_record_def Let_def cu_simps split: option.splits)
qed

text \<open>What a successful update leaves in the table: the row it found, with the version one up.\<close>

lemma update_record_stores:
  assumes u: "update_record env c slug raw h body w = (w', Inr d)" and un: "records_unique w"
  obtains i fdefs e r vals vals' s where
    "cu_parse_public_id env ''CustomRecord'' raw (cc_request_id c) = Inr i"
    "require_if_match h (cc_request_id c) = Inr (cr_version r)"
    "snd (load_published_entity env c slug w) = Inr (e, fdefs)"
    "find_record w (cc_org c) i slug = Some r"
    "checked_values env fdefs (merge_values (cr_values r) body) (cc_request_id c) = Inr vals"
    "s \<in> set (cw_records w')" "d = to_dto s" "cr_id s = i" "cr_org s = cc_org c" "cr_version s = cr_version r + 1"
    "cr_values s = JObj vals'"
    "(\<forall>hook. load_script w (cc_org c) slug hook = None) \<Longrightarrow> vals' = vals"
proof -
  let ?org = "cc_org c"
  from update_record_reads [OF u] obtain i fdefs e r vals vals' vals'' w1 w2 w3 s pl m where
    a: "cu_parse_public_id env ''CustomRecord'' raw (cc_request_id c) = Inr i"
    "require_if_match h (cc_request_id c) = Inr (cr_version r)"
    "snd (load_published_entity env c slug w) = Inr (e, fdefs)"
    "find_record w ?org i slug = Some r"
    "checked_values env fdefs (merge_values (cr_values r) body) (cc_request_id c) = Inr vals"
    and hook: "snd (run_hook env c slug ''before_save'' vals w) = Inr vals'"
    and save: "save_record env c slug r (cr_version r) vals' w = (w1, Inr ())"
    and aft: "after_save env c slug i vals' w1 = (w2, Inr vals'')"
    and log: "cu_emit env c slug ''updated'' pl w2 = (w3, Inr ())"
      "insert_audit env c ''custom.record.update'' ''custom_record'' (cr_public_id r) m w3 = (w', Inr ())"
    and s: "record_row w' ?org i = Some s" "d = to_dto s" by metis
  have r: "r \<in> set (cw_records w)" "cr_org r = ?org" "cr_id r = i" "cr_slug r = slug" "cr_deleted r = None"
    using find_record_Some [OF a(4)] by auto
  define r1 where "r1 = r\<lparr>cr_values := JObj vals', cr_search := build_search_text vals',
    cr_updated_by := on_behalf_of (cc_actor c), cr_version := cr_version r + 1\<rparr>"
  have r1: "r1 \<in> set (cw_records w1)" "cr_org r1 = ?org" "cr_id r1 = i"
    using save_record_Inr [OF save] r update_records_mem [OF r(1,2,3), of "\<lambda>r'. if cr_slug r' = slug \<and> cr_deleted r' = None \<and>
        cr_version r' = cr_version r then r'\<lparr>cr_values := JObj vals', cr_search := build_search_text vals',
        cr_updated_by := on_behalf_of (cc_actor c), cr_version := cr_version r' + 1\<rparr> else r'"]
    by (simp_all add: r1_def)
  have scripts: "cw_scripts w1 = cw_scripts w" using save_record_Inr [OF save] by simp
  have "r1 \<in> set (cw_records w2) \<and> vals'' = vals' \<or>
      r1\<lparr>cr_values := JObj vals'', cr_search := build_search_text vals''\<rparr> \<in> set (cw_records w2)"
    using after_save_Inr [OF aft] r1(1)
      update_records_mem [OF r1, of "\<lambda>r. r\<lparr>cr_values := JObj vals'', cr_search := build_search_text vals''\<rparr>"] by auto
  then have r2: "\<exists>r2 \<in> set (cw_records w2). cr_id r2 = i \<and> cr_org r2 = ?org \<and>
      cr_version r2 = cr_version r + 1 \<and> cr_values r2 = JObj vals''"
    by (elim disjE conjE; intro bexI; (assumption | simp add: r1_def r))
  have w': "cw_records w' = cw_records w2" using cu_emit_Inr [OF log(1)] insert_audit_Inr [OF log(2)] by simp
  then obtain r2 where r2: "r2 \<in> set (cw_records w')" "cr_id r2 = i" "cr_org r2 = ?org"
    "cr_version r2 = cr_version r + 1" "cr_values r2 = JObj vals''" using r2 by auto
  have "records_unique w'"
    using record_calls_grow(2) [of w env c slug raw h body] un u by (simp add: records_grow_def)
  moreover have "s \<in> set (cw_records w')" "cr_id s = i" using s(1) by (auto simp: record_row_def find_Some_iff)
  ultimately have "s = r2" using unique_record r2 by metis
  moreover have "vals'' = vals" if "\<forall>hook. load_script w ?org slug hook = None"
    using that hook after_save_Inr [OF aft] aft scripts
    by (auto simp: run_hook_def after_save_def load_script_def)
  ultimately show thesis using that a r2 s by metis
qed

text \<open>
  C14: No update is lost. When an update of a record with an \<open>If-Match\<close> version has succeeded, no
  later call with the same version updates that record, however many other calls of the service
  come between: the version of a record never goes down, every update raises it by one, and a stale
  version is a conflict.
\<close>

theorem no_lost_update:
  assumes "records_unique w" "update_record env c slug raw h body w = (w1, Inr d)"
    "(cu_call env)\<^sup>*\<^sup>* w1 w2" "cc_org c2 = cc_org c"
  shows "\<not> (\<exists>w3 d3. update_record env c2 slug2 raw h body2 w2 = (w3, Inr d3))"
proof
  assume "\<exists>w3 d3. update_record env c2 slug2 raw h body2 w2 = (w3, Inr d3)"
  then obtain w3 d3 where u: "update_record env c2 slug2 raw h body2 w2 = (w3, Inr d3)" by blast
  have match: "require_if_match h rid = Inr n \<longleftrightarrow> require_if_match h rid' = Inr n" for rid rid' n
    by (auto simp: require_if_match_def split: option.splits)
  have parse: "cu_parse_public_id env k raw rid = Inr i \<longleftrightarrow> cu_parse_public_id env k raw rid' = Inr i" for k rid rid' i
    by (auto simp: cu_parse_public_id_def split: sum.splits)
  have "records_grow w w1" using record_calls_grow(2) [of w env c slug raw h body] assms(2) by simp
  then have unique: "records_unique w1" "records_unique w2" "records_grow w1 w2"
    using assms(1) cu_calls_grow [OF assms(3)] by (auto simp: records_grow_def)
  obtain i s and r :: cu_record where
    r: "cu_parse_public_id env ''CustomRecord'' raw (cc_request_id c) = Inr i"
    "require_if_match h (cc_request_id c) = Inr (cr_version r)"
    and s: "s \<in> set (cw_records w1)" "cr_id s = i" "cr_version s = cr_version r + 1"
    by (rule update_record_stores [OF assms(2) assms(1)], rule that, assumption+)
  obtain s2 where s2: "s2 \<in> set (cw_records w2)" "cr_id s2 = i" "cr_version s \<le> cr_version s2"
    using unique(1,3) s unfolding records_grow_def by metis
  obtain i2 and r2 :: cu_record where
    r2: "cu_parse_public_id env ''CustomRecord'' raw (cc_request_id c2) = Inr i2"
    "require_if_match h (cc_request_id c2) = Inr (cr_version r2)" "find_record w2 (cc_org c2) i2 slug2 = Some r2"
    by (rule update_record_reads [OF u], rule that, assumption+)
  have "i2 = i" using r(1) r2(1) parse [of "''CustomRecord''" "cc_request_id c2" i2 "cc_request_id c"] by simp
  moreover have "cr_version r2 = cr_version r"
    using r(2) r2(2) match [of "cc_request_id c2" "cr_version r2" "cc_request_id c"] by simp
  ultimately have "r2 = s2" using find_record_Some [OF r2(3)] s2(1,2) by (intro unique_record [OF unique(2)]) simp_all
  then show False using s s2 \<open>cr_version r2 = cr_version r\<close> by simp
qed

section \<open>The types of stored values\<close>

text \<open>
  What an entity's field list says of a record: every key is a declared field; a field that is not
  computed is absent (or null) only when it is optional, and otherwise has a value of its type.
\<close>

definition money_value :: "json \<Rightarrow> bool" where
  "money_value v \<longleftrightarrow> (\<exists>m n cur. v = JObj m \<and> map_of m ''amount_minor'' = Some (JInt n) \<and> in_i64 n \<and>
     map_of m ''currency'' = Some (JStr cur) \<and> length cur = 3 \<and> fst ` set m \<subseteq> {''amount_minor'', ''currency''})"

definition value_typed :: "field_def \<Rightarrow> json \<Rightarrow> bool" where
  "value_typed f v \<longleftrightarrow> (case fd_type f of
     Number \<Rightarrow> \<exists>n. v = JInt n \<and> in_i64 n
   | Bool \<Rightarrow> \<exists>b. v = JBool b
   | Select \<Rightarrow> \<exists>s. v = JStr s \<and> (case fd_options f of None \<Rightarrow> True | Some opts \<Rightarrow> s \<in> set opts)
   | Money \<Rightarrow> money_value v
   | Formula \<Rightarrow> True
   | _ \<Rightarrow> \<exists>s. v = JStr s)"

definition field_typed :: "(string \<times> json) list \<Rightarrow> field_def \<Rightarrow> bool" where
  "field_typed vals f \<longleftrightarrow> fd_type f = Formula \<or>
     (case map_of vals (fd_name f) of
        None \<Rightarrow> \<not> fd_required f
      | Some v \<Rightarrow> if v = JNull then \<not> fd_required f else value_typed f v)"

definition record_typed :: "field_def list \<Rightarrow> (string \<times> json) list \<Rightarrow> bool" where
  "record_typed fdefs vals \<longleftrightarrow> fst ` set vals \<subseteq> fd_name ` set fdefs \<and> (\<forall>f \<in> set fdefs. field_typed vals f)"

lemma json_as_str_Some: "json_as_str v = Some s \<longleftrightarrow> v = JStr s"
  by (cases v) simp_all

lemma validate_money_iff: "validate_money v name rid = Inr () \<longleftrightarrow> money_value v"
proof -
  have int: "value_is_i64 a \<longleftrightarrow> (\<exists>n. a = JInt n \<and> in_i64 n)" for a by (cases a) simp_all
  have keys: "list_ex (\<lambda>(k, x). k \<noteq> ''amount_minor'' \<and> k \<noteq> ''currency'') m \<longleftrightarrow> \<not> fst ` set m \<subseteq> {''amount_minor'', ''currency''}"
    for m :: "(string \<times> json) list" by (force simp: list_ex_iff)
  show ?thesis
    by (cases v) (auto simp: validate_money_def Let_def money_value_def int keys json_as_str_Some bind_eq_Some_conv
        simp del: list_ex_iff split: option.splits)
qed

lemma validate_field_iff: "validate_field rid vals f = Inr () \<longleftrightarrow> field_typed vals f"
proof (cases "map_of vals (fd_name f)")
  case None
  then show ?thesis by (auto simp: validate_field_def field_typed_def)
next
  case (Some v)
  have i: "value_is_i64 v \<longleftrightarrow> (\<exists>n. v = JInt n \<and> in_i64 n)" and b: "value_is_bool v \<longleftrightarrow> (\<exists>b. v = JBool b)"
    by (cases v; simp)+
  show ?thesis
  proof (cases "v = JNull")
    case True
    with Some show ?thesis by (auto simp: validate_field_def field_typed_def)
  next
    case False
    then have p: "(case Some v of Some JNull \<Rightarrow> None | r \<Rightarrow> r) = Some v" by (cases v) simp_all
    show ?thesis
      unfolding validate_field_def field_typed_def Some p
      using False by (cases "fd_type f") (auto simp: value_typed_def i b validate_money_iff json_as_str_Some split: option.split)
  qed
qed

lemma validate_fields_iff: "validate_fields rid vals fs = Inr () \<longleftrightarrow> (\<forall>f \<in> set fs. field_typed vals f)"
  by (induction fs) (auto simp: and_then_Inr validate_field_iff)

lemma validate_values_iff: "validate_values fdefs vals rid = Inr () \<longleftrightarrow> record_typed fdefs vals"
proof (cases "find (\<lambda>(k, v). k \<notin> fd_name ` set fdefs) vals")
  case None
  then have "fst ` set vals \<subseteq> fd_name ` set fdefs" by (auto simp: find_None_iff)
  with None show ?thesis by (simp add: validate_values_def record_typed_def validate_fields_iff)
next
  case (Some kv)
  then obtain k v where "(k, v) \<in> set vals" "k \<notin> fd_name ` set fdefs" by (auto simp: find_Some_iff dest: nth_mem)
  then have "\<not> fst ` set vals \<subseteq> fd_name ` set fdefs" by force
  with Some show ?thesis by (auto simp: validate_values_def record_typed_def split: prod.split)
qed

text \<open>The formulas run after validation; they set computed fields only, and keep the types of the others.\<close>

lemma apply_formulas_typed:
  assumes "apply_formulas dbg fdefs vals = Inr vals'" "record_typed fdefs vals" "distinct (map fd_name fdefs)"
  shows "record_typed fdefs vals'"
proof -
  have "field_typed vals' f" if f: "f \<in> set fdefs" for f
  proof (cases "fd_type f = Formula")
    case False
    then have "fd_name f \<notin> fd_name ` {g \<in> set fdefs. fd_type g = Formula}"
      using f assms(3) by (auto simp: distinct_map inj_on_def)
    with apply_formulas_frame [OF assms(1)] have "map_of vals' (fd_name f) = map_of vals (fd_name f)" by blast
    with assms(2) f show ?thesis by (simp add: record_typed_def field_typed_def)
  qed (simp add: field_typed_def)
  moreover have "fst ` set vals' \<subseteq> fd_name ` set fdefs"
    using apply_formulas_keys [OF assms(1)] assms(2) unfolding record_typed_def by blast
  ultimately show ?thesis by (simp add: record_typed_def)
qed

lemma checked_values_typed:
  "checked_values env fdefs vals rid = Inr vals' \<Longrightarrow> distinct (map fd_name fdefs) \<Longrightarrow> record_typed fdefs vals'"
  unfolding checked_values_def and_then_Inr map_err_Inr by (metis apply_formulas_typed validate_values_iff unit.exhaust)

text \<open>What a successful creation leaves in the table.\<close>

lemma create_record_stores:
  assumes "create_record env c slug body w = (w', Inr d)"
    and none: "\<And>hook. load_script w (cc_org c) slug hook = None"
  obtains e fdefs vals s where "snd (load_published_entity env c slug w) = Inr (e, fdefs)"
    "checked_values env fdefs body (cc_request_id c) = Inr vals"
    "s \<in> set (cw_records w')" "d = to_dto s" "cr_org s = cc_org c" "cr_values s = JObj vals" "cr_version s = 1"
proof -
  have quiet: "load_script v (cc_org c) slug hook = None" if "cw_scripts v = cw_scripts w" for v hook
    using none that by (simp add: load_script_def)
  have read: "snd (load_published_entity env c slug (w\<lparr>cw_uuids := k\<rparr>)) = snd (load_published_entity env c slug w)" for k
    by (simp add: load_published_entity_def)
  from assms(1) obtain e fdefs vals vals' vals'' r w1 w2 w3 pl m where
    a: "snd (load_published_entity env c slug w) = Inr (e, fdefs)" "checked_values env fdefs body (cc_request_id c) = Inr vals"
    and hook: "snd (run_hook env c slug ''before_save'' vals (w\<lparr>cw_uuids := Suc (cw_uuids w)\<rparr>)) = Inr vals'"
    and ins: "insert_record env (cc_request_id c) r (w\<lparr>cw_uuids := Suc (cw_uuids w)\<rparr>) = (w1, Inr ())"
    and r: "cr_org r = cc_org c" "cr_slug r = slug" "cr_values r = JObj vals'" "cr_version r = 1"
    and aft: "after_save env c slug (cr_id r) vals' w1 = (w2, Inr vals'')"
    and log: "cu_emit env c slug ''created'' pl w2 = (w3, Inr ())"
      "insert_audit env c ''custom.record.create'' ''custom_record'' (cr_public_id r) m w3 = (w', Inr ())"
    and d: "d = \<lparr>rd_id = cr_public_id r, rd_slug = slug, rd_values = JObj vals'', rd_version = 1\<rparr>"
    by (auto simp: create_record_def Let_def cu_simps cu_uuid_def read)
  have w1: "cw_scripts w1 = cw_scripts w" "r \<in> set (cw_records w1)" using ins by (auto simp: insert_record_def split: if_splits)
  have vals: "vals' = vals" "vals'' = vals" "w2 = w1"
    using hook aft quiet [of w1] quiet [of "w\<lparr>cw_uuids := Suc (cw_uuids w)\<rparr>"] w1 by (auto simp: run_hook_def after_save_def)
  have "cw_records w' = cw_records w1" using cu_emit_Inr [OF log(1)] insert_audit_Inr [OF log(2)] vals by simp
  then show thesis using that [OF a, of r] r w1 d vals by (simp add: to_dto_def)
qed

text \<open>
  C15: Saved records have the types their entity declares. When no script is attached to the entity
  and its field names are distinct, a creation or an update that succeeds stores, and returns, a
  record in which every key is a declared field, every required field is set, numbers are 64-bit
  integers, money is minor units with a three-letter currency and nothing else, and a selection is
  one of its options; the formulas that run after the validation do not disturb this.
\<close>

theorem saved_record_typed:
  assumes "records_unique w" "\<And>hook. load_script w (cc_org c) slug hook = None"
    and "snd (load_published_entity env c slug w) = Inr (e, fdefs)" "distinct (map fd_name fdefs)"
    and "create_record env c slug body w = (w', Inr d) \<or> update_record env c slug raw h body w = (w', Inr d)"
  shows "\<exists>s vals. s \<in> set (cw_records w') \<and> d = to_dto s \<and> cr_org s = cc_org c \<and> cr_values s = JObj vals \<and> record_typed fdefs vals"
  using assms(5)
proof
  assume "create_record env c slug body w = (w', Inr d)"
  from create_record_stores [OF this assms(2)] show ?thesis
    using checked_values_typed assms(3,4) by (metis Inr_inject prod.inject)
next
  assume u: "update_record env c slug raw h body w = (w', Inr d)"
  obtain vals vals' s fdefs' e' and r :: cu_record where s: "s \<in> set (cw_records w')" "d = to_dto s" "cr_org s = cc_org c" "cr_values s = JObj vals'"
    and v: "snd (load_published_entity env c slug w) = Inr (e', fdefs')"
      "checked_values env fdefs' (merge_values (cr_values r) body) (cc_request_id c) = Inr vals" "vals' = vals"
    by (rule update_record_stores [OF u assms(1)]) (rule that, (assumption | simp add: assms(2))+)
  have "record_typed fdefs vals'" using checked_values_typed [OF v(2)] v assms(3,4) by simp
  with s show ?thesis by blast
qed

lemma merge_values_other:
  "k \<notin> fst ` set body \<Longrightarrow> map_of (merge_values old body) k = Option.bind (value_object old) (\<lambda>m. map_of m k)"
proof -
  have "k \<notin> fst ` set body \<Longrightarrow> map_of (foldl (\<lambda>m (k, v). map_put k v m) m body) k = map_of m k" for m
    by (induction body arbitrary: m) auto
  then show "k \<notin> fst ` set body \<Longrightarrow> map_of (merge_values old body) k = Option.bind (value_object old) (\<lambda>m. map_of m k)"
    by (cases "value_object old") (simp_all add: merge_values_def)
qed

text \<open>
  C33: A value that a script leaves behind with the wrong type blocks the record. Scripts run after
  the validation and their result is stored unchecked; arithmetic in a script always makes a
  floating-point number. Once a required or optional number field holds anything but an integer, every
  update that does not overwrite that very field is refused and changes no table.
\<close>

theorem untyped_value_blocks_updates:
  assumes "cu_parse_public_id env ''CustomRecord'' raw (cc_request_id c) = Inr i"
    and "find_record w (cc_org c) i slug = Some r" "cr_values r = JObj m"
    and "snd (load_published_entity env c slug w) = Inr (e, fdefs)" "f \<in> set fdefs" "\<not> field_typed m f"
    and "fd_name f \<notin> fst ` set body"
  shows "\<exists>err. update_record env c slug raw h body w = (w, Inl err)"
proof -
  let ?vals = "merge_values (cr_values r) body" and ?rid = "cc_request_id c"
  have "map_of ?vals (fd_name f) = map_of m (fd_name f)" using merge_values_other [OF assms(7)] assms(3) by simp
  with assms(6) have "\<not> field_typed ?vals f" by (simp add: field_typed_def)
  with assms(5) have "validate_values fdefs ?vals ?rid \<noteq> Inr ()" by (auto simp: validate_values_iff record_typed_def)
  then obtain err where bad: "checked_values env fdefs ?vals ?rid = Inl err"
    by (cases "validate_values fdefs ?vals ?rid") (auto simp: checked_values_def)
  have load: "load_published_entity env c slug w = (w, Inr (e, fdefs))"
    using assms(4) by (simp add: load_published_entity_def)
  show ?thesis
    by (cases "require_if_match h ?rid"; cases "snd (cu_require_perm env c (custom_entity_write slug) w)")
      (simp_all add: update_record_def Let_def cu_then_def cu_return_def cu_tx_def assms(1,2) load bad cu_require_perm_def)
qed

section \<open>Examples\<close>

text \<open>
  An entity with a counter field, whose field list is read from the JSON text that names it; one
  script source adds one to the counter.
\<close>

definition demo_fields :: "field_def list" where
  "demo_fields = [\<lparr>fd_name = ''n'', fd_label = ''n'', fd_type = Number, fd_required = True, fd_options = None,
     fd_ref_target = None, fd_formula = None\<rparr>]"

definition demo_cu_env :: "int cu_env" where
  "demo_cu_env = \<lparr>cv_relay = demo_relay_env\<lparr>re_show_uuid := bits_of_uuid, re_gen_uuid := (\<lambda>k. of_nat (min k 900))\<rparr>,
     cv_parse_uuid = uuid_of_bits, cv_clock = (\<lambda>k. 0), cv_time = (\<lambda>f s. None), cv_show_unique = ''unique'',
     cv_show_outbox_error = (\<lambda>e. ''outbox''), cv_fields_of = (\<lambda>j. Inr demo_fields), cv_fields_json = (\<lambda>fs. JArr []),
     cv_program = (\<lambda>s. Inr [SetField ''n'' (Add (Field_expr ''n'') (Lit (JInt 1)))]), cv_floats = int_floats,
     cv_script_clock = (\<lambda>h k j. 0), cv_debug = (\<lambda>s. [])\<rparr>"

definition demo_cu_caller :: cu_caller where
  "demo_cu_caller = \<lparr>cc_org = 1, cc_actor = actor_human 3, cc_request_id = ''r'', cc_local_bypass = True\<rparr>"

definition demo_cu_world :: "cu_script list \<Rightarrow> cu_world" where
  "demo_cu_world scripts = \<lparr>cw_org = demo_org_db, cw_roles = [], cw_perms = [],
     cw_entities = [\<lparr>ce_id = 20, ce_org = 1, ce_public_id = ''cue_20'', ce_slug = ''asset'', ce_label = ''Asset'', ce_description = [],
       ce_fields = JArr [], ce_status = ''published'', ce_published_version = 1, ce_created_by = 3, ce_updated_by = 3, ce_deleted = None\<rparr>],
     cw_records = [\<lparr>cr_id = 21, cr_org = 1, cr_public_id = ''cur_21'', cr_entity = 20, cr_slug = ''asset'',
       cr_values = JObj [(''n'', JInt 7)], cr_search = ''n:7'', cr_created_by = 3, cr_updated_by = 3, cr_version = 4, cr_deleted = None\<rparr>],
     cw_scripts = scripts, cw_outbox = \<lparr>ob_events = [], ob_dlq = []\<rparr>, cw_audit = [], cw_uuids = 100\<rparr>"

definition demo_record_id :: string where
  "demo_record_id = public_id_as_str bits_of_uuid (public_id_new ''CustomRecord'' 21)"

lemma demo_record_parse: "cu_parse_public_id demo_cu_env ''CustomRecord'' demo_record_id rid = Inr 21"
  using parse_printed_id [of uuid_of_bits bits_of_uuid 21 "''CustomRecord''"]
  by (simp add: cu_parse_public_id_def demo_cu_env_def demo_record_id_def uuid_bits_roundtrip id_kinds_def public_id_new_def)

lemma demo_if_match: "require_if_match (Some ''4'') rid = Inr 4"
proof -
  have "parse_i32 (trim_quotes (str_trim ''4'')) = Some 4" by code_simp
  then show ?thesis by (simp add: require_if_match_def)
qed

lemma demo_perm: "cu_require_perm env demo_cu_caller perm w = (w, Inr ())"
  by (simp add: cu_require_perm_def demo_cu_caller_def)

lemma demo_entity: "load_published_entity demo_cu_env demo_cu_caller ''asset'' (demo_cu_world scripts) =
    (demo_cu_world scripts, Inr (20, demo_fields))"
  by (simp add: load_published_entity_def demo_cu_world_def demo_cu_caller_def demo_cu_env_def)

abbreviation demo_update :: "cu_world \<times> (cu_failure + record_dto)" where
  "demo_update \<equiv> update_record demo_cu_env demo_cu_caller ''asset'' demo_record_id (Some ''4'') [(''n'', JInt 8)] (demo_cu_world [])"

lemma demo_update_ok: "\<exists>w d. demo_update = (w, Inr d)"
proof -
  have "checked_values demo_cu_env demo_fields [(''n'', JInt 8)] rid = Inr [(''n'', JInt 8)]" for rid
    by (simp add: checked_values_def validate_values_def validate_field_def demo_fields_def in_i64_def)
  then show ?thesis
    by (simp add: update_record_def Let_def cu_then_def cu_return_def cu_tx_def demo_perm demo_record_parse demo_if_match demo_entity)
      (simp add: demo_cu_world_def demo_cu_caller_def find_record_def merge_values_def run_hook_def load_script_def
        save_record_def update_records_def after_save_def cu_emit_def insert_event_def insert_outbox_row_def rls_visible_def
        envelope_new_def insert_audit_def cu_then_def cu_return_def cu_tx_def cu_uuid_def record_row_def in_i32_def Let_def)
qed

lemma demo_cu_unique: "records_unique (demo_cu_world scripts)"
  by (simp add: records_unique_def demo_cu_world_def)

text \<open>The second client that read version 4 is refused, after another client's deletion attempt.\<close>

theorem no_lost_update_witness:
  "snd demo_update \<noteq> Inl CuPanic \<and>
   \<not> (\<exists>w3 d3. update_record demo_cu_env demo_cu_caller ''asset'' demo_record_id (Some ''4'') [(''n'', JInt 9)]
      (fst (delete_record demo_cu_env demo_cu_caller 5 ''other'' demo_record_id (fst demo_update))) = (w3, Inr d3))"
proof -
  obtain w d where u: "demo_update = (w, Inr d)" using demo_update_ok by blast
  have "(cu_call demo_cu_env)\<^sup>*\<^sup>* w (fst (delete_record demo_cu_env demo_cu_caller 5 ''other'' demo_record_id w))"
    by (rule r_into_rtranclp, rule cu_call.delete_record)
  from no_lost_update [OF demo_cu_unique u this refl] show ?thesis by (simp add: u)
qed

theorem saved_record_typed_witness:
  "\<exists>w d s vals. demo_update = (w, Inr d) \<and> s \<in> set (cw_records w) \<and> d = to_dto s \<and> cr_values s = JObj vals \<and> record_typed demo_fields vals"
proof -
  obtain w d where u: "demo_update = (w, Inr d)" using demo_update_ok by blast
  have "load_script (demo_cu_world []) org slug hook = None" for org slug hook
    by (simp add: load_script_def demo_cu_world_def)
  moreover have "distinct (map fd_name demo_fields)" by (simp add: demo_fields_def)
  moreover have "snd (load_published_entity demo_cu_env demo_cu_caller ''asset'' (demo_cu_world [])) = Inr (20, demo_fields)"
    by (simp add: demo_entity)
  ultimately show ?thesis using u saved_record_typed [OF demo_cu_unique] by metis
qed

text \<open>
  The script that counts: it turns the 8 of an update into \<open>9.0\<close>, and the record that it leaves
  refuses the next update that does not set the counter again.
\<close>

definition demo_script :: cu_script where
  "demo_script = \<lparr>cs_id = 30, cs_org = 1, cs_public_id = ''cus_30'', cs_slug = ''asset'', cs_hook = ''before_save'',
     cs_source = ''add one'', cs_enabled = True, cs_created_by = 3\<rparr>"

definition demo_stuck_world :: cu_world where
  "demo_stuck_world = (demo_cu_world [demo_script])\<lparr>cw_records := map (\<lambda>r. r\<lparr>cr_values := JObj [(''n'', JFloat ''9.0'')]\<rparr>)
     (cw_records (demo_cu_world [demo_script]))\<rparr>"

theorem untyped_value_blocks_updates_witness:
  "run_hook demo_cu_env demo_cu_caller ''asset'' ''before_save'' [(''n'', JInt 8)] (demo_cu_world [demo_script]) =
     (demo_cu_world [demo_script], Inr [(''n'', JFloat ''9.0'')]) \<and>
   (\<exists>err. update_record demo_cu_env demo_cu_caller ''asset'' demo_record_id (Some ''4'') [] demo_stuck_world = (demo_stuck_world, Inl err))"
proof -
  have "load_script (demo_cu_world [demo_script]) 1 ''asset'' ''before_save'' = Some ''add one''"
    by (simp add: load_script_def demo_cu_world_def demo_script_def)
  moreover have "show_int 9 = ''9''" by code_simp
  then obtain st where "execute int_floats default_limits (\<lambda>j. 0) [SetField ''n'' (Add (Field_expr ''n'') (Lit (JInt 1)))]
      (host_new [(''n'', JInt 8)]) = Inr st" "st_values st = [(''n'', JFloat ''9.0'')]"
    by (simp add: execute_def host_new_def tick_def set_field_def get_field_def default_limits_def and_then_def binary_def
        json_number_def int_floats_def)
  ultimately have "run_hook demo_cu_env demo_cu_caller ''asset'' ''before_save'' [(''n'', JInt 8)] (demo_cu_world [demo_script]) =
     (demo_cu_world [demo_script], Inr [(''n'', JFloat ''9.0'')])"
    by (simp add: run_hook_def run_script_def demo_cu_caller_def demo_cu_env_def)
  moreover have "find_record demo_stuck_world (cc_org demo_cu_caller) 21 ''asset'' =
      Some ((hd (cw_records (demo_cu_world [])))\<lparr>cr_values := JObj [(''n'', JFloat ''9.0'')]\<rparr>)"
    by (simp add: find_record_def demo_stuck_world_def demo_cu_world_def demo_cu_caller_def)
  moreover have "snd (load_published_entity demo_cu_env demo_cu_caller ''asset'' demo_stuck_world) = Inr (20, demo_fields)"
    using demo_entity [of "[demo_script]"] by (simp add: load_published_entity_def demo_stuck_world_def)
  moreover have "\<not> field_typed [(''n'', JFloat ''9.0'')] (hd demo_fields)"
    by (simp add: field_typed_def demo_fields_def value_typed_def)
  moreover have "hd demo_fields \<in> set demo_fields" by (simp add: demo_fields_def)
  ultimately show ?thesis
    using untyped_value_blocks_updates [of demo_cu_env demo_record_id demo_cu_caller 21 demo_stuck_world "''asset''" _ "[(''n'', JFloat ''9.0'')]"
        20 demo_fields "hd demo_fields" "[]" "Some ''4''"] demo_record_parse by simp
qed

end
