(* ===== verification/Tokens.thy ===== *)
theory Tokens
  imports Events
begin

text \<open>
  Access tokens (\<open>crates/auth-token/src/lib.rs\<close>): the claims, the ring of signing keys, minting
  and verification, and the key document that the core service publishes. The JWT and base64
  libraries are parameters: a token is what the library encodes for a key id, a secret and claims.
  Times are seconds.
\<close>

section \<open>Claims and keys\<close>

record access_claims =
  ac_sub :: string
  ac_user :: uuid
  ac_org_id :: string
  ac_org :: uuid
  ac_membership :: uuid
  ac_roles :: "string list"
  ac_policy_version :: int
  ac_sid :: uuid
  ac_family :: uuid
  ac_jti :: uuid
  ac_iss :: string
  ac_iat :: int
  ac_exp :: int
  ac_api_key_id :: "string option"
  ac_scopes :: "string list option"
  ac_region :: string

definition is_expired_at :: "access_claims \<Rightarrow> int \<Rightarrow> bool" where
  "is_expired_at c now \<longleftrightarrow> now \<ge> ac_exp c"

definition is_api_key :: "access_claims \<Rightarrow> bool" where
  "is_api_key c \<longleftrightarrow> ac_api_key_id c \<noteq> None"

definition ACCESS_TOKEN_TTL_SECS :: int where
  "ACCESS_TOKEN_TTL_SECS = 900"

definition REFRESH_TOKEN_TTL_SECS :: int where
  "REFRESH_TOKEN_TTL_SECS = 60 * 60 * 24 * 30"

datatype token_error = Jwt string | UnknownKid string | NoActiveKey | MissingClaim

record signing_key =
  sk_kid :: string
  sk_secret :: string
  sk_active :: bool

text \<open>The map from key ids to keys is a list of keys with distinct ids.\<close>

record key_ring =
  kr_keys :: "signing_key list"
  kr_active :: "string option"

definition ring_new :: key_ring where
  "ring_new = \<lparr>kr_keys = [], kr_active = None\<rparr>"

definition ring_find :: "key_ring \<Rightarrow> string \<Rightarrow> signing_key option" where
  "ring_find ring kid = find (\<lambda>k. sk_kid k = kid) (kr_keys ring)"

definition ring_upsert :: "signing_key \<Rightarrow> key_ring \<Rightarrow> key_ring" where
  "ring_upsert key ring =
     (let ring' = (if sk_active key
            then ring\<lparr>kr_active := Some (sk_kid key),
              kr_keys := map (\<lambda>k. if sk_kid k \<noteq> sk_kid key then k\<lparr>sk_active := False\<rparr> else k) (kr_keys ring)\<rparr>
            else ring) in
      ring'\<lparr>kr_keys := (if ring_find ring' (sk_kid key) = None then kr_keys ring' @ [key]
        else map (\<lambda>k. if sk_kid k = sk_kid key then key else k) (kr_keys ring'))\<rparr>)"

definition ring_from_secret :: "string \<Rightarrow> key_ring" where
  "ring_from_secret secret = ring_upsert \<lparr>sk_kid = ''bootstrap'', sk_secret = secret, sk_active = True\<rparr> ring_new"

definition ring_retire :: "string \<Rightarrow> key_ring \<Rightarrow> key_ring" where
  "ring_retire kid ring =
     (let keys = map (\<lambda>k. if sk_kid k = kid then k\<lparr>sk_active := False\<rparr> else k) (kr_keys ring) in
      ring\<lparr>kr_keys := keys,
        kr_active := (if kr_active ring = Some kid then map_option sk_kid (find sk_active keys) else kr_active ring)\<rparr>)"

definition ring_active :: "key_ring \<Rightarrow> token_error + signing_key" where
  "ring_active ring =
     (case kr_active ring of
        None \<Rightarrow> Inl NoActiveKey
      | Some kid \<Rightarrow> (case ring_find ring kid of None \<Rightarrow> Inl NoActiveKey | Some k \<Rightarrow> Inr k))"

definition ring_get :: "key_ring \<Rightarrow> string \<Rightarrow> token_error + signing_key" where
  "ring_get ring kid = (case ring_find ring kid of None \<Rightarrow> Inl (UnknownKid kid) | Some k \<Rightarrow> Inr k)"

section \<open>Minting and verification\<close>

record jwt_lib =
  jl_encode :: "string \<Rightarrow> string \<Rightarrow> access_claims \<Rightarrow> string + string"
  jl_header_kid :: "string \<Rightarrow> string + string option"
  jl_decode :: "int \<Rightarrow> string \<Rightarrow> string \<Rightarrow> string + access_claims"
  jl_base64 :: "string \<Rightarrow> string"
  jl_unbase64 :: "string \<Rightarrow> string + string"

definition mint_access_token :: "jwt_lib \<Rightarrow> int \<Rightarrow> uuid \<Rightarrow> key_ring \<Rightarrow> access_claims \<Rightarrow> int \<Rightarrow> token_error + string" where
  "mint_access_token lib now fresh ring claims ttl =
     and_then (ring_active ring) (\<lambda>key.
     let claims = claims\<lparr>ac_iat := now, ac_exp := now + ttl, ac_jti := (if ac_jti claims = 0 then fresh else ac_jti claims)\<rparr> in
     map_err Jwt (jl_encode lib (sk_kid key) (sk_secret key) claims))"

definition verify_access_token :: "jwt_lib \<Rightarrow> int \<Rightarrow> key_ring \<Rightarrow> string \<Rightarrow> token_error + access_claims" where
  "verify_access_token lib now ring token =
     and_then (map_err Jwt (jl_header_kid lib token)) (\<lambda>h.
     case h of
       None \<Rightarrow> Inl (Jwt ''missing kid'')
     | Some kid \<Rightarrow>
         and_then (ring_get ring kid) (\<lambda>key.
         and_then (map_err Jwt (jl_decode lib now (sk_secret key) token)) (\<lambda>claims.
         if ac_org_id claims = [] \<or> ac_org claims = 0 then Inl MissingClaim else Inr claims)))"

section \<open>The published key document\<close>

definition jwk :: "jwt_lib \<Rightarrow> signing_key \<Rightarrow> json" where
  "jwk lib k = json_object [(''kty'', JStr ''oct''), (''alg'', JStr ''HS256''), (''kid'', JStr (sk_kid k)),
     (''k'', JStr (jl_base64 lib (sk_secret k))), (''use'', JStr ''sig'')]"

definition jwks_keys :: "key_ring \<Rightarrow> signing_key list" where
  "jwks_keys ring =
     (let keys = filter (\<lambda>k. sk_active k \<or> kr_active ring = Some (sk_kid k)) (kr_keys ring);
          retired = filter (\<lambda>k. \<not> sk_active k) (kr_keys ring) in
      foldl (\<lambda>all r. if list_ex (\<lambda>x. sk_kid x = sk_kid r) all then all else all @ [r]) keys retired)"

definition jwks_json :: "jwt_lib \<Rightarrow> key_ring \<Rightarrow> json" where
  "jwks_json lib ring = json_object [(''keys'', JArr (map (jwk lib) (jwks_keys ring)))]"

definition decode_jwk_k :: "jwt_lib \<Rightarrow> string \<Rightarrow> token_error + string" where
  "decode_jwk_k lib k = map_err (\<lambda>e. Jwt (''bad jwk k: '' @ e)) (jl_unbase64 lib k)"

section \<open>What the libraries promise\<close>

text \<open>
  HS256: the header carries the key id; a token decodes with the secret that signed it, while it
  has not expired and when its issuer is the expected one; base64 decoding inverts encoding.
\<close>

definition jwt_sound :: "jwt_lib \<Rightarrow> bool" where
  "jwt_sound lib \<longleftrightarrow>
     (\<forall>kid secret claims token. jl_encode lib kid secret claims = Inr token \<longrightarrow> jl_header_kid lib token = Inr (Some kid)) \<and>
     (\<forall>kid secret claims token now. jl_encode lib kid secret claims = Inr token \<longrightarrow> ac_iss claims = ''companyos'' \<longrightarrow>
        now < ac_exp claims \<longrightarrow> jl_decode lib now secret token = Inr claims) \<and>
     (\<forall>s. jl_unbase64 lib (jl_base64 lib s) = Inr s)"

lemma jwt_soundD:
  assumes "jwt_sound lib"
  shows "jl_encode lib kid secret claims = Inr token \<Longrightarrow> jl_header_kid lib token = Inr (Some kid)"
    and "jl_encode lib kid secret claims = Inr token \<Longrightarrow> ac_iss claims = ''companyos'' \<Longrightarrow> now < ac_exp claims \<Longrightarrow>
      jl_decode lib now secret token = Inr claims"
    and "jl_unbase64 lib (jl_base64 lib s) = Inr s"
  using assms unfolding jwt_sound_def by blast+

section \<open>Rotation\<close>

text \<open>A running service inserts keys under new ids and retires keys.\<close>

inductive rotates :: "key_ring \<Rightarrow> key_ring \<Rightarrow> bool" where
  start: "rotates ring ring"
| insert: "rotates ring ring' \<Longrightarrow> ring_find ring' (sk_kid key) = None \<Longrightarrow> rotates ring (ring_upsert key ring')"
| retire: "rotates ring ring' \<Longrightarrow> rotates ring (ring_retire kid ring')"

lemma ring_find_upsert:
  "ring_find (ring_upsert key ring) kid =
     (if kid = sk_kid key then Some key
      else map_option (\<lambda>k. if sk_active key then k\<lparr>sk_active := False\<rparr> else k) (ring_find ring kid))"
proof -
  have other: "find (\<lambda>k. sk_kid k = kid) (map (\<lambda>k. if sk_kid k = sk_kid key then key else k) ks) = find (\<lambda>k. sk_kid k = kid) ks"
    if "kid \<noteq> sk_kid key" for ks using that by (induction ks) auto
  have same: "find (\<lambda>k. sk_kid k = sk_kid key) (map (\<lambda>k. if sk_kid k = sk_kid key then key else k) ks) = Some key"
    if "find (\<lambda>k. sk_kid k = sk_kid key) ks \<noteq> None" for ks using that by (induction ks) auto
  have app: "find P (xs @ [y]) = (case find P xs of None \<Rightarrow> if P y then Some y else None | Some x \<Rightarrow> Some x)" for P xs and y :: signing_key
    by (induction xs) auto
  have off: "find (\<lambda>k. sk_kid k = kid) (map (\<lambda>k. if sk_kid k \<noteq> sk_kid key then k\<lparr>sk_active := False\<rparr> else k) ks) =
      map_option (\<lambda>k. k\<lparr>sk_active := False\<rparr>) (find (\<lambda>k. sk_kid k = kid) ks)" if "kid \<noteq> sk_kid key" for ks
    using that by (induction ks) auto
  show ?thesis
    by (cases "kid = sk_kid key") (auto simp: ring_upsert_def ring_find_def Let_def app other same off split: option.split)
qed

lemma ring_find_retire:
  "ring_find (ring_retire kid ring) kid' = map_option (\<lambda>k. if sk_kid k = kid then k\<lparr>sk_active := False\<rparr> else k) (ring_find ring kid')"
  unfolding ring_retire_def ring_find_def Let_def by (simp add: find_map_id)

lemma ring_secret:
  "map_option sk_secret (ring_find (ring_upsert key ring) kid) =
     (if kid = sk_kid key then Some (sk_secret key) else map_option sk_secret (ring_find ring kid))"
  "map_option sk_secret (ring_find (ring_retire kid' ring) kid) = map_option sk_secret (ring_find ring kid)"
  by (cases "ring_find ring kid"; simp add: ring_find_upsert ring_find_retire)+

lemma rotates_keeps_secret:
  "rotates ring ring' \<Longrightarrow> map_option sk_secret (ring_find ring kid) = Some s \<Longrightarrow> map_option sk_secret (ring_find ring' kid) = Some s"
  by (induction rule: rotates.induct) (auto simp: ring_secret)

lemma ring_find_kid: "ring_find ring kid = Some k \<Longrightarrow> sk_kid k = kid \<and> k \<in> set (kr_keys ring)"
  by (auto simp: ring_find_def find_Some_iff)

lemma ring_active_find: "ring_active ring = Inr k \<longleftrightarrow> kr_active ring = Some (sk_kid k) \<and> ring_find ring (sk_kid k) = Some k"
  by (auto simp: ring_active_def dest: ring_find_kid split: option.splits)

text \<open>
  C21: A token verifies until it expires, through every rotation of the keys: what
  \<open>mint_access_token\<close> made with the active key is accepted by any ring that has come from this one
  by inserting keys under new ids and retiring keys, and gives back the claims with the time of
  issue, the expiry and the id that minting set.
\<close>

theorem minted_token_verifies:
  assumes "jwt_sound lib" "mint_access_token lib now fresh ring claims ttl = Inr token" "rotates ring ring'"
    and "ac_iss claims = ''companyos''" "ac_org_id claims \<noteq> []" "ac_org claims \<noteq> 0" "now' < now + ttl"
  shows "verify_access_token lib now' ring' token =
    Inr (claims\<lparr>ac_iat := now, ac_exp := now + ttl, ac_jti := (if ac_jti claims = 0 then fresh else ac_jti claims)\<rparr>)"
proof -
  let ?claims = "claims\<lparr>ac_iat := now, ac_exp := now + ttl, ac_jti := (if ac_jti claims = 0 then fresh else ac_jti claims)\<rparr>"
  from assms(2) obtain k where k: "ring_active ring = Inr k" "jl_encode lib (sk_kid k) (sk_secret k) ?claims = Inr token"
    by (auto simp: mint_access_token_def and_then_Inr map_err_Inr Let_def)
  from k(1) have "ring_find ring (sk_kid k) = Some k" by (simp add: ring_active_find)
  with rotates_keeps_secret [OF assms(3), of "sk_kid k" "sk_secret k"] obtain k'
    where k': "ring_find ring' (sk_kid k) = Some k'" "sk_secret k' = sk_secret k" by auto
  have "jl_header_kid lib token = Inr (Some (sk_kid k))" by (rule jwt_soundD(1) [OF assms(1) k(2)])
  moreover have "jl_decode lib now' (sk_secret k) token = Inr ?claims"
    by (rule jwt_soundD(2) [OF assms(1) k(2)]) (use assms(4,7) in simp_all)
  ultimately show ?thesis using k' assms(5,6) by (simp add: verify_access_token_def ring_get_def)
qed

lemma jwks_all_keys: "k \<in> set (kr_keys ring) \<Longrightarrow> \<exists>k' \<in> set (jwks_keys ring). sk_kid k' = sk_kid k"
proof -
  have "sk_kid ` set (foldl (\<lambda>all r. if list_ex (\<lambda>x. sk_kid x = sk_kid r) all then all else all @ [r]) all rs) =
      sk_kid ` set all \<union> sk_kid ` set rs" for all rs :: "signing_key list"
    by (induction rs arbitrary: all) (auto simp: list_ex_iff intro: rev_image_eqI)
  then have "sk_kid ` set (jwks_keys ring) = sk_kid ` set (kr_keys ring)" unfolding jwks_keys_def Let_def by auto
  then show "k \<in> set (kr_keys ring) \<Longrightarrow> \<exists>k' \<in> set (jwks_keys ring). sk_kid k' = sk_kid k" by (metis image_iff)
qed

lemma jwks_only_keys: "k \<in> set (jwks_keys ring) \<Longrightarrow> k \<in> set (kr_keys ring)"
proof -
  have sub: "set (foldl (\<lambda>all r. if list_ex (\<lambda>x. sk_kid x = sk_kid r) all then all else all @ [r]) all rs) \<subseteq> set all \<union> set rs"
    for all rs :: "signing_key list" by (induction rs arbitrary: all) (auto split: if_splits, fastforce+)
  show "k \<in> set (jwks_keys ring) \<Longrightarrow> k \<in> set (kr_keys ring)"
    unfolding jwks_keys_def Let_def using sub by fastforce
qed

text \<open>
  C22: The key document lets everyone sign. Signing is symmetric (HS256), and the document that
  \<open>/api/v1/auth/jwks.json\<close> serves without authentication contains the secret of every key. Whoever
  reads it can decode the secret of any key of the ring and make a token with claims of his choice
  that \<open>verify_access_token\<close> accepts.
\<close>

theorem jwks_lets_everyone_sign:
  assumes "jwt_sound lib" "distinct (map sk_kid (kr_keys ring))" "key \<in> set (kr_keys ring)"
    and "ac_iss claims = ''companyos''" "ac_org_id claims \<noteq> []" "ac_org claims \<noteq> 0" "now < ac_exp claims"
  shows "\<exists>doc k secret. jwks_json lib ring = json_object [(''keys'', JArr doc)] \<and>
    json_object [(''kty'', JStr ''oct''), (''alg'', JStr ''HS256''), (''kid'', JStr (sk_kid key)), (''k'', JStr k), (''use'', JStr ''sig'')] \<in> set doc \<and>
    decode_jwk_k lib k = Inr secret \<and>
    (\<forall>token. jl_encode lib (sk_kid key) secret claims = Inr token \<longrightarrow> verify_access_token lib now ring token = Inr claims)"
proof -
  obtain k' where k': "k' \<in> set (jwks_keys ring)" "sk_kid k' = sk_kid key" using jwks_all_keys [OF assms(3)] by blast
  then have "k' = key" using jwks_only_keys [of k' ring] assms(2,3) by (auto simp: distinct_map dest: inj_onD)
  with k' have pub: "jwk lib key \<in> set (map (jwk lib) (jwks_keys ring))" by auto
  have find: "ring_find ring (sk_kid key) = Some key"
    using assms(2,3) unfolding ring_find_def by (rule find_by_key)
  have "verify_access_token lib now ring token = Inr claims" if "jl_encode lib (sk_kid key) (sk_secret key) claims = Inr token" for token
    using jwt_soundD(1,2) [OF assms(1) that] assms(4-7) by (simp add: verify_access_token_def ring_get_def find)
  moreover have "decode_jwk_k lib (jl_base64 lib (sk_secret key)) = Inr (sk_secret key)"
    by (simp add: decode_jwk_k_def jwt_soundD(3) [OF assms(1)])
  ultimately show ?thesis using pub unfolding jwks_json_def jwk_def by blast
qed

section \<open>Examples\<close>

text \<open>A library that knows one set of claims, and names the key as the token.\<close>

definition demo_claims :: access_claims where
  "demo_claims = \<lparr>ac_sub = ''usr_3'', ac_user = 3, ac_org_id = ''org_1'', ac_org = 1, ac_membership = 4, ac_roles = [''owner''],
     ac_policy_version = 1, ac_sid = 5, ac_family = 6, ac_jti = 7, ac_iss = ''companyos'', ac_iat = 1000, ac_exp = 1900,
     ac_api_key_id = None, ac_scopes = None, ac_region = ''us''\<rparr>"

definition demo_jwt :: jwt_lib where
  "demo_jwt = \<lparr>jl_encode = (\<lambda>kid secret claims. if claims = demo_claims then Inr kid else Inl ''unknown''),
     jl_header_kid = (\<lambda>token. Inr (Some token)), jl_decode = (\<lambda>now secret token. Inr demo_claims),
     jl_base64 = (\<lambda>s. s), jl_unbase64 = Inr\<rparr>"

lemma demo_jwt_sound: "jwt_sound demo_jwt"
  by (auto simp: jwt_sound_def demo_jwt_def split: if_splits)

theorem minted_token_verifies_witness:
  "verify_access_token demo_jwt 1500
     (ring_retire ''bootstrap'' (ring_upsert \<lparr>sk_kid = ''kid-2'', sk_secret = ''s2'', sk_active = True\<rparr> (ring_from_secret ''s1'')))
     ''bootstrap'' = Inr demo_claims"
proof -
  let ?ring = "ring_from_secret ''s1''" and ?key = "\<lparr>sk_kid = ''kid-2'', sk_secret = ''s2'', sk_active = True\<rparr>"
  have ring: "?ring = \<lparr>kr_keys = [\<lparr>sk_kid = ''bootstrap'', sk_secret = ''s1'', sk_active = True\<rparr>], kr_active = Some ''bootstrap''\<rparr>"
    by (simp add: ring_from_secret_def ring_upsert_def ring_new_def ring_find_def)
  have "rotates ?ring (ring_retire ''bootstrap'' (ring_upsert ?key ?ring))"
    by (rule rotates.retire, rule rotates.insert, rule rotates.start) (simp add: ring ring_find_def)
  moreover have "mint_access_token demo_jwt 1000 9 ?ring (demo_claims\<lparr>ac_iat := 0, ac_exp := 0\<rparr>) 900 = Inr ''bootstrap''"
    by (simp add: mint_access_token_def ring ring_active_def ring_find_def demo_jwt_def demo_claims_def)
  ultimately show ?thesis
    using minted_token_verifies [OF demo_jwt_sound, of 1000 9 ?ring "demo_claims\<lparr>ac_iat := 0, ac_exp := 0\<rparr>" 900 "''bootstrap''" _ 1500]
    by (simp add: demo_claims_def)
qed

theorem jwks_lets_everyone_sign_witness:
  "\<exists>k secret. decode_jwk_k demo_jwt k = Inr secret \<and> jl_encode demo_jwt ''bootstrap'' secret demo_claims = Inr ''bootstrap'' \<and>
     verify_access_token demo_jwt 1500 (ring_from_secret ''s1'') ''bootstrap'' = Inr demo_claims"
proof -
  let ?key = "\<lparr>sk_kid = ''bootstrap'', sk_secret = ''s1'', sk_active = True\<rparr>"
  have ring: "kr_keys (ring_from_secret ''s1'') = [?key]"
    by (simp add: ring_from_secret_def ring_upsert_def ring_new_def ring_find_def)
  have enc: "jl_encode demo_jwt ''bootstrap'' secret demo_claims = Inr ''bootstrap''" for secret by (simp add: demo_jwt_def)
  show ?thesis
    using jwks_lets_everyone_sign [OF demo_jwt_sound, of "ring_from_secret ''s1''" ?key demo_claims 1500] enc
    by (auto simp: ring demo_claims_def)
qed

end
