(* ===== verification/Sessions.thy ===== *)
theory Sessions
  imports Tokens Grants
begin

text \<open>
  Sessions of the core service (\<open>services/core/src/auth/sessions.rs\<close>): issuing tokens, rotation of
  refresh tokens with reuse detection, revocation, and the check of an access token against the
  session and membership tables (\<open>auth/extract.rs\<close>). Random values (UUIDs and opaque tokens) come
  from a supply that is counted; \<open>now\<close> is the time of the call in seconds. The hash of opaque
  tokens (SHA-256) is a parameter.
\<close>

section \<open>Tables\<close>

record user_identity =
  ui_id :: uuid
  ui_public_id :: string
  ui_email :: string
  ui_email_normalized :: string
  ui_verified :: "int option"
  ui_password_hash :: "string option"
  ui_password_salt :: "string option"
  ui_totp_secret :: "string option"
  ui_mfa_enabled :: "int option"
  ui_failed_count :: int
  ui_locked_until :: "int option"

record organization =
  og_id :: uuid
  og_public_id :: string
  og_region :: string

record auth_session =
  as_id :: uuid
  as_family :: uuid
  as_user :: uuid
  as_org :: uuid
  as_membership :: uuid
  as_device_label :: "string option"
  as_user_agent :: "string option"
  as_ip :: "string option"
  as_last_seen :: int
  as_revoked :: "int option"
  as_revoke_reason :: "string option"

record refresh_token =
  rt_id :: uuid
  rt_session :: uuid
  rt_family :: uuid
  rt_hash :: string
  rt_expires :: int
  rt_rotated :: "int option"
  rt_replaced_by :: "uuid option"
  rt_revoked :: "int option"

record directory =
  di_users :: "user_identity list"
  di_orgs :: "organization list"
  di_members :: "membership list"

record session_db =
  sd_sessions :: "auth_session list"
  sd_tokens :: "refresh_token list"
  sd_draws :: nat

record auth_env =
  au_jwt :: jwt_lib
  au_gen_uuid :: "nat \<Rightarrow> uuid"
  au_gen_token :: "nat \<Rightarrow> string"
  au_hash :: "string \<Rightarrow> string"
  au_show_uuid :: "uuid \<Rightarrow> string"
  au_parse_uuid :: "string \<Rightarrow> string + uuid"
  au_db_error :: "string \<Rightarrow> string"

type_synonym 'a session_step_fun = "session_db \<Rightarrow> session_db \<times> (string + 'a)"

definition session_tx :: "'a session_step_fun \<Rightarrow> 'a session_step_fun" where
  "session_tx m s = (case m s of (s', Inl e) \<Rightarrow> (s\<lparr>sd_draws := sd_draws s'\<rparr>, Inl e) | (s', Inr x) \<Rightarrow> (s', Inr x))"

definition draw_uuid :: "auth_env \<Rightarrow> uuid session_step_fun" where
  "draw_uuid env s = (s\<lparr>sd_draws := Suc (sd_draws s)\<rparr>, Inr (au_gen_uuid env (sd_draws s)))"

definition draw_token :: "auth_env \<Rightarrow> string session_step_fun" where
  "draw_token env s = (s\<lparr>sd_draws := Suc (sd_draws s)\<rparr>, Inr (au_gen_token env (sd_draws s)))"

section \<open>Issuing tokens\<close>

record issued_tokens =
  it_access :: string
  it_refresh :: string
  it_expires_in :: int
  it_session :: uuid
  it_family :: uuid

datatype refresh_outcome = Issued issued_tokens | ReuseDetected uuid

fun show_token_error :: "token_error \<Rightarrow> string" where
  "show_token_error (Jwt e) = ''jwt error: '' @ e"
| "show_token_error (UnknownKid k) = ''unknown signing key kid='' @ k"
| "show_token_error NoActiveKey = ''no active signing key''"
| "show_token_error MissingClaim = ''token missing required claim''"

definition load_org_region :: "directory \<Rightarrow> uuid \<Rightarrow> string" where
  "load_org_region dir org = (case find (\<lambda>g. og_id g = org) (di_orgs dir) of Some g \<Rightarrow> og_region g | None \<Rightarrow> ''us'')"

definition insert_session :: "auth_env \<Rightarrow> directory \<Rightarrow> auth_session \<Rightarrow> unit session_step_fun" where
  "insert_session env dir row s =
     (if list_ex (\<lambda>r. as_id r = as_id row) (sd_sessions s) then (s, Inl (au_db_error env ''auth_session_pkey''))
      else if \<not> list_ex (\<lambda>u. ui_id u = as_user row) (di_users dir) \<or> \<not> list_ex (\<lambda>g. og_id g = as_org row) (di_orgs dir) \<or>
          \<not> list_ex (\<lambda>m. mb_id m = as_membership row) (di_members dir)
      then (s, Inl (au_db_error env ''auth_session_fkey''))
      else (s\<lparr>sd_sessions := sd_sessions s @ [row]\<rparr>, Inr ()))"

definition insert_refresh :: "auth_env \<Rightarrow> refresh_token \<Rightarrow> unit session_step_fun" where
  "insert_refresh env row s =
     (if list_ex (\<lambda>r. rt_id r = rt_id row \<or> rt_hash r = rt_hash row) (sd_tokens s)
      then (s, Inl (au_db_error env ''refresh_token_key''))
      else if \<not> list_ex (\<lambda>r. as_id r = rt_session row) (sd_sessions s) then (s, Inl (au_db_error env ''refresh_token_fkey''))
      else (s\<lparr>sd_tokens := sd_tokens s @ [row]\<rparr>, Inr ()))"

definition new_refresh_row :: "auth_env \<Rightarrow> int \<Rightarrow> uuid \<Rightarrow> uuid \<Rightarrow> string \<Rightarrow> uuid \<Rightarrow> refresh_token" where
  "new_refresh_row env now sid family token i =
     \<lparr>rt_id = i, rt_session = sid, rt_family = family, rt_hash = au_hash env token,
      rt_expires = now + REFRESH_TOKEN_TTL_SECS, rt_rotated = None, rt_replaced_by = None, rt_revoked = None\<rparr>"

definition session_claims ::
  "auth_env \<Rightarrow> string \<Rightarrow> uuid \<Rightarrow> uuid \<Rightarrow> uuid \<Rightarrow> string list \<Rightarrow> int \<Rightarrow> uuid \<Rightarrow> uuid \<Rightarrow> uuid \<Rightarrow> string \<Rightarrow> access_claims" where
  "session_claims env user_public user org membership role_names policy_version sid family jti region =
     \<lparr>ac_sub = user_public, ac_user = user,
      ac_org_id = public_id_as_str (au_show_uuid env) (org_to_public org), ac_org = org,
      ac_membership = membership, ac_roles = role_names, ac_policy_version = policy_version, ac_sid = sid, ac_family = family,
      ac_jti = jti, ac_iss = ''companyos'', ac_iat = 0, ac_exp = 0, ac_api_key_id = None, ac_scopes = None,
      ac_region = region\<rparr>"

definition mint_for :: "auth_env \<Rightarrow> int \<Rightarrow> key_ring \<Rightarrow> (uuid \<Rightarrow> access_claims) \<Rightarrow> string session_step_fun" where
  "mint_for env now ring claims =
     st_then (draw_uuid env) (\<lambda>jti s. st_return (map_err show_token_error
       (mint_access_token (au_jwt env) now (au_gen_uuid env (sd_draws s)) ring (claims jti) ACCESS_TOKEN_TTL_SECS)) s)"

definition issue_refresh_and_access ::
  "auth_env \<Rightarrow> int \<Rightarrow> directory \<Rightarrow> key_ring \<Rightarrow> uuid \<Rightarrow> uuid \<Rightarrow> uuid \<Rightarrow> string \<Rightarrow> uuid \<Rightarrow> uuid \<Rightarrow> string list \<Rightarrow> int
     \<Rightarrow> issued_tokens session_step_fun" where
  "issue_refresh_and_access env now dir ring sid family user user_public org membership role_names policy_version =
     st_then (draw_token env) (\<lambda>refresh.
     st_then (draw_uuid env) (\<lambda>i.
     st_then (insert_refresh env (new_refresh_row env now sid family refresh i)) (\<lambda>_.
     st_then (mint_for env now ring (\<lambda>jti. session_claims env user_public user org membership role_names policy_version
       sid family jti (load_org_region dir org))) (\<lambda>access.
     st_return (Inr \<lparr>it_access = access, it_refresh = refresh, it_expires_in = ACCESS_TOKEN_TTL_SECS, it_session = sid,
       it_family = family\<rparr>)))))"

definition create_session_with_tokens ::
  "auth_env \<Rightarrow> int \<Rightarrow> directory \<Rightarrow> key_ring \<Rightarrow> uuid \<Rightarrow> string \<Rightarrow> uuid \<Rightarrow> uuid \<Rightarrow> string list \<Rightarrow> int
     \<Rightarrow> string option \<Rightarrow> string option \<Rightarrow> string option \<Rightarrow> issued_tokens session_step_fun" where
  "create_session_with_tokens env now dir ring user user_public org membership role_names policy_version device agent ip =
     st_then (draw_uuid env) (\<lambda>sid.
     st_then (draw_uuid env) (\<lambda>family.
     st_then (insert_session env dir \<lparr>as_id = sid, as_family = family, as_user = user, as_org = org, as_membership = membership,
       as_device_label = device, as_user_agent = agent, as_ip = ip, as_last_seen = now, as_revoked = None,
       as_revoke_reason = None\<rparr>) (\<lambda>_.
     issue_refresh_and_access env now dir ring sid family user user_public org membership role_names policy_version)))"

section \<open>Revocation\<close>

definition revoke_family :: "int \<Rightarrow> uuid \<Rightarrow> string \<Rightarrow> session_db \<Rightarrow> session_db" where
  "revoke_family now family reason s =
     s\<lparr>sd_tokens := map (\<lambda>t. if rt_family t = family \<and> rt_revoked t = None then t\<lparr>rt_revoked := Some now\<rparr> else t) (sd_tokens s),
       sd_sessions := map (\<lambda>r. if as_family r = family \<and> as_revoked r = None
         then r\<lparr>as_revoked := Some now, as_revoke_reason := Some reason\<rparr> else r) (sd_sessions s)\<rparr>"

definition revoke_session :: "int \<Rightarrow> uuid \<Rightarrow> uuid \<Rightarrow> session_db \<Rightarrow> session_db \<times> bool" where
  "revoke_session now user sid s =
     (case find (\<lambda>r. as_id r = sid \<and> as_user r = user \<and> as_revoked r = None) (sd_sessions s) of
        None \<Rightarrow> (s, False)
      | Some r \<Rightarrow> (revoke_family now (as_family r) ''user_revoke_session'' s, True))"

definition live_families :: "(auth_session \<Rightarrow> bool) \<Rightarrow> session_db \<Rightarrow> uuid list" where
  "live_families sel s = remdups (map as_family (filter (\<lambda>r. sel r \<and> as_revoked r = None) (sd_sessions s)))"

definition revoke_all_sessions :: "int \<Rightarrow> uuid \<Rightarrow> session_db \<Rightarrow> session_db \<times> nat" where
  "revoke_all_sessions now user s =
     (let families = live_families (\<lambda>r. as_user r = user) s in
      (fold (\<lambda>f. revoke_family now f ''user_revoke_all'') families s, length families))"

definition revoke_org_user_sessions :: "int \<Rightarrow> uuid \<Rightarrow> uuid \<Rightarrow> session_db \<Rightarrow> session_db \<times> nat" where
  "revoke_org_user_sessions now org user s =
     (let families = live_families (\<lambda>r. as_org r = org \<and> as_user r = user) s in
      (fold (\<lambda>f. revoke_family now f ''membership_revoked'') families s, length families))"

section \<open>Rotation\<close>

definition rotate_row :: "int \<Rightarrow> uuid \<Rightarrow> uuid \<Rightarrow> session_db \<Rightarrow> session_db" where
  "rotate_row now i new s =
     s\<lparr>sd_tokens := map (\<lambda>t. if rt_id t = i then t\<lparr>rt_rotated := Some now, rt_replaced_by := Some new\<rparr> else t) (sd_tokens s)\<rparr>"

definition touch_session :: "int \<Rightarrow> uuid \<Rightarrow> session_db \<Rightarrow> session_db" where
  "touch_session now sid s =
     s\<lparr>sd_sessions := map (\<lambda>r. if as_id r = sid then r\<lparr>as_last_seen := now\<rparr> else r) (sd_sessions s)\<rparr>"

definition replace_token ::
  "auth_env \<Rightarrow> int \<Rightarrow> directory \<Rightarrow> key_ring \<Rightarrow> refresh_token \<Rightarrow> auth_session \<Rightarrow> membership \<Rightarrow> string \<Rightarrow> issued_tokens session_step_fun" where
  "replace_token env now dir ring t r m user_public =
     st_then (draw_token env) (\<lambda>refresh.
     st_then (draw_uuid env) (\<lambda>i.
     st_then (insert_refresh env (new_refresh_row env now (rt_session t) (rt_family t) refresh i)) (\<lambda>_.
     st_then (\<lambda>s. (touch_session now (rt_session t) (rotate_row now (rt_id t) i s), Inr ())) (\<lambda>_.
     st_then (mint_for env now ring (\<lambda>jti. session_claims env user_public (as_user r) (as_org r) (as_membership r) [mb_role m]
       (mb_policy_version m) (rt_session t) (rt_family t) jti (load_org_region dir (as_org r)))) (\<lambda>access.
     st_return (Inr \<lparr>it_access = access, it_refresh = refresh, it_expires_in = ACCESS_TOKEN_TTL_SECS,
       it_session = rt_session t, it_family = rt_family t\<rparr>))))))"

text \<open>
  Two branches commit before they return: the reuse of a rotated token, and a membership that is
  no longer active; every other error rolls back.
\<close>

definition rotate_refresh :: "auth_env \<Rightarrow> int \<Rightarrow> directory \<Rightarrow> key_ring \<Rightarrow> string \<Rightarrow> refresh_outcome session_step_fun" where
  "rotate_refresh env now dir ring presented s =
     (case find (\<lambda>t. rt_hash t = au_hash env presented) (sd_tokens s) of
        None \<Rightarrow> (s, Inl ''invalid refresh token'')
      | Some t \<Rightarrow>
          if rt_revoked t \<noteq> None \<or> rt_expires t < now then (s, Inl ''refresh token revoked or expired'')
          else if rt_rotated t \<noteq> None
          then (revoke_family now (rt_family t) ''refresh_reuse_detected'' s, Inr (ReuseDetected (rt_family t)))
          else
            (case find (\<lambda>r. as_id r = rt_session t) (sd_sessions s) of
               None \<Rightarrow> (s, Inl (au_db_error env ''row_not_found''))
             | Some r \<Rightarrow>
                 if as_revoked r \<noteq> None then (s, Inl ''session revoked'')
                 else
                   (case find (\<lambda>m. mb_id m = as_membership r \<and> mb_org m = as_org r) (di_members dir) of
                      None \<Rightarrow> (s, Inl (au_db_error env ''row_not_found''))
                    | Some m \<Rightarrow>
                        (case find (\<lambda>u. ui_id u = mb_user m) (di_users dir) of
                           None \<Rightarrow> (s, Inl (au_db_error env ''row_not_found''))
                         | Some u \<Rightarrow>
                             if mb_revoked m \<noteq> None \<or> mb_status m = ''revoked'' \<or> mb_status m = ''suspended''
                             then (revoke_family now (rt_family t) ''membership_revoked'' s, Inl ''membership revoked'')
                             else session_tx (st_then (replace_token env now dir ring t r m (ui_public_id u))
                               (\<lambda>issued. st_return (Inr (Issued issued)))) s))))"

text \<open>The session moves to another organisation of the user (\<open>switch_org\<close>).\<close>

definition move_session :: "int \<Rightarrow> uuid \<Rightarrow> uuid \<Rightarrow> uuid \<Rightarrow> uuid \<Rightarrow> session_db \<Rightarrow> session_db" where
  "move_session now sid user org membership s =
     s\<lparr>sd_sessions := map (\<lambda>r. if as_id r = sid \<and> as_user r = user
       then r\<lparr>as_org := org, as_membership := membership, as_last_seen := now\<rparr> else r) (sd_sessions s)\<rparr>"

section \<open>Checking an access token\<close>

record auth_user =
  xu_org :: uuid
  xu_actor :: actor
  xu_request_id :: string
  xu_roles :: "string list"
  xu_membership :: uuid
  xu_policy_version :: int
  xu_session :: uuid
  xu_family :: uuid
  xu_local_bypass :: bool
  xu_api_key_scopes :: "string list option"
  xu_api_key_id :: "string option"

definition claims_user :: "access_claims \<Rightarrow> string list \<Rightarrow> int \<Rightarrow> string \<Rightarrow> auth_user" where
  "claims_user c role_names policy_version rid =
     \<lparr>xu_org = ac_org c, xu_actor = actor_human (ac_user c), xu_request_id = rid, xu_roles = role_names,
      xu_membership = ac_membership c, xu_policy_version = policy_version, xu_session = ac_sid c, xu_family = ac_family c,
      xu_local_bypass = False, xu_api_key_scopes = (if is_api_key c then ac_scopes c else None), xu_api_key_id = ac_api_key_id c\<rparr>"

definition from_jwt :: "auth_env \<Rightarrow> int \<Rightarrow> key_ring \<Rightarrow> directory \<Rightarrow> session_db \<Rightarrow> string \<Rightarrow> string \<Rightarrow> app_error + auth_user" where
  "from_jwt env now ring dir s token rid =
     (let refuse = (\<lambda>d. Inl (app_error_new Unauthorized rid d)) in
      case verify_access_token (au_jwt env) now ring token of
        Inl e \<Rightarrow> refuse (''invalid access token: '' @ show_token_error e)
      | Inr c \<Rightarrow>
          (case find (\<lambda>m. mb_id m = ac_membership c \<and> mb_user m = ac_user c \<and> mb_org m = ac_org c) (di_members dir) of
             None \<Rightarrow> refuse (if is_api_key c then ''membership not found'' else ''membership or session not found'')
           | Some m \<Rightarrow>
               if is_api_key c then
                 (if mb_revoked m \<noteq> None \<or> mb_status m \<noteq> ''active'' then refuse ''membership not active''
                  else if mb_policy_version m \<noteq> ac_policy_version c
                  then refuse (''policy_version stale '' @ [char_of (226::nat), char_of (128::nat), char_of (148::nat)] @ '' re-issue API key token'')
                  else Inr (claims_user c [] (mb_policy_version m) rid))
               else
                 (case find (\<lambda>r. as_id r = ac_sid c) (sd_sessions s) of
                    None \<Rightarrow> refuse ''membership or session not found''
                  | Some r \<Rightarrow>
                      if mb_revoked m \<noteq> None \<or> mb_status m = ''revoked'' then refuse ''membership revoked''
                      else if mb_status m = ''suspended'' then refuse ''membership suspended''
                      else if as_revoked r \<noteq> None then refuse ''session revoked''
                      else if mb_policy_version m \<noteq> ac_policy_version c
                      then refuse (''policy_version stale '' @ [char_of (226::nat), char_of (128::nat), char_of (148::nat)] @ '' re-authenticate or switch-org'')
                      else Inr (claims_user c [mb_role m] (mb_policy_version m) rid))))"

section \<open>Steps of the session store\<close>

text \<open>
  What any sequence of requests does to the session store. A new session gets a family that no
  session has: the supply of UUIDs has not repeated itself there.
\<close>

inductive session_step :: "auth_env \<Rightarrow> session_db \<Rightarrow> session_db \<Rightarrow> bool" for env where
  create: "au_gen_uuid env (Suc (sd_draws s)) \<notin> as_family ` set (sd_sessions s) \<Longrightarrow>
    session_step env s (fst (session_tx (create_session_with_tokens env now dir ring user user_public org membership role_names
      policy_version device agent ip) s))"
| rotate: "session_step env s (fst (rotate_refresh env now dir ring presented s))"
| revoke: "session_step env s (revoke_family now family reason s)"
| move: "session_step env s (move_session now sid user org membership s)"
| draw: "session_step env s (s\<lparr>sd_draws := k\<rparr>)"

definition live :: "refresh_token \<Rightarrow> bool" where
  "live t \<longleftrightarrow> rt_rotated t = None \<and> rt_revoked t = None"

text \<open>
  Keys are unique, a token belongs to a session of its family, a family has at most one live token,
  and the tokens of a revoked session are revoked.
\<close>

definition sess_inv :: "session_db \<Rightarrow> bool" where
  "sess_inv s \<longleftrightarrow>
     distinct (map as_id (sd_sessions s)) \<and> distinct (map as_family (sd_sessions s)) \<and>
     distinct (map rt_id (sd_tokens s)) \<and> distinct (map rt_hash (sd_tokens s)) \<and>
     (\<forall>t \<in> set (sd_tokens s). \<exists>r \<in> set (sd_sessions s). as_id r = rt_session t \<and> as_family r = rt_family t) \<and>
     (\<forall>t \<in> set (sd_tokens s). \<forall>u \<in> set (sd_tokens s). rt_family t = rt_family u \<longrightarrow> live t \<longrightarrow> live u \<longrightarrow> t = u) \<and>
     (\<forall>r \<in> set (sd_sessions s). \<forall>t \<in> set (sd_tokens s). as_family r = rt_family t \<longrightarrow> as_revoked r \<noteq> None \<longrightarrow> rt_revoked t \<noteq> None)"

definition sess_init :: "session_db \<Rightarrow> bool" where
  "sess_init s \<longleftrightarrow> sd_sessions s = [] \<and> sd_tokens s = []"

lemma sess_invD:
  assumes "sess_inv s"
  shows "distinct (map as_id (sd_sessions s))" "distinct (map as_family (sd_sessions s))"
    "distinct (map rt_id (sd_tokens s))" "distinct (map rt_hash (sd_tokens s))"
    "t \<in> set (sd_tokens s) \<Longrightarrow> \<exists>r \<in> set (sd_sessions s). as_id r = rt_session t \<and> as_family r = rt_family t"
    "t \<in> set (sd_tokens s) \<Longrightarrow> u \<in> set (sd_tokens s) \<Longrightarrow> rt_family t = rt_family u \<Longrightarrow> live t \<Longrightarrow> live u \<Longrightarrow> t = u"
    "r \<in> set (sd_sessions s) \<Longrightarrow> t \<in> set (sd_tokens s) \<Longrightarrow> as_family r = rt_family t \<Longrightarrow> as_revoked r \<noteq> None \<Longrightarrow> rt_revoked t \<noteq> None"
  using assms unfolding sess_inv_def by blast+

text \<open>Changes of rows that keep the keys and never bring a token back to life keep the invariant.\<close>

lemma sess_inv_map:
  assumes "sess_inv s" "sd_sessions s' = map f (sd_sessions s)" "sd_tokens s' = map g (sd_tokens s)"
    and f: "\<And>r. as_id (f r) = as_id r \<and> as_family (f r) = as_family r"
    and g: "\<And>t. rt_id (g t) = rt_id t \<and> rt_family (g t) = rt_family t \<and> rt_session (g t) = rt_session t \<and> rt_hash (g t) = rt_hash t"
    and alive: "\<And>t. live (g t) \<Longrightarrow> live t"
    and dead: "\<And>r t. as_family r = rt_family t \<Longrightarrow> as_revoked (f r) \<noteq> None \<Longrightarrow> (as_revoked r \<noteq> None \<Longrightarrow> rt_revoked t \<noteq> None) \<Longrightarrow>
      rt_revoked (g t) \<noteq> None"
  shows "sess_inv s'"
proof -
  note inv = sess_invD [OF assms(1)]
  have "map as_id (sd_sessions s') = map as_id (sd_sessions s)" "map as_family (sd_sessions s') = map as_family (sd_sessions s)"
    "map rt_id (sd_tokens s') = map rt_id (sd_tokens s)" "map rt_hash (sd_tokens s') = map rt_hash (sd_tokens s)"
    using assms(2,3) f g by simp_all
  moreover have "\<exists>r \<in> set (sd_sessions s'). as_id r = rt_session t \<and> as_family r = rt_family t" if "t \<in> set (sd_tokens s')" for t
    using that inv(5) f g unfolding assms(2,3) by fastforce
  moreover have "t = u" if "t \<in> set (sd_tokens s')" "u \<in> set (sd_tokens s')" "rt_family t = rt_family u" "live t" "live u" for t u
  proof -
    from that obtain t0 u0 where *: "t0 \<in> set (sd_tokens s)" "u0 \<in> set (sd_tokens s)" "t = g t0" "u = g u0" unfolding assms(3) by auto
    then have "t0 = u0" using that g alive by (intro inv(6)) auto
    with * show ?thesis by simp
  qed
  moreover have "rt_revoked t \<noteq> None" if "r \<in> set (sd_sessions s')" "t \<in> set (sd_tokens s')" "as_family r = rt_family t" "as_revoked r \<noteq> None" for r t
  proof -
    from that obtain r0 t0 where *: "r0 \<in> set (sd_sessions s)" "t0 \<in> set (sd_tokens s)" "r = f r0" "t = g t0" unfolding assms(2,3) by auto
    then show ?thesis using that f g inv(7) [of r0 t0] dead [of r0 t0] by simp
  qed
  ultimately show ?thesis using inv(1-4) unfolding sess_inv_def by simp
qed

lemma sess_inv_add_token:
  assumes "sess_inv s" "sd_sessions s' = sd_sessions s" "sd_tokens s' = sd_tokens s @ [n]"
    and "\<not> list_ex (\<lambda>t. rt_id t = rt_id n \<or> rt_hash t = rt_hash n) (sd_tokens s)"
    and r: "r \<in> set (sd_sessions s)" "as_id r = rt_session n" "as_family r = rt_family n" "as_revoked r = None"
    and dead: "\<And>t. t \<in> set (sd_tokens s) \<Longrightarrow> rt_family t = rt_family n \<Longrightarrow> \<not> live t"
  shows "sess_inv s'"
proof -
  note inv = sess_invD [OF assms(1)]
  have "rt_revoked t \<noteq> None" if "r' \<in> set (sd_sessions s)" "t \<in> set (sd_tokens s')" "as_family r' = rt_family t" "as_revoked r' \<noteq> None" for r' t
  proof (cases "t = n")
    case True
    with that r have "r' = r" using keyed [OF inv(2)] by metis
    with that r show ?thesis by simp
  next
    case False
    with that show ?thesis using inv(7) unfolding assms(3) by auto
  qed
  moreover have "t = u" if "t \<in> set (sd_tokens s')" "u \<in> set (sd_tokens s')" "rt_family t = rt_family u" "live t" "live u" for t u
    using that inv(6) dead unfolding assms(3) by (auto; metis)
  moreover have "\<exists>r \<in> set (sd_sessions s). as_id r = rt_session t \<and> as_family r = rt_family t" if "t \<in> set (sd_tokens s')" for t
    using that inv(5) r unfolding assms(3) by auto
  moreover have "distinct (map rt_id (sd_tokens s'))" "distinct (map rt_hash (sd_tokens s'))"
    using inv(3,4) assms(4) unfolding assms(3) by (auto simp: list_ex_iff)
  ultimately show ?thesis using inv(1,2) unfolding sess_inv_def assms(2) by blast
qed

lemma sess_inv_add_session:
  assumes "sess_inv s" "sd_sessions s' = sd_sessions s @ [r]" "sd_tokens s' = sd_tokens s"
    and "\<not> list_ex (\<lambda>q. as_id q = as_id r) (sd_sessions s)" "as_family r \<notin> as_family ` set (sd_sessions s)"
  shows "sess_inv s'"
proof -
  note inv = sess_invD [OF assms(1)]
  have "as_family r \<noteq> rt_family t" if "t \<in> set (sd_tokens s)" for t using inv(5) [OF that] assms(5) by force
  then show ?thesis using inv assms(4,5) unfolding sess_inv_def assms(2,3) by (auto simp: list_ex_iff)
qed

section \<open>What the operations do\<close>

lemma session_tx_Inr: "session_tx m s = (s', Inr x) \<longleftrightarrow> m s = (s', Inr x)"
  by (auto simp: session_tx_def split: prod.splits sum.splits)

lemma session_tx_Inl: "snd (session_tx m s) = Inl e \<Longrightarrow> \<exists>k. fst (session_tx m s) = s\<lparr>sd_draws := k\<rparr>"
  by (auto simp: session_tx_def split: prod.splits sum.splits)

lemma draws_Inr:
  "draw_uuid env s = (s', Inr i) \<longleftrightarrow> s' = s\<lparr>sd_draws := Suc (sd_draws s)\<rparr> \<and> i = au_gen_uuid env (sd_draws s)"
  "draw_token env s = (s', Inr k) \<longleftrightarrow> s' = s\<lparr>sd_draws := Suc (sd_draws s)\<rparr> \<and> k = au_gen_token env (sd_draws s)"
  by (auto simp: draw_uuid_def draw_token_def)

lemma mint_for_Inr: "mint_for env now ring claims s = (s', Inr a) \<Longrightarrow> s' = s\<lparr>sd_draws := Suc (sd_draws s)\<rparr>"
  by (auto simp: mint_for_def st_then_Inr draws_Inr st_return_Inr)

lemma insert_refresh_Inr:
  "insert_refresh env row s = (s', Inr u) \<longleftrightarrow> \<not> list_ex (\<lambda>r. rt_id r = rt_id row \<or> rt_hash r = rt_hash row) (sd_tokens s) \<and>
     list_ex (\<lambda>r. as_id r = rt_session row) (sd_sessions s) \<and> s' = s\<lparr>sd_tokens := sd_tokens s @ [row]\<rparr>"
  by (auto simp: insert_refresh_def split: if_splits)

lemma insert_session_Inr:
  "insert_session env dir row s = (s', Inr u) \<Longrightarrow> \<not> list_ex (\<lambda>r. as_id r = as_id row) (sd_sessions s) \<and>
     s' = s\<lparr>sd_sessions := sd_sessions s @ [row]\<rparr>"
  by (auto simp: insert_session_def split: if_splits)

lemmas session_simps = st_then_Inr st_return_Inr session_tx_Inr draws_Inr

text \<open>A new session: one session row and one token row, both live, in a family of their own.\<close>

lemma create_session_Inr:
  assumes "create_session_with_tokens env now dir ring user user_public org membership role_names policy_version device agent ip s =
    (s', Inr issued)"
  obtains r n where "sd_sessions s' = sd_sessions s @ [r]" "sd_tokens s' = sd_tokens s @ [n]"
    "\<not> list_ex (\<lambda>q. as_id q = as_id r) (sd_sessions s)"
    "\<not> list_ex (\<lambda>t. rt_id t = rt_id n \<or> rt_hash t = rt_hash n) (sd_tokens s)"
    "as_id r = it_session issued" "as_family r = it_family issued" "as_user r = user" "as_org r = org"
    "as_membership r = membership" "as_revoked r = None" "as_family r = au_gen_uuid env (Suc (sd_draws s))"
    "rt_session n = as_id r" "rt_family n = as_family r" "rt_hash n = au_hash env (it_refresh issued)" "live n"
    "rt_expires n = now + REFRESH_TOKEN_TTL_SECS"
  using assms unfolding create_session_with_tokens_def issue_refresh_and_access_def session_simps
  by (fastforce dest!: insert_session_Inr mint_for_Inr simp: insert_refresh_Inr new_refresh_row_def live_def)

lemma replace_token_Inr:
  assumes "replace_token env now dir ring t r m user_public s = (s', Inr issued)" "t \<in> set (sd_tokens s)"
  obtains n where "sd_sessions s' = map (\<lambda>r. if as_id r = rt_session t then r\<lparr>as_last_seen := now\<rparr> else r) (sd_sessions s)"
    "sd_tokens s' = map (\<lambda>u. if rt_id u = rt_id t then u\<lparr>rt_rotated := Some now, rt_replaced_by := Some (rt_id n)\<rparr> else u)
      (sd_tokens s) @ [n]"
    "\<not> list_ex (\<lambda>t. rt_id t = rt_id n \<or> rt_hash t = rt_hash n) (sd_tokens s)"
    "rt_session n = rt_session t" "rt_family n = rt_family t" "rt_hash n = au_hash env (it_refresh issued)" "live n"
    "it_family issued = rt_family t" "it_session issued = rt_session t"
proof -
  define n where "n = new_refresh_row env now (rt_session t) (rt_family t) (au_gen_token env (sd_draws s)) (au_gen_uuid env (Suc (sd_draws s)))"
  have n: "rt_session n = rt_session t" "rt_family n = rt_family t" "live n" "rt_hash n = au_hash env (au_gen_token env (sd_draws s))"
    "rt_id n = au_gen_uuid env (Suc (sd_draws s))"
    by (simp_all add: n_def new_refresh_row_def live_def)
  from assms show thesis unfolding replace_token_def session_simps n_def [symmetric]
    by (intro that [of n]) (auto dest!: mint_for_Inr simp: insert_refresh_Inr touch_session_def rotate_row_def n list_ex_iff n_def [symmetric])
qed

definition rotation_found ::
  "auth_env \<Rightarrow> int \<Rightarrow> directory \<Rightarrow> string \<Rightarrow> session_db \<Rightarrow> refresh_token \<Rightarrow> auth_session \<Rightarrow> membership \<Rightarrow> bool" where
  "rotation_found env now dir presented s t r m \<longleftrightarrow>
     t \<in> set (sd_tokens s) \<and> rt_hash t = au_hash env presented \<and> live t \<and> now \<le> rt_expires t \<and>
     r \<in> set (sd_sessions s) \<and> as_id r = rt_session t \<and> as_revoked r = None \<and>
     m \<in> set (di_members dir) \<and> mb_id m = as_membership r \<and> mb_org m = as_org r \<and> mb_revoked m = None"

lemma rotate_refresh_reads:
  assumes "rotate_refresh env now dir ring presented s = (s', res)"
  shows "s' = s \<and> (\<exists>e. res = Inl e) \<or>
    (\<exists>t reason. t \<in> set (sd_tokens s) \<and> rt_hash t = au_hash env presented \<and> s' = revoke_family now (rt_family t) reason s \<and>
      (rt_rotated t \<noteq> None \<and> res = Inr (ReuseDetected (rt_family t)) \<or> (\<exists>e. res = Inl e))) \<or>
    (\<exists>t r m u. rotation_found env now dir presented s t r m \<and>
      session_tx (st_then (replace_token env now dir ring t r m u) (\<lambda>issued. st_return (Inr (Issued issued)))) s = (s', res))"
  using assms unfolding rotate_refresh_def
  by (auto simp: rotation_found_def live_def not_less split: option.splits if_splits dest!: find_SomeD) (metis option.distinct(1))+

lemma rotate_refresh_cases [consumes 1, case_names same revoked issued]:
  assumes "rotate_refresh env now dir ring presented s = (s', res)"
  obtains k e where "s' = s\<lparr>sd_draws := k\<rparr>" "res = Inl e"
  | t reason where "t \<in> set (sd_tokens s)" "rt_hash t = au_hash env presented" "s' = revoke_family now (rt_family t) reason s"
      "rt_rotated t \<noteq> None \<and> res = Inr (ReuseDetected (rt_family t)) \<or> (\<exists>e. res = Inl e)"
  | t r m user_public issued where "t \<in> set (sd_tokens s)" "rt_hash t = au_hash env presented" "live t" "now \<le> rt_expires t"
      "r \<in> set (sd_sessions s)" "as_id r = rt_session t" "as_revoked r = None"
      "m \<in> set (di_members dir)" "mb_id m = as_membership r" "mb_org m = as_org r" "mb_revoked m = None"
      "replace_token env now dir ring t r m user_public s = (s', Inr issued)" "res = Inr (Issued issued)"
proof -
  from rotate_refresh_reads [OF assms] consider "s' = s" "\<exists>e. res = Inl e"
    | t reason where "t \<in> set (sd_tokens s)" "rt_hash t = au_hash env presented" "s' = revoke_family now (rt_family t) reason s"
      "rt_rotated t \<noteq> None \<and> res = Inr (ReuseDetected (rt_family t)) \<or> (\<exists>e. res = Inl e)"
    | t r m u where "rotation_found env now dir presented s t r m"
      "session_tx (st_then (replace_token env now dir ring t r m u) (\<lambda>issued. st_return (Inr (Issued issued)))) s = (s', res)"
    by blast
  then show thesis
  proof cases
    case 1
    then show thesis using that(1) [of "sd_draws s"] by auto
  next
    case 2
    then show thesis by (rule that(2))
  next
    case 3
    show thesis
    proof (cases res)
      case (Inl e)
      with 3(2) session_tx_Inl [of _ s e] that(1) show thesis by (metis fst_conv snd_conv)
    next
      case (Inr x)
      with 3(2) obtain issued where "replace_token env now dir ring t r m u s = (s', Inr issued)" "res = Inr (Issued issued)"
        by (auto simp: session_tx_Inr st_then_Inr st_return_Inr)
      with that(3) [of t r m] 3(1) show thesis by (auto simp: rotation_found_def)
    qed
  qed
qed

lemma revoke_family_inv: "sess_inv s \<Longrightarrow> sess_inv (revoke_family now family reason s)"
  by (rule sess_inv_map [where f = "\<lambda>r. if as_family r = family \<and> as_revoked r = None
        then r\<lparr>as_revoked := Some now, as_revoke_reason := Some reason\<rparr> else r"
        and g = "\<lambda>t. if rt_family t = family \<and> rt_revoked t = None then t\<lparr>rt_revoked := Some now\<rparr> else t"], assumption)
    (auto simp: revoke_family_def live_def split: if_splits)

lemma move_session_inv: "sess_inv s \<Longrightarrow> sess_inv (move_session now sid user org membership s)"
  by (rule sess_inv_map [where g = "\<lambda>t. t" and f = "\<lambda>r. if as_id r = sid \<and> as_user r = user
        then r\<lparr>as_org := org, as_membership := membership, as_last_seen := now\<rparr> else r"], assumption)
    (auto simp: move_session_def split: if_splits)

lemma draws_inv: "sess_inv (s\<lparr>sd_draws := k\<rparr>) \<longleftrightarrow> sess_inv s"
  by (simp add: sess_inv_def)

lemma create_session_inv:
  assumes "sess_inv s" "au_gen_uuid env (Suc (sd_draws s)) \<notin> as_family ` set (sd_sessions s)"
    "create_session_with_tokens env now dir ring user user_public org membership role_names policy_version device agent ip s =
      (s', Inr issued)"
  shows "sess_inv s'"
proof -
  obtain r n where
    s': "sd_sessions s' = sd_sessions s @ [r]" "sd_tokens s' = sd_tokens s @ [n]"
    and new: "\<not> list_ex (\<lambda>q. as_id q = as_id r) (sd_sessions s)"
      "\<not> list_ex (\<lambda>t. rt_id t = rt_id n \<or> rt_hash t = rt_hash n) (sd_tokens s)"
    and r: "as_revoked r = None" "as_family r = au_gen_uuid env (Suc (sd_draws s))" "rt_session n = as_id r" "rt_family n = as_family r"
    by (rule create_session_Inr [OF assms(3)], rule that, assumption+)
  let ?s1 = "s\<lparr>sd_sessions := sd_sessions s @ [r]\<rparr>"
  have "sess_inv ?s1" using assms(1,2) new(1) r(2) by (intro sess_inv_add_session [of s ?s1 r]) simp_all
  moreover have "\<not> live t" if "t \<in> set (sd_tokens s)" "rt_family t = rt_family n" for t
    using sess_invD(5) [OF assms(1) that(1)] that(2) assms(2) r by force
  ultimately show ?thesis using s' new r by (intro sess_inv_add_token [of ?s1 s' n r]) auto
qed

lemma rotate_refresh_inv:
  assumes "sess_inv s" "rotate_refresh env now dir ring presented s = (s', res)"
  shows "sess_inv s'"
  using assms(2)
proof (cases rule: rotate_refresh_cases)
  case (issued t r m user_public i)
  let ?f = "\<lambda>q. if as_id q = rt_session t then q\<lparr>as_last_seen := now\<rparr> else q"
  obtain n where
    s': "sd_sessions s' = map ?f (sd_sessions s)"
      "sd_tokens s' = map (\<lambda>u. if rt_id u = rt_id t then u\<lparr>rt_rotated := Some now, rt_replaced_by := Some (rt_id n)\<rparr> else u) (sd_tokens s) @ [n]"
    and n: "\<not> list_ex (\<lambda>t. rt_id t = rt_id n \<or> rt_hash t = rt_hash n) (sd_tokens s)" "rt_session n = rt_session t" "rt_family n = rt_family t"
    by (rule replace_token_Inr [OF issued(12,1)], rule that, assumption+)
  let ?g = "\<lambda>u. if rt_id u = rt_id t then u\<lparr>rt_rotated := Some now, rt_replaced_by := Some (rt_id n)\<rparr> else u"
  define s1 where "s1 = s\<lparr>sd_sessions := map ?f (sd_sessions s), sd_tokens := map ?g (sd_tokens s)\<rparr>"
  have "sess_inv s1" by (rule sess_inv_map [OF assms(1), of s1 ?f ?g]) (auto simp: s1_def live_def split: if_splits)
  moreover have "as_family r = rt_family t"
    using sess_invD(5) [OF assms(1) issued(1)] issued(5,6) keyed [OF sess_invD(1) [OF assms(1)]] by metis
  moreover have "\<not> live u" if u: "u \<in> set (sd_tokens s1)" "rt_family u = rt_family n" for u
  proof
    assume "live u"
    with u obtain u0 where "u0 \<in> set (sd_tokens s)" "u = u0" "rt_id u0 \<noteq> rt_id t" by (auto simp: s1_def live_def split: if_splits)
    with sess_invD(6) [OF assms(1), of u0 t] u n(3) issued(1,3) \<open>live u\<close> show False by auto
  qed
  ultimately show ?thesis
    using s' n issued(5,6,7) by (intro sess_inv_add_token [of s1 s' n "?f r"]) (auto simp: s1_def list_ex_iff)
qed (auto simp: draws_inv assms(1) revoke_family_inv)

lemma session_step_inv: "sess_inv s \<Longrightarrow> session_step env s s' \<Longrightarrow> sess_inv s'"
proof -
  assume inv: "sess_inv s"
  have tx: "sess_inv (fst (session_tx m s))" if "\<And>s' x. m s = (s', Inr x) \<Longrightarrow> sess_inv s'" for m :: "'a session_step_fun"
    using that inv by (auto simp: session_tx_def draws_inv split: prod.split sum.split)
  assume "session_step env s s'"
  then show "sess_inv s'"
  proof cases
    case (create now dir ring user user_public org membership role_names policy_version device agent ip)
    then show ?thesis using create_session_inv [OF inv] by (auto intro!: tx)
  next
    case (rotate now dir ring presented)
    then show ?thesis using rotate_refresh_inv [OF inv] by (metis prod.collapse)
  qed (use inv in \<open>simp_all add: revoke_family_inv move_session_inv draws_inv\<close>)
qed

interpretation sessions: transition_system sess_init "session_step env" sess_inv for env
  by unfold_locales (simp add: sess_init_def sess_inv_def, rule session_step_inv)

section \<open>Nothing comes back\<close>

text \<open>Rows are never deleted, and a rotated or revoked row stays so.\<close>

definition rows_kept :: "session_db \<Rightarrow> session_db \<Rightarrow> bool" where
  "rows_kept s s' \<longleftrightarrow>
     (\<forall>t \<in> set (sd_tokens s). \<exists>t' \<in> set (sd_tokens s'). rt_hash t' = rt_hash t \<and> rt_family t' = rt_family t \<and>
        (rt_rotated t \<noteq> None \<longrightarrow> rt_rotated t' \<noteq> None) \<and> (rt_revoked t \<noteq> None \<longrightarrow> rt_revoked t' \<noteq> None)) \<and>
     (\<forall>r \<in> set (sd_sessions s). \<exists>r' \<in> set (sd_sessions s'). as_id r' = as_id r \<and> as_family r' = as_family r \<and>
        (as_revoked r \<noteq> None \<longrightarrow> as_revoked r' \<noteq> None))"

lemma rows_kept_trans: "rows_kept s s' \<Longrightarrow> rows_kept s' s'' \<Longrightarrow> rows_kept s s''"
  unfolding rows_kept_def by (intro conjI ballI) (metis (no_types, lifting))+

lemma rows_kept_map:
  assumes "set (sd_sessions s') \<supseteq> f ` set (sd_sessions s)" "set (sd_tokens s') \<supseteq> g ` set (sd_tokens s)"
    and "\<And>r. as_id (f r) = as_id r \<and> as_family (f r) = as_family r \<and> (as_revoked r \<noteq> None \<longrightarrow> as_revoked (f r) \<noteq> None)"
    and "\<And>t. rt_hash (g t) = rt_hash t \<and> rt_family (g t) = rt_family t \<and> (rt_rotated t \<noteq> None \<longrightarrow> rt_rotated (g t) \<noteq> None) \<and>
      (rt_revoked t \<noteq> None \<longrightarrow> rt_revoked (g t) \<noteq> None)"
  shows "rows_kept s s'"
  unfolding rows_kept_def
proof (intro conjI ballI)
  fix t assume "t \<in> set (sd_tokens s)"
  then show "\<exists>t' \<in> set (sd_tokens s'). rt_hash t' = rt_hash t \<and> rt_family t' = rt_family t \<and>
        (rt_rotated t \<noteq> None \<longrightarrow> rt_rotated t' \<noteq> None) \<and> (rt_revoked t \<noteq> None \<longrightarrow> rt_revoked t' \<noteq> None)"
    using assms(2,4) by (intro bexI [of _ "g t"]) auto
next
  fix r assume "r \<in> set (sd_sessions s)"
  then show "\<exists>r' \<in> set (sd_sessions s'). as_id r' = as_id r \<and> as_family r' = as_family r \<and>
        (as_revoked r \<noteq> None \<longrightarrow> as_revoked r' \<noteq> None)"
    using assms(1,3) by (intro bexI [of _ "f r"]) auto
qed

lemma revoke_family_kept: "rows_kept s (revoke_family now family reason s)"
  by (rule rows_kept_map [where f = "\<lambda>r. if as_family r = family \<and> as_revoked r = None
        then r\<lparr>as_revoked := Some now, as_revoke_reason := Some reason\<rparr> else r"
        and g = "\<lambda>t. if rt_family t = family \<and> rt_revoked t = None then t\<lparr>rt_revoked := Some now\<rparr> else t"])
    (auto simp: revoke_family_def)

lemma rows_kept_same: "sd_sessions s' = sd_sessions s \<Longrightarrow> sd_tokens s' = sd_tokens s \<Longrightarrow> rows_kept s s'"
  by (rule rows_kept_map [where f = "\<lambda>r. r" and g = "\<lambda>t. t"]) auto

lemma rotate_refresh_kept:
  assumes "rotate_refresh env now dir ring presented s = (s', res)"
  shows "rows_kept s s'"
  using assms
proof (cases rule: rotate_refresh_cases)
  case (issued t r m user_public i)
  obtain n where
    s': "sd_sessions s' = map (\<lambda>q. if as_id q = rt_session t then q\<lparr>as_last_seen := now\<rparr> else q) (sd_sessions s)"
      "sd_tokens s' = map (\<lambda>u. if rt_id u = rt_id t then u\<lparr>rt_rotated := Some now, rt_replaced_by := Some (rt_id n)\<rparr> else u) (sd_tokens s) @ [n]"
    by (rule replace_token_Inr [OF issued(12,1)], rule that, assumption+)
  show ?thesis
    by (rule rows_kept_map [where f = "\<lambda>q. if as_id q = rt_session t then q\<lparr>as_last_seen := now\<rparr> else q"
          and g = "\<lambda>u. if rt_id u = rt_id t then u\<lparr>rt_rotated := Some now, rt_replaced_by := Some (rt_id n)\<rparr> else u"])
      (auto simp: s')
qed (auto simp: rows_kept_same revoke_family_kept)

lemma session_step_kept:
  assumes "session_step env s s'"
  shows "rows_kept s s'"
  using assms
proof cases
  case (create now dir ring user user_public org membership role_names policy_version device agent ip)
  let ?m = "create_session_with_tokens env now dir ring user user_public org membership role_names policy_version device agent ip"
  have "rows_kept s v" if "?m s = (v, Inr x)" for v x
    by (rule create_session_Inr [OF that]) (rule rows_kept_map [where f = "\<lambda>r. r" and g = "\<lambda>t. t"], auto)
  then show ?thesis
    using create(1) by (auto simp: session_tx_def rows_kept_same split: prod.split sum.split)
next
  case (rotate now dir ring presented)
  then show ?thesis using rotate_refresh_kept by (metis prod.collapse)
next
  case (move now sid user org membership)
  show ?thesis unfolding move(1)
    by (rule rows_kept_map [where g = "\<lambda>t. t" and f = "\<lambda>r. if as_id r = sid \<and> as_user r = user
          then r\<lparr>as_org := org, as_membership := membership, as_last_seen := now\<rparr> else r"])
      (auto simp: move_session_def)
qed (auto simp: rows_kept_same revoke_family_kept)

lemma session_steps_kept: "(session_step env)\<^sup>*\<^sup>* s s' \<Longrightarrow> rows_kept s s'"
  by (induction rule: rtranclp_induct) (auto intro: rows_kept_same rows_kept_trans session_step_kept)


lemma issued_not_revoked:
  assumes "sess_inv s" "rotate_refresh env now dir ring presented s = (s', Inr (Issued i))" "r \<in> set (sd_sessions s)" "as_family r = it_family i"
  shows "as_revoked r = None"
  using assms(2)
proof (cases rule: rotate_refresh_cases)
  case (issued t q m user_public j)
  have "it_family j = rt_family t" by (rule replace_token_Inr [OF issued(12,1)])
  with issued(13) assms(4) have "as_family r = rt_family t" by simp
  then show ?thesis using sess_invD(7) [OF assms(1,3) issued(1)] issued(3) by (cases "as_revoked r") (auto simp: live_def)
qed simp_all

lemma revoked_refused:
  assumes "sess_inv s" "r \<in> set (sd_sessions s)" "as_id r = ac_sid c" "as_revoked r \<noteq> None"
    and "verify_access_token (au_jwt env) now ring token = Inr c" "\<not> is_api_key c"
  shows "\<exists>e. from_jwt env now ring dir s token rid = Inl e"
proof -
  have "find (\<lambda>q. as_id q = ac_sid c) (sd_sessions s) = Some r"
    using find_by_key [OF sess_invD(1) [OF assms(1)] assms(2)] assms(3) by simp
  with assms(4-6) show ?thesis by (auto simp: from_jwt_def Let_def split: option.split)
qed

lemma revoked_family_final:
  assumes "sess_inv s" "r \<in> set (sd_sessions s)" "as_revoked r \<noteq> None" "(session_step env)\<^sup>*\<^sup>* s s2"
  shows "rotate_refresh env now dir ring presented s2 = (s3, Inr (Issued i)) \<Longrightarrow> it_family i \<noteq> as_family r"
    and "verify_access_token (au_jwt env) now ring token = Inr c \<Longrightarrow> \<not> is_api_key c \<Longrightarrow> ac_sid c = as_id r \<Longrightarrow>
      \<exists>e. from_jwt env now ring dir s2 token rid = Inl e"
proof -
  have inv: "sess_inv s2" by (rule sessions.steps_inv [OF assms(4,1)])
  obtain r2 where r2: "r2 \<in> set (sd_sessions s2)" "as_id r2 = as_id r" "as_family r2 = as_family r" "as_revoked r2 \<noteq> None"
    using session_steps_kept [OF assms(4)] assms(2,3) unfolding rows_kept_def by metis
  show "rotate_refresh env now dir ring presented s2 = (s3, Inr (Issued i)) \<Longrightarrow> it_family i \<noteq> as_family r"
    using issued_not_revoked [OF inv _ r2(1)] r2 by metis
  show "verify_access_token (au_jwt env) now ring token = Inr c \<Longrightarrow> \<not> is_api_key c \<Longrightarrow> ac_sid c = as_id r \<Longrightarrow>
      \<exists>e. from_jwt env now ring dir s2 token rid = Inl e"
    using revoked_refused [OF inv r2(1), of c env now ring token dir rid] r2 by simp
qed

text \<open>
  C16: Using a refresh token twice ends the login for good. When a token that was rotated, and has
  neither expired nor been revoked, is presented again, the reuse is detected and every token of its
  family is revoked; after any further sequence of requests no refresh token of the family gives
  new tokens, and \<open>from_jwt\<close> refuses every access token of the family's session.
\<close>

theorem reuse_kills_family:
  assumes "sess_init s0" "(session_step env)\<^sup>*\<^sup>* s0 s"
    and "t \<in> set (sd_tokens s)" "rt_hash t = au_hash env presented" "rt_rotated t \<noteq> None" "rt_revoked t = None" "now \<le> rt_expires t"
    and "rotate_refresh env now dir ring presented s = (s1, res)" "(session_step env)\<^sup>*\<^sup>* s1 s2"
  shows "res = Inr (ReuseDetected (rt_family t)) \<and>
    (\<forall>u \<in> set (sd_tokens s1). rt_family u = rt_family t \<longrightarrow> rt_revoked u \<noteq> None) \<and>
    \<not> (\<exists>now' dir' ring' presented' s3 i. rotate_refresh env now' dir' ring' presented' s2 = (s3, Inr (Issued i)) \<and> it_family i = rt_family t) \<and>
    (\<exists>r \<in> set (sd_sessions s). as_family r = rt_family t \<and> (\<forall>now' ring' dir' token rid c. verify_access_token (au_jwt env) now' ring' token = Inr c \<longrightarrow>
      \<not> is_api_key c \<longrightarrow> ac_sid c = as_id r \<longrightarrow> (\<exists>e. from_jwt env now' ring' dir' s2 token rid = Inl e)))"
proof -
  let ?fam = "rt_family t" and ?reason = "''refresh_reuse_detected''"
  have inv: "sess_inv s" by (rule sessions.reachable_inv [OF assms(1,2)])
  have "find (\<lambda>u. rt_hash u = au_hash env presented) (sd_tokens s) = Some t"
    using find_by_key [OF sess_invD(4) [OF inv] assms(3)] assms(4) by simp
  then have s1: "s1 = revoke_family now ?fam ?reason s" and res: "res = Inr (ReuseDetected ?fam)"
    using assms(5-8) by (auto simp: rotate_refresh_def)
  from sess_invD(5) [OF inv assms(3)] obtain r where r: "r \<in> set (sd_sessions s)" "as_family r = ?fam" by auto
  define r1 where "r1 = (if as_revoked r = None then r\<lparr>as_revoked := Some now, as_revoke_reason := Some ?reason\<rparr> else r)"
  have "r1 \<in> set (sd_sessions s1)" using r unfolding s1 by (auto simp: revoke_family_def r1_def)
  moreover have "as_revoked r1 \<noteq> None" "as_family r1 = ?fam" "as_id r1 = as_id r" using r by (auto simp: r1_def)
  moreover have "sess_inv s1" using inv s1 by (simp add: revoke_family_inv)
  ultimately have final: "rotate_refresh env now' dir' ring' presented' s2 = (s3, Inr (Issued i)) \<Longrightarrow> it_family i \<noteq> ?fam"
      "verify_access_token (au_jwt env) now' ring' token = Inr c \<Longrightarrow> \<not> is_api_key c \<Longrightarrow> ac_sid c = as_id r \<Longrightarrow>
        \<exists>e. from_jwt env now' ring' dir' s2 token rid = Inl e" for now' dir' ring' presented' s3 i token c rid
    using revoked_family_final [OF _ _ _ assms(9), of r1] by metis+
  have "\<forall>u \<in> set (sd_tokens s1). rt_family u = ?fam \<longrightarrow> rt_revoked u \<noteq> None"
    unfolding s1 by (auto simp: revoke_family_def)
  then show ?thesis using res r final by blast
qed

text \<open>
  A refresh token works once. After it has been exchanged, no later call exchanges it again,
  whatever happens in between: it is refused, or taken as reuse.
\<close>

theorem refresh_token_single_use:
  assumes "sess_init s0" "(session_step env)\<^sup>*\<^sup>* s0 s" "rotate_refresh env now dir ring presented s = (s1, Inr (Issued i))"
    and "(session_step env)\<^sup>*\<^sup>* s1 s2" "rotate_refresh env now' dir' ring' presented s2 = (s3, res)"
  shows "(\<exists>e. res = Inl e) \<or> res = Inr (ReuseDetected (it_family i))"
proof -
  have inv: "sess_inv s" by (rule sessions.reachable_inv [OF assms(1,2)])
  have inv2: "sess_inv s2"
    using sessions.steps_inv [OF assms(4)] rotate_refresh_inv [OF inv assms(3)] by blast
  from assms(3) obtain t1 where t1: "t1 \<in> set (sd_tokens s1)" "rt_hash t1 = au_hash env presented" "rt_rotated t1 \<noteq> None" "rt_family t1 = it_family i"
  proof (cases rule: rotate_refresh_cases)
    case (issued t r m user_public j)
    obtain n where "sd_tokens s1 = map (\<lambda>u. if rt_id u = rt_id t then u\<lparr>rt_rotated := Some now, rt_replaced_by := Some (rt_id n)\<rparr> else u) (sd_tokens s) @ [n]"
      "it_family j = rt_family t"
      by (rule replace_token_Inr [OF issued(12,1)], rule that, assumption+)
    with issued(1,2,13) show ?thesis
      by (intro that [of "t\<lparr>rt_rotated := Some now, rt_replaced_by := Some (rt_id n)\<rparr>"]) (auto simp: image_iff intro!: bexI [of _ t])
  qed simp_all
  then obtain t2 where t2: "t2 \<in> set (sd_tokens s2)" "rt_hash t2 = au_hash env presented" "rt_rotated t2 \<noteq> None" "rt_family t2 = it_family i"
    using session_steps_kept [OF assms(4)] unfolding rows_kept_def by metis
  have same: "t = t2" if "t \<in> set (sd_tokens s2)" "rt_hash t = au_hash env presented" for t
    using keyed [OF sess_invD(4) [OF inv2] that(1) t2(1)] that(2) t2(2) by simp
  from assms(5) show ?thesis
  proof (cases rule: rotate_refresh_cases)
    case (revoked t reason)
    then show ?thesis using same [of t] t2 by auto
  next
    case (issued t r m user_public j)
    then show ?thesis using same [of t] t2 by (auto simp: live_def)
  qed simp
qed

section \<open>Examples\<close>

text \<open>One user logs in, refreshes, and then somebody presents the first refresh token again.\<close>

definition demo_auth_env :: auth_env where
  "demo_auth_env = \<lparr>au_jwt = demo_jwt\<lparr>jl_encode := (\<lambda>kid secret claims. Inr kid)\<rparr>, au_gen_uuid = (\<lambda>k. of_nat (min k 900)),
     au_gen_token = show_nat, au_hash = (\<lambda>t. t), au_show_uuid = bits_of_uuid, au_parse_uuid = uuid_of_bits,
     au_db_error = (\<lambda>what. what)\<rparr>"

definition demo_user :: user_identity where
  "demo_user = \<lparr>ui_id = 3, ui_public_id = ''usr_3'', ui_email = ''a@b'', ui_email_normalized = ''a@b'', ui_verified = Some 0,
     ui_password_hash = Some ''h'', ui_password_salt = Some ''s'', ui_totp_secret = None, ui_mfa_enabled = None, ui_failed_count = 0,
     ui_locked_until = None\<rparr>"

definition demo_directory :: directory where
  "demo_directory = \<lparr>di_users = [demo_user], di_orgs = [\<lparr>og_id = 1, og_public_id = ''org_1'', og_region = ''us''\<rparr>],
     di_members = [\<lparr>mb_id = 4, mb_org = 1, mb_user = 3, mb_public_id = ''mem_4'', mb_role = ''member'', mb_policy_version = 1,
       mb_role_id = None, mb_status = ''active'', mb_team = None, mb_department = None, mb_revoked = None\<rparr>]\<rparr>"

abbreviation demo_s0 :: session_db where
  "demo_s0 \<equiv> \<lparr>sd_sessions = [], sd_tokens = [], sd_draws = 100\<rparr>"

definition demo_login :: "session_db \<times> (string + issued_tokens)" where
  "demo_login = session_tx (create_session_with_tokens demo_auth_env 1000 demo_directory (ring_from_secret ''s1'') 3 ''usr_3'' 1 4
     [''member''] 1 None None None) demo_s0"

abbreviation demo_rotate :: "int \<Rightarrow> session_db \<Rightarrow> session_db \<times> (string + refresh_outcome)" where
  "demo_rotate now s \<equiv> rotate_refresh demo_auth_env now demo_directory (ring_from_secret ''s1'') ''102'' s"

abbreviation demo_session :: "int \<Rightarrow> auth_session" where
  "demo_session now \<equiv> \<lparr>as_id = 100, as_family = 101, as_user = 3, as_org = 1, as_membership = 4, as_device_label = None,
     as_user_agent = None, as_ip = None, as_last_seen = now, as_revoked = None, as_revoke_reason = None\<rparr>"

abbreviation demo_token :: "int \<Rightarrow> uuid \<Rightarrow> string \<Rightarrow> refresh_token" where
  "demo_token now i h \<equiv> \<lparr>rt_id = i, rt_session = 100, rt_family = 101, rt_hash = h, rt_expires = now + 2592000,
     rt_rotated = None, rt_replaced_by = None, rt_revoked = None\<rparr>"

lemma demo_shown: "show_nat 102 = ''102''" "show_nat 105 = ''105''"
  by code_simp+

lemma demo_ring: "ring_active (ring_from_secret ''s1'') = Inr \<lparr>sk_kid = ''bootstrap'', sk_secret = ''s1'', sk_active = True\<rparr>"
  by (simp add: ring_from_secret_def ring_upsert_def ring_new_def ring_find_def ring_active_def)

lemma demo_mint: "\<exists>a. mint_for demo_auth_env now (ring_from_secret ''s1'') claims s = (s\<lparr>sd_draws := Suc (sd_draws s)\<rparr>, Inr a)"
  by (simp add: mint_for_def st_then_def draw_uuid_def st_return_def mint_access_token_def demo_ring demo_auth_env_def)

lemma demo_login_ok:
  "\<exists>i. demo_login = (\<lparr>sd_sessions = [demo_session 1000], sd_tokens = [demo_token 1000 103 ''102''], sd_draws = 105\<rparr>, Inr i)"
proof -
  have mint: "\<exists>a. mint_for demo_auth_env 1000 (ring_from_secret ''s1'') claims s = (s\<lparr>sd_draws := Suc (sd_draws s)\<rparr>, Inr a)" for claims s
    by (rule demo_mint)
  then obtain a where a: "\<And>claims s. mint_for demo_auth_env 1000 (ring_from_secret ''s1'') claims s = (s\<lparr>sd_draws := Suc (sd_draws s)\<rparr>, Inr (a claims s))"
    by metis
  show ?thesis
    by (simp add: demo_login_def session_tx_def create_session_with_tokens_def issue_refresh_and_access_def st_then_def st_return_def
        a draw_uuid_def draw_token_def insert_session_def insert_refresh_def new_refresh_row_def REFRESH_TOKEN_TTL_SECS_def)
      (simp add: demo_auth_env_def demo_directory_def demo_user_def demo_shown)
qed

abbreviation demo_s1 :: session_db where
  "demo_s1 \<equiv> \<lparr>sd_sessions = [demo_session 1000], sd_tokens = [demo_token 1000 103 ''102''], sd_draws = 105\<rparr>"

abbreviation demo_s2 :: session_db where
  "demo_s2 \<equiv> \<lparr>sd_sessions = [demo_session 2000], sd_tokens = [(demo_token 1000 103 ''102'')\<lparr>rt_rotated := Some 2000, rt_replaced_by := Some 106\<rparr>,
     demo_token 2000 106 ''105''], sd_draws = 108\<rparr>"

lemma demo_refresh_ok: "\<exists>i. demo_rotate 2000 demo_s1 = (demo_s2, Inr (Issued i)) \<and> it_family i = 101"
proof -
  have "\<forall>claims s. \<exists>a. mint_for demo_auth_env 2000 (ring_from_secret ''s1'') claims s = (s\<lparr>sd_draws := Suc (sd_draws s)\<rparr>, Inr a)"
    by (simp add: demo_mint)
  then obtain a where a: "\<And>claims s. mint_for demo_auth_env 2000 (ring_from_secret ''s1'') claims s = (s\<lparr>sd_draws := Suc (sd_draws s)\<rparr>, Inr (a claims s))"
    by metis
  have env: "au_hash demo_auth_env = (\<lambda>t. t)" "au_gen_token demo_auth_env = show_nat" "au_gen_uuid demo_auth_env = (\<lambda>k. of_nat (min k 900))"
    by (simp_all add: demo_auth_env_def)
  show ?thesis
    by (simp add: rotate_refresh_def env demo_directory_def demo_user_def session_tx_def replace_token_def st_then_def st_return_def a
        draw_uuid_def draw_token_def insert_refresh_def new_refresh_row_def REFRESH_TOKEN_TTL_SECS_def touch_session_def rotate_row_def demo_shown)
qed

lemma demo_run: "sess_init demo_s0" "(session_step demo_auth_env)\<^sup>*\<^sup>* demo_s0 demo_s1" "(session_step demo_auth_env)\<^sup>*\<^sup>* demo_s0 demo_s2"
proof -
  show "sess_init demo_s0" by (simp add: sess_init_def)
  have "session_step demo_auth_env demo_s0 (fst demo_login)"
    unfolding demo_login_def by (rule session_step.create) simp
  then have "session_step demo_auth_env demo_s0 demo_s1" using demo_login_ok by (metis fst_conv)
  then show first: "(session_step demo_auth_env)\<^sup>*\<^sup>* demo_s0 demo_s1" by (rule r_into_rtranclp)
  have "session_step demo_auth_env demo_s1 (fst (demo_rotate 2000 demo_s1))" by (rule session_step.rotate)
  then have "session_step demo_auth_env demo_s1 demo_s2" using demo_refresh_ok by (metis fst_conv)
  with first show "(session_step demo_auth_env)\<^sup>*\<^sup>* demo_s0 demo_s2" by (rule rtranclp.rtrancl_into_rtrancl)
qed


theorem reuse_kills_family_witness:
  "\<exists>s. demo_rotate 3000 demo_s2 = (s, Inr (ReuseDetected 101)) \<and>
     \<not> (\<exists>now dir ring presented s3 i. rotate_refresh demo_auth_env now dir ring presented s = (s3, Inr (Issued i)) \<and> it_family i = 101)"
proof -
  let ?t = "(demo_token 1000 103 ''102'')\<lparr>rt_rotated := Some 2000, rt_replaced_by := Some 106\<rparr>"
  obtain s res where s: "demo_rotate 3000 demo_s2 = (s, res)" by (cases "demo_rotate 3000 demo_s2")
  have t: "?t \<in> set (sd_tokens demo_s2)" "rt_hash ?t = au_hash demo_auth_env ''102''" "rt_rotated ?t \<noteq> None" "rt_revoked ?t = None"
    "3000 \<le> rt_expires ?t" "rt_family ?t = 101"
    by (simp_all add: demo_auth_env_def)
  from reuse_kills_family [OF demo_run(1,3) t(1-5) s rtranclp.rtrancl_refl] s show ?thesis unfolding t(6) by blast
qed

theorem refresh_token_single_use_witness: "snd (demo_rotate 4000000 demo_s2) = Inl ''refresh token revoked or expired''"
proof -
  obtain i where "demo_rotate 2000 demo_s1 = (demo_s2, Inr (Issued i))" using demo_refresh_ok by blast
  from refresh_token_single_use [OF demo_run(1,2) this rtranclp.rtrancl_refl, of 4000000 demo_directory "ring_from_secret ''s1''"]
  show ?thesis by (simp add: rotate_refresh_def demo_auth_env_def)
qed

end
