(* ===== verification/Rate_Limit.thy ===== *)
theory Rate_Limit
  imports Prelude
begin

text \<open>
  The in-memory rate limiter of the authentication endpoints
  (\<open>services/core/src/auth/rate_limit.rs\<close>): per key the times of the accepted calls, a short
  lockout and a progressive delay. Times and delays are milliseconds.
\<close>

section \<open>Buckets\<close>

record bucket =
  bk_hits :: "int list"
  bk_lockout_until :: "int option"
  bk_delay :: int

record rate_limiter =
  rl_buckets :: "string \<rightharpoonup> bucket"
  rl_max_hits :: nat
  rl_window :: int

definition rate_limiter_new :: rate_limiter where
  "rate_limiter_new = \<lparr>rl_buckets = Map.empty, rl_max_hits = 20, rl_window = 60 * 1000\<rparr>"

definition auth_strict :: rate_limiter where
  "auth_strict = \<lparr>rl_buckets = Map.empty, rl_max_hits = 10, rl_window = 60 * 1000\<rparr>"

definition empty_bucket :: bucket where
  "empty_bucket = \<lparr>bk_hits = [], bk_lockout_until = None, bk_delay = 0\<rparr>"

definition bucket_of :: "rate_limiter \<Rightarrow> string \<Rightarrow> bucket" where
  "bucket_of lim key = (case rl_buckets lim key of Some b \<Rightarrow> b | None \<Rightarrow> empty_bucket)"

definition put_bucket :: "string \<Rightarrow> bucket \<Rightarrow> rate_limiter \<Rightarrow> rate_limiter" where
  "put_bucket key b lim = lim\<lparr>rl_buckets := (rl_buckets lim)(key \<mapsto> b)\<rparr>"

text \<open>The second half of \<open>check_and_hit\<close>: no lockout, or one that is over. \<open>Inr\<close> is \<open>Ok(delay)\<close>, \<open>Inl\<close> is \<open>Err(delay)\<close>.\<close>

definition count_hit :: "int \<Rightarrow> string \<Rightarrow> bucket \<Rightarrow> rate_limiter \<Rightarrow> rate_limiter \<times> (int + int)" where
  "count_hit now key b lim =
     (let b = b\<lparr>bk_lockout_until := None, bk_hits := filter (\<lambda>t. max 0 (now - t) < rl_window lim) (bk_hits b)\<rparr> in
      if length (bk_hits b) \<ge> rl_max_hits lim then
        (let d = min (bk_delay b + 250) 5000 in
         (put_bucket key (b\<lparr>bk_delay := d, bk_lockout_until := Some (now + d)\<rparr>) lim, Inl d))
      else (put_bucket key (b\<lparr>bk_hits := bk_hits b @ [now]\<rparr>) lim, Inr (bk_delay b)))"

definition check_and_hit :: "int \<Rightarrow> string \<Rightarrow> rate_limiter \<Rightarrow> rate_limiter \<times> (int + int)" where
  "check_and_hit now key lim =
     (let b = bucket_of lim key in
      case bk_lockout_until b of
        Some t \<Rightarrow> if now < t then (put_bucket key b lim, Inl (max 0 (t - now))) else count_hit now key b lim
      | None \<Rightarrow> count_hit now key b lim)"

definition register_failure :: "string \<Rightarrow> rate_limiter \<Rightarrow> rate_limiter" where
  "register_failure key lim =
     (let b = bucket_of lim key in put_bucket key (b\<lparr>bk_delay := max 100 (min 8000 (bk_delay b * 2))\<rparr>) lim)"

definition limiter_reset :: "string \<Rightarrow> rate_limiter \<Rightarrow> rate_limiter" where
  "limiter_reset key lim = lim\<lparr>rl_buckets := (rl_buckets lim)(key := None)\<rparr>"

section \<open>How many calls pass\<close>

text \<open>A sequence of uses of the limiter with their times, and the times at which calls with one key passed.\<close>

datatype limiter_op = Hit string | Fail string | Reset string

fun limiter_run :: "string \<Rightarrow> (int \<times> limiter_op) list \<Rightarrow> rate_limiter \<Rightarrow> rate_limiter \<times> int list" where
  "limiter_run key [] lim = (lim, [])"
| "limiter_run key ((now, Hit k) # ops) lim =
     (let (lim', r) = check_and_hit now k lim; (lim'', passed) = limiter_run key ops lim' in
      (lim'', if k = key \<and> is_ok r then now # passed else passed))"
| "limiter_run key ((now, Fail k) # ops) lim = limiter_run key ops (register_failure k lim)"
| "limiter_run key ((now, Reset k) # ops) lim = limiter_run key ops (limiter_reset k lim)"

definition few_in_window :: "rate_limiter \<Rightarrow> int list \<Rightarrow> bool" where
  "few_in_window lim passed \<longleftrightarrow> (\<forall>t. length (filter (\<lambda>x. t - rl_window lim < x \<and> x \<le> t) passed) \<le> rl_max_hits lim)"

text \<open>The bucket remembers every passed call that can still count.\<close>

definition remembers :: "rate_limiter \<Rightarrow> string \<Rightarrow> int list \<Rightarrow> int \<Rightarrow> bool" where
  "remembers lim key passed now \<longleftrightarrow> (\<forall>x \<in> set passed \<union> set (bk_hits (bucket_of lim key)). x \<le> now) \<and>
     (\<forall>n \<ge> now. filter (\<lambda>x. n - x < rl_window lim) (bk_hits (bucket_of lim key)) = filter (\<lambda>x. n - x < rl_window lim) passed)"

lemma bucket_of_put [simp]: "bucket_of (put_bucket k b lim) key = (if key = k then b else bucket_of lim key)"
  by (simp add: bucket_of_def put_bucket_def)

lemma put_bucket_limits [simp]: "rl_window (put_bucket k b lim) = rl_window lim" "rl_max_hits (put_bucket k b lim) = rl_max_hits lim"
  by (simp_all add: put_bucket_def)

lemma check_other:
  "rl_window (fst (check_and_hit now k lim)) = rl_window lim" "rl_max_hits (fst (check_and_hit now k lim)) = rl_max_hits lim"
  "key \<noteq> k \<Longrightarrow> bucket_of (fst (check_and_hit now k lim)) key = bucket_of lim key"
  by (simp_all add: check_and_hit_def count_hit_def Let_def split: option.split)

lemma remembers_later: "remembers lim key passed now \<Longrightarrow> now \<le> now' \<Longrightarrow> remembers lim key passed now'"
  by (force simp: remembers_def)

lemma filter_window: "(now :: int) \<le> n \<Longrightarrow> filter (\<lambda>x. n - x < w) (filter (\<lambda>x. now - x < w) xs) = filter (\<lambda>x. n - x < w) xs"
  by (auto intro: filter_cong)

lemma filter_windows: "(now :: int) \<le> n \<Longrightarrow> filter (\<lambda>x. now - x < w \<and> n - x < w) xs = filter (\<lambda>x. n - x < w) xs"
  by (auto intro: filter_cong)

lemma hit_passes:
  assumes "remembers lim key passed now" "few_in_window lim passed" "check_and_hit now key lim = (lim', Inr d)" "0 < rl_window lim"
  shows "remembers lim' key (passed @ [now]) now \<and> few_in_window lim' (passed @ [now])"
proof -
  let ?b = "bucket_of lim key" and ?w = "rl_window lim"
  let ?old = "filter (\<lambda>x. now - x < ?w) (bk_hits ?b)"
  have le: "x \<le> now" if "x \<in> set passed \<union> set (bk_hits ?b)" for x using assms(1) that by (simp add: remembers_def)
  have keep: "filter (\<lambda>x. n - x < ?w) (bk_hits ?b) = filter (\<lambda>x. n - x < ?w) passed" if "now \<le> n" for n
    using assms(1) that by (simp add: remembers_def)
  have "filter (\<lambda>t. max 0 (now - t) < ?w) (bk_hits ?b) = ?old" using assms(4) by simp
  then have hits: "length ?old < rl_max_hits lim" "bk_hits (bucket_of lim' key) = ?old @ [now]" "rl_window lim' = ?w" "rl_max_hits lim' = rl_max_hits lim"
    using assms(3) by (auto simp: check_and_hit_def count_hit_def Let_def split: option.splits if_splits)
  have "remembers lim' key (passed @ [now]) now"
    unfolding remembers_def hits(2,3) using le keep by (auto simp: filter_windows)
  moreover have "length (filter (\<lambda>x. t - ?w < x \<and> x \<le> t) (passed @ [now])) \<le> rl_max_hits lim" for t
  proof (cases "t < now")
    case True
    with assms(2) show ?thesis by (simp add: few_in_window_def)
  next
    case False
    have "length (filter (\<lambda>x. t - ?w < x \<and> x \<le> t) passed) \<le> length (filter (\<lambda>x. now - x < ?w) passed)"
    proof -
      have "filter (\<lambda>x. t - ?w < x \<and> x \<le> t) passed = filter (\<lambda>x. t - ?w < x \<and> x \<le> t) (filter (\<lambda>x. now - x < ?w) passed)"
        using False by (auto intro: filter_cong)
      then show ?thesis by (metis length_filter_le)
    qed
    with hits(1) keep [of now] show ?thesis by auto
  qed
  ultimately show ?thesis by (simp add: few_in_window_def hits(3,4))
qed

lemma hit_refused:
  assumes "remembers lim key passed now" "check_and_hit now key lim = (lim', Inl d)" "0 < rl_window lim"
  shows "remembers lim' key passed now"
proof -
  let ?b = "bucket_of lim key" and ?w = "rl_window lim"
  have "(\<lambda>t. max 0 (now - t) < ?w) = (\<lambda>t. now - t < ?w)" using assms(3) by auto
  then have hits: "bk_hits (bucket_of lim' key) = bk_hits ?b \<or> bk_hits (bucket_of lim' key) = filter (\<lambda>t. now - t < ?w) (bk_hits ?b)"
    "rl_window lim' = ?w"
    using assms(2) by (auto simp: check_and_hit_def count_hit_def Let_def split: option.splits if_splits)
  then have "filter (\<lambda>x. n - x < ?w) (bk_hits (bucket_of lim' key)) = filter (\<lambda>x. n - x < ?w) (bk_hits ?b)" if "now \<le> n" for n
    using that by (metis filter_window)
  then show ?thesis using assms(1) hits by (auto simp: remembers_def)
qed

lemma limiter_run_few:
  assumes "remembers lim key passed now" "few_in_window lim passed" "0 < rl_window lim"
    and "sorted (now # map fst ops)" "Reset key \<notin> snd ` set ops"
  shows "few_in_window lim (passed @ snd (limiter_run key ops lim))"
  using assms
proof (induction key ops lim arbitrary: passed now rule: limiter_run.induct)
  case (2 key n k ops lim)
  obtain lim' r where c: "check_and_hit n k lim = (lim', r)" by (cases "check_and_hit n k lim")
  have same: "rl_window lim' = rl_window lim" "rl_max_hits lim' = rl_max_hits lim" using check_other(1,2) [of n k lim] c by simp_all
  have few: "few_in_window lim' xs \<longleftrightarrow> few_in_window lim xs" for xs by (simp add: few_in_window_def same)
  have rem: "remembers lim key passed n" using remembers_later [OF "2.prems"(1)] "2.prems"(4) by simp
  obtain lim'' acc where run: "limiter_run key ops lim' = (lim'', acc)" by (cases "limiter_run key ops lim'")
  have IH: "few_in_window lim' (p @ acc)" if "remembers lim' key p n" "few_in_window lim' p" for p
    using "2.IH" [OF c [symmetric] refl that] "2.prems"(3-5) same run by simp
  show ?case
  proof (cases "k = key \<and> is_ok r")
    case True
    then obtain d where "r = Inr d" by (cases r) auto
    with hit_passes [OF rem "2.prems"(2) _ "2.prems"(3)] c True IH [of "passed @ [n]"] few run show ?thesis by auto
  next
    case False
    have "remembers lim' key passed n"
    proof (cases "k = key")
      case True
      with False obtain d where "r = Inl d" by (cases r) auto
      with hit_refused [OF rem _ "2.prems"(3)] c True show ?thesis by simp
    next
      case False
      with check_other(3) [of key k n lim] c same rem show ?thesis by (simp add: remembers_def)
    qed
    with IH [of passed] "2.prems"(2) few run c False show ?thesis by auto
  qed
next
  case (3 key n k ops lim)
  let ?lim = "register_failure k lim"
  have "bk_hits (bucket_of ?lim key) = bk_hits (bucket_of lim key)" "rl_window ?lim = rl_window lim" "rl_max_hits ?lim = rl_max_hits lim"
    by (simp_all add: register_failure_def Let_def)
  then have "remembers ?lim key passed n \<longleftrightarrow> remembers lim key passed n" and few: "few_in_window ?lim xs \<longleftrightarrow> few_in_window lim xs" for xs
    by (simp_all add: remembers_def few_in_window_def)
  with 3 show ?case using remembers_later [OF "3.prems"(1)] by (simp add: register_failure_def Let_def)
next
  case (4 key n k ops lim)
  let ?lim = "limiter_reset k lim"
  have "bucket_of ?lim key = bucket_of lim key" "rl_window ?lim = rl_window lim" "rl_max_hits ?lim = rl_max_hits lim"
    using "4.prems"(5) by (auto simp: limiter_reset_def bucket_of_def)
  then have "remembers ?lim key passed n \<longleftrightarrow> remembers lim key passed n" and few: "few_in_window ?lim xs \<longleftrightarrow> few_in_window lim xs" for xs
    by (simp_all add: remembers_def few_in_window_def)
  with 4 show ?case using remembers_later [OF "4.prems"(1)] by (simp add: limiter_reset_def)
qed simp

text \<open>
  The limiter holds its rate. Whatever sequence of checks, failures and resets of other keys
  runs, at times that do not go back, no window of the configured length contains more than the
  configured number of passed calls with one key.
\<close>

theorem rate_limit_holds:
  assumes "rl_buckets lim key = None" "0 < rl_window lim" "sorted (map fst ops)" "Reset key \<notin> snd ` set ops"
  shows "length (filter (\<lambda>x. t - rl_window lim < x \<and> x \<le> t) (snd (limiter_run key ops lim))) \<le> rl_max_hits lim"
proof (cases ops)
  case (Cons op rest)
  have "remembers lim key [] (fst op)" "few_in_window lim []" using assms(1) by (simp_all add: remembers_def few_in_window_def bucket_of_def empty_bucket_def)
  from limiter_run_few [OF this assms(2) _ assms(4)] show ?thesis using assms(3) Cons by (simp add: few_in_window_def)
qed simp

theorem rate_limit_holds_witness:
  "snd (limiter_run ''a'' (map (\<lambda>i. (int i, Hit ''a'')) [0..<12]) auth_strict) = [0..9] \<and>
   length (filter (\<lambda>x. 11 - 60000 < x \<and> x \<le> 11) (snd (limiter_run ''a'' (map (\<lambda>i. (int i, Hit ''a'')) [0..<12]) auth_strict))) \<le> 10"
proof -
  let ?ops = "map (\<lambda>i. (int i, Hit ''a'')) [0..<12]"
  have run: "snd (limiter_run ''a'' ?ops auth_strict) = [0..9]" by code_simp
  have "sorted (map fst ?ops)" "Reset ''a'' \<notin> snd ` set ?ops" by (auto simp: comp_def sorted_map)
  with rate_limit_holds [of auth_strict "''a''" ?ops 11] run show ?thesis by (simp add: auth_strict_def)
qed

end
