(* ===== verification/Auth_Flows.thy ===== *)
theory Auth_Flows
  imports Sessions Rate_Limit Outbox
begin

text \<open>
  The authentication endpoints of the core service (\<open>services/core/src/auth/handlers\<close>): login with
  rate limit and lockout (\<open>lockout.rs\<close>), refresh, logout, email verification, magic links, password
  reset, multi-factor setup and verification, switching and leaving organisations, and rotation of
  the signing keys. A handler is a sequence of statements that commit one by one, with explicit
  transactions where the code opens one. Handlers that read without a lock and write later (login,
  a magic link, a password reset, the check of the last owner) are split there: the second part
  takes what the first one read, and the step relation lets other calls come in between. Argon2,
  TOTP, the breach list, mail delivery and URL encoding are parameters, and so is whether the
  second connection on which a password reset revokes the sessions works. The development-only
  bypass of \<open>extract.rs\<close> is off.
\<close>

section \<open>State\<close>

record email_token =
  et_id :: uuid
  et_user :: uuid
  et_purpose :: string
  et_hash :: string
  et_org :: "uuid option"
  et_payload :: json
  et_expires :: int
  et_consumed :: "int option"

record recovery_code =
  rc_id :: uuid
  rc_user :: uuid
  rc_hash :: string
  rc_used :: "int option"

record auth_audit =
  aa_id :: uuid
  aa_org :: "uuid option"
  aa_user :: "uuid option"
  aa_event :: string
  aa_ip :: "string option"
  aa_agent :: "string option"
  aa_metadata :: json

record outbound_mail =
  om_to :: string
  om_subject :: string
  om_body :: string

record auth_world =
  aw_dir :: directory
  aw_sess :: session_db
  aw_email :: "email_token list"
  aw_recovery :: "recovery_code list"
  aw_idem :: "(string \<times> string) list"
  aw_limiter :: rate_limiter
  aw_audit :: "auth_audit list"
  aw_outbox :: outbox_db
  aw_mail :: "outbound_mail list"
  aw_ring :: key_ring
  aw_jwks :: "signing_key list"

record flow_env =
  fe_auth :: auth_env
  fe_relay :: relay_env
  fe_time :: time_parser
  fe_verify_password :: "string \<Rightarrow> string \<Rightarrow> bool"
  fe_argon :: "nat \<Rightarrow> string \<Rightarrow> string + string \<times> string"
  fe_breached :: "string \<Rightarrow> string + bool"
  fe_totp :: "int \<Rightarrow> string \<Rightarrow> string \<Rightarrow> string \<Rightarrow> string + bool"
  fe_gen_secret :: "nat \<Rightarrow> string"
  fe_otpauth :: "string \<Rightarrow> string \<Rightarrow> string + string"
  fe_gen_codes :: "nat \<Rightarrow> string list"
  fe_urlencode :: "string \<Rightarrow> string"
  fe_app_base :: string
  fe_show_outbox_error :: "outbox_error \<Rightarrow> string"
  fe_revoke_works :: "nat \<Rightarrow> bool"

record flow_req =
  fq_now :: int
  fq_instant :: int
  fq_request_id :: string
  fq_ip :: "string option"
  fq_agent :: "string option"
  fq_idempotency_key :: "string option"
  fq_bearer :: "string option"
  fq_cookie :: "string option"

type_synonym 'a flow = "auth_world \<Rightarrow> auth_world \<times> (app_error + 'a)"

datatype auth_reply = TokenReply issued_tokens | MfaChallenge string

section \<open>Statements\<close>

definition flow_fail :: "error_code \<Rightarrow> flow_req \<Rightarrow> string \<Rightarrow> 'a flow" where
  "flow_fail code req detail = st_return (Inl (app_error_new code (fq_request_id req) detail))"

definition in_sessions :: "flow_req \<Rightarrow> 'a session_step_fun \<Rightarrow> 'a flow" where
  "in_sessions req m w =
     (case m (aw_sess w) of (s, r) \<Rightarrow> (w\<lparr>aw_sess := s\<rparr>, map_err (app_error_new Internal (fq_request_id req)) r))"

definition draws_of :: "auth_world \<Rightarrow> nat" where
  "draws_of w = sd_draws (aw_sess w)"

definition bump_draws :: "auth_world \<Rightarrow> auth_world" where
  "bump_draws w = w\<lparr>aw_sess := (aw_sess w)\<lparr>sd_draws := Suc (draws_of w)\<rparr>\<rparr>"

definition audit_record ::
  "flow_env \<Rightarrow> uuid option \<Rightarrow> uuid option \<Rightarrow> string \<Rightarrow> string option \<Rightarrow> string option \<Rightarrow> json \<Rightarrow> auth_world \<Rightarrow> auth_world" where
  "audit_record env org user event ip agent metadata w =
     (let i = au_gen_uuid (fe_auth env) (draws_of w); w = bump_draws w in
      if list_ex (\<lambda>a. aa_id a = i) (aw_audit w) then w
      else w\<lparr>aw_audit := aw_audit w @ [\<lparr>aa_id = i, aa_org = org, aa_user = user, aa_event = event, aa_ip = ip,
        aa_agent = agent, aa_metadata = metadata\<rparr>]\<rparr>)"

definition audited ::
  "flow_env \<Rightarrow> uuid option \<Rightarrow> uuid option \<Rightarrow> string \<Rightarrow> string option \<Rightarrow> string option \<Rightarrow> json \<Rightarrow> unit flow" where
  "audited env org user event ip agent metadata w = (audit_record env org user event ip agent metadata w, Inr ())"

definition send_mail :: "outbound_mail \<Rightarrow> auth_world \<Rightarrow> auth_world" where
  "send_mail m w = w\<lparr>aw_mail := aw_mail w @ [m]\<rparr>"

text \<open>A row of \<open>email_token\<close> with a new raw token; \<open>Inl\<close> when a key is taken or the user is gone.\<close>

definition insert_email_token ::
  "flow_env \<Rightarrow> int \<Rightarrow> uuid \<Rightarrow> string \<Rightarrow> uuid option \<Rightarrow> json \<Rightarrow> int \<Rightarrow> auth_world \<Rightarrow> auth_world \<times> string \<times> (string + unit)" where
  "insert_email_token env now user purpose org payload ttl w =
     (let a = fe_auth env; raw = au_gen_token a (draws_of w); w = bump_draws w;
          i = au_gen_uuid a (draws_of w); w = bump_draws w; h = au_hash a raw in
      if list_ex (\<lambda>t. et_id t = i \<or> et_hash t = h) (aw_email w) then (w, raw, Inl (au_db_error a ''email_token_key''))
      else if \<not> list_ex (\<lambda>u. ui_id u = user) (di_users (aw_dir w)) then (w, raw, Inl (au_db_error a ''email_token_fkey''))
      else (w\<lparr>aw_email := aw_email w @ [\<lparr>et_id = i, et_user = user, et_purpose = purpose, et_hash = h, et_org = org,
        et_payload = payload, et_expires = now + ttl, et_consumed = None\<rparr>]\<rparr>, raw, Inr ()))"

definition find_email_token :: "flow_env \<Rightarrow> int \<Rightarrow> string \<Rightarrow> string \<Rightarrow> auth_world \<Rightarrow> email_token option" where
  "find_email_token env now purpose raw w =
     find (\<lambda>t. et_hash t = au_hash (fe_auth env) raw \<and> et_purpose t = purpose \<and> et_consumed t = None \<and> et_expires t > now) (aw_email w)"

definition consume_token :: "int \<Rightarrow> uuid \<Rightarrow> auth_world \<Rightarrow> auth_world" where
  "consume_token now i w = w\<lparr>aw_email := map (\<lambda>t. if et_id t = i then t\<lparr>et_consumed := Some now\<rparr> else t) (aw_email w)\<rparr>"

definition update_user :: "uuid \<Rightarrow> (user_identity \<Rightarrow> user_identity) \<Rightarrow> auth_world \<Rightarrow> auth_world" where
  "update_user i f w =
     w\<lparr>aw_dir := (aw_dir w)\<lparr>di_users := map (\<lambda>u. if ui_id u = i then f u else u) (di_users (aw_dir w))\<rparr>\<rparr>"

definition find_user :: "auth_world \<Rightarrow> uuid \<Rightarrow> user_identity option" where
  "find_user w i = find (\<lambda>u. ui_id u = i) (di_users (aw_dir w))"

definition fetch_user :: "flow_env \<Rightarrow> flow_req \<Rightarrow> uuid \<Rightarrow> user_identity flow" where
  "fetch_user env req i w =
     (case find_user w i of
        None \<Rightarrow> flow_fail Internal req (au_db_error (fe_auth env) ''row_not_found'') w
      | Some u \<Rightarrow> (w, Inr u))"

definition find_by_email :: "auth_world \<Rightarrow> string \<Rightarrow> user_identity option" where
  "find_by_email w email = find (\<lambda>u. ui_email_normalized u = email) (di_users (aw_dir w))"

definition normalize_email :: "string \<Rightarrow> string" where
  "normalize_email email = ascii_lower (str_trim email)"

definition rate_limit :: "flow_req \<Rightarrow> string \<Rightarrow> unit flow" where
  "rate_limit req key w =
     (case check_and_hit (fq_instant req) key (aw_limiter w) of
        (lim, Inr delay) \<Rightarrow> (w\<lparr>aw_limiter := lim\<rparr>, Inr ())
      | (lim, Inl delay) \<Rightarrow> flow_fail TooManyRequests req (''rate limited; retry after '' @ show_int delay @ ''ms'') (w\<lparr>aw_limiter := lim\<rparr>))"

text \<open>\<open>Inr True\<close>: the key was used before; otherwise it is stored.\<close>

definition seen_before :: "flow_env \<Rightarrow> flow_req \<Rightarrow> string \<Rightarrow> bool flow" where
  "seen_before env req scope w =
     (case fq_idempotency_key req of
        None \<Rightarrow> (w, Inr False)
      | Some key \<Rightarrow>
          if (scope, key) \<in> set (aw_idem w) then (w, Inr True)
          else ((bump_draws w)\<lparr>aw_idem := aw_idem w @ [(scope, key)]\<rparr>, Inr False))"

section \<open>Lockout\<close>

definition MAX_FAILURES :: int where
  "MAX_FAILURES = 8"

definition LOCK_MINUTES :: int where
  "LOCK_MINUTES = 15"

definition failed_once :: "int \<Rightarrow> user_identity \<Rightarrow> user_identity" where
  "failed_once now u = u\<lparr>ui_failed_count := ui_failed_count u + 1,
     ui_locked_until := (if ui_failed_count u + 1 \<ge> MAX_FAILURES then Some (now + LOCK_MINUTES * 60) else ui_locked_until u)\<rparr>"

definition record_failure :: "int \<Rightarrow> uuid \<Rightarrow> auth_world \<Rightarrow> auth_world \<times> bool" where
  "record_failure now i w =
     (case find_user w i of
        None \<Rightarrow> (w, False)
      | Some u \<Rightarrow>
          if \<not> in_i32 (ui_failed_count u + 1) then (w, False)
          else (update_user i (failed_once now) w, ui_failed_count u + 1 \<ge> MAX_FAILURES))"

definition clear_failures :: "uuid \<Rightarrow> auth_world \<Rightarrow> auth_world" where
  "clear_failures i = update_user i (\<lambda>u. u\<lparr>ui_failed_count := 0, ui_locked_until := None\<rparr>)"

section \<open>Login\<close>

definition active_memberships :: "directory \<Rightarrow> uuid \<Rightarrow> membership list" where
  "active_memberships dir user = filter (\<lambda>m. mb_user m = user \<and> mb_revoked m = None \<and> mb_status m = ''active'') (di_members dir)"

definition with_org :: "directory \<Rightarrow> membership list \<Rightarrow> (membership \<times> organization) list" where
  "with_org dir ms = concat (map (\<lambda>m. case find (\<lambda>g. og_id g = mb_org m) (di_orgs dir) of None \<Rightarrow> [] | Some g \<Rightarrow> [(m, g)]) ms)"

definition role_requires_mfa :: "string \<Rightarrow> bool" where
  "role_requires_mfa role = principal_requires_mfa (with_roles (role_list role))"

definition mfa_payload :: "flow_env \<Rightarrow> membership \<Rightarrow> bool \<Rightarrow> json" where
  "mfa_payload env m needs_setup = json_object
     [(''membership_id'', JStr (au_show_uuid (fe_auth env) (mb_id m))), (''role'', JStr (mb_role m)),
      (''policy_version'', JInt (mb_policy_version m)), (''needs_setup'', JBool needs_setup)]"

definition mfa_challenge :: "flow_env \<Rightarrow> flow_req \<Rightarrow> user_identity \<Rightarrow> membership \<Rightarrow> string flow" where
  "mfa_challenge env req u m w =
     (case insert_email_token env (fq_now req) (ui_id u) ''mfa_pending'' (Some (mb_org m))
         (mfa_payload env m (ui_mfa_enabled u = None)) (10 * 60) w of
        (w, raw, Inl e) \<Rightarrow> flow_fail Internal req e w
      | (w, raw, Inr _) \<Rightarrow> (w, Inr raw))"

definition open_session ::
  "flow_env \<Rightarrow> flow_req \<Rightarrow> uuid \<Rightarrow> string \<Rightarrow> uuid \<Rightarrow> uuid \<Rightarrow> string \<Rightarrow> int \<Rightarrow> string option \<Rightarrow> issued_tokens flow" where
  "open_session env req user user_public org membership role policy_version device w =
     in_sessions req (session_tx (create_session_with_tokens (fe_auth env) (fq_now req) (aw_dir w) (aw_ring w) user user_public
       org membership [role] policy_version device (fq_agent req) (fq_ip req))) w"

definition login_failed :: "flow_env \<Rightarrow> flow_req \<Rightarrow> string \<Rightarrow> user_identity \<Rightarrow> 'a flow" where
  "login_failed env req rl_key u w =
     (case record_failure (fq_now req) (ui_id u) w of (w, locked) \<Rightarrow>
      let w = w\<lparr>aw_limiter := register_failure rl_key (aw_limiter w)\<rparr>;
          w = audit_record env None (Some (ui_id u)) ''auth.login_failed'' (fq_ip req) (fq_agent req) (json_object []) w in
      if locked then flow_fail AccountLocked req ''account locked due to failed attempts'' w
      else flow_fail Unauthorized req ''invalid email or password'' w)"

definition login_granted ::
  "flow_env \<Rightarrow> flow_req \<Rightarrow> string \<Rightarrow> string option \<Rightarrow> string option \<Rightarrow> user_identity \<Rightarrow> auth_reply flow" where
  "login_granted env req rl_key wanted device u w =
     (if ui_verified u = None then flow_fail Forbidden req ''email not verified'' w
      else
        (let ms = with_org (aw_dir w) (active_memberships (aw_dir w) (ui_id u)) in
         if ms = [] then flow_fail Forbidden req ''no active organization membership'' w
         else case (case wanted of Some g \<Rightarrow> find (\<lambda>x. og_public_id (snd x) = g) ms | None \<Rightarrow> Some (hd ms)) of
           None \<Rightarrow> flow_fail Forbidden req ''not a member of requested org'' w
         | Some (m, g) \<Rightarrow>
             if role_requires_mfa (mb_role m) then
               st_then (mfa_challenge env req u m) (\<lambda>raw w.
                 (if ui_mfa_enabled u = None
                  then audit_record env (Some (mb_org m)) (Some (ui_id u)) ''auth.mfa_required'' (fq_ip req) (fq_agent req)
                    (json_object [(''needs_setup'', JBool True)]) w
                  else w, Inr (MfaChallenge raw))) w
             else
               (let w = clear_failures (ui_id u) w; w = w\<lparr>aw_limiter := limiter_reset rl_key (aw_limiter w)\<rparr> in
                st_then (open_session env req (ui_id u) (ui_public_id u) (mb_org m) (mb_id m) (mb_role m)
                  (mb_policy_version m) device) (\<lambda>issued.
                st_then (audited env (Some (mb_org m)) (Some (ui_id u)) ''auth.login'' (fq_ip req) (fq_agent req)
                  (json_object [(''org_id'', JStr (og_public_id g))])) (\<lambda>_.
                st_return (Inr (TokenReply issued)))) w)))"

definition is_locked :: "int \<Rightarrow> user_identity \<Rightarrow> bool" where
  "is_locked now u = (case ui_locked_until u of Some t \<Rightarrow> t > now | None \<Rightarrow> False)"

definition login_key :: "flow_req \<Rightarrow> string \<Rightarrow> string" where
  "login_key req email = ''login:'' @ normalize_email email @ '':'' @ (case fq_ip req of Some ip \<Rightarrow> ip | None \<Rightarrow> [])"

text \<open>
  Login reads the row of the user, lock and hash included, without keeping it locked
  (\<open>login_lookup\<close>); the comparison with Argon2 and all that follows (\<open>login_compare\<close>) works on the
  row that was read.
\<close>

definition login_lookup :: "flow_env \<Rightarrow> flow_req \<Rightarrow> string \<Rightarrow> (user_identity \<times> string) flow" where
  "login_lookup env req email =
     (let rl_key = login_key req email; wrong = flow_fail Unauthorized req ''invalid email or password'' in
      st_then (rate_limit req rl_key) (\<lambda>_ w.
      case find_by_email w (normalize_email email) of
        None \<Rightarrow> wrong (w\<lparr>aw_limiter := register_failure rl_key (aw_limiter w)\<rparr>)
      | Some u \<Rightarrow>
          if is_locked (fq_now req) u then flow_fail AccountLocked req ''account locked due to failed attempts; try later'' w
          else (case ui_password_hash u of None \<Rightarrow> wrong w | Some h \<Rightarrow> (w, Inr (u, h)))))"

definition login_compare ::
  "flow_env \<Rightarrow> flow_req \<Rightarrow> string \<Rightarrow> string \<Rightarrow> string option \<Rightarrow> string option \<Rightarrow> user_identity \<Rightarrow> string \<Rightarrow> auth_reply flow" where
  "login_compare env req email password wanted device u h =
     (if fe_verify_password env password h then login_granted env req (login_key req email) wanted device u
      else login_failed env req (login_key req email) u)"

definition login :: "flow_env \<Rightarrow> flow_req \<Rightarrow> string \<Rightarrow> string \<Rightarrow> string option \<Rightarrow> string option \<Rightarrow> auth_reply flow" where
  "login env req email password wanted device =
     st_then (login_lookup env req email) (\<lambda>(u, h). login_compare env req email password wanted device u h)"

section \<open>Refresh, logout, revocation\<close>

definition refresh_from_cookie :: "flow_req \<Rightarrow> string option" where
  "refresh_from_cookie req =
     Option.bind (fq_cookie req) (\<lambda>h.
       case List.map_filter (\<lambda>part. strip_prefix ''companyos_refresh='' (str_trim part)) (split_on CHR '';'' h) of
         [] \<Rightarrow> None
       | v # vs \<Rightarrow> Some v)"

definition refresh :: "flow_env \<Rightarrow> flow_req \<Rightarrow> issued_tokens flow" where
  "refresh env req =
     st_then (rate_limit req (''refresh:'' @ fq_request_id req)) (\<lambda>_ w.
     case refresh_from_cookie req of
       None \<Rightarrow> flow_fail Unauthorized req ''refresh cookie missing'' w
     | Some rt \<Rightarrow>
         (case rotate_refresh (fe_auth env) (fq_now req) (aw_dir w) (aw_ring w) rt (aw_sess w) of
            (s, Inl e) \<Rightarrow> flow_fail Unauthorized req e (w\<lparr>aw_sess := s\<rparr>)
          | (s, Inr (Issued issued)) \<Rightarrow>
              st_then (audited env None None ''auth.refresh'' None None
                (json_object [(''session_id'', JStr (au_show_uuid (fe_auth env) (it_session issued)))])) (\<lambda>_.
              st_return (Inr issued)) (w\<lparr>aw_sess := s\<rparr>)
          | (s, Inr (ReuseDetected family)) \<Rightarrow>
              st_then (audited env None None ''auth.refresh_reuse_detected'' None None
                (json_object [(''family_id'', JStr (au_show_uuid (fe_auth env) family))])) (\<lambda>_.
              flow_fail Unauthorized req ''refresh token reuse detected; family revoked'') (w\<lparr>aw_sess := s\<rparr>)))"

definition verify_bearer :: "flow_env \<Rightarrow> flow_req \<Rightarrow> auth_world \<Rightarrow> string \<Rightarrow> token_error + access_claims" where
  "verify_bearer env req w token = verify_access_token (au_jwt (fe_auth env)) (fq_now req) (aw_ring w) token"

definition logout :: "flow_env \<Rightarrow> flow_req \<Rightarrow> unit flow" where
  "logout env req w =
     (case fq_bearer req of
        None \<Rightarrow> (w, Inr ())
      | Some token \<Rightarrow>
          (case verify_bearer env req w token of
             Inl e \<Rightarrow> (w, Inr ())
           | Inr c \<Rightarrow>
               let w = w\<lparr>aw_sess := fst (revoke_session (fq_now req) (ac_user c) (ac_sid c) (aw_sess w))\<rparr> in
               audited env (Some (ac_org c)) (Some (ac_user c)) ''auth.logout'' None None (json_object []) w))"

text \<open>The extractor that handlers for logged-in users run first.\<close>

definition extract_auth_user :: "flow_env \<Rightarrow> flow_req \<Rightarrow> auth_user flow" where
  "extract_auth_user env req w =
     (case fq_bearer req of
        None \<Rightarrow> flow_fail Unauthorized req ''Bearer access token required'' w
      | Some token \<Rightarrow> (w, from_jwt (fe_auth env) (fq_now req) (aw_ring w) (aw_dir w) (aw_sess w) token (fq_request_id req)))"

definition revoke_session_handler :: "flow_env \<Rightarrow> flow_req \<Rightarrow> string \<Rightarrow> unit flow" where
  "revoke_session_handler env req raw =
     st_then (extract_auth_user env req) (\<lambda>user w.
     case au_parse_uuid (fe_auth env) raw of
       Inl e \<Rightarrow> flow_fail ValidationFailed req ''invalid session id'' w
     | Inr sid \<Rightarrow>
         (case revoke_session (fq_now req) (user_id (xu_actor user)) sid (aw_sess w) of (s, ok) \<Rightarrow>
          if ok then (w\<lparr>aw_sess := s\<rparr>, Inr ()) else flow_fail NotFound req ''session not found'' (w\<lparr>aw_sess := s\<rparr>)))"

definition revoke_all_sessions_handler :: "flow_env \<Rightarrow> flow_req \<Rightarrow> nat flow" where
  "revoke_all_sessions_handler env req =
     st_then (extract_auth_user env req) (\<lambda>user w.
     case revoke_all_sessions (fq_now req) (user_id (xu_actor user)) (aw_sess w) of (s, n) \<Rightarrow> (w\<lparr>aw_sess := s\<rparr>, Inr n))"

section \<open>Email verification, magic links and password reset\<close>

definition verify_email :: "flow_env \<Rightarrow> flow_req \<Rightarrow> string \<Rightarrow> unit flow" where
  "verify_email env req token w =
     (case find_email_token env (fq_now req) ''email_verify'' token w of
        None \<Rightarrow> flow_fail ValidationFailed req ''invalid or expired verification token'' w
      | Some t \<Rightarrow>
          let w = update_user (et_user t) (\<lambda>u. u\<lparr>ui_verified := Some (fq_now req)\<rparr>) w; w = consume_token (fq_now req) (et_id t) w in
          audited env None (Some (et_user t)) ''auth.email_verified'' None None (json_object []) w)"

definition resend_verification :: "flow_env \<Rightarrow> flow_req \<Rightarrow> string \<Rightarrow> unit flow" where
  "resend_verification env req email =
     (let email_norm = normalize_email email in
      st_then (rate_limit req (''resend_verify:'' @ email_norm)) (\<lambda>_.
      st_then (seen_before env req ''resend_verification'') (\<lambda>seen w.
      if seen then (w, Inr ())
      else case find_by_email w email_norm of
        None \<Rightarrow> (w, Inr ())
      | Some u \<Rightarrow>
          if ui_verified u \<noteq> None then (w, Inr ())
          else (case insert_email_token env (fq_now req) (ui_id u) ''email_verify'' None (json_object []) (48 * 60 * 60) w of
            (w, raw, r) \<Rightarrow> (send_mail \<lparr>om_to = email_norm, om_subject = ''Verify your CompanyOS email'',
              om_body = ''Verify your email: '' @ fe_app_base env @ ''/verify-email?token='' @ fe_urlencode env raw\<rparr> w, Inr ())))))"

definition magic_org :: "flow_env \<Rightarrow> flow_req \<Rightarrow> string option \<Rightarrow> app_error + uuid option" where
  "magic_org env req wanted =
     (case wanted of
        None \<Rightarrow> Inr None
      | Some g \<Rightarrow>
          (case public_id_from_str (au_parse_uuid (fe_auth env)) g of
             Inl e \<Rightarrow> Inl (app_error_new ValidationFailed (fq_request_id req) ''bad org_id'')
           | Inr p \<Rightarrow> Inr (Some (pid_uuid p))))"

definition request_magic_link :: "flow_env \<Rightarrow> flow_req \<Rightarrow> string \<Rightarrow> string option \<Rightarrow> unit flow" where
  "request_magic_link env req email wanted =
     (let email_norm = normalize_email email in
      st_then (rate_limit req (''magic:'' @ email_norm)) (\<lambda>_.
      st_then (seen_before env req ''magic_link'') (\<lambda>seen w.
      if seen then (w, Inr ())
      else case find_by_email w email_norm of
        None \<Rightarrow> (w, Inr ())
      | Some u \<Rightarrow>
          (case magic_org env req wanted of
             Inl e \<Rightarrow> (bump_draws w, Inl e)
           | Inr org \<Rightarrow>
               (case insert_email_token env (fq_now req) (ui_id u) ''magic_link'' org (json_object []) (15 * 60) w of
                  (w, raw, r) \<Rightarrow>
                    let w = send_mail \<lparr>om_to = email_norm, om_subject = ''Your CompanyOS magic link'',
                          om_body = ''Sign in: '' @ fe_app_base env @ ''/magic-link?token='' @ fe_urlencode env raw\<rparr> w in
                    audited env org (Some (ui_id u)) ''auth.magic_link_sent'' None None (json_object []) w)))))"

definition issue_for_user :: "flow_env \<Rightarrow> flow_req \<Rightarrow> uuid \<Rightarrow> uuid option \<Rightarrow> string option \<Rightarrow> auth_reply flow" where
  "issue_for_user env req user preferred device =
     st_then (fetch_user env req user) (\<lambda>u w.
     let ms = active_memberships (aw_dir w) user in
     case (case preferred of Some org \<Rightarrow> find (\<lambda>m. mb_org m = org) ms | None \<Rightarrow> if ms = [] then None else Some (hd ms)) of
       None \<Rightarrow> flow_fail Forbidden req ''no active organization membership'' w
     | Some m \<Rightarrow>
         if role_requires_mfa (mb_role m)
         then st_then (mfa_challenge env req u m) (\<lambda>raw. st_return (Inr (MfaChallenge raw))) w
         else st_then (open_session env req user (ui_public_id u) (mb_org m) (mb_id m) (mb_role m) (mb_policy_version m) device)
           (\<lambda>issued. st_return (Inr (TokenReply issued))) w)"

definition use_magic_link :: "flow_env \<Rightarrow> flow_req \<Rightarrow> email_token \<Rightarrow> string option \<Rightarrow> auth_reply flow" where
  "use_magic_link env req t device w = issue_for_user env req (et_user t) (et_org t) device (consume_token (fq_now req) (et_id t) w)"

definition consume_magic_link :: "flow_env \<Rightarrow> flow_req \<Rightarrow> string \<Rightarrow> string option \<Rightarrow> auth_reply flow" where
  "consume_magic_link env req token device w =
     (case find_email_token env (fq_now req) ''magic_link'' token w of
        None \<Rightarrow> flow_fail Unauthorized req ''invalid or expired magic link'' w
      | Some t \<Rightarrow> use_magic_link env req t device w)"

definition request_password_reset :: "flow_env \<Rightarrow> flow_req \<Rightarrow> string \<Rightarrow> unit flow" where
  "request_password_reset env req email =
     (let email_norm = normalize_email email in
      st_then (rate_limit req (''pwreset:'' @ email_norm)) (\<lambda>_.
      st_then (seen_before env req ''password_reset'') (\<lambda>seen w.
      if seen then (w, Inr ())
      else case find_by_email w email_norm of
        None \<Rightarrow> (w, Inr ())
      | Some u \<Rightarrow>
          (case insert_email_token env (fq_now req) (ui_id u) ''password_reset'' None (json_object []) (60 * 60) w of
             (w, raw, r) \<Rightarrow>
               let w = send_mail \<lparr>om_to = email_norm, om_subject = ''Reset your CompanyOS password'',
                     om_body = ''Reset password: '' @ fe_app_base env @ ''/reset-password?token='' @ fe_urlencode env raw\<rparr> w in
               audited env None (Some (ui_id u)) ''auth.password_reset_requested'' None None (json_object []) w))))"

text \<open>The characters of a UTF-8 string are its bytes that do not continue another.\<close>

definition utf8_length :: "string \<Rightarrow> nat" where
  "utf8_length s = length (filter (\<lambda>c. \<not> (128 \<le> (of_char c :: nat) \<and> (of_char c :: nat) < 192)) s)"

definition validate_strength :: "string \<Rightarrow> string + unit" where
  "validate_strength password =
     (if length password < 10 then Inl ''password too weak: password must be at least 10 characters''
      else if utf8_length password > 128 then Inl ''password too weak: password must be at most 128 characters''
      else Inr ())"

definition hash_password :: "flow_env \<Rightarrow> nat \<Rightarrow> string \<Rightarrow> string + string \<times> string" where
  "hash_password env k password =
     and_then (validate_strength password) (\<lambda>_. map_err (\<lambda>e. ''password hashing failed: '' @ e) (fe_argon env k password))"

text \<open>
  The token is looked up on the pool; the new password is then stored, the token consumed, whatever
  happened to it meanwhile, and the sessions are revoked on a connection of their own, whose failure
  is discarded.
\<close>

definition reset_lookup :: "flow_env \<Rightarrow> flow_req \<Rightarrow> string \<Rightarrow> string \<Rightarrow> (email_token \<times> string \<times> string) flow" where
  "reset_lookup env req token password w =
     (case fe_breached env password of
        Inl e \<Rightarrow> flow_fail Internal req e w
      | Inr True \<Rightarrow> flow_fail ValidationFailed req ''password appears in a breach list'' w
      | Inr False \<Rightarrow>
          (case hash_password env (draws_of w) password of
             Inl e \<Rightarrow> flow_fail ValidationFailed req e w
           | Inr (h, salt) \<Rightarrow>
               (let w = bump_draws w in
                case find_email_token env (fq_now req) ''password_reset'' token w of
                  None \<Rightarrow> flow_fail ValidationFailed req ''invalid or expired reset token'' w
                | Some t \<Rightarrow> (w, Inr (t, h, salt)))))"

definition store_password :: "flow_env \<Rightarrow> flow_req \<Rightarrow> email_token \<Rightarrow> string \<Rightarrow> string \<Rightarrow> unit flow" where
  "store_password env req t h salt w =
     (let w = update_user (et_user t) (\<lambda>u. u\<lparr>ui_password_hash := Some h, ui_password_salt := Some salt,
            ui_failed_count := 0, ui_locked_until := None\<rparr>) w;
          w = consume_token (fq_now req) (et_id t) w;
          w = (if fe_revoke_works env (draws_of w)
               then w\<lparr>aw_sess := fst (revoke_all_sessions (fq_now req) (et_user t) (aw_sess w))\<rparr> else w) in
      audited env None (Some (et_user t)) ''auth.password_reset_completed'' None None (json_object []) w)"

definition confirm_password_reset :: "flow_env \<Rightarrow> flow_req \<Rightarrow> string \<Rightarrow> string \<Rightarrow> unit flow" where
  "confirm_password_reset env req token password =
     st_then (reset_lookup env req token password) (\<lambda>(t, h, salt). store_password env req t h salt)"

section \<open>Multi-factor authentication\<close>

text \<open>Who sets up or confirms: the user of a pending challenge, or of an access token.\<close>

definition mfa_subject :: "flow_env \<Rightarrow> flow_req \<Rightarrow> string option \<Rightarrow> uuid flow" where
  "mfa_subject env req challenge w =
     (case challenge of
        Some raw \<Rightarrow>
          (case find_email_token env (fq_now req) ''mfa_pending'' raw w of
             None \<Rightarrow> flow_fail Unauthorized req ''invalid MFA challenge'' w
           | Some t \<Rightarrow> (w, Inr (et_user t)))
      | None \<Rightarrow>
          (case fq_bearer req of
             None \<Rightarrow> flow_fail Unauthorized req ''Bearer or challenge_token required'' w
           | Some token \<Rightarrow>
               (case verify_bearer env req w token of
                  Inl e \<Rightarrow> flow_fail Unauthorized req (show_token_error e) w
                | Inr c \<Rightarrow> (w, Inr (ac_user c)))))"

definition mfa_setup :: "flow_env \<Rightarrow> flow_req \<Rightarrow> string option \<Rightarrow> (string \<times> string) flow" where
  "mfa_setup env req challenge =
     st_then (mfa_subject env req challenge) (\<lambda>user w.
     let secret = fe_gen_secret env (draws_of w); w = bump_draws w in
     st_then (fetch_user env req user) (\<lambda>u w.
       case fe_otpauth env secret (ui_email u) of
         Inl e \<Rightarrow> flow_fail Internal req e w
       | Inr uri \<Rightarrow> (update_user user (\<lambda>u. u\<lparr>ui_totp_secret := Some secret\<rparr>) w, Inr (secret, uri))) w)"

fun insert_codes :: "flow_env \<Rightarrow> uuid \<Rightarrow> string list \<Rightarrow> auth_world \<Rightarrow> auth_world \<times> (string + unit)" where
  "insert_codes env user [] w = (w, Inr ())"
| "insert_codes env user (h # hs) w =
     (let i = au_gen_uuid (fe_auth env) (draws_of w); w = bump_draws w in
      if list_ex (\<lambda>c. rc_id c = i) (aw_recovery w) then (w, Inl (au_db_error (fe_auth env) ''mfa_recovery_code_pkey''))
      else insert_codes env user hs
        (w\<lparr>aw_recovery := aw_recovery w @ [\<lparr>rc_id = i, rc_user = user, rc_hash = h, rc_used = None\<rparr>]\<rparr>))"

definition mfa_confirm :: "flow_env \<Rightarrow> flow_req \<Rightarrow> string option \<Rightarrow> string \<Rightarrow> string list flow" where
  "mfa_confirm env req challenge code =
     st_then (mfa_subject env req challenge) (\<lambda>user w.
     case Option.bind (find_user w user) (\<lambda>u. map_option (\<lambda>s. (s, ui_email u)) (ui_totp_secret u)) of
       None \<Rightarrow> flow_fail ValidationFailed req ''call mfa/setup first'' w
     | Some (secret, email) \<Rightarrow>
         (case fe_totp env (fq_now req) secret email code of
            Inl e \<Rightarrow> flow_fail Internal req e w
          | Inr False \<Rightarrow> flow_fail Unauthorized req ''invalid MFA code'' w
          | Inr True \<Rightarrow>
              (let plain = fe_gen_codes env (draws_of w); before = bump_draws w;
                   w = update_user user (\<lambda>u. u\<lparr>ui_mfa_enabled := Some (fq_now req)\<rparr>) before;
                   w = w\<lparr>aw_recovery := filter (\<lambda>c. rc_user c \<noteq> user) (aw_recovery w)\<rparr> in
               case insert_codes env user (map (au_hash (fe_auth env)) plain) w of
                 (w, Inl e) \<Rightarrow> flow_fail Internal req e (before\<lparr>aw_sess := aw_sess w\<rparr>)
               | (w, Inr _) \<Rightarrow>
                   st_then (audited env None (Some user) ''auth.mfa_enabled'' None None (json_object [])) (\<lambda>_.
                   st_return (Inr plain)) w)))"

definition use_recovery_code :: "flow_env \<Rightarrow> flow_req \<Rightarrow> uuid \<Rightarrow> string option \<Rightarrow> auth_world \<Rightarrow> auth_world \<times> bool" where
  "use_recovery_code env req user recovery w =
     (case recovery of
        None \<Rightarrow> (w, False)
      | Some rc \<Rightarrow>
          (case find (\<lambda>c. rc_user c = user \<and> rc_used c = None \<and> au_hash (fe_auth env) rc = rc_hash c) (aw_recovery w) of
             None \<Rightarrow> (w, False)
           | Some c \<Rightarrow> (w\<lparr>aw_recovery := map (\<lambda>d. if rc_id d = rc_id c then d\<lparr>rc_used := Some (fq_now req)\<rparr> else d) (aw_recovery w)\<rparr>, True)))"

definition payload_membership :: "flow_env \<Rightarrow> json \<Rightarrow> uuid option" where
  "payload_membership env payload =
     Option.bind (Option.bind (json_get payload ''membership_id'') json_as_str) (\<lambda>s.
       case au_parse_uuid (fe_auth env) s of Inl e \<Rightarrow> None | Inr u \<Rightarrow> Some u)"

definition payload_role :: "json \<Rightarrow> string" where
  "payload_role payload = (case Option.bind (json_get payload ''role'') json_as_str of Some r \<Rightarrow> r | None \<Rightarrow> ''member'')"

definition payload_version :: "json \<Rightarrow> int" where
  "payload_version payload = (case json_get payload ''policy_version'' of Some (JInt n) \<Rightarrow> if in_i64 n then n else 1 | _ \<Rightarrow> 1)"

definition mfa_code_ok :: "flow_env \<Rightarrow> flow_req \<Rightarrow> user_identity \<Rightarrow> string option \<Rightarrow> bool" where
  "mfa_code_ok env req u code =
     (case (code, ui_totp_secret u) of
        (Some c, Some secret) \<Rightarrow> (case fe_totp env (fq_now req) secret (ui_email u) c of Inr b \<Rightarrow> b | Inl e \<Rightarrow> False)
      | _ \<Rightarrow> False)"

definition mfa_verify ::
  "flow_env \<Rightarrow> flow_req \<Rightarrow> string \<Rightarrow> string option \<Rightarrow> string option \<Rightarrow> string option \<Rightarrow> issued_tokens flow" where
  "mfa_verify env req challenge code recovery device =
     st_then (rate_limit req (''mfa_verify:'' @ fq_request_id req)) (\<lambda>_ w.
     case find_email_token env (fq_now req) ''mfa_pending'' challenge w of
       None \<Rightarrow> flow_fail Unauthorized req ''invalid MFA challenge'' w
     | Some t \<Rightarrow>
         st_then (fetch_user env req (et_user t)) (\<lambda>u w.
         case (if mfa_code_ok env req u code then (w, True) else use_recovery_code env req (et_user t) recovery w) of (w, ok) \<Rightarrow>
         if \<not> ok then flow_fail Unauthorized req ''invalid MFA code'' w
         else
           (let w = consume_token (fq_now req) (et_id t) w in
            case payload_membership env (et_payload t) of
              None \<Rightarrow> flow_fail Internal req ''challenge missing membership_id'' w
            | Some membership \<Rightarrow>
                (case et_org t of
                   None \<Rightarrow> flow_fail Internal req ''challenge missing org'' w
                 | Some org \<Rightarrow>
                     st_then (open_session env req (et_user t) (ui_public_id u) org membership (payload_role (et_payload t))
                       (payload_version (et_payload t)) device) (\<lambda>issued.
                     st_then (audited env (Some org) (Some (et_user t)) ''auth.mfa_verified'' (fq_ip req) (fq_agent req) (json_object [])) (\<lambda>_.
                     st_return (Inr issued))) (clear_failures (et_user t) w)))) w)"

section \<open>Organisations and keys\<close>

definition switch_org :: "flow_env \<Rightarrow> flow_req \<Rightarrow> string \<Rightarrow> string flow" where
  "switch_org env req raw =
     st_then (extract_auth_user env req) (\<lambda>user w.
     let me = user_id (xu_actor user); a = fe_auth env in
     case public_id_from_str (au_parse_uuid a) raw of
       Inl e \<Rightarrow> flow_fail ValidationFailed req ''invalid org_id'' w
     | Inr p \<Rightarrow>
         (case org_from_public p of
            Inl e \<Rightarrow> flow_fail ValidationFailed req (''org_id must be org_'' @ [char_of (226::nat), char_of (128::nat), char_of (166::nat)]) w
          | Inr org \<Rightarrow>
              (case find (\<lambda>m. mb_org m = org) (active_memberships (aw_dir w) me) of
                 None \<Rightarrow> flow_fail Forbidden req ''not a member of target org'' w
               | Some m \<Rightarrow>
                   st_then (\<lambda>w. (w\<lparr>aw_sess := move_session (fq_now req) (xu_session user) me org (mb_id m) (aw_sess w)\<rparr>, Inr ())) (\<lambda>_ w.
                   st_then (in_sessions req (mint_for a (fq_now req) (aw_ring w) (\<lambda>jti. session_claims a
                     (public_id_as_str (au_show_uuid a) (public_id_new ''User'' me)) me org (mb_id m) [mb_role m] (mb_policy_version m)
                     (xu_session user) (xu_family user) jti (load_org_region (aw_dir w) org)))) (\<lambda>access.
                   st_then (audited env (Some org) (Some me) ''auth.switch_org'' None None (json_object [(''org_id'', JStr raw)])) (\<lambda>_.
                   st_return (Inr access))) w) w)))"

definition active_owner_count :: "directory \<Rightarrow> uuid \<Rightarrow> nat" where
  "active_owner_count dir org =
     length (filter (\<lambda>m. mb_org m = org \<and> mb_role m = ''owner'' \<and> mb_status m = ''active'' \<and> mb_revoked m = None) (di_members dir))"

definition ensure_not_last_owner :: "directory \<Rightarrow> uuid \<Rightarrow> uuid \<Rightarrow> string \<Rightarrow> app_error + unit" where
  "ensure_not_last_owner dir org target rid =
     (case find (\<lambda>m. mb_org m = org \<and> mb_user m = target \<and> mb_revoked m = None) (di_members dir) of
        None \<Rightarrow> Inr ()
      | Some m \<Rightarrow>
          if mb_role m \<noteq> ''owner'' \<or> mb_status m \<noteq> ''active'' then Inr ()
          else if active_owner_count dir org \<le> 1
          then Inl (app_error_new Conflict rid ''cannot remove, suspend, or demote the last active Owner'')
          else Inr ())"

definition revoke_members :: "int \<Rightarrow> uuid \<Rightarrow> uuid \<Rightarrow> directory \<Rightarrow> directory" where
  "revoke_members now org target dir =
     dir\<lparr>di_members := map (\<lambda>m. if mb_org m = org \<and> mb_user m = target \<and> mb_revoked m = None
       then m\<lparr>mb_revoked := Some now, mb_status := ''revoked'', mb_policy_version := mb_policy_version m + 1\<rparr> else m) (di_members dir)\<rparr>"

definition roles_principal :: "string list \<Rightarrow> principal" where
  "roles_principal names = with_roles (List.map_filter role_parse names)"

definition parse_target_user :: "flow_env \<Rightarrow> flow_req \<Rightarrow> string \<Rightarrow> app_error + uuid" where
  "parse_target_user env req raw =
     (case au_parse_uuid (fe_auth env) raw of
        Inr u \<Rightarrow> Inr u
      | Inl e \<Rightarrow>
          (case public_id_from_str (au_parse_uuid (fe_auth env)) raw of
             Inl e \<Rightarrow> Inl (app_error_new ValidationFailed (fq_request_id req) ''bad user id'')
           | Inr p \<Rightarrow> Inr (pid_uuid p)))"

text \<open>
  The owners are counted without a lock before the update; \<open>seen\<close> is the directory that the count
  saw.
\<close>

definition revoke_membership_seen :: "flow_env \<Rightarrow> flow_req \<Rightarrow> string \<Rightarrow> directory \<Rightarrow> unit flow" where
  "revoke_membership_seen env req raw seen =
     st_then (extract_auth_user env req) (\<lambda>user w.
     if \<not> is_allowed (fe_time env) (roles_principal (xu_roles user)) admin_membership_manage
     then flow_fail Forbidden req ''missing admin.membership.manage'' w
     else
       st_then (st_return (parse_target_user env req raw)) (\<lambda>target w.
       st_then (st_return (ensure_not_last_owner seen (xu_org user) target (fq_request_id req))) (\<lambda>_ w.
       if \<not> list_ex (\<lambda>m. mb_org m = xu_org user \<and> mb_user m = target \<and> mb_revoked m = None) (di_members (aw_dir w))
       then flow_fail NotFound req ''membership not found'' w
       else
         (let a = fe_auth env; r = fe_relay env; k = draws_of w;
              envelope = envelope_new (au_gen_uuid a k) (fq_now req) (re_show_uuid r) (xu_org user) Auth ''membership'' ''revoked'' 1
                (xu_actor user) (json_object [(''user_id'', JStr (public_id_as_str (au_show_uuid a) (public_id_new ''User'' target)))]) in
          case insert_event r \<lparr>app_org = Some (xu_org user), app_outbox_relay = False\<rparr> envelope (aw_outbox w) of
            Inl e \<Rightarrow> flow_fail Internal req (fe_show_outbox_error env e) (bump_draws w)
          | Inr (ob, i) \<Rightarrow>
              let w = bump_draws w;
                  w = w\<lparr>aw_dir := revoke_members (fq_now req) (xu_org user) target (aw_dir w),
                        aw_sess := fst (revoke_org_user_sessions (fq_now req) (xu_org user) target (aw_sess w)),
                        aw_outbox := ob\<rparr> in
              audited env (Some (xu_org user)) (Some (user_id (xu_actor user))) ''auth.membership_revoked'' None None
                (json_object [(''target_user'', JStr raw)]) w)) w) w)"

definition revoke_membership :: "flow_env \<Rightarrow> flow_req \<Rightarrow> string \<Rightarrow> unit flow" where
  "revoke_membership env req raw w = revoke_membership_seen env req raw (aw_dir w) w"

definition rotate_jwks :: "flow_env \<Rightarrow> flow_req \<Rightarrow> string flow" where
  "rotate_jwks env req =
     st_then (extract_auth_user env req) (\<lambda>user w.
     if \<not> is_allowed (fe_time env) (roles_principal (xu_roles user)) admin_membership_manage
     then flow_fail Forbidden req ''not allowed to rotate JWKS'' w
     else
       (let a = fe_auth env; kid = ''kid-'' @ au_show_uuid a (au_gen_uuid a (draws_of w)); w = bump_draws w;
            secret = au_gen_token a (draws_of w); w = bump_draws w;
            key = \<lparr>sk_kid = kid, sk_secret = secret, sk_active = True\<rparr>;
            w = w\<lparr>aw_ring := ring_upsert key (aw_ring w), aw_jwks := map (\<lambda>k. k\<lparr>sk_active := False\<rparr>) (aw_jwks w)\<rparr> in
        if list_ex (\<lambda>k. sk_kid k = kid) (aw_jwks w) then flow_fail Internal req (au_db_error a ''jwks_signing_key_pkey'') w
        else (w\<lparr>aw_jwks := aw_jwks w @ [key]\<rparr>, Inr (''rotated to '' @ kid))))"

definition jwks :: "flow_env \<Rightarrow> auth_world \<Rightarrow> json" where
  "jwks env w = jwks_json (au_jwt (fe_auth env)) (aw_ring w)"

text \<open>
  Every request to these endpoints, and the second parts of those that read without a lock, with
  anything they may have read before.
\<close>

inductive auth_call :: "flow_env \<Rightarrow> auth_world \<Rightarrow> auth_world \<Rightarrow> bool" for env where
  login: "auth_call env w (fst (login env req email password wanted device w))"
| refresh: "auth_call env w (fst (refresh env req w))"
| logout: "auth_call env w (fst (logout env req w))"
| revoke_session: "auth_call env w (fst (revoke_session_handler env req raw w))"
| revoke_all_sessions: "auth_call env w (fst (revoke_all_sessions_handler env req w))"
| verify_email: "auth_call env w (fst (verify_email env req token w))"
| resend_verification: "auth_call env w (fst (resend_verification env req email w))"
| request_magic_link: "auth_call env w (fst (request_magic_link env req email wanted w))"
| consume_magic_link: "auth_call env w (fst (consume_magic_link env req token device w))"
| request_password_reset: "auth_call env w (fst (request_password_reset env req email w))"
| confirm_password_reset: "auth_call env w (fst (confirm_password_reset env req token password w))"
| mfa_setup: "auth_call env w (fst (mfa_setup env req challenge w))"
| mfa_confirm: "auth_call env w (fst (mfa_confirm env req challenge code w))"
| mfa_verify: "auth_call env w (fst (mfa_verify env req token code' recovery device w))"
| switch_org: "auth_call env w (fst (switch_org env req raw w))"
| revoke_membership: "auth_call env w (fst (revoke_membership env req raw w))"
| rotate_jwks: "auth_call env w (fst (rotate_jwks env req w))"
| login_compare: "auth_call env w (fst (login_compare env req email password wanted device u h w))"
| use_magic_link: "auth_call env w (fst (use_magic_link env req t device w))"
| store_password: "auth_call env w (fst (store_password env req t h salt w))"
| revoke_membership_seen: "auth_call env w (fst (revoke_membership_seen env req raw seen w))"

section \<open>What the endpoints do to the session store\<close>

text \<open>
  A relation between worlds that is transitive and holds when only the supply of random values
  moves on is kept by the statements that do not touch sessions.
\<close>

lemma bump_draws_sess [simp]: "aw_sess (bump_draws w) = (aw_sess w)\<lparr>sd_draws := Suc (sd_draws (aw_sess w))\<rparr>"
  by (simp add: bump_draws_def draws_of_def)

lemma sess_kept [simp]:
  "aw_sess (send_mail m w) = aw_sess w" "aw_sess (consume_token now i w) = aw_sess w" "aw_sess (update_user i f w) = aw_sess w"
  "aw_sess (clear_failures i w) = aw_sess w" "aw_sess (fst (record_failure now i w)) = aw_sess w"
  "aw_sess (fst (rate_limit req key w)) = aw_sess w" "aw_sess (fst (use_recovery_code env req user rc w)) = aw_sess w"
  "aw_sess (fst (flow_fail code req d w)) = aw_sess w" "aw_sess (fst (fetch_user env req i w)) = aw_sess w"
  "aw_sess (fst (extract_auth_user env req w)) = aw_sess w" "aw_sess (fst (mfa_subject env req challenge w)) = aw_sess w"
  by (simp_all add: send_mail_def consume_token_def update_user_def clear_failures_def record_failure_def rate_limit_def use_recovery_code_def
      flow_fail_def st_return_def fetch_user_def extract_auth_user_def mfa_subject_def split: option.split sum.split prod.split)

lemma audit_record_sess [simp]:
  "aw_sess (audit_record env org user event ip agent metadata w) = (aw_sess w)\<lparr>sd_draws := Suc (sd_draws (aw_sess w))\<rparr>"
  by (simp add: audit_record_def Let_def)

lemma insert_email_token_sess:
  "aw_sess (fst (insert_email_token env now user purpose org payload ttl w)) = (aw_sess w)\<lparr>sd_draws := Suc (Suc (sd_draws (aw_sess w)))\<rparr>"
  by (simp add: insert_email_token_def Let_def)

lemma insert_codes_sess: "\<exists>k. aw_sess (fst (insert_codes env user hs w)) = (aw_sess w)\<lparr>sd_draws := k\<rparr>"
proof (induction hs arbitrary: w)
  case Nil
  then show ?case by (intro exI [of _ "sd_draws (aw_sess w)"]) simp
next
  case (Cons h hs)
  let ?w = "(bump_draws w)\<lparr>aw_recovery := aw_recovery (bump_draws w) @ [\<lparr>rc_id = au_gen_uuid (fe_auth env) (draws_of w), rc_user = user,
    rc_hash = h, rc_used = None\<rparr>]\<rparr>"
  obtain k where "aw_sess (fst (insert_codes env user hs ?w)) = (aw_sess ?w)\<lparr>sd_draws := k\<rparr>" using Cons by blast
  then show ?case by (auto simp: Let_def)
qed

locale flow_relation =
  fixes R :: "auth_world \<Rightarrow> auth_world \<Rightarrow> bool"
  assumes R_trans: "R w w' \<Longrightarrow> R w' w'' \<Longrightarrow> R w w''"
    and R_draws: "aw_sess w' = (aw_sess w)\<lparr>sd_draws := k\<rparr> \<Longrightarrow> R w w'"
begin

lemma R_same: "aw_sess w' = aw_sess w \<Longrightarrow> R w w'"
  using R_draws [of w' "sd_draws (aw_sess w)" w] by simp

lemma R_refl: "R w w"
  by (rule R_same) simp

lemma R_then: "R w (fst (m w)) \<Longrightarrow> (\<And>x w'. R w' (fst (f x w'))) \<Longrightarrow> R w (fst (st_then m f w))"
  by (auto simp: st_then_def split: prod.split sum.split intro: R_trans)

lemma R_audited: "R w (fst (audited env org user event ip agent metadata w))"
  by (rule R_draws) (simp add: audited_def)

lemma R_seen: "R w (fst (seen_before env req scope w))"
proof (cases "fq_idempotency_key req")
  case None
  then show ?thesis by (simp add: seen_before_def R_refl)
next
  case (Some key)
  have "R w ((bump_draws w)\<lparr>aw_idem := x\<rparr>)" for x by (rule R_draws) simp
  with Some show ?thesis by (simp add: seen_before_def R_refl)
qed

lemma R_challenge: "R w (fst (mfa_challenge env req u m w))"
  using insert_email_token_sess [of env "fq_now req" "ui_id u" "''mfa_pending''" "Some (mb_org m)"
      "mfa_payload env m (ui_mfa_enabled u = None)" "10 * 60" w]
  by (auto simp: mfa_challenge_def flow_fail_def st_return_def split: prod.split sum.split intro: R_draws)

lemma R_return: "R w (fst (st_return r w))"
  by (simp add: st_return_def R_refl)

lemma R_fail: "R w' (fst (flow_fail code req d w'))"
  by (simp add: flow_fail_def R_return)

lemmas R_intros = R_then R_audited R_seen R_challenge R_return R_fail R_refl

end

definition sess_steps :: "flow_env \<Rightarrow> auth_world \<Rightarrow> auth_world \<Rightarrow> bool" where
  "sess_steps env w w' \<longleftrightarrow> (session_step (fe_auth env))\<^sup>*\<^sup>* (aw_sess w) (aw_sess w')"

interpretation steps: flow_relation "sess_steps env" for env
proof unfold_locales
  show "sess_steps env w w' \<Longrightarrow> sess_steps env w' w'' \<Longrightarrow> sess_steps env w w''" for w w' w'' by (simp add: sess_steps_def)
  show "aw_sess w' = (aw_sess w)\<lparr>sd_draws := k\<rparr> \<Longrightarrow> sess_steps env w w'" for w w' k
    by (simp add: sess_steps_def r_into_rtranclp session_step.draw)
qed

lemma rate_limit_steps: "sess_steps env w (fst (rate_limit req key w))"
  by (rule steps.R_same) simp

lemma fetch_user_steps: "sess_steps env w (fst (fetch_user env' req i w))"
  by (rule steps.R_same) simp

lemma extract_steps: "sess_steps env w (fst (extract_auth_user env' req w))"
  by (rule steps.R_same) simp

lemma subject_steps: "sess_steps env w (fst (mfa_subject env' req challenge w))"
  by (rule steps.R_same) simp

lemmas flow_intros = steps.R_intros rate_limit_steps fetch_user_steps extract_steps subject_steps

text \<open>The calls that open a session do so in a family of its own when the supply of UUIDs gives one.\<close>

definition fresh_family :: "flow_env \<Rightarrow> auth_world \<Rightarrow> bool" where
  "fresh_family env w \<longleftrightarrow> au_gen_uuid (fe_auth env) (Suc (draws_of w)) \<notin> as_family ` set (sd_sessions (aw_sess w))"

lemma open_then:
  assumes "fresh_family env w" "aw_sess v = aw_sess w" "\<And>x v. sess_steps env v (fst (f x v))"
  shows "sess_steps env w (fst (st_then (open_session env req user user_public org membership role policy_version device) f v))"
proof -
  let ?m = "open_session env req user user_public org membership role policy_version device"
  have "session_step (fe_auth env) (aw_sess v) (aw_sess (fst (?m v)))"
    using assms(1,2) unfolding open_session_def in_sessions_def fresh_family_def draws_of_def
    by (auto simp: case_prod_beta intro!: session_step.create)
  then have "sess_steps env v (fst (?m v))" by (simp add: sess_steps_def)
  then have "sess_steps env v (fst (st_then ?m f v))" by (rule steps.R_then) (rule assms(3))
  then show ?thesis by (simp add: sess_steps_def assms(2))
qed

lemma login_granted_steps:
  assumes "fresh_family env w"
  shows "sess_steps env w (fst (login_granted env req rl_key wanted device u w))"
proof -
  have challenge: "sess_steps env w (fst (st_then (mfa_challenge env req u m) (\<lambda>raw w.
      (if b then audit_record env org user event ip agent metadata w else w, Inr (MfaChallenge raw))) w))" for m b org user event ip agent metadata
    by (rule steps.R_then [OF steps.R_challenge]) (auto intro: steps.R_refl steps.R_draws)
  have session: "sess_steps env w (fst (st_then (open_session env req user user_public org membership role policy_version device) (\<lambda>issued.
      st_then (audited env org' user' event ip agent metadata) (\<lambda>_. st_return (Inr (TokenReply issued)))) (w\<lparr>aw_dir := d, aw_limiter := l\<rparr>)))"
    for user user_public org membership role policy_version org' user' event ip agent metadata d l
    by (rule open_then [OF assms]) (simp, intro flow_intros)
  show ?thesis unfolding login_granted_def Let_def clear_failures_def update_user_def
    by (auto intro: steps.R_fail challenge session split: option.split)
qed

lemma login_compare_steps:
  assumes "fresh_family env w"
  shows "sess_steps env w (fst (login_compare env req email password wanted device u h w))"
proof -
  have "sess_steps env w (fst (login_failed env req key u w :: auth_world \<times> (app_error + auth_reply)))" for key
    using sess_kept(5) [of "fq_now req" "ui_id u" w]
    by (auto simp: login_failed_def Let_def flow_fail_def st_return_def case_prod_beta intro: steps.R_draws)
  then show ?thesis using login_granted_steps [OF assms] by (simp add: login_compare_def)
qed

lemma login_lookup_sess: "aw_sess (fst (login_lookup env req email w)) = aw_sess w"
  using sess_kept(6) [of req "login_key req email" w]
  by (auto simp: login_lookup_def Let_def st_then_def flow_fail_def st_return_def simp del: sess_kept(6) split: option.split sum.split prod.split)

lemma st_then_cases:
  assumes "P (fst (m w))" "\<And>w' x. m w = (w', Inr x) \<Longrightarrow> P (fst (f x w'))"
  shows "P (fst (st_then m f w))"
  using assms by (cases "m w") (auto simp: st_then_def split: sum.split)

lemma login_steps:
  assumes "fresh_family env w"
  shows "sess_steps env w (fst (login env req email password wanted device w))"
  unfolding login_def
proof (rule st_then_cases)
  show "sess_steps env w (fst (login_lookup env req email w))"
    by (rule steps.R_same) (rule login_lookup_sess)
  fix w' x assume m: "login_lookup env req email w = (w', Inr x)"
  then have same: "aw_sess w' = aw_sess w" using login_lookup_sess [of env req email w] by simp
  then have "fresh_family env w'" using assms by (simp add: fresh_family_def draws_of_def)
  then show "sess_steps env w (fst ((case x of (u, h) \<Rightarrow> login_compare env req email password wanted device u h) w'))"
    using login_compare_steps [of env w'] same by (cases x) (simp add: sess_steps_def)
qed

lemma refresh_steps: "sess_steps env w (fst (refresh env req w))"
proof -
  have rot: "sess_steps env v (v\<lparr>aw_sess := s\<rparr>)" if "rotate_refresh (fe_auth env) now dir ring rt (aw_sess v) = (s, r)" for v now dir ring rt s r
    using session_step.rotate [of "fe_auth env" "aw_sess v" now dir ring rt] that by (simp add: sess_steps_def r_into_rtranclp)
  have after: "sess_steps env v (fst (st_then (audited env org user event ip agent metadata) f (v\<lparr>aw_sess := s\<rparr>)))"
    "sess_steps env v (fst (flow_fail code req d (v\<lparr>aw_sess := s\<rparr>)))"
    if "rotate_refresh (fe_auth env) now dir ring rt (aw_sess v) = (s, r)" "\<And>x u. sess_steps env u (fst (f x u))"
    for v now dir ring rt s r org user event ip agent metadata code d and f :: "unit \<Rightarrow> issued_tokens flow"
    by (rule steps.R_trans [OF rot [OF that(1)]], intro flow_intros that(2), rule steps.R_trans [OF rot [OF that(1)]], rule steps.R_fail)
  have body: "sess_steps env v (fst (case refresh_from_cookie req of
       None \<Rightarrow> flow_fail Unauthorized req ''refresh cookie missing'' v
     | Some rt \<Rightarrow>
         (case rotate_refresh (fe_auth env) (fq_now req) (aw_dir v) (aw_ring v) rt (aw_sess v) of
            (s, Inl e) \<Rightarrow> flow_fail Unauthorized req e (v\<lparr>aw_sess := s\<rparr>)
          | (s, Inr (Issued issued)) \<Rightarrow> st_then (audited env None None ev None None (m1 issued)) (\<lambda>_. st_return (Inr issued)) (v\<lparr>aw_sess := s\<rparr>)
          | (s, Inr (ReuseDetected family)) \<Rightarrow> st_then (audited env None None ev' None None (m2 family)) (\<lambda>_. flow_fail Unauthorized req d) (v\<lparr>aw_sess := s\<rparr>))))"
    for v ev ev' m1 m2 d
    by (auto split: option.split prod.split sum.split refresh_outcome.split intro!: after steps.R_fail steps.R_return)
  show ?thesis unfolding refresh_def by (intro steps.R_then rate_limit_steps body)
qed

lemma revoke_family_steps: "(session_step env)\<^sup>*\<^sup>* s (fold (\<lambda>f. revoke_family now f reason) fs s)"
  by (induction fs arbitrary: s) (auto intro: converse_rtranclp_into_rtranclp session_step.revoke)

lemma revoke_steps:
  "(session_step env)\<^sup>*\<^sup>* s (fst (revoke_session now user sid s))"
  "(session_step env)\<^sup>*\<^sup>* s (fst (revoke_all_sessions now user s))"
  "(session_step env)\<^sup>*\<^sup>* s (fst (revoke_org_user_sessions now org user s))"
  by (auto simp: revoke_session_def revoke_all_sessions_def revoke_org_user_sessions_def Let_def revoke_family_steps
      split: option.split intro: session_step.revoke)

lemma revoked_then:
  assumes "(session_step (fe_auth env))\<^sup>*\<^sup>* (aw_sess w) s" "aw_sess v = s" "\<And>v. sess_steps env v (fst (f v))"
  shows "sess_steps env w (fst (f v))"
  using assms(1,2) assms(3) [of v] by (auto simp: sess_steps_def intro: rtranclp_trans)

lemma logout_steps: "sess_steps env w (fst (logout env req w))"
  unfolding logout_def Let_def
  by (auto split: option.split sum.split intro: steps.R_refl revoked_then [where f = "audited _ _ _ _ _ _ _", OF revoke_steps(1)] steps.R_audited)

lemma revoke_handlers_steps:
  "sess_steps env w (fst (revoke_session_handler env req raw w))"
  "sess_steps env w (fst (revoke_all_sessions_handler env req w))"
proof -
  have one: "sess_steps env v (v\<lparr>aw_sess := s\<rparr>)" if "revoke_session now user sid (aw_sess v) = (s, ok)" for v s ok now user sid
    using revoke_steps(1) [of "fe_auth env" "aw_sess v" now user sid] that by (simp add: sess_steps_def)
  have every: "sess_steps env v (v\<lparr>aw_sess := s\<rparr>)" if "revoke_all_sessions now user (aw_sess v) = (s, n)" for v s n now user
    using revoke_steps(2) [of "fe_auth env" "aw_sess v" now user] that by (simp add: sess_steps_def)
  show "sess_steps env w (fst (revoke_session_handler env req raw w))"
    unfolding revoke_session_handler_def
    by (rule steps.R_then [OF extract_steps])
      (auto split: sum.split prod.split intro: steps.R_fail one simp: flow_fail_def st_return_def steps.R_refl)
  show "sess_steps env w (fst (revoke_all_sessions_handler env req w))"
    unfolding revoke_all_sessions_handler_def by (rule steps.R_then [OF extract_steps]) (auto split: prod.split intro: every)
qed

text \<open>Endpoints that only draw random values.\<close>

lemma email_token_steps: "insert_email_token env' now user purpose org payload ttl w = (v, raw, r) \<Longrightarrow> sess_steps env w v"
  using insert_email_token_sess [of env' now user purpose org payload ttl w] by (auto intro: steps.R_draws)

lemma mail_steps:
  "sess_steps env w (fst (verify_email env req token w))"
  "sess_steps env w (fst (resend_verification env req email w))"
  "sess_steps env w (fst (request_magic_link env req email wanted w))"
  "sess_steps env w (fst (request_password_reset env req email w))"
proof -
  show "sess_steps env w (fst (verify_email env req token w))"
    by (auto simp: verify_email_def Let_def audited_def split: option.split intro: steps.R_fail steps.R_draws)
  have sent: "sess_steps env w (send_mail m v)" if "sess_steps env w v" for m v w
    by (rule steps.R_trans [OF that]) (rule steps.R_same, simp)
  have logged: "sess_steps env w (fst (audited env org user event ip agent metadata (send_mail m v)))" if "sess_steps env w v"
    for m v w org user event ip agent metadata
    by (rule steps.R_trans [OF sent [OF that]]) (rule steps.R_audited)
  have bump: "sess_steps env v (bump_draws v)" for v by (rule steps.R_draws) simp
  show "sess_steps env w (fst (resend_verification env req email w))"
    unfolding resend_verification_def Let_def
    by (intro steps.R_then rate_limit_steps steps.R_seen)
      (auto split: option.split prod.split intro!: steps.R_refl sent intro: email_token_steps)
  show "sess_steps env w (fst (request_magic_link env req email wanted w))"
    unfolding request_magic_link_def Let_def
    by (intro steps.R_then rate_limit_steps steps.R_seen)
      (auto split: option.split prod.split sum.split intro!: steps.R_refl logged bump intro: email_token_steps)
  show "sess_steps env w (fst (request_password_reset env req email w))"
    unfolding request_password_reset_def Let_def
    by (intro steps.R_then rate_limit_steps steps.R_seen)
      (auto split: option.split prod.split intro!: steps.R_refl logged intro: email_token_steps)
qed

text \<open>Endpoints that open or close sessions on behalf of a mailed token or a challenge.\<close>

lemma issue_for_user_steps:
  assumes "fresh_family env w"
  shows "sess_steps env w (fst (issue_for_user env req user preferred device w))"
proof -
  have session: "sess_steps env w (fst (st_then (open_session env req u user_public org membership role policy_version device) (\<lambda>issued.
      st_return (Inr (TokenReply issued))) w))" for u user_public org membership role policy_version
    by (rule open_then [OF assms]) (simp, intro flow_intros)
  have challenge: "sess_steps env w (fst (st_then (mfa_challenge env req u m) (\<lambda>raw. st_return (Inr (MfaChallenge raw))) w))" for u m
    by (intro flow_intros)
  show ?thesis
    by (cases "find_user w user")
      (auto simp: issue_for_user_def st_then_def [of "fetch_user env req user"] fetch_user_def Let_def
        split: option.split intro: session challenge steps.R_fail simp: flow_fail_def st_return_def steps.R_refl)
qed

lemma use_magic_link_steps:
  assumes "fresh_family env w"
  shows "sess_steps env w (fst (use_magic_link env req t device w))"
  using issue_for_user_steps [of env "consume_token (fq_now req) (et_id t) w" req "et_user t" "et_org t" device] assms
  by (simp add: use_magic_link_def sess_steps_def fresh_family_def draws_of_def)

lemma consume_magic_link_steps:
  assumes "fresh_family env w"
  shows "sess_steps env w (fst (consume_magic_link env req token device w))"
  using use_magic_link_steps [OF assms] by (auto simp: consume_magic_link_def split: option.split intro: steps.R_fail)

lemma reset_lookup_draws: "\<exists>k. aw_sess (fst (reset_lookup env req token password w)) = (aw_sess w)\<lparr>sd_draws := k\<rparr>"
proof -
  have same: "\<exists>k. aw_sess w = (aw_sess w)\<lparr>sd_draws := k\<rparr>" by (rule exI [of _ "sd_draws (aw_sess w)"]) simp
  then show ?thesis
    by (auto simp: reset_lookup_def Let_def flow_fail_def st_return_def split: option.split sum.split bool.split prod.split
        intro: same)
qed

lemma store_password_steps: "sess_steps env w (fst (store_password env req t h salt w))"
proof -
  have "sess_steps env w (fst (audited env None user event None None m v))" if "aw_sess v = aw_sess w" for v user event m
    using steps.R_trans [OF steps.R_same [OF that] steps.R_audited] by simp
  moreover have "sess_steps env w (fst (audited env None user event None None m (v\<lparr>aw_sess :=
      fst (revoke_all_sessions now user' (aw_sess v))\<rparr>)))" if "aw_sess v = aw_sess w" for v user event m now user'
    by (rule revoked_then [OF revoke_steps(2)]) (simp add: that, rule steps.R_audited)
  ultimately show ?thesis by (simp add: store_password_def Let_def)
qed

lemma confirm_password_reset_steps: "sess_steps env w (fst (confirm_password_reset env req token password w))"
proof -
  have "sess_steps env w (fst (reset_lookup env req token password w))"
    using reset_lookup_draws [of env req token password w] by (auto intro: steps.R_draws)
  then show ?thesis
    unfolding confirm_password_reset_def by (rule steps.R_then) (simp add: case_prod_beta store_password_steps)
qed

lemma mfa_setup_steps: "sess_steps env w (fst (mfa_setup env req challenge w))"
proof -
  have "sess_steps env v (fst (st_then (fetch_user env req user) (\<lambda>u w. case fe_otpauth env secret (ui_email u) of
      Inl e \<Rightarrow> flow_fail Internal req e w | Inr uri \<Rightarrow> (update_user user f w, Inr (secret, uri))) (bump_draws v)))" for v user secret f
    by (rule steps.R_trans [OF steps.R_draws [of "bump_draws v"]], simp, rule steps.R_then [OF fetch_user_steps])
      (auto split: sum.split intro: steps.R_fail steps.R_same)
  then show ?thesis unfolding mfa_setup_def Let_def by (rule steps.R_then [OF subject_steps])
qed

lemma mfa_confirm_steps: "sess_steps env w (fst (mfa_confirm env req challenge code w))"
proof -
  have codes: "sess_steps env v v'" if "insert_codes env user hs v0 = (v', r)" "aw_sess v0 = (aw_sess v)\<lparr>sd_draws := k\<rparr>" for v v' v0 user hs r k
    using insert_codes_sess [of env user hs v0] that by (auto intro: steps.R_draws)
  have failed: "sess_steps env v (fst (flow_fail c req e (b\<lparr>aw_sess := aw_sess v'\<rparr>)))" if "sess_steps env v v'" for v v' b c e
    using that by (simp add: sess_steps_def)
  have confirmed: "sess_steps env v (fst (st_then (audited env None u event None None m) (\<lambda>_. st_return r) v'))" if "sess_steps env v v'" for v v' u event m r
    by (rule steps.R_trans [OF that]) (intro flow_intros)
  show ?thesis unfolding mfa_confirm_def Let_def
    by (rule steps.R_then [OF subject_steps])
      (auto split: option.split sum.split bool.split prod.split intro!: failed confirmed intro: steps.R_fail codes)
qed

lemma fetch_then:
  "st_then (fetch_user env req i) f w = (case find_user w i of
     None \<Rightarrow> flow_fail Internal req (au_db_error (fe_auth env) ''row_not_found'') w | Some u \<Rightarrow> f u w)"
  by (simp add: st_then_def fetch_user_def flow_fail_def st_return_def split: option.split)

lemma mfa_verify_steps:
  assumes "fresh_family env w"
  shows "sess_steps env w (fst (mfa_verify env req challenge code recovery device w))"
proof -
  have session: "sess_steps env w (fst (st_then (open_session env req u user_public org membership role policy_version device) (\<lambda>issued.
      st_then (audited env org' user' event ip agent metadata) (\<lambda>_. st_return (Inr issued))) v))" if "aw_sess v = aw_sess w"
    for v u user_public org membership role policy_version org' user' event ip agent metadata
    by (rule open_then [OF assms that]) (intro flow_intros)
  have failed: "sess_steps env w (fst (flow_fail c req e v))" if "aw_sess v = aw_sess w" for c e v
    using that by (intro steps.R_same) simp
  have recovered: "aw_sess v = aw_sess x" if "use_recovery_code env req user rc x = (v, ok)" for user rc x v ok
    using sess_kept(7) [of env req user rc x] that by simp
  define key where "key = ''mfa_verify:'' @ fq_request_id req"
  obtain v r where v: "rate_limit req key w = (v, r)" by (cases "rate_limit req key w")
  then have same: "aw_sess v = aw_sess w" using sess_kept(6) [of req key w] by simp
  show ?thesis
    by (cases r)
      (auto simp: mfa_verify_def key_def [symmetric] st_then_eq [where m = "rate_limit req key", OF v] Let_def same
        fetch_then simp del: append.simps
        split: option.split prod.split intro!: session failed dest: recovered intro: steps.R_same)
qed

lemma switch_org_steps: "sess_steps env w (fst (switch_org env req raw w))"
proof -
  have move: "sess_steps env v (fst ((\<lambda>w. (w\<lparr>aw_sess := move_session now sid user org m (aw_sess w)\<rparr>, Inr ())) v))" for v now sid user org m
    by (simp add: sess_steps_def r_into_rtranclp session_step.move)
  have mint: "sess_steps env v (fst (in_sessions req (mint_for a now ring claims) v))" for v a now ring claims
    by (rule steps.R_draws [where k = "sd_draws (fst (mint_for a now ring claims (aw_sess v)))"])
      (simp add: in_sessions_def mint_for_def draw_uuid_def Let_def st_then_def st_return_def split: prod.split sum.split)
  show ?thesis unfolding switch_org_def Let_def
    by (rule steps.R_then [OF extract_steps])
      (auto split: option.split sum.split intro!: steps.R_then [OF move] steps.R_then [OF mint] flow_intros)
qed

lemma revoke_membership_seen_steps: "sess_steps env w (fst (revoke_membership_seen env req raw seen w))"
proof -
  have bump: "sess_steps env v (bump_draws v)" for v by (rule steps.R_draws) simp
  have failed: "sess_steps env v (fst (flow_fail c req e (bump_draws v)))" for c e v
    by (rule steps.R_trans [OF bump]) (rule steps.R_fail)
  have revoked: "sess_steps env v (fst (audited env org user event ip agent metadata ((bump_draws v)\<lparr>aw_dir := d,
      aw_sess := fst (revoke_org_user_sessions now g target (aw_sess (bump_draws v))), aw_outbox := ob\<rparr>)))"
    for v org user event ip agent metadata d now g target ob
    by (rule steps.R_trans [OF bump], rule revoked_then [OF revoke_steps(3)]) (simp, rule steps.R_audited)
  show ?thesis unfolding revoke_membership_seen_def Let_def
    by (rule steps.R_then [OF extract_steps])
      (auto split: option.split sum.split prod.split simp del: bump_draws_sess intro!: flow_intros failed revoked)
qed

lemma revoke_membership_steps: "sess_steps env w (fst (revoke_membership env req raw w))"
  unfolding revoke_membership_def by (rule revoke_membership_seen_steps)

lemma rotate_jwks_steps: "sess_steps env w (fst (rotate_jwks env req w))"
  unfolding rotate_jwks_def Let_def
  by (rule steps.R_then [OF extract_steps]) (auto intro: steps.R_fail steps.R_draws)

lemmas call_steps = login_steps refresh_steps logout_steps revoke_handlers_steps mail_steps consume_magic_link_steps
  confirm_password_reset_steps mfa_setup_steps mfa_confirm_steps mfa_verify_steps switch_org_steps revoke_membership_steps rotate_jwks_steps
  login_compare_steps use_magic_link_steps store_password_steps revoke_membership_seen_steps

lemma auth_call_steps: "auth_call env w w' \<Longrightarrow> fresh_family env w \<Longrightarrow> sess_steps env w w'"
  by (induction rule: auth_call.induct) (rule call_steps, assumption?)+

definition endpoint :: "flow_env \<Rightarrow> auth_world \<Rightarrow> auth_world \<Rightarrow> bool" where
  "endpoint env w w' \<longleftrightarrow> auth_call env w w' \<and> fresh_family env w"

lemma endpoint_steps: "endpoint env w w' \<Longrightarrow> sess_steps env w w'"
  by (simp add: endpoint_def auth_call_steps)

lemma endpoints_steps: "(endpoint env)\<^sup>*\<^sup>* w w' \<Longrightarrow> sess_steps env w w'"
  by (induction rule: rtranclp_induct) (auto intro: steps.R_refl steps.R_trans endpoint_steps)

interpretation endpoints: transition_system "\<lambda>w. sess_init (aw_sess w)" "endpoint env" "\<lambda>w. sess_inv (aw_sess w)" for env
proof unfold_locales
  show "sess_init (aw_sess w) \<Longrightarrow> sess_inv (aw_sess w)" for w by (rule sessions.inv_init)
  show "sess_inv (aw_sess w) \<Longrightarrow> endpoint env w w' \<Longrightarrow> sess_inv (aw_sess w')" for w w'
    using endpoint_steps [of env w w'] sessions.steps_inv [of "fe_auth env" "aw_sess w" "aw_sess w'"] by (simp add: sess_steps_def)
qed

section \<open>A reset password ends every session\<close>

lemma revoke_families_revoked:
  assumes "r \<in> set (sd_sessions s)" "as_family r \<in> set fs \<or> as_revoked r \<noteq> None"
  shows "\<exists>r' \<in> set (sd_sessions (fold (\<lambda>f. revoke_family now f reason) fs s)). as_id r' = as_id r \<and> as_family r' = as_family r \<and> as_revoked r' \<noteq> None"
  using assms
proof (induction fs arbitrary: s r)
  case (Cons f fs)
  define r1 where "r1 = (if as_family r = f \<and> as_revoked r = None then r\<lparr>as_revoked := Some now, as_revoke_reason := Some reason\<rparr> else r)"
  have r1: "r1 \<in> set (sd_sessions (revoke_family now f reason s))"
    using Cons.prems(1) by (auto simp: revoke_family_def r1_def)
  moreover have "as_family r1 \<in> set fs \<or> as_revoked r1 \<noteq> None" using Cons.prems(2) by (auto simp: r1_def)
  ultimately show ?case using Cons.IH [OF r1] by (auto simp: r1_def split: if_splits)
qed auto

lemma revoke_all_sessions_revoked:
  assumes "r \<in> set (sd_sessions s)" "as_user r = user"
  shows "\<exists>r' \<in> set (sd_sessions (fst (revoke_all_sessions now user s))). as_id r' = as_id r \<and> as_family r' = as_family r \<and> as_revoked r' \<noteq> None"
  unfolding revoke_all_sessions_def Let_def fst_conv
  by (rule revoke_families_revoked [OF assms(1)]) (use assms in \<open>auto simp: live_families_def\<close>)

lemma reset_lookup_Inr:
  assumes "reset_lookup env req token password w = (w1, Inr (t, h, salt))"
  shows "t \<in> set (aw_email w) \<and> et_hash t = au_hash (fe_auth env) token \<and> et_consumed t = None \<and> et_purpose t = ''password_reset'' \<and>
    fq_now req < et_expires t"
proof -
  have "aw_email (bump_draws w) = aw_email w" by (simp add: bump_draws_def)
  then show ?thesis
    using assms unfolding reset_lookup_def Let_def
    by (auto simp: flow_fail_def st_return_def find_email_token_def split: sum.splits bool.splits option.splits dest!: find_SomeD)
qed

lemma store_password_sessions:
  assumes "store_password env req t h salt w = (w1, r)"
  shows "r = Inr ()" and "sd_sessions (aw_sess w1) = (if fe_revoke_works env (draws_of w)
    then sd_sessions (fst (revoke_all_sessions (fq_now req) (et_user t) (aw_sess w))) else sd_sessions (aw_sess w))"
  using assms by (auto simp: store_password_def Let_def audited_def draws_of_def)

lemma refresh_Inr:
  assumes "refresh env req w = (w', Inr i)"
  shows "\<exists>now dir ring rt s. rotate_refresh (fe_auth env) now dir ring rt (aw_sess w) = (s, Inr (Issued i))"
proof -
  define key where "key = ''refresh:'' @ fq_request_id req"
  obtain v r where v: "rate_limit req key w = (v, r)" by (cases "rate_limit req key w")
  then have "aw_sess v = aw_sess w" using sess_kept(6) [of req key w] by simp
  with assms show ?thesis
    by (auto simp: refresh_def key_def [symmetric] v st_then_def audited_def st_return_def flow_fail_def
        simp del: append.simps split: sum.splits option.splits prod.splits refresh_outcome.splits) blast
qed

text \<open>
  C18: Resetting a password ends the sessions of its user. A reset finds an unused, unexpired token
  that was mailed for a reset; any calls of the endpoints may come before it stores the new
  password. When the connection on which it revokes the sessions works, then after any further
  sequence of calls no refresh gives tokens of a session that the user of the token had when the
  password was stored, and \<open>extract_auth_user\<close>, through which the handlers for logged-in users
  get their user, refuses each access token of such a session.
\<close>

theorem reset_ends_sessions:
  assumes "sess_init (aw_sess w0)" "(endpoint env)\<^sup>*\<^sup>* w0 wa" "reset_lookup env req token password wa = (wb, Inr (t, h, salt))"
    and "(endpoint env)\<^sup>*\<^sup>* wb w" "fe_revoke_works env (draws_of w)" "store_password env req t h salt w = (w1, res)"
    and "(endpoint env)\<^sup>*\<^sup>* w1 w2"
  shows "t \<in> set (aw_email wa) \<and> et_hash t = au_hash (fe_auth env) token \<and> et_purpose t = ''password_reset'' \<and> et_consumed t = None \<and>
    fq_now req < et_expires t \<and> res = Inr () \<and>
    (\<forall>r \<in> set (sd_sessions (aw_sess w)). as_user r = et_user t \<longrightarrow>
      (\<forall>req' w3 i. refresh env req' w2 = (w3, Inr i) \<longrightarrow> it_family i \<noteq> as_family r) \<and>
      (\<forall>req' raw c. fq_bearer req' = Some raw \<longrightarrow> verify_bearer env req' w2 raw = Inr c \<longrightarrow> \<not> is_api_key c \<longrightarrow> ac_sid c = as_id r \<longrightarrow>
        (\<exists>e. extract_auth_user env req' w2 = (w2, Inl e))))"
proof -
  have "sess_inv (aw_sess wa)" by (rule endpoints.reachable_inv [OF assms(1,2)])
  then have "sess_inv (aw_sess wb)" using reset_lookup_draws [of env req token password wa] assms(3) by (auto simp: draws_inv)
  then have "sess_inv (aw_sess w)" by (rule endpoints.steps_inv [OF assms(4)])
  then have inv: "sess_inv (aw_sess w1)"
    using store_password_steps [of env w req t h salt] assms(6) sessions.steps_inv [of "fe_auth env" "aw_sess w" "aw_sess w1"]
    by (simp add: sess_steps_def)
  have later: "(session_step (fe_auth env))\<^sup>*\<^sup>* (aw_sess w1) (aw_sess w2)"
    using endpoints_steps [OF assms(7)] by (simp add: sess_steps_def)
  have "(refresh env req' w2 = (w3, Inr i) \<longrightarrow> it_family i \<noteq> as_family r) \<and>
      (fq_bearer req' = Some raw \<longrightarrow> verify_bearer env req' w2 raw = Inr c \<longrightarrow> \<not> is_api_key c \<longrightarrow> ac_sid c = as_id r \<longrightarrow>
        (\<exists>e. extract_auth_user env req' w2 = (w2, Inl e)))"
    if r: "r \<in> set (sd_sessions (aw_sess w))" "as_user r = et_user t" for r req' w3 i raw c
  proof -
    from revoke_all_sessions_revoked [OF r, of "fq_now req"] store_password_sessions(2) [OF assms(6)] assms(5) obtain r1
      where r1: "r1 \<in> set (sd_sessions (aw_sess w1))" "as_id r1 = as_id r" "as_family r1 = as_family r" "as_revoked r1 \<noteq> None"
      by auto
    note final = revoked_family_final [OF inv r1(1,4) later]
    show ?thesis
      using final(1) refresh_Inr [of env req' w2 w3 i] final(2) [of "fq_now req'" "aw_ring w2" raw c "aw_dir w2" "fq_request_id req'"] r1(2,3)
      by (auto simp: extract_auth_user_def verify_bearer_def)
  qed
  then show ?thesis using reset_lookup_Inr [OF assms(3)] store_password_sessions(1) [OF assms(6)] by blast
qed

text \<open>
  Two ways around it. When the revocation fails, the reset reports success all the same and every
  session stays as it was; and \<open>mfa_setup\<close> does not go through the extractor: an access token
  whose session has ended still replaces the TOTP secret of its user until the token expires.
\<close>

theorem reset_hides_failed_revocation:
  assumes "\<not> fe_revoke_works env (draws_of w)" "store_password env req t h salt w = (w1, res)"
  shows "res = Inr () \<and> sd_sessions (aw_sess w1) = sd_sessions (aw_sess w)"
  using store_password_sessions [OF assms(2)] assms(1) by simp

theorem ended_session_replaces_secret:
  assumes "fq_bearer req = Some raw" "verify_bearer env req w raw = Inr c" "find_user w (ac_user c) = Some u"
    and "fe_otpauth env (fe_gen_secret env (draws_of w)) (ui_email u) = Inr uri"
    and "r \<in> set (sd_sessions (aw_sess w))" "as_id r = ac_sid c" "as_revoked r \<noteq> None"
  shows "\<exists>w1 u1. mfa_setup env req None w = (w1, Inr (fe_gen_secret env (draws_of w), uri)) \<and>
    find_user w1 (ac_user c) = Some u1 \<and> ui_totp_secret u1 = Some (fe_gen_secret env (draws_of w))"
proof -
  let ?f = "\<lambda>u. u\<lparr>ui_totp_secret := Some (fe_gen_secret env (draws_of w))\<rparr>"
  have u: "find_user (bump_draws w) (ac_user c) = Some u" using assms(3) by (simp add: find_user_def bump_draws_def)
  have "mfa_setup env req None w = (update_user (ac_user c) ?f (bump_draws w), Inr (fe_gen_secret env (draws_of w), uri))"
    using assms(1,2,4) u by (simp add: mfa_setup_def mfa_subject_def st_then_def [of "mfa_subject _ _ _"] Let_def fetch_then)
  moreover have "find_user (update_user (ac_user c) ?f (bump_draws w)) (ac_user c) = Some (?f u)"
    using u by (simp add: find_user_def update_user_def find_map_id) (auto dest: find_SomeD)
  ultimately show ?thesis by simp
qed

section \<open>How fast passwords can be guessed\<close>

lemma limiter_free [simp]:
  "find_user (w\<lparr>aw_limiter := l\<rparr>) = find_user w" "find_by_email (w\<lparr>aw_limiter := l\<rparr>) = find_by_email w"
  by (simp_all add: find_user_def find_by_email_def fun_eq_iff)

lemma rate_limit_dir: "rate_limit req key w = (v, r) \<Longrightarrow> aw_dir v = aw_dir w"
  by (auto simp: rate_limit_def flow_fail_def st_return_def split: prod.splits sum.splits)

lemma audit_record_dir [simp]: "aw_dir (audit_record env org user event ip agent metadata w) = aw_dir w"
  by (simp add: audit_record_def Let_def bump_draws_def)

text \<open>
  Guessing in parallel. A request has read the row (\<open>asked\<close>) some time before its password is
  compared and the failure recorded (\<open>compared\<close>); in between other requests read, compare and record.
  At most \<open>k\<close> requests are between the two at any time, and the clock never goes back. The state is
  the world, the requests in flight with the row and the hash they read, the time, and the number
  of passwords compared.
\<close>

type_synonym guess_state = "auth_world \<times> (flow_req \<times> user_identity \<times> string) list \<times> int \<times> nat"

inductive guess_step :: "flow_env \<Rightarrow> string \<Rightarrow> nat \<Rightarrow> guess_state \<Rightarrow> guess_state \<Rightarrow> bool" for env email k where
  asked: "now \<le> fq_now req \<Longrightarrow> login_lookup env req email w = (w', Inr (u, h)) \<Longrightarrow> length fs < k \<Longrightarrow>
    guess_step env email k (w, fs, now, n) (w', (req, u, h) # fs, fq_now req, n)"
| refused: "now \<le> fq_now req \<Longrightarrow> login_lookup env req email w = (w', Inl e) \<Longrightarrow>
    guess_step env email k (w, fs, now, n) (w', fs, fq_now req, n)"
| compared: "now \<le> t \<Longrightarrow> (req, u, h) \<in> set fs \<Longrightarrow> \<not> fe_verify_password env password h \<Longrightarrow>
    guess_step env email k (w, fs, now, n)
      (fst (login_compare env (req\<lparr>fq_now := t\<rparr>) email password wanted device u h w), remove1 (req, u, h) fs, t, Suc n)"
| given_up: "guess_step env email k (w, fs, now, n) (w, remove1 f fs, now, n)"

definition guess_inv :: "string \<Rightarrow> uuid \<Rightarrow> int \<Rightarrow> nat \<Rightarrow> guess_state \<Rightarrow> bool" where
  "guess_inv email i start k s \<longleftrightarrow> (case s of (w, fs, now, n) \<Rightarrow>
     distinct (map ui_id (di_users (aw_dir w))) \<and> start \<le> now \<and> length fs \<le> k \<and> (\<forall>(req, u, h) \<in> set fs. ui_id u = i) \<and>
     (\<exists>u. find_by_email w (normalize_email email) = Some u \<and> ui_id u = i \<and> ui_failed_count u = int n \<and>
       (n < 8 \<or> (\<exists>l j. ui_locked_until u = Some l \<and> 0 \<le> j \<and> 900 * j \<le> l - 900 - start \<and> l \<le> now + 900 \<and>
          (int (n + length fs) \<le> 7 + int k * (j + 1) \<or> int n \<le> 7 + int k * (j + 1) \<and> l \<le> now)))))"

lemma find_by_email_update:
  assumes "\<And>u. ui_email_normalized (f u) = ui_email_normalized u" "find_by_email w email = Some u"
  shows "find_by_email (update_user (ui_id u) f w) email = Some (f u)"
  using assms by (simp add: find_by_email_def update_user_def find_map_id)

lemma find_user_by_email:
  "distinct (map ui_id (di_users (aw_dir w))) \<Longrightarrow> find_by_email w email = Some u \<Longrightarrow> find_user w (ui_id u) = Some u"
  unfolding find_by_email_def find_user_def by (blast dest: find_SomeD intro: find_by_key)

lemma login_lookup_dir: "login_lookup env req email w = (w', r) \<Longrightarrow> aw_dir w' = aw_dir w"
proof -
  assume m: "login_lookup env req email w = (w', r)"
  obtain v q where v: "rate_limit req (login_key req email) w = (v, q)" by (cases "rate_limit req (login_key req email) w")
  then show "aw_dir w' = aw_dir w" using m rate_limit_dir [OF v]
    by (auto simp: login_lookup_def Let_def st_then_def flow_fail_def st_return_def split: option.splits sum.splits if_splits)
qed

lemma login_lookup_Inr:
  assumes "login_lookup env req email w = (w', Inr (u, h))"
  shows "find_by_email w (normalize_email email) = Some u \<and> \<not> is_locked (fq_now req) u \<and> ui_password_hash u = Some h"
proof -
  obtain v q where v: "rate_limit req (login_key req email) w = (v, q)" by (cases "rate_limit req (login_key req email) w")
  then have "find_by_email v = find_by_email w" using rate_limit_dir [OF v] by (simp add: find_by_email_def fun_eq_iff)
  with v assms show ?thesis
    by (auto simp: login_lookup_def Let_def st_then_def flow_fail_def st_return_def split: option.splits sum.splits if_splits)
qed

lemma same_dir_find: "aw_dir w' = aw_dir w \<Longrightarrow> find_by_email w' = find_by_email w"
  by (simp add: find_by_email_def fun_eq_iff)

text \<open>A failed comparison adds one to the counter of the row as it is then, and locks it from the eighth on.\<close>

lemma compare_failed:
  assumes "\<not> fe_verify_password env password h" "find_by_email w (normalize_email email) = Some v" "ui_id v = ui_id u"
    and "distinct (map ui_id (di_users (aw_dir w)))" "ui_failed_count v = int n" "int n + 1 < 2 ^ 31"
  shows "let w' = fst (login_compare env req email password wanted device u h w) in
    find_by_email w' (normalize_email email) = Some (failed_once (fq_now req) v) \<and> distinct (map ui_id (di_users (aw_dir w')))"
proof -
  let ?w = "update_user (ui_id v) (failed_once (fq_now req)) w"
  have "find_user w (ui_id u) = Some v" using find_user_by_email [OF assms(4,2)] assms(3) by simp
  then have dir: "aw_dir (fst (login_compare env req email password wanted device u h w)) = aw_dir ?w"
    using assms(1,3,5,6)
    by (simp add: login_compare_def login_failed_def record_failure_def Let_def flow_fail_def st_return_def in_i32_def)
  have "find_by_email ?w (normalize_email email) = Some (failed_once (fq_now req) v)"
    by (rule find_by_email_update [OF _ assms(2)]) (simp add: failed_once_def)
  moreover have "map ui_id (di_users (aw_dir ?w)) = map ui_id (di_users (aw_dir w))"
    by (simp add: update_user_def failed_once_def comp_def)
  ultimately show ?thesis using dir assms(4) by (simp add: same_dir_find [OF dir])
qed

lemma guess_step_inv:
  assumes "guess_step env email k s s'" "guess_inv email i start k s" "int (snd (snd (snd s'))) < 2 ^ 31"
  shows "guess_inv email i start k s'"
  using assms(1)
proof cases
  case (asked now req w w' u h fs n)
  note dir = login_lookup_dir [OF asked(4)]
  from assms(2) login_lookup_Inr [OF asked(4)] asked show ?thesis
    by (fastforce simp: guess_inv_def same_dir_find [OF dir] dir is_locked_def)
next
  case (refused now req w w' e fs n)
  note dir = login_lookup_dir [OF refused(4)]
  from assms(2) refused show ?thesis by (fastforce simp: guess_inv_def same_dir_find [OF dir] dir)
next
  case (compared now t req u h fs password w n wanted device)
  from assms(2) compared obtain v where v: "find_by_email w (normalize_email email) = Some v" "ui_id v = i" "ui_failed_count v = int n"
    and keys: "distinct (map ui_id (di_users (aw_dir w)))" "start \<le> now" "length fs \<le> k" "\<forall>(req, u, h) \<in> set fs. ui_id u = i"
    and bound: "n < 8 \<or> (\<exists>l j. ui_locked_until v = Some l \<and> 0 \<le> j \<and> 900 * j \<le> l - 900 - start \<and> l \<le> now + 900 \<and>
          (int (n + length fs) \<le> 7 + int k * (j + 1) \<or> int n \<le> 7 + int k * (j + 1) \<and> l \<le> now))"
    by (auto simp: guess_inv_def)
  let ?fs = "remove1 (req, u, h) fs"
  have len: "Suc (length ?fs) = length fs" using compared(4) length_pos_if_in_set [OF compared(4)] by (simp add: length_remove1)
  have "ui_id u = i" using keys(4) compared(4) by auto
  then have new: "find_by_email (fst (login_compare env (req\<lparr>fq_now := t\<rparr>) email password wanted device u h w)) (normalize_email email) =
      Some (failed_once t v)"
    "distinct (map ui_id (di_users (aw_dir (fst (login_compare env (req\<lparr>fq_now := t\<rparr>) email password wanted device u h w)))))"
    using compare_failed [OF compared(5) v(1) _ keys(1) v(3), of u "req\<lparr>fq_now := t\<rparr>" wanted device] assms(3) compared(2) v(2)
    by (simp_all add: Let_def)
  have fields: "ui_id (failed_once t v) = i" "ui_failed_count (failed_once t v) = int (Suc n)"
    "7 \<le> n \<Longrightarrow> ui_locked_until (failed_once t v) = Some (t + 900)"
    using v by (simp_all add: failed_once_def MAX_FAILURES_def LOCK_MINUTES_def)
  have "Suc n < 8 \<or> (\<exists>j. 7 \<le> n \<and> 0 \<le> j \<and> 900 * j \<le> t - start \<and> int (Suc n + length ?fs) \<le> 7 + int k * (j + 1))"
  proof (cases "n < 8")
    case True
    show ?thesis
    proof (cases "n = 7")
      case True
      then show ?thesis using len keys(2,3) compared(3) by (intro disjI2 exI [of _ 0]) simp
    qed (use True in simp)
  next
    case False
    with bound obtain l j where l: "0 \<le> j" "900 * j \<le> l - 900 - start" "l \<le> now + 900"
      and b: "int (n + length fs) \<le> 7 + int k * (j + 1) \<or> int n \<le> 7 + int k * (j + 1) \<and> l \<le> now" by blast
    from b show ?thesis
    proof
      assume "int (n + length fs) \<le> 7 + int k * (j + 1)"
      then show ?thesis using False len l compared(3) by (intro disjI2 exI [of _ j]) simp
    next
      assume "int n \<le> 7 + int k * (j + 1) \<and> l \<le> now"
      then show ?thesis using False len l compared(3) keys(3)
        by (intro disjI2 exI [of _ "j + 1"]) (simp add: algebra_simps)
    qed
  qed
  moreover have "\<forall>(req, u, h) \<in> set ?fs. ui_id u = i" using keys(4) set_remove1_subset [of "(req, u, h)" fs] by blast
  moreover have "length ?fs \<le> k" using len keys(3) by simp
  ultimately show ?thesis
    using new fields keys(2) compared(2,3) by (auto simp: guess_inv_def)
next
  case (given_up w fs now n f)
  have "set (remove1 f fs) \<subseteq> set fs" "length (remove1 f fs) \<le> length fs"
    by (auto simp: set_remove1_subset length_remove1 dest: notin_set_remove1)
  with assms(2) given_up show ?thesis by (fastforce simp: guess_inv_def)
qed

lemma guess_step_counts: "guess_step env email k s s' \<Longrightarrow> snd (snd (snd s)) \<le> snd (snd (snd s'))"
  by (induction rule: guess_step.induct) simp_all

text \<open>
  C19: Passwords can be guessed at a bounded rate, in parallel too. From a state in which the failure
  counter of the account is clear, whatever requests with wrong passwords for its address come, from
  whatever network addresses and in whatever interleaving: as long as at most \<open>k\<close> of them are
  between reading the row and recording the failure, the passwords compared are at most
  \<open>7 + k\<close> plus \<open>k\<close> per 15 minutes elapsed. One after another that is eight plus one per 15 minutes;
  the counter is not reset when a lock ends, so each failure after the eighth locks the account
  again. What arrives in parallel before the lock is recorded is compared, too.
\<close>

theorem password_guess_rate:
  assumes "distinct (map ui_id (di_users (aw_dir w)))" "find_by_email w (normalize_email email) = Some u" "ui_failed_count u = 0"
    and "(guess_step env email k)\<^sup>*\<^sup>* (w, [], start, 0) (w', fs, now, n)" "int n < 2 ^ 31"
  shows "int n \<le> 7 + int k * (1 + (now - start) div 900)"
proof -
  have "int (snd (snd (snd s))) < 2 ^ 31 \<longrightarrow> guess_inv email (ui_id u) start k s" if "(guess_step env email k)\<^sup>*\<^sup>* (w, [], start, 0) s" for s
    using that
  proof (induction rule: rtranclp_induct)
    case base
    show ?case using assms(1-3) by (simp add: guess_inv_def)
  next
    case (step s s')
    then show ?case using guess_step_inv [OF step.hyps(2)] guess_step_counts [OF step.hyps(2)] by simp
  qed
  from this [OF assms(4)] assms(5) have inv: "guess_inv email (ui_id u) start k (w', fs, now, n)" by simp
  then have since: "0 \<le> (now - start) div 900" by (simp add: guess_inv_def pos_imp_zdiv_nonneg_iff)
  show ?thesis
  proof (cases "n < 8")
    case True
    show ?thesis
    proof (cases k)
      case 0
      have "n = 0" if "(guess_step env email 0)\<^sup>*\<^sup>* (w, [], start, 0) s" "s = (w', fs, now, n)" for s
      proof -
        have "fst (snd s) = [] \<and> snd (snd (snd s)) = 0"
          using that(1) by (induction rule: rtranclp_induct) (auto elim: guess_step.cases)
        with that(2) show ?thesis by simp
      qed
      with assms(4) 0 show ?thesis by simp
    next
      case (Suc k')
      have "1 \<le> int k * (1 + (now - start) div 900)" using Suc since by (simp add: algebra_simps)
      with True show ?thesis by simp
    qed
  next
    case False
    with inv obtain l j where j: "0 \<le> j" "900 * j \<le> l - 900 - start" "l \<le> now + 900"
      and b: "int (n + length fs) \<le> 7 + int k * (j + 1) \<or> int n \<le> 7 + int k * (j + 1) \<and> l \<le> now"
      by (auto simp: guess_inv_def)
    from b have n: "int n \<le> 7 + int k * (j + 1)" by auto
    have "j \<le> (now - start) div 900" using j using zdiv_mono1 [of "900 * j" "now - start" 900] by simp
    then have "int k * (j + 1) \<le> int k * (1 + (now - start) div 900)" by (intro mult_left_mono) simp_all
    with n show ?thesis by simp
  qed
qed

section \<open>Multi-factor setup from a pending challenge\<close>

lemma find_email_token_same: "aw_email w' = aw_email w \<Longrightarrow> find_email_token env now purpose raw w' = find_email_token env now purpose raw w"
  by (simp add: find_email_token_def)

lemma email_kept [simp]: "aw_email (bump_draws w) = aw_email w" "aw_email (update_user i f w) = aw_email w"
  by (simp_all add: bump_draws_def update_user_def)

lemma rate_limit_email: "rate_limit req key w = (v, r) \<Longrightarrow> aw_email v = aw_email w"
  by (auto simp: rate_limit_def flow_fail_def st_return_def split: prod.splits sum.splits)

lemma find_user_update: "find_user w i = Some u \<Longrightarrow> (\<And>u. ui_id (f u) = ui_id u) \<Longrightarrow> find_user (update_user i f w) i = Some (f u)"
  by (simp add: find_user_def update_user_def find_map_id) (auto dest: find_SomeD)

lemma st_then_snd_return: "snd (st_then m (\<lambda>x. st_then (audited env org user event ip agent metadata) (\<lambda>_. st_return (Inr x))) w) = snd (m w)"
  by (simp add: st_then_def audited_def st_return_def split: prod.split sum.split)

lemma mfa_setup_result:
  assumes "find_email_token env (fq_now req) ''mfa_pending'' challenge w = Some t" "find_user w (et_user t) = Some u"
    "fe_otpauth env (fe_gen_secret env (draws_of w)) (ui_email u) = Inr uri"
  shows "mfa_setup env req (Some challenge) w =
    (update_user (et_user t) (\<lambda>u. u\<lparr>ui_totp_secret := Some (fe_gen_secret env (draws_of w))\<rparr>) (bump_draws w), Inr (fe_gen_secret env (draws_of w), uri))"
  using assms by (simp add: mfa_setup_def mfa_subject_def st_then_def [of "mfa_subject _ _ _"] Let_def fetch_then) (simp add: find_user_def bump_draws_def)

text \<open>
  C20: A pending challenge is enough to replace the second factor. For a user who logged in with the
  password alone and holds the challenge, \<open>mfa_setup\<close> overwrites the TOTP secret, whether or not the
  user had one and had enabled it, and returns the new one; \<open>mfa_verify\<close> then accepts a code of the
  new secret for the same challenge, and its outcome is that of opening the session.
\<close>

theorem mfa_setup_defeats_mfa:
  assumes "find_email_token env (fq_now req) ''mfa_pending'' challenge w = Some t" "find_email_token env (fq_now req') ''mfa_pending'' challenge w = Some t"
    and "find_user w (et_user t) = Some u" "ui_totp_secret u = Some old" "ui_mfa_enabled u = Some since"
    and "fe_otpauth env (fe_gen_secret env (draws_of w)) (ui_email u) = Inr uri"
    and "fe_totp env (fq_now req') (fe_gen_secret env (draws_of w)) (ui_email u) code = Inr True"
    and "payload_membership env (et_payload t) = Some membership" "et_org t = Some org"
    and "mfa_setup env req (Some challenge) w = (w1, res)" "rate_limit req' (''mfa_verify:'' @ fq_request_id req') w1 = (v, Inr ())"
  shows "res = Inr (fe_gen_secret env (draws_of w), uri) \<and>
    snd (mfa_verify env req' challenge (Some code) None device w1) =
      snd (open_session env req' (et_user t) (ui_public_id u) org membership (payload_role (et_payload t)) (payload_version (et_payload t)) device
        (clear_failures (et_user t) (consume_token (fq_now req') (et_id t) v)))"
proof
  let ?secret = "fe_gen_secret env (draws_of w)"
  let ?f = "\<lambda>u. u\<lparr>ui_totp_secret := Some ?secret\<rparr>"
  from mfa_setup_result [OF assms(1,3,6)] assms(10)
  have w1: "w1 = update_user (et_user t) ?f (bump_draws w)" and res: "res = Inr (?secret, uri)" by simp_all
  show "res = Inr (?secret, uri)" by (rule res)
  have "find_user (bump_draws w) (et_user t) = Some u" using assms(3) by (simp add: find_user_def bump_draws_def)
  then have "find_user w1 (et_user t) = Some (?f u)" unfolding w1 by (rule find_user_update) simp
  then have user: "find_user v (et_user t) = Some (?f u)" using rate_limit_dir [OF assms(11)] by (simp add: find_user_def)
  have "aw_email v = aw_email w" using rate_limit_email [OF assms(11)] by (simp add: w1)
  then have challenge: "find_email_token env (fq_now req') ''mfa_pending'' challenge v = Some t" using assms(2) by (simp add: find_email_token_def)
  have ok: "mfa_code_ok env req' (?f u) (Some code)" using assms(7) by (simp add: mfa_code_ok_def)
  show "snd (mfa_verify env req' challenge (Some code) None device w1) =
      snd (open_session env req' (et_user t) (ui_public_id u) org membership (payload_role (et_payload t)) (payload_version (et_payload t)) device
        (clear_failures (et_user t) (consume_token (fq_now req') (et_id t) v)))"
    using challenge user ok assms(8,9)
    by (simp add: mfa_verify_def st_then_eq [where m = "rate_limit req' (''mfa_verify:'' @ fq_request_id req')", OF assms(11)]
        fetch_then Let_def st_then_snd_return del: append.simps)
qed

section \<open>The last owner\<close>

definition membership_keys :: "directory \<Rightarrow> bool" where
  "membership_keys dir \<longleftrightarrow> distinct (map (\<lambda>m. (mb_org m, mb_user m)) (filter (\<lambda>m. mb_revoked m = None) (di_members dir)))"

lemma same_key_short: "distinct (map f xs) \<Longrightarrow> (\<And>x. x \<in> set xs \<Longrightarrow> f x = k) \<Longrightarrow> length xs \<le> 1"
  by (cases xs; cases "tl xs") auto

lemma target_owner_unique:
  assumes "membership_keys dir"
  shows "length (filter (\<lambda>m. mb_org m = org \<and> mb_user m = target \<and> mb_role m = ''owner'' \<and> mb_status m = ''active'' \<and> mb_revoked m = None)
    (di_members dir)) \<le> 1" (is "length (filter ?P _) \<le> 1")
proof (rule same_key_short)
  let ?ms = "filter (\<lambda>m. mb_revoked m = None) (di_members dir)"
  have "filter ?P (di_members dir) = filter ?P ?ms" by (auto intro: filter_cong)
  then show "distinct (map (\<lambda>m. (mb_org m, mb_user m)) (filter ?P (di_members dir)))"
    using assms distinct_map_filter [of "\<lambda>m. (mb_org m, mb_user m)" ?ms ?P] by (simp add: membership_keys_def)
  show "x \<in> set (filter ?P (di_members dir)) \<Longrightarrow> (mb_org x, mb_user x) = (org, target)" for x by simp
qed

lemma active_owner_count_split:
  "active_owner_count dir org =
     length (filter (\<lambda>m. mb_org m = org \<and> mb_user m = target \<and> mb_role m = ''owner'' \<and> mb_status m = ''active'' \<and> mb_revoked m = None) (di_members dir)) +
     length (filter (\<lambda>m. mb_org m = org \<and> mb_user m \<noteq> target \<and> mb_role m = ''owner'' \<and> mb_status m = ''active'' \<and> mb_revoked m = None) (di_members dir))"
  unfolding active_owner_count_def by (rule list.induct [of _ "di_members dir"]) auto

lemma revoke_members_count:
  "active_owner_count (revoke_members now org target dir) org =
     length (filter (\<lambda>m. mb_org m = org \<and> mb_user m \<noteq> target \<and> mb_role m = ''owner'' \<and> mb_status m = ''active'' \<and> mb_revoked m = None) (di_members dir))"
  "g \<noteq> org \<Longrightarrow> active_owner_count (revoke_members now g target dir) org = active_owner_count dir org"
  unfolding active_owner_count_def revoke_members_def by (auto simp: filter_map comp_def intro!: arg_cong [where f = length] filter_cong)

lemma revoke_members_keeps_owner:
  assumes "membership_keys dir" "ensure_not_last_owner dir g target rid = Inr ()" "1 \<le> active_owner_count dir org"
  shows "1 \<le> active_owner_count (revoke_members now g target dir) org"
proof (cases "g = org")
  case True
  let ?T = "filter (\<lambda>m. mb_org m = org \<and> mb_user m = target \<and> mb_role m = ''owner'' \<and> mb_status m = ''active'' \<and> mb_revoked m = None) (di_members dir)"
  have "?T = [] \<or> 1 < active_owner_count dir org"
  proof (rule ccontr)
    assume "\<not> ?thesis"
    then obtain m where m: "m \<in> set ?T" and few: "active_owner_count dir org \<le> 1" by (auto simp: filter_empty_conv)
    then have "find (\<lambda>m. mb_org m = org \<and> mb_user m = target \<and> mb_revoked m = None) (di_members dir) \<noteq> None" by (auto simp: find_None_iff)
    then obtain x where x: "find (\<lambda>m. mb_org m = org \<and> mb_user m = target \<and> mb_revoked m = None) (di_members dir) = Some x" by blast
    have "x = m"
      using find_SomeD [OF x] m keyed [OF assms(1) [unfolded membership_keys_def], of x m] by auto
    with m have "mb_role x = ''owner''" "mb_status x = ''active''" by auto
    with x few assms(2) True show False by (simp add: ensure_not_last_owner_def)
  qed
  then show ?thesis
    using assms(3) target_owner_unique [OF assms(1), of org target] active_owner_count_split [of dir org target]
      revoke_members_count(1) [of now org target dir] True by auto
qed (use assms(3) revoke_members_count(2) in simp)

text \<open>
  An organisation that has an active owner keeps one while requests are served one after another.
  When a membership is revoked, successfully or not, with no other change between the count of the
  owners and the update, the organisation of the caller, and every other one, still has an active
  owner if it had one before. The count takes no lock, so two requests at once can remove the last
  two owners (\<open>last_owner_race\<close> below).
\<close>

theorem last_owner_kept:
  assumes "membership_keys (aw_dir w)" "1 \<le> active_owner_count (aw_dir w) org"
  shows "1 \<le> active_owner_count (aw_dir (fst (revoke_membership env req raw w))) org"
proof -
  have "aw_dir (fst (revoke_membership env req raw w)) = aw_dir w \<or> (\<exists>now g target rid. ensure_not_last_owner (aw_dir w) g target rid = Inr () \<and>
      aw_dir (fst (revoke_membership env req raw w)) = revoke_members now g target (aw_dir w))"
    unfolding revoke_membership_def revoke_membership_seen_def extract_auth_user_def Let_def
    by (auto simp: st_then_def st_return_def flow_fail_def audited_def bump_draws_def split: option.split sum.split prod.split)
  then show ?thesis using revoke_members_keeps_owner [OF assms(1) _ assms(2)] assms(2) by auto
qed

section \<open>Examples\<close>

text \<open>One user with one membership; passwords are stored as they are and a TOTP code is its secret.\<close>

definition demo_flow_env :: flow_env where
  "demo_flow_env = \<lparr>fe_auth = demo_auth_env, fe_relay = demo_relay_env, fe_time = (\<lambda>f s. None), fe_verify_password = (\<lambda>p h. p = h),
     fe_argon = (\<lambda>k p. Inr (p, ''salt'')), fe_breached = (\<lambda>p. Inr False), fe_totp = (\<lambda>now secret email code. Inr (code = secret)),
     fe_gen_secret = (\<lambda>k. ''new''), fe_otpauth = (\<lambda>secret email. Inr secret), fe_gen_codes = (\<lambda>k. []), fe_urlencode = (\<lambda>s. s),
     fe_app_base = [], fe_show_outbox_error = (\<lambda>e. []), fe_revoke_works = (\<lambda>k. True)\<rparr>"

definition demo_req :: "int \<Rightarrow> flow_req" where
  "demo_req now = \<lparr>fq_now = now, fq_instant = now, fq_request_id = ''q'', fq_ip = None, fq_agent = None, fq_idempotency_key = None,
     fq_bearer = None, fq_cookie = None\<rparr>"

definition demo_email_token :: "uuid \<Rightarrow> string \<Rightarrow> string \<Rightarrow> email_token" where
  "demo_email_token i purpose h = \<lparr>et_id = i, et_user = 3, et_purpose = purpose, et_hash = h, et_org = Some 1,
     et_payload = mfa_payload demo_flow_env \<lparr>mb_id = 4, mb_org = 1, mb_user = 3, mb_public_id = ''mem_4'', mb_role = ''owner'', mb_policy_version = 1,
       mb_role_id = None, mb_status = ''active'', mb_team = None, mb_department = None, mb_revoked = None\<rparr> False,
     et_expires = 5000, et_consumed = None\<rparr>"

definition demo_auth_world :: "directory \<Rightarrow> email_token list \<Rightarrow> auth_world" where
  "demo_auth_world dir ts = \<lparr>aw_dir = dir, aw_sess = demo_s0, aw_email = ts, aw_recovery = [], aw_idem = [], aw_limiter = auth_strict,
     aw_audit = [], aw_outbox = \<lparr>ob_events = [], ob_dlq = []\<rparr>, aw_mail = [], aw_ring = ring_from_secret ''s1'', aw_jwks = []\<rparr>"

lemma demo_strings: "normalize_email ''a@b'' = ''a@b''" "role_requires_mfa ''member'' = False"
  by code_simp+

lemma demo_rate_limit:
  assumes "aw_limiter w = auth_strict" "fq_ip req = None"
  shows "\<exists>l. rate_limit req key w = (w\<lparr>aw_limiter := l\<rparr>, Inr ())"
  using assms by (auto simp: rate_limit_def check_and_hit_def count_hit_def bucket_of_def auth_strict_def empty_bucket_def Let_def)

text \<open>Two requests that read the row at the same time, for an account with \<open>c\<close> recorded failures.\<close>

definition demo_failures :: "int \<Rightarrow> auth_world" where
  "demo_failures c = demo_auth_world (demo_directory\<lparr>di_users := [demo_user\<lparr>ui_failed_count := c\<rparr>]\<rparr>) []"

definition demo_asked :: "auth_world \<Rightarrow> auth_world \<times> (app_error + user_identity \<times> string)" where
  "demo_asked = login_lookup demo_flow_env (demo_req 0) ''a@b''"

definition demo_compared :: "int \<Rightarrow> auth_world \<Rightarrow> auth_world" where
  "demo_compared c w = fst (login_compare demo_flow_env (demo_req 0) ''a@b'' ''x'' None None (demo_user\<lparr>ui_failed_count := c\<rparr>) ''h'' w)"

definition demo_guessed :: "int \<Rightarrow> auth_world" where
  "demo_guessed c = demo_compared c (demo_compared c (fst (demo_asked (fst (demo_asked (demo_failures c))))))"

lemma demo_asked_ok:
  "snd (demo_asked (demo_failures 0)) = Inr (demo_user\<lparr>ui_failed_count := 0\<rparr>, ''h'')"
  "snd (demo_asked (fst (demo_asked (demo_failures 0)))) = Inr (demo_user\<lparr>ui_failed_count := 0\<rparr>, ''h'')"
  "snd (demo_asked (demo_failures 7)) = Inr (demo_user\<lparr>ui_failed_count := 7\<rparr>, ''h'')"
  "snd (demo_asked (fst (demo_asked (demo_failures 7)))) = Inr (demo_user\<lparr>ui_failed_count := 7\<rparr>, ''h'')"
  by code_simp+

lemma demo_guessed_count:
  "map ui_failed_count (di_users (aw_dir (demo_guessed 0))) = [2]"
  "map ui_failed_count (di_users (aw_dir (demo_guessed 7))) = [9]"
  "snd (demo_asked (demo_compared 7 (fst (demo_asked (demo_failures 7))))) \<noteq> Inr x"
  by code_simp+

lemma demo_guess_run:
  assumes "snd (demo_asked (demo_failures c)) = Inr (demo_user\<lparr>ui_failed_count := c\<rparr>, ''h'')"
    "snd (demo_asked (fst (demo_asked (demo_failures c)))) = Inr (demo_user\<lparr>ui_failed_count := c\<rparr>, ''h'')"
  shows "(guess_step demo_flow_env ''a@b'' 2)\<^sup>*\<^sup>* (demo_failures c, [], 0, 0) (demo_guessed c, [], 0, 2)"
proof -
  let ?step = "guess_step demo_flow_env ''a@b'' 2" and ?u = "demo_user\<lparr>ui_failed_count := c\<rparr>"
  let ?f = "(demo_req 0, ?u, ''h'')"
  let ?w1 = "fst (demo_asked (demo_failures c))"
  let ?w2 = "fst (demo_asked ?w1)"
  have ask: "?step (w, fs, 0, n) (fst (demo_asked w), ?f # fs, 0, n)"
    if "snd (demo_asked w) = Inr (?u, ''h'')" "length fs < 2" for w fs n
    using guess_step.asked [of 0 "demo_req 0" demo_flow_env "''a@b''" w "fst (demo_asked w)" ?u "''h''" fs 2 n] that
    by (simp add: demo_asked_def demo_req_def prod_eq_iff)
  have compare: "?step (w, ?f # fs, 0, n) (demo_compared c w, fs, 0, Suc n)" for w fs n
    using guess_step.compared [of 0 0 "demo_req 0" ?u "''h''" "?f # fs" demo_flow_env "''x''" "''a@b''" 2 w n None None]
    by (simp add: demo_compared_def demo_flow_env_def demo_req_def)
  have "?step (demo_failures c, [], 0, 0) (?w1, [?f], 0, 0)" "?step (?w1, [?f], 0, 0) (?w2, [?f, ?f], 0, 0)"
    using ask assms by simp_all
  moreover have "?step (?w2, [?f, ?f], 0, 0) (demo_compared c ?w2, [?f], 0, 1)"
    "?step (demo_compared c ?w2, [?f], 0, 1) (demo_guessed c, [], 0, 2)"
    using compare [of ?w2 "[?f]" 0] compare [of "demo_compared c ?w2" "[]" 1] by (simp_all add: demo_guessed_def numeral_2_eq_2)
  ultimately show ?thesis by (meson converse_rtranclp_into_rtranclp rtranclp.rtrancl_refl)
qed

theorem password_guess_rate_witness:
  "(guess_step demo_flow_env ''a@b'' 2)\<^sup>*\<^sup>* (demo_failures 0, [], 0, 0) (demo_guessed 0, [], 0, 2) \<and>
   int 2 \<le> 7 + int 2 * (1 + (0 - 0) div 900)"
proof -
  have u: "find_by_email (demo_failures 0) (normalize_email ''a@b'') = Some (demo_user\<lparr>ui_failed_count := 0\<rparr>)"
    by (simp add: demo_failures_def demo_auth_world_def demo_user_def demo_strings find_by_email_def)
  have keys: "distinct (map ui_id (di_users (aw_dir (demo_failures 0))))" by (simp add: demo_failures_def demo_auth_world_def)
  note run = demo_guess_run [OF demo_asked_ok(1,2)]
  from password_guess_rate [OF keys u _ run] run show ?thesis by simp
qed

text \<open>
  The race on the lock: after seven failures two requests that read the row together both compare
  a password, while a request that reads after the eighth failure is refused.
\<close>

theorem parallel_guess_passes_lock:
  "(guess_step demo_flow_env ''a@b'' 2)\<^sup>*\<^sup>* (demo_failures 7, [], 0, 0) (demo_guessed 7, [], 0, 2) \<and>
   map ui_failed_count (di_users (aw_dir (demo_guessed 7))) = [9] \<and>
   (\<forall>x. snd (demo_asked (demo_compared 7 (fst (demo_asked (demo_failures 7))))) \<noteq> Inr x)"
  using demo_guess_run [OF demo_asked_ok(3,4)] demo_guessed_count(2,3) by simp

definition demo_owner :: "uuid \<Rightarrow> uuid \<Rightarrow> membership" where
  "demo_owner i user = \<lparr>mb_id = i, mb_org = 1, mb_user = user, mb_public_id = ''mem'', mb_role = ''owner'', mb_policy_version = 1,
     mb_role_id = None, mb_status = ''active'', mb_team = None, mb_department = None, mb_revoked = None\<rparr>"

definition demo_owners :: "membership list \<Rightarrow> auth_world" where
  "demo_owners ms = (demo_auth_world (demo_directory\<lparr>di_members := ms\<rparr>) [])\<lparr>
     aw_sess := \<lparr>sd_sessions = [(demo_session 0)\<lparr>as_id := 5\<rparr>], sd_tokens = [], sd_draws = 200\<rparr>\<rparr>"

lemma demo_revoked:
  "snd (revoke_membership demo_flow_env ((demo_req 1500)\<lparr>fq_bearer := Some ''bootstrap''\<rparr>) (bits_of_uuid 8)
     (demo_owners [demo_owner 4 3, demo_owner 9 8])) = Inr ()"
  by code_simp

theorem last_owner_kept_witness:
  "snd (revoke_membership demo_flow_env ((demo_req 1500)\<lparr>fq_bearer := Some ''bootstrap''\<rparr>) (bits_of_uuid 8)
     (demo_owners [demo_owner 4 3, demo_owner 9 8])) = Inr () \<and>
   1 \<le> active_owner_count (aw_dir (fst (revoke_membership demo_flow_env ((demo_req 1500)\<lparr>fq_bearer := Some ''bootstrap''\<rparr>) (bits_of_uuid 8)
     (demo_owners [demo_owner 4 3, demo_owner 9 8])))) 1"
  using last_owner_kept [of "demo_owners [demo_owner 4 3, demo_owner 9 8]" 1 demo_flow_env "(demo_req 1500)\<lparr>fq_bearer := Some ''bootstrap''\<rparr>" "bits_of_uuid 8"]
    demo_revoked
  by (simp add: membership_keys_def active_owner_count_def demo_owners_def demo_auth_world_def demo_owner_def)

text \<open>
  The race on the last owner: two requests of one owner, to remove the other owner and to leave,
  both count two owners, and the organisation is left with none.
\<close>

theorem last_owner_race:
  "let w = demo_owners [demo_owner 4 3, demo_owner 9 8]; req = (demo_req 1500)\<lparr>fq_bearer := Some ''bootstrap''\<rparr>;
       (w1, r1) = revoke_membership_seen demo_flow_env req (bits_of_uuid 8) (aw_dir w) w;
       (w2, r2) = revoke_membership_seen demo_flow_env req (bits_of_uuid 3) (aw_dir w) w1
   in r1 = Inr () \<and> r2 = Inr () \<and> active_owner_count (aw_dir w) 1 = 2 \<and> active_owner_count (aw_dir w2) 1 = 0"
  by code_simp

lemma demo_open:
  assumes "aw_sess w = \<lparr>sd_sessions = [], sd_tokens = [], sd_draws = 101\<rparr>" "aw_ring w = ring_from_secret ''s1''"
    "di_users (aw_dir w) \<noteq> []" "ui_id (hd (di_users (aw_dir w))) = 3" "di_orgs (aw_dir w) = di_orgs demo_directory" "di_members (aw_dir w) = di_members demo_directory"
  shows "\<exists>i. snd (open_session demo_flow_env (demo_req now) 3 user_public 1 4 role 1 None w) = Inr i"
proof -
  have "\<forall>claims s. \<exists>a. mint_for demo_auth_env now (ring_from_secret ''s1'') claims s = (s\<lparr>sd_draws := Suc (sd_draws s)\<rparr>, Inr a)"
    by (simp add: demo_mint)
  then obtain a where a: "\<And>claims s. mint_for demo_auth_env now (ring_from_secret ''s1'') claims s = (s\<lparr>sd_draws := Suc (sd_draws s)\<rparr>, Inr (a claims s))"
    by metis
  obtain u us where us: "di_users (aw_dir w) = u # us" "ui_id u = 3" using assms(3,4) by (cases "di_users (aw_dir w)") auto
  have "fe_auth demo_flow_env = demo_auth_env" "fq_now (demo_req now) = now" by (simp_all add: demo_flow_env_def demo_req_def)
  then show ?thesis using assms us
    by (simp add: open_session_def in_sessions_def session_tx_def create_session_with_tokens_def issue_refresh_and_access_def st_then_def st_return_def
        a draw_uuid_def draw_token_def insert_session_def insert_refresh_def new_refresh_row_def map_err_def)
      (simp add: demo_auth_env_def demo_directory_def)
qed

definition demo_mfa_world :: auth_world where
  "demo_mfa_world = demo_auth_world (demo_directory\<lparr>di_users := [demo_user\<lparr>ui_totp_secret := Some ''old'', ui_mfa_enabled := Some 0\<rparr>]\<rparr>)
     [demo_email_token 9 ''mfa_pending'' ''c'']"

theorem mfa_setup_defeats_mfa_witness:
  "\<exists>w1 i. mfa_setup demo_flow_env (demo_req 1000) (Some ''c'') demo_mfa_world = (w1, Inr (''new'', ''new'')) \<and>
     snd (mfa_verify demo_flow_env (demo_req 1001) ''c'' (Some ''new'') None None w1) = Inr i"
proof -
  let ?u = "demo_user\<lparr>ui_totp_secret := Some ''old'', ui_mfa_enabled := Some 0\<rparr>" and ?t = "demo_email_token 9 ''mfa_pending'' ''c''"
  let ?key = "''mfa_verify:'' @ fq_request_id (demo_req 1001)"
  obtain w1 res where w1: "mfa_setup demo_flow_env (demo_req 1000) (Some ''c'') demo_mfa_world = (w1, res)"
    by (cases "mfa_setup demo_flow_env (demo_req 1000) (Some ''c'') demo_mfa_world")
  have found: "find_email_token demo_flow_env (fq_now (demo_req t)) ''mfa_pending'' ''c'' demo_mfa_world = Some ?t" if "t < 5000" for t
    using that by (simp add: find_email_token_def demo_mfa_world_def demo_auth_world_def demo_email_token_def demo_flow_env_def demo_auth_env_def demo_req_def)
  have user: "find_user demo_mfa_world (et_user ?t) = Some ?u"
    by (simp add: find_user_def demo_mfa_world_def demo_auth_world_def demo_email_token_def demo_user_def)
  have uri: "fe_otpauth demo_flow_env (fe_gen_secret demo_flow_env (draws_of demo_mfa_world)) (ui_email ?u) = Inr ''new''"
    and totp: "fe_totp demo_flow_env (fq_now (demo_req 1001)) (fe_gen_secret demo_flow_env (draws_of demo_mfa_world)) (ui_email ?u) ''new'' = Inr True"
    and secret: "fe_gen_secret demo_flow_env k = ''new''" for k
    by (simp_all add: demo_flow_env_def)
  have payload: "payload_membership demo_flow_env (et_payload ?t) = Some 4" "payload_version (et_payload ?t) = 1" by code_simp+
  have org: "et_org ?t = Some 1" "et_user ?t = 3" by (simp_all add: demo_email_token_def)
  from mfa_setup_result [OF found user uri] w1
  have eq: "w1 = update_user 3 (\<lambda>u. u\<lparr>ui_totp_secret := Some ''new''\<rparr>) (bump_draws demo_mfa_world)" by (simp add: secret org)
  have "aw_limiter w1 = auth_strict" by (simp add: eq update_user_def bump_draws_def demo_mfa_world_def demo_auth_world_def)
  then obtain l where l: "rate_limit (demo_req 1001) ?key w1 = (w1\<lparr>aw_limiter := l\<rparr>, Inr ())"
    using demo_rate_limit [of w1 "demo_req 1001" ?key] by (auto simp: demo_req_def)
  have "\<exists>i. snd (open_session demo_flow_env (demo_req 1001) 3 (ui_public_id ?u) 1 4 (payload_role (et_payload ?t)) 1 None
      (clear_failures 3 (consume_token (fq_now (demo_req 1001)) (et_id ?t) (w1\<lparr>aw_limiter := l\<rparr>)))) = Inr i"
    by (rule demo_open)
      (simp_all add: eq demo_mfa_world_def demo_auth_world_def clear_failures_def update_user_def consume_token_def bump_draws_def draws_of_def demo_user_def)
  with mfa_setup_defeats_mfa [OF found found user _ _ uri totp payload(1) org(1) w1 l, of "''old''" 0 None] w1
  show ?thesis by (simp add: secret org payload(2))
qed

definition demo_reset_world :: auth_world where
  "demo_reset_world = demo_auth_world demo_directory [demo_email_token 9 ''password_reset'' ''r'']"

definition demo_logged_in :: auth_world where
  "demo_logged_in = fst (login demo_flow_env (demo_req 1000) ''a@b'' ''h'' None None demo_reset_world)"

abbreviation demo_reset :: "auth_world \<times> (app_error + email_token \<times> string \<times> string)" where
  "demo_reset \<equiv> reset_lookup demo_flow_env (demo_req 2000) ''r'' ''correct horse'' demo_logged_in"

lemma demo_logged_in_facts:
  "map (\<lambda>r. (as_user r, as_family r)) (sd_sessions (aw_sess (fst demo_reset))) = [(3, 101)]"
  "snd demo_reset = Inr (demo_email_token 9 ''password_reset'' ''r'', ''correct horse'', ''salt'')"
  by code_simp+

theorem reset_ends_sessions_witness:
  "\<exists>w. store_password demo_flow_env (demo_req 2000) (demo_email_token 9 ''password_reset'' ''r'') ''correct horse'' ''salt'' (fst demo_reset) = (w, Inr ()) \<and>
     \<not> (\<exists>req w3 i. refresh demo_flow_env req w = (w3, Inr i) \<and> it_family i = 101)"
proof -
  let ?t = "demo_email_token 9 ''password_reset'' ''r''"
  obtain w res where w: "store_password demo_flow_env (demo_req 2000) ?t ''correct horse'' ''salt'' (fst demo_reset) = (w, res)"
    by (cases "store_password demo_flow_env (demo_req 2000) ?t ''correct horse'' ''salt'' (fst demo_reset)")
  have lookup: "demo_reset = (fst demo_reset, Inr (?t, ''correct horse'', ''salt''))"
    using demo_logged_in_facts(2) by (simp add: prod_eq_iff)
  have "endpoint demo_flow_env demo_reset_world demo_logged_in"
    unfolding endpoint_def demo_logged_in_def
    by (auto intro: auth_call.login simp: fresh_family_def demo_reset_world_def demo_auth_world_def)
  then have run: "(endpoint demo_flow_env)\<^sup>*\<^sup>* demo_reset_world demo_logged_in" by (rule r_into_rtranclp)
  have init: "sess_init (aw_sess demo_reset_world)" by (simp add: demo_reset_world_def demo_auth_world_def sess_init_def)
  have works: "fe_revoke_works demo_flow_env (draws_of (fst demo_reset))" by (simp add: demo_flow_env_def)
  from demo_logged_in_facts(1) obtain r where r: "r \<in> set (sd_sessions (aw_sess (fst demo_reset)))" "as_user r = 3" "as_family r = 101" by auto
  have "et_user ?t = 3" by (simp add: demo_email_token_def)
  with reset_ends_sessions [OF init run lookup rtranclp.rtrancl_refl works w rtranclp.rtrancl_refl] r w show ?thesis by fastforce
qed

end
