(* ===== verification/Approvals.thy ===== *)
theory Approvals
  imports Grants Outbox
begin

text \<open>
  The approval engine of the project service (\<open>services/business/project-service/src/approvals\<close>):
  versioned policies (\<open>policy.rs\<close>, \<open>seed.rs\<close>), routing (\<open>routing.rs\<close>), the handlers that request,
  decide, escalate and delegate (\<open>handlers.rs\<close>), and the pure state machine that the workflow
  worker uses (\<open>workflow_logic.rs\<close>). A handler runs in one transaction. The JSON forms that serde
  makes, times as text, \<open>lower\<close> and \<open>char(3)\<close> of the database are parameters. Starting and
  signalling the Temporal workflow only writes to the log and is left out.
\<close>

section \<open>Policies\<close>

datatype approval_mode = Sequential | AnyOf | AllOf

fun approval_mode_as_str :: "approval_mode \<Rightarrow> string" where
  "approval_mode_as_str Sequential = ''sequential''"
| "approval_mode_as_str AnyOf = ''any''"
| "approval_mode_as_str AllOf = ''all''"

definition approval_mode_parse :: "string \<Rightarrow> approval_mode option" where
  "approval_mode_parse s =
     (if s = ''sequential'' then Some Sequential else if s = ''any'' then Some AnyOf
      else if s = ''all'' then Some AllOf else None)"

record policy_match =
  mt_amount_gte :: "int option"
  mt_amount_lt :: "int option"
  mt_discount_gte :: "int option"
  mt_categories :: "string list"
  mt_departments :: "string list"
  mt_requester_roles :: "string list"

record policy_step =
  ps_order :: int
  ps_role :: "string option"
  ps_users :: "string list"
  ps_sla :: "int option"
  ps_escalate :: "string option"

record policy_definition =
  pd_mode :: approval_mode
  pd_match :: policy_match
  pd_steps :: "policy_step list"

record resolved_step =
  rs_order :: int
  rs_role :: "string option"
  rs_assignees :: "uuid list"
  rs_sla :: "int option"
  rs_escalate :: "string option"

record routing_snapshot =
  sn_policy :: string
  sn_name :: string
  sn_version :: int
  sn_mode :: approval_mode
  sn_match :: policy_match
  sn_steps :: "resolved_step list"
  sn_rationale :: string

section \<open>Tables\<close>

record approval_policy =
  ap_id :: uuid
  ap_org :: uuid
  ap_public_id :: string
  ap_name :: string
  ap_subject_type :: string
  ap_active :: bool
  ap_version :: int
  ap_created :: int
  ap_updated :: int

record policy_version =
  pv_id :: uuid
  pv_org :: uuid
  pv_policy :: uuid
  pv_version :: int
  pv_definition :: json
  pv_published_by :: "uuid option"

record approval =
  av_id :: uuid
  av_org :: uuid
  av_public_id :: string
  av_subject_type :: string
  av_subject_id :: string
  av_status :: string
  av_requester :: uuid
  av_requester_role :: "string option"
  av_amount :: "int option"
  av_currency :: "string option"
  av_category :: "string option"
  av_department :: "uuid option"
  av_policy :: uuid
  av_policy_version :: int
  av_policy_version_id :: uuid
  av_snapshot :: json
  av_mode :: string
  av_step :: int
  av_title :: string
  av_summary :: "string option"
  av_workflow :: string
  av_decided_at :: "int option"
  av_decided_by :: "uuid option"
  av_note :: "string option"
  av_created :: int
  av_updated :: int

record approval_step =
  st_id :: uuid
  st_org :: uuid
  st_approval :: uuid
  st_order :: int
  st_status :: string
  st_role :: "string option"
  st_assignees :: "uuid list"
  st_sla :: "int option"
  st_escalate :: "string option"
  st_escalated_at :: "int option"
  st_decided_at :: "int option"
  st_decided_by :: "uuid option"

record approval_decision =
  ad_id :: uuid
  ad_org :: uuid
  ad_approval :: uuid
  ad_step :: int
  ad_decision :: string
  ad_actor :: uuid
  ad_on_behalf_of :: uuid
  ad_comment :: "string option"
  ad_key :: "string option"

record approval_delegation =
  de_id :: uuid
  de_org :: uuid
  de_public_id :: string
  de_from :: uuid
  de_to :: uuid
  de_approval :: "uuid option"
  de_starts :: int
  de_ends :: "int option"
  de_revoked :: "int option"

record approval_world =
  apw_org :: org_db
  apw_roles :: "org_role list"
  apw_policies :: "approval_policy list"
  apw_versions :: "policy_version list"
  apw_approvals :: "approval list"
  apw_steps :: "approval_step list"
  apw_decisions :: "approval_decision list"
  apw_delegations :: "approval_delegation list"
  apw_idem :: "((uuid \<times> string \<times> string) \<times> int \<times> json) list"
  apw_outbox :: outbox_db
  apw_audit :: "audit_entry list"
  apw_http :: "outgoing_request list"
  apw_uuids :: nat

section \<open>Answers\<close>

record step_dto =
  td_order :: int
  td_status :: string
  td_role :: "string option"
  td_assignees :: "string list"
  td_sla :: "int option"
  td_escalate :: "string option"
  td_escalated_at :: "string option"
  td_decided_at :: "string option"
  td_decided_by :: "string option"

record approval_dto =
  dt_id :: string
  dt_subject_type :: string
  dt_subject_id :: string
  dt_status :: string
  dt_requester :: string
  dt_amount :: "int option"
  dt_currency :: "string option"
  dt_category :: "string option"
  dt_title :: string
  dt_summary :: "string option"
  dt_mode :: string
  dt_step :: int
  dt_policy :: string
  dt_policy_version :: int
  dt_snapshot :: routing_snapshot
  dt_steps :: "step_dto list"
  dt_decided_at :: "string option"
  dt_decided_by :: "string option"
  dt_note :: "string option"
  dt_created :: string
  dt_updated :: string

record policy_dto =
  pt_id :: string
  pt_name :: string
  pt_subject_type :: string
  pt_active :: bool
  pt_version :: int
  pt_definition :: policy_definition
  pt_created :: string
  pt_updated :: string

record create_request =
  cq_subject_type :: string
  cq_subject_id :: string
  cq_title :: "string option"
  cq_summary :: "string option"
  cq_amount :: "int option"
  cq_currency :: "string option"
  cq_category :: "string option"
  cq_department :: "string option"
  cq_requester_role :: "string option"

record approval_env =
  ape_relay :: relay_env
  ape_parse_uuid :: "string \<Rightarrow> string + uuid"
  ape_time :: time_parser
  ape_parse_time :: "string \<Rightarrow> int option"
  ape_db_error :: string
  ape_show_outbox_error :: "outbox_error \<Rightarrow> string"
  ape_lower :: "string \<Rightarrow> string"
  ape_char3 :: "string \<Rightarrow> string option"
  ape_def_json :: "policy_definition \<Rightarrow> json"
  ape_def_of :: "json \<Rightarrow> policy_definition option"
  ape_snapshot_json :: "routing_snapshot \<Rightarrow> json"
  ape_snapshot_of :: "json \<Rightarrow> routing_snapshot option"
  ape_dto_json :: "approval_dto \<Rightarrow> json"
  ape_dto_of :: "json \<Rightarrow> string + approval_dto"
  ape_base_url :: "string \<Rightarrow> string"

record approval_caller =
  apc_org :: uuid
  apc_actor :: actor
  apc_request_id :: string
  apc_now :: int
  apc_key :: "string option"

type_synonym 'a op_step = "approval_world \<Rightarrow> approval_world \<times> (app_error + 'a)"

section \<open>Helpers\<close>

definition op_fail :: "error_code \<Rightarrow> approval_caller \<Rightarrow> string \<Rightarrow> 'a op_step" where
  "op_fail code c detail = st_return (Inl (app_error_new code (apc_request_id c) detail))"

definition op_internal :: "approval_env \<Rightarrow> approval_caller \<Rightarrow> 'a op_step" where
  "op_internal env c = op_fail Internal c (''db error: '' @ ape_db_error env)"

definition op_not_found :: "approval_caller \<Rightarrow> string \<Rightarrow> 'a op_step" where
  "op_not_found c what = op_fail NotFound c (what @ '' not found'')"

definition op_tx :: "'a op_step \<Rightarrow> 'a op_step" where
  "op_tx m w = (case m w of (w', Inl e) \<Rightarrow> (w\<lparr>apw_uuids := apw_uuids w'\<rparr>, Inl e) | (w', Inr x) \<Rightarrow> (w', Inr x))"

definition op_parse_public_id :: "approval_env \<Rightarrow> approval_caller \<Rightarrow> id_kind \<Rightarrow> string \<Rightarrow> uuid op_step" where
  "op_parse_public_id env c kind raw =
     (case public_id_from_str (ape_parse_uuid env) raw of
        Inl e \<Rightarrow> op_fail ValidationFailed c (''invalid id: '' @ raw)
      | Inr p \<Rightarrow>
          if pid_kind p \<noteq> kind then op_fail ValidationFailed c (''id '' @ raw @ '' is not a '' @ kind @ '' id'')
          else st_return (Inr (pid_uuid p)))"

definition op_public :: "approval_env \<Rightarrow> id_kind \<Rightarrow> uuid \<Rightarrow> string" where
  "op_public env kind u = public_id_as_str (re_show_uuid (ape_relay env)) (public_id_new kind u)"

definition user_pub :: "approval_env \<Rightarrow> uuid \<Rightarrow> string" where
  "user_pub env u = op_public env ''User'' u"

definition op_uuid :: "approval_env \<Rightarrow> uuid op_step" where
  "op_uuid env w = (w\<lparr>apw_uuids := Suc (apw_uuids w)\<rparr>, Inr (re_gen_uuid (ape_relay env) (apw_uuids w)))"

definition op_require :: "approval_env \<Rightarrow> approval_caller \<Rightarrow> permission_id \<Rightarrow> unit op_step" where
  "op_require env c perm w =
     (w, and_then (load_membership_scope (apw_org w) (apc_org c) (user_id (apc_actor c)) (apc_request_id c)) (\<lambda>s.
       enforce_any_scope (ape_time env) (ms_principal s) perm (apc_request_id c)))"

definition op_audit :: "approval_env \<Rightarrow> approval_caller \<Rightarrow> string \<Rightarrow> string \<Rightarrow> string \<Rightarrow> json \<Rightarrow> unit op_step" where
  "op_audit env c action resource_type resource_id metadata =
     st_then (op_uuid env) (\<lambda>i w.
     if list_ex (\<lambda>a. ae_id a = i) (apw_audit w) then op_internal env c w
     else (w\<lparr>apw_audit := apw_audit w @ [\<lparr>ae_id = i, ae_org = apc_org c, ae_actor = apc_actor c, ae_action = action,
        ae_resource_type = resource_type, ae_resource_id = resource_id, ae_metadata = metadata\<rparr>]\<rparr>, Inr ()))"

definition op_emit :: "approval_env \<Rightarrow> approval_caller \<Rightarrow> string \<Rightarrow> json \<Rightarrow> unit op_step" where
  "op_emit env c event_type payload =
     st_then (op_uuid env) (\<lambda>i w.
     let r = ape_relay env;
         envelope = envelope_new i (apc_now c) (re_show_uuid r) (apc_org c) Operations ''approval'' event_type 1 (apc_actor c) payload in
     case insert_event r \<lparr>app_org = Some (apc_org c), app_outbox_relay = False\<rparr> envelope (apw_outbox w) of
       Inl e \<Rightarrow> op_fail Internal c (ape_show_outbox_error env e) w
     | Inr (ob, i) \<Rightarrow> (w\<lparr>apw_outbox := ob\<rparr>, Inr ()))"

definition idem_find :: "approval_caller \<Rightarrow> string \<Rightarrow> approval_world \<Rightarrow> (int \<times> json) option" where
  "idem_find c scope w = Option.bind (apc_key c) (\<lambda>k. map_of (apw_idem w) (apc_org c, scope, k))"

definition idem_store :: "approval_env \<Rightarrow> approval_caller \<Rightarrow> string \<Rightarrow> int \<Rightarrow> json \<Rightarrow> unit op_step" where
  "idem_store env c scope status body =
     (case apc_key c of
        None \<Rightarrow> st_return (Inr ())
      | Some k \<Rightarrow> st_then (op_uuid env) (\<lambda>i w.
          if map_of (apw_idem w) (apc_org c, scope, k) \<noteq> None then (w, Inr ())
          else (w\<lparr>apw_idem := apw_idem w @ [((apc_org c, scope, k), status, body)]\<rparr>, Inr ())))"

section \<open>Routing\<close>

record route_context =
  rx_amount :: "int option"
  rx_discount :: "int option"
  rx_category :: "string option"
  rx_department :: "uuid option"
  rx_requester_role :: "string option"

definition from_request :: "approval_env \<Rightarrow> create_request \<Rightarrow> int option \<Rightarrow> route_context" where
  "from_request env r discount =
     \<lparr>rx_amount = cq_amount r, rx_discount = discount, rx_category = cq_category r,
      rx_department = Option.bind (cq_department r) (\<lambda>s.
        case public_id_from_str (ape_parse_uuid env) s of
          Inr p \<Rightarrow> if pid_kind p = ''Department'' then Some (pid_uuid p)
            else (case ape_parse_uuid env s of Inr u \<Rightarrow> Some u | Inl e \<Rightarrow> None)
        | Inl e \<Rightarrow> (case ape_parse_uuid env s of Inr u \<Rightarrow> Some u | Inl e \<Rightarrow> None)),
      rx_requester_role = cq_requester_role r\<rparr>"

definition or_zero :: "int option \<Rightarrow> int" where
  "or_zero x = (case x of Some n \<Rightarrow> n | None \<Rightarrow> 0)"

definition matches_criteria :: "approval_env \<Rightarrow> policy_match \<Rightarrow> route_context \<Rightarrow> bool" where
  "matches_criteria env m ctx \<longleftrightarrow>
     (case mt_amount_gte m of Some gte \<Rightarrow> \<not> or_zero (rx_amount ctx) < gte | None \<Rightarrow> True) \<and>
     (case mt_amount_lt m of Some lt \<Rightarrow> \<not> or_zero (rx_amount ctx) \<ge> lt | None \<Rightarrow> True) \<and>
     (case mt_discount_gte m of Some bps \<Rightarrow> \<not> or_zero (rx_discount ctx) < bps | None \<Rightarrow> True) \<and>
     (mt_categories m = [] \<or>
       (case rx_category ctx of None \<Rightarrow> False | Some cat \<Rightarrow> list_ex (\<lambda>x. ascii_lower x = ascii_lower cat) (mt_categories m))) \<and>
     (mt_departments m = [] \<or>
       (case rx_department ctx of
          None \<Rightarrow> False
        | Some dep \<Rightarrow> list_ex (\<lambda>d. d = re_show_uuid (ape_relay env) dep \<or> d = op_public env ''Department'' dep) (mt_departments m))) \<and>
     (mt_requester_roles m = [] \<or>
       (case rx_requester_role ctx of None \<Rightarrow> False | Some role \<Rightarrow> list_ex (\<lambda>x. ascii_lower x = ascii_lower role) (mt_requester_roles m)))"

definition members_with_role :: "approval_env \<Rightarrow> approval_world \<Rightarrow> uuid \<Rightarrow> string \<Rightarrow> uuid list" where
  "members_with_role env w org role_key =
     concat (map (\<lambda>m. map (\<lambda>r. mb_user m)
       (filter (\<lambda>r. rl_org r = org \<and> mb_role_id m = Some (rl_id r) \<and>
          (case rl_system_key r of None \<Rightarrow> False | Some k \<Rightarrow> ape_lower env k = ape_lower env role_key)) (apw_roles w)))
       (filter (\<lambda>m. mb_org m = org \<and> mb_revoked m = None) (od_memberships (apw_org w))))"

definition explicit_approver :: "approval_env \<Rightarrow> string \<Rightarrow> uuid option" where
  "explicit_approver env raw =
     (case ape_parse_uuid env raw of
        Inr u \<Rightarrow> Some u
      | Inl e \<Rightarrow>
          (case public_id_from_str (ape_parse_uuid env) raw of
             Inl e \<Rightarrow> None
           | Inr p \<Rightarrow> if pid_kind p = ''User'' then Some (pid_uuid p) else None))"

definition resolve_step_assignees :: "approval_env \<Rightarrow> approval_world \<Rightarrow> uuid \<Rightarrow> policy_step \<Rightarrow> uuid list" where
  "resolve_step_assignees env w org s =
     (let ids = List.map_filter (explicit_approver env) (ps_users s);
          ids = (if ids \<noteq> [] then ids
                 else case ps_role s of None \<Rightarrow> [] | Some role_key \<Rightarrow> members_with_role env w org role_key) in
      remdups_adj (sort ids))"

definition opt_part :: "string \<Rightarrow> string option \<Rightarrow> string list" where
  "opt_part name x = (case x of None \<Rightarrow> [] | Some v \<Rightarrow> [name @ ''='' @ v])"

definition build_rationale :: "string \<Rightarrow> int \<Rightarrow> approval_mode \<Rightarrow> policy_definition \<Rightarrow> route_context \<Rightarrow> string" where
  "build_rationale policy_name version mode def ctx =
     join_with ''; ''
       ([''Routed by policy '' @ [CHR 0x22] @ policy_name @ [CHR 0x22] @ '' v'' @ show_int version @ '' ('' @ approval_mode_as_str mode @ '')''] @
        opt_part ''amount_minor'' (map_option show_int (rx_amount ctx)) @
        opt_part ''discount_bps'' (map_option show_int (rx_discount ctx)) @
        opt_part ''category'' (rx_category ctx) @
        opt_part ''requester_role'' (rx_requester_role ctx) @
        (if mt_categories (pd_match def) \<noteq> [] \<or> mt_amount_gte (pd_match def) \<noteq> None \<or> mt_discount_gte (pd_match def) \<noteq> None
         then [''matched policy criteria''] else []))"

definition resolved :: "approval_env \<Rightarrow> approval_world \<Rightarrow> uuid \<Rightarrow> policy_step \<Rightarrow> resolved_step" where
  "resolved env w org s =
     \<lparr>rs_order = ps_order s, rs_role = ps_role s, rs_assignees = resolve_step_assignees env w org s,
      rs_sla = ps_sla s, rs_escalate = ps_escalate s\<rparr>"

definition build_routing_snapshot ::
  "approval_env \<Rightarrow> approval_world \<Rightarrow> uuid \<Rightarrow> approval_policy \<Rightarrow> policy_definition \<Rightarrow> route_context \<Rightarrow> routing_snapshot" where
  "build_routing_snapshot env w org p def ctx =
     \<lparr>sn_policy = ap_public_id p, sn_name = ap_name p, sn_version = ap_version p, sn_mode = pd_mode def, sn_match = pd_match def,
      sn_steps = map (resolved env w org) (sort_key ps_order (pd_steps def)),
      sn_rationale = build_rationale (ap_name p) (ap_version p) (pd_mode def) def ctx\<rparr>"

section \<open>Policy tables\<close>

definition no_match :: policy_match where
  "no_match = \<lparr>mt_amount_gte = None, mt_amount_lt = None, mt_discount_gte = None, mt_categories = [], mt_departments = [],
     mt_requester_roles = []\<rparr>"

definition find_policy :: "approval_world \<Rightarrow> uuid \<Rightarrow> uuid \<Rightarrow> approval_policy option" where
  "find_policy w org i = find (\<lambda>p. ap_org p = org \<and> ap_id p = i) (apw_policies w)"

definition find_version :: "approval_world \<Rightarrow> uuid \<Rightarrow> uuid \<Rightarrow> int \<Rightarrow> policy_version option" where
  "find_version w org policy version =
     find (\<lambda>v. pv_org v = org \<and> pv_policy v = policy \<and> pv_version v = version) (apw_versions w)"

definition fetch_policy_dto :: "approval_env \<Rightarrow> approval_world \<Rightarrow> uuid \<Rightarrow> uuid \<Rightarrow> policy_dto option" where
  "fetch_policy_dto env w org i =
     map_option (\<lambda>p. \<lparr>pt_id = ap_public_id p, pt_name = ap_name p, pt_subject_type = ap_subject_type p, pt_active = ap_active p,
       pt_version = ap_version p,
       pt_definition = (case Option.bind (find_version w org (ap_id p) (ap_version p)) (\<lambda>v. ape_def_of env (pv_definition v)) of
         Some def \<Rightarrow> def | None \<Rightarrow> \<lparr>pd_mode = AnyOf, pd_match = no_match, pd_steps = []\<rparr>),
       pt_created = re_show_time (ape_relay env) (ap_created p), pt_updated = re_show_time (ape_relay env) (ap_updated p)\<rparr>)
     (find_policy w org i)"

fun first_match ::
  "approval_env \<Rightarrow> approval_world \<Rightarrow> uuid \<Rightarrow> route_context \<Rightarrow> approval_policy list \<Rightarrow> (approval_policy \<times> uuid \<times> policy_definition) option" where
  "first_match env w org ctx [] = None"
| "first_match env w org ctx (p # ps) =
     (case find_version w org (ap_id p) (ap_version p) of
        None \<Rightarrow> first_match env w org ctx ps
      | Some v \<Rightarrow>
          (case ape_def_of env (pv_definition v) of
             None \<Rightarrow> first_match env w org ctx ps
           | Some def \<Rightarrow>
               if matches_criteria env (pd_match def) ctx then Some (p, pv_id v, def) else first_match env w org ctx ps))"

definition find_matching_policy ::
  "approval_env \<Rightarrow> approval_world \<Rightarrow> uuid \<Rightarrow> string \<Rightarrow> route_context \<Rightarrow> (approval_policy \<times> uuid \<times> policy_definition) option" where
  "find_matching_policy env w org subject_type ctx =
     first_match env w org ctx (filter (\<lambda>p. ap_org p = org \<and> ap_subject_type p = subject_type \<and> ap_active p) (apw_policies w))"

definition subject_types :: "string list" where
  "subject_types = [''expense'', ''quote_discount'', ''generic'', ''leave_request'', ''payroll_run'', ''purchase_request'', ''timesheet'']"

definition insert_policy_row :: "approval_env \<Rightarrow> approval_caller \<Rightarrow> approval_policy \<Rightarrow> unit op_step" where
  "insert_policy_row env c p w =
     (if list_ex (\<lambda>q. ap_id q = ap_id p \<or> ap_org q = ap_org p \<and> ap_public_id q = ap_public_id p) (apw_policies w)
        \<or> ap_subject_type p \<notin> set subject_types
      then op_internal env c w else (w\<lparr>apw_policies := apw_policies w @ [p]\<rparr>, Inr ()))"

definition insert_version_row :: "approval_env \<Rightarrow> approval_caller \<Rightarrow> policy_version \<Rightarrow> unit op_step" where
  "insert_version_row env c v w =
     (if list_ex (\<lambda>q. pv_id q = pv_id v \<or> pv_org q = pv_org v \<and> pv_policy q = pv_policy v \<and> pv_version q = pv_version v) (apw_versions w)
      then op_internal env c w else (w\<lparr>apw_versions := apw_versions w @ [v]\<rparr>, Inr ()))"

definition store_policy ::
  "approval_env \<Rightarrow> approval_caller \<Rightarrow> string \<Rightarrow> string \<Rightarrow> policy_definition \<Rightarrow> uuid option \<Rightarrow> uuid op_step" where
  "store_policy env c name subject_type def published_by =
     st_then (op_uuid env) (\<lambda>i.
     st_then (op_uuid env) (\<lambda>v.
     st_then (insert_policy_row env c \<lparr>ap_id = i, ap_org = apc_org c, ap_public_id = op_public env ''ApprovalPolicy'' i, ap_name = name,
        ap_subject_type = subject_type, ap_active = True, ap_version = 1, ap_created = apc_now c, ap_updated = apc_now c\<rparr>) (\<lambda>_.
     st_then (insert_version_row env c \<lparr>pv_id = v, pv_org = apc_org c, pv_policy = i, pv_version = 1,
        pv_definition = ape_def_json env def, pv_published_by = published_by\<rparr>) (\<lambda>_.
     st_return (Inr i)))))"

definition insert_policy :: "approval_env \<Rightarrow> approval_caller \<Rightarrow> string \<Rightarrow> string \<Rightarrow> policy_definition \<Rightarrow> uuid op_step" where
  "insert_policy env c name subject_type def =
     store_policy env c name subject_type def (Some (user_id (apc_actor c)))"

definition change_policy :: "approval_caller \<Rightarrow> uuid \<Rightarrow> (approval_policy \<Rightarrow> approval_policy) \<Rightarrow> approval_world \<Rightarrow> approval_world" where
  "change_policy c i f w =
     w\<lparr>apw_policies := map (\<lambda>p. if ap_org p = apc_org c \<and> ap_id p = i then f p\<lparr>ap_updated := apc_now c\<rparr> else p) (apw_policies w)\<rparr>"

definition publish_new_version :: "approval_env \<Rightarrow> approval_caller \<Rightarrow> uuid \<Rightarrow> policy_definition \<Rightarrow> int op_step" where
  "publish_new_version env c i def w =
     (case find_policy w (apc_org c) i of
        None \<Rightarrow> op_internal env c w
      | Some p \<Rightarrow>
          (let n = wrap_i32 (ap_version p + 1) in
           st_then (op_uuid env) (\<lambda>v.
           st_then (insert_version_row env c \<lparr>pv_id = v, pv_org = apc_org c, pv_policy = i, pv_version = n,
              pv_definition = ape_def_json env def, pv_published_by = Some (user_id (apc_actor c))\<rparr>) (\<lambda>_ w.
           (change_policy c i (\<lambda>p. p\<lparr>ap_version := n\<rparr>) w, Inr n))) w))"

section \<open>Default policies\<close>

definition one_step :: "string \<Rightarrow> policy_match \<Rightarrow> policy_definition" where
  "one_step role m = \<lparr>pd_mode = AnyOf, pd_match = m,
     pd_steps = [\<lparr>ps_order = 1, ps_role = Some role, ps_users = [], ps_sla = Some 86400, ps_escalate = Some ''admin''\<rparr>]\<rparr>"

definition default_policies :: "(string \<times> string \<times> policy_definition) list" where
  "default_policies =
     [(''Default expense approval'', ''expense'', one_step ''finance'' (no_match\<lparr>mt_amount_gte := Some 1\<rparr>)),
      (''Default quote discount approval'', ''quote_discount'', one_step ''manager'' (no_match\<lparr>mt_discount_gte := Some 1000\<rparr>)),
      (''Default leave request approval'', ''leave_request'', one_step ''manager'' no_match),
      (''Default payroll run approval'', ''payroll_run'', one_step ''finance'' no_match),
      (''Default purchase request approval'', ''purchase_request'', one_step ''manager'' no_match),
      (''Default timesheet approval'', ''timesheet'', one_step ''manager'' no_match)]"

definition seed_one :: "approval_env \<Rightarrow> approval_caller \<Rightarrow> string \<times> string \<times> policy_definition \<Rightarrow> unit op_step" where
  "seed_one env c d w =
     (case d of (name, subject_type, def) \<Rightarrow>
      if list_ex (\<lambda>p. ap_org p = apc_org c \<and> ap_subject_type p = subject_type \<and> ap_name p = name) (apw_policies w) then (w, Inr ())
      else st_then (store_policy env c name subject_type def None) (\<lambda>_. st_return (Inr ())) w)"

fun seed_all :: "approval_env \<Rightarrow> approval_caller \<Rightarrow> (string \<times> string \<times> policy_definition) list \<Rightarrow> unit op_step" where
  "seed_all env c [] = st_return (Inr ())"
| "seed_all env c (d # ds) = st_then (seed_one env c d) (\<lambda>_. seed_all env c ds)"

text \<open>Callers ignore whether the defaults could be stored.\<close>

definition ensure_default_policies :: "approval_env \<Rightarrow> approval_caller \<Rightarrow> unit op_step" where
  "ensure_default_policies env c w = (fst (op_tx (seed_all env c default_policies) w), Inr ())"

section \<open>Reading approvals\<close>

definition find_approval :: "approval_world \<Rightarrow> uuid \<Rightarrow> uuid \<Rightarrow> approval option" where
  "find_approval w org i = find (\<lambda>a. av_org a = org \<and> av_id a = i) (apw_approvals w)"

definition steps_of :: "approval_world \<Rightarrow> uuid \<Rightarrow> uuid \<Rightarrow> approval_step list" where
  "steps_of w org i = filter (\<lambda>t. st_org t = org \<and> st_approval t = i) (apw_steps w)"

definition find_step :: "approval_world \<Rightarrow> uuid \<Rightarrow> uuid \<Rightarrow> int \<Rightarrow> approval_step option" where
  "find_step w org i n = find (\<lambda>t. st_org t = org \<and> st_approval t = i \<and> st_order t = n) (apw_steps w)"

definition load_steps :: "approval_env \<Rightarrow> approval_world \<Rightarrow> uuid \<Rightarrow> uuid \<Rightarrow> step_dto list" where
  "load_steps env w org i =
     map (\<lambda>t. \<lparr>td_order = st_order t, td_status = st_status t, td_role = st_role t, td_assignees = map (user_pub env) (st_assignees t),
       td_sla = st_sla t, td_escalate = st_escalate t, td_escalated_at = map_option (re_show_time (ape_relay env)) (st_escalated_at t),
       td_decided_at = map_option (re_show_time (ape_relay env)) (st_decided_at t),
       td_decided_by = map_option (user_pub env) (st_decided_by t)\<rparr>) (sort_key st_order (steps_of w org i))"

definition row_to_dto :: "approval_env \<Rightarrow> approval \<Rightarrow> string \<Rightarrow> step_dto list \<Rightarrow> approval_dto" where
  "row_to_dto env a policy_public steps =
     \<lparr>dt_id = av_public_id a, dt_subject_type = av_subject_type a, dt_subject_id = av_subject_id a, dt_status = av_status a,
      dt_requester = user_pub env (av_requester a), dt_amount = av_amount a, dt_currency = av_currency a, dt_category = av_category a,
      dt_title = av_title a, dt_summary = av_summary a, dt_mode = av_mode a, dt_step = av_step a, dt_policy = policy_public,
      dt_policy_version = av_policy_version a,
      dt_snapshot = (case ape_snapshot_of env (av_snapshot a) of
        Some sn \<Rightarrow> sn
      | None \<Rightarrow> \<lparr>sn_policy = policy_public, sn_name = [], sn_version = av_policy_version a,
          sn_mode = (case approval_mode_parse (av_mode a) of Some m \<Rightarrow> m | None \<Rightarrow> AnyOf), sn_match = no_match, sn_steps = [], sn_rationale = []\<rparr>),
      dt_steps = steps, dt_decided_at = map_option (re_show_time (ape_relay env)) (av_decided_at a),
      dt_decided_by = map_option (user_pub env) (av_decided_by a), dt_note = av_note a,
      dt_created = re_show_time (ape_relay env) (av_created a), dt_updated = re_show_time (ape_relay env) (av_updated a)\<rparr>"

definition policy_public_of :: "approval_world \<Rightarrow> approval \<Rightarrow> string option" where
  "policy_public_of w a = map_option ap_public_id (find (\<lambda>p. ap_id p = av_policy a) (apw_policies w))"

definition fetch_approval_dto :: "approval_env \<Rightarrow> approval_world \<Rightarrow> uuid \<Rightarrow> uuid \<Rightarrow> approval_dto option" where
  "fetch_approval_dto env w org i =
     Option.bind (find_approval w org i) (\<lambda>a.
       map_option (\<lambda>p. row_to_dto env a p (load_steps env w org i)) (policy_public_of w a))"

definition current_dto :: "approval_env \<Rightarrow> approval_caller \<Rightarrow> uuid \<Rightarrow> approval_dto op_step" where
  "current_dto env c i w =
     (case fetch_approval_dto env w (apc_org c) i of None \<Rightarrow> op_not_found c ''approval'' w | Some d \<Rightarrow> (w, Inr d))"

definition delegated_to :: "approval_world \<Rightarrow> int \<Rightarrow> uuid \<Rightarrow> uuid \<Rightarrow> uuid list \<Rightarrow> uuid \<Rightarrow> bool" where
  "delegated_to w now org i assignees actor =
     list_ex (\<lambda>d. de_org d = org \<and> de_to d = actor \<and> de_from d \<in> set assignees \<and> de_revoked d = None \<and>
       (case de_ends d of None \<Rightarrow> True | Some t \<Rightarrow> t > now) \<and> (de_approval d = None \<or> de_approval d = Some i)) (apw_delegations w)"

definition actor_can_decide_step :: "approval_world \<Rightarrow> int \<Rightarrow> uuid \<Rightarrow> uuid \<Rightarrow> int \<Rightarrow> uuid \<Rightarrow> bool" where
  "actor_can_decide_step w now org i n actor =
     (case find_step w org i n of
        None \<Rightarrow> False
      | Some t \<Rightarrow> actor \<in> set (st_assignees t) \<or> delegated_to w now org i (st_assignees t) actor)"

definition step_assignees :: "approval_world \<Rightarrow> uuid \<Rightarrow> uuid \<Rightarrow> int \<Rightarrow> uuid list" where
  "step_assignees w org i n = (case find_step w org i n of None \<Rightarrow> [] | Some t \<Rightarrow> st_assignees t)"

definition waits_for :: "approval_world \<Rightarrow> approval_caller \<Rightarrow> approval \<Rightarrow> bool" where
  "waits_for w c a = actor_can_decide_step w (apc_now c) (apc_org c) (av_id a) (av_step a) (user_id (apc_actor c))"

definition inbox_summary :: "approval_env \<Rightarrow> approval_caller \<Rightarrow> nat op_step" where
  "inbox_summary env c =
     st_then (op_require env c operations_approval_read) (\<lambda>_ w.
     (w, Inr (length (filter (\<lambda>a. av_org a = apc_org c \<and> av_status a = ''pending'' \<and> waits_for w c a \<and>
        list_ex (\<lambda>t. st_order t = av_step a \<and> st_status t \<in> {''active'', ''pending''}) (steps_of w (apc_org c) (av_id a)))
        (apw_approvals w)))))"

definition normalize_paging :: "int option \<Rightarrow> int option \<Rightarrow> int \<times> int" where
  "normalize_paging limit offset =
     (max 1 (min 200 (case limit of Some n \<Rightarrow> n | None \<Rightarrow> 50)), max 0 (case offset of Some n \<Rightarrow> n | None \<Rightarrow> 0))"

definition list_approvals ::
  "approval_env \<Rightarrow> approval_caller \<Rightarrow> string option \<Rightarrow> bool option \<Rightarrow> string option \<Rightarrow> int option \<Rightarrow> int option \<Rightarrow> approval_dto list op_step" where
  "list_approvals env c status pending_for_me subject_type limit offset =
     st_then (op_require env c operations_approval_read) (\<lambda>_ w.
     let (limit, offset) = normalize_paging limit offset;
         mine = (case pending_for_me of Some b \<Rightarrow> b | None \<Rightarrow> True);
         rows = filter (\<lambda>a. av_org a = apc_org c \<and>
           (if mine then av_status a = (case status of Some s \<Rightarrow> s | None \<Rightarrow> ''pending'') \<and> waits_for w c a
            else case status of None \<Rightarrow> True | Some s \<Rightarrow> av_status a = s) \<and>
           (case subject_type of None \<Rightarrow> True | Some s \<Rightarrow> av_subject_type a = s) \<and> policy_public_of w a \<noteq> None)
           (sort_key (\<lambda>a. - av_created a) (apw_approvals w)) in
     (w, Inr (List.map_filter (\<lambda>a. map_option (\<lambda>p. row_to_dto env a p (load_steps env w (apc_org c) (av_id a))) (policy_public_of w a))
        (take (nat limit) (drop (nat offset) rows)))))"

definition get_approval :: "approval_env \<Rightarrow> approval_caller \<Rightarrow> string \<Rightarrow> approval_dto op_step" where
  "get_approval env c raw =
     st_then (op_parse_public_id env c ''Approval'' raw) (\<lambda>i.
     st_then (op_require env c operations_approval_read) (\<lambda>_. current_dto env c i))"

section \<open>Requesting\<close>

definition parse_i64 :: "string \<Rightarrow> int option" where
  "parse_i64 s =
     (let neg = (s \<noteq> [] \<and> hd s = CHR ''-''); signed = (neg \<or> s \<noteq> [] \<and> hd s = CHR ''+'');
          ds = (if signed then tl s else s);
          n = (if neg then - int (dec_val ds) else int (dec_val ds)) in
      if ds = [] \<or> \<not> list_all is_digit ds \<or> \<not> in_i64 n then None else Some n)"

definition request_context :: "approval_env \<Rightarrow> create_request \<Rightarrow> route_context" where
  "request_context env r =
     (let ctx = from_request env r None in
      if cq_subject_type r = ''quote_discount'' then
        ctx\<lparr>rx_discount :=
          (case Option.bind (Option.bind (cq_summary r) (strip_prefix ''discount_bps:'')) (\<lambda>n. parse_i64 (str_trim n)) of
             Some n \<Rightarrow> Some n
           | None \<Rightarrow> Option.bind (Option.bind (cq_category r) (strip_prefix ''bps:'')) parse_i64)\<rparr>
      else ctx)"

definition workflow_id :: "string \<Rightarrow> string \<Rightarrow> string" where
  "workflow_id org approval_public = org @ '':ApprovalProcess:'' @ approval_public"

definition insert_approval_row :: "approval_env \<Rightarrow> approval_caller \<Rightarrow> approval \<Rightarrow> unit op_step" where
  "insert_approval_row env c a w =
     (case (case av_currency a of None \<Rightarrow> Some None | Some cur \<Rightarrow> map_option Some (ape_char3 env cur)) of
        None \<Rightarrow> op_internal env c w
      | Some currency \<Rightarrow>
          if list_ex (\<lambda>b. av_id b = av_id a \<or> av_org b = av_org a \<and> (av_public_id b = av_public_id a \<or>
              av_subject_type b = av_subject_type a \<and> av_subject_id b = av_subject_id a)) (apw_approvals w)
          then op_internal env c w
          else (w\<lparr>apw_approvals := apw_approvals w @ [a\<lparr>av_currency := currency\<rparr>]\<rparr>, Inr ()))"

fun insert_steps :: "approval_env \<Rightarrow> approval_caller \<Rightarrow> uuid \<Rightarrow> int \<Rightarrow> resolved_step list \<Rightarrow> unit op_step" where
  "insert_steps env c i first [] w = (w, Inr ())"
| "insert_steps env c i first (s # ss) w =
     st_then (op_uuid env) (\<lambda>k w.
     if list_ex (\<lambda>t. st_id t = k \<or> st_org t = apc_org c \<and> st_approval t = i \<and> st_order t = rs_order s) (apw_steps w)
     then op_internal env c w
     else insert_steps env c i first ss
       (w\<lparr>apw_steps := apw_steps w @ [\<lparr>st_id = k, st_org = apc_org c, st_approval = i, st_order = rs_order s,
          st_status = (if rs_order s = first then ''active'' else ''pending''), st_role = rs_role s, st_assignees = rs_assignees s,
          st_sla = rs_sla s, st_escalate = rs_escalate s, st_escalated_at = None, st_decided_at = None, st_decided_by = None\<rparr>]\<rparr>)) w"

definition find_subject :: "approval_world \<Rightarrow> uuid \<Rightarrow> create_request \<Rightarrow> approval option" where
  "find_subject w org r =
     find (\<lambda>a. av_org a = org \<and> av_subject_type a = cq_subject_type r \<and> av_subject_id a = cq_subject_id r) (apw_approvals w)"

definition new_approval ::
  "approval_env \<Rightarrow> approval_caller \<Rightarrow> create_request \<Rightarrow> route_context \<Rightarrow> approval_policy \<Rightarrow> uuid \<Rightarrow> policy_definition \<Rightarrow> routing_snapshot \<Rightarrow> uuid \<Rightarrow> approval" where
  "new_approval env c r ctx p version_id def sn i =
     \<lparr>av_id = i, av_org = apc_org c, av_public_id = op_public env ''Approval'' i, av_subject_type = cq_subject_type r,
      av_subject_id = cq_subject_id r, av_status = ''pending'', av_requester = user_id (apc_actor c),
      av_requester_role = cq_requester_role r, av_amount = cq_amount r, av_currency = cq_currency r, av_category = cq_category r,
      av_department = rx_department ctx, av_policy = ap_id p, av_policy_version = ap_version p, av_policy_version_id = version_id,
      av_snapshot = ape_snapshot_json env sn, av_mode = approval_mode_as_str (pd_mode def), av_step = 1,
      av_title = (case cq_title r of Some t \<Rightarrow> t | None \<Rightarrow> cq_subject_type r @ '' approval''), av_summary = cq_summary r,
      av_workflow = workflow_id (op_public env ''Org'' (apc_org c)) (op_public env ''Approval'' i),
      av_decided_at = None, av_decided_by = None, av_note = None, av_created = apc_now c, av_updated = apc_now c\<rparr>"

definition request_approval :: "approval_env \<Rightarrow> approval_caller \<Rightarrow> create_request \<Rightarrow> (int \<times> json) op_step" where
  "request_approval env c r w =
     (let ctx = request_context env r in
      case find_matching_policy env w (apc_org c) (cq_subject_type r) ctx of
        None \<Rightarrow> op_fail Conflict c (''no active approval policy matched subject_type='' @ cq_subject_type r) w
      | Some (p, version_id, def) \<Rightarrow>
          (let sn = build_routing_snapshot env w (apc_org c) p def ctx in
           case sn_steps sn of
             [] \<Rightarrow> op_fail Conflict c ''policy has no steps after resolution'' w
           | s # ss \<Rightarrow>
               st_then (op_uuid env) (\<lambda>i.
               st_then (insert_approval_row env c (new_approval env c r ctx p version_id def sn i)) (\<lambda>_.
               st_then (insert_steps env c i (rs_order s) (s # ss)) (\<lambda>_.
               st_then (op_emit env c ''requested'' (json_object
                 [(''id'', JStr (op_public env ''Approval'' i)), (''subject_type'', JStr (cq_subject_type r)),
                  (''subject_id'', JStr (cq_subject_id r)), (''policy_version'', JInt (ap_version p)),
                  (''routing_rationale'', JStr (sn_rationale sn))])) (\<lambda>_.
               st_then (op_audit env c ''operations.approval.request'' ''approval'' (op_public env ''Approval'' i) (json_object
                 [(''policy_version'', JInt (ap_version p)), (''subject_type'', JStr (cq_subject_type r))])) (\<lambda>_ w.
               case fetch_approval_dto env w (apc_org c) i of
                 None \<Rightarrow> op_fail Internal c ''approval missing after insert'' w
               | Some d \<Rightarrow>
                   st_then (idem_store env c ''approval.create'' 201 (ape_dto_json env d)) (\<lambda>_.
                   st_return (Inr (201, ape_dto_json env d))) w))))) w))"

definition create_approval :: "approval_env \<Rightarrow> approval_caller \<Rightarrow> create_request \<Rightarrow> (int \<times> json) op_step" where
  "create_approval env c r =
     st_then (op_require env c operations_approval_read) (\<lambda>_.
     if str_trim (cq_subject_type r) = [] \<or> str_trim (cq_subject_id r) = []
     then op_fail ValidationFailed c ''subject_type and subject_id are required''
     else
       st_then (ensure_default_policies env c) (\<lambda>_.
       op_tx (\<lambda>w. case idem_find c ''approval.create'' w of
         Some (status, stored) \<Rightarrow> (w, Inr (if 100 \<le> status mod 65536 \<and> status mod 65536 < 1000 then status mod 65536 else 201, stored))
       | None \<Rightarrow>
           (case find_subject w (apc_org c) r of
              Some a \<Rightarrow> st_then (current_dto env c (av_id a)) (\<lambda>d. st_return (Inr (200, ape_dto_json env d))) w
            | None \<Rightarrow> request_approval env c r w))))"

section \<open>Deciding\<close>

definition change_step :: "approval_caller \<Rightarrow> uuid \<Rightarrow> int \<Rightarrow> (approval_step \<Rightarrow> approval_step) \<Rightarrow> approval_world \<Rightarrow> approval_world" where
  "change_step c i n f w =
     w\<lparr>apw_steps := map (\<lambda>t. if st_org t = apc_org c \<and> st_approval t = i \<and> st_order t = n then f t else t) (apw_steps w)\<rparr>"

definition change_approval :: "approval_caller \<Rightarrow> uuid \<Rightarrow> (approval \<Rightarrow> approval) \<Rightarrow> approval_world \<Rightarrow> approval_world" where
  "change_approval c i f w =
     w\<lparr>apw_approvals := map (\<lambda>a. if av_org a = apc_org c \<and> av_id a = i then f a else a) (apw_approvals w)\<rparr>"

text \<open>The guarded update of \<open>decide\<close>, with the number of rows it changes.\<close>

definition decide_row :: "approval_caller \<Rightarrow> uuid \<Rightarrow> string \<Rightarrow> string option \<Rightarrow> approval_world \<Rightarrow> approval_world \<times> nat" where
  "decide_row c i status note w =
     (let hit = (\<lambda>a. av_org a = apc_org c \<and> av_id a = i \<and> av_status a = ''pending'') in
      (w\<lparr>apw_approvals := map (\<lambda>a. if hit a then a\<lparr>av_status := status, av_decided_at := Some (apc_now c),
         av_decided_by := Some (user_id (apc_actor c)), av_note := note, av_updated := apc_now c\<rparr> else a) (apw_approvals w)\<rparr>,
       length (filter hit (apw_approvals w))))"

definition insert_decision :: "approval_env \<Rightarrow> approval_caller \<Rightarrow> uuid \<Rightarrow> int \<Rightarrow> string \<Rightarrow> string option \<Rightarrow> string option \<Rightarrow> unit op_step" where
  "insert_decision env c i n decision note key =
     st_then (op_uuid env) (\<lambda>k w.
     if list_ex (\<lambda>d. ad_id d = k \<or> ad_org d = apc_org c \<and> ad_approval d = i \<and> key \<noteq> None \<and> ad_key d = key) (apw_decisions w)
     then op_internal env c w
     else (w\<lparr>apw_decisions := apw_decisions w @ [\<lparr>ad_id = k, ad_org = apc_org c, ad_approval = i, ad_step = n, ad_decision = decision,
        ad_actor = user_id (apc_actor c), ad_on_behalf_of = on_behalf_of (apc_actor c), ad_comment = note, ad_key = key\<rparr>]\<rparr>, Inr ()))"

definition record_decision ::
  "approval_env \<Rightarrow> approval_caller \<Rightarrow> string \<Rightarrow> approval \<Rightarrow> bool \<Rightarrow> string option \<Rightarrow> (approval_dto \<times> bool) op_step" where
  "record_decision env c raw a approve note w =
     (let i = av_id a; n = av_step a; new_status = (if approve then ''approved'' else ''rejected'');
          decision = (if approve then ''approve'' else ''reject''); me = apc_actor c in
      case decide_row c i new_status note w of (w, updated) \<Rightarrow>
      if updated = 0 then st_then (current_dto env c i) (\<lambda>d. st_return (Inr (d, False))) w
      else
        st_then (insert_decision env c i n decision note (apc_key c)) (\<lambda>_.
        st_then (op_emit env c ''decided'' (json_object
          [(''id'', JStr (av_public_id a)), (''decision'', JStr decision), (''actor_user_id'', JStr (user_pub env (user_id me))),
           (''on_behalf_of'', JStr (user_pub env (on_behalf_of me))), (''comment'', opt_json note)])) (\<lambda>_.
        st_then (op_audit env c ''operations.approval.decide'' ''approval'' (av_public_id a) (json_object
          [(''decision'', JStr decision), (''on_behalf_of'', JStr (user_pub env (on_behalf_of me)))])) (\<lambda>_.
        st_then (current_dto env c i) (\<lambda>d.
        st_then (idem_store env c (''approval.decide.'' @ raw) 200 (ape_dto_json env d)) (\<lambda>_.
        st_return (Inr (d, True)))))))
        (change_step c i n (\<lambda>t. t\<lparr>st_status := new_status, st_decided_at := Some (apc_now c), st_decided_by := Some (user_id me)\<rparr>) w))"

text \<open>The transaction of \<open>decide\<close>; the flag says that this call decided.\<close>

definition decide_tx ::
  "approval_env \<Rightarrow> approval_caller \<Rightarrow> string \<Rightarrow> uuid \<Rightarrow> bool \<Rightarrow> string option \<Rightarrow> (approval_dto \<times> bool) op_step" where
  "decide_tx env c raw i approve note w =
     (case idem_find c (''approval.decide.'' @ raw) w of
        Some (status, stored) \<Rightarrow>
          (case ape_dto_of env stored of Inl e \<Rightarrow> op_fail Internal c e w | Inr d \<Rightarrow> (w, Inr (d, False)))
      | None \<Rightarrow>
          (case find_approval w (apc_org c) i of
             None \<Rightarrow> op_not_found c ''approval'' w
           | Some a \<Rightarrow>
               if av_status a \<noteq> ''pending'' then st_then (current_dto env c i) (\<lambda>d. st_return (Inr (d, False))) w
               else if \<not> waits_for w c a \<and> step_assignees w (apc_org c) i (av_step a) \<noteq> []
               then op_fail Forbidden c ''not an assignee (or delegate) for the active approval step'' w
               else record_decision env c raw a approve note w))"

definition send_to :: "approval_env \<Rightarrow> approval_caller \<Rightarrow> string \<Rightarrow> string \<Rightarrow> json \<Rightarrow> bool \<Rightarrow> approval_world \<Rightarrow> approval_world" where
  "send_to env c service path body named w =
     w\<lparr>apw_http := apw_http w @ [\<lparr>og_url = trim_slashes (ape_base_url env service) @ path, og_json = body,
        og_headers = [(''x-companyos-dev-org-id'', op_public env ''Org'' (apc_org c)),
          (''x-companyos-dev-user-id'', user_pub env (user_id (apc_actor c)))] @
          (if named then [(''x-companyos-on-behalf-of'', user_pub env (on_behalf_of (apc_actor c)))] else [])\<rparr>]\<rparr>"

definition apply_subject_side_effect :: "approval_env \<Rightarrow> approval_caller \<Rightarrow> approval_dto \<Rightarrow> approval_world \<Rightarrow> approval_world" where
  "apply_subject_side_effect env c d =
     (let approve = (dt_status d = ''approved''); i = dt_subject_id d; kind = dt_subject_type d;
          body = json_object [(''approve'', JBool approve), (''note'', opt_json (dt_note d))] in
      if kind = ''expense'' then send_to env c ''FINANCE_SERVICE_URL'' (''/api/v1/finance/expenses/'' @ i @ ''/decide'') body True
      else if kind = ''quote_discount'' then send_to env c ''CRM_SERVICE_URL''
        (''/api/v1/sales/quotes/'' @ i @ (if approve then ''/approval-complete'' else ''/approval-reject'')) (json_object []) False
      else if kind = ''leave_request'' then send_to env c ''HR_SERVICE_URL'' (''/api/v1/people/leave-requests/'' @ i @ ''/decide'') body True
      else if kind = ''payroll_run'' then send_to env c ''HR_SERVICE_URL'' (''/api/v1/people/payroll/runs/'' @ i @ ''/decide'') body True
      else if kind = ''purchase_request'' then
        send_to env c ''INVENTORY_SERVICE_URL'' (''/api/v1/inventory/purchase-requests/'' @ i @ ''/decide'') body True
      else (\<lambda>w. w))"

definition decide_approval :: "approval_env \<Rightarrow> approval_caller \<Rightarrow> string \<Rightarrow> bool \<Rightarrow> string option \<Rightarrow> approval_dto op_step" where
  "decide_approval env c raw approve note =
     st_then (op_parse_public_id env c ''Approval'' raw) (\<lambda>i.
     st_then (op_require env c operations_approval_decide) (\<lambda>_.
     st_then (op_tx (decide_tx env c raw i approve note)) (\<lambda>(d, decided) w.
     (if decided then apply_subject_side_effect env c d w else w, Inr d))))"

fun bulk_decide ::
  "approval_env \<Rightarrow> approval_caller \<Rightarrow> string list \<Rightarrow> bool \<Rightarrow> string option \<Rightarrow> approval_world \<Rightarrow> approval_world \<times> approval_dto list \<times> string list" where
  "bulk_decide env c [] approve note w = (w, [], [])"
| "bulk_decide env c (raw # raws) approve note w =
     (case decide_approval env c raw approve note w of
        (w, Inl e) \<Rightarrow> (case bulk_decide env c raws approve note w of (w, ds, skipped) \<Rightarrow> (w, ds, raw # skipped))
      | (w, Inr d) \<Rightarrow> (case bulk_decide env c raws approve note w of (w, ds, skipped) \<Rightarrow> (w, d # ds, skipped)))"

section \<open>Escalating\<close>

text \<open>
  What \<open>escalate\<close> reads before it writes: the current step, the role to escalate to and the last
  step. \<open>None\<close> when the approval is not pending.
\<close>

definition escalate_read :: "approval_caller \<Rightarrow> uuid \<Rightarrow> approval_world \<Rightarrow> (int \<times> string option \<times> int) option option" where
  "escalate_read c i w =
     map_option (\<lambda>a.
       if av_status a \<noteq> ''pending'' then None
       else Some (av_step a, Option.bind (find_step w (apc_org c) i (av_step a)) st_escalate,
         (case map st_order (steps_of w (apc_org c) i) of [] \<Rightarrow> 0 | n # ns \<Rightarrow> fold max ns n)))
     (find_approval w (apc_org c) i)"

definition escalate_rows :: "approval_env \<Rightarrow> approval_caller \<Rightarrow> uuid \<Rightarrow> int \<Rightarrow> string option \<Rightarrow> int \<Rightarrow> approval_world \<Rightarrow> approval_world" where
  "escalate_rows env c i n role max_step w =
     (let w = change_step c i n (\<lambda>t. t\<lparr>st_status := ''escalated'', st_escalated_at := Some (apc_now c)\<rparr>) w in
      if n < max_step then
        change_approval c i (\<lambda>a. a\<lparr>av_step := n + 1, av_updated := apc_now c\<rparr>) (change_step c i (n + 1) (\<lambda>t. t\<lparr>st_status := ''active''\<rparr>) w)
      else case role of
        None \<Rightarrow> w
      | Some r \<Rightarrow>
          change_approval c i (\<lambda>a. a\<lparr>av_status := ''pending''\<rparr>)
            (change_approval c i (\<lambda>a. a\<lparr>av_status := ''escalated'', av_updated := apc_now c\<rparr>)
              (change_step c i n (\<lambda>t. t\<lparr>st_status := ''active'', st_assignees := members_with_role env w (apc_org c) r, st_role := Some r\<rparr>) w)))"

definition escalate_write :: "approval_env \<Rightarrow> approval_caller \<Rightarrow> string \<Rightarrow> uuid \<Rightarrow> int \<times> string option \<times> int \<Rightarrow> approval_dto op_step" where
  "escalate_write env c raw i plan w =
     (case plan of (n, role, max_step) \<Rightarrow>
      st_then (insert_decision env c i n ''escalate'' (Some ''sla timeout'') None) (\<lambda>_.
      st_then (op_audit env c ''operations.approval.escalate'' ''approval'' raw (json_object [(''from_step'', JInt n)])) (\<lambda>_.
      current_dto env c i)) (escalate_rows env c i n role max_step w))"

definition escalate_tx :: "approval_env \<Rightarrow> approval_caller \<Rightarrow> string \<Rightarrow> uuid \<Rightarrow> approval_dto op_step" where
  "escalate_tx env c raw i w =
     (case escalate_read c i w of
        None \<Rightarrow> op_not_found c ''approval'' w
      | Some None \<Rightarrow> current_dto env c i w
      | Some (Some plan) \<Rightarrow> escalate_write env c raw i plan w)"

definition escalate_approval :: "approval_env \<Rightarrow> approval_caller \<Rightarrow> string \<Rightarrow> approval_dto op_step" where
  "escalate_approval env c raw =
     st_then (op_parse_public_id env c ''Approval'' raw) (\<lambda>i.
     st_then (op_require env c operations_approval_decide) (\<lambda>_. op_tx (escalate_tx env c raw i)))"

section \<open>Delegations and policies\<close>

definition op_user_ref :: "approval_env \<Rightarrow> approval_caller \<Rightarrow> string \<Rightarrow> uuid op_step" where
  "op_user_ref env c raw = (case ape_parse_uuid env raw of Inr u \<Rightarrow> st_return (Inr u) | Inl e \<Rightarrow> op_parse_public_id env c ''User'' raw)"

definition create_delegation ::
  "approval_env \<Rightarrow> approval_caller \<Rightarrow> string \<Rightarrow> string option \<Rightarrow> string option \<Rightarrow> approval_delegation op_step" where
  "create_delegation env c to_user approval ends_at =
     st_then (op_require env c operations_approval_decide) (\<lambda>_.
     st_then (op_user_ref env c to_user) (\<lambda>target.
     st_then (case approval of None \<Rightarrow> st_return (Inr None)
       | Some raw \<Rightarrow> st_then (op_parse_public_id env c ''Approval'' raw) (\<lambda>i. st_return (Inr (Some i)))) (\<lambda>i.
     st_then (case ends_at of None \<Rightarrow> st_return (Inr None)
       | Some s \<Rightarrow> (case ape_parse_time env s of None \<Rightarrow> op_fail ValidationFailed c ''ends_at must be RFC3339''
          | Some t \<Rightarrow> st_return (Inr (Some t)))) (\<lambda>until.
     op_tx (st_then (op_uuid env) (\<lambda>k w.
       let d = \<lparr>de_id = k, de_org = apc_org c, de_public_id = op_public env ''ApprovalDelegation'' k, de_from = user_id (apc_actor c),
             de_to = target, de_approval = i, de_starts = apc_now c, de_ends = until, de_revoked = None\<rparr> in
       if list_ex (\<lambda>x. de_id x = k \<or> de_org x = apc_org c \<and> de_public_id x = de_public_id d) (apw_delegations w)
         \<or> (case i of None \<Rightarrow> False | Some j \<Rightarrow> \<not> list_ex (\<lambda>a. av_id a = j) (apw_approvals w))
       then op_internal env c w
       else
         st_then (op_audit env c ''operations.approval.delegate'' ''delegation'' (de_public_id d)
           (json_object [(''to_user_id'', JStr (user_pub env target))])) (\<lambda>_. st_return (Inr d))
         (w\<lparr>apw_delegations := apw_delegations w @ [d]\<rparr>)))))))"

definition list_delegations :: "approval_env \<Rightarrow> approval_caller \<Rightarrow> approval_delegation list op_step" where
  "list_delegations env c =
     st_then (op_require env c operations_approval_read) (\<lambda>_ w.
     (w, Inr (take 100 (rev (filter (\<lambda>d. de_org d = apc_org c \<and> (de_from d = user_id (apc_actor c) \<or> de_to d = user_id (apc_actor c)) \<and>
        de_revoked d = None) (apw_delegations w))))))"

definition policy_answer :: "approval_env \<Rightarrow> approval_caller \<Rightarrow> uuid \<Rightarrow> policy_dto op_step" where
  "policy_answer env c i w =
     (case fetch_policy_dto env w (apc_org c) i of None \<Rightarrow> op_not_found c ''policy'' w | Some d \<Rightarrow> (w, Inr d))"

definition list_policies :: "approval_env \<Rightarrow> approval_caller \<Rightarrow> policy_dto list op_step" where
  "list_policies env c =
     st_then (op_require env c operations_approval_read) (\<lambda>_.
     st_then (ensure_default_policies env c) (\<lambda>_ w.
     (w, Inr (List.map_filter (\<lambda>p. fetch_policy_dto env w (apc_org c) (ap_id p)) (filter (\<lambda>p. ap_org p = apc_org c) (apw_policies w))))))"

definition create_policy :: "approval_env \<Rightarrow> approval_caller \<Rightarrow> string \<Rightarrow> string \<Rightarrow> policy_definition \<Rightarrow> policy_dto op_step" where
  "create_policy env c name subject_type def =
     st_then (op_require env c operations_approval_policy_manage) (\<lambda>_.
     if pd_steps def = [] then op_fail ValidationFailed c ''policy must have at least one step''
     else op_tx (st_then (insert_policy env c name subject_type def) (\<lambda>i.
       st_then (policy_answer env c i) (\<lambda>d.
       st_then (op_audit env c ''operations.approval.policy.create'' ''approval_policy'' (pt_id d) (json_object [(''version'', JInt 1)])) (\<lambda>_.
       st_return (Inr d))))))"

definition get_policy :: "approval_env \<Rightarrow> approval_caller \<Rightarrow> string \<Rightarrow> policy_dto op_step" where
  "get_policy env c raw =
     st_then (op_parse_public_id env c ''ApprovalPolicy'' raw) (\<lambda>i.
     st_then (op_require env c operations_approval_read) (\<lambda>_. policy_answer env c i))"

definition publish_change :: "approval_env \<Rightarrow> approval_caller \<Rightarrow> string \<Rightarrow> uuid \<Rightarrow> policy_definition option \<Rightarrow> unit op_step" where
  "publish_change env c raw i def =
     (case def of
        None \<Rightarrow> st_return (Inr ())
      | Some d \<Rightarrow>
          st_then (publish_new_version env c i d) (\<lambda>n.
          op_audit env c ''operations.approval.policy.publish'' ''approval_policy'' raw (json_object [(''version'', JInt n)])))"

definition update_policy ::
  "approval_env \<Rightarrow> approval_caller \<Rightarrow> string \<Rightarrow> string option \<Rightarrow> bool option \<Rightarrow> policy_definition option \<Rightarrow> policy_dto op_step" where
  "update_policy env c raw name active def =
     st_then (op_parse_public_id env c ''ApprovalPolicy'' raw) (\<lambda>i.
     st_then (op_require env c operations_approval_policy_manage) (\<lambda>_.
     op_tx (\<lambda>w.
       let w = (case name of None \<Rightarrow> w | Some s \<Rightarrow> change_policy c i (\<lambda>p. p\<lparr>ap_name := s\<rparr>) w);
           w = (case active of None \<Rightarrow> w | Some b \<Rightarrow> change_policy c i (\<lambda>p. p\<lparr>ap_active := b\<rparr>) w) in
       st_then (publish_change env c raw i def) (\<lambda>_. policy_answer env c i) w)))"

section \<open>The state machine of the worker\<close>

datatype process_status = Pending | Approved | Rejected | Escalated

record process_state =
  pp_status :: process_status
  pp_step :: int
  pp_max :: int
  pp_mode :: string
  pp_decided :: bool
  pp_escalations :: nat

definition process_new :: "int \<Rightarrow> int \<Rightarrow> string \<Rightarrow> process_state" where
  "process_new step max_step mode =
     \<lparr>pp_status = Pending, pp_step = step, pp_max = max_step, pp_mode = mode, pp_decided = False, pp_escalations = 0\<rparr>"

definition apply_decide :: "bool \<Rightarrow> process_state \<Rightarrow> process_state \<times> bool" where
  "apply_decide approve s =
     (if pp_decided s \<or> pp_status s \<noteq> Pending then (s, False)
      else (s\<lparr>pp_decided := True, pp_status := (if approve then Approved else Rejected)\<rparr>, True))"

definition apply_sla_timeout :: "process_state \<Rightarrow> process_state \<times> bool" where
  "apply_sla_timeout s =
     (if pp_decided s \<or> pp_status s \<noteq> Pending then (s, False)
      else
        (let s = s\<lparr>pp_escalations := pp_escalations s + 1\<rparr> in
         if pp_step s < pp_max s then (s\<lparr>pp_step := pp_step s + 1, pp_status := Pending\<rparr>, True)
         else (s\<lparr>pp_status := Escalated\<rparr>, True)))"

section \<open>Calls\<close>

inductive approval_call :: "approval_env \<Rightarrow> approval_world \<Rightarrow> approval_world \<Rightarrow> bool" for env where
  create: "approval_call env w (fst (create_approval env c r w))"
| decide: "approval_call env w (fst (decide_approval env c raw approve note w))"
| bulk: "approval_call env w (fst (bulk_decide env c raws approve note w))"
| escalate: "approval_call env w (fst (escalate_approval env c raw w))"
| delegate: "approval_call env w (fst (create_delegation env c to_user approval ends_at w))"
| policies: "approval_call env w (fst (list_policies env c w))"
| create_policy: "approval_call env w (fst (create_policy env c name subject_type def w))"
| update_policy: "approval_call env w (fst (update_policy env c raw name' active def' w))"

text \<open>
  Relations between worlds that calls keep: transitive, and blind to everything but approvals, their
  steps and policy versions.
\<close>

locale world_relation =
  fixes R :: "approval_world \<Rightarrow> approval_world \<Rightarrow> bool"
  assumes R_trans: "R w w' \<Longrightarrow> R w' w'' \<Longrightarrow> R w w''"
    and R_frame: "apw_approvals w' = apw_approvals w \<Longrightarrow> apw_versions w' = apw_versions w \<Longrightarrow> apw_steps w' = apw_steps w \<Longrightarrow> R w w'"
begin

lemma R_refl: "R w w"
  by (rule R_frame) simp_all

lemma R_then: "R w (fst (m w)) \<Longrightarrow> (\<And>x w'. R w' (fst (f x w'))) \<Longrightarrow> R w (fst (st_then m f w))"
  by (auto simp: st_then_def split: prod.split sum.split intro: R_trans)

lemma R_return: "R w (fst (st_return r w))"
  by (simp add: st_return_def R_refl)

lemma R_fail: "R w (fst (op_fail code c d w))" "R w (fst (op_internal env c w))" "R w (fst (op_not_found c what w))"
  by (simp_all add: op_fail_def op_internal_def op_not_found_def R_return)

lemma R_tx: "R w (fst (m w)) \<Longrightarrow> R w (fst (op_tx m w))"
  by (auto simp: op_tx_def split: prod.split sum.split intro: R_frame)

lemma R_uuid: "R w (fst (op_uuid env w))"
  by (rule R_frame) (simp_all add: op_uuid_def)

lemma R_parse: "R w (fst (op_parse_public_id env c kind raw w))"
  by (auto simp: op_parse_public_id_def split: sum.split intro: R_fail R_return)

lemma R_require: "R w (fst (op_require env c perm w))"
  by (simp add: op_require_def R_refl)

lemma R_audit: "R w (fst (op_audit env c action resource_type resource_id metadata w))"
  unfolding op_audit_def by (rule R_then [OF R_uuid]) (auto intro: R_fail R_frame)

lemma R_emit: "R w (fst (op_emit env c event_type payload w))"
  unfolding op_emit_def Let_def by (rule R_then [OF R_uuid]) (auto split: sum.split prod.split intro: R_fail R_frame)

lemma R_idem: "R w (fst (idem_store env c scope status body w))"
proof (cases "apc_key c")
  case (Some k)
  have "R v (v\<lparr>apw_idem := x\<rparr>)" for v x by (rule R_frame) simp_all
  then show ?thesis unfolding idem_store_def Some by (auto intro!: R_then [OF R_uuid] R_refl)
qed (simp add: idem_store_def R_return)

lemma R_current: "R w (fst (current_dto env c i w))" "R w (fst (policy_answer env c i w))"
  by (auto simp: current_dto_def policy_answer_def split: option.split intro: R_fail R_refl)

lemma R_decision: "R w (fst (insert_decision env c i n decision note key w))"
  unfolding insert_decision_def by (rule R_then [OF R_uuid]) (auto intro: R_fail R_frame)

lemma R_policy_row: "R w (fst (insert_policy_row env c p w))" "R w (change_policy c i f w)"
  by (auto simp: insert_policy_row_def change_policy_def intro: R_fail R_frame)

lemma R_delegation: "R w (fst (create_delegation env c to_user approval ends_at w))"
proof -
  have "R v (fst (st_then (op_audit env c action rt rid md) (\<lambda>_. st_return (Inr d)) (v\<lparr>apw_delegations := x\<rparr>)))" for v x d action rt rid md
    by (rule R_trans [OF R_frame [of "v\<lparr>apw_delegations := x\<rparr>" v]]) (simp, simp, simp, intro R_then R_audit R_return)
  then show ?thesis unfolding create_delegation_def op_user_ref_def Let_def
    by (intro R_then R_require R_tx R_uuid) (auto split: sum.split option.split intro!: R_then R_parse R_return R_fail)
qed

lemmas R_intros = R_then R_return R_fail R_tx R_uuid R_parse R_require R_audit R_emit R_idem R_current R_decision R_policy_row R_refl

end

text \<open>
  What stays of an approval for good: who asked for what, and the policy version and the snapshot
  that route it. A decided approval does not change at all, and no policy version ever does.
\<close>

definition routed :: "approval \<Rightarrow> approval" where
  "routed a = a\<lparr>av_status := [], av_step := 0, av_decided_at := None, av_decided_by := None, av_note := None, av_updated := 0\<rparr>"

definition history_kept :: "approval_world \<Rightarrow> approval_world \<Rightarrow> bool" where
  "history_kept w w' \<longleftrightarrow> (distinct (map av_id (apw_approvals w)) \<longrightarrow>
     distinct (map av_id (apw_approvals w')) \<and> set (apw_versions w) \<subseteq> set (apw_versions w') \<and>
     (\<forall>a \<in> set (apw_approvals w). \<exists>b \<in> set (apw_approvals w'). routed b = routed a \<and> (av_status a \<noteq> ''pending'' \<longrightarrow> b = a)))"

lemma history_kept_trans: "history_kept w w' \<Longrightarrow> history_kept w' w'' \<Longrightarrow> history_kept w w''"
  unfolding history_kept_def
proof (intro impI conjI ballI)
  assume first: "distinct (map av_id (apw_approvals w)) \<longrightarrow> distinct (map av_id (apw_approvals w')) \<and> set (apw_versions w) \<subseteq> set (apw_versions w') \<and>
      (\<forall>a \<in> set (apw_approvals w). \<exists>b \<in> set (apw_approvals w'). routed b = routed a \<and> (av_status a \<noteq> ''pending'' \<longrightarrow> b = a))"
    and second: "distinct (map av_id (apw_approvals w')) \<longrightarrow> distinct (map av_id (apw_approvals w'')) \<and> set (apw_versions w') \<subseteq> set (apw_versions w'') \<and>
      (\<forall>a \<in> set (apw_approvals w'). \<exists>b \<in> set (apw_approvals w''). routed b = routed a \<and> (av_status a \<noteq> ''pending'' \<longrightarrow> b = a))"
    and keys: "distinct (map av_id (apw_approvals w))"
  show "distinct (map av_id (apw_approvals w''))" "set (apw_versions w) \<subseteq> set (apw_versions w'')" using first second keys by blast+
  fix a
  assume "a \<in> set (apw_approvals w)"
  then obtain b where b: "b \<in> set (apw_approvals w')" "routed b = routed a" "av_status a \<noteq> ''pending'' \<longrightarrow> b = a" using first keys by blast
  then obtain d where "d \<in> set (apw_approvals w'')" "routed d = routed b" "av_status b \<noteq> ''pending'' \<longrightarrow> d = b" using first second keys by blast
  with b show "\<exists>d \<in> set (apw_approvals w''). routed d = routed a \<and> (av_status a \<noteq> ''pending'' \<longrightarrow> d = a)" by metis
qed

interpretation history: world_relation history_kept
  by unfold_locales (rule history_kept_trans, assumption+, auto simp: history_kept_def)

lemma history_steps: "history_kept w (fst (insert_steps env c i first ss w))"
proof (induction ss arbitrary: w)
  case (Cons s ss)
  have "history_kept v (fst (insert_steps env c i first ss (v\<lparr>apw_steps := x\<rparr>)))" for v x
    by (rule history_kept_trans [OF _ Cons.IH]) (auto simp: history_kept_def)
  then show ?case by (auto intro!: history.R_then [OF history.R_uuid] history.R_fail)
qed (simp add: history.R_refl)

lemma history_version_row: "history_kept w (fst (insert_version_row env c v w))"
proof -
  have "history_kept w (w\<lparr>apw_versions := apw_versions w @ [v]\<rparr>)" by (auto simp: history_kept_def)
  then show ?thesis by (auto simp: insert_version_row_def intro: history.R_fail)
qed

lemma history_approval_row: "history_kept w (fst (insert_approval_row env c a w))"
proof -
  have "history_kept w (w\<lparr>apw_approvals := apw_approvals w @ [a\<lparr>av_currency := cur\<rparr>]\<rparr>)" if "\<not> list_ex (\<lambda>b. av_id b = av_id a \<or> P b) (apw_approvals w)" for cur P
    using that by (auto simp: history_kept_def list_ex_iff)
  then show ?thesis by (auto simp: insert_approval_row_def split: option.split intro!: history.R_fail)
qed

lemma history_map:
  assumes "\<And>a. routed (f a) = routed a" "\<And>a. a \<in> set (apw_approvals w) \<Longrightarrow> av_status a \<noteq> ''pending'' \<Longrightarrow> f a = a"
    and "apw_approvals w' = map f (apw_approvals w)" "apw_versions w' = apw_versions w"
  shows "history_kept w w'"
proof -
  have ids: "av_id (f a) = av_id a" for a
    using arg_cong [OF assms(1) [of a], of av_id] by (simp add: routed_def)
  then show ?thesis using assms by (auto simp: history_kept_def comp_def intro!: bexI)
qed

lemma history_decide_row: "decide_row c i status note w = (w', n) \<Longrightarrow> history_kept w w'"
  by (auto simp: decide_row_def Let_def intro!: history_map [where f = "\<lambda>a. if av_org a = apc_org c \<and> av_id a = i \<and> av_status a = ''pending''
      then a\<lparr>av_status := status, av_decided_at := Some (apc_now c), av_decided_by := Some (user_id (apc_actor c)), av_note := note,
        av_updated := apc_now c\<rparr> else a"] simp: routed_def)

lemma history_if: "(distinct (map av_id (apw_approvals w)) \<Longrightarrow> history_kept w w') \<Longrightarrow> history_kept w w'"
  by (auto simp: history_kept_def)

lemma history_change_approval:
  assumes "find_approval w (apc_org c) i = Some a" "av_status a = ''pending''" "\<And>a. routed (f a) = routed a"
  shows "history_kept w (change_approval c i f w)"
proof (rule history_if)
  assume keys: "distinct (map av_id (apw_approvals w))"
  have "b = a" if "b \<in> set (apw_approvals w)" "av_id b = i" for b
    using find_SomeD [OF assms(1) [unfolded find_approval_def]] that by (intro keyed [OF keys]) auto
  then show ?thesis
    using assms(2,3) by (intro history_map [where f = "\<lambda>a. if av_org a = apc_org c \<and> av_id a = i then f a else a"]) (auto simp: change_approval_def)
qed

lemma change_step_simps [simp]:
  "apw_approvals (change_step c i n f w) = apw_approvals w" "apw_versions (change_step c i n f w) = apw_versions w"
  "find_approval (change_step c i n f w) org j = find_approval w org j"
  by (simp_all add: change_step_def find_approval_def)

lemma change_step_history: "history_kept w (change_step c i n f w)"
  by (auto simp: history_kept_def)

lemma change_approval_twice: "(\<And>a. av_org (g a) = av_org a \<and> av_id (g a) = av_id a) \<Longrightarrow>
    change_approval c i f (change_approval c i g w) = change_approval c i (f \<circ> g) w"
  by (auto simp: change_approval_def)

lemma history_escalate_rows:
  assumes "find_approval w (apc_org c) i = Some a" "av_status a = ''pending''"
  shows "history_kept w (escalate_rows env c i n role max_step w)"
proof -
  have "history_kept w (change_approval c i f v)" if "find_approval v (apc_org c) i = Some a" "history_kept w v" "\<And>a. routed (f a) = routed a" for f v
    by (rule history_kept_trans [OF that(2)]) (rule history_change_approval [OF that(1) assms(2) that(3)])
  moreover have "history_kept w (change_step c i m g (change_step c i n f w))" for m g f
    by (rule history_kept_trans [OF change_step_history change_step_history])
  ultimately show ?thesis using assms
    by (auto simp: escalate_rows_def Let_def change_approval_twice comp_def routed_def change_step_history split: option.split)
qed

lemma history_record_decision: "history_kept w (fst (record_decision env c raw a approve note w))"
proof -
  let ?status = "if approve then ''approved'' else ''rejected''"
  obtain v k where d: "decide_row c (av_id a) ?status note w = (v, k)" by (cases "decide_row c (av_id a) ?status note w")
  note first = history_decide_row [OF d]
  have step: "history_kept v (fst (m (change_step c i n f v)))" if "\<And>u. history_kept u (fst (m u))" for m :: "(approval_dto \<times> bool) op_step" and i n f
    by (rule history_kept_trans [OF change_step_history that])
  show ?thesis
    unfolding record_decision_def Let_def d prod.case
    by (rule history_kept_trans [OF first], cases "k = 0")
      (simp only: if_True simp_thms, intro history.R_intros, simp only: if_False, rule step, intro history.R_intros)
qed

lemma history_decide: "history_kept w (fst (decide_approval env c raw approve note w))"
proof -
  have "history_kept v (apply_subject_side_effect env c d v)" for d v
    by (rule history.R_frame) (simp_all add: apply_subject_side_effect_def Let_def send_to_def)
  moreover have "history_kept v (fst (decide_tx env c raw i approve note v))" for i v
    unfolding decide_tx_def by (auto split: option.split sum.split intro!: history.R_intros history_record_decision)
  ultimately show ?thesis unfolding decide_approval_def
    by (intro history.R_then history.R_parse history.R_require history.R_tx) (auto split: prod.split intro: history.R_refl)
qed

lemma history_bulk: "history_kept w (fst (bulk_decide env c raws approve note w))"
proof (induction raws arbitrary: w)
  case (Cons raw raws)
  obtain v r where v: "decide_approval env c raw approve note w = (v, r)" by (cases "decide_approval env c raw approve note w")
  then have "history_kept w v" using history_decide [of w env c raw approve "note"] by simp
  then show ?case using Cons [of v] v by (auto split: sum.split prod.split intro: history_kept_trans)
qed (simp add: history.R_refl)

lemma history_escalate: "history_kept w (fst (escalate_approval env c raw w))"
proof -
  have "history_kept v (fst (escalate_write env c raw i plan v))" if "find_approval v (apc_org c) i = Some a" "av_status a = ''pending''" for v i plan a
  proof -
    obtain n role m where plan: "plan = (n, role, m)" by (cases plan)
    show ?thesis unfolding escalate_write_def plan prod.case
      by (rule history_kept_trans [OF history_escalate_rows [OF that, of env n role m]]) (intro history.R_intros)
  qed
  then have "history_kept v (fst (escalate_tx env c raw i v))" for v i
    unfolding escalate_tx_def escalate_read_def by (auto split: option.split intro!: history.R_intros)
  then show ?thesis unfolding escalate_approval_def by (intro history.R_then history.R_parse history.R_require history.R_tx)
qed

lemma history_store_policy: "history_kept w (fst (store_policy env c name subject_type def publisher w))"
  unfolding store_policy_def by (intro history.R_intros history_version_row)

lemma history_ensure_policies: "history_kept w (fst (ensure_default_policies env c w))"
proof -
  have "history_kept v (fst (seed_all env c ds v))" for ds v
    by (induction ds arbitrary: v) (auto simp: seed_one_def split: prod.split intro!: history.R_intros history_store_policy)
  then show ?thesis unfolding ensure_default_policies_def fst_conv by (rule history.R_tx)
qed

lemma history_create: "history_kept w (fst (create_approval env c r w))"
proof -
  have "history_kept v (fst (request_approval env c r v))" for v
    unfolding request_approval_def Let_def
    by (auto split: option.split prod.split list.split simp del: insert_steps.simps intro!: history.R_intros history_approval_row history_steps)
  then show ?thesis unfolding create_approval_def
    by (intro history.R_then history.R_require) (auto split: option.split prod.split intro!: history.R_intros history_ensure_policies)
qed

lemma history_policies:
  "history_kept w (fst (list_policies env c w))"
  "history_kept w (fst (create_policy env c name subject_type def w))"
  "history_kept w (fst (update_policy env c raw name' active def' w))"
proof -
  show "history_kept w (fst (list_policies env c w))"
    unfolding list_policies_def by (intro history.R_then history.R_require history_ensure_policies) (simp add: history.R_refl)
  show "history_kept w (fst (create_policy env c name subject_type def w))"
    unfolding create_policy_def insert_policy_def
    by (intro history.R_then history.R_require) (auto intro!: history.R_intros history_store_policy)
  have publish: "history_kept v (fst (publish_change env c raw i def' v))" for v i
    unfolding publish_change_def publish_new_version_def Let_def
    by (auto split: option.split intro!: history.R_intros history_version_row simp: history.R_policy_row)
  have "history_kept v (fst (st_then (publish_change env c raw i def') f (change_policy c i g u)))"
    if "history_kept v u" "\<And>x u. history_kept u (fst (f x u))" for v u i g and f :: "unit \<Rightarrow> policy_dto op_step"
    by (rule history_kept_trans [OF that(1)], rule history_kept_trans [OF history.R_policy_row(2) [of u c i g]]) (intro history.R_then publish that(2))
  note changed = this
  show "history_kept w (fst (update_policy env c raw name' active def' w))"
    unfolding update_policy_def Let_def
    by (intro history.R_then history.R_parse history.R_require history.R_tx)
      (auto split: option.split intro!: changed history.R_then [OF publish] history.R_current history.R_refl history.R_policy_row)
qed

lemmas history_calls = history_create history_decide history_bulk history_escalate history.R_delegation history_policies

lemma approval_call_history: "approval_call env w w' \<Longrightarrow> history_kept w w'"
  by (induction rule: approval_call.induct) (rule history_calls)+

lemma approval_calls_history: "(approval_call env)\<^sup>*\<^sup>* w w' \<Longrightarrow> history_kept w w'"
  by (induction rule: rtranclp_induct) (auto intro: history.R_refl history_kept_trans approval_call_history)

interpretation rows: world_relation "\<lambda>w w'. apw_approvals w' = apw_approvals w \<and> apw_steps w' = apw_steps w"
  by unfold_locales simp_all

section \<open>Decisions\<close>

text \<open>
  Interleaved calls. The only handler of approvals that writes what it read without a lock and
  without a condition is \<open>escalate\<close>; its write may come at any time, with a plan read at any time
  before. The approval \<open>j\<close> is set apart: its escalations are served whole.
\<close>

inductive approval_move :: "approval_env \<Rightarrow> uuid \<Rightarrow> approval_world \<Rightarrow> approval_world \<Rightarrow> bool" for env j where
  call: "approval_call env w w' \<Longrightarrow> approval_move env j w w'"
| stale_escalation: "i \<noteq> j \<Longrightarrow> approval_move env j w (fst (escalate_write env c raw i plan w))"

definition history_kept_of :: "uuid \<Rightarrow> approval_world \<Rightarrow> approval_world \<Rightarrow> bool" where
  "history_kept_of j w w' \<longleftrightarrow> (distinct (map av_id (apw_approvals w)) \<longrightarrow>
     distinct (map av_id (apw_approvals w')) \<and> set (apw_versions w) \<subseteq> set (apw_versions w') \<and>
     (\<forall>a \<in> set (apw_approvals w). \<exists>b \<in> set (apw_approvals w'). routed b = routed a \<and> (av_id a = j \<and> av_status a \<noteq> ''pending'' \<longrightarrow> b = a)))"

lemma routed_id: "routed b = routed a \<Longrightarrow> av_id b = av_id a"
proof -
  assume "routed b = routed a"
  then have "av_id (routed b) = av_id (routed a)" by (rule arg_cong)
  then show "av_id b = av_id a" by (simp add: routed_def)
qed

lemma history_kept_of_trans:
  assumes "history_kept_of j w w'" "history_kept_of j w' w''"
  shows "history_kept_of j w w''"
  unfolding history_kept_of_def
proof (intro impI conjI ballI)
  assume keys: "distinct (map av_id (apw_approvals w))"
  with assms have keys': "distinct (map av_id (apw_approvals w'))" by (simp add: history_kept_of_def)
  show "distinct (map av_id (apw_approvals w''))" using assms(2) keys' by (simp add: history_kept_of_def)
  show "set (apw_versions w) \<subseteq> set (apw_versions w'')" using assms keys keys' unfolding history_kept_of_def by blast
  fix a assume "a \<in> set (apw_approvals w)"
  with assms(1) keys obtain b where b: "b \<in> set (apw_approvals w')" "routed b = routed a" "av_id a = j \<and> av_status a \<noteq> ''pending'' \<longrightarrow> b = a"
    unfolding history_kept_of_def by blast
  with assms(2) keys' obtain d where "d \<in> set (apw_approvals w'')" "routed d = routed b" "av_id b = j \<and> av_status b \<noteq> ''pending'' \<longrightarrow> d = b"
    unfolding history_kept_of_def by blast
  with b show "\<exists>d \<in> set (apw_approvals w''). routed d = routed a \<and> (av_id a = j \<and> av_status a \<noteq> ''pending'' \<longrightarrow> d = a)" by metis
qed

interpretation history_of: world_relation "history_kept_of j" for j
  by unfold_locales (rule history_kept_of_trans, assumption+, auto simp: history_kept_of_def)

lemma change_approval_other:
  assumes "i \<noteq> j" "\<And>a. routed (f a) = routed a"
  shows "history_kept_of j w (change_approval c i f w)"
proof -
  define g where "g = (\<lambda>a. if av_org a = apc_org c \<and> av_id a = i then f a else a)"
  have g: "routed (g a) = routed a" "av_id a = j \<Longrightarrow> g a = a" for a using assms by (simp_all add: g_def)
  have ids: "av_id (g a) = av_id a" for a by (rule routed_id [OF g(1)])
  have w': "apw_approvals (change_approval c i f w) = map g (apw_approvals w)" "apw_versions (change_approval c i f w) = apw_versions w"
    by (simp_all add: change_approval_def g_def)
  have "\<exists>b \<in> set (map g (apw_approvals w)). routed b = routed a \<and> (av_id a = j \<and> av_status a \<noteq> ''pending'' \<longrightarrow> b = a)"
    if "a \<in> set (apw_approvals w)" for a
    by (rule bexI [of _ "g a"]) (use that g in auto)
  then show ?thesis unfolding history_kept_of_def w' by (simp add: comp_def ids)
qed

lemma escalate_rows_other:
  assumes "i \<noteq> j"
  shows "history_kept_of j w (escalate_rows env c i n role m w)"
proof -
  have steps: "history_kept_of j w v" if "apw_approvals v = apw_approvals w" "apw_versions v = apw_versions w" for v
    using that by (auto simp: history_kept_of_def)
  have "history_kept_of j w (change_approval c i f v)"
    if "apw_approvals v = apw_approvals w" "apw_versions v = apw_versions w" "\<And>a. routed (f a) = routed a" for f v
    by (rule history_kept_of_trans [OF steps [OF that(1,2)]]) (rule change_approval_other [OF assms that(3)])
  then show ?thesis
    by (auto simp: escalate_rows_def Let_def change_approval_twice comp_def routed_def intro: steps split: option.split)
qed

lemma approval_steps_history: "(approval_move env j)\<^sup>*\<^sup>* w w' \<Longrightarrow> history_kept_of j w w'"
proof (induction rule: rtranclp_induct)
  case base
  show ?case by (rule history_of.R_refl)
next
  case (step w' w'')
  from step.hyps(2) have "history_kept_of j w' w''"
  proof cases
    case call
    from approval_call_history [OF this] show ?thesis unfolding history_kept_def history_kept_of_def by blast
  next
    case (stale_escalation i c raw plan)
    obtain n role m where plan: "plan = (n, role, m)" by (cases plan)
    show ?thesis unfolding stale_escalation escalate_write_def plan prod.case
      by (rule history_kept_of_trans [OF escalate_rows_other [OF stale_escalation(2), of w' env c n role m]]) (intro history_of.R_intros)
  qed
  with step.IH show ?case by (rule history_kept_of_trans)
qed

text \<open>
  C23: A decision is final, unless an escalation of the same approval is under way, and so is what it
  rests on. After any sequence of calls, in which escalations may also write late what they read
  before, the published versions of the policies are all there unchanged and each approval still
  carries the policy version and the routing snapshot it was requested with. An approval that is
  decided has not changed at all if its own escalations were served whole, with nothing between
  their read and their write; without that condition it may have (\<open>escalation_reopens_decision\<close>).
\<close>

theorem decisions_final:
  assumes "distinct (map av_id (apw_approvals w))" "(approval_move env j)\<^sup>*\<^sup>* w w'" "a \<in> set (apw_approvals w)"
  shows "set (apw_versions w) \<subseteq> set (apw_versions w') \<and>
    (\<exists>b \<in> set (apw_approvals w'). routed b = routed a \<and> (av_id a = j \<and> av_status a \<noteq> ''pending'' \<longrightarrow> b = a))"
  using approval_steps_history [OF assms(2)] assms(1,3) by (simp add: history_kept_of_def)

lemma find_approval_map:
  "(\<And>a. av_org (f a) = av_org a \<and> av_id (f a) = av_id a) \<Longrightarrow> apw_approvals w' = map f (apw_approvals w) \<Longrightarrow>
     find_approval w' org i = map_option f (find_approval w org i)"
  by (simp add: find_approval_def find_map_id)

lemma decide_row_found:
  assumes "decide_row c i status note w = (w', k)" "find_approval w (apc_org c) i = Some a" "av_status a = ''pending''"
  shows "k \<noteq> 0" "apw_steps w' = apw_steps w"
    "find_approval w' (apc_org c) i = Some (a\<lparr>av_status := status, av_decided_at := Some (apc_now c),
       av_decided_by := Some (user_id (apc_actor c)), av_note := note, av_updated := apc_now c\<rparr>)"
proof -
  let ?f = "\<lambda>a. if av_org a = apc_org c \<and> av_id a = i \<and> av_status a = ''pending'' then a\<lparr>av_status := status, av_decided_at := Some (apc_now c),
      av_decided_by := Some (user_id (apc_actor c)), av_note := note, av_updated := apc_now c\<rparr> else a"
  from assms(2) have a: "a \<in> set (apw_approvals w)" "av_org a = apc_org c" "av_id a = i" by (auto simp: find_approval_def dest: find_SomeD)
  have w': "apw_approvals w' = map ?f (apw_approvals w)" "apw_steps w' = apw_steps w" using assms(1) by (auto simp: decide_row_def Let_def)
  have k: "k = length (filter (\<lambda>a. av_org a = apc_org c \<and> av_id a = i \<and> av_status a = ''pending'') (apw_approvals w))"
    using assms(1) by (simp add: decide_row_def Let_def)
  show "k \<noteq> 0" unfolding k using a assms(3) by (auto simp: filter_empty_conv)
  show "apw_steps w' = apw_steps w" by (rule w')
  show "find_approval w' (apc_org c) i = Some (a\<lparr>av_status := status, av_decided_at := Some (apc_now c),
       av_decided_by := Some (user_id (apc_actor c)), av_note := note, av_updated := apc_now c\<rparr>)"
    by (subst find_approval_map [OF _ w'(1)]) (use a assms(2,3) in auto)
qed

lemma filter_map_fixed: "(\<And>x. P (f x) = P x) \<Longrightarrow> (\<And>x. P x \<Longrightarrow> f x = x) \<Longrightarrow> filter P (map f xs) = filter P xs"
  by (induction xs) auto

lemma record_decision_Inr:
  assumes "record_decision env c raw a approve note w = (w', r)" "find_approval w (apc_org c) (av_id a) = Some a" "av_status a = ''pending''"
  shows "find_approval w' (apc_org c) (av_id a) = Some (a\<lparr>av_status := (if approve then ''approved'' else ''rejected''), av_decided_at := Some (apc_now c),
       av_decided_by := Some (user_id (apc_actor c)), av_note := note, av_updated := apc_now c\<rparr>)"
    and "filter (\<lambda>t. \<not> (st_org t = apc_org c \<and> st_approval t = av_id a \<and> st_order t = av_step a)) (apw_steps w') =
      filter (\<lambda>t. \<not> (st_org t = apc_org c \<and> st_approval t = av_id a \<and> st_order t = av_step a)) (apw_steps w)"
proof -
  let ?status = "if approve then ''approved'' else ''rejected''"
  obtain v k where d: "decide_row c (av_id a) ?status note w = (v, k)" by (cases "decide_row c (av_id a) ?status note w")
  note found = decide_row_found [OF d assms(2,3)]
  let ?v = "change_step c (av_id a) (av_step a) (\<lambda>t. t\<lparr>st_status := ?status, st_decided_at := Some (apc_now c),
      st_decided_by := Some (user_id (apc_actor c))\<rparr>) v"
  have "apw_approvals (fst (record_decision env c raw a approve note w)) = apw_approvals ?v \<and>
      apw_steps (fst (record_decision env c raw a approve note w)) = apw_steps ?v"
    unfolding record_decision_def Let_def d prod.case using found(1)
    by (simp only: if_False simp_thms) (intro rows.R_intros)
  then have rows: "apw_approvals w' = apw_approvals v" "apw_steps w' = apw_steps ?v" using assms(1) by simp_all
  show "find_approval w' (apc_org c) (av_id a) = Some (a\<lparr>av_status := ?status, av_decided_at := Some (apc_now c),
       av_decided_by := Some (user_id (apc_actor c)), av_note := note, av_updated := apc_now c\<rparr>)"
    using found(3) rows(1) by (simp add: find_approval_def)
  show "filter (\<lambda>t. \<not> (st_org t = apc_org c \<and> st_approval t = av_id a \<and> st_order t = av_step a)) (apw_steps w') =
      filter (\<lambda>t. \<not> (st_org t = apc_org c \<and> st_approval t = av_id a \<and> st_order t = av_step a)) (apw_steps w)"
    unfolding rows(2) found(2) [symmetric] change_step_def by (auto intro: filter_map_fixed)
qed

text \<open>
  C24: What one decision does. A decision that goes through on a pending approval was made by a
  member with the permission to decide, who is an assignee of the current step or holds a
  delegation, or else the current step has no assignees (or does not exist). It settles the whole
  approval, whatever its mode and however many steps it has: the other steps are not touched.
\<close>

theorem decide_effect:
  assumes "public_id_from_str (ape_parse_uuid env) raw = Inr p" "find_approval w (apc_org c) (pid_uuid p) = Some a" "av_status a = ''pending''"
    and "idem_find c (''approval.decide.'' @ raw) w = None" "decide_approval env c raw approve note w = (w', Inr d)"
  shows "(\<exists>s. load_membership_scope (apw_org w) (apc_org c) (user_id (apc_actor c)) (apc_request_id c) = Inr s \<and>
      enforce_any_scope (ape_time env) (ms_principal s) operations_approval_decide (apc_request_id c) = Inr ()) \<and>
    (waits_for w c a \<or> step_assignees w (apc_org c) (av_id a) (av_step a) = []) \<and>
    find_approval w' (apc_org c) (av_id a) = Some (a\<lparr>av_status := (if approve then ''approved'' else ''rejected''), av_decided_at := Some (apc_now c),
      av_decided_by := Some (user_id (apc_actor c)), av_note := note, av_updated := apc_now c\<rparr>) \<and>
    filter (\<lambda>t. \<not> (st_org t = apc_org c \<and> st_approval t = av_id a \<and> st_order t = av_step a)) (apw_steps w') =
      filter (\<lambda>t. \<not> (st_org t = apc_org c \<and> st_approval t = av_id a \<and> st_order t = av_step a)) (apw_steps w)"
proof -
  have i: "pid_uuid p = av_id a" using find_SomeD [OF assms(2) [unfolded find_approval_def]] by simp
  obtain v b where v: "op_require env c operations_approval_decide w = (w, Inr ())" "op_tx (decide_tx env c raw (av_id a) approve note) w = (v, Inr b)"
    and w': "apw_approvals w' = apw_approvals v" "apw_steps w' = apw_steps v"
    using assms(5,1) unfolding decide_approval_def
    by (auto simp: op_parse_public_id_def op_fail_def st_return_def st_then_Inr op_require_def i apply_subject_side_effect_def Let_def send_to_def
        split: if_splits)
  from v(2) have tx: "decide_tx env c raw (av_id a) approve note w = (v, Inr b)" by (auto simp: op_tx_def split: prod.splits sum.splits)
  then have can: "waits_for w c a \<or> step_assignees w (apc_org c) (av_id a) (av_step a) = []"
    and rec: "record_decision env c raw a approve note w = (v, Inr b)"
    using assms(2-4) by (auto simp: decide_tx_def i op_fail_def st_return_def split: if_splits)
  have perm: "\<exists>s. load_membership_scope (apw_org w) (apc_org c) (user_id (apc_actor c)) (apc_request_id c) = Inr s \<and>
      enforce_any_scope (ape_time env) (ms_principal s) operations_approval_decide (apc_request_id c) = Inr ()"
    using v(1) by (auto simp: op_require_def and_then_Inr)
  note effect = record_decision_Inr [OF rec assms(2) [unfolded i] assms(3)]
  have same: "find_approval w' = find_approval v" using w'(1) by (simp add: find_approval_def fun_eq_iff)
  show ?thesis using perm can effect by (simp only: same w'(2) simp_thms)
qed

text \<open>
  C25: An escalation can take back a decision. \<open>escalate\<close> reads that the approval is pending and
  writes its status later without looking again; when a decision commits in between, the approval
  at its last step is pending once more, with the decider still on it.
\<close>

theorem escalation_reopens_decision:
  assumes "escalate_read c i w = Some (Some (n, Some role, m))" "\<not> n < m" "find_approval w1 (apc_org c) i = Some a"
    and "escalate_write env c raw i (n, Some role, m) w1 = (w2, Inr d)"
  shows "\<exists>b. find_approval w2 (apc_org c) i = Some b \<and> av_status b = ''pending'' \<and> av_decided_by b = av_decided_by a \<and> av_decided_at b = av_decided_at a"
proof -
  let ?v = "escalate_rows env c i n (Some role) m w1"
  have "apw_approvals (fst (escalate_write env c raw i (n, Some role, m) w1)) = apw_approvals ?v \<and>
      apw_steps (fst (escalate_write env c raw i (n, Some role, m) w1)) = apw_steps ?v"
    unfolding escalate_write_def prod.case by (intro rows.R_intros)
  then have same: "find_approval w2 (apc_org c) i = find_approval ?v (apc_org c) i" using assms(4) by (simp add: find_approval_def)
  have hit: "av_org a = apc_org c" "av_id a = i" using assms(3) by (auto simp: find_approval_def dest: find_SomeD)
  show ?thesis unfolding same using assms(2,3) hit
    by (simp add: escalate_rows_def Let_def change_approval_def find_approval_map
        [where f = "\<lambda>a. if av_org a = apc_org c \<and> av_id a = i then a\<lparr>av_status := ''pending'', av_updated := apc_now c\<rparr> else a" and w = w1])
qed

text \<open>
  C26: Escalation in the handler follows the worker's state machine until the last step and departs
  from it there. Before the last step both move on by one and stay pending; at the last step the
  machine ends as escalated and takes no decision any more, while the approval stays pending.
\<close>

theorem escalation_follows_process:
  assumes "find_approval w (apc_org c) i = Some a" "escalate_read c i w = Some (Some (n, role, m))" "escalate_tx env c raw i w = (w', Inr d)"
    and "apply_sla_timeout (process_new n m (av_mode a)) = (s, True)"
  shows "\<exists>b. find_approval w' (apc_org c) i = Some b \<and> av_status b = ''pending'' \<and> n = av_step a \<and>
    (if n < m then pp_status s = Pending \<and> av_step b = pp_step s
     else pp_status s = Escalated \<and> av_step b = pp_step s \<and> \<not> snd (apply_decide True s) \<and> \<not> snd (apply_decide False s))"
proof -
  from assms(1,2) have a: "av_status a = ''pending''" "n = av_step a" by (auto simp: escalate_read_def split: if_splits)
  have hit: "av_org a = apc_org c" "av_id a = i" using assms(1) by (auto simp: find_approval_def dest: find_SomeD)
  let ?v = "escalate_rows env c i n role m w"
  have w': "escalate_write env c raw i (n, role, m) w = (w', Inr d)" using assms(2,3) by (simp add: escalate_tx_def)
  have "apw_approvals (fst (escalate_write env c raw i (n, role, m) w)) = apw_approvals ?v \<and>
      apw_steps (fst (escalate_write env c raw i (n, role, m) w)) = apw_steps ?v"
    unfolding escalate_write_def prod.case by (intro rows.R_intros)
  then have same: "find_approval w' (apc_org c) i = find_approval ?v (apc_org c) i" using w' by (simp add: find_approval_def)
  have change: "find_approval (change_approval c i f v) (apc_org c) i = Some (f a)"
    if "\<And>a. av_org (f a) = av_org a \<and> av_id (f a) = av_id a" "find_approval v (apc_org c) i = Some a" for f v
    using that hit by (simp add: change_approval_def find_approval_map
        [where f = "\<lambda>a. if av_org a = apc_org c \<and> av_id a = i then f a else a" and w = v])
  show ?thesis
  proof (cases "n < m")
    case True
    then have "find_approval ?v (apc_org c) i = Some (a\<lparr>av_step := n + 1, av_updated := apc_now c\<rparr>)"
      using assms(1) by (simp add: escalate_rows_def Let_def change)
    then show ?thesis using True assms(4) a by (auto simp: same apply_sla_timeout_def process_new_def Let_def)
  next
    case False
    then have "\<exists>t. find_approval ?v (apc_org c) i = Some (a\<lparr>av_status := ''pending'', av_updated := t\<rparr>)"
    proof (cases role)
      case None
      with False have "find_approval ?v (apc_org c) i = Some (a\<lparr>av_status := ''pending'', av_updated := av_updated a\<rparr>)"
        using assms(1) a(1) by (simp add: escalate_rows_def Let_def)
      then show ?thesis by blast
    next
      case (Some r)
      with False have "find_approval ?v (apc_org c) i = Some (a\<lparr>av_status := ''pending'', av_updated := apc_now c\<rparr>)"
        using assms(1) by (simp add: escalate_rows_def Let_def change_approval_twice change comp_def)
      then show ?thesis by blast
    qed
    then show ?thesis using False assms(4) a by (auto simp: same apply_sla_timeout_def apply_decide_def process_new_def Let_def)
  qed
qed

section \<open>Examples\<close>

definition demo_approval_env :: approval_env where
  "demo_approval_env = \<lparr>ape_relay = demo_relay_env, ape_parse_uuid = (\<lambda>s. if s = ''x'' then Inr 50 else Inl []), ape_time = (\<lambda>f s. None),
     ape_parse_time = (\<lambda>s. None), ape_db_error = ''unique'', ape_show_outbox_error = (\<lambda>e. ''outbox''), ape_lower = ascii_lower, ape_char3 = Some,
     ape_def_json = (\<lambda>d. JNull), ape_def_of = (\<lambda>j. None), ape_snapshot_json = (\<lambda>sn. JNull), ape_snapshot_of = (\<lambda>j. None),
     ape_dto_json = (\<lambda>d. JNull), ape_dto_of = (\<lambda>j. Inl []), ape_base_url = (\<lambda>service. ''http://hr/'')\<rparr>"

definition demo_approver :: "uuid \<Rightarrow> int \<Rightarrow> approval_caller" where
  "demo_approver user now = \<lparr>apc_org = 1, apc_actor = actor_human user, apc_request_id = ''q'', apc_now = now, apc_key = None\<rparr>"

definition demo_approval :: approval where
  "demo_approval = \<lparr>av_id = 50, av_org = 1, av_public_id = ''apr_50'', av_subject_type = ''payroll_run'', av_subject_id = ''run_1'',
     av_status = ''pending'', av_requester = 3, av_requester_role = None, av_amount = None, av_currency = None, av_category = None,
     av_department = None, av_policy = 60, av_policy_version = 1, av_policy_version_id = 61, av_snapshot = JNull, av_mode = ''all'', av_step = 1,
     av_title = ''Payroll'', av_summary = None, av_workflow = ''wf'', av_decided_at = None, av_decided_by = None, av_note = None,
     av_created = 0, av_updated = 0\<rparr>"

definition demo_step :: "uuid \<Rightarrow> int \<Rightarrow> uuid list \<Rightarrow> approval_step" where
  "demo_step i n users = \<lparr>st_id = i, st_org = 1, st_approval = 50, st_order = n, st_status = ''active'', st_role = None, st_assignees = users,
     st_sla = None, st_escalate = Some ''admin'', st_escalated_at = None, st_decided_at = None, st_decided_by = None\<rparr>"

definition demo_approvals :: "approval_step list \<Rightarrow> approval_world" where
  "demo_approvals steps = \<lparr>apw_org = demo_org_db\<lparr>od_memberships := [demo_member\<lparr>mb_role := ''owner''\<rparr>]\<rparr>, apw_roles = [],
     apw_policies = [\<lparr>ap_id = 60, ap_org = 1, ap_public_id = ''apl_60'', ap_name = ''Payroll'', ap_subject_type = ''payroll_run'', ap_active = True,
       ap_version = 1, ap_created = 0, ap_updated = 0\<rparr>],
     apw_versions = [], apw_approvals = [demo_approval], apw_steps = steps, apw_decisions = [], apw_delegations = [], apw_idem = [],
     apw_outbox = \<lparr>ob_events = [], ob_dlq = []\<rparr>, apw_audit = [], apw_http = [], apw_uuids = 100\<rparr>"

abbreviation demo_approval_id :: string where
  "demo_approval_id \<equiv> ''apr_x''"

lemma demo_require:
  "op_require demo_approval_env (demo_approver 3 now) operations_approval_decide (demo_approvals steps) = (demo_approvals steps, Inr ())"
proof -
  have "and_then (load_membership_scope (demo_org_db\<lparr>od_memberships := [demo_member\<lparr>mb_role := ''owner''\<rparr>]\<rparr>) 1 3 ''q'') (\<lambda>s.
      enforce_any_scope (\<lambda>f s. None) (ms_principal s) operations_approval_decide ''q'') = Inr ()"
    by code_simp
  then show ?thesis by (simp add: op_require_def demo_approvals_def demo_approver_def demo_approval_env_def actor_human_def)
qed

lemma demo_parse: "public_id_from_str (ape_parse_uuid demo_approval_env) demo_approval_id = Inr (public_id_new ''Approval'' 50)"
  by code_simp

lemma demo_find: "find_approval (demo_approvals steps) (apc_org (demo_approver user now)) 50 = Some demo_approval"
  by (simp add: find_approval_def demo_approvals_def demo_approval_def demo_approver_def)

lemma demo_decide:
  "decide_approval demo_approval_env (demo_approver 3 now) demo_approval_id approve text (demo_approvals steps) =
     st_then (op_tx (decide_tx demo_approval_env (demo_approver 3 now) demo_approval_id 50 approve text)) (\<lambda>(d, decided) w.
       (if decided then apply_subject_side_effect demo_approval_env (demo_approver 3 now) d w else w, Inr d)) (demo_approvals steps)"
  by (simp add: decide_approval_def op_parse_public_id_def demo_parse public_id_new_def st_then_def [of "st_return _"] st_return_def
      st_then_def [of "op_require _ _ _"] demo_require)

abbreviation demo_decided :: "approval_step list \<Rightarrow> approval_world \<times> (app_error + approval_dto \<times> bool)" where
  "demo_decided steps \<equiv> decide_tx demo_approval_env (demo_approver 3 7) demo_approval_id 50 True None (demo_approvals steps)"

lemma demo_decided_ok: "is_ok (snd (demo_decided [demo_step 51 1 [3], demo_step 52 2 [8]]))"
  by code_simp

theorem decide_effect_witness:
  "\<exists>w d b. decide_approval demo_approval_env (demo_approver 3 7) demo_approval_id True None
       (demo_approvals [demo_step 51 1 [3], demo_step 52 2 [8]]) = (w, Inr d) \<and>
     find_approval w 1 50 = Some b \<and> av_mode b = ''all'' \<and> av_status b = ''approved'' \<and>
     filter (\<lambda>t. st_order t \<noteq> 1) (apw_steps w) = [demo_step 52 2 [8]]"
proof -
  let ?steps = "[demo_step 51 1 [3], demo_step 52 2 [8]]" and ?c = "demo_approver 3 7"
  obtain v r where v: "demo_decided ?steps = (v, Inr r)"
    using demo_decided_ok by (cases "snd (demo_decided ?steps)") (auto simp: prod_eq_iff)
  then obtain w d where w: "decide_approval demo_approval_env ?c demo_approval_id True None (demo_approvals ?steps) = (w, Inr d)"
    unfolding demo_decide by (cases r) (simp add: st_then_def op_tx_def)
  have "idem_find ?c (''approval.decide.'' @ demo_approval_id) (demo_approvals ?steps) = None"
    by (simp add: idem_find_def demo_approver_def)
  from decide_effect [OF demo_parse _ _ this w, of demo_approval] demo_find [of ?steps 3 7]
  have b: "find_approval w 1 50 = Some (demo_approval\<lparr>av_status := ''approved'', av_decided_at := Some 7, av_decided_by := Some 3, av_note := None,
        av_updated := 7\<rparr>)"
    and f: "filter (\<lambda>t. \<not> (st_org t = 1 \<and> st_approval t = 50 \<and> st_order t = 1)) (apw_steps w) = [demo_step 52 2 [8]]"
    by (simp_all add: public_id_new_def demo_approval_def demo_approver_def actor_human_def demo_approvals_def demo_step_def)
  have "filter (\<lambda>t. st_order t \<noteq> 1) (filter (\<lambda>t. \<not> (st_org t = 1 \<and> st_approval t = 50 \<and> st_order t = 1)) xs) = filter (\<lambda>t. st_order t \<noteq> 1) xs" for xs
    by (auto intro: filter_cong)
  from this [of "apw_steps w"] have "filter (\<lambda>t. st_order t \<noteq> 1) (apw_steps w) = [demo_step 52 2 [8]]"
    unfolding f by (simp add: demo_step_def)
  moreover have "av_mode demo_approval = ''all''" by (simp add: demo_approval_def)
  ultimately show ?thesis
    using w b by (intro exI [of _ w] exI [of _ d] exI [of _ "demo_approval\<lparr>av_status := ''approved'', av_decided_at := Some 7, av_decided_by := Some 3,
      av_note := None, av_updated := 7\<rparr>"]) simp
qed

theorem decisions_final_witness:
  "demo_approval\<lparr>av_status := ''approved''\<rparr> \<in> set (apw_approvals (fst (decide_approval demo_approval_env (demo_approver 3 7) demo_approval_id False None
     ((demo_approvals [])\<lparr>apw_approvals := [demo_approval\<lparr>av_status := ''approved''\<rparr>]\<rparr>))))"
proof -
  let ?w = "(demo_approvals [])\<lparr>apw_approvals := [demo_approval\<lparr>av_status := ''approved''\<rparr>]\<rparr>"
  have "(approval_move demo_approval_env (av_id demo_approval))\<^sup>*\<^sup>* ?w
      (fst (decide_approval demo_approval_env (demo_approver 3 7) demo_approval_id False None ?w))"
    by (rule r_into_rtranclp, rule approval_move.call, rule approval_call.decide)
  from decisions_final [OF _ this, of "demo_approval\<lparr>av_status := ''approved''\<rparr>"] show ?thesis by simp
qed

lemma demo_race:
  "map (\<lambda>a. (av_id a, av_org a, av_status a, av_decided_by a)) (apw_approvals (fst (demo_decided [demo_step 51 1 [3]]))) = [(50, 1, ''approved'', Some 3)]"
  "is_ok (snd (escalate_write demo_approval_env (demo_approver 8 9) demo_approval_id 50 (1, Some ''admin'', 1) (fst (demo_decided [demo_step 51 1 [3]]))))"
  by code_simp+

lemma demo_escalate_read: "escalate_read (demo_approver user now) 50 (demo_approvals [demo_step 51 1 [3]]) = Some (Some (1, Some ''admin'', 1))"
  by (simp add: escalate_read_def find_approval_def find_step_def steps_of_def demo_approvals_def demo_approval_def demo_step_def demo_approver_def)

theorem escalation_reopens_decision_witness:
  "\<exists>w2 d b. escalate_read (demo_approver 8 9) 50 (demo_approvals [demo_step 51 1 [3]]) = Some (Some (1, Some ''admin'', 1)) \<and>
     escalate_write demo_approval_env (demo_approver 8 9) demo_approval_id 50 (1, Some ''admin'', 1) (fst (demo_decided [demo_step 51 1 [3]])) = (w2, Inr d) \<and>
     find_approval w2 1 50 = Some b \<and> av_status b = ''pending'' \<and> av_decided_by b = Some 3"
proof -
  let ?w1 = "fst (demo_decided [demo_step 51 1 [3]])" and ?c = "demo_approver 8 9"
  obtain w2 d where w2: "escalate_write demo_approval_env ?c demo_approval_id 50 (1, Some ''admin'', 1) ?w1 = (w2, Inr d)"
    using demo_race(2) by (cases "snd (escalate_write demo_approval_env ?c demo_approval_id 50 (1, Some ''admin'', 1) ?w1)") (auto simp: prod_eq_iff)
  obtain a where a: "apw_approvals ?w1 = [a]" "av_id a = 50" "av_org a = 1" "av_decided_by a = Some 3" using demo_race(1) by auto
  then have "find_approval ?w1 (apc_org ?c) 50 = Some a" by (simp add: find_approval_def demo_approver_def)
  from escalation_reopens_decision [OF demo_escalate_read _ this w2] demo_escalate_read w2 a(4)
  show ?thesis by (auto simp: demo_approver_def)
qed

lemma demo_escalated_ok: "is_ok (snd (escalate_tx demo_approval_env (demo_approver 3 9) demo_approval_id 50 (demo_approvals [demo_step 51 1 [3]])))"
  by code_simp

theorem escalation_follows_process_witness:
  "\<exists>w d b s. escalate_tx demo_approval_env (demo_approver 3 9) demo_approval_id 50 (demo_approvals [demo_step 51 1 [3]]) = (w, Inr d) \<and>
     find_approval w 1 50 = Some b \<and> av_status b = ''pending'' \<and>
     apply_sla_timeout (process_new 1 1 ''all'') = (s, True) \<and> pp_status s = Escalated \<and> \<not> snd (apply_decide True s)"
proof -
  obtain w d where w: "escalate_tx demo_approval_env (demo_approver 3 9) demo_approval_id 50 (demo_approvals [demo_step 51 1 [3]]) = (w, Inr d)"
    using demo_escalated_ok
    by (cases "snd (escalate_tx demo_approval_env (demo_approver 3 9) demo_approval_id 50 (demo_approvals [demo_step 51 1 [3]]))") (auto simp: prod_eq_iff)
  obtain s where s: "apply_sla_timeout (process_new 1 1 (av_mode demo_approval)) = (s, True)"
    by (simp add: apply_sla_timeout_def process_new_def Let_def)
  from escalation_follows_process [OF demo_find demo_escalate_read w s] w s
  show ?thesis by (auto simp: demo_approver_def demo_approval_def)
qed

end
