(* ===== verification/Journals.thy ===== *)
theory Journals
  imports Ledger Grants Outbox
begin

text \<open>
  The journal endpoints of the finance service (\<open>handlers/journals.rs\<close>) on top of the ledger: posting
  with reversals and two layers of idempotency, and reading with the redaction of salary journals. A
  handler runs in one transaction that is rolled back on an error. Rows of one transaction have the
  same \<open>created_at\<close>: the order in which a query returns them is the parameter \<open>jv_row_order\<close>; dates as
  text and serde's conversions are parameters too.
\<close>

section \<open>Tables, requests and answers\<close>

record finance_world =
  fw_org :: org_db
  fw_db :: finance_db
  fw_access :: "(uuid \<times> uuid \<times> uuid) list"
  fw_idem :: "((uuid \<times> string \<times> string) \<times> int \<times> json) list"
  fw_outbox :: outbox_db
  fw_audit :: "audit_entry list"

record journal_dto =
  jt_id :: string
  jt_memo :: string
  jt_source_type :: string
  jt_source_id :: string
  jt_currency :: string
  jt_lines :: "ledger_line list"
  jt_entry_date :: string
  jt_period :: "string option"
  jt_entity :: "string option"

record post_request =
  pq_source_type :: string
  pq_source_id :: string
  pq_currency :: string
  pq_memo :: "string option"
  pq_lines :: "ledger_line list"
  pq_entry_date :: "string option"
  pq_reverses_of :: "string option"

record service_caller =
  sc_org :: uuid
  sc_actor :: actor
  sc_request_id :: string
  sc_now :: int
  sc_today :: date
  sc_key :: "string option"

record journals_env =
  jv_fin :: fin_env
  jv_relay :: relay_env
  jv_parse_uuid :: "string \<Rightarrow> string + uuid"
  jv_time :: time_parser
  jv_parse_date :: "string \<Rightarrow> date option"
  jv_show_date :: "date \<Rightarrow> string"
  jv_row_order :: "journal_line list \<Rightarrow> journal_line list"
  jv_pick_entry :: "journal_entry list \<Rightarrow> journal_entry"
  jv_entity_public :: "uuid \<Rightarrow> string"
  jv_show_outbox_error :: "outbox_error \<Rightarrow> string"
  jv_dto_json :: "journal_dto \<Rightarrow> json"
  jv_dto_of :: "json \<Rightarrow> string + journal_dto"

type_synonym 'a jn_step = "finance_world \<Rightarrow> finance_world \<times> (app_error + 'a)"

section \<open>Steps of a handler\<close>

definition jn_fail :: "error_code \<Rightarrow> service_caller \<Rightarrow> string \<Rightarrow> 'a jn_step" where
  "jn_fail code c detail = st_return (Inl (app_error_new code (sc_request_id c) detail))"

definition jn_db :: "journals_env \<Rightarrow> service_caller \<Rightarrow> (finance_db \<Rightarrow> db_error + finance_db) \<Rightarrow> unit jn_step" where
  "jn_db env c f w =
     (case f (fw_db w) of
        Inl e \<Rightarrow> (w, Inl (db_failed (jv_fin env) (sc_request_id c) e))
      | Inr db \<Rightarrow> (w\<lparr>fw_db := db\<rparr>, Inr ()))"

definition jn_uuid :: "journals_env \<Rightarrow> uuid jn_step" where
  "jn_uuid env w = (case new_uuid_v7 (jv_fin env) (fw_db w) of (db, i) \<Rightarrow> (w\<lparr>fw_db := db\<rparr>, Inr i))"

text \<open>
  The transaction of a handler: only \<open>Inr (True, _)\<close> stands for a commit. Returning without one
  rolls back as an error does. The sequence of generated ids goes on in either case.
\<close>

definition jn_rollback :: "finance_world \<Rightarrow> finance_world \<Rightarrow> finance_world" where
  "jn_rollback w w' = w\<lparr>fw_db := (fw_db w)\<lparr>uuids := uuids (fw_db w')\<rparr>\<rparr>"

definition jn_tx :: "(bool \<times> 'a) jn_step \<Rightarrow> 'a jn_step" where
  "jn_tx m w =
     (case m w of
        (w', Inl e) \<Rightarrow> (jn_rollback w w', Inl e)
      | (w', Inr (commit, x)) \<Rightarrow> (if commit then w' else jn_rollback w w', Inr x))"

definition jn_require :: "journals_env \<Rightarrow> service_caller \<Rightarrow> permission_id \<Rightarrow> principal jn_step" where
  "jn_require env c perm w =
     (w, and_then (finance_load_membership_scope (sc_now c) (fw_org w) (sc_org c) (user_id (sc_actor c)) (sc_request_id c)) (\<lambda>s.
       and_then (enforce_any_scope (jv_time env) (ms_principal s) perm (sc_request_id c)) (\<lambda>_. Inr (ms_principal s))))"

definition jn_audit :: "journals_env \<Rightarrow> service_caller \<Rightarrow> string \<Rightarrow> string \<Rightarrow> string \<Rightarrow> json \<Rightarrow> unit jn_step" where
  "jn_audit env c action resource_type resource_id metadata =
     st_then (jn_uuid env) (\<lambda>i w.
     if list_ex (\<lambda>a. ae_id a = i) (fw_audit w)
     then (w, Inl (db_failed (jv_fin env) (sc_request_id c) (UniqueViolation ''audit_entry_pkey'')))
     else (w\<lparr>fw_audit := fw_audit w @ [\<lparr>ae_id = i, ae_org = sc_org c, ae_actor = sc_actor c, ae_action = action,
        ae_resource_type = resource_type, ae_resource_id = resource_id, ae_metadata = metadata\<rparr>]\<rparr>, Inr ()))"

definition jn_emit :: "journals_env \<Rightarrow> service_caller \<Rightarrow> json \<Rightarrow> unit jn_step" where
  "jn_emit env c payload =
     st_then (jn_uuid env) (\<lambda>i w.
     let r = jv_relay env;
         envelope = envelope_new i (sc_now c) (re_show_uuid r) (sc_org c) Finance ''journal'' ''posted'' 1 (sc_actor c) payload in
     case insert_event r \<lparr>app_org = Some (sc_org c), app_outbox_relay = False\<rparr> envelope (fw_outbox w) of
       Inl e \<Rightarrow> jn_fail Internal c (jv_show_outbox_error env e) w
     | Inr (ob, i) \<Rightarrow> (w\<lparr>fw_outbox := ob\<rparr>, Inr ()))"

definition post_scope :: string where "post_scope = ''journal.post''"

definition jn_idem_find :: "service_caller \<Rightarrow> finance_world \<Rightarrow> (int \<times> json) option" where
  "jn_idem_find c w = Option.bind (sc_key c) (\<lambda>k. map_of (fw_idem w) (sc_org c, post_scope, k))"

definition jn_idem_put :: "journals_env \<Rightarrow> service_caller \<Rightarrow> int \<Rightarrow> json \<Rightarrow> unit jn_step" where
  "jn_idem_put env c status body =
     (case sc_key c of
        None \<Rightarrow> st_return (Inr ())
      | Some k \<Rightarrow> st_then (jn_uuid env) (\<lambda>i w.
          if map_of (fw_idem w) (sc_org c, post_scope, k) \<noteq> None then (w, Inr ())
          else (w\<lparr>fw_idem := fw_idem w @ [((sc_org c, post_scope, k), status, body)]\<rparr>, Inr ())))"

section \<open>Reading entries\<close>

definition parse_journal_public_id :: "journals_env \<Rightarrow> service_caller \<Rightarrow> string \<Rightarrow> app_error + uuid" where
  "parse_journal_public_id env c raw =
     (let s = str_trim raw; text = (case strip_prefix ''jrn_'' s of Some r \<Rightarrow> r | None \<Rightarrow> s) in
      map_err (\<lambda>_. app_error_new ValidationFailed (sc_request_id c) (''invalid journal id: '' @ raw)) (jv_parse_uuid env text))"

definition resolve_active_account_code :: "service_caller \<Rightarrow> finance_db \<Rightarrow> string \<Rightarrow> app_error + string" where
  "resolve_active_account_code c db code =
     (case find (\<lambda>a. la_org a = sc_org c \<and> la_code a = code) (accounts db) of
        None \<Rightarrow> Inl (app_error_new ValidationFailed (sc_request_id c) (''unknown account_code: '' @ code))
      | Some a \<Rightarrow>
          if la_is_active a then Inr (la_code a)
          else Inl (app_error_new ValidationFailed (sc_request_id c) (''account '' @ code @ '' is inactive'')))"

definition line_of_row :: "finance_db \<Rightarrow> journal_line \<Rightarrow> ledger_line option" where
  "line_of_row db r =
     map_option (\<lambda>a. \<lparr>account_code = la_code a, debit_minor = jl_debit r, credit_minor = jl_credit r, ll_memo = jl_memo r\<rparr>)
       (find (\<lambda>a. la_id a = jl_account r) (accounts db))"

definition entry_dto :: "journals_env \<Rightarrow> finance_db \<Rightarrow> uuid \<Rightarrow> journal_entry \<Rightarrow> journal_dto" where
  "entry_dto env db org e =
     \<lparr>jt_id = je_public_id e, jt_memo = je_memo e, jt_source_type = je_source_type e,
      jt_source_id = show_uuid (jv_fin env) (je_source_id e), jt_currency = je_currency e,
      jt_lines = List.map_filter (line_of_row db)
        (jv_row_order env (filter (\<lambda>r. jl_org r = org \<and> jl_entry r = je_id e) (entry_lines db))),
      jt_entry_date = jv_show_date env (je_date e),
      jt_period = map_option fp_public_id (find (\<lambda>p. fp_id p = je_period e) (periods db)),
      jt_entity = Option.bind (je_entity e) (\<lambda>i. if List.member (entities db) i then Some (jv_entity_public env i) else None)\<rparr>"

definition load_entry_dto :: "journals_env \<Rightarrow> finance_db \<Rightarrow> uuid \<Rightarrow> uuid \<Rightarrow> journal_dto option" where
  "load_entry_dto env db org i =
     map_option (entry_dto env db org) (find (\<lambda>e. je_org e = org \<and> je_id e = i) (entries db))"

definition same_source :: "uuid \<Rightarrow> string \<Rightarrow> uuid \<Rightarrow> journal_entry \<Rightarrow> bool" where
  "same_source org source_type source_id e \<longleftrightarrow>
     je_org e = org \<and> je_source_type e = source_type \<and> je_source_id e = source_id"

definition fetch_by_source :: "journals_env \<Rightarrow> finance_db \<Rightarrow> uuid \<Rightarrow> string \<Rightarrow> uuid \<Rightarrow> journal_dto option" where
  "fetch_by_source env db org source_type source_id =
     (case filter (same_source org source_type source_id) (entries db) of
        [] \<Rightarrow> None
      | e # es \<Rightarrow> load_entry_dto env db org (je_id (jv_pick_entry env (e # es))))"

section \<open>Posting\<close>

definition endpoint_source_types :: "string list" where
  "endpoint_source_types =
     [''payroll'', ''manual'', ''inventory_receipt'', ''inventory_cogs'', ''inventory_depreciation'', ''vendor_bill'', ''vendor_payment'']"

definition one_sided :: "ledger_line \<Rightarrow> bool" where
  "one_sided l \<longleftrightarrow>
     \<not> (debit_minor l > 0 \<and> credit_minor l > 0 \<or> debit_minor l = 0 \<and> credit_minor l = 0 \<or> debit_minor l < 0 \<or> credit_minor l < 0)"

definition explicit_line :: "service_caller \<Rightarrow> finance_db \<Rightarrow> ledger_line \<Rightarrow> app_error + ledger_line" where
  "explicit_line c db l =
     (if \<not> one_sided l then Inl (app_error_new ValidationFailed (sc_request_id c)
        ''each line must have exactly one of debit_minor or credit_minor > 0'')
      else and_then (resolve_active_account_code c db (account_code l)) (\<lambda>code. Inr (l\<lparr>account_code := code\<rparr>)))"

definition reversed_line :: "service_caller \<Rightarrow> finance_db \<Rightarrow> ledger_line \<Rightarrow> app_error + ledger_line" where
  "reversed_line c db l =
     and_then (resolve_active_account_code c db (account_code l)) (\<lambda>code.
     Inr \<lparr>account_code = code, debit_minor = credit_minor l, credit_minor = debit_minor l, ll_memo = ll_memo l\<rparr>)"

definition request_lines ::
  "journals_env \<Rightarrow> service_caller \<Rightarrow> finance_db \<Rightarrow> uuid option \<Rightarrow> ledger_line list \<Rightarrow> app_error + ledger_line list" where
  "request_lines env c db reverses ls =
     (case reverses of
        Some orig \<Rightarrow>
          and_then (ok_or (app_error_new NotFound (sc_request_id c) ''journal to reverse not found'') (load_entry_dto env db (sc_org c) orig)) (\<lambda>d.
          and_then (collect_res (reversed_line c db) (jt_lines d)) (\<lambda>rs.
          and_then (collect_res (explicit_line c db) ls) (\<lambda>es. Inr (rs @ es))))
      | None \<Rightarrow>
          if ls = [] then Inl (app_error_new ValidationFailed (sc_request_id c) ''lines required'')
          else collect_res (explicit_line c db) ls)"

definition journal_of_request ::
  "journals_env \<Rightarrow> service_caller \<Rightarrow> post_request \<Rightarrow> currency \<Rightarrow> uuid \<Rightarrow> date option \<Rightarrow> uuid option \<Rightarrow> ledger_line list \<Rightarrow> journal_draft" where
  "journal_of_request env c r cur source_id entry_date reverses ls =
     (let source_type = str_trim (pq_source_type r);
          default_memo = (case reverses of
            Some i \<Rightarrow> ''Reversal of jrn_'' @ show_uuid (jv_fin env) i
          | None \<Rightarrow> source_type @ '' journal for '' @ show_uuid (jv_fin env) source_id) in
      \<lparr>jd_memo = (case pq_memo r of Some m \<Rightarrow> m | None \<Rightarrow> default_memo), jd_source_type = source_type, jd_source_id = source_id,
       jd_currency = cur, jd_lines = ls, jd_entry_date = entry_date, jd_reverses_entry_id = reverses,
       jd_posted_by = Some (user_id (sc_actor c)), jd_entity_id = None\<rparr>)"

definition jn_post :: "journals_env \<Rightarrow> service_caller \<Rightarrow> journal_draft \<Rightarrow> uuid jn_step" where
  "jn_post env c d w =
     (case post_journal (jv_fin env) (sc_today c) (sc_org c) d (sc_request_id c) (fw_db w) of
        Inl e \<Rightarrow> (w, Inl e)
      | Inr (db, i) \<Rightarrow> (w\<lparr>fw_db := db\<rparr>, Inr i))"

definition post_new :: "journals_env \<Rightarrow> service_caller \<Rightarrow> journal_draft \<Rightarrow> (bool \<times> int \<times> journal_dto) jn_step" where
  "post_new env c d =
     st_then (jn_post env c d) (\<lambda>i w.
     (case load_entry_dto env (fw_db w) (sc_org c) i of
        None \<Rightarrow> jn_fail Internal c ''journal missing after post''
      | Some dto \<Rightarrow>
          st_then (jn_audit env c ''finance.journal.post'' ''journal_entry'' (jt_id dto) (json_object
            [(''source_type'', JStr (jd_source_type d)), (''source_id'', JStr (show_uuid (jv_fin env) (jd_source_id d))),
             (''line_count'', JInt (int (length (jd_lines d))))])) (\<lambda>_.
          st_then (jn_emit env c (json_object
            [(''id'', JStr (jt_id dto)), (''source_type'', JStr (jd_source_type d)),
             (''source_id'', JStr (show_uuid (jv_fin env) (jd_source_id d)))])) (\<lambda>_.
          st_then (jn_idem_put env c 201 (jv_dto_json env dto)) (\<lambda>_.
          st_return (Inr (True, 201, dto)))))) w)"

definition post_draft :: "journals_env \<Rightarrow> service_caller \<Rightarrow> journal_draft \<Rightarrow> (bool \<times> int \<times> journal_dto) jn_step" where
  "post_draft env c d w =
     (if assert_balanced d \<noteq> Inr () then jn_fail ValidationFailed c ''journal lines must balance'' w
      else case jn_idem_find c w of
        Some (status, stored) \<Rightarrow>
          (case jv_dto_of env stored of
             Inl e \<Rightarrow> jn_fail Internal c e w
           | Inr dto \<Rightarrow> (w, Inr (False, 200, dto)))
      | None \<Rightarrow>
          (case fetch_by_source env (fw_db w) (sc_org c) (jd_source_type d) (jd_source_id d) of
             Some dto \<Rightarrow> st_then (jn_idem_put env c 200 (jv_dto_json env dto)) (\<lambda>_. st_return (Inr (True, 200, dto))) w
           | None \<Rightarrow> post_new env c d w))"

definition parse_source_id :: "journals_env \<Rightarrow> service_caller \<Rightarrow> post_request \<Rightarrow> uuid jn_step" where
  "parse_source_id env c r =
     (if str_trim (pq_source_id r) = [] then
        (if str_trim (pq_source_type r) = ''manual'' then jn_uuid env
         else jn_fail ValidationFailed c ''source_id must be a UUID for payroll'')
      else case jv_parse_uuid env (str_trim (pq_source_id r)) of
        Inl e \<Rightarrow> jn_fail ValidationFailed c ''source_id must be a UUID''
      | Inr i \<Rightarrow> st_return (Inr i))"

definition parse_entry_date :: "journals_env \<Rightarrow> service_caller \<Rightarrow> string option \<Rightarrow> date option jn_step" where
  "parse_entry_date env c x =
     (case x of
        None \<Rightarrow> st_return (Inr None)
      | Some s \<Rightarrow>
          (case jv_parse_date env (str_trim s) of
             None \<Rightarrow> jn_fail ValidationFailed c ''entry_date must be YYYY-MM-DD''
           | Some d \<Rightarrow> st_return (Inr (Some d))))"

definition post_tx ::
  "journals_env \<Rightarrow> service_caller \<Rightarrow> post_request \<Rightarrow> currency \<Rightarrow> uuid \<Rightarrow> date option \<Rightarrow> (bool \<times> int \<times> journal_dto) jn_step" where
  "post_tx env c r cur source_id entry_date =
     st_then (jn_db env c (ensure_ledger_accounts (jv_fin env) (sc_org c))) (\<lambda>_.
     st_then (st_return (case pq_reverses_of r of
        None \<Rightarrow> Inr None
      | Some raw \<Rightarrow> and_then (parse_journal_public_id env c raw) (\<lambda>i. Inr (Some i)))) (\<lambda>reverses.
     st_then (\<lambda>w. (w, request_lines env c (fw_db w) reverses (pq_lines r))) (\<lambda>ls.
     if ls = [] then jn_fail ValidationFailed c ''lines required''
     else post_draft env c (journal_of_request env c r cur source_id entry_date reverses ls))))"

definition post_journal_handler :: "journals_env \<Rightarrow> service_caller \<Rightarrow> post_request \<Rightarrow> (int \<times> journal_dto) jn_step" where
  "post_journal_handler env c r =
     st_then (jn_require env c finance_journal_post) (\<lambda>_.
     if str_trim (pq_source_type r) \<notin> set endpoint_source_types
     then jn_fail ValidationFailed c (''source_type must be one of: '' @ join_with '', '' endpoint_source_types)
     else case currency_new (pq_currency r) of
       Inl e \<Rightarrow> jn_fail ValidationFailed c ''invalid currency''
     | Inr cur \<Rightarrow>
         st_then (parse_source_id env c r) (\<lambda>source_id.
         st_then (parse_entry_date env c (pq_entry_date r)) (\<lambda>entry_date.
         jn_tx (post_tx env c r cur source_id entry_date))))"

section \<open>The endpoint without a bearer token\<close>

text \<open>
  A request without an access token is accepted only when local authentication is switched on
  (\<open>COMPANYOS_LOCAL_AUTH\<close>, the flag \<open>local_auth\<close>); the organisation and the user are then what the
  headers say. Headers are an association list.
\<close>

definition parse_org_public_id :: "journals_env \<Rightarrow> string \<Rightarrow> app_error + org_id" where
  "parse_org_public_id env s =
     (case public_id_from_str (jv_parse_uuid env) s of
        Inl e \<Rightarrow> Inl (app_error_new Unauthorized ''unknown'' ''invalid org_id'')
      | Inr p \<Rightarrow> map_err (\<lambda>_. app_error_new Unauthorized ''unknown'' (''org_id must be org_'' @ utf8_ellipsis)) (org_from_public p))"

definition parse_user_public_id :: "journals_env \<Rightarrow> string \<Rightarrow> app_error + uuid" where
  "parse_user_public_id env s =
     (case jv_parse_uuid env s of
        Inr u \<Rightarrow> Inr u
      | Inl e \<Rightarrow>
          (case public_id_from_str (jv_parse_uuid env) s of
             Inl e \<Rightarrow> Inl (app_error_new Unauthorized ''unknown'' ''invalid user id'')
           | Inr p \<Rightarrow>
               if pid_kind p \<noteq> ''User''
               then Inl (app_error_new Unauthorized ''unknown'' (''user id must be usr_'' @ utf8_ellipsis @ '' or uuid''))
               else Inr (pid_uuid p)))"

definition request_id_of :: "(string \<times> string) list \<Rightarrow> string" where
  "request_id_of headers = (case map_of headers ''x-request-id'' of Some s \<Rightarrow> s | None \<Rightarrow> ''unknown'')"

definition finance_header_key :: "(string \<times> string) list \<Rightarrow> string option" where
  "finance_header_key headers =
     Option.bind (map_of headers ''idempotency-key'') (\<lambda>s. if str_trim s = [] then None else Some (str_trim s))"

definition from_local_headers :: "journals_env \<Rightarrow> int \<Rightarrow> date \<Rightarrow> (string \<times> string) list \<Rightarrow> app_error + service_caller option" where
  "from_local_headers env now today headers =
     (case (map_of headers ''x-companyos-dev-org-id'', map_of headers ''x-companyos-dev-user-id'') of
        (Some org_s, Some user_s) \<Rightarrow>
          (let named = map_err (\<lambda>e. e\<lparr>ae_request_id := request_id_of headers\<rparr>) in
           and_then (named (parse_org_public_id env org_s)) (\<lambda>org.
           and_then (named (parse_user_public_id env user_s)) (\<lambda>user.
           Inr (Some \<lparr>sc_org = org, sc_actor = actor_human user, sc_request_id = request_id_of headers, sc_now = now,
             sc_today = today, sc_key = finance_header_key headers\<rparr>))))
      | _ \<Rightarrow> Inr None)"

definition extract_without_bearer ::
  "journals_env \<Rightarrow> bool \<Rightarrow> int \<Rightarrow> date \<Rightarrow> (string \<times> string) list \<Rightarrow> app_error + service_caller" where
  "extract_without_bearer env local_auth now today headers =
     and_then (if local_auth then from_local_headers env now today headers else Inr None) (\<lambda>found.
     case found of
       Some c \<Rightarrow> Inr c
     | None \<Rightarrow> Inl (app_error_new Unauthorized (request_id_of headers)
         (if local_auth then ''auth required: Bearer access token, or LOCAL-ONLY X-CompanyOS-Dev-* headers''
          else ''Bearer access token required'')))"

definition post_without_bearer ::
  "journals_env \<Rightarrow> bool \<Rightarrow> int \<Rightarrow> date \<Rightarrow> (string \<times> string) list \<Rightarrow> post_request \<Rightarrow> (int \<times> journal_dto) jn_step" where
  "post_without_bearer env local_auth now today headers r =
     st_then (st_return (extract_without_bearer env local_auth now today headers)) (\<lambda>c. post_journal_handler env c r)"

section \<open>Reading a journal\<close>

definition is_salary_adjacent :: "string \<Rightarrow> bool" where
  "is_salary_adjacent source_type \<longleftrightarrow> source_type \<in> {''payroll'', ''payroll_reversal'', ''salary''}"

definition redact_salary_journal :: "journal_dto \<Rightarrow> bool \<Rightarrow> journal_dto" where
  "redact_salary_journal d can_read_salary =
     (if is_salary_adjacent (jt_source_type d) \<and> \<not> can_read_salary then
        d\<lparr>jt_lines := map (\<lambda>l. l\<lparr>debit_minor := 0, credit_minor := 0, ll_memo := Some ''[redacted]''\<rparr>) (jt_lines d),
          jt_memo := ''[salary amounts redacted]''\<rparr>
      else d)"

definition entity_isolated :: "journals_env \<Rightarrow> service_caller \<Rightarrow> principal \<Rightarrow> uuid \<Rightarrow> finance_world \<Rightarrow> bool" where
  "entity_isolated env c p i w =
     (let allowed = map (\<lambda>(org, user, e). e) (filter (\<lambda>(org, user, e). org = sc_org c \<and> user = user_id (sc_actor c)) (fw_access w)) in
      allowed \<noteq> [] \<and> \<not> is_allowed (jv_time env) p finance_consolidation_run \<and> \<not> is_allowed (jv_time env) p finance_entity_manage \<and>
      (case Option.bind (find (\<lambda>e. je_id e = i \<and> je_org e = sc_org c) (entries (fw_db w))) je_entity of
         None \<Rightarrow> False | Some e \<Rightarrow> e \<notin> set allowed))"

definition get_journal :: "journals_env \<Rightarrow> service_caller \<Rightarrow> string \<Rightarrow> journal_dto jn_step" where
  "get_journal env c raw =
     st_then (st_return (parse_journal_public_id env c raw)) (\<lambda>i.
     st_then (jn_require env c finance_ledger_read) (\<lambda>p.
     let can_salary = is_allowed (jv_time env) p finance_field_salary_journal_read in
     jn_tx (\<lambda>w.
       case load_entry_dto env (fw_db w) (sc_org c) i of
         None \<Rightarrow> jn_fail NotFound c ''journal not found'' w
       | Some d \<Rightarrow>
           if entity_isolated env c p i w
           then jn_fail Forbidden c ''entity isolation: journal belongs to another entity'' w
           else
             st_then (if is_salary_adjacent (jt_source_type d)
                then jn_audit env c (if can_salary then ''finance.field.salary_journal_read'' else ''finance.journal.read_redacted'')
                  ''journal'' (jt_id d)
                  (json_object [(''source_type'', JStr (jt_source_type d)), (''redacted'', JBool (\<not> can_salary))])
                else st_return (Inr ())) (\<lambda>_.
             st_return (Inr (True, redact_salary_journal d can_salary))) w)))"

end
