(* ===== verification/Payroll.thy ===== *)
theory Payroll
  imports Journals
begin

text \<open>
  Payroll of the HR service (\<open>hr-service/src/handlers/payroll.rs\<close> with \<open>principal.rs\<close>, \<open>audit.rs\<close>,
  \<open>idempotency.rs\<close> and the triggers of \<open>migrations/003_payroll.sql\<close>): components, runs and payslips,
  the calculation, the states from draft to paid, and the payment, which posts a journal through the
  finance service of theory \<open>Journals\<close>. A handler runs in one transaction; what the finance service
  has committed stays when the payroll transaction is rolled back. The handlers do not lock the run
  they read: the part of a handler after the read takes the row it has seen, which may be stale.

  Dates are numbered from 1 January of year 1, a Monday, as \<open>num_days_from_ce\<close> does. Rows that a
  query does not order come in the order of the table. Decryption, the collation of the database,
  the largest date of chrono and the answers of the approval service are parameters.
\<close>

section \<open>Tables\<close>

record payroll_component =
  pc_id :: uuid
  pc_org :: uuid
  pc_public_id :: string
  pc_code :: string
  pc_label :: string
  pc_line_kind :: string
  pc_calc_method :: string
  pc_config :: json
  pc_currency :: "string option"
  pc_active :: bool
  pc_sort :: int
  pc_created :: int
  pc_updated :: int
  pc_deleted :: "int option"
  pc_version :: int

record payroll_run =
  pr_id :: uuid
  pr_org :: uuid
  pr_public_id :: string
  pr_status :: string
  pr_start :: date
  pr_end :: date
  pr_currency :: string
  pr_adjusts :: "uuid option"
  pr_approval :: "string option"
  pr_journal_public :: "string option"
  pr_journal_entry :: "uuid option"
  pr_count :: int
  pr_gross :: int
  pr_deductions :: int
  pr_net :: int
  pr_calculated :: "int option"
  pr_approved :: "int option"
  pr_paid :: "int option"
  pr_created_by :: uuid
  pr_owner :: uuid
  pr_created :: int
  pr_updated :: int
  pr_deleted :: "int option"
  pr_version :: int

record payslip =
  sl_id :: uuid
  sl_org :: uuid
  sl_public_id :: string
  sl_run :: uuid
  sl_employee :: uuid
  sl_currency :: string
  sl_gross :: int
  sl_deductions :: int
  sl_net :: int
  sl_status :: string
  sl_issued :: "int option"
  sl_user :: "uuid option"
  sl_owner :: uuid
  sl_created :: int
  sl_updated :: int
  sl_deleted :: "int option"
  sl_version :: int

record payslip_line =
  pl_id :: uuid
  pl_org :: uuid
  pl_public_id :: string
  pl_payslip :: uuid
  pl_run :: uuid
  pl_kind :: string
  pl_code :: string
  pl_label :: string
  pl_amount :: int
  pl_currency :: string
  pl_basis :: json
  pl_sort :: int

record hr_employee =
  em_id :: uuid
  em_org :: uuid
  em_public_id :: string
  em_user :: "uuid option"
  em_name :: string
  em_status :: string
  em_owner :: uuid
  em_created :: int
  em_deleted :: "int option"

record base_pay =
  bp_org :: uuid
  bp_employee :: uuid
  bp_type :: string
  bp_cipher :: string
  bp_currency :: string
  bp_from :: date
  bp_to :: "date option"
  bp_deleted :: "int option"

record leave_type =
  ly_id :: uuid
  ly_org :: uuid
  ly_category :: string

record leave_request =
  lq_org :: uuid
  lq_employee :: uuid
  lq_type :: uuid
  lq_status :: string
  lq_start :: date
  lq_end :: date
  lq_units :: int
  lq_deleted :: "int option"

text \<open>The instant of an attendance entry is in microseconds, the precision of the database.\<close>

record attendance =
  at_org :: uuid
  at_employee :: uuid
  at_kind :: string
  at_recorded :: int
  at_date :: date

record payroll_world =
  pw_org :: org_db
  pw_components :: "payroll_component list"
  pw_runs :: "payroll_run list"
  pw_slips :: "payslip list"
  pw_lines :: "payslip_line list"
  pw_employees :: "hr_employee list"
  pw_pay :: "base_pay list"
  pw_leave_types :: "leave_type list"
  pw_leave :: "leave_request list"
  pw_attendance :: "attendance list"
  pw_idem :: "((uuid \<times> string \<times> string) \<times> int \<times> json) list"
  pw_outbox :: outbox_db
  pw_audit :: "audit_entry list"
  pw_http :: "outgoing_request list"
  pw_finance :: finance_world
  pw_uuids :: nat

section \<open>Answers and environment\<close>

record component_dto =
  kt_id :: string
  kt_code :: string
  kt_label :: string
  kt_line_kind :: string
  kt_calc_method :: string
  kt_config :: json
  kt_currency :: "string option"
  kt_active :: bool
  kt_sort :: int
  kt_created :: string
  kt_updated :: string
  kt_version :: int

record run_dto =
  rt_id :: string
  rt_status :: string
  rt_start :: string
  rt_end :: string
  rt_currency :: string
  rt_adjusts :: "string option"
  rt_approval :: "string option"
  rt_journal :: "string option"
  rt_count :: int
  rt_gross :: int
  rt_deductions :: int
  rt_net :: int
  rt_calculated :: "string option"
  rt_approved :: "string option"
  rt_paid :: "string option"
  rt_created :: string
  rt_updated :: string
  rt_version :: int

record payslip_line_dto =
  yt_id :: string
  yt_kind :: string
  yt_code :: string
  yt_label :: string
  yt_amount :: int
  yt_currency :: string
  yt_basis :: json
  yt_sort :: int

record payslip_dto =
  zt_id :: string
  zt_run :: string
  zt_employee :: string
  zt_currency :: string
  zt_gross :: int
  zt_deductions :: int
  zt_net :: int
  zt_status :: string
  zt_issued :: "string option"
  zt_lines :: "payslip_line_dto list"
  zt_created :: string
  zt_version :: int

record payroll_env =
  pye_service :: journals_env
  pye_max_date :: date
  pye_decrypt :: "string \<Rightarrow> string + int"
  pye_collate :: "string \<Rightarrow> string \<Rightarrow> bool"
  pye_db_error :: string
  pye_run_json :: "run_dto \<Rightarrow> json"
  pye_base_url :: "string \<Rightarrow> string"
  pye_local_auth :: bool
  pye_show_failure :: "app_error \<Rightarrow> string"
  pye_transport_error :: string
  pye_approval_answer :: "outgoing_request \<Rightarrow> string option"

abbreviation py_relay :: "payroll_env \<Rightarrow> relay_env" where
  "py_relay env \<equiv> jv_relay (pye_service env)"

abbreviation py_show_time :: "payroll_env \<Rightarrow> int \<Rightarrow> string" where
  "py_show_time env \<equiv> re_show_time (py_relay env)"

datatype py_failure = PyError app_error | PyPanic

type_synonym 'a py_step = "payroll_world \<Rightarrow> payroll_world \<times> (py_failure + 'a)"

section \<open>Steps of a handler\<close>

definition py_fail :: "error_code \<Rightarrow> service_caller \<Rightarrow> string \<Rightarrow> 'a py_step" where
  "py_fail code c detail = st_return (Inl (PyError (app_error_new code (sc_request_id c) detail)))"

definition py_internal :: "payroll_env \<Rightarrow> service_caller \<Rightarrow> 'a py_step" where
  "py_internal env c = py_fail Internal c (''db error: '' @ pye_db_error env)"

definition py_not_found :: "service_caller \<Rightarrow> string \<Rightarrow> 'a py_step" where
  "py_not_found c what = py_fail NotFound c (what @ '' not found'')"

definition py_uuid :: "payroll_env \<Rightarrow> uuid py_step" where
  "py_uuid env w = (w\<lparr>pw_uuids := Suc (pw_uuids w)\<rparr>, Inr (re_gen_uuid (py_relay env) (pw_uuids w)))"

text \<open>A rollback keeps what other services have done and the generated ids.\<close>

definition py_tx :: "'a py_step \<Rightarrow> 'a py_step" where
  "py_tx m w =
     (case m w of
        (w', Inl e) \<Rightarrow> (w\<lparr>pw_http := pw_http w', pw_finance := pw_finance w', pw_uuids := pw_uuids w'\<rparr>, Inl e)
      | (w', Inr x) \<Rightarrow> (w', Inr x))"

definition py_public :: "payroll_env \<Rightarrow> id_kind \<Rightarrow> uuid \<Rightarrow> string" where
  "py_public env kind u = public_id_as_str (re_show_uuid (py_relay env)) (public_id_new kind u)"

definition py_parse_public_id :: "payroll_env \<Rightarrow> service_caller \<Rightarrow> id_kind \<Rightarrow> string \<Rightarrow> uuid py_step" where
  "py_parse_public_id env c kind raw =
     (case public_id_from_str (jv_parse_uuid (pye_service env)) raw of
        Inl e \<Rightarrow> py_fail ValidationFailed c (''invalid id: '' @ raw)
      | Inr p \<Rightarrow>
          if pid_kind p \<noteq> kind then py_fail ValidationFailed c (''id '' @ raw @ '' is not a '' @ kind @ '' id'')
          else st_return (Inr (pid_uuid p)))"

definition py_parse_optional :: "payroll_env \<Rightarrow> service_caller \<Rightarrow> id_kind \<Rightarrow> string option \<Rightarrow> uuid option py_step" where
  "py_parse_optional env c kind raw =
     (case raw of
        None \<Rightarrow> st_return (Inr None)
      | Some s \<Rightarrow>
          if str_trim s = [] then st_return (Inr None)
          else st_then (py_parse_public_id env c kind s) (\<lambda>i. st_return (Inr (Some i))))"

definition py_parse_date :: "payroll_env \<Rightarrow> service_caller \<Rightarrow> string \<Rightarrow> date py_step" where
  "py_parse_date env c s =
     (case jv_parse_date (pye_service env) s of
        None \<Rightarrow> py_fail ValidationFailed c (''invalid date: '' @ s)
      | Some d \<Rightarrow> st_return (Inr d))"

definition py_member :: "service_caller \<Rightarrow> membership_scope py_step" where
  "py_member c w =
     (w, map_err PyError (load_membership_scope (pw_org w) (sc_org c) (user_id (sc_actor c)) (sc_request_id c)))"

definition py_require :: "payroll_env \<Rightarrow> service_caller \<Rightarrow> permission_id \<Rightarrow> unit py_step" where
  "py_require env c perm =
     st_then (py_member c) (\<lambda>s.
     st_return (map_err PyError (enforce_any_scope (jv_time (pye_service env)) (ms_principal s) perm (sc_request_id c))))"

definition py_audit :: "payroll_env \<Rightarrow> service_caller \<Rightarrow> string \<Rightarrow> string \<Rightarrow> string \<Rightarrow> json \<Rightarrow> unit py_step" where
  "py_audit env c action resource_type resource_id metadata =
     st_then (py_uuid env) (\<lambda>i w.
     if list_ex (\<lambda>a. ae_id a = i) (pw_audit w) then py_internal env c w
     else (w\<lparr>pw_audit := pw_audit w @ [\<lparr>ae_id = i, ae_org = sc_org c, ae_actor = sc_actor c, ae_action = action,
        ae_resource_type = resource_type, ae_resource_id = resource_id, ae_metadata = metadata\<rparr>]\<rparr>, Inr ()))"

definition py_emit :: "payroll_env \<Rightarrow> service_caller \<Rightarrow> string \<Rightarrow> string \<Rightarrow> json \<Rightarrow> unit py_step" where
  "py_emit env c aggregate event_type payload =
     st_then (py_uuid env) (\<lambda>i w.
     let r = py_relay env;
         envelope = envelope_new i (sc_now c) (re_show_uuid r) (sc_org c) People aggregate event_type 1 (sc_actor c) payload in
     case insert_event r \<lparr>app_org = Some (sc_org c), app_outbox_relay = False\<rparr> envelope (pw_outbox w) of
       Inl e \<Rightarrow> py_fail Internal c (jv_show_outbox_error (pye_service env) e) w
     | Inr (ob, i) \<Rightarrow> (w\<lparr>pw_outbox := ob\<rparr>, Inr ()))"

definition py_idem_find :: "service_caller \<Rightarrow> string \<Rightarrow> payroll_world \<Rightarrow> (int \<times> json) option" where
  "py_idem_find c scope w = Option.bind (sc_key c) (\<lambda>k. map_of (pw_idem w) (sc_org c, scope, k))"

definition py_idem_put :: "payroll_env \<Rightarrow> service_caller \<Rightarrow> string \<Rightarrow> json \<Rightarrow> unit py_step" where
  "py_idem_put env c scope body =
     (case sc_key c of
        None \<Rightarrow> st_return (Inr ())
      | Some k \<Rightarrow> st_then (py_uuid env) (\<lambda>i w.
          if map_of (pw_idem w) (sc_org c, scope, k) \<noteq> None then (w, Inr ())
          else (w\<lparr>pw_idem := pw_idem w @ [((sc_org c, scope, k), 200, body)]\<rparr>, Inr ())))"

definition cached_status :: "int \<Rightarrow> int" where
  "cached_status status = (if 100 \<le> status mod 65536 \<and> status mod 65536 < 1000 then status mod 65536 else 200)"

text \<open>Answering from the cache when the key is known, and running the handler otherwise.\<close>

definition py_cached :: "service_caller \<Rightarrow> string \<Rightarrow> (int \<times> json) py_step \<Rightarrow> (int \<times> json) py_step" where
  "py_cached c scope m w =
     (case py_idem_find c scope w of
        Some (status, stored) \<Rightarrow> (w, Inr (cached_status status, stored))
      | None \<Rightarrow> m w)"

section \<open>The calendar, leave and attendance\<close>

definition num_days_from_monday :: "date \<Rightarrow> int" where
  "num_days_from_monday d = (d - 1) mod 7"

text \<open>\<open>None\<close> is the panic of stepping beyond the largest date.\<close>

function count_from :: "date \<Rightarrow> date \<Rightarrow> date \<Rightarrow> int \<Rightarrow> int option" where
  "count_from max_date d e n =
     (if d \<le> e then
        (let n' = (if num_days_from_monday d < 5 then wrap_i32 (n + 1) else n) in
         if d = max_date then None else count_from max_date (d + 1) e n')
      else Some n)"
  by pat_completeness auto

termination
  by (relation "measure (\<lambda>(max_date, d, e, n). nat (e + 1 - d))") auto

declare count_from.simps [simp del]

definition count_weekdays :: "payroll_env \<Rightarrow> date \<Rightarrow> date \<Rightarrow> int option" where
  "count_weekdays env start e = count_from (pye_max_date env) start e 0"

definition unpaid_leave_milli :: "payroll_world \<Rightarrow> uuid \<Rightarrow> uuid \<Rightarrow> date \<Rightarrow> date \<Rightarrow> int" where
  "unpaid_leave_milli w org employee start e =
     (let rows = filter (\<lambda>r. lq_org r = org \<and> lq_employee r = employee \<and> lq_deleted r = None \<and> lq_status r = ''approved'' \<and>
            list_ex (\<lambda>t. ly_id t = lq_type r \<and> ly_org t = lq_org r \<and> ly_category t = ''unpaid'') (pw_leave_types w) \<and>
            lq_start r \<le> e \<and> lq_end r \<ge> start) (pw_leave w) in
      max 0 (min (2 ^ 31 - 1) (sum_list (map lq_units rows))))"

text \<open>The sum of the worked time in milliseconds, with the open check-in.\<close>

fun worked_ms :: "attendance list \<Rightarrow> int option \<Rightarrow> int \<Rightarrow> int" where
  "worked_ms [] open_in tot = tot"
| "worked_ms (a # as) open_in tot =
     (if at_kind a = ''check_in'' then worked_ms as (Some (at_recorded a)) tot
      else if at_kind a = ''check_out'' then
        (case open_in of
           None \<Rightarrow> worked_ms as None tot
         | Some start \<Rightarrow>
             (let delta = quot_i64 (at_recorded a - start) 1000 in
              worked_ms as None (if delta > 0 then wrap_i64 (tot + delta) else tot)))
      else worked_ms as open_in tot)"

definition sum_attendance_hours_milli :: "payroll_world \<Rightarrow> uuid \<Rightarrow> uuid \<Rightarrow> date \<Rightarrow> date \<Rightarrow> int" where
  "sum_attendance_hours_milli w org employee start e =
     (let rows = sort_key at_recorded
            (filter (\<lambda>a. at_org a = org \<and> at_employee a = employee \<and> at_date a \<ge> start \<and> at_date a \<le> e) (pw_attendance w)) in
      quot_i64 (worked_ms rows None 0) 3600000 * 1000)"

section \<open>The lines of a payslip\<close>

record draft_line =
  dl_kind :: string
  dl_code :: string
  dl_label :: string
  dl_amount :: int
  dl_basis :: json
  dl_sort :: int

definition config_i64 :: "payroll_component \<Rightarrow> string \<Rightarrow> int" where
  "config_i64 p k = (case Option.bind (json_get (pc_config p) k) json_as_i64 of Some n \<Rightarrow> n | None \<Rightarrow> 0)"

definition line_basis :: "string \<Rightarrow> (string \<times> json) list \<Rightarrow> json" where
  "line_basis how inputs = json_object [(''method'', JStr how), (''inputs'', json_object inputs)]"

definition compute_line_amount :: "payroll_component \<Rightarrow> int \<Rightarrow> int \<Rightarrow> int \<Rightarrow> int \<Rightarrow> int \<times> json" where
  "compute_line_amount p salary unpaid_milli working_days hours_milli =
     (let how = pc_calc_method p in
      if how = ''fixed_from_comp'' then
        (salary, line_basis how [(''component_type'', JStr ''base_salary''), (''period_salary_minor'', JInt salary)])
      else if how = ''unpaid_leave_proration'' then
        (let denom = working_days * 1000 in
         (if denom > 0 then quot_i64 (sat_i64 (salary * unpaid_milli)) denom else 0,
          line_basis how [(''salary_minor'', JInt salary), (''unpaid_milli'', JInt unpaid_milli), (''working_days'', JInt working_days)]))
      else if how = ''rate_x_hours'' then
        (let rate = config_i64 p ''overtime_rate_minor'' in
         (quot_i64 (sat_i64 (rate * hours_milli)) 1000,
          line_basis how [(''overtime_rate_minor'', JInt rate), (''hours_milli'', JInt hours_milli)]))
      else if how = ''fixed_amount'' then
        (let amount = config_i64 p ''fixed_amount_minor'' in
         (amount, line_basis how [(''fixed_amount_minor'', JInt amount)]))
      else (0, line_basis how []))"

text \<open>Gross, deductions and lines so far; the first pass leaves out percentages.\<close>

type_synonym slip_sums = "int \<times> int \<times> draft_line list"

definition add_fixed_line :: "int \<Rightarrow> int \<Rightarrow> int \<Rightarrow> int \<Rightarrow> slip_sums \<Rightarrow> payroll_component \<Rightarrow> slip_sums" where
  "add_fixed_line salary unpaid_milli working_days hours_milli acc p =
     (case acc of (gross, deductions, ls) \<Rightarrow>
      case compute_line_amount p salary unpaid_milli working_days hours_milli of (amount, basis) \<Rightarrow>
      if pc_calc_method p = ''percent_of_gross'' \<or> amount = 0 then (gross, deductions, ls)
      else
        (let how = pc_calc_method p;
             (gross', deductions') =
               (if how = ''fixed_from_comp'' \<or> how = ''rate_x_hours'' then (wrap_i64 (gross + amount), deductions)
                else if how = ''unpaid_leave_proration'' then (sat_i64 (gross - amount), deductions)
                else if pc_line_kind p = ''earning'' then (wrap_i64 (gross + amount), deductions)
                else (gross, wrap_i64 (deductions + amount)))
         in (gross', deductions',
             ls @ [\<lparr>dl_kind = pc_line_kind p, dl_code = pc_code p, dl_label = pc_label p, dl_amount = amount,
               dl_basis = basis, dl_sort = pc_sort p\<rparr>])))"

definition add_percent_line :: "slip_sums \<Rightarrow> payroll_component \<Rightarrow> slip_sums" where
  "add_percent_line acc p =
     (case acc of (gross, deductions, ls) \<Rightarrow>
      let bps = config_i64 p ''percent_bps''; amount = quot_i64 (sat_i64 (gross * bps)) 10000 in
      if pc_calc_method p \<noteq> ''percent_of_gross'' \<or> pc_line_kind p \<noteq> ''deduction'' \<or> amount = 0 then (gross, deductions, ls)
      else (gross, wrap_i64 (deductions + amount),
        ls @ [\<lparr>dl_kind = ''deduction'', dl_code = pc_code p, dl_label = pc_label p, dl_amount = amount,
          dl_basis = line_basis ''percent_of_gross'' [(''gross_minor'', JInt gross), (''percent_bps'', JInt bps)],
          dl_sort = pc_sort p\<rparr>]))"

definition slip_of :: "payroll_component list \<Rightarrow> int \<Rightarrow> int \<Rightarrow> int \<Rightarrow> int \<Rightarrow> slip_sums" where
  "slip_of ps salary unpaid_milli working_days hours_milli =
     foldl add_percent_line (foldl (add_fixed_line salary unpaid_milli working_days hours_milli) (0, 0, []) ps) ps"

section \<open>Components\<close>

definition valid_line_kinds :: "string list" where
  "valid_line_kinds = [''earning'', ''deduction'']"

definition valid_calc_methods :: "string list" where
  "valid_calc_methods =
     [''fixed_from_comp'', ''rate_x_hours'', ''unpaid_leave_proration'', ''percent_of_gross'', ''fixed_amount'']"

definition debug_list :: "string list \<Rightarrow> string" where
  "debug_list xs = ''['' @ join_with '', '' (map (\<lambda>s. CHR 0x22 # s @ [CHR 0x22]) xs) @ '']''"

definition insert_component :: "payroll_env \<Rightarrow> service_caller \<Rightarrow> payroll_component \<Rightarrow> unit py_step" where
  "insert_component env c p w =
     (if list_ex (\<lambda>q. pc_id q = pc_id p \<or>
           pc_org q = pc_org p \<and> (pc_public_id q = pc_public_id p \<or> pc_code q = pc_code p)) (pw_components w)
        \<or> pc_line_kind p \<notin> set valid_line_kinds \<or> pc_calc_method p \<notin> set valid_calc_methods
      then py_internal env c w else (w\<lparr>pw_components := pw_components w @ [p]\<rparr>, Inr ()))"

definition new_component ::
  "payroll_env \<Rightarrow> service_caller \<Rightarrow> uuid \<Rightarrow> string \<Rightarrow> string \<Rightarrow> string \<Rightarrow> string \<Rightarrow> json \<Rightarrow> string option \<Rightarrow> int \<Rightarrow> payroll_component" where
  "new_component env c i code label line_kind calc_method config currency sort_order =
     \<lparr>pc_id = i, pc_org = sc_org c, pc_public_id = py_public env ''PayrollComponent'' i, pc_code = code, pc_label = label,
      pc_line_kind = line_kind, pc_calc_method = calc_method, pc_config = config, pc_currency = currency, pc_active = True,
      pc_sort = sort_order, pc_created = sc_now c, pc_updated = sc_now c, pc_deleted = None, pc_version = 1\<rparr>"

definition default_components :: "(string \<times> string \<times> string \<times> string \<times> json \<times> int) list" where
  "default_components =
     [(''salary'', ''Base salary'', ''earning'', ''fixed_from_comp'', json_object [], 10),
      (''unpaid_leave'', ''Unpaid leave'', ''deduction'', ''unpaid_leave_proration'', json_object [], 20),
      (''tax'', ''Payroll tax'', ''deduction'', ''percent_of_gross'', json_object [(''percent_bps'', JInt 1000)], 30),
      (''overtime'', ''Overtime'', ''earning'', ''rate_x_hours'', json_object [(''overtime_rate_minor'', JInt 0)], 40)]"

fun insert_defaults :: "payroll_env \<Rightarrow> service_caller \<Rightarrow> (string \<times> string \<times> string \<times> string \<times> json \<times> int) list \<Rightarrow> unit py_step" where
  "insert_defaults env c [] = st_return (Inr ())"
| "insert_defaults env c ((code, label, line_kind, calc_method, config, sort_order) # ds) =
     st_then (py_uuid env) (\<lambda>i.
     st_then (insert_component env c (new_component env c i code label line_kind calc_method config None sort_order)) (\<lambda>_.
     insert_defaults env c ds))"

definition ensure_default_components :: "payroll_env \<Rightarrow> service_caller \<Rightarrow> unit py_step" where
  "ensure_default_components env c w =
     (if list_ex (\<lambda>p. pc_org p = sc_org c \<and> pc_deleted p = None) (pw_components w) then (w, Inr ())
      else insert_defaults env c default_components w)"

definition component_order :: "payroll_env \<Rightarrow> payroll_component list \<Rightarrow> payroll_component list" where
  "component_order env =
     sort_by (\<lambda>p q. pc_sort p < pc_sort q \<or> pc_sort p = pc_sort q \<and> pye_collate env (pc_code p) (pc_code q))"

definition active_components :: "payroll_env \<Rightarrow> service_caller \<Rightarrow> payroll_world \<Rightarrow> payroll_component list" where
  "active_components env c w =
     component_order env (filter (\<lambda>p. pc_org p = sc_org c \<and> pc_deleted p = None \<and> pc_active p) (pw_components w))"

definition component_into_dto :: "payroll_env \<Rightarrow> payroll_component \<Rightarrow> component_dto" where
  "component_into_dto env p =
     \<lparr>kt_id = pc_public_id p, kt_code = pc_code p, kt_label = pc_label p, kt_line_kind = pc_line_kind p,
      kt_calc_method = pc_calc_method p, kt_config = pc_config p, kt_currency = pc_currency p, kt_active = pc_active p,
      kt_sort = pc_sort p, kt_created = py_show_time env (pc_created p), kt_updated = py_show_time env (pc_updated p),
      kt_version = pc_version p\<rparr>"

definition list_components :: "payroll_env \<Rightarrow> service_caller \<Rightarrow> component_dto list py_step" where
  "list_components env c =
     st_then (py_require env c hr_payroll_read) (\<lambda>_. py_tx (\<lambda>w.
     let rows = component_order env (filter (\<lambda>p. pc_org p = sc_org c \<and> pc_deleted p = None) (pw_components w)) in
     st_then (py_audit env c ''hr.payroll.read'' ''payroll_component'' ''list'' (json_object [(''count'', JInt (int (length rows)))])) (\<lambda>_.
     st_return (Inr (map (component_into_dto env) rows))) w))"

record component_request =
  kq_code :: string
  kq_label :: string
  kq_line_kind :: string
  kq_calc_method :: string
  kq_config :: "json option"
  kq_currency :: "string option"
  kq_sort :: "int option"

definition component_currency :: "service_caller \<Rightarrow> string option \<Rightarrow> string option py_step" where
  "component_currency c x =
     (case x of
        None \<Rightarrow> st_return (Inr None)
      | Some s \<Rightarrow>
          if str_trim s = [] then st_return (Inr None)
          else case currency_new s of
            Inl e \<Rightarrow> py_fail ValidationFailed c ''invalid currency''
          | Inr cur \<Rightarrow> st_return (Inr (Some (currency_bytes cur))))"

definition create_component :: "payroll_env \<Rightarrow> service_caller \<Rightarrow> component_request \<Rightarrow> component_dto py_step" where
  "create_component env c r =
     st_then (py_require env c hr_payroll_write) (\<lambda>_.
     if str_trim (kq_code r) = [] \<or> str_trim (kq_label r) = [] then py_fail ValidationFailed c ''code and label are required''
     else if kq_line_kind r \<notin> set valid_line_kinds
     then py_fail ValidationFailed c (''line_kind must be one of '' @ debug_list valid_line_kinds)
     else if kq_calc_method r \<notin> set valid_calc_methods
     then py_fail ValidationFailed c (''calc_method must be one of '' @ debug_list valid_calc_methods)
     else st_then (component_currency c (kq_currency r)) (\<lambda>currency.
       st_then (py_uuid env) (\<lambda>i. py_tx (
       let p = new_component env c i (str_trim (kq_code r)) (str_trim (kq_label r)) (kq_line_kind r) (kq_calc_method r)
                 (case kq_config r of Some j \<Rightarrow> j | None \<Rightarrow> json_object []) currency (case kq_sort r of Some n \<Rightarrow> n | None \<Rightarrow> 100) in
       st_then (insert_component env c p) (\<lambda>_.
       st_then (py_audit env c ''hr.payroll.component.create'' ''payroll_component'' (pc_public_id p)
         (json_object [(''code'', JStr (pc_code p)), (''line_kind'', JStr (pc_line_kind p))])) (\<lambda>_.
       st_return (Inr (component_into_dto env p))))))))"

section \<open>The tables of runs and payslips\<close>

definition find_run :: "payroll_world \<Rightarrow> uuid \<Rightarrow> uuid \<Rightarrow> payroll_run option" where
  "find_run w org i = find (\<lambda>r. pr_org r = org \<and> pr_id r = i \<and> pr_deleted r = None) (pw_runs w)"

definition fetch_run :: "service_caller \<Rightarrow> uuid \<Rightarrow> payroll_run py_step" where
  "fetch_run c i w = (case find_run w (sc_org c) i of None \<Rightarrow> py_not_found c ''payroll run'' w | Some r \<Rightarrow> (w, Inr r))"

definition is_final :: "string \<Rightarrow> bool" where
  "is_final status \<longleftrightarrow> status = ''approved'' \<or> status = ''paid''"

definition reject_immutable :: "service_caller \<Rightarrow> string \<Rightarrow> unit py_step" where
  "reject_immutable c status =
     (if is_final status then py_fail Conflict c ''approved or paid payroll runs are immutable'' else st_return (Inr ()))"

text \<open>The trigger on runs and the checks of the table.\<close>

definition run_update_allowed :: "payroll_run \<Rightarrow> payroll_run \<Rightarrow> bool" where
  "run_update_allowed old new \<longleftrightarrow>
     pr_status old \<noteq> ''paid'' \<and>
     (pr_status old = ''approved'' \<longrightarrow>
        pr_status new = ''paid'' \<and> pr_start new = pr_start old \<and> pr_end new = pr_end old \<and> pr_currency new = pr_currency old \<and>
        pr_gross new = pr_gross old \<and> pr_deductions new = pr_deductions old \<and> pr_net new = pr_net old \<and>
        pr_count new = pr_count old \<and> pr_adjusts new = pr_adjusts old)"

definition run_row_ok :: "payroll_run \<Rightarrow> bool" where
  "run_row_ok r \<longleftrightarrow>
     pr_status r \<in> {''draft'', ''calculated'', ''in_review'', ''approved'', ''paid''} \<and> pr_end r \<ge> pr_start r \<and>
     pr_gross r \<ge> 0 \<and> pr_deductions r \<ge> 0 \<and> pr_net r \<ge> 0 \<and> in_i32 (pr_version r)"

definition insert_run :: "payroll_env \<Rightarrow> service_caller \<Rightarrow> payroll_run \<Rightarrow> unit py_step" where
  "insert_run env c r w =
     (if list_ex (\<lambda>q. pr_id q = pr_id r \<or> pr_org q = pr_org r \<and> pr_public_id q = pr_public_id r) (pw_runs w) \<or> \<not> run_row_ok r \<or>
        (case pr_adjusts r of None \<Rightarrow> False | Some j \<Rightarrow> j \<noteq> pr_id r \<and> \<not> list_ex (\<lambda>q. pr_id q = j) (pw_runs w))
      then py_internal env c w else (w\<lparr>pw_runs := pw_runs w @ [r]\<rparr>, Inr ()))"

definition hit_run :: "service_caller \<Rightarrow> uuid \<Rightarrow> payroll_run \<Rightarrow> bool" where
  "hit_run c i r \<longleftrightarrow> pr_org r = sc_org c \<and> pr_id r = i"

definition stamped :: "service_caller \<Rightarrow> (payroll_run \<Rightarrow> payroll_run) \<Rightarrow> payroll_run \<Rightarrow> payroll_run" where
  "stamped c f r = (f r)\<lparr>pr_version := pr_version (f r) + 1, pr_updated := sc_now c\<rparr>"

definition update_run :: "payroll_env \<Rightarrow> service_caller \<Rightarrow> uuid \<Rightarrow> (payroll_run \<Rightarrow> payroll_run) \<Rightarrow> payroll_run py_step" where
  "update_run env c i f w =
     (case filter (hit_run c i) (pw_runs w) of
        [] \<Rightarrow> py_internal env c w
      | r # rs \<Rightarrow>
          if list_all (\<lambda>r. run_update_allowed r (stamped c f r) \<and> run_row_ok (stamped c f r)) (r # rs)
          then (w\<lparr>pw_runs := map (\<lambda>r. if hit_run c i r then stamped c f r else r) (pw_runs w)\<rparr>, Inr (stamped c f r))
          else py_internal env c w)"

definition insert_payslip :: "payroll_env \<Rightarrow> service_caller \<Rightarrow> payslip \<Rightarrow> unit py_step" where
  "insert_payslip env c s w =
     (if list_ex (\<lambda>q. sl_id q = sl_id s \<or> sl_org q = sl_org s \<and>
           (sl_public_id q = sl_public_id s \<or> sl_run q = sl_run s \<and> sl_employee q = sl_employee s)) (pw_slips w) \<or>
        sl_gross s < 0 \<or> sl_deductions s < 0 \<or> sl_net s < 0
      then py_internal env c w else (w\<lparr>pw_slips := pw_slips w @ [s]\<rparr>, Inr ()))"

text \<open>The trigger on lines: nothing changes under an approved or paid run.\<close>

definition lines_guarded :: "payroll_world \<Rightarrow> uuid \<Rightarrow> bool" where
  "lines_guarded w run = (case find (\<lambda>r. pr_id r = run) (pw_runs w) of None \<Rightarrow> False | Some r \<Rightarrow> is_final (pr_status r))"

definition insert_payslip_line :: "payroll_env \<Rightarrow> service_caller \<Rightarrow> payslip_line \<Rightarrow> unit py_step" where
  "insert_payslip_line env c l w =
     (if lines_guarded w (pl_run l) \<or> pl_kind l \<notin> {''earning'', ''deduction''} \<or>
        list_ex (\<lambda>q. pl_id q = pl_id l \<or> pl_org q = pl_org l \<and> pl_public_id q = pl_public_id l) (pw_lines w)
      then py_internal env c w else (w\<lparr>pw_lines := pw_lines w @ [l]\<rparr>, Inr ()))"

definition clear_run_payslips :: "payroll_env \<Rightarrow> service_caller \<Rightarrow> uuid \<Rightarrow> unit py_step" where
  "clear_run_payslips env c i w =
     (let line_hit = (\<lambda>l. pl_org l = sc_org c \<and> pl_run l = i);
          slip_hit = (\<lambda>s. sl_org s = sc_org c \<and> sl_run s = i);
          rest = filter (\<lambda>l. \<not> line_hit l) (pw_lines w) in
      if list_ex line_hit (pw_lines w) \<and> lines_guarded w i \<or>
        list_ex (\<lambda>s. slip_hit s \<and> list_ex (\<lambda>l. pl_payslip l = sl_id s) rest) (pw_slips w)
      then py_internal env c w
      else (w\<lparr>pw_lines := rest, pw_slips := filter (\<lambda>s. \<not> slip_hit s) (pw_slips w)\<rparr>, Inr ()))"

definition run_into_dto :: "payroll_env \<Rightarrow> payroll_run \<Rightarrow> run_dto" where
  "run_into_dto env r =
     \<lparr>rt_id = pr_public_id r, rt_status = pr_status r, rt_start = jv_show_date (pye_service env) (pr_start r),
      rt_end = jv_show_date (pye_service env) (pr_end r), rt_currency = pr_currency r,
      rt_adjusts = map_option (py_public env ''PayrollRun'') (pr_adjusts r), rt_approval = pr_approval r,
      rt_journal = pr_journal_public r, rt_count = pr_count r, rt_gross = pr_gross r, rt_deductions = pr_deductions r,
      rt_net = pr_net r, rt_calculated = map_option (py_show_time env) (pr_calculated r),
      rt_approved = map_option (py_show_time env) (pr_approved r), rt_paid = map_option (py_show_time env) (pr_paid r),
      rt_created = py_show_time env (pr_created r), rt_updated = py_show_time env (pr_updated r), rt_version = pr_version r\<rparr>"

abbreviation run_json :: "payroll_env \<Rightarrow> payroll_run \<Rightarrow> json" where
  "run_json env r \<equiv> pye_run_json env (run_into_dto env r)"

section \<open>Creating runs\<close>

record create_run_request =
  cr_start :: string
  cr_end :: string
  cr_currency :: string
  cr_adjusts :: "string option"

definition new_run ::
  "payroll_env \<Rightarrow> service_caller \<Rightarrow> uuid \<Rightarrow> date \<Rightarrow> date \<Rightarrow> string \<Rightarrow> uuid option \<Rightarrow> payroll_run" where
  "new_run env c i start e currency adjusts =
     \<lparr>pr_id = i, pr_org = sc_org c, pr_public_id = py_public env ''PayrollRun'' i, pr_status = ''draft'', pr_start = start,
      pr_end = e, pr_currency = currency, pr_adjusts = adjusts, pr_approval = None, pr_journal_public = None,
      pr_journal_entry = None, pr_count = 0, pr_gross = 0, pr_deductions = 0, pr_net = 0, pr_calculated = None,
      pr_approved = None, pr_paid = None, pr_created_by = user_id (sc_actor c), pr_owner = user_id (sc_actor c),
      pr_created = sc_now c, pr_updated = sc_now c, pr_deleted = None, pr_version = 1\<rparr>"

definition check_adjusted :: "service_caller \<Rightarrow> uuid option \<Rightarrow> unit py_step" where
  "check_adjusted c adjusts w =
     (case adjusts of
        None \<Rightarrow> (w, Inr ())
      | Some i \<Rightarrow>
          (case find_run w (sc_org c) i of
             None \<Rightarrow> py_not_found c ''original payroll run'' w
           | Some r \<Rightarrow>
               if \<not> is_final (pr_status r)
               then py_fail Conflict c ''adjustment_of_run_id must reference an approved or paid run'' w
               else (w, Inr ())))"

definition drafted_payload :: "run_dto \<Rightarrow> json" where
  "drafted_payload d = json_object
     [(''id'', JStr (rt_id d)), (''period_start'', JStr (rt_start d)), (''period_end'', JStr (rt_end d)),
      (''currency'', JStr (rt_currency d)), (''adjustment_of_run_id'', opt_json (rt_adjusts d))]"

definition create_run_tx ::
  "payroll_env \<Rightarrow> service_caller \<Rightarrow> date \<Rightarrow> date \<Rightarrow> currency \<Rightarrow> string option \<Rightarrow> run_dto py_step" where
  "create_run_tx env c start e cur adjusts =
     st_then (py_parse_optional env c ''PayrollRun'' adjusts) (\<lambda>orig.
     st_then (check_adjusted c orig) (\<lambda>_.
     st_then (py_uuid env) (\<lambda>i.
     st_then (insert_run env c (new_run env c i start e (currency_bytes cur) orig)) (\<lambda>_.
     st_then (fetch_run c i) (\<lambda>r.
     let d = run_into_dto env r in
     st_then (py_emit env c ''payroll_run'' ''drafted'' (drafted_payload d)) (\<lambda>_.
     st_then (py_audit env c ''hr.payroll.run.create'' ''payroll_run'' (rt_id d) (json_object
       [(''period_start'', JStr (rt_start d)), (''period_end'', JStr (rt_end d)), (''currency'', JStr (rt_currency d))])) (\<lambda>_.
     st_return (Inr d))))))))"

definition create_run :: "payroll_env \<Rightarrow> service_caller \<Rightarrow> create_run_request \<Rightarrow> run_dto py_step" where
  "create_run env c r =
     st_then (py_require env c hr_payroll_write) (\<lambda>_.
     st_then (py_parse_date env c (cr_start r)) (\<lambda>start.
     st_then (py_parse_date env c (cr_end r)) (\<lambda>e.
     if e < start then py_fail ValidationFailed c ''period_end must be on or after period_start''
     else case currency_new (cr_currency r) of
       Inl x \<Rightarrow> py_fail ValidationFailed c ''invalid currency''
     | Inr cur \<Rightarrow> py_tx (create_run_tx env c start e cur (cr_adjusts r)))))"

text \<open>The copy of an approved or paid run as a draft.\<close>

definition adjust_tx :: "payroll_env \<Rightarrow> service_caller \<Rightarrow> uuid \<Rightarrow> run_dto py_step" where
  "adjust_tx env c orig_id =
     st_then (fetch_run c orig_id) (\<lambda>orig.
     if \<not> is_final (pr_status orig) then py_fail Conflict c ''adjustment source run must be approved or paid''
     else
       st_then (py_uuid env) (\<lambda>i.
       st_then (insert_run env c (new_run env c i (pr_start orig) (pr_end orig) (pr_currency orig) (Some orig_id))) (\<lambda>_.
       st_then (fetch_run c i) (\<lambda>r.
       let d = run_into_dto env r in
       st_then (py_emit env c ''payroll_run'' ''drafted'' (json_object
         [(''id'', JStr (rt_id d)), (''adjustment_of_run_id'', JStr (py_public env ''PayrollRun'' orig_id))])) (\<lambda>_.
       st_then (py_audit env c ''hr.payroll.adjust'' ''payroll_run'' (rt_id d)
         (json_object [(''adjustment_of_run_id'', JStr (pr_public_id orig))])) (\<lambda>_.
       st_return (Inr d)))))))"

definition adjust_run :: "payroll_env \<Rightarrow> service_caller \<Rightarrow> string \<Rightarrow> run_dto py_step" where
  "adjust_run env c raw =
     st_then (py_parse_public_id env c ''PayrollRun'' raw) (\<lambda>i.
     st_then (py_require env c hr_payroll_write) (\<lambda>_. py_tx (adjust_tx env c i)))"

section \<open>Calculating\<close>

definition base_pay_of :: "payroll_world \<Rightarrow> uuid \<Rightarrow> uuid \<Rightarrow> date \<Rightarrow> base_pay option" where
  "base_pay_of w org employee d =
     (case sort_key (\<lambda>b. - bp_from b) (filter (\<lambda>b. bp_org b = org \<and> bp_employee b = employee \<and> bp_type b = ''base_salary'' \<and>
         bp_deleted b = None \<and> bp_from b \<le> d \<and> (case bp_to b of None \<Rightarrow> True | Some t \<Rightarrow> t \<ge> d)) (pw_pay w)) of
        [] \<Rightarrow> None
      | b # bs \<Rightarrow> Some b)"

fun insert_lines :: "payroll_env \<Rightarrow> service_caller \<Rightarrow> payroll_run \<Rightarrow> uuid \<Rightarrow> draft_line list \<Rightarrow> unit py_step" where
  "insert_lines env c run slip [] = st_return (Inr ())"
| "insert_lines env c run slip (l # ls) =
     st_then (py_uuid env) (\<lambda>i.
     st_then (insert_payslip_line env c
       \<lparr>pl_id = i, pl_org = sc_org c,
        pl_public_id = py_public env (if dl_kind l = ''earning'' then ''PayrollEarningLine'' else ''PayrollDeductionLine'') i,
        pl_payslip = slip, pl_run = pr_id run, pl_kind = dl_kind l, pl_code = dl_code l, pl_label = dl_label l,
        pl_amount = dl_amount l, pl_currency = pr_currency run, pl_basis = dl_basis l, pl_sort = dl_sort l\<rparr>) (\<lambda>_.
     insert_lines env c run slip ls))"

definition store_slip :: "payroll_env \<Rightarrow> service_caller \<Rightarrow> payroll_run \<Rightarrow> hr_employee \<Rightarrow> slip_sums \<Rightarrow> unit py_step" where
  "store_slip env c run emp sums =
     (case sums of (gross, deductions, ls) \<Rightarrow>
      st_then (py_uuid env) (\<lambda>i.
      st_then (insert_payslip env c
        \<lparr>sl_id = i, sl_org = sc_org c, sl_public_id = py_public env ''Payslip'' i, sl_run = pr_id run, sl_employee = em_id emp,
         sl_currency = pr_currency run, sl_gross = gross, sl_deductions = deductions, sl_net = wrap_i64 (gross - deductions),
         sl_status = ''draft'', sl_issued = None, sl_user = em_user emp, sl_owner = em_owner emp, sl_created = sc_now c,
         sl_updated = sc_now c, sl_deleted = None, sl_version = 1\<rparr>) (\<lambda>_.
      insert_lines env c run i ls)))"

text \<open>Employee count, gross, deductions and net of the run so far.\<close>

type_synonym run_sums = "int \<times> int \<times> int \<times> int"

definition add_slip :: "run_sums \<Rightarrow> int \<Rightarrow> int \<Rightarrow> run_sums" where
  "add_slip acc gross deductions =
     (case acc of (n, g, d, net) \<Rightarrow>
        (wrap_i32 (n + 1), wrap_i64 (g + gross), wrap_i64 (d + deductions), wrap_i64 (net + wrap_i64 (gross - deductions))))"

definition calc_employee ::
  "payroll_env \<Rightarrow> service_caller \<Rightarrow> payroll_run \<Rightarrow> payroll_component list \<Rightarrow> int \<Rightarrow> run_sums \<Rightarrow> hr_employee \<Rightarrow> run_sums py_step" where
  "calc_employee env c run ps working_days acc emp w =
     (case base_pay_of w (sc_org c) (em_id emp) (pr_end run) of
        None \<Rightarrow> (w, Inr acc)
      | Some b \<Rightarrow>
          if bp_currency b \<noteq> pr_currency run then (w, Inr acc)
          else case pye_decrypt env (bp_cipher b) of
            Inl e \<Rightarrow> py_fail Internal c (''field encryption error: '' @ e) w
          | Inr salary \<Rightarrow>
              st_then (py_audit env c ''hr.payroll.calc_read_compensation'' ''employee'' (em_public_id emp)
                (json_object [(''run_id'', JStr (pr_public_id run))])) (\<lambda>_ w.
              let sums = slip_of ps salary
                    (unpaid_leave_milli w (sc_org c) (em_id emp) (pr_start run) (pr_end run)) working_days
                    (sum_attendance_hours_milli w (sc_org c) (em_id emp) (pr_start run) (pr_end run)) in
              if fst sums = 0 \<and> fst (snd sums) = 0 then (w, Inr acc)
              else st_then (store_slip env c run emp sums) (\<lambda>_.
                st_return (Inr (add_slip acc (fst sums) (fst (snd sums))))) w) w)"

fun calc_all ::
  "payroll_env \<Rightarrow> service_caller \<Rightarrow> payroll_run \<Rightarrow> payroll_component list \<Rightarrow> int \<Rightarrow> hr_employee list \<Rightarrow> run_sums \<Rightarrow> run_sums py_step" where
  "calc_all env c run ps working_days [] acc = st_return (Inr acc)"
| "calc_all env c run ps working_days (e # es) acc =
     st_then (calc_employee env c run ps working_days acc e) (calc_all env c run ps working_days es)"

definition payable_employees :: "service_caller \<Rightarrow> payroll_world \<Rightarrow> hr_employee list" where
  "payable_employees c w =
     filter (\<lambda>e. em_org e = sc_org c \<and> em_deleted e = None \<and> em_status e \<in> {''active'', ''on_leave''}) (pw_employees w)"

definition working_days_of :: "payroll_env \<Rightarrow> service_caller \<Rightarrow> payroll_run \<Rightarrow> int py_step" where
  "working_days_of env c run =
     (case count_weekdays env (pr_start run) (pr_end run) of
        None \<Rightarrow> st_return (Inl PyPanic)
      | Some n \<Rightarrow> if n = 0 then py_fail ValidationFailed c ''pay period has no working days'' else st_return (Inr n))"

definition mutable_run_statuses :: "string list" where
  "mutable_run_statuses = [''draft'', ''calculated'']"

definition calc_sums :: "payroll_env \<Rightarrow> service_caller \<Rightarrow> payroll_run \<Rightarrow> run_sums py_step" where
  "calc_sums env c run =
     st_then (if pr_status run = ''calculated'' then clear_run_payslips env c (pr_id run) else st_return (Inr ())) (\<lambda>_.
     st_then (ensure_default_components env c) (\<lambda>_ w.
     st_then (working_days_of env c run) (\<lambda>days.
     calc_all env c run (active_components env c w) days (payable_employees c w) (0, 0, 0, 0)) w))"

definition calculated :: "service_caller \<Rightarrow> run_sums \<Rightarrow> payroll_run \<Rightarrow> payroll_run" where
  "calculated c acc r = (case acc of (n, gross, deductions, net) \<Rightarrow>
     r\<lparr>pr_status := ''calculated'', pr_calculated := Some (sc_now c), pr_count := n, pr_gross := gross,
       pr_deductions := deductions, pr_net := net\<rparr>)"

definition calculate_with :: "payroll_env \<Rightarrow> service_caller \<Rightarrow> payroll_run \<Rightarrow> (int \<times> json) py_step" where
  "calculate_with env c run =
     (if is_final (pr_status run) then py_fail Conflict c ''approved or paid payroll runs cannot be recalculated''
      else if pr_status run \<notin> set mutable_run_statuses
      then py_fail Conflict c (''payroll run status '' @ pr_status run @ '' cannot be calculated'')
      else
        st_then (calc_sums env c run) (\<lambda>acc.
        st_then (update_run env c (pr_id run) (calculated c acc)) (\<lambda>r.
        st_then (py_emit env c ''payroll_run'' ''calculated'' (json_object
          [(''id'', JStr (pr_public_id r)), (''employee_count'', JInt (pr_count r)), (''status'', JStr (pr_status r))])) (\<lambda>_.
        st_then (py_audit env c ''hr.payroll.calculate'' ''payroll_run'' (pr_public_id r)
          (json_object [(''employee_count'', JInt (fst acc))])) (\<lambda>_.
        st_then (py_idem_put env c ''payroll.calculate'' (run_json env r)) (\<lambda>_.
        st_return (Inr (200, run_json env r))))))))"

definition calculate_run :: "payroll_env \<Rightarrow> service_caller \<Rightarrow> string \<Rightarrow> (int \<times> json) py_step" where
  "calculate_run env c raw =
     st_then (py_parse_public_id env c ''PayrollRun'' raw) (\<lambda>i.
     st_then (py_require env c hr_payroll_run) (\<lambda>_.
     py_tx (py_cached c ''payroll.calculate'' (st_then (fetch_run c i) (calculate_with env c)))))"

section \<open>Review and approval\<close>

text \<open>The request to the approval service; whatever goes wrong with it counts as no answer.\<close>

definition approval_request :: "payroll_env \<Rightarrow> service_caller \<Rightarrow> payroll_run \<Rightarrow> outgoing_request" where
  "approval_request env c run =
     \<lparr>og_url = trim_slashes (pye_base_url env ''PROJECT_SERVICE_URL'') @ ''/api/v1/operations/approvals'',
      og_json = json_object
        [(''subject_type'', JStr ''payroll_run''), (''subject_id'', JStr (pr_public_id run)),
         (''title'', JStr (''Payroll: '' @ jv_show_date (pye_service env) (pr_start run) @ '' '' @ map char_of [226::nat, 134, 146] @ '' '' @
            jv_show_date (pye_service env) (pr_end run))),
         (''summary'', JStr (show_int (pr_count run) @ '' employees'')), (''category'', JStr ''payroll'')],
      og_headers = [(''x-companyos-dev-org-id'', py_public env ''Org'' (sc_org c)),
        (''x-companyos-dev-user-id'', py_public env ''User'' (user_id (sc_actor c)))]\<rparr>"

definition request_payroll_approval :: "payroll_env \<Rightarrow> service_caller \<Rightarrow> payroll_run \<Rightarrow> string option py_step" where
  "request_payroll_approval env c run w =
     (let q = approval_request env c run in (w\<lparr>pw_http := pw_http w @ [q]\<rparr>, Inr (pye_approval_answer env q)))"

definition submit_with :: "payroll_env \<Rightarrow> service_caller \<Rightarrow> payroll_run \<Rightarrow> run_dto py_step" where
  "submit_with env c run =
     st_then (reject_immutable c (pr_status run)) (\<lambda>_.
     if pr_status run \<noteq> ''calculated''
     then py_fail Conflict c (''payroll run status '' @ pr_status run @ '' is not calculated'')
     else
       st_then (request_payroll_approval env c run) (\<lambda>approval_id.
       st_then (update_run env c (pr_id run) (\<lambda>r. r\<lparr>pr_status := ''in_review'', pr_approval := approval_id\<rparr>)) (\<lambda>r.
       st_then (py_audit env c ''hr.payroll.submit'' ''payroll_run'' (pr_public_id r)
         (json_object [(''approval_id'', opt_json (pr_approval r))])) (\<lambda>_.
       st_return (Inr (run_into_dto env r))))))"

definition submit_run :: "payroll_env \<Rightarrow> service_caller \<Rightarrow> string \<Rightarrow> run_dto py_step" where
  "submit_run env c raw =
     st_then (py_parse_public_id env c ''PayrollRun'' raw) (\<lambda>i.
     st_then (py_require env c hr_payroll_write) (\<lambda>_.
     py_tx (st_then (fetch_run c i) (submit_with env c))))"

definition do_approve_run :: "payroll_env \<Rightarrow> service_caller \<Rightarrow> uuid \<Rightarrow> payroll_run py_step" where
  "do_approve_run env c i =
     st_then (update_run env c i (\<lambda>r. r\<lparr>pr_status := ''approved'', pr_approved := Some (sc_now c)\<rparr>)) (\<lambda>r.
     st_then (py_emit env c ''payroll_run'' ''approved'' (json_object [(''id'', JStr (pr_public_id r))])) (\<lambda>_.
     st_then (py_audit env c ''hr.payroll.approve'' ''payroll_run'' (pr_public_id r) (json_object [])) (\<lambda>_.
     st_return (Inr r))))"

definition approvable :: "string \<Rightarrow> bool" where
  "approvable status \<longleftrightarrow> status = ''in_review'' \<or> status = ''calculated''"

definition approve_with :: "payroll_env \<Rightarrow> service_caller \<Rightarrow> payroll_run \<Rightarrow> (int \<times> json) py_step" where
  "approve_with env c run =
     (if is_final (pr_status run) then st_return (Inr (200, run_json env run))
      else if \<not> approvable (pr_status run)
      then py_fail Conflict c (''payroll run status '' @ pr_status run @ '' cannot be approved'')
      else
        st_then (do_approve_run env c (pr_id run)) (\<lambda>r.
        st_then (py_idem_put env c ''payroll.approve'' (run_json env r)) (\<lambda>_.
        st_return (Inr (200, run_json env r)))))"

definition approve_run :: "payroll_env \<Rightarrow> service_caller \<Rightarrow> string \<Rightarrow> (int \<times> json) py_step" where
  "approve_run env c raw =
     st_then (py_parse_public_id env c ''PayrollRun'' raw) (\<lambda>i.
     st_then (py_require env c hr_payroll_approve) (\<lambda>_.
     py_tx (py_cached c ''payroll.approve'' (st_then (fetch_run c i) (approve_with env c)))))"

definition decide_with :: "payroll_env \<Rightarrow> service_caller \<Rightarrow> bool \<Rightarrow> payroll_run \<Rightarrow> run_dto py_step" where
  "decide_with env c approve run =
     (if is_final (pr_status run) then st_return (Inr (run_into_dto env run))
      else if \<not> approvable (pr_status run)
      then py_fail Conflict c (''payroll run status '' @ pr_status run @ '' cannot be decided'')
      else
        st_then (if approve then do_approve_run env c (pr_id run)
          else update_run env c (pr_id run) (\<lambda>r. r\<lparr>pr_status := ''calculated''\<rparr>)) (\<lambda>r.
        st_return (Inr (run_into_dto env r))))"

definition decide_run :: "payroll_env \<Rightarrow> service_caller \<Rightarrow> string \<Rightarrow> bool \<Rightarrow> run_dto py_step" where
  "decide_run env c raw approve =
     st_then (py_parse_public_id env c ''PayrollRun'' raw) (\<lambda>i.
     st_then (py_require env c hr_payroll_approve) (\<lambda>_.
     py_tx (st_then (fetch_run c i) (decide_with env c approve))))"

section \<open>Paying\<close>

definition payroll_lines :: "payroll_run \<Rightarrow> ledger_line list" where
  "payroll_lines run =
     (if pr_gross run > 0 then [line_debit WAGES_EXPENSE (pr_gross run) (Some ''Wages'')] else []) @
     (if pr_deductions run > 0 then [line_credit PAYROLL_DEDUCTIONS (pr_deductions run) (Some ''Deductions'')] else []) @
     (if pr_net run > 0 then [line_credit NET_PAY_CLEARING (pr_net run) (Some ''Net pay'')] else [])"

definition journal_request :: "payroll_env \<Rightarrow> payroll_run \<Rightarrow> post_request" where
  "journal_request env run =
     \<lparr>pq_source_type = ''payroll'', pq_source_id = re_show_uuid (py_relay env) (pr_id run), pq_currency = pr_currency run,
      pq_memo = Some (''Payroll '' @ jv_show_date (pye_service env) (pr_start run) @ '' '' @ em_dash @ '' '' @
        jv_show_date (pye_service env) (pr_end run)),
      pq_lines = payroll_lines run, pq_entry_date = None, pq_reverses_of = None\<rparr>"

definition finance_headers :: "payroll_env \<Rightarrow> service_caller \<Rightarrow> (string \<times> string) list" where
  "finance_headers env c =
     [(''x-companyos-dev-org-id'', py_public env ''Org'' (sc_org c)),
      (''x-companyos-dev-user-id'', py_public env ''User'' (user_id (sc_actor c))),
      (''x-companyos-on-behalf-of'', py_public env ''User'' (on_behalf_of (sc_actor c)))] @
     (case sc_key c of None \<Rightarrow> [] | Some k \<Rightarrow> [(''idempotency-key'', k)])"

text \<open>
  The request over the network: it may not arrive, and after it has been served its answer may get
  lost. The finance service commits by itself.
\<close>

datatype delivery = Delivered | Unreachable | AnswerLost

definition post_payroll_journal :: "payroll_env \<Rightarrow> service_caller \<Rightarrow> delivery \<Rightarrow> payroll_run \<Rightarrow> (string \<times> uuid option) py_step" where
  "post_payroll_journal env c d run w =
     (let lost = py_fail Internal c (''finance journal request failed: '' @ pye_transport_error env) in
      if d = Unreachable then lost w
      else case post_without_bearer (pye_service env) (pye_local_auth env) (sc_now c) (sc_today c) (finance_headers env c)
          (journal_request env run) (pw_finance w) of
        (fw, r) \<Rightarrow>
          (let w = w\<lparr>pw_finance := fw\<rparr> in
           if d = AnswerLost then lost w
           else case r of
             Inl e \<Rightarrow> py_fail Internal c (''finance journal post failed: '' @ pye_show_failure env e) w
           | Inr (status, dto) \<Rightarrow>
               (w, Inr (jt_id dto, Option.bind (strip_prefix ''jrn_'' (jt_id dto)) (\<lambda>s.
                 case jv_parse_uuid (pye_service env) s of Inl e \<Rightarrow> None | Inr u \<Rightarrow> Some u)))))"

definition employee_of :: "payroll_world \<Rightarrow> payslip \<Rightarrow> hr_employee option" where
  "employee_of w s = find (\<lambda>e. em_id e = sl_employee s \<and> em_org e = sl_org s) (pw_employees w)"

definition run_of :: "payroll_world \<Rightarrow> payslip \<Rightarrow> payroll_run option" where
  "run_of w s = find (\<lambda>r. pr_id r = sl_run s \<and> pr_org r = sl_org s) (pw_runs w)"

text \<open>The payslips of a query, joined with their run and employee.\<close>

definition joined_slips :: "payroll_world \<Rightarrow> (payslip \<Rightarrow> bool) \<Rightarrow> (payslip \<times> payroll_run \<times> hr_employee) list" where
  "joined_slips w sel =
     List.map_filter (\<lambda>s. Option.bind (run_of w s) (\<lambda>r. map_option (\<lambda>e. (s, r, e)) (employee_of w s)))
       (filter (\<lambda>s. sl_deleted s = None \<and> sel s) (pw_slips w))"

definition slips_of_run :: "service_caller \<Rightarrow> uuid \<Rightarrow> payslip \<Rightarrow> bool" where
  "slips_of_run c i s \<longleftrightarrow> sl_org s = sc_org c \<and> sl_run s = i"

definition issue_slip :: "payroll_env \<Rightarrow> service_caller \<Rightarrow> uuid \<Rightarrow> unit py_step" where
  "issue_slip env c i w =
     (let hit = (\<lambda>s. sl_org s = sc_org c \<and> sl_id s = i) in
      if list_ex (\<lambda>s. hit s \<and> \<not> in_i32 (sl_version s + 1)) (pw_slips w) then py_internal env c w
      else (w\<lparr>pw_slips := map (\<lambda>s. if hit s then s\<lparr>sl_status := ''issued'', sl_issued := Some (sc_now c),
         sl_version := sl_version s + 1, sl_updated := sc_now c\<rparr> else s) (pw_slips w)\<rparr>, Inr ()))"

fun issue_all :: "payroll_env \<Rightarrow> service_caller \<Rightarrow> (payslip \<times> payroll_run \<times> hr_employee) list \<Rightarrow> unit py_step" where
  "issue_all env c [] = st_return (Inr ())"
| "issue_all env c ((s, r, e) # xs) =
     st_then (issue_slip env c (sl_id s)) (\<lambda>_.
     st_then (py_emit env c ''payslip'' ''issued'' (json_object
       [(''id'', JStr (sl_public_id s)), (''run_id'', JStr (pr_public_id r)), (''employee_id'', JStr (em_public_id e))])) (\<lambda>_.
     issue_all env c xs))"

definition pay_with :: "payroll_env \<Rightarrow> service_caller \<Rightarrow> delivery \<Rightarrow> payroll_run \<Rightarrow> (int \<times> json) py_step" where
  "pay_with env c d run =
     (if pr_status run = ''paid'' then st_return (Inr (200, run_json env run))
      else if pr_status run \<noteq> ''approved''
      then py_fail Conflict c (''payroll run status '' @ pr_status run @ '' is not approved'')
      else
        st_then (post_payroll_journal env c d run) (\<lambda>(journal, entry).
        st_then (update_run env c (pr_id run) (\<lambda>r. r\<lparr>pr_status := ''paid'', pr_paid := Some (sc_now c),
          pr_journal_public := Some journal, pr_journal_entry := entry\<rparr>)) (\<lambda>r w.
        let slips = joined_slips w (slips_of_run c (pr_id run)) in
        st_then (issue_all env c slips) (\<lambda>_.
        st_then (py_emit env c ''payroll_run'' ''paid'' (json_object
          [(''id'', JStr (pr_public_id r)), (''journal_public_id'', opt_json (pr_journal_public r))])) (\<lambda>_.
        st_then (py_audit env c ''hr.payroll.pay'' ''payroll_run'' (pr_public_id r) (json_object
          [(''journal_public_id'', opt_json (pr_journal_public r)), (''payslip_count'', JInt (int (length slips)))])) (\<lambda>_.
        st_then (py_idem_put env c ''payroll.pay'' (run_json env r)) (\<lambda>_.
        st_return (Inr (200, run_json env r)))))) w)))"

definition pay_run :: "payroll_env \<Rightarrow> service_caller \<Rightarrow> delivery \<Rightarrow> string \<Rightarrow> (int \<times> json) py_step" where
  "pay_run env c d raw =
     st_then (py_parse_public_id env c ''PayrollRun'' raw) (\<lambda>i.
     st_then (py_require env c hr_payroll_run) (\<lambda>_.
     py_tx (py_cached c ''payroll.pay'' (st_then (fetch_run c i) (pay_with env c d)))))"

section \<open>Reading\<close>

definition hr_paging :: "int option \<Rightarrow> int option \<Rightarrow> int \<times> int" where
  "hr_paging limit offset =
     (max 1 (min 200 (case limit of Some n \<Rightarrow> n | None \<Rightarrow> 50)), max 0 (case offset of Some n \<Rightarrow> n | None \<Rightarrow> 0))"

definition list_runs ::
  "payroll_env \<Rightarrow> service_caller \<Rightarrow> string option \<Rightarrow> int option \<Rightarrow> int option \<Rightarrow> (run_dto list \<times> nat) py_step" where
  "list_runs env c status limit offset =
     (let (limit, offset) = hr_paging limit offset in
      st_then (py_require env c hr_payroll_read) (\<lambda>_. py_tx (\<lambda>w.
      let hits = filter (\<lambda>r. pr_org r = sc_org c \<and> pr_deleted r = None \<and>
            (case status of None \<Rightarrow> True | Some s \<Rightarrow> pr_status r = s)) (pw_runs w);
          rows = take (nat limit) (drop (nat offset) (sort_by (\<lambda>a b. pr_start a > pr_start b \<or>
            pr_start a = pr_start b \<and> pr_created a \<ge> pr_created b) hits)) in
      st_then (py_audit env c ''hr.payroll.read'' ''payroll_run'' ''list'' (json_object [(''count'', JInt (int (length rows)))])) (\<lambda>_.
      st_return (Inr (map (run_into_dto env) rows, length hits))) w)))"

definition get_run :: "payroll_env \<Rightarrow> service_caller \<Rightarrow> string \<Rightarrow> run_dto py_step" where
  "get_run env c raw =
     st_then (py_parse_public_id env c ''PayrollRun'' raw) (\<lambda>i.
     st_then (py_require env c hr_payroll_read) (\<lambda>_. py_tx (
     st_then (fetch_run c i) (\<lambda>r.
     st_then (py_audit env c ''hr.payroll.read'' ''payroll_run'' (pr_public_id r) (json_object [])) (\<lambda>_.
     st_return (Inr (run_into_dto env r)))))))"

definition load_payslip_lines :: "payroll_env \<Rightarrow> payroll_world \<Rightarrow> uuid \<Rightarrow> uuid \<Rightarrow> payslip_line_dto list" where
  "load_payslip_lines env w org slip =
     map (\<lambda>l. \<lparr>yt_id = pl_public_id l, yt_kind = pl_kind l, yt_code = pl_code l, yt_label = pl_label l, yt_amount = pl_amount l,
       yt_currency = pl_currency l, yt_basis = pl_basis l, yt_sort = pl_sort l\<rparr>)
       (sort_by (\<lambda>a b. pl_sort a < pl_sort b \<or> pl_sort a = pl_sort b \<and> pye_collate env (pl_code a) (pl_code b))
         (filter (\<lambda>l. pl_org l = org \<and> pl_payslip l = slip) (pw_lines w)))"

definition load_payslip_dto :: "payroll_env \<Rightarrow> service_caller \<Rightarrow> uuid \<Rightarrow> bool \<Rightarrow> payslip_dto py_step" where
  "load_payslip_dto env c i with_lines w =
     (case joined_slips w (\<lambda>s. sl_org s = sc_org c \<and> sl_id s = i) of
        [] \<Rightarrow> py_not_found c ''payslip'' w
      | (s, r, e) # xs \<Rightarrow>
          (w, Inr \<lparr>zt_id = sl_public_id s, zt_run = pr_public_id r, zt_employee = em_public_id e, zt_currency = sl_currency s,
             zt_gross = sl_gross s, zt_deductions = sl_deductions s, zt_net = sl_net s, zt_status = sl_status s,
             zt_issued = map_option (py_show_time env) (sl_issued s),
             zt_lines = (if with_lines then load_payslip_lines env w (sc_org c) i else []),
             zt_created = py_show_time env (sl_created s), zt_version = sl_version s\<rparr>))"

fun load_all :: "payroll_env \<Rightarrow> service_caller \<Rightarrow> bool \<Rightarrow> uuid list \<Rightarrow> payslip_dto list py_step" where
  "load_all env c with_lines [] = st_return (Inr [])"
| "load_all env c with_lines (i # is) =
     st_then (load_payslip_dto env c i with_lines) (\<lambda>d.
     st_then (load_all env c with_lines is) (\<lambda>ds. st_return (Inr (d # ds))))"

definition by_name :: "payroll_env \<Rightarrow> (payslip \<times> payroll_run \<times> hr_employee) list \<Rightarrow> (payslip \<times> payroll_run \<times> hr_employee) list" where
  "by_name env = sort_by (\<lambda>(s, r, e) (s', r', e'). pye_collate env (em_name e) (em_name e'))"

definition list_run_payslips :: "payroll_env \<Rightarrow> service_caller \<Rightarrow> string \<Rightarrow> payslip_dto list py_step" where
  "list_run_payslips env c raw =
     st_then (py_parse_public_id env c ''PayrollRun'' raw) (\<lambda>i.
     st_then (py_require env c hr_payroll_read) (\<lambda>_. py_tx (
     st_then (fetch_run c i) (\<lambda>_ w.
     st_then (load_all env c True (map (\<lambda>(s, r, e). sl_id s) (by_name env (joined_slips w (slips_of_run c i))))) (\<lambda>ds.
     st_then (py_audit env c ''hr.payroll.read'' ''payroll_run'' raw (json_object
       [(''payslip_count'', JInt (int (length ds))), (''resource'', JStr ''payslips'')])) (\<lambda>_.
     st_return (Inr ds))) w))))"

definition csv_row :: "payslip \<times> payroll_run \<times> hr_employee \<Rightarrow> string" where
  "csv_row x =
     (case x of (s, r, e) \<Rightarrow>
        sl_public_id s @ '','' @ em_public_id e @ '','' @ [CHR 0x22] @ str_replace [CHR 0x22] [CHR 0x22, CHR 0x22] (em_name e) @
        [CHR 0x22] @ '','' @ show_int (sl_net s) @ '','' @ sl_currency s @ [CHR 0x0A])"

text \<open>The query of the export does not join the run; every payslip has one.\<close>

definition export_run :: "payroll_env \<Rightarrow> service_caller \<Rightarrow> string \<Rightarrow> string py_step" where
  "export_run env c raw =
     st_then (py_parse_public_id env c ''PayrollRun'' raw) (\<lambda>i.
     st_then (py_require env c hr_payroll_read) (\<lambda>_. py_tx (
     st_then (fetch_run c i) (\<lambda>run w.
     let rows = by_name env (joined_slips w (slips_of_run c i)) in
     st_then (py_audit env c ''hr.payroll.read'' ''payroll_run'' (pr_public_id run) (json_object
       [(''export'', JStr ''ach_csv''), (''row_count'', JInt (int (length rows)))])) (\<lambda>_.
     st_return (Inr (''payslip_id,employee_id,employee_name,net_minor,currency'' @ [CHR 0x0A] @ concat (map csv_row rows)))) w))))"

definition get_payslip :: "payroll_env \<Rightarrow> service_caller \<Rightarrow> string \<Rightarrow> payslip_dto py_step" where
  "get_payslip env c raw =
     st_then (py_parse_public_id env c ''Payslip'' raw) (\<lambda>i.
     st_then (py_require env c hr_payroll_read) (\<lambda>_. py_tx (
     st_then (load_payslip_dto env c i True) (\<lambda>d.
     st_then (py_audit env c ''hr.payslip.read'' ''payslip'' (zt_id d) (json_object [])) (\<lambda>_.
     st_return (Inr d))))))"

section \<open>Self-service\<close>

definition fetch_employee_by_user :: "payroll_world \<Rightarrow> uuid \<Rightarrow> uuid \<Rightarrow> hr_employee option" where
  "fetch_employee_by_user w org user =
     (case sort_key (\<lambda>e. - em_created e) (filter (\<lambda>e. em_org e = org \<and> em_user e = Some user \<and> em_deleted e = None) (pw_employees w)) of
        [] \<Rightarrow> None
      | e # es \<Rightarrow> Some e)"

fun load_own :: "payroll_env \<Rightarrow> service_caller \<Rightarrow> payslip list \<Rightarrow> payslip_dto list py_step" where
  "load_own env c [] = st_return (Inr [])"
| "load_own env c (s # ss) =
     st_then (load_payslip_dto env c (sl_id s) True) (\<lambda>d.
     st_then (py_audit env c ''hr.payslip.read'' ''payslip'' (sl_public_id s) (json_object [(''self_service'', JBool True)])) (\<lambda>_.
     st_then (load_own env c ss) (\<lambda>ds. st_return (Inr (d # ds)))))"

definition list_my_payslips :: "payroll_env \<Rightarrow> service_caller \<Rightarrow> payslip_dto list py_step" where
  "list_my_payslips env c =
     st_then (py_member c) (\<lambda>_. py_tx (\<lambda>w.
     case fetch_employee_by_user w (sc_org c) (user_id (sc_actor c)) of
       None \<Rightarrow> py_not_found c ''employee profile'' w
     | Some emp \<Rightarrow>
         load_own env c (sort_key (\<lambda>s. - sl_created s) (map (\<lambda>(s, r, e). s)
           (joined_slips w (\<lambda>s. sl_org s = sc_org c \<and> sl_employee s = em_id emp)))) w))"

definition own_payslip :: "service_caller \<Rightarrow> uuid \<Rightarrow> unit py_step" where
  "own_payslip c i w =
     (let me = user_id (sc_actor c); live = (\<lambda>s. sl_org s = sc_org c \<and> sl_id s = i \<and> sl_deleted s = None) in
      if list_ex (\<lambda>s. live s \<and> sl_user s = Some me) (pw_slips w) then (w, Inr ())
      else case fetch_employee_by_user w (sc_org c) me of
        None \<Rightarrow> py_not_found c ''payslip'' w
      | Some emp \<Rightarrow>
          if list_ex (\<lambda>s. live s \<and> sl_employee s = em_id emp) (pw_slips w) then (w, Inr ())
          else py_fail Forbidden c ''payslip belongs to another employee'' w)"

definition get_my_payslip :: "payroll_env \<Rightarrow> service_caller \<Rightarrow> string \<Rightarrow> payslip_dto py_step" where
  "get_my_payslip env c raw =
     st_then (py_parse_public_id env c ''Payslip'' raw) (\<lambda>i.
     st_then (py_member c) (\<lambda>_. py_tx (
     st_then (own_payslip c i) (\<lambda>_.
     st_then (load_payslip_dto env c i True) (\<lambda>d.
     st_then (py_audit env c ''hr.payslip.read'' ''payslip'' (zt_id d) (json_object [(''self_service'', JBool True)])) (\<lambda>_.
     st_return (Inr d)))))))"

section \<open>Calls of the service\<close>

text \<open>
  A call is served as a whole, or the part after the read works on a row it has seen earlier: any row
  with the organisation of the caller. Other handlers of the service change the other tables.
\<close>

inductive payroll_call :: "payroll_env \<Rightarrow> payroll_world \<Rightarrow> payroll_world \<Rightarrow> bool" for env where
  component: "payroll_call env w (fst (create_component env c q w))"
| components: "payroll_call env w (fst (list_components env c w))"
| create: "payroll_call env w (fst (create_run env c r w))"
| adjust: "payroll_call env w (fst (adjust_run env c raw w))"
| calculate: "payroll_call env w (fst (calculate_run env c raw w))"
| submit: "payroll_call env w (fst (submit_run env c raw w))"
| approve: "payroll_call env w (fst (approve_run env c raw w))"
| decision: "payroll_call env w (fst (decide_run env c raw yes w))"
| pay: "payroll_call env w (fst (pay_run env c d raw w))"
| runs: "payroll_call env w (fst (list_runs env c status limit offset w))"
| get: "payroll_call env w (fst (get_run env c raw w))"
| slips: "payroll_call env w (fst (list_run_payslips env c raw w))"
| export: "payroll_call env w (fst (export_run env c raw w))"
| slip: "payroll_call env w (fst (get_payslip env c raw w))"
| mine: "payroll_call env w (fst (list_my_payslips env c w))"
| my_slip: "payroll_call env w (fst (get_my_payslip env c raw w))"
| others: "pw_runs w' = pw_runs w \<Longrightarrow> pw_slips w' = pw_slips w \<Longrightarrow> pw_lines w' = pw_lines w \<Longrightarrow> payroll_call env w w'"

inductive payroll_race :: "payroll_env \<Rightarrow> payroll_world \<Rightarrow> payroll_world \<Rightarrow> bool" for env where
  whole: "payroll_call env w w' \<Longrightarrow> payroll_race env w w'"
| stale_calculate: "payroll_race env w (fst (py_tx (calculate_with env c seen) w))"
| stale_submit: "payroll_race env w (fst (py_tx (submit_with env c seen) w))"
| stale_approve: "payroll_race env w (fst (py_tx (approve_with env c seen) w))"
| stale_decision: "payroll_race env w (fst (py_tx (decide_with env c yes seen) w))"
| stale_pay: "payroll_race env w (fst (py_tx (pay_with env c d seen) w))"

section \<open>Relations through the handlers\<close>

text \<open>
  A relation on worlds that only looks at the runs, payslips and lines holds across every step that
  leaves them alone, and a rolled back transaction is such a step.
\<close>

abbreviation same_payroll :: "payroll_world \<Rightarrow> payroll_world \<Rightarrow> bool" where
  "same_payroll w w' \<equiv> pw_runs w' = pw_runs w \<and> pw_slips w' = pw_slips w \<and> pw_lines w' = pw_lines w"

locale payroll_relation =
  fixes R :: "payroll_world \<Rightarrow> payroll_world \<Rightarrow> bool"
  assumes R_trans: "R w w' \<Longrightarrow> R w' w'' \<Longrightarrow> R w w''"
    and R_frame: "same_payroll w w' \<Longrightarrow> R w w'"
begin

lemma R_refl: "R w w"
  by (rule R_frame) simp

lemma R_then: "R w (fst (m w)) \<Longrightarrow> (\<And>x v. R v (fst (f x v))) \<Longrightarrow> R w (fst (st_then m f w))"
  by (auto simp: st_then_def split: prod.split sum.split intro: R_trans)

lemma R_then_Inr:
  "R w (fst (m w)) \<Longrightarrow> (\<And>x v. m w = (v, Inr x) \<Longrightarrow> R v (fst (f x v))) \<Longrightarrow> R w (fst (st_then m f w))"
  by (auto simp: st_then_def split: prod.split sum.split intro: R_trans)

lemma R_return: "R w (fst (st_return r w))"
  by (simp add: st_return_def R_refl)

lemma R_fail: "R w (fst (py_fail code c detail w))" "R w (fst (py_internal env c w))" "R w (fst (py_not_found c what w))"
  by (simp_all add: py_fail_def py_internal_def py_not_found_def R_return)

lemma R_tx: "(\<And>v x. m w = (v, Inr x) \<Longrightarrow> R w v) \<Longrightarrow> R w (fst (py_tx m w))"
  by (auto simp: py_tx_def split: prod.split sum.split intro: R_frame)

lemma R_tx_all: "R w (fst (m w)) \<Longrightarrow> R w (fst (py_tx m w))"
  by (rule R_tx) (metis fst_conv)

lemma R_uuid: "R w (fst (py_uuid env w))"
  by (simp add: py_uuid_def R_frame)

lemma R_parse:
  "R w (fst (py_parse_public_id env c kind raw w))" "R w (fst (py_parse_optional env c kind x w))"
  "R w (fst (py_parse_date env c raw w))"
proof -
  show parse: "R w (fst (py_parse_public_id env c kind raw w))" for raw
    by (auto simp: py_parse_public_id_def split: sum.split intro: R_fail R_return)
  show "R w (fst (py_parse_optional env c kind x w))"
    by (auto simp: py_parse_optional_def split: option.split intro!: R_return R_then parse)
  show "R w (fst (py_parse_date env c raw w))"
    by (auto simp: py_parse_date_def split: option.split intro: R_fail R_return)
qed

lemma R_require: "R w (fst (py_member c w))" "R w (fst (py_require env c perm w))"
proof -
  show "R w (fst (py_member c w))" for w by (simp add: py_member_def R_refl)
  then show "R w (fst (py_require env c perm w))" unfolding py_require_def by (intro R_then R_return)
qed

lemma R_audit: "R w (fst (py_audit env c action resource_type resource_id metadata w))"
  unfolding py_audit_def by (rule R_then [OF R_uuid]) (auto intro: R_fail R_frame)

lemma R_emit: "R w (fst (py_emit env c aggregate event_type payload w))"
  unfolding py_emit_def Let_def by (rule R_then [OF R_uuid]) (auto split: sum.split prod.split intro: R_fail R_frame)

lemma R_idem: "R w (fst (py_idem_put env c scope body w))"
  by (auto simp: py_idem_put_def split: option.split intro!: R_return R_then R_uuid intro: R_frame R_refl)

lemma R_cached: "R w (fst (m w)) \<Longrightarrow> R w (fst (py_cached c scope m w))"
  by (auto simp: py_cached_def split: option.split intro: R_refl)

lemma R_fetch: "R w (fst (fetch_run c i w))"
  by (auto simp: fetch_run_def split: option.split intro: R_fail R_refl)

lemma R_component: "R w (fst (insert_component env c p w))"
  by (auto simp: insert_component_def intro: R_fail R_frame)

lemma R_defaults: "R w (fst (ensure_default_components env c w))"
proof -
  have "R v (fst (insert_defaults env c ds v))" for ds v
    by (induction ds arbitrary: v) (auto intro!: R_return R_then R_uuid R_component)
  then show ?thesis by (auto simp: ensure_default_components_def intro: R_refl)
qed

lemma R_days: "R w (fst (working_days_of env c run w))"
  by (auto simp: working_days_of_def split: option.split intro: R_fail R_return)

lemma R_load: "R w (fst (load_payslip_dto env c i b w))"
  by (auto simp: load_payslip_dto_def split: list.split prod.split intro: R_fail R_refl)

lemma R_load_all: "R w (fst (load_all env c b is w))"
  by (induction "is" arbitrary: w) (auto intro!: R_return R_then R_load)

lemma R_load_own: "R w (fst (load_own env c ss w))"
  by (induction ss arbitrary: w) (auto intro!: R_return R_then R_load R_audit)

lemma R_own: "R w (fst (own_payslip c i w))"
  by (auto simp: own_payslip_def Let_def split: option.split intro: R_fail R_refl)

lemma R_check: "R w (fst (check_adjusted c x w))" "R w (fst (reject_immutable c status w))" "R w (fst (component_currency c q w))"
  by (auto simp: check_adjusted_def reject_immutable_def component_currency_def split: option.split sum.split intro: R_fail R_refl R_return)

lemma R_journal: "R w (fst (post_payroll_journal env c d run w))"
  by (auto simp: post_payroll_journal_def Let_def py_fail_def st_return_def split: prod.split sum.split intro: R_frame R_refl)

lemma R_approval: "R w (fst (request_payroll_approval env c run w))"
  by (simp add: request_payroll_approval_def Let_def R_frame)

lemmas R_intros = R_return R_fail R_uuid R_parse R_require R_audit R_emit R_idem R_fetch R_component R_defaults R_days R_load
  R_load_all R_load_own R_own R_check R_journal R_approval R_refl

lemma R_readers:
  "R w (fst (create_component env c q w))" "R w (fst (list_components env c w))"
  "R w (fst (list_runs env c status limit offset w))" "R w (fst (get_run env c raw w))"
  "R w (fst (list_run_payslips env c raw w))" "R w (fst (export_run env c raw w))"
  "R w (fst (get_payslip env c raw w))" "R w (fst (list_my_payslips env c w))" "R w (fst (get_my_payslip env c raw w))"
  unfolding create_component_def list_components_def list_runs_def get_run_def list_run_payslips_def export_run_def
    get_payslip_def list_my_payslips_def get_my_payslip_def Let_def
  by (auto split: prod.split option.split simp del: load_own.simps load_all.simps intro!: R_then R_tx_all R_intros)

end

interpretation steady: payroll_relation same_payroll
  by unfold_locales simp_all

section \<open>What stays of approved and paid runs\<close>

definition slip_money :: "payslip \<Rightarrow> (uuid \<times> uuid \<times> uuid \<times> uuid \<times> string) \<times> int \<times> int \<times> int" where
  "slip_money s = ((sl_id s, sl_org s, sl_run s, sl_employee s, sl_currency s), sl_gross s, sl_deductions s, sl_net s)"

definition run_slips :: "payroll_world \<Rightarrow> uuid \<Rightarrow> ((uuid \<times> uuid \<times> uuid \<times> uuid \<times> string) \<times> int \<times> int \<times> int) list" where
  "run_slips w i = map slip_money (filter (\<lambda>s. sl_run s = i) (pw_slips w))"

definition run_lines :: "payroll_world \<Rightarrow> uuid \<Rightarrow> payslip_line list" where
  "run_lines w i = filter (\<lambda>l. pl_run l = i) (pw_lines w)"

definition run_money ::
  "payroll_run \<Rightarrow> (uuid \<times> uuid \<times> string \<times> date \<times> date \<times> string \<times> uuid option) \<times> int \<times> int \<times> int \<times> int" where
  "run_money r = ((pr_id r, pr_org r, pr_public_id r, pr_start r, pr_end r, pr_currency r, pr_adjusts r),
     pr_count r, pr_gross r, pr_deductions r, pr_net r)"

definition final_kept :: "payroll_world \<Rightarrow> payroll_world \<Rightarrow> bool" where
  "final_kept w w' \<longleftrightarrow> (distinct (map pr_id (pw_runs w)) \<longrightarrow> distinct (map pr_id (pw_runs w')) \<and>
     (\<forall>r \<in> set (pw_runs w). is_final (pr_status r) \<longrightarrow>
        run_slips w' (pr_id r) = run_slips w (pr_id r) \<and> run_lines w' (pr_id r) = run_lines w (pr_id r) \<and>
        (\<exists>q \<in> set (pw_runs w'). run_money q = run_money r \<and> is_final (pr_status q) \<and> (pr_status r = ''paid'' \<longrightarrow> q = r))))"

lemma run_money_id: "run_money q = run_money r \<Longrightarrow> pr_id q = pr_id r"
  by (simp add: run_money_def)

lemma final_keptD:
  assumes "final_kept w w'" "distinct (map pr_id (pw_runs w))" "r \<in> set (pw_runs w)" "is_final (pr_status r)"
  obtains q where "q \<in> set (pw_runs w')" "run_money q = run_money r" "is_final (pr_status q)" "pr_status r = ''paid'' \<longrightarrow> q = r"
    "pr_id q = pr_id r" "run_slips w' (pr_id r) = run_slips w (pr_id r)" "run_lines w' (pr_id r) = run_lines w (pr_id r)"
proof -
  from assms obtain q where q: "q \<in> set (pw_runs w')" "run_money q = run_money r" "is_final (pr_status q)"
      "pr_status r = ''paid'' \<longrightarrow> q = r"
    and s: "run_slips w' (pr_id r) = run_slips w (pr_id r)" "run_lines w' (pr_id r) = run_lines w (pr_id r)"
    unfolding final_kept_def by blast
  show thesis by (rule that [OF q run_money_id [OF q(2)] s])
qed

lemma final_kept_trans: "final_kept w w' \<Longrightarrow> final_kept w' w'' \<Longrightarrow> final_kept w w''"
  unfolding final_kept_def [of w w'']
proof (intro impI conjI ballI)
  assume first: "final_kept w w'" and second: "final_kept w' w''" and keys: "distinct (map pr_id (pw_runs w))"
  then have keys': "distinct (map pr_id (pw_runs w'))" by (simp add: final_kept_def)
  then show "distinct (map pr_id (pw_runs w''))" using second by (simp add: final_kept_def)
  fix r
  assume r: "r \<in> set (pw_runs w)" "is_final (pr_status r)"
  obtain q where q: "q \<in> set (pw_runs w')" "run_money q = run_money r" "is_final (pr_status q)" "pr_status r = ''paid'' \<longrightarrow> q = r"
    "pr_id q = pr_id r" "run_slips w' (pr_id r) = run_slips w (pr_id r)" "run_lines w' (pr_id r) = run_lines w (pr_id r)"
    by (rule final_keptD [OF first keys r], rule that, assumption+)
  obtain p where p: "p \<in> set (pw_runs w'')" "run_money p = run_money q" "is_final (pr_status p)" "pr_status q = ''paid'' \<longrightarrow> p = q"
    "run_slips w'' (pr_id q) = run_slips w' (pr_id q)" "run_lines w'' (pr_id q) = run_lines w' (pr_id q)"
    by (rule final_keptD [OF second keys' q(1,3)], rule that, assumption+)
  show "run_slips w'' (pr_id r) = run_slips w (pr_id r)" using p(5) q(5,6) by simp
  show "run_lines w'' (pr_id r) = run_lines w (pr_id r)" using p(6) q(5,7) by simp
  show "\<exists>q \<in> set (pw_runs w''). run_money q = run_money r \<and> is_final (pr_status q) \<and> (pr_status r = ''paid'' \<longrightarrow> q = r)"
    using p(1-4) q(2,4) by (intro bexI [of _ p]) auto
qed

lemma same_payroll_slips: "same_payroll w w' \<Longrightarrow> run_slips w' = run_slips w \<and> run_lines w' = run_lines w"
  by (auto simp: run_slips_def run_lines_def fun_eq_iff)

lemma final_kept_frame: "same_payroll w w' \<Longrightarrow> final_kept w w'"
  using same_payroll_slips [of w w'] by (auto simp: final_kept_def)

interpretation frozen: payroll_relation final_kept
  by unfold_locales (rule final_kept_trans, assumption+, rule final_kept_frame)

text \<open>What one step can do to the run it works on.\<close>

definition only_run :: "uuid \<Rightarrow> payroll_world \<Rightarrow> payroll_world \<Rightarrow> bool" where
  "only_run i w w' \<longleftrightarrow> pw_runs w' = pw_runs w \<and>
     (\<forall>j. j \<noteq> i \<longrightarrow> run_slips w' j = run_slips w j \<and> run_lines w' j = run_lines w j)"

interpretation only: payroll_relation "only_run i" for i
proof
  show "only_run i w w'" if "same_payroll w w'" for w w'
    using same_payroll_slips [OF that] that by (simp add: only_run_def)
qed (simp add: only_run_def)

text \<open>The update of a run, under the trigger.\<close>

lemma stamped_sel [simp]:
  "pr_id (stamped c f r) = pr_id (f r)" "pr_org (stamped c f r) = pr_org (f r)" "pr_public_id (stamped c f r) = pr_public_id (f r)"
  "pr_status (stamped c f r) = pr_status (f r)" "run_money (stamped c f r) = run_money (f r)"
  by (simp_all add: stamped_def run_money_def)

lemma py_internal_eq: "py_internal env c w = (w', Inr x) \<longleftrightarrow> False" "py_fail code c detail w = (w', Inr x) \<longleftrightarrow> False"
  "py_not_found c what w = (w', Inr x) \<longleftrightarrow> False"
  by (simp_all add: py_internal_def py_fail_def py_not_found_def st_return_def)

lemma update_run_Inr:
  assumes "update_run env c i f w = (w', Inr q)"
  shows "w' = w\<lparr>pw_runs := map (\<lambda>r. if hit_run c i r then stamped c f r else r) (pw_runs w)\<rparr> \<and>
    (\<exists>r \<in> set (pw_runs w). hit_run c i r \<and> q = stamped c f r) \<and>
    (\<forall>r \<in> set (pw_runs w). hit_run c i r \<longrightarrow> run_update_allowed r (stamped c f r) \<and> run_row_ok (stamped c f r))"
proof (cases "filter (hit_run c i) (pw_runs w)")
  case Nil
  then show ?thesis using assms by (simp add: update_run_def py_internal_eq)
next
  case (Cons r rs)
  have set: "set (pw_runs w) \<inter> {x. hit_run c i x} = set (r # rs)" unfolding Cons [symmetric] by auto
  let ?ok = "list_all (\<lambda>r. run_update_allowed r (stamped c f r) \<and> run_row_ok (stamped c f r)) (r # rs)"
  have ok: ?ok
  proof (rule ccontr)
    assume "\<not> ?ok"
    with assms show False unfolding update_run_def Cons list.case by (simp only: if_False py_internal_eq)
  qed
  moreover from assms have "w\<lparr>pw_runs := map (\<lambda>r. if hit_run c i r then stamped c f r else r) (pw_runs w)\<rparr> = w'" "stamped c f r = q"
    unfolding update_run_def Cons list.case by (simp_all only: ok if_True prod.inject sum.inject)
  moreover have "r \<in> set (pw_runs w)" "hit_run c i r" using set by auto
  moreover have "run_update_allowed x (stamped c f x) \<and> run_row_ok (stamped c f x)" if "x \<in> set (pw_runs w)" "hit_run c i x" for x
  proof -
    have "x \<in> set (r # rs)" unfolding set [symmetric] using that by simp
    with ok show ?thesis unfolding list_all_iff by (rule bspec)
  qed
  ultimately show ?thesis by metis
qed

definition same_document :: "(payroll_run \<Rightarrow> payroll_run) \<Rightarrow> bool" where
  "same_document f \<longleftrightarrow> (\<forall>r. pr_id (f r) = pr_id r \<and> pr_org (f r) = pr_org r \<and> pr_public_id (f r) = pr_public_id r)"

lemma final_kept_update:
  assumes "same_document f"
  shows "final_kept w (fst (update_run env c i f w))"
proof (cases "snd (update_run env c i f w)")
  case (Inl e)
  then have "fst (update_run env c i f w) = w"
    by (auto simp: update_run_def py_internal_def py_fail_def st_return_def split: list.splits if_splits)
  then show ?thesis by (simp add: frozen.R_refl)
next
  case (Inr q)
  let ?g = "\<lambda>r. if hit_run c i r then stamped c f r else r"
  obtain w' where "update_run env c i f w = (w', Inr q)" using Inr by (cases "update_run env c i f w") simp
  note eff = update_run_Inr [OF this] and w = this
  then have w': "w' = w\<lparr>pw_runs := map ?g (pw_runs w)\<rparr>" by blast
  have ids: "pr_id (?g r) = pr_id r" for r using assms by (simp add: same_document_def)
  then have keys: "map pr_id (pw_runs w') = map pr_id (pw_runs w)" by (simp add: w')
  have slips: "run_slips w' = run_slips w" "run_lines w' = run_lines w"
    by (simp_all add: w' run_slips_def run_lines_def fun_eq_iff)
  have "run_money (?g r) = run_money r \<and> is_final (pr_status (?g r)) \<and> (pr_status r = ''paid'' \<longrightarrow> ?g r = r)"
    if r: "r \<in> set (pw_runs w)" "is_final (pr_status r)" for r
  proof (cases "hit_run c i r")
    case True
    with eff r have "run_update_allowed r (stamped c f r)" by blast
    with r(2) assms show ?thesis
      by (auto simp: run_update_allowed_def is_final_def run_money_def same_document_def stamped_def)
  qed (use r in simp)
  moreover have "?g r \<in> set (pw_runs w')" if "r \<in> set (pw_runs w)" for r using that by (simp add: w' image_iff) blast
  ultimately have "final_kept w w'" unfolding final_kept_def keys slips by blast
  then show ?thesis by (simp add: w)
qed

text \<open>Every step of the calculation before its last update works on the run's own payslips and lines.\<close>

lemma py_fail_fst [simp]: "fst (py_fail code c detail w) = w" "fst (py_internal env c w) = w" "fst (py_not_found c what w) = w"
  by (simp_all add: py_internal_def py_fail_def py_not_found_def st_return_def)

lemma filter_sub: "(\<And>x. P x \<Longrightarrow> Q x) \<Longrightarrow> filter P (filter Q xs) = filter P xs"
  by (induction xs) auto

lemma only_run_clear: "only_run i w (fst (clear_run_payslips env c i w))"
proof -
  have "filter (\<lambda>s. sl_run s = j) (filter (\<lambda>s. \<not> (sl_org s = sc_org c \<and> sl_run s = i)) ss) = filter (\<lambda>s. sl_run s = j) ss"
    "filter (\<lambda>l. pl_run l = j) (filter (\<lambda>l. \<not> (pl_org l = sc_org c \<and> pl_run l = i)) ls) = filter (\<lambda>l. pl_run l = j) ls"
    if "j \<noteq> i" for j and ss :: "payslip list" and ls :: "payslip_line list"
    by (rule filter_sub, use that in simp)+
  then have "only_run i w (w\<lparr>pw_lines := filter (\<lambda>l. \<not> (pl_org l = sc_org c \<and> pl_run l = i)) (pw_lines w),
      pw_slips := filter (\<lambda>s. \<not> (sl_org s = sc_org c \<and> sl_run s = i)) (pw_slips w)\<rparr>)"
    unfolding only_run_def run_slips_def run_lines_def by (simp del: filter_filter)
  then show ?thesis by (simp add: clear_run_payslips_def Let_def only.R_refl)
qed

lemma only_run_slip: "sl_run s = i \<Longrightarrow> only_run i w (fst (insert_payslip env c s w))"
  by (auto simp: insert_payslip_def only_run_def run_slips_def run_lines_def)

lemma only_run_line: "pl_run l = i \<Longrightarrow> only_run i w (fst (insert_payslip_line env c l w))"
  by (auto simp: insert_payslip_line_def only_run_def run_slips_def run_lines_def)

lemma only_run_store: "only_run (pr_id run) w (fst (store_slip env c run emp sums w))"
proof -
  have "only_run (pr_id run) v (fst (insert_lines env c run i ls v))" for v i ls
    by (induction ls arbitrary: v) (auto intro!: only.R_then only.R_uuid only.R_return only_run_line)
  then show ?thesis unfolding store_slip_def
    by (auto split: prod.split intro!: only.R_then only.R_uuid only_run_slip)
qed

lemma only_run_calc: "only_run (pr_id run) w (fst (calc_all env c run ps days es acc w))"
proof -
  have "only_run (pr_id run) v (fst (calc_employee env c run ps days acc e v))" for v acc e
    unfolding calc_employee_def Let_def
    by (auto split: option.split sum.split intro!: only.R_then only.R_audit only.R_return only.R_fail only_run_store only.R_refl)
  then show ?thesis by (induction es arbitrary: w acc) (auto intro!: only.R_then only.R_return)
qed

lemma calculated_sel [simp]:
  "pr_status (calculated c acc r) = ''calculated''" "pr_id (calculated c acc r) = pr_id r" "pr_org (calculated c acc r) = pr_org r"
  "pr_public_id (calculated c acc r) = pr_public_id r"
  by (simp_all add: calculated_def split: prod.split)

lemma calculate_with_Inr:
  assumes "calculate_with env c run w = (w', Inr x)"
  obtains acc w1 w2 r where "pr_status run = ''draft'' \<or> pr_status run = ''calculated''" "calc_sums env c run w = (w1, Inr acc)"
    "update_run env c (pr_id run) (calculated c acc) w1 = (w2, Inr r)" "same_payroll w2 w'"
proof -
  have status: "pr_status run = ''draft'' \<or> pr_status run = ''calculated''"
    using assms by (auto simp: calculate_with_def is_final_def mutable_run_statuses_def py_internal_eq split: if_splits)
  let ?rest = "\<lambda>acc r. st_then (py_emit env c ''payroll_run'' ''calculated'' (json_object
          [(''id'', JStr (pr_public_id r)), (''employee_count'', JInt (pr_count r)), (''status'', JStr (pr_status r))])) (\<lambda>_.
      st_then (py_audit env c ''hr.payroll.calculate'' ''payroll_run'' (pr_public_id r)
          (json_object [(''employee_count'', JInt (fst acc))])) (\<lambda>_.
      st_then (py_idem_put env c ''payroll.calculate'' (run_json env r)) (\<lambda>_.
      st_return (Inr (200 :: int, run_json env r)))))"
  have "st_then (calc_sums env c run) (\<lambda>acc. st_then (update_run env c (pr_id run) (calculated c acc)) (?rest acc)) w = (w', Inr x)"
    using assms by (simp add: calculate_with_def py_internal_eq split: if_splits)
  from this [THEN st_then_Inr [THEN iffD1]] obtain w1 acc where sums: "calc_sums env c run w = (w1, Inr acc)"
    and "st_then (update_run env c (pr_id run) (calculated c acc)) (?rest acc) w1 = (w', Inr x)" by blast
  from this(2) [THEN st_then_Inr [THEN iffD1]] obtain w2 r where upd: "update_run env c (pr_id run) (calculated c acc) w1 = (w2, Inr r)"
    and rest: "?rest acc r w2 = (w', Inr x)" by blast
  have "same_payroll w2 (fst (?rest acc r w2))" by (intro steady.R_then steady.R_intros)
  then show thesis using that [OF status sums upd] by (simp add: rest)
qed

lemma only_run_sums: "only_run (pr_id run) w (fst (calc_sums env c run w))"
  unfolding calc_sums_def
  by (auto intro!: only.R_then only.R_defaults only.R_days only.R_return only_run_calc only_run_clear)

lemma final_kept_calculate:
  assumes "calculate_with env c run w = (w', Inr x)"
  shows "final_kept w w'"
proof -
  obtain acc w1 w2 q where s: "calc_sums env c run w = (w1, Inr acc)"
    and u: "update_run env c (pr_id run) (calculated c acc) w1 = (w2, Inr q)" and same: "same_payroll w2 w'"
    by (rule calculate_with_Inr [OF assms], rule that, assumption+)
  have only: "only_run (pr_id run) w w1" using only_run_sums [of run w env c] s by simp
  note eff = update_run_Inr [OF u]
  let ?g = "\<lambda>r. if hit_run c (pr_id run) r then stamped c (calculated c acc) r else r"
  have runs: "pw_runs w' = map ?g (pw_runs w)" "run_slips w' = run_slips w1" "run_lines w' = run_lines w1"
    using eff same only by (auto simp: only_run_def run_slips_def run_lines_def fun_eq_iff)
  obtain r0 where r0: "r0 \<in> set (pw_runs w)" "pr_id r0 = pr_id run" "\<not> is_final (pr_status r0)"
    using eff only by (auto simp: only_run_def hit_run_def run_update_allowed_def is_final_def)
  have ids: "map pr_id (pw_runs w') = map pr_id (pw_runs w)" by (simp add: runs)
  show ?thesis unfolding final_kept_def ids
  proof (intro impI conjI ballI)
    fix r
    assume keys: "distinct (map pr_id (pw_runs w))" and r: "r \<in> set (pw_runs w)" "is_final (pr_status r)"
    have "pr_id r \<noteq> pr_id run" using keyed [OF keys r(1) r0(1)] r0(2,3) r(2) by auto
    then show "run_slips w' (pr_id r) = run_slips w (pr_id r)" "run_lines w' (pr_id r) = run_lines w (pr_id r)"
      and "\<exists>q \<in> set (pw_runs w'). run_money q = run_money r \<and> is_final (pr_status q) \<and> (pr_status r = ''paid'' \<longrightarrow> q = r)"
      using only r by (auto simp: runs only_run_def hit_run_def intro!: bexI [of _ r] image_eqI [of _ _ r])
  qed
qed

lemma final_kept_insert: "final_kept w (fst (insert_run env c r w))"
proof -
  have "final_kept w (w\<lparr>pw_runs := pw_runs w @ [r]\<rparr>)" if "\<not> list_ex (\<lambda>q. pr_id q = pr_id r \<or> P q) (pw_runs w)" for P
    using that by (auto simp: final_kept_def run_slips_def run_lines_def list_ex_iff)
  then show ?thesis by (auto simp: insert_run_def intro: frozen.R_refl)
qed

lemma issue_slip_money: "pw_runs (fst (issue_slip env c i w)) = pw_runs w \<and> run_slips (fst (issue_slip env c i w)) = run_slips w \<and>
    pw_lines (fst (issue_slip env c i w)) = pw_lines w"
proof -
  have "run_slips (w\<lparr>pw_slips := map (\<lambda>s. if P s then f s else s) (pw_slips w)\<rparr>) = run_slips w"
    if "\<And>s. slip_money (f s) = slip_money s" "\<And>s. sl_run (f s) = sl_run s" for P f
  proof
    fix j
    have "map slip_money (filter (\<lambda>s. sl_run s = j) (map (\<lambda>s. if P s then f s else s) ss)) = map slip_money (filter (\<lambda>s. sl_run s = j) ss)" for ss
      using that by (induction ss) auto
    then show "run_slips (w\<lparr>pw_slips := map (\<lambda>s. if P s then f s else s) (pw_slips w)\<rparr>) j = run_slips w j" by (simp add: run_slips_def)
  qed
  then have "run_slips (w\<lparr>pw_slips := map (\<lambda>s. if P s then s\<lparr>sl_status := x, sl_issued := y, sl_version := sl_version s + 1,
      sl_updated := z\<rparr> else s) (pw_slips w)\<rparr>) = run_slips w" for P x y z
    by (simp add: slip_money_def)
  then show ?thesis by (simp add: issue_slip_def Let_def)
qed

lemma final_kept_issue: "final_kept w (fst (issue_slip env c i w))"
  using issue_slip_money [of env c i w] by (auto simp: final_kept_def run_lines_def)

lemma final_kept_issue_all: "final_kept w (fst (issue_all env c xs w))"
proof (induction xs arbitrary: w)
  case (Cons x xs)
  then show ?case by (cases x) (auto intro!: frozen.R_then frozen.R_emit final_kept_issue)
qed (simp add: frozen.R_return)

lemma final_kept_parts:
  "final_kept w (fst (submit_with env c seen w))" "final_kept w (fst (approve_with env c seen w))"
  "final_kept w (fst (decide_with env c yes seen w))" "final_kept w (fst (pay_with env c d seen w))"
  unfolding submit_with_def approve_with_def decide_with_def pay_with_def do_approve_run_def Let_def
  by (auto simp: same_document_def split: prod.split
      intro!: frozen.R_then frozen.R_intros final_kept_update final_kept_issue_all)

lemma final_kept_calculation: "final_kept w (fst (py_tx (calculate_with env c seen) w))"
  by (rule frozen.R_tx) (rule final_kept_calculate)

lemma final_kept_calls:
  "final_kept w (fst (create_run env c r w))" "final_kept w (fst (adjust_run env c raw w))"
  "final_kept w (fst (calculate_run env c raw w))" "final_kept w (fst (submit_run env c raw w))"
  "final_kept w (fst (approve_run env c raw w))" "final_kept w (fst (decide_run env c raw yes w))"
  "final_kept w (fst (pay_run env c d raw w))"
proof -
  show "final_kept w (fst (create_run env c r w))" "final_kept w (fst (adjust_run env c raw w))"
    unfolding create_run_def create_run_tx_def adjust_run_def adjust_tx_def Let_def
    by (auto split: sum.split intro!: frozen.R_then frozen.R_tx_all frozen.R_intros final_kept_insert)
  have "final_kept v v'" if "py_cached c scope (st_then (fetch_run c i) (calculate_with env c)) v = (v', Inr x)" for v v' scope i x
    using that by (auto simp: py_cached_def st_then_Inr fetch_run_def py_internal_eq split: option.splits
        intro: final_kept_calculate frozen.R_refl)
  then show "final_kept w (fst (calculate_run env c raw w))"
    unfolding calculate_run_def by (auto intro!: frozen.R_then frozen.R_intros frozen.R_tx)
  show "final_kept w (fst (submit_run env c raw w))" "final_kept w (fst (approve_run env c raw w))"
    "final_kept w (fst (decide_run env c raw yes w))" "final_kept w (fst (pay_run env c d raw w))"
    unfolding submit_run_def approve_run_def decide_run_def pay_run_def
    by (auto intro!: frozen.R_then frozen.R_intros frozen.R_tx_all frozen.R_cached final_kept_parts)
qed

lemma payroll_call_final: "payroll_call env w w' \<Longrightarrow> final_kept w w'"
  by (induction rule: payroll_call.induct) (rule frozen.R_readers final_kept_calls | simp add: final_kept_frame)+

lemma payroll_race_final: "payroll_race env w w' \<Longrightarrow> final_kept w w'"
  by (induction rule: payroll_race.induct)
    (erule payroll_call_final | rule final_kept_calculation frozen.R_tx_all final_kept_parts)+

lemma payroll_races_final: "(payroll_race env)\<^sup>*\<^sup>* w w' \<Longrightarrow> final_kept w w'"
  by (induction rule: rtranclp_induct) (auto intro: frozen.R_refl final_kept_trans payroll_race_final)

text \<open>
  C27: An approved or paid run is settled, whatever the service does and however stale the rows are
  that its handlers work on. After any sequence of calls the run is still there, approved or paid,
  with its period, currency, employee count and amounts; a paid run has not changed at all; and the
  amounts of its payslips and all its payslip lines are what they were.
\<close>

theorem approved_runs_immutable:
  assumes "distinct (map pr_id (pw_runs w))" "(payroll_race env)\<^sup>*\<^sup>* w w'" "r \<in> set (pw_runs w)" "is_final (pr_status r)"
  shows "run_slips w' (pr_id r) = run_slips w (pr_id r) \<and> run_lines w' (pr_id r) = run_lines w (pr_id r) \<and>
    (\<exists>q \<in> set (pw_runs w'). run_money q = run_money r \<and> is_final (pr_status q) \<and> (pr_status r = ''paid'' \<longrightarrow> q = r))"
  using payroll_races_final [OF assms(2)] assms(1,3,4) by (simp add: final_kept_def)

section \<open>Examples\<close>

definition demo_uuid_text :: "uuid \<Rightarrow> string" where
  "demo_uuid_text u = (if u = 1 then ''o'' else if u = 3 then ''u'' else ''r'')"

definition demo_uuid_parse :: "string \<Rightarrow> string + uuid" where
  "demo_uuid_parse s = (if s = ''o'' then Inr 1 else if s = ''u'' then Inr 3 else if s = ''r'' then Inr 50 else Inl [])"

definition demo_journals_env :: journals_env where
  "demo_journals_env = \<lparr>jv_fin = demo_env, jv_relay = demo_relay_env\<lparr>re_show_uuid := demo_uuid_text\<rparr>, jv_parse_uuid = demo_uuid_parse,
     jv_time = (\<lambda>f s. None), jv_parse_date = (\<lambda>s. if s = ''mon'' then Some 1 else if s = ''wed'' then Some 3 else None),
     jv_show_date = (\<lambda>d. ''d''), jv_row_order = (\<lambda>rs. rs), jv_pick_entry = hd, jv_entity_public = (\<lambda>i. ''ent''),
     jv_show_outbox_error = (\<lambda>e. ''outbox''), jv_dto_json = (\<lambda>d. JNull), jv_dto_of = (\<lambda>j. Inl [])\<rparr>"

definition demo_payroll_env :: payroll_env where
  "demo_payroll_env = \<lparr>pye_service = demo_journals_env, pye_max_date = 1000000, pye_decrypt = (\<lambda>s. Inr 300000), pye_collate = (\<lambda>a b. True),
     pye_db_error = ''db'', pye_run_json = (\<lambda>d. JNull), pye_base_url = (\<lambda>s. ''http://x/''), pye_local_auth = True,
     pye_show_failure = (\<lambda>e. ae_detail e), pye_transport_error = ''down'', pye_approval_answer = (\<lambda>q. None)\<rparr>"

definition demo_clerk :: service_caller where
  "demo_clerk = \<lparr>sc_org = 1, sc_actor = actor_human 3, sc_request_id = ''q'', sc_now = 7, sc_today = 12, sc_key = None\<rparr>"

definition demo_finance :: finance_world where
  "demo_finance = \<lparr>fw_org = demo_org_db\<lparr>od_memberships := [demo_member\<lparr>mb_role := ''owner'', mb_team := None\<rparr>]\<rparr>, fw_db = demo_db [],
     fw_access = [], fw_idem = [], fw_outbox = \<lparr>ob_events = [], ob_dlq = []\<rparr>, fw_audit = []\<rparr>"

definition demo_component :: "uuid \<Rightarrow> string \<Rightarrow> string \<Rightarrow> string \<Rightarrow> json \<Rightarrow> payroll_component" where
  "demo_component i code line_kind how config = \<lparr>pc_id = i, pc_org = 1, pc_public_id = code, pc_code = code, pc_label = code,
     pc_line_kind = line_kind, pc_calc_method = how, pc_config = config, pc_currency = None, pc_active = True, pc_sort = 10,
     pc_created = 0, pc_updated = 0, pc_deleted = None, pc_version = 1\<rparr>"

definition demo_payroll :: payroll_world where
  "demo_payroll = \<lparr>pw_org = demo_org_db\<lparr>od_memberships := [demo_member\<lparr>mb_role := ''owner''\<rparr>]\<rparr>,
     pw_components = [demo_component 20 ''salary'' ''earning'' ''fixed_from_comp'' JNull,
       demo_component 21 ''tax'' ''deduction'' ''percent_of_gross'' (json_object [(''percent_bps'', JInt 1000)])], pw_runs = [],
     pw_slips = [], pw_lines = [],
     pw_employees = [\<lparr>em_id = 30, em_org = 1, em_public_id = ''emp_30'', em_user = Some 3, em_name = ''Ada'', em_status = ''active'',
       em_owner = 3, em_created = 0, em_deleted = None\<rparr>],
     pw_pay = [\<lparr>bp_org = 1, bp_employee = 30, bp_type = ''base_salary'', bp_cipher = ''c'', bp_currency = ''USD'', bp_from = 0, bp_to = None,
       bp_deleted = None\<rparr>],
     pw_leave_types = [], pw_leave = [], pw_attendance = [], pw_idem = [], pw_outbox = \<lparr>ob_events = [], ob_dlq = []\<rparr>, pw_audit = [],
     pw_http = [], pw_finance = demo_finance, pw_uuids = 50\<rparr>"

definition demo_run :: payroll_run where
  "demo_run = (new_run demo_payroll_env demo_clerk 50 1 3 ''USD'' None)\<lparr>pr_status := ''approved'', pr_count := 1, pr_gross := 300000,
     pr_deductions := 30000, pr_net := 270000\<rparr>"

abbreviation demo_race_world :: payroll_world where
  "demo_race_world \<equiv> demo_payroll\<lparr>pw_runs := [demo_run]\<rparr>"

theorem approved_runs_immutable_witness:
  "\<exists>q. q \<in> set (pw_runs (fst (py_tx (calculate_with demo_payroll_env demo_clerk (demo_run\<lparr>pr_status := ''draft''\<rparr>)) demo_race_world))) \<and>
     run_money q = run_money demo_run \<and> is_final (pr_status q)"
proof -
  let ?w = "fst (py_tx (calculate_with demo_payroll_env demo_clerk (demo_run\<lparr>pr_status := ''draft''\<rparr>)) demo_race_world)"
  have "(payroll_race demo_payroll_env)\<^sup>*\<^sup>* demo_race_world ?w" by (rule r_into_rtranclp, rule payroll_race.stale_calculate)
  from approved_runs_immutable [OF _ this, of demo_run] show ?thesis by (auto simp: demo_run_def is_final_def)
qed

end
