(* ===== verification/Payroll_Totals.thy ===== *)
theory Payroll_Totals
  imports Payroll
begin

text \<open>
  What the calculation of theory \<open>Payroll\<close> promises of a run: its employee count and amounts are
  those of its payslips, through every sequence of calls.
\<close>

section \<open>Sums that wrap around\<close>

lemma wrap_i64_mod: "wrap_i64 x = wrap_i64 y \<longleftrightarrow> x mod 2 ^ 64 = y mod 2 ^ 64"
proof -
  have "wrap_i64 x = wrap_i64 y \<longleftrightarrow> (x + 2 ^ 63) mod 2 ^ 64 = (y + 2 ^ 63) mod 2 ^ 64" by (simp add: wrap_i64_def)
  also have "\<dots> \<longleftrightarrow> x mod 2 ^ 64 = y mod 2 ^ 64" by (simp add: mod_eq_dvd_iff)
  finally show ?thesis .
qed

lemma mod_wrap_i64: "wrap_i64 x mod 2 ^ 64 = x mod 2 ^ 64"
proof -
  have "wrap_i64 x mod 2 ^ 64 = ((x + 2 ^ 63) mod 2 ^ 64 - 2 ^ 63) mod 2 ^ 64" by (simp only: wrap_i64_def)
  also have "\<dots> = (x + 2 ^ 63 - 2 ^ 63) mod 2 ^ 64" by (rule mod_diff_left_eq)
  finally show ?thesis by (simp only: add_diff_cancel_right')
qed

lemma wrap_i64_add: "wrap_i64 (wrap_i64 a + b) = wrap_i64 (a + b)" "wrap_i64 (a + wrap_i64 b) = wrap_i64 (a + b)"
proof -
  show "wrap_i64 (a + wrap_i64 b) = wrap_i64 (a + b)" for a b
    unfolding wrap_i64_mod by (subst mod_add_right_eq [symmetric], subst mod_wrap_i64, rule mod_add_right_eq)
  from this [of b a] show "wrap_i64 (wrap_i64 a + b) = wrap_i64 (a + b)" by (simp only: add.commute)
qed

lemma wrap_i64_diff: "wrap_i64 (wrap_i64 a - wrap_i64 b) = wrap_i64 (a - b)"
  unfolding wrap_i64_mod by (subst mod_diff_eq [symmetric], subst (1 2) mod_wrap_i64, rule mod_diff_eq)

lemma wrap_i32_add: "wrap_i32 (wrap_i32 a + b) = wrap_i32 (a + b)"
proof -
  have "(a + 2 ^ 31) mod 2 ^ 32 - 2 ^ 31 + b + 2 ^ 31 = (a + 2 ^ 31) mod 2 ^ 32 + b" by simp
  then have "((a + 2 ^ 31) mod 2 ^ 32 - 2 ^ 31 + b + 2 ^ 31) mod 2 ^ 32 = ((a + 2 ^ 31) mod 2 ^ 32 + b) mod 2 ^ 32"
    by (simp only:)
  also have "\<dots> = (a + 2 ^ 31 + b) mod 2 ^ 32" by (rule mod_add_left_eq)
  finally show ?thesis by (simp only: wrap_i32_def algebra_simps)
qed

definition add_slips :: "run_sums \<Rightarrow> payslip list \<Rightarrow> run_sums" where
  "add_slips = foldl (\<lambda>acc s. add_slip acc (sl_gross s) (sl_deductions s))"

lemma add_slips_sums:
  "add_slips (0, 0, 0, 0) ss = (wrap_i32 (int (length ss)), wrap_i64 (sum_list (map sl_gross ss)), wrap_i64 (sum_list (map sl_deductions ss)),
     wrap_i64 (sum_list (map sl_gross ss) - sum_list (map sl_deductions ss)))"
proof (induction ss rule: rev_induct)
  case (snoc s ss)
  have "wrap_i64 (wrap_i64 (a - b) + wrap_i64 (x - y)) = wrap_i64 (a + x - (b + y))" for a b x y
    by (simp only: wrap_i64_add) (simp only: algebra_simps)
  with snoc show ?case by (simp add: add_slips_def add_slip_def wrap_i64_add wrap_i32_add add.commute [of 1])
qed (simp add: add_slips_def wrap_i64_def wrap_i32_def)

section \<open>The payslips of a calculation\<close>

lemma in_i64_sat: "in_i64 (sat_i64 x)"
  by (simp add: sat_i64_def in_i64_def)

definition sums_ok :: "slip_sums \<Rightarrow> bool" where
  "sums_ok acc \<longleftrightarrow> in_i64 (fst acc) \<and> in_i64 (fst (snd acc))"

lemma sums_ok_line: "sums_ok acc \<Longrightarrow> sums_ok (add_fixed_line salary unpaid days hours acc p)"
  by (cases acc; cases "compute_line_amount p salary unpaid days hours")
    (simp add: sums_ok_def add_fixed_line_def Let_def in_i64_wrap in_i64_sat)

lemma sums_ok_percent: "sums_ok acc \<Longrightarrow> sums_ok (add_percent_line acc p)"
  by (cases acc) (simp add: sums_ok_def add_percent_line_def Let_def in_i64_wrap)

lemma sums_ok_slip: "sums_ok (slip_of ps salary unpaid days hours)"
proof -
  have "sums_ok acc \<Longrightarrow> sums_ok (foldl (add_fixed_line salary unpaid days hours) acc qs)" for acc qs
    by (induction qs arbitrary: acc) (simp_all add: sums_ok_line)
  moreover have "sums_ok acc \<Longrightarrow> sums_ok (foldl add_percent_line acc qs)" for acc qs
    by (induction qs arbitrary: acc) (simp_all add: sums_ok_percent)
  ultimately show ?thesis by (simp add: slip_of_def sums_ok_def in_i64_def)
qed

definition proper_slip :: "uuid \<Rightarrow> uuid \<Rightarrow> payslip \<Rightarrow> bool" where
  "proper_slip org i s \<longleftrightarrow> sl_org s = org \<and> sl_run s = i \<and> 0 \<le> sl_gross s \<and> 0 \<le> sl_deductions s \<and> 0 \<le> sl_net s \<and>
     sl_net s = sl_gross s - sl_deductions s"

text \<open>Steps that leave the runs and the payslips alone.\<close>

interpretation tables: payroll_relation "\<lambda>w w'. pw_runs w' = pw_runs w \<and> pw_slips w' = pw_slips w"
  by unfold_locales simp_all

lemma insert_lines_slips:
  "pw_runs (fst (insert_lines env c run i ls w)) = pw_runs w \<and> pw_slips (fst (insert_lines env c run i ls w)) = pw_slips w"
proof (induction ls arbitrary: w)
  case (Cons l ls)
  have "pw_runs (fst (insert_payslip_line env c x v)) = pw_runs v \<and> pw_slips (fst (insert_payslip_line env c x v)) = pw_slips v" for x v
    by (simp add: insert_payslip_line_def)
  with Cons show ?case unfolding insert_lines.simps by (intro tables.R_then tables.R_uuid)
qed (simp add: st_return_def)

lemma insert_payslip_Inr:
  "insert_payslip env c s w = (w', Inr u) \<Longrightarrow> w' = w\<lparr>pw_slips := pw_slips w @ [s]\<rparr> \<and> 0 \<le> sl_gross s \<and> 0 \<le> sl_deductions s \<and> 0 \<le> sl_net s"
  by (simp add: insert_payslip_def py_internal_eq split: if_splits)

lemma store_slip_Inr:
  assumes "store_slip env c run emp sums w = (w', Inr u)" "sums_ok sums"
  shows "\<exists>s. proper_slip (sc_org c) (pr_id run) s \<and> sl_gross s = fst sums \<and> sl_deductions s = fst (snd sums) \<and>
    pw_slips w' = pw_slips w @ [s] \<and> pw_runs w' = pw_runs w"
proof -
  obtain g d ls where sums: "sums = (g, d, ls)" by (cases sums)
  from assms(1) [unfolded store_slip_def sums prod.case, THEN st_then_Inr [THEN iffD1]]
  obtain w1 i where uuid: "py_uuid env w = (w1, Inr i)"
    and "st_then (insert_payslip env c
        \<lparr>sl_id = i, sl_org = sc_org c, sl_public_id = py_public env ''Payslip'' i, sl_run = pr_id run, sl_employee = em_id emp,
         sl_currency = pr_currency run, sl_gross = g, sl_deductions = d, sl_net = wrap_i64 (g - d),
         sl_status = ''draft'', sl_issued = None, sl_user = em_user emp, sl_owner = em_owner emp, sl_created = sc_now c,
         sl_updated = sc_now c, sl_deleted = None, sl_version = 1\<rparr>) (\<lambda>_. insert_lines env c run i ls) w1 = (w', Inr u)"
    (is "st_then (insert_payslip env c ?s) _ _ = _") by blast
  from this(2) [THEN st_then_Inr [THEN iffD1]] obtain w2 v where ins: "insert_payslip env c ?s w1 = (w2, Inr v)"
    and rest: "insert_lines env c run i ls w2 = (w', Inr u)" by blast
  from insert_payslip_Inr [OF ins] have w2: "w2 = w1\<lparr>pw_slips := pw_slips w1 @ [?s]\<rparr>" and pos: "0 \<le> g" "0 \<le> d" "0 \<le> wrap_i64 (g - d)"
    by simp_all
  have "in_i64 (g - d)" using pos(1,2) assms(2) by (auto simp: sums sums_ok_def in_i64_def)
  then have "proper_slip (sc_org c) (pr_id run) ?s" using pos by (simp add: proper_slip_def wrap_i64_id)
  moreover have "pw_runs w1 = pw_runs w" "pw_slips w1 = pw_slips w" using uuid by (auto simp: py_uuid_def)
  moreover have "pw_runs w' = pw_runs w2 \<and> pw_slips w' = pw_slips w2"
    using insert_lines_slips [of env c run i ls w2] by (simp only: rest fst_conv)
  ultimately show ?thesis by (intro exI [of _ ?s]) (simp add: sums w2)
qed

text \<open>What a part of the calculation adds: proper payslips, with their sums.\<close>

definition slips_added :: "service_caller \<Rightarrow> payroll_run \<Rightarrow> run_sums \<Rightarrow> payroll_world \<Rightarrow> run_sums \<Rightarrow> payroll_world \<Rightarrow> bool" where
  "slips_added c run acc w acc' w' \<longleftrightarrow> pw_runs w' = pw_runs w \<and>
     (\<exists>ss. pw_slips w' = pw_slips w @ ss \<and> (\<forall>s \<in> set ss. proper_slip (sc_org c) (pr_id run) s) \<and> acc' = add_slips acc ss)"

lemma slips_added_none: "pw_runs w' = pw_runs w \<Longrightarrow> pw_slips w' = pw_slips w \<Longrightarrow> slips_added c run acc w acc w'"
  unfolding slips_added_def by (intro conjI exI [of _ "[]"]) (simp_all add: add_slips_def)

lemma slips_added_trans:
  assumes "slips_added c run acc w acc' w'" "slips_added c run acc' w' acc'' w''"
  shows "slips_added c run acc w acc'' w''"
proof -
  from assms obtain ss ts where "pw_slips w' = pw_slips w @ ss" "acc' = add_slips acc ss" "pw_slips w'' = pw_slips w' @ ts"
    "acc'' = add_slips acc' ts" "\<forall>s \<in> set ss. proper_slip (sc_org c) (pr_id run) s" "\<forall>s \<in> set ts. proper_slip (sc_org c) (pr_id run) s"
    unfolding slips_added_def by blast
  moreover have "pw_runs w'' = pw_runs w" using assms by (simp add: slips_added_def)
  ultimately show ?thesis unfolding slips_added_def
    by (intro conjI exI [of _ "ss @ ts"]) (auto simp: add_slips_def)
qed

lemma calc_employee_Inr:
  assumes "calc_employee env c run ps days acc e w = (w', Inr acc')"
  shows "slips_added c run acc w acc' w'"
proof (cases "w' = w \<and> acc' = acc")
  case True
  then show ?thesis by (simp add: slips_added_none)
next
  case False
  let ?sums = "\<lambda>v salary. slip_of ps salary (unpaid_leave_milli v (sc_org c) (em_id e) (pr_start run) (pr_end run)) days
      (sum_attendance_hours_milli v (sc_org c) (em_id e) (pr_start run) (pr_end run))"
  let ?audit = "py_audit env c ''hr.payroll.calc_read_compensation'' ''employee'' (em_public_id e)
      (json_object [(''run_id'', JStr (pr_public_id run))])"
  obtain salary where "st_then ?audit (\<lambda>_ v. if fst (?sums v salary) = 0 \<and> fst (snd (?sums v salary)) = 0 then (v, Inr acc)
      else st_then (store_slip env c run e (?sums v salary)) (\<lambda>_.
        st_return (Inr (add_slip acc (fst (?sums v salary)) (fst (snd (?sums v salary)))))) v) w = (w', Inr acc')"
    using assms False unfolding calc_employee_def Let_def
    by (auto simp: py_internal_eq split: option.splits sum.splits if_split_asm)
  from this [THEN st_then_Inr [THEN iffD1]] obtain w1 u where audit: "?audit w = (w1, Inr u)"
    and rest: "(if fst (?sums w1 salary) = 0 \<and> fst (snd (?sums w1 salary)) = 0 then (w1, Inr acc)
      else st_then (store_slip env c run e (?sums w1 salary)) (\<lambda>_.
        st_return (Inr (add_slip acc (fst (?sums w1 salary)) (fst (snd (?sums w1 salary)))))) w1) = (w', Inr acc')" by blast
  have "pw_runs w1 = pw_runs w \<and> pw_slips w1 = pw_slips w" using tables.R_audit [where w = w] audit by (metis fst_conv)
  then have w1: "slips_added c run acc w acc w1" by (simp add: slips_added_none)
  show ?thesis
  proof (cases "fst (?sums w1 salary) = 0 \<and> fst (snd (?sums w1 salary)) = 0")
    case True
    then show ?thesis using rest w1 by simp
  next
    case nonzero: False
    then have "st_then (store_slip env c run e (?sums w1 salary)) (\<lambda>_.
        st_return (Inr (add_slip acc (fst (?sums w1 salary)) (fst (snd (?sums w1 salary)))))) w1 = (w', Inr acc')"
      using rest by argo
    from this [THEN st_then_Inr [THEN iffD1]] obtain u where stored: "store_slip env c run e (?sums w1 salary) w1 = (w', Inr u)"
      and acc': "acc' = add_slip acc (fst (?sums w1 salary)) (fst (snd (?sums w1 salary)))"
      by (auto simp: st_return_def)
    from store_slip_Inr [OF stored sums_ok_slip] obtain s where "proper_slip (sc_org c) (pr_id run) s"
      "sl_gross s = fst (?sums w1 salary)" "sl_deductions s = fst (snd (?sums w1 salary))"
      "pw_slips w' = pw_slips w1 @ [s]" "pw_runs w' = pw_runs w1" by blast
    then have "slips_added c run acc w1 acc' w'" unfolding slips_added_def acc'
      by (intro conjI exI [of _ "[s]"]) (simp_all add: add_slips_def)
    then show ?thesis by (rule slips_added_trans [OF w1])
  qed
qed

lemma calc_all_Inr: "calc_all env c run ps days es acc w = (w', Inr acc') \<Longrightarrow> slips_added c run acc w acc' w'"
proof (induction es arbitrary: w acc)
  case Nil
  then show ?case by (simp add: st_return_def slips_added_none)
next
  case (Cons e es)
  from Cons.prems [unfolded calc_all.simps, THEN st_then_Inr [THEN iffD1]] obtain w1 acc1
    where "calc_employee env c run ps days acc e w = (w1, Inr acc1)" "calc_all env c run ps days es acc1 w1 = (w', Inr acc')" by blast
  then show ?case by (blast intro: slips_added_trans calc_employee_Inr Cons.IH)
qed

definition cleared :: "service_caller \<Rightarrow> payroll_run \<Rightarrow> payslip list \<Rightarrow> payslip list" where
  "cleared c run ss = (if pr_status run = ''calculated'' then filter (\<lambda>s. \<not> slips_of_run c (pr_id run) s) ss else ss)"

lemma calc_sums_Inr:
  assumes "calc_sums env c run w = (w', Inr acc)"
  shows "slips_added c run (0, 0, 0, 0) (w\<lparr>pw_slips := cleared c run (pw_slips w)\<rparr>) acc w'"
proof -
  let ?clear = "if pr_status run = ''calculated'' then clear_run_payslips env c (pr_id run) else st_return (Inr ())"
  from assms [unfolded calc_sums_def, THEN st_then_Inr [THEN iffD1]] obtain w1 u where clear: "?clear w = (w1, Inr u)"
    and "st_then (ensure_default_components env c) (\<lambda>_ w. st_then (working_days_of env c run) (\<lambda>days.
      calc_all env c run (active_components env c w) days (payable_employees c w) (0, 0, 0, 0)) w) w1 = (w', Inr acc)" by blast
  from this(2) [THEN st_then_Inr [THEN iffD1]] obtain w2 v where defaults: "ensure_default_components env c w1 = (w2, Inr v)"
    and "st_then (working_days_of env c run) (\<lambda>days.
      calc_all env c run (active_components env c w2) days (payable_employees c w2) (0, 0, 0, 0)) w2 = (w', Inr acc)" by blast
  from this(2) [THEN st_then_Inr [THEN iffD1]] obtain w3 days where days: "working_days_of env c run w2 = (w3, Inr days)"
    and all: "calc_all env c run (active_components env c w2) days (payable_employees c w2) (0, 0, 0, 0) w3 = (w', Inr acc)" by blast
  have "pw_runs w1 = pw_runs w \<and> pw_slips w1 = cleared c run (pw_slips w)"
    using clear by (auto simp: cleared_def clear_run_payslips_def slips_of_run_def st_return_def Let_def py_internal_eq split: if_splits)
  moreover have "pw_runs w2 = pw_runs w1 \<and> pw_slips w2 = pw_slips w1" using tables.R_defaults [where w = w1 and env = env and c = c] by (simp only: defaults fst_conv)
  moreover have "pw_runs w3 = pw_runs w2 \<and> pw_slips w3 = pw_slips w2" using tables.R_days [where w = w2 and env = env and c = c and run = run] by (simp only: days fst_conv)
  ultimately have "slips_added c run (0, 0, 0, 0) (w\<lparr>pw_slips := cleared c run (pw_slips w)\<rparr>) (0, 0, 0, 0) w3"
    by (intro slips_added_none) simp_all
  then show ?thesis by (rule slips_added_trans [OF _ calc_all_Inr [OF all]])
qed

section \<open>The invariant\<close>

definition slips_for :: "payroll_world \<Rightarrow> payroll_run \<Rightarrow> payslip list" where
  "slips_for w r = filter (\<lambda>s. sl_run s = pr_id r) (pw_slips w)"

definition run_totals :: "payslip list \<Rightarrow> payroll_run \<Rightarrow> bool" where
  "run_totals ss r \<longleftrightarrow>
     pr_count r = wrap_i32 (int (length ss)) \<and> pr_gross r = wrap_i64 (sum_list (map sl_gross ss)) \<and>
     pr_deductions r = wrap_i64 (sum_list (map sl_deductions ss)) \<and>
     0 \<le> pr_gross r \<and> 0 \<le> pr_deductions r \<and> 0 \<le> pr_net r \<and> pr_net r = pr_gross r - pr_deductions r"

definition totals_ok :: "payroll_world \<Rightarrow> payroll_run \<Rightarrow> bool" where
  "totals_ok w r \<longleftrightarrow> list_all (proper_slip (pr_org r) (pr_id r)) (slips_for w r) \<and> run_totals (slips_for w r) r \<and>
     (pr_status r = ''draft'' \<longrightarrow> slips_for w r = [])"

definition payroll_inv :: "payroll_world \<Rightarrow> bool" where
  "payroll_inv w \<longleftrightarrow> distinct (map pr_id (pw_runs w)) \<and> list_all (totals_ok w) (pw_runs w) \<and>
     (\<forall>s \<in> set (pw_slips w). sl_run s \<in> pr_id ` set (pw_runs w))"

lemma payroll_inv_cong: "pw_runs w' = pw_runs w \<Longrightarrow> pw_slips w' = pw_slips w \<Longrightarrow> payroll_inv w' = payroll_inv w"
  by (simp add: payroll_inv_def totals_ok_def slips_for_def list_all_iff)

definition keeps_inv :: "payroll_world \<Rightarrow> payroll_world \<Rightarrow> bool" where
  "keeps_inv w w' \<longleftrightarrow> (payroll_inv w \<longrightarrow> payroll_inv w')"

interpretation sound: payroll_relation keeps_inv
proof
  fix w w'
  assume "same_payroll w w'"
  then show "keeps_inv w w'" using payroll_inv_cong [of w' w] by (auto simp: keeps_inv_def)
qed (simp add: keeps_inv_def)

lemma inv_insert:
  assumes "payroll_inv w"
  shows "payroll_inv (fst (insert_run env c (new_run env c i start e cur adjusts) w))"
proof (cases "fst (insert_run env c (new_run env c i start e cur adjusts) w) = w")
  case False
  let ?r = "new_run env c i start e cur adjusts"
  let ?w = "w\<lparr>pw_runs := pw_runs w @ [?r]\<rparr>"
  have w': "fst (insert_run env c ?r w) = ?w" and new: "pr_id ?r \<notin> pr_id ` set (pw_runs w)"
    using False by (auto simp: insert_run_def list_ex_iff split: if_splits)
  have "slips_for w ?r = []" unfolding slips_for_def filter_empty_conv using assms new by (metis payroll_inv_def)
  then have "totals_ok ?w ?r"
    by (simp add: totals_ok_def slips_for_def run_totals_def new_run_def wrap_i32_def wrap_i64_def)
  moreover have "totals_ok ?w = totals_ok w" by (simp add: totals_ok_def slips_for_def fun_eq_iff)
  ultimately show ?thesis using assms new unfolding w' by (simp add: payroll_inv_def)
qed (use assms in simp)

lemma run_totals_cong: "run_money q = run_money r \<Longrightarrow> run_totals ss q = run_totals ss r"
  by (simp add: run_totals_def run_money_def)

lemma totals_ok_cong:
  "run_money q = run_money r \<Longrightarrow> pr_status q \<noteq> ''draft'' \<Longrightarrow> totals_ok w r \<Longrightarrow> totals_ok w q"
  using run_totals_cong [of q r] by (simp add: totals_ok_def slips_for_def run_money_def)

text \<open>The status of a run changes, not its money.\<close>

definition status_change :: "(payroll_run \<Rightarrow> payroll_run) \<Rightarrow> bool" where
  "status_change f \<longleftrightarrow> (\<forall>r. run_money (f r) = run_money r \<and> pr_status (f r) \<noteq> ''draft'')"

lemma update_run_fst:
  "fst (update_run env c i f w) = w \<or> (\<exists>q. update_run env c i f w = (fst (update_run env c i f w), Inr q))"
  by (cases "update_run env c i f w"; cases "snd (update_run env c i f w)")
    (auto simp: update_run_def py_internal_def py_fail_def st_return_def split: list.splits if_splits)

lemma inv_update:
  assumes "payroll_inv w" "status_change f"
  shows "payroll_inv (fst (update_run env c i f w))"
proof (cases "fst (update_run env c i f w) = w")
  case False
  let ?g = "\<lambda>r. if hit_run c i r then stamped c f r else r"
  obtain q where "update_run env c i f w = (fst (update_run env c i f w), Inr q)" using False update_run_fst by blast
  from update_run_Inr [OF this] have w': "fst (update_run env c i f w) = w\<lparr>pw_runs := map ?g (pw_runs w)\<rparr>" by blast
  have ids: "map pr_id (map ?g rs) = map pr_id rs" for rs
    using assms(2) by (auto simp: status_change_def dest: run_money_id)
  have "totals_ok w (?g r)" if "totals_ok w r" for r
    using that assms(2) by (auto simp: status_change_def intro: totals_ok_cong)
  then have "list_all (totals_ok w) (map ?g rs)" if "list_all (totals_ok w) rs" for rs
    using that by (induction rs) simp_all
  then have "list_all (totals_ok w) (map ?g (pw_runs w))" using assms(1) unfolding payroll_inv_def by blast
  moreover have "totals_ok (w\<lparr>pw_runs := x\<rparr>) = totals_ok w" for x by (simp add: totals_ok_def slips_for_def fun_eq_iff)
  moreover have "pr_id ` set (map ?g (pw_runs w)) = pr_id ` set (pw_runs w)" using ids [of "pw_runs w"] by (metis list.set_map)
  ultimately show ?thesis using assms(1) unfolding w' payroll_inv_def by (simp del: list.map_comp map_map list.set_map add: ids)
qed (use assms in simp)

lemma slip_money_map: "map slip_money xs = map slip_money ys \<Longrightarrow>
    length xs = length ys \<and> map sl_gross xs = map sl_gross ys \<and> map sl_deductions xs = map sl_deductions ys \<and>
    list_all (proper_slip org i) xs = list_all (proper_slip org i) ys"
proof (induction xs arbitrary: ys)
  case (Cons x xs)
  then obtain y zs where "ys = y # zs" "slip_money x = slip_money y" "map slip_money xs = map slip_money zs" by (cases ys) auto
  moreover from this have "sl_gross x = sl_gross y \<and> sl_deductions x = sl_deductions y \<and> proper_slip org i x = proper_slip org i y"
    by (simp add: slip_money_def proper_slip_def)
  ultimately show ?case using Cons.IH [of zs] by simp
qed simp

lemma inv_slips_money:
  assumes "payroll_inv w" "pw_runs w' = pw_runs w" "map slip_money (pw_slips w') = map slip_money (pw_slips w)"
  shows "payroll_inv w'"
proof -
  have runs: "map sl_run ss = map (\<lambda>m. fst (snd (snd (fst m)))) (map slip_money ss)" for ss :: "payslip list"
    by (simp add: slip_money_def)
  have "map slip_money (filter (\<lambda>s. sl_run s = j) ss) = filter (\<lambda>m. fst (snd (snd (fst m))) = j) (map slip_money ss)" for j ss
    by (induction ss) (simp_all add: slip_money_def)
  then have same: "map slip_money (slips_for w' r) = map slip_money (slips_for w r)" for r
    by (simp add: slips_for_def assms(3))
  have m: "length (slips_for w' r) = length (slips_for w r)" "map sl_gross (slips_for w' r) = map sl_gross (slips_for w r)"
    "map sl_deductions (slips_for w' r) = map sl_deductions (slips_for w r)"
    "list_all (proper_slip org i) (slips_for w' r) = list_all (proper_slip org i) (slips_for w r)" for r org i
    using slip_money_map [OF same [of r], of org i] by blast+
  have "slips_for w' r = [] \<longleftrightarrow> slips_for w r = []" for r using m(1) [of r] by (metis length_0_conv)
  then have "totals_ok w' r = totals_ok w r" for r unfolding totals_ok_def run_totals_def m by blast
  then have "totals_ok w' = totals_ok w" by (rule ext)
  moreover have "map sl_run (pw_slips w') = map sl_run (pw_slips w)" by (simp only: runs assms(3))
  then have "sl_run ` set (pw_slips w') = sl_run ` set (pw_slips w)" unfolding list.set_map [symmetric] by (rule arg_cong)
  ultimately show ?thesis using assms(1) by (simp only: payroll_inv_def image_subset_iff [symmetric] assms(2))
qed

lemma inv_issue: "payroll_inv w \<Longrightarrow> payroll_inv (fst (issue_slip env c i w))"
  by (erule inv_slips_money) (auto simp: issue_slip_def Let_def slip_money_def)

lemma inv_issue_all: "keeps_inv w (fst (issue_all env c xs w))"
proof (induction xs arbitrary: w)
  case (Cons x xs)
  obtain s r e where x: "x = (s, r, e)" by (cases x)
  show ?case unfolding x issue_all.simps by (intro sound.R_then sound.R_emit Cons) (simp add: keeps_inv_def inv_issue)
qed (simp add: st_return_def sound.R_refl)

lemma calculated_totals:
  assumes "run_row_ok (stamped c (calculated c (add_slips (0, 0, 0, 0) ss)) r)"
  shows "run_totals ss (stamped c (calculated c (add_slips (0, 0, 0, 0) ss)) r)"
proof -
  let ?g = "wrap_i64 (sum_list (map sl_gross ss))"
  let ?d = "wrap_i64 (sum_list (map sl_deductions ss))"
  let ?net = "wrap_i64 (sum_list (map sl_gross ss) - sum_list (map sl_deductions ss))"
  have pos: "0 \<le> ?g" "0 \<le> ?d" "0 \<le> ?net"
    using assms by (simp_all add: run_row_ok_def stamped_def calculated_def add_slips_sums)
  then have "in_i64 (?g - ?d)" using in_i64_wrap [of "sum_list (map sl_gross ss)"] in_i64_wrap [of "sum_list (map sl_deductions ss)"]
    by (auto simp: in_i64_def)
  then have "?net = ?g - ?d" by (metis wrap_i64_diff wrap_i64_id)
  with pos show ?thesis by (simp add: run_totals_def stamped_def calculated_def add_slips_sums)
qed

lemma slips_cleared:
  assumes "payroll_inv w" "run \<in> set (pw_runs w)" "pr_org run = sc_org c" "pr_status run = ''draft'' \<or> pr_status run = ''calculated''"
  shows "filter (\<lambda>s. sl_run s = i) (cleared c run (pw_slips w)) = (if i = pr_id run then [] else filter (\<lambda>s. sl_run s = i) (pw_slips w))"
proof -
  have ok: "totals_ok w run" using assms(1,2) by (simp add: payroll_inv_def list_all_iff)
  show ?thesis
  proof (cases "pr_status run = ''calculated''")
    case True
    have "list_all (\<lambda>s. sl_org s = sc_org c) (filter (\<lambda>s. sl_run s = pr_id run) ss)"
      if "list_all (proper_slip (pr_org run) (pr_id run)) (filter (\<lambda>s. sl_run s = pr_id run) ss)" for ss
      using that assms(3) by (auto simp: list_all_iff proper_slip_def)
    with ok have "\<forall>s \<in> set (pw_slips w). sl_run s = pr_id run \<longrightarrow> sl_org s = sc_org c"
      by (simp add: totals_ok_def slips_for_def list_all_iff proper_slip_def assms(3))
    moreover have "filter (\<lambda>s. sl_run s = i) (filter (\<lambda>s. \<not> (sl_org s = sc_org c \<and> sl_run s = pr_id run)) ss) =
        (if i = pr_id run then [] else filter (\<lambda>s. sl_run s = i) ss)"
      if "\<forall>s \<in> set ss. sl_run s = pr_id run \<longrightarrow> sl_org s = sc_org c" for ss
      using that by (induction ss) auto
    ultimately have "filter (\<lambda>s. sl_run s = i) (filter (\<lambda>s. \<not> (sl_org s = sc_org c \<and> sl_run s = pr_id run)) (pw_slips w)) =
        (if i = pr_id run then [] else filter (\<lambda>s. sl_run s = i) (pw_slips w))" by blast
    with True show ?thesis by (simp only: cleared_def slips_of_run_def if_True refl)
  next
    case False
    then have "filter (\<lambda>s. sl_run s = pr_id run) (pw_slips w) = []" using ok assms(4) by (simp add: totals_ok_def slips_for_def)
    then show ?thesis using False by (simp add: cleared_def)
  qed
qed

lemma inv_calculate:
  assumes "payroll_inv w" "run \<in> set (pw_runs w)" "pr_org run = sc_org c" "calculate_with env c run w = (w', Inr x)"
  shows "payroll_inv w'"
proof -
  obtain acc w1 w2 q where status: "pr_status run = ''draft'' \<or> pr_status run = ''calculated''" and sums: "calc_sums env c run w = (w1, Inr acc)"
    and upd: "update_run env c (pr_id run) (calculated c acc) w1 = (w2, Inr q)" and same: "same_payroll w2 w'"
    by (rule calculate_with_Inr [OF assms(4)], rule that, assumption+)
  from calc_sums_Inr [OF sums] obtain ss where runs1: "pw_runs w1 = pw_runs w" and slips1: "pw_slips w1 = cleared c run (pw_slips w) @ ss"
    and proper: "\<forall>s \<in> set ss. proper_slip (sc_org c) (pr_id run) s" and acc: "acc = add_slips (0, 0, 0, 0) ss"
    unfolding slips_added_def by auto
  let ?g = "\<lambda>r. if hit_run c (pr_id run) r then stamped c (calculated c acc) r else r"
  from update_run_Inr [OF upd] have w2: "w2 = w1\<lparr>pw_runs := map ?g (pw_runs w)\<rparr>"
    and rows: "\<forall>r \<in> set (pw_runs w). hit_run c (pr_id run) r \<longrightarrow> run_row_ok (stamped c (calculated c acc) r)"
    unfolding runs1 by blast+
  have keys: "distinct (map pr_id (pw_runs w))" using assms(1) by (simp add: payroll_inv_def)
  have ss: "filter (\<lambda>s. sl_run s = i) ss = (if i = pr_id run then ss else [])" for i
    using proper by (auto simp: proper_slip_def intro!: filter_True filter_False)
  have slips: "slips_for w2 r = (if pr_id r = pr_id run then ss else slips_for w r)" for r
    by (simp add: slips_for_def w2 slips1 slips_cleared [OF assms(1,2,3) status] ss)
  have ok: "totals_ok w2 (?g r)" if r: "r \<in> set (pw_runs w)" for r
  proof (cases "pr_id r = pr_id run")
    case True
    then have "r = run" using keyed [OF keys r assms(2)] by simp
    moreover have hit: "hit_run c (pr_id run) run" using assms(3) by (simp add: hit_run_def)
    moreover have "run_totals ss (stamped c (calculated c acc) run)" using rows assms(2) hit unfolding acc by (intro calculated_totals) blast
    ultimately show ?thesis using proper by (simp add: totals_ok_def slips list_all_iff assms(3))
  next
    case False
    then show ?thesis using assms(1) r by (simp add: hit_run_def totals_ok_def slips payroll_inv_def list_all_iff)
  qed
  have "list_all (totals_ok w2) (map ?g rs)" if "set rs \<subseteq> set (pw_runs w)" for rs using that ok by (induction rs) auto
  then have "list_all (totals_ok w2) (pw_runs w2)" by (simp add: w2)
  moreover have ids: "map pr_id (pw_runs w2) = map pr_id (pw_runs w)" by (simp add: w2)
  moreover have "sl_run s \<in> pr_id ` set (pw_runs w2)" if "s \<in> set (pw_slips w2)" for s
  proof -
    have "s \<in> set (pw_slips w) \<or> s \<in> set ss" using that by (auto simp: w2 slips1 cleared_def split: if_splits)
    then have "sl_run s \<in> pr_id ` set (pw_runs w)" using assms(1,2) proper by (auto simp: payroll_inv_def proper_slip_def)
    then show ?thesis using ids by (metis list.set_map)
  qed
  ultimately have "payroll_inv w2" using keys unfolding payroll_inv_def by (intro conjI ballI) simp_all
  then show ?thesis using same payroll_inv_cong [of w' w2] by blast
qed

lemma status_changes:
  "status_change (\<lambda>r. r\<lparr>pr_status := ''in_review'', pr_approval := a\<rparr>)"
  "status_change (\<lambda>r. r\<lparr>pr_status := ''approved'', pr_approved := t\<rparr>)" "status_change (\<lambda>r. r\<lparr>pr_status := ''calculated''\<rparr>)"
  "status_change (\<lambda>r. r\<lparr>pr_status := ''paid'', pr_paid := t, pr_journal_public := j, pr_journal_entry := e\<rparr>)"
  by (simp_all add: status_change_def run_money_def)

lemma inv_update_imp: "status_change f \<Longrightarrow> keeps_inv w (fst (update_run env c i f w))"
  by (simp add: keeps_inv_def inv_update)

lemma inv_approve: "keeps_inv w (fst (do_approve_run env c i w))"
  unfolding do_approve_run_def by (intro sound.R_then sound.R_intros inv_update_imp status_changes)

lemma inv_submit_with: "keeps_inv w (fst (submit_with env c seen w))"
proof (cases "pr_status seen = ''calculated''")
  case True
  then have calculated: "(pr_status seen \<noteq> ''calculated'') = False" by simp
  show ?thesis unfolding submit_with_def calculated if_False
    by (intro sound.R_then sound.R_intros inv_update_imp status_changes)
next
  case False
  then show ?thesis unfolding submit_with_def
    by (simp only: not_False_eq_True if_True) (intro sound.R_then sound.R_intros)
qed

lemma inv_approve_with: "keeps_inv w (fst (approve_with env c seen w))"
proof -
  consider "is_final (pr_status seen)" | "\<not> is_final (pr_status seen)" "\<not> approvable (pr_status seen)"
    | "\<not> is_final (pr_status seen)" "approvable (pr_status seen)" by blast
  then show ?thesis unfolding approve_with_def
    by cases (simp_all only: if_True if_False not_False_eq_True not_True_eq_False, (intro sound.R_then sound.R_intros inv_approve)+)
qed

lemma inv_decide_with: "keeps_inv w (fst (decide_with env c yes seen w))"
proof -
  have outcome: "keeps_inv v (fst ((if yes then do_approve_run env c i
      else update_run env c i (\<lambda>r. r\<lparr>pr_status := ''calculated''\<rparr>)) v))" for i v
    using inv_approve inv_update_imp [OF status_changes(3)] by (cases yes) (simp_all only: if_True if_False)
  consider "is_final (pr_status seen)" | "\<not> is_final (pr_status seen)" "\<not> approvable (pr_status seen)"
    | "\<not> is_final (pr_status seen)" "approvable (pr_status seen)" by blast
  then show ?thesis
  proof cases
    case 3
    then show ?thesis unfolding decide_with_def
      by (simp only: if_False not_True_eq_False) (intro sound.R_then sound.R_return outcome)
  qed (simp_all add: decide_with_def st_return_def sound.R_refl)
qed

lemma inv_pay_with: "keeps_inv w (fst (pay_with env c d seen w))"
proof -
  consider "pr_status seen = ''paid''" | "pr_status seen \<noteq> ''paid''" "pr_status seen \<noteq> ''approved''" | "pr_status seen = ''approved''" by blast
  then show ?thesis
  proof cases
    case 3
    then have approved: "(pr_status seen = ''paid'') = False" "(pr_status seen \<noteq> ''approved'') = False" by simp_all
    show ?thesis unfolding pay_with_def Let_def case_prod_unfold approved if_False
      by (intro sound.R_then sound.R_intros inv_update_imp status_changes inv_issue_all)
  qed (simp_all add: pay_with_def st_return_def sound.R_refl)
qed

lemma inv_insert_imp: "keeps_inv w (fst (insert_run env c (new_run env c i start e cur adjusts) w))"
  by (simp add: keeps_inv_def inv_insert)

lemma find_run_Some: "find_run w org i = Some r \<Longrightarrow> r \<in> set (pw_runs w) \<and> pr_org r = org \<and> pr_id r = i"
  unfolding find_run_def by (drule find_SomeD) blast

lemma inv_calls:
  "keeps_inv w (fst (create_run env c r w))" "keeps_inv w (fst (adjust_run env c raw w))"
  "keeps_inv w (fst (calculate_run env c raw w))" "keeps_inv w (fst (submit_run env c raw w))"
  "keeps_inv w (fst (approve_run env c raw w))" "keeps_inv w (fst (decide_run env c raw yes w))"
  "keeps_inv w (fst (pay_run env c d raw w))"
proof -
  show "keeps_inv w (fst (create_run env c r w))" "keeps_inv w (fst (adjust_run env c raw w))"
    unfolding create_run_def create_run_tx_def adjust_run_def adjust_tx_def Let_def
    by (auto split: sum.split intro!: sound.R_then sound.R_tx_all sound.R_intros inv_insert_imp)
  have "keeps_inv v v'" if "py_cached c scope (st_then (fetch_run c i) (calculate_with env c)) v = (v', Inr x)" for v v' scope i x
  proof (cases "py_idem_find c scope v")
    case None
    with that have "st_then (fetch_run c i) (calculate_with env c) v = (v', Inr x)" by (simp add: py_cached_def)
    from this [THEN st_then_Inr [THEN iffD1]] obtain v1 run where run: "fetch_run c i v = (v1, Inr run)"
      and calc: "calculate_with env c run v1 = (v', Inr x)" by blast
    then have "v1 = v" "run \<in> set (pw_runs v)" "pr_org run = sc_org c"
      by (auto simp: fetch_run_def py_internal_eq split: option.splits dest: find_run_Some)
    with calc show ?thesis by (auto simp: keeps_inv_def intro: inv_calculate)
  next
    case (Some a)
    with that show ?thesis by (cases a) (auto simp: py_cached_def intro: sound.R_refl)
  qed
  then show "keeps_inv w (fst (calculate_run env c raw w))"
    unfolding calculate_run_def by (auto intro!: sound.R_then sound.R_intros sound.R_tx)
  show "keeps_inv w (fst (submit_run env c raw w))" "keeps_inv w (fst (approve_run env c raw w))"
    "keeps_inv w (fst (decide_run env c raw yes w))" "keeps_inv w (fst (pay_run env c d raw w))"
    unfolding submit_run_def approve_run_def decide_run_def pay_run_def
    by (auto intro!: sound.R_then sound.R_intros sound.R_tx_all sound.R_cached inv_submit_with inv_approve_with inv_decide_with inv_pay_with)
qed

lemma payroll_call_inv: "payroll_call env w w' \<Longrightarrow> keeps_inv w w'"
  by (induction rule: payroll_call.induct) (rule sound.R_readers inv_calls | rule sound.R_frame; simp)+

text \<open>
  Interleaved calls: a submission, an approval, a decision or a payment may act on a row it read at
  any time before, while calculations are served whole, one at a time.
\<close>

inductive payroll_turn :: "payroll_env \<Rightarrow> payroll_world \<Rightarrow> payroll_world \<Rightarrow> bool" for env where
  whole: "payroll_call env w w' \<Longrightarrow> payroll_turn env w w'"
| stale_submit: "payroll_turn env w (fst (py_tx (submit_with env c seen) w))"
| stale_approve: "payroll_turn env w (fst (py_tx (approve_with env c seen) w))"
| stale_decision: "payroll_turn env w (fst (py_tx (decide_with env c yes seen) w))"
| stale_pay: "payroll_turn env w (fst (py_tx (pay_with env c d seen) w))"

lemma payroll_turn_inv: "payroll_turn env w w' \<Longrightarrow> keeps_inv w w'"
  by (induction rule: payroll_turn.induct)
    (simp_all only: payroll_call_inv, (rule sound.R_tx_all inv_submit_with inv_approve_with inv_decide_with inv_pay_with)+)

definition payroll_init :: "payroll_world \<Rightarrow> bool" where
  "payroll_init w \<longleftrightarrow> pw_runs w = [] \<and> pw_slips w = []"

interpretation payroll: transition_system payroll_init "payroll_turn env" payroll_inv for env
proof
  show "payroll_inv w'" if "payroll_inv w" "payroll_turn env w w'" for w w'
    using payroll_turn_inv [OF that(2)] that(1) by (simp add: keeps_inv_def)
qed (simp add: payroll_init_def payroll_inv_def)

text \<open>
  C28: As long as calculations do not overlap, the totals of a run are those of its payslips. Starting
  without runs, after any sequence of calls, of which submissions, approvals, decisions and payments
  may also act on rows read earlier, a run has the employee count, gross and deductions of its
  payslips, up to the wrap-around of the machine integers that hold them; its net is gross less
  deductions, and so is the net of every payslip; no amount is negative, and a draft has no
  payslips. \<open>calculate_run\<close> takes no lock, and two calculations that read the same draft break this
  (\<open>overlapping_calculations\<close>).
\<close>

theorem run_totals_exact:
  assumes "payroll_init w" "(payroll_turn env)\<^sup>*\<^sup>* w w'" "r \<in> set (pw_runs w')"
  shows "run_totals (slips_for w' r) r \<and> list_all (proper_slip (pr_org r) (pr_id r)) (slips_for w' r) \<and>
    (pr_status r = ''draft'' \<longrightarrow> slips_for w' r = [])"
proof -
  have "payroll_inv w'" by (rule payroll.reachable_inv [OF assms(1,2)])
  with assms(3) show ?thesis unfolding payroll_inv_def list_all_iff totals_ok_def by blast
qed

section \<open>Examples\<close>

abbreviation demo_drafted :: "payroll_world \<times> (py_failure + run_dto)" where
  "demo_drafted \<equiv> create_run demo_payroll_env demo_clerk \<lparr>cr_start = ''mon'', cr_end = ''wed'', cr_currency = ''USD'', cr_adjusts = None\<rparr> demo_payroll"

lemma demo_drafted_runs: "map (\<lambda>r. (pr_id r, pr_status r)) (pw_runs (fst demo_drafted)) = [(50, ''draft'')]"
  by code_simp

abbreviation demo_calculated :: "payroll_world \<times> (py_failure + int \<times> json)" where
  "demo_calculated \<equiv> calculate_run demo_payroll_env demo_clerk (prefix ''PayrollRun'' @ ''r'') (fst demo_drafted)"

lemma demo_calculated_runs:
  "map (\<lambda>r. (pr_id r, pr_org r, pr_status r, pr_count r, pr_gross r, pr_deductions r, pr_net r)) (pw_runs (fst demo_calculated)) =
    [(50, 1, ''calculated'', 1, 300000, 30000, 270000)]"
  by code_simp

theorem run_totals_exact_witness:
  "\<exists>r. r \<in> set (pw_runs (fst demo_calculated)) \<and> run_totals (slips_for (fst demo_calculated) r) r \<and> pr_gross r = 300000 \<and>
     list_all (proper_slip 1 50) (slips_for (fst demo_calculated) r)"
proof -
  from demo_calculated_runs obtain r where r: "pw_runs (fst demo_calculated) = [r]" "pr_id r = 50" "pr_org r = 1" "pr_gross r = 300000"
    by auto
  have "payroll_turn demo_payroll_env demo_payroll (fst demo_drafted)" "payroll_turn demo_payroll_env (fst demo_drafted) (fst demo_calculated)"
    by (rule payroll_turn.whole, rule payroll_call.create, rule payroll_turn.whole, rule payroll_call.calculate)
  then have "(payroll_turn demo_payroll_env)\<^sup>*\<^sup>* demo_payroll (fst demo_calculated)" by (rule converse_rtranclp_into_rtranclp [OF _ r_into_rtranclp])
  moreover have "payroll_init demo_payroll" by (simp add: payroll_init_def demo_payroll_def)
  ultimately show ?thesis using run_totals_exact [of demo_payroll demo_payroll_env "fst demo_calculated" r] r by auto
qed

text \<open>
  Two calculations read the same draft. The first one pays Ada; before the second one writes, Ada
  leaves and Grace joins. The second calculation does not clear the payslips of the first, so the
  run has two payslips and the totals of one.
\<close>

definition demo_grace :: "payroll_world \<Rightarrow> payroll_world" where
  "demo_grace w = w\<lparr>pw_employees := [\<lparr>em_id = 31, em_org = 1, em_public_id = ''emp_31'', em_user = None, em_name = ''Grace'',
       em_status = ''active'', em_owner = 3, em_created = 0, em_deleted = None\<rparr>],
     pw_pay := [\<lparr>bp_org = 1, bp_employee = 31, bp_type = ''base_salary'', bp_cipher = ''c'', bp_currency = ''USD'', bp_from = 0, bp_to = None,
       bp_deleted = None\<rparr>]\<rparr>"

theorem overlapping_calculations:
  "let seen = hd (pw_runs (fst demo_drafted)); env = demo_payroll_env\<lparr>pye_service := demo_journals_env\<lparr>jv_relay :=
         demo_relay_env\<lparr>re_show_uuid := (\<lambda>u. if u = 1 then ''o'' else if u = 3 then ''u'' else bits_of_uuid u)\<rparr>\<rparr>\<rparr>;
       w1 = fst (py_tx (calculate_with env demo_clerk seen) (fst demo_drafted));
       w2 = fst (py_tx (calculate_with env demo_clerk seen) (demo_grace w1))
   in map (\<lambda>r. (pr_status r, pr_count r, pr_gross r)) (pw_runs w2) = [(''calculated'', 1, 300000)] \<and>
      map sl_gross (pw_slips w2) = [300000, 300000]"
  by code_simp

end
