(* ===== verification/Payroll_Payment.thy ===== *)
theory Payroll_Payment
  imports Payroll_Totals
begin

text \<open>
  The payment of a run across the two services: without local authentication no run is ever paid,
  and what a payment that succeeds leaves in the ledger of the finance service.
\<close>

section \<open>Payment needs local authentication\<close>

definition paid_kept :: "payroll_world \<Rightarrow> payroll_world \<Rightarrow> bool" where
  "paid_kept w w' \<longleftrightarrow> (\<forall>q \<in> set (pw_runs w'). pr_status q = ''paid'' \<longrightarrow> q \<in> set (pw_runs w))"

interpretation unpaid: payroll_relation paid_kept
  by unfold_locales (auto simp: paid_kept_def)

lemma unpaid_runs: "pw_runs w' = pw_runs w \<Longrightarrow> paid_kept w w'"
  by (simp add: paid_kept_def)

lemma unpaid_update:
  assumes "\<And>r. pr_status (f r) \<noteq> ''paid''"
  shows "paid_kept w (fst (update_run env c i f w))"
proof -
  have "paid_kept w w'" if "update_run env c i f w = (w', Inr q)" for w' q
    using update_run_Inr [OF that] assms by (auto simp: paid_kept_def)
  then show ?thesis using update_run_fst [of env c i f w] by (metis unpaid.R_refl)
qed

lemma unpaid_insert: "paid_kept w (fst (insert_run env c (new_run env c i start e cur adjusts) w))"
  by (auto simp: insert_run_def paid_kept_def new_run_def)

lemma unpaid_calculate: "paid_kept w (fst (calculate_with env c run w))"
proof -
  have "paid_kept v (fst (calc_sums env c run v))" for v using only_run_sums [of run v env c] by (simp add: only_run_def unpaid_runs)
  then show ?thesis unfolding calculate_with_def
    by (auto intro!: unpaid.R_then unpaid.R_intros unpaid_update)
qed

lemma unpaid_parts:
  "paid_kept w (fst (submit_with env c seen w))" "paid_kept w (fst (approve_with env c seen w))"
  "paid_kept w (fst (decide_with env c yes seen w))"
  unfolding submit_with_def approve_with_def decide_with_def do_approve_run_def
  by (auto intro!: unpaid.R_then unpaid.R_intros unpaid_update)

text \<open>The finance service refuses a request that has no access token.\<close>

lemma journal_refused:
  assumes "\<not> pye_local_auth env"
  shows "post_payroll_journal env c d run w \<noteq> (w', Inr x)"
  using assms by (auto simp: post_payroll_journal_def post_without_bearer_def extract_without_bearer_def Let_def st_then_def
      st_return_def py_internal_eq)

lemma unpaid_pay:
  assumes "\<not> pye_local_auth env"
  shows "paid_kept w (fst (pay_with env c d seen w))"
  unfolding pay_with_def by (auto intro!: unpaid.R_then_Inr [OF unpaid.R_journal] unpaid.R_intros simp: journal_refused [OF assms])

lemma unpaid_calls:
  assumes "\<not> pye_local_auth env"
  shows "paid_kept w (fst (create_run env c r w))" "paid_kept w (fst (adjust_run env c raw w))"
    "paid_kept w (fst (calculate_run env c raw w))" "paid_kept w (fst (submit_run env c raw w))"
    "paid_kept w (fst (approve_run env c raw w))" "paid_kept w (fst (decide_run env c raw yes w))"
    "paid_kept w (fst (pay_run env c d raw w))"
proof -
  show "paid_kept w (fst (create_run env c r w))" "paid_kept w (fst (adjust_run env c raw w))"
    unfolding create_run_def create_run_tx_def adjust_run_def adjust_tx_def Let_def
    by (auto split: sum.split intro!: unpaid.R_then unpaid.R_tx_all unpaid.R_intros unpaid_insert)
  show "paid_kept w (fst (calculate_run env c raw w))" "paid_kept w (fst (submit_run env c raw w))"
    "paid_kept w (fst (approve_run env c raw w))" "paid_kept w (fst (decide_run env c raw yes w))"
    "paid_kept w (fst (pay_run env c d raw w))"
    unfolding calculate_run_def submit_run_def approve_run_def decide_run_def pay_run_def
    by (auto intro!: unpaid.R_then unpaid.R_intros unpaid.R_tx_all unpaid.R_cached unpaid_calculate unpaid_parts unpaid_pay [OF assms])
qed

lemma unpaid_call:
  assumes "\<not> pye_local_auth env"
  shows "payroll_call env w w' \<Longrightarrow> paid_kept w w'"
  by (induction rule: payroll_call.induct) (rule unpaid.R_readers unpaid_calls [OF assms] | rule unpaid.R_frame; simp)+

lemma unpaid_race:
  assumes "\<not> pye_local_auth env"
  shows "payroll_race env w w' \<Longrightarrow> paid_kept w w'"
  by (induction rule: payroll_race.induct)
    (erule unpaid_call [OF assms] | rule unpaid.R_tx_all unpaid_calculate unpaid_parts unpaid_pay [OF assms])+

lemma unpaid_races:
  assumes "\<not> pye_local_auth env"
  shows "(payroll_race env)\<^sup>*\<^sup>* w w' \<Longrightarrow> paid_kept w w'"
  by (induction rule: rtranclp_induct) (auto intro: unpaid.R_refl unpaid.R_trans unpaid_race [OF assms])

text \<open>
  C30: Unless local authentication is switched on in the finance service, no payroll run is ever
  paid, whatever calls are made: every run that is paid afterwards was paid before. The payment
  sends no access token, so the finance service refuses its journal.
\<close>

theorem unpaid_without_local_auth:
  assumes "\<not> pye_local_auth env" "(payroll_race env)\<^sup>*\<^sup>* w w'" "q \<in> set (pw_runs w')" "pr_status q = ''paid''"
  shows "q \<in> set (pw_runs w)"
  using unpaid_races [OF assms(1,2)] assms(3,4) by (simp add: paid_kept_def)

section \<open>What a payment leaves in the ledger\<close>

lemma explicit_lines_Inr:
  assumes "collect_res (explicit_line c db) ls = Inr ls'"
  shows "ls' = ls \<and> list_all one_sided ls"
proof -
  have "l' = l \<and> one_sided l" if "explicit_line c db l = Inr l'" for l l'
    using that by (auto simp: explicit_line_def resolve_active_account_code_def result_simps split: if_splits option.splits dest: find_SomeD)
  with assms show ?thesis unfolding collect_res_Inr
    by (induction rule: list_all2_induct) auto
qed

lemma for_each_keeps:
  assumes "\<And>x s s'. f x s = Inr s' \<Longrightarrow> g s' = g s"
  shows "for_each f xs s = Inr s' \<Longrightarrow> g s' = g s"
  by (induction xs arbitrary: s) (auto simp: result_simps dest: assms)

lemma ensure_accounts_keeps:
  assumes "ensure_ledger_accounts env org db = Inr db'"
  shows "entries db' = entries db \<and> entry_lines db' = entry_lines db"
proof -
  let ?g = "\<lambda>db. (entries db, entry_lines db)"
  obtain m where m: "for_each (upsert_account env org) standard_accounts db = Inr m"
    "for_each (insert_category env org) standard_categories m = Inr db'"
    using assms by (auto simp: ensure_ledger_accounts_def result_simps)
  have "?g s' = ?g s" if "upsert_account env org a s = Inr s'" for a s s'
    using that by (auto simp: upsert_account_def new_uuid_v7_def Let_def split: prod.splits if_splits)
  from for_each_keeps [of "upsert_account env org" ?g, OF this m(1)] have "?g m = ?g db" .
  moreover have "?g s' = ?g s" if "insert_category env org a s = Inr s'" for a s s'
    using that by (auto simp: insert_category_def new_uuid_v7_def Let_def split: prod.splits if_splits)
  from for_each_keeps [of "insert_category env org" ?g, OF this m(2)] have "?g db' = ?g m" .
  ultimately show ?thesis by simp
qed

text \<open>The entry that a posting adds, with its source.\<close>

definition journal_added :: "uuid \<Rightarrow> string \<Rightarrow> uuid \<Rightarrow> ledger_line list \<Rightarrow> finance_db \<Rightarrow> finance_db \<Rightarrow> journal_entry \<Rightarrow> bool" where
  "journal_added org source_type source_id ls db db' e \<longleftrightarrow> entries db' = entries db @ [e] \<and> je_org e = org \<and>
     je_source_type e = source_type \<and> je_source_id e = source_id \<and> je_id e \<notin> je_id ` set (entries db) \<and> debits ls = credits ls \<and>
     (\<exists>rs. entry_lines db' = entry_lines db @ rs \<and> list_all2 (line_posted db' org (je_id e)) ls rs)"

abbreviation entry_posted :: "uuid \<Rightarrow> journal_draft \<Rightarrow> finance_db \<Rightarrow> finance_db \<Rightarrow> journal_entry \<Rightarrow> bool" where
  "entry_posted org d \<equiv> journal_added org (jd_source_type d) (jd_source_id d) (jd_lines d)"

lemma post_journal_entry:
  assumes "picks_member env" "post_journal env today org d rid db = Inr (db', i)"
  shows "\<exists>e. entry_posted org d db db' e \<and> je_id e = i"
proof -
  from assms(2) obtain db1 p db2 e where bal: "assert_balanced d = Inr ()"
    and per: "ensure_period_for_date env org (case jd_entry_date d of Some d \<Rightarrow> d | None \<Rightarrow> today) db = Inr (db1, p)"
    and ins: "insert_entry e (db1\<lparr>uuids := Suc (uuids db1)\<rparr>) = Inr db2"
    and e: "je_id e = i" "je_org e = org" "je_source_type e = jd_source_type d" "je_source_id e = jd_source_id d"
    and ls: "for_each (post_line env org rid i) (jd_lines d) db2 = Inr db'"
    by (auto simp: post_journal_def Let_def new_uuid_v7_def result_simps accepts_posting_Inr split: prod.splits)
  from ensure_period_Inr [OF assms(1) per] obtain ps n where db1: "db1 = db\<lparr>periods := periods db @ ps, uuids := n\<rparr>" by blast
  from insert_entry_Inr [OF ins] have db2: "db2 = db1\<lparr>uuids := Suc (uuids db1), entries := entries db @ [e]\<rparr>"
    and fresh: "\<forall>r \<in> set (entries db). je_id r \<noteq> i" by (simp_all add: db1 e)
  from post_lines_Inr [OF ls] obtain rs m where rs: "list_all2 (line_posted db2 org i) (jd_lines d) rs"
    and db': "db' = db2\<lparr>entry_lines := entry_lines db2 @ rs, uuids := m\<rparr>" by blast
  have "line_posted db2 = line_posted db'" by (rule line_posted_same_accounts) (simp add: db')
  then have "entry_posted org d db db' e" using e fresh rs assert_balanced_Inr [OF bal]
    by (auto simp: journal_added_def db' db2 db1)
  with e show ?thesis by blast
qed

text \<open>The steps of the endpoint that leave the ledger alone.\<close>

definition same_ledger :: "finance_db \<Rightarrow> finance_db \<Rightarrow> bool" where
  "same_ledger db db' \<longleftrightarrow> entries db' = entries db \<and> entry_lines db' = entry_lines db \<and> accounts db' = accounts db"

lemma same_ledger_jn:
  "jn_uuid env w = (w', x) \<Longrightarrow> same_ledger (fw_db w) (fw_db w')"
  "jn_audit env c a t i m w = (w', y) \<Longrightarrow> same_ledger (fw_db w) (fw_db w')"
  "jn_emit env c j w = (w', y) \<Longrightarrow> same_ledger (fw_db w) (fw_db w')"
  "jn_idem_put env c n j w = (w', y) \<Longrightarrow> same_ledger (fw_db w) (fw_db w')"
proof -
  show "jn_uuid env w = (w', x) \<Longrightarrow> same_ledger (fw_db w) (fw_db w')"
    by (auto simp: jn_uuid_def new_uuid_v7_def same_ledger_def)
  show "jn_audit env c a t i m w = (w', y) \<Longrightarrow> same_ledger (fw_db w) (fw_db w')"
    by (auto simp: jn_audit_def st_then_def jn_uuid_def new_uuid_v7_def same_ledger_def split: if_splits)
  show "jn_emit env c j w = (w', y) \<Longrightarrow> same_ledger (fw_db w) (fw_db w')"
    by (auto simp: jn_emit_def st_then_def jn_uuid_def new_uuid_v7_def same_ledger_def jn_fail_def st_return_def Let_def
        split: sum.splits prod.splits)
  show "jn_idem_put env c n j w = (w', y) \<Longrightarrow> same_ledger (fw_db w) (fw_db w')"
    by (auto simp: jn_idem_put_def st_then_def jn_uuid_def new_uuid_v7_def same_ledger_def st_return_def split: option.splits if_splits)
qed

lemma journal_added_same:
  assumes "journal_added org st sid ls db1 db2 e" "same_ledger db2 db3"
  shows "journal_added org st sid ls db1 db3 e"
proof -
  have "line_posted db3 = line_posted db2" using assms(2) by (intro line_posted_same_accounts) (simp add: same_ledger_def)
  with assms show ?thesis by (simp add: journal_added_def same_ledger_def)
qed

lemma load_added:
  assumes "journal_added org st sid ls db db' e"
  shows "load_entry_dto env db' org (je_id e) = Some (entry_dto env db' org e)"
proof -
  have "find (\<lambda>x. je_org x = org \<and> je_id x = je_id e) (xs @ [e]) = Some e" if "je_id e \<notin> je_id ` set xs" "je_org e = org" for xs
    using that by (induction xs) auto
  with assms show ?thesis by (auto simp: load_entry_dto_def journal_added_def)
qed

lemma same_ledger_trans: "same_ledger a b \<Longrightarrow> same_ledger b c \<Longrightarrow> same_ledger a c"
  by (simp add: same_ledger_def)

lemma post_new_Inr:
  assumes "post_new env c d w = (w', Inr (b, status, dto))" "picks_member (jv_fin env)"
  shows "b \<and> (\<exists>e. entry_posted (sc_org c) d (fw_db w) (fw_db w') e \<and> jt_id dto = je_public_id e)"
proof -
  from assms(1) [unfolded post_new_def, THEN st_then_Inr [THEN iffD1]] obtain w1 i where post: "jn_post env c d w = (w1, Inr i)"
    and rest: "(case load_entry_dto env (fw_db w1) (sc_org c) i of
        None \<Rightarrow> jn_fail Internal c ''journal missing after post''
      | Some dto \<Rightarrow>
          st_then (jn_audit env c ''finance.journal.post'' ''journal_entry'' (jt_id dto) (json_object
            [(''source_type'', JStr (jd_source_type d)), (''source_id'', JStr (show_uuid (jv_fin env) (jd_source_id d))),
             (''line_count'', JInt (int (length (jd_lines d))))])) (\<lambda>_.
          st_then (jn_emit env c (json_object
            [(''id'', JStr (jt_id dto)), (''source_type'', JStr (jd_source_type d)),
             (''source_id'', JStr (show_uuid (jv_fin env) (jd_source_id d)))])) (\<lambda>_.
          st_then (jn_idem_put env c 201 (jv_dto_json env dto)) (\<lambda>_.
          st_return (Inr (True, 201, dto)))))) w1 = (w', Inr (b, status, dto))" by blast
  have "post_journal (jv_fin env) (sc_today c) (sc_org c) d (sc_request_id c) (fw_db w) = Inr (fw_db w1, i)"
    using post by (auto simp: jn_post_def split: sum.splits prod.splits)
  from post_journal_entry [OF assms(2) this] obtain e where e: "entry_posted (sc_org c) d (fw_db w) (fw_db w1) e" "je_id e = i" by blast
  from rest load_added [OF e(1)] e(2)
  have "same_ledger (fw_db w1) (fw_db w') \<and> b \<and> dto = entry_dto env (fw_db w1) (sc_org c) e"
    by (auto simp: st_then_Inr st_return_def dest!: same_ledger_jn intro: same_ledger_trans)
  with journal_added_same [OF e(1)] show ?thesis by (auto simp: entry_dto_def)
qed

definition no_entry_for :: "uuid \<Rightarrow> string \<Rightarrow> uuid \<Rightarrow> finance_db \<Rightarrow> bool" where
  "no_entry_for org source_type source_id db \<longleftrightarrow> filter (same_source org source_type source_id) (entries db) = []"

lemma post_draft_Inr:
  assumes "post_draft env c d w = (w', Inr (b, status, dto))" "picks_member (jv_fin env)" "sc_key c = None"
    and "no_entry_for (sc_org c) (jd_source_type d) (jd_source_id d) (fw_db w)"
  shows "b \<and> (\<exists>e. entry_posted (sc_org c) d (fw_db w) (fw_db w') e \<and> jt_id dto = je_public_id e)"
proof (rule post_new_Inr [OF _ assms(2)])
  show "post_new env c d w = (w', Inr (b, status, dto))"
    using assms(1,3,4) by (simp add: post_draft_def jn_idem_find_def fetch_by_source_def no_entry_for_def jn_fail_def st_return_def split: if_splits)
qed

lemma post_tx_Inr:
  assumes "post_tx env c r cur i day w = (w', Inr (b, status, dto))" "picks_member (jv_fin env)" "sc_key c = None"
    and "pq_reverses_of r = None" "no_entry_for (sc_org c) (str_trim (pq_source_type r)) i (fw_db w)"
  shows "b \<and> pq_lines r \<noteq> [] \<and> list_all one_sided (pq_lines r) \<and>
    (\<exists>e. journal_added (sc_org c) (str_trim (pq_source_type r)) i (pq_lines r) (fw_db w) (fw_db w') e \<and> jt_id dto = je_public_id e)"
proof -
  from assms(1) [unfolded post_tx_def, THEN st_then_Inr [THEN iffD1]] obtain w1 u
    where accs: "jn_db env c (ensure_ledger_accounts (jv_fin env) (sc_org c)) w = (w1, Inr u)"
    and "st_then (st_return (case pq_reverses_of r of
        None \<Rightarrow> Inr None
      | Some raw \<Rightarrow> and_then (parse_journal_public_id env c raw) (\<lambda>i. Inr (Some i)))) (\<lambda>reverses.
     st_then (\<lambda>w. (w, request_lines env c (fw_db w) reverses (pq_lines r))) (\<lambda>ls.
     if ls = [] then jn_fail ValidationFailed c ''lines required''
     else post_draft env c (journal_of_request env c r cur i day reverses ls))) w1 = (w', Inr (b, status, dto))" by blast
  from this(2) assms(4) obtain ls where ls: "request_lines env c (fw_db w1) None (pq_lines r) = Inr ls" "ls \<noteq> []"
    and post: "post_draft env c (journal_of_request env c r cur i day None ls) w1 = (w', Inr (b, status, dto))"
    by (auto simp: st_then_Inr st_return_def jn_fail_def split: if_splits)
  have eq: "pq_lines r = ls" "list_all one_sided ls"
    using ls by (auto simp: request_lines_def split: if_splits dest: explicit_lines_Inr)
  have "\<exists>db. ensure_ledger_accounts (jv_fin env) (sc_org c) (fw_db w) = Inr db \<and> fw_db w1 = db"
    using accs by (auto simp: jn_db_def split: sum.splits)
  then have old: "entries (fw_db w1) = entries (fw_db w)" "entry_lines (fw_db w1) = entry_lines (fw_db w)"
    by (auto dest: ensure_accounts_keeps)
  have d: "jd_source_type (journal_of_request env c r cur i day None ls) = str_trim (pq_source_type r)"
    "jd_source_id (journal_of_request env c r cur i day None ls) = i" "jd_lines (journal_of_request env c r cur i day None ls) = ls"
    by (simp_all add: journal_of_request_def Let_def)
  from assms(5) have "no_entry_for (sc_org c) (str_trim (pq_source_type r)) i (fw_db w1)" by (simp add: no_entry_for_def old)
  from post_draft_Inr [OF post assms(2,3), unfolded d, OF this] show ?thesis
    using ls(2) eq unfolding journal_added_def old by blast
qed

lemma post_handler_Inr:
  assumes "post_journal_handler env c r w = (w', Inr (status, dto))" "picks_member (jv_fin env)" "sc_key c = None"
    and "pq_reverses_of r = None" "pq_entry_date r = None" "str_trim (pq_source_id r) \<noteq> []"
    and "jv_parse_uuid env (str_trim (pq_source_id r)) = Inr i"
    and "no_entry_for (sc_org c) (str_trim (pq_source_type r)) i (fw_db w)"
  shows "pq_lines r \<noteq> [] \<and> list_all one_sided (pq_lines r) \<and>
    (\<exists>e. journal_added (sc_org c) (str_trim (pq_source_type r)) i (pq_lines r) (fw_db w) (fw_db w') e \<and> jt_id dto = je_public_id e)"
proof -
  have src: "parse_source_id env c r = st_return (Inr i)" and day: "parse_entry_date env c (pq_entry_date r) = st_return (Inr None)"
    using assms(5-7) by (simp_all add: parse_source_id_def parse_entry_date_def)
  from assms(1) obtain cur where "jn_tx (post_tx env c r cur i None) w = (w', Inr (status, dto))"
    unfolding post_journal_handler_def src day
    by (auto simp: st_then_Inr st_return_def jn_require_def jn_fail_def split: if_splits sum.splits)
  then obtain v b where v: "post_tx env c r cur i None w = (v, Inr (b, status, dto))" and w': "w' = (if b then v else jn_rollback w v)"
    by (auto simp: jn_tx_def split: sum.splits prod.splits)
  from post_tx_Inr [OF v assms(2-4,8)] w' show ?thesis by simp
qed

section \<open>The payment\<close>

lemma finance_caller:
  assumes "extract_without_bearer (pye_service env) b now today (finance_headers env c) = Inr fc" "sc_key c = None"
    and "jv_parse_uuid (pye_service env) (re_show_uuid (py_relay env) (sc_org c)) = Inr (sc_org c)"
  shows "sc_org fc = sc_org c \<and> sc_key fc = None"
proof -
  have h: "map_of (finance_headers env c) ''x-companyos-dev-org-id'' = Some (py_public env ''Org'' (sc_org c))"
    "map_of (finance_headers env c) ''x-companyos-dev-user-id'' = Some (py_public env ''User'' (user_id (sc_actor c)))"
    "map_of (finance_headers env c) ''idempotency-key'' = None"
    by (simp_all add: finance_headers_def assms(2))
  have org: "parse_org_public_id (pye_service env) (py_public env ''Org'' (sc_org c)) = Inr (sc_org c)"
    using parse_printed_id [of "jv_parse_uuid (pye_service env)" "re_show_uuid (py_relay env)" "sc_org c" "''Org''"] assms(3)
    by (simp add: parse_org_public_id_def py_public_def id_kinds_def org_from_public_def public_id_new_def)
  have "from_local_headers (pye_service env) now today (finance_headers env c) = Inr (Some fc)"
    using assms(1) by (auto simp: extract_without_bearer_def result_simps split: if_splits option.splits)
  then show ?thesis
    by (auto simp: from_local_headers_def h org Let_def result_simps finance_header_key_def)
qed

lemma payroll_journal_Inr:
  assumes "post_payroll_journal env c d run w = (w', Inr (j, x))" "sc_key c = None" "picks_member (jv_fin (pye_service env))"
    and "jv_parse_uuid (pye_service env) (re_show_uuid (py_relay env) (sc_org c)) = Inr (sc_org c)"
    and "str_trim (re_show_uuid (py_relay env) (pr_id run)) \<noteq> []"
    and "jv_parse_uuid (pye_service env) (str_trim (re_show_uuid (py_relay env) (pr_id run))) = Inr (pr_id run)"
    and "no_entry_for (sc_org c) ''payroll'' (pr_id run) (fw_db (pw_finance w))"
  shows "pw_runs w' = pw_runs w \<and> payroll_lines run \<noteq> [] \<and> list_all one_sided (payroll_lines run) \<and>
    (\<exists>e. journal_added (sc_org c) ''payroll'' (pr_id run) (payroll_lines run) (fw_db (pw_finance w)) (fw_db (pw_finance w')) e \<and>
      j = je_public_id e)"
proof -
  from assms(1) obtain fw status dto where call: "post_without_bearer (pye_service env) (pye_local_auth env) (sc_now c) (sc_today c)
      (finance_headers env c) (journal_request env run) (pw_finance w) = (fw, Inr (status, dto))"
    and w': "w' = w\<lparr>pw_finance := fw\<rparr>" and j: "j = jt_id dto"
    by (auto simp: post_payroll_journal_def Let_def py_internal_eq split: if_splits prod.splits sum.splits)
  then obtain fc where fc: "extract_without_bearer (pye_service env) (pye_local_auth env) (sc_now c) (sc_today c) (finance_headers env c) = Inr fc"
    and post: "post_journal_handler (pye_service env) fc (journal_request env run) (pw_finance w) = (fw, Inr (status, dto))"
    by (auto simp: post_without_bearer_def st_then_Inr st_return_def)
  note caller = finance_caller [OF fc assms(2,4)]
  have r: "pq_reverses_of (journal_request env run) = None" "pq_entry_date (journal_request env run) = None"
    "pq_source_id (journal_request env run) = re_show_uuid (py_relay env) (pr_id run)"
    "str_trim (pq_source_type (journal_request env run)) = ''payroll''" "pq_lines (journal_request env run) = payroll_lines run"
    by (simp_all add: journal_request_def) code_simp
  from post_handler_Inr [OF post assms(3) _ r(1,2), of "pr_id run"] assms(5-7) caller show ?thesis
    by (simp add: r w' j)
qed

lemma payroll_lines_sums:
  assumes "payroll_lines run \<noteq> []" "debits (payroll_lines run) = credits (payroll_lines run)"
  shows "0 < pr_gross run \<and> debits (payroll_lines run) = pr_gross run"
  using assms by (auto simp: payroll_lines_def line_debit_def line_credit_def split: if_splits)

text \<open>The rest of the payment leaves the runs and the finance service alone.\<close>

definition kept :: "payroll_world \<Rightarrow> payroll_world \<Rightarrow> bool" where
  "kept w w' \<longleftrightarrow> pw_runs w' = pw_runs w \<and> pw_finance w' = pw_finance w"

lemma kept_trans: "kept a b \<Longrightarrow> kept b c \<Longrightarrow> kept a c"
  by (simp add: kept_def)

lemma kept_steps:
  "py_emit env c g t j w = (w', y) \<Longrightarrow> kept w w'" "py_audit env c a t i j w = (w', y) \<Longrightarrow> kept w w'"
  "py_idem_put env c s j w = (w', y) \<Longrightarrow> kept w w'" "issue_all env c xs w = (w', y) \<Longrightarrow> kept w w'"
proof -
  show emit: "py_emit env c g t j w = (w', y) \<Longrightarrow> kept w w'" for g t j w w' y
    by (auto simp: py_emit_def st_then_def py_uuid_def kept_def py_fail_def st_return_def Let_def split: sum.splits prod.splits)
  show "py_audit env c a t i j w = (w', y) \<Longrightarrow> kept w w'"
    by (auto simp: py_audit_def st_then_def py_uuid_def kept_def py_internal_def py_fail_def st_return_def split: if_splits)
  show "py_idem_put env c s j w = (w', y) \<Longrightarrow> kept w w'"
    by (auto simp: py_idem_put_def st_then_def py_uuid_def kept_def st_return_def split: option.splits if_splits)
  have issue: "kept v (fst (issue_slip env c i v))" for i v
    by (simp add: issue_slip_def Let_def kept_def)
  show "issue_all env c xs w = (w', y) \<Longrightarrow> kept w w'"
  proof (induction xs arbitrary: w)
    case (Cons x xs)
    obtain s r e where x: "x = (s, r, e)" by (cases x)
    obtain w1 z where one: "issue_slip env c (sl_id s) w = (w1, z)" by fastforce
    have "kept w w1" using issue [where i = "sl_id s" and v = w] by (simp add: one)
    with Cons.prems Cons.IH show ?case unfolding x issue_all.simps
      by (auto simp: st_then_def one split: sum.splits prod.splits dest!: emit intro: kept_trans)
  qed (simp add: st_return_def kept_def)
qed

lemma pay_with_Inr:
  assumes "pay_with env c d run w = (w', Inr x)" "pr_status run = ''approved''"
  obtains w1 w2 j entry q where "post_payroll_journal env c d run w = (w1, Inr (j, entry))"
    "update_run env c (pr_id run) (\<lambda>r. r\<lparr>pr_status := ''paid'', pr_paid := Some (sc_now c), pr_journal_public := Some j,
       pr_journal_entry := entry\<rparr>) w1 = (w2, Inr q)" "kept w2 w'"
proof -
  have approved: "(pr_status run = ''paid'') = False" "(pr_status run \<noteq> ''approved'') = False" using assms(2) by simp_all
  let ?rest = "\<lambda>r w. let slips = joined_slips w (slips_of_run c (pr_id run)) in
        st_then (issue_all env c slips) (\<lambda>_.
        st_then (py_emit env c ''payroll_run'' ''paid'' (json_object
          [(''id'', JStr (pr_public_id r)), (''journal_public_id'', opt_json (pr_journal_public r))])) (\<lambda>_.
        st_then (py_audit env c ''hr.payroll.pay'' ''payroll_run'' (pr_public_id r) (json_object
          [(''journal_public_id'', opt_json (pr_journal_public r)), (''payslip_count'', JInt (int (length slips)))])) (\<lambda>_.
        st_then (py_idem_put env c ''payroll.pay'' (run_json env r)) (\<lambda>_.
        st_return (Inr (200, run_json env r)))))) w"
  from assms(1) [unfolded pay_with_def approved if_False case_prod_unfold, THEN st_then_Inr [THEN iffD1]] obtain w1 je
    where post: "post_payroll_journal env c d run w = (w1, Inr je)"
    and "st_then (update_run env c (pr_id run) (\<lambda>r. r\<lparr>pr_status := ''paid'', pr_paid := Some (sc_now c),
      pr_journal_public := Some (fst je), pr_journal_entry := snd je\<rparr>)) ?rest w1 = (w', Inr x)" by blast
  from this(2) [THEN st_then_Inr [THEN iffD1]] obtain w2 q where upd: "update_run env c (pr_id run) (\<lambda>r. r\<lparr>pr_status := ''paid'',
      pr_paid := Some (sc_now c), pr_journal_public := Some (fst je), pr_journal_entry := snd je\<rparr>) w1 = (w2, Inr q)"
    and rest: "?rest q w2 = (w', Inr x)" by blast
  have "kept w2 w'" using rest by (auto simp: Let_def st_then_Inr st_return_def dest!: kept_steps intro: kept_trans)
  with that post upd show thesis by (cases je) simp
qed

text \<open>
  C29: A payment that succeeds has put the run into the ledger: when the call carries no idempotency
  key and the finance service has no payroll entry for the run yet, exactly one entry is added there,
  for this run and organisation, with the lines for wages, deductions and net pay of the approved
  amounts on active accounts, debits and credits both equal to the gross, which is positive; and the
  run is paid, with its money as approved and the public id of that entry.
\<close>

theorem paid_run_in_ledger:
  assumes "pay_run env c d raw w = (w', Inr x)" "public_id_from_str (jv_parse_uuid (pye_service env)) raw = Inr (public_id_new ''PayrollRun'' i)"
    and "find_run w (sc_org c) i = Some run" "pr_status run = ''approved''" "distinct (map pr_id (pw_runs w))" "sc_key c = None"
    and "picks_member (jv_fin (pye_service env))"
    and "jv_parse_uuid (pye_service env) (re_show_uuid (py_relay env) (sc_org c)) = Inr (sc_org c)"
    and "str_trim (re_show_uuid (py_relay env) i) \<noteq> []" "jv_parse_uuid (pye_service env) (str_trim (re_show_uuid (py_relay env) i)) = Inr i"
    and "no_entry_for (sc_org c) ''payroll'' i (fw_db (pw_finance w))"
  shows "\<exists>e q. journal_added (sc_org c) ''payroll'' i (payroll_lines run) (fw_db (pw_finance w)) (fw_db (pw_finance w')) e \<and>
    0 < pr_gross run \<and> debits (payroll_lines run) = pr_gross run \<and> q \<in> set (pw_runs w') \<and> run_money q = run_money run \<and>
    pr_status q = ''paid'' \<and> pr_journal_public q = Some (je_public_id e)"
proof -
  have fetch: "fetch_run c i w = (w, Inr run)" using assms(3) by (simp add: fetch_run_def)
  from assms(1,2,6) have "py_tx (st_then (fetch_run c i) (pay_with env c d)) w = (w', Inr x)"
    by (auto simp: pay_run_def st_then_Inr py_parse_public_id_def public_id_new_def st_return_def py_require_def py_member_def
        py_cached_def py_idem_find_def py_tx_def)
  then have pay: "pay_with env c d run w = (w', Inr x)"
    by (auto simp: py_tx_def st_then_def fetch split: prod.splits sum.splits)
  note run = find_run_Some [OF assms(3)]
  obtain w1 w2 j entry q where post: "post_payroll_journal env c d run w = (w1, Inr (j, entry))"
    and upd: "update_run env c (pr_id run) (\<lambda>r. r\<lparr>pr_status := ''paid'', pr_paid := Some (sc_now c), pr_journal_public := Some j,
       pr_journal_entry := entry\<rparr>) w1 = (w2, Inr q)" and kept: "kept w2 w'"
    by (rule pay_with_Inr [OF pay assms(4)], rule that, assumption+)
  from payroll_journal_Inr [OF post assms(6-8)] assms(9-11) run obtain e where runs: "pw_runs w1 = pw_runs w" and lines: "payroll_lines run \<noteq> []"
    and e: "journal_added (sc_org c) ''payroll'' i (payroll_lines run) (fw_db (pw_finance w)) (fw_db (pw_finance w1)) e" "j = je_public_id e"
    by auto
  have gross: "0 < pr_gross run \<and> debits (payroll_lines run) = pr_gross run"
    using payroll_lines_sums [OF lines] e(1) by (simp add: journal_added_def)
  from update_run_Inr [OF upd] obtain r where r: "r \<in> set (pw_runs w)" "hit_run c (pr_id run) r"
    and q: "q = stamped c (\<lambda>r. r\<lparr>pr_status := ''paid'', pr_paid := Some (sc_now c), pr_journal_public := Some j, pr_journal_entry := entry\<rparr>) r"
    and w2: "w2 = w1\<lparr>pw_runs := map (\<lambda>r. if hit_run c (pr_id run) r then stamped c (\<lambda>r. r\<lparr>pr_status := ''paid'', pr_paid := Some (sc_now c),
      pr_journal_public := Some j, pr_journal_entry := entry\<rparr>) r else r) (pw_runs w1)\<rparr>" unfolding runs by blast
  have "r = run" using keyed [OF assms(5) r(1), of run] run r(2) by (simp add: hit_run_def)
  then have "run_money q = run_money run" "pr_status q = ''paid''" "pr_journal_public q = Some j"
    unfolding q by (simp_all add: run_money_def stamped_def)
  moreover have "q \<in> set (pw_runs w2)" using r unfolding w2 runs q by auto
  moreover have "pw_finance w2 = pw_finance w1" by (simp add: w2)
  ultimately show ?thesis using e gross kept unfolding kept_def by metis
qed

section \<open>Examples\<close>

abbreviation demo_run_id :: string where
  "demo_run_id \<equiv> prefix ''PayrollRun'' @ ''r''"

theorem unpaid_without_local_auth_witness:
  "list_all (\<lambda>q. pr_status q \<noteq> ''paid'')
     (pw_runs (fst (pay_run (demo_payroll_env\<lparr>pye_local_auth := False\<rparr>) demo_clerk Delivered demo_run_id demo_race_world)))"
proof -
  let ?env = "demo_payroll_env\<lparr>pye_local_auth := False\<rparr>"
  let ?w = "fst (pay_run ?env demo_clerk Delivered demo_run_id demo_race_world)"
  have "(payroll_race ?env)\<^sup>*\<^sup>* demo_race_world ?w" by (rule r_into_rtranclp, rule payroll_race.whole, rule payroll_call.pay)
  from unpaid_without_local_auth [OF _ this] have "q = demo_run" if "q \<in> set (pw_runs ?w)" "pr_status q = ''paid''" for q using that by simp
  moreover have "pr_status demo_run \<noteq> ''paid''" by (simp add: demo_run_def)
  ultimately show ?thesis unfolding list_all_iff by metis
qed

definition demo_ledger :: finance_db where
  "demo_ledger = (demo_db [demo_period 20 ''open''])\<lparr>accounts := map (\<lambda>(code, name, ty, normal, n). \<lparr>la_id = word_of_int n, la_org = 1,
     la_public_id = None, la_code = code, la_name = name, la_type = ty, la_normal_balance = normal, la_sort_order = n, la_is_active = True\<rparr>)
     standard_accounts\<rparr>"

definition demo_payday :: payroll_world where
  "demo_payday = demo_race_world\<lparr>pw_finance := demo_finance\<lparr>fw_db := demo_ledger\<rparr>\<rparr>"

abbreviation demo_paid :: "payroll_world \<times> (py_failure + int \<times> json)" where
  "demo_paid \<equiv> pay_run demo_payroll_env demo_clerk Delivered demo_run_id demo_payday"

lemma demo_paid_ok: "is_ok (snd demo_paid)"
  by code_simp

lemma demo_payday_facts:
  "find_run demo_payday (sc_org demo_clerk) 50 = Some demo_run" "distinct (map pr_id (pw_runs demo_payday))" "sc_key demo_clerk = None"
  "pr_status demo_run = ''approved''" "no_entry_for (sc_org demo_clerk) ''payroll'' 50 (fw_db (pw_finance demo_payday))"
  "entries (fw_db (pw_finance demo_payday)) = []" "picks_member (jv_fin (pye_service demo_payroll_env))"
  "pr_gross demo_run = 300000"
  using demo_picks
  by (simp_all add: find_run_def demo_payday_def demo_run_def new_run_def demo_clerk_def no_entry_for_def demo_ledger_def demo_db_def
      demo_payroll_env_def demo_journals_env_def)

lemma demo_uuid_facts:
  "public_id_from_str (jv_parse_uuid (pye_service demo_payroll_env)) demo_run_id = Inr (public_id_new ''PayrollRun'' 50)"
  "jv_parse_uuid (pye_service demo_payroll_env) (re_show_uuid (py_relay demo_payroll_env) (sc_org demo_clerk)) = Inr (sc_org demo_clerk)"
  "str_trim (re_show_uuid (py_relay demo_payroll_env) 50) \<noteq> []"
  "jv_parse_uuid (pye_service demo_payroll_env) (str_trim (re_show_uuid (py_relay demo_payroll_env) 50)) = Inr 50"
  by code_simp+

theorem paid_run_in_ledger_witness:
  "\<exists>e q. entries (fw_db (pw_finance (fst demo_paid))) = [e] \<and> je_source_type e = ''payroll'' \<and> je_source_id e = 50 \<and>
     debits (payroll_lines demo_run) = 300000 \<and> q \<in> set (pw_runs (fst demo_paid)) \<and> pr_status q = ''paid'' \<and>
     pr_journal_public q = Some (je_public_id e)"
proof -
  obtain w x where "demo_paid = (w, Inr x)" using demo_paid_ok by (cases "snd demo_paid") (auto simp: prod_eq_iff)
  from paid_run_in_ledger [OF this demo_uuid_facts(1) demo_payday_facts(1,4,2,3,7) demo_uuid_facts(2-4) demo_payday_facts(5)] this
  show ?thesis by (auto simp: journal_added_def demo_payday_facts)
qed

end
