(* ===== verification/Spec2Isabelle.thy ===== *)
theory Spec2Isabelle
  imports Invoice_Math Ledger Stock Workflow_Service Custom_Records Auth_Flows Approvals Payroll_Payment
begin

text \<open>
  Verification development of CompanyOS (noxara-os), a multi-tenant business platform of Rust
  services over Postgres.

  \<^bold>\<open>The program.\<close> Shared crates give every service its vocabulary: money in integer minor units
  (\<open>crates/money\<close>), prefixed public ids (\<open>crates/ids\<close>), error codes (\<open>crates/errors\<close>), event
  envelopes and tenants (\<open>crates/events\<close>, \<open>crates/tenancy\<close>), the permission catalogue and the
  decision point (\<open>crates/authz\<close>), and the transactional outbox with its relay (\<open>crates/outbox\<close>).
  A service handles a request by loading a principal from the membership and role tables, asking
  the decision point, and running one transaction that writes its own tables, one outbox row per
  event and an audit row. The relay publishes the outbox to NATS, from where the other services
  are fed. Row-level security confines a session to its organisation.

  \<^bold>\<open>The theories\<close>, from the crates to the services:

  \<^item> \<open>Prelude\<close>: integer ranges and wrap-around, results as sums with \<open>and_then\<close>, strings, lists, the
    locale \<open>transition_system\<close> for invariants of reachable states, and shared lemmas.
  \<^item> \<open>Json\<close>: \<open>serde_json::Value\<close>, with objects as sorted association lists.
  \<^item> \<open>Money\<close> (\<open>crates/money/src/lib.rs\<close>) and \<open>Invoice_Math\<close> (\<open>finance-service/src/invoice_math.rs\<close>,
    \<open>crm-service/src/quotes_math.rs\<close>): checked arithmetic, half-up rounding, largest-remainder
    allocation, line and document totals. Allocation is exact; the totals satisfy their identity.
  \<^item> \<open>Public_Ids\<close> (\<open>crates/ids/src/lib.rs\<close>), \<open>Errors\<close> (\<open>crates/errors/src/lib.rs\<close>), \<open>Events\<close>
    (\<open>crates/events/src/lib.rs\<close>, \<open>crates/tenancy/src/lib.rs\<close>): kinds and prefixes, parsing and
    printing, status codes, subjects and envelopes.
  \<^item> \<open>Perm_Catalogue\<close> and \<open>Authz\<close> (\<open>crates/authz/src\<close>): the whole catalogue and the decision:
    explicit deny wins, deny by default, how scopes and conditions interact. The locale
    \<open>restrictable\<close> states what an API key's restriction promises and is interpreted on
    \<open>intersect_scopes\<close>.
  \<^item> \<open>Grants\<close> (\<open>principal.rs\<close> of the core, finance and other services, \<open>core/src/enterprise/grants.rs\<close>):
    the principal that each loader computes, inherited grants and delegations, and the handlers
    that write them. The core loader is exact with respect to the tables; what the other loaders
    leave out is a theorem too.
  \<^item> \<open>Ledger\<close> (\<open>finance-service/src/journal.rs\<close>, \<open>periods.rs\<close>, \<open>numbering.rs\<close>): every reachable ledger
    balances; posting, periods and gapless numbers.
  \<^item> \<open>Outbox\<close> (\<open>crates/outbox/src/lib.rs\<close>, \<open>relay.rs\<close>, \<open>outbox-relay/src/main.rs\<close>): inserts, ticks,
    crashes, dead letters and replays as a step relation; no event is lost and the relay drains.
    The locale \<open>event_publisher\<close> is what the relay needs of a publisher.
  \<^item> \<open>Stock\<close> (\<open>inventory-service/src/stock.rs\<close>, \<open>valuation.rs\<close>, \<open>handlers/movements.rs\<close>): posting of
    movements, the level cache, reconciliation, idempotency, and the race of two transactions.
  \<^item> \<open>Workflow_Graph\<close>, \<open>Workflow_Engine\<close>, \<open>Workflow_Service\<close> (\<open>workflow-service/src\<close>): graphs and
    their validation, the dry run, the engine and every handler that changes state. The dry run
    refines the engine; published versions are immutable; requests are permitted; the cap on
    active instances is passed by no more starts than overlap. The
    locale \<open>tx_relation\<close> carries a relation on worlds through the transactions of the handlers.
  \<^item> \<open>Formula\<close>, \<open>Sandbox\<close>, \<open>Custom_Records\<close> (\<open>custom-service/src\<close>): the formula evaluator against the
    grammar, the metered script interpreter (locale \<open>script_relation\<close>), and the handlers of
    entities, records and scripts (locale \<open>cu_relation\<close>): no update is lost, saved records have
    the declared types, and what scripts can do to them.
  \<^item> \<open>Tokens\<close> (\<open>crates/auth-token/src/lib.rs\<close>), \<open>Sessions\<close> (\<open>core/src/auth/sessions.rs\<close>,
    \<open>extract.rs\<close>), \<open>Rate_Limit\<close> (\<open>rate_limit.rs\<close>) and \<open>Auth_Flows\<close> (\<open>handlers/mod.rs\<close>,
    \<open>handlers/flows.rs\<close>, \<open>lockout.rs\<close>, \<open>workspace/last_owner.rs\<close>): access tokens and the key ring,
    refresh tokens with reuse detection, the limiter, and the endpoints from login to key rotation.
    A family has one live token; reuse, and a password reset whose revocation works, end sessions
    for good; guessing is bounded by the time and the number of parallel requests. What the published keys and the setup of a second factor give away are theorems too.
    The locale \<open>flow_relation\<close> carries a relation on the session store through the endpoints, so
    the theorems on \<open>Sessions\<close> hold for every sequence of requests.
  \<^item> \<open>Approvals\<close> (\<open>project-service/src/approvals\<close>): versioned policies, routing, requests, decisions,
    escalation, delegation and the state machine of the worker. Decisions are final unless an
    escalation of the same approval is under way; what a decision asks for, and how escalation can take it back, are theorems. The locale
    \<open>world_relation\<close> carries relations through the handlers.
  \<^item> \<open>Journals\<close> (\<open>finance-service/src/handlers/journals.rs\<close>, \<open>auth.rs\<close>): the endpoint that posts
    journals for the other services, on top of \<open>Ledger\<close>.
  \<^item> \<open>Payroll\<close>, \<open>Payroll_Totals\<close> and \<open>Payroll_Payment\<close> (\<open>hr-service/src/handlers/payroll.rs\<close>, \<open>migrations/003_payroll.sql\<close>):
    components, runs, the calculation of payslips, approval, and the payment through the finance
    service. Approved and paid runs are immutable however stale the rows are that a handler has
    read, by the triggers of the database; the totals of a run are those of its payslips as long as
    calculations do not overlap; a payment
    that succeeds puts the run into the ledger, and none does without local authentication. The
    locale \<open>payroll_relation\<close> carries relations through the handlers.

  \<^bold>\<open>How state and errors correspond to the code.\<close> A table is a list of records with the columns the
  code reads; its primary keys, unique keys and checks are branches of the inserting definitions. A
  handler is a function from the state to the new state and an \<open>error + result\<close>; an error rolls the
  tables back, save where the code commits first. Panics are values. Fixed-width integers are
  \<open>int\<close> with range predicates, and wrap-around is written out where a release build wraps. Time,
  UUIDs, the printing of UUIDs and times, serde's typed conversions, floating-point arithmetic and
  the answers of other services are parameters, gathered in the \<open>env\<close> records; the hypotheses that
  theorems make on them (UUIDs that are fresh, a parser that inverts the printer) are in the
  statements, and every such theorem has a witness.

  \<^bold>\<open>Bounds and fuel.\<close> Loops of the code are recursion over data where they walk over data. The engine
  runs at most the step cap plus five iterations, as the code does; the dry run takes the cap of
  the code. The formula parser's loops are bounded by the length of the remaining text, and the
  nesting by the length of the whole: \<open>eval_formula_total\<close> shows that the bounds are never reached.
  The sandbox needs no fuel: its busy wait ends because every round spends an operation. The walk
  over parent teams ends because the loader keeps the teams it has visited.

  \<^bold>\<open>Interleaving.\<close> Few handlers lock what they read. A handler is one step where the code locks the
  rows it later writes, or writes them on a condition, and where a theorem says that calls are
  served one after another. Where an unguarded read comes before the write and a property depends
  on it, the handler is split, and steps of others come in between:
  \<^item> Stock levels: two postings that both read first lose an update, which is why \<open>stock_cache_exact\<close>
    asks for serial transactions.
  \<^item> Workflow starts count the active instances and insert later (\<open>begin_seen\<close>, \<open>trigger_begin\<close>);
    \<open>concurrency_cap_holds\<close> bounds the excess by the number of starts in flight, and its witness
    reaches it.
  \<^item> \<open>login\<close> is \<open>login_lookup\<close> and then \<open>login_compare\<close>: \<open>password_guess_rate\<close> counts what is in
    flight, and \<open>parallel_guess_passes_lock\<close> shows a guess compared after the account was locked.
  \<^item> Magic links and password resets look the token up and consume it later (\<open>use_magic_link\<close>,
    \<open>store_password\<close>); a reset revokes the sessions on a connection of its own, which may fail
    unnoticed (\<open>reset_hides_failed_revocation\<close>).
  \<^item> The last owner of an organisation is protected by a count without a lock (\<open>last_owner_race\<close>).
  \<^item> Escalations read an approval and write it later: \<open>decisions_final\<close>, \<open>escalation_reopens_decision\<close>.
  \<^item> Payroll handlers may act on any row they have seen earlier (\<open>payroll_race\<close>). That keeps approved
    runs intact but not the totals (\<open>overlapping_calculations\<close>).
  The remaining handlers (the second factor, the requests for mails, the creation of approvals and
  policies, grants and delegations, the builder of custom entities) are served whole, some of them
  without a lock in the code; what is proved of them is meant for calls that do not overlap. The
  relay is modelled with crashes between its effects.

  \<^bold>\<open>Not modelled.\<close> HTTP extraction and routing, SQL as a language, migrations, process start, the web
  and mobile apps; wrappers of libraries (\<open>crypto\<close>, \<open>telemetry\<close>, Argon2, TOTP, JWT); registration,
  OAuth and SSO; the other handlers of finance and HR, and those of CRM, projects and tasks, AI,
  analytics, search, file, notification and integration services; the administrative handlers of
  the core service. They are left out for their size, not because they resist modelling.
\<close>

end
